(* ===== verification/Prelude.thy ===== *)
theory Prelude
  imports Main
begin

text \<open>
  Shared vocabulary of the development.

  The server code is asynchronous TypeScript that either returns a value or throws, and that
  reads and writes state on the way. An operation is therefore a function from the state before
  to the thrown error (\<^theory_text>\<open>Inl\<close>) or the returned value (\<^theory_text>\<open>Inr\<close>), together with the state after.
  The combinators below are the sequencing, throwing and catching of the source; the two
  collections \<^theory_text>\<open>op_defs\<close> and \<^theory_text>\<open>keeps_intros\<close> let the component proofs run by \<^theory_text>\<open>simp\<close> and \<^theory_text>\<open>intro\<close>.
\<close>

named_theorems op_defs \<open>unfolding rules of the error-and-state operations\<close>
named_theorems keeps_intros \<open>rules that an operation keeps a state predicate\<close>

type_synonym ('s, 'e, 'a) op = "'s \<Rightarrow> ('e + 'a) \<times> 's"

definition ret :: "'a \<Rightarrow> ('s, 'e, 'a) op" where
  "ret x = (\<lambda>s. (Inr x, s))"

definition raise :: "'e \<Rightarrow> ('s, 'e, 'a) op" where
  "raise e = (\<lambda>s. (Inl e, s))"

definition andThen :: "('s, 'e, 'a) op \<Rightarrow> ('a \<Rightarrow> ('s, 'e, 'b) op) \<Rightarrow> ('s, 'e, 'b) op" where
  "andThen m k = (\<lambda>s. case m s of (Inl e, t) \<Rightarrow> (Inl e, t) | (Inr x, t) \<Rightarrow> k x t)"

definition reading :: "('s \<Rightarrow> 'a) \<Rightarrow> ('s, 'e, 'a) op" where
  "reading f = (\<lambda>s. (Inr (f s), s))"

definition writing :: "('s \<Rightarrow> 's) \<Rightarrow> ('s, 'e, unit) op" where
  "writing f = (\<lambda>s. (Inr (), f s))"

text \<open>A \<^theory_text>\<open>try\<close> block: the handler runs in the state the failing body left.\<close>

definition catching :: "('s, 'e, 'a) op \<Rightarrow> ('e \<Rightarrow> ('s, 'e, 'a) op) \<Rightarrow> ('s, 'e, 'a) op" where
  "catching m h = (\<lambda>s. case m s of (Inl e, t) \<Rightarrow> h e t | (Inr x, t) \<Rightarrow> (Inr x, t))"

definition guard :: "bool \<Rightarrow> 'e \<Rightarrow> ('s, 'e, unit) op" where
  "guard b e = (if b then ret () else raise e)"

text \<open>A \<^theory_text>\<open>for ... of\<close> loop whose body updates an accumulator; the first error stops it.\<close>

fun foldOp :: "('a \<Rightarrow> 'b \<Rightarrow> ('s, 'e, 'b) op) \<Rightarrow> 'a list \<Rightarrow> 'b \<Rightarrow> ('s, 'e, 'b) op" where
  "foldOp f [] acc = ret acc"
| "foldOp f (x # xs) acc = andThen (f x acc) (foldOp f xs)"

lemmas op_basic [op_defs] = ret_def raise_def reading_def writing_def guard_def

lemma andThen_Inr [op_defs]: "m s = (Inr x, t) \<Longrightarrow> andThen m k s = k x t"
  by (simp add: andThen_def)

lemma andThen_Inl [op_defs]: "m s = (Inl e, t) \<Longrightarrow> andThen m k s = (Inl e, t)"
  by (simp add: andThen_def)

lemma andThen_ret [simp]: "andThen (ret x) k = k x"
  by (simp add: andThen_def ret_def)

lemma andThen_raise [simp]: "andThen (raise e) k = raise e"
  by (simp add: andThen_def raise_def)

lemma andThen_assoc: "andThen (andThen m k) l = andThen m (\<lambda>x. andThen (k x) l)"
  by (rule ext) (simp add: andThen_def split: prod.splits sum.splits)

lemma andThen_InrE:
  assumes "andThen m k s = (Inr y, u)"
  obtains x t where "m s = (Inr x, t)" and "k x t = (Inr y, u)"
  using assms by (auto simp: andThen_def split: prod.splits sum.splits)

lemma andThen_InlE:
  assumes "andThen m k s = (Inl e, u)"
  obtains "m s = (Inl e, u)" | x t where "m s = (Inr x, t)" and "k x t = (Inl e, u)"
  using assms by (auto simp: andThen_def split: prod.splits sum.splits)

subsection \<open>Operations that keep a predicate of the state\<close>

definition keeps :: "('s \<Rightarrow> bool) \<Rightarrow> ('s, 'e, 'a) op \<Rightarrow> bool" where
  "keeps P m \<longleftrightarrow> (\<forall>s. P s \<longrightarrow> P (snd (m s)))"

lemma keepsI: "(\<And>s. P s \<Longrightarrow> P (snd (m s))) \<Longrightarrow> keeps P m"
  by (simp add: keeps_def)

lemma keepsD: "keeps P m \<Longrightarrow> P s \<Longrightarrow> m s = (r, t) \<Longrightarrow> P t"
  by (metis keeps_def snd_conv)

lemma keeps_ret [keeps_intros]: "keeps P (ret x)"
  by (simp add: keeps_def ret_def)

lemma keeps_raise [keeps_intros]: "keeps P (raise e)"
  by (simp add: keeps_def raise_def)

lemma keeps_reading [keeps_intros]: "keeps P (reading f)"
  by (simp add: keeps_def reading_def)

lemma keeps_writing: "(\<And>s. P s \<Longrightarrow> P (f s)) \<Longrightarrow> keeps P (writing f)"
  by (simp add: keeps_def writing_def)

lemma keeps_guard [keeps_intros]: "keeps P (guard b e)"
  by (simp add: guard_def keeps_intros)

lemma keeps_andThen [keeps_intros]:
  "keeps P m \<Longrightarrow> (\<And>x. keeps P (k x)) \<Longrightarrow> keeps P (andThen m k)"
  by (simp add: keeps_def andThen_def split: prod.splits sum.splits) (metis snd_conv)

lemma keeps_catching [keeps_intros]:
  "keeps P m \<Longrightarrow> (\<And>e. keeps P (h e)) \<Longrightarrow> keeps P (catching m h)"
  by (simp add: keeps_def catching_def split: prod.splits sum.splits) (metis snd_conv)

lemma keeps_if [keeps_intros]: "keeps P m \<Longrightarrow> keeps P n \<Longrightarrow> keeps P (if b then m else n)"
  by simp

lemma keeps_option [keeps_intros]:
  "keeps P m \<Longrightarrow> (\<And>x. keeps P (k x)) \<Longrightarrow> keeps P (case v of None \<Rightarrow> m | Some x \<Rightarrow> k x)"
  by (cases v) auto

lemma keeps_foldOp [keeps_intros]:
  "(\<And>x b. keeps P (f x b)) \<Longrightarrow> keeps P (foldOp f xs acc)"
  by (induction xs arbitrary: acc) (auto intro: keeps_intros)

subsection \<open>Computations that may throw but keep no state\<close>

fun ebind :: "'e + 'a \<Rightarrow> ('a \<Rightarrow> 'e + 'b) \<Rightarrow> 'e + 'b" where
  "ebind (Inl e) k = Inl e"
| "ebind (Inr x) k = k x"

text \<open>\<^theory_text>\<open>emap\<close> is \<^theory_text>\<open>map\<close> with a callback that may throw; \<^theory_text>\<open>efold\<close> a loop over an accumulator.\<close>

fun emap :: "('a \<Rightarrow> 'e + 'b) \<Rightarrow> 'a list \<Rightarrow> 'e + 'b list" where
  "emap f [] = Inr []"
| "emap f (x # xs) = ebind (f x) (\<lambda>y. ebind (emap f xs) (\<lambda>ys. Inr (y # ys)))"

fun efold :: "('a \<Rightarrow> 'b \<Rightarrow> 'e + 'b) \<Rightarrow> 'a list \<Rightarrow> 'b \<Rightarrow> 'e + 'b" where
  "efold f [] acc = Inr acc"
| "efold f (x # xs) acc = ebind (f x acc) (efold f xs)"

lemma ebind_InrE:
  assumes "ebind m k = Inr y"
  obtains x where "m = Inr x" and "k x = Inr y"
  using assms by (cases m) auto

lemma ebind_Inr_iff: "ebind m k = Inr y \<longleftrightarrow> (\<exists>x. m = Inr x \<and> k x = Inr y)"
  by (cases m) auto

lemma emap_Inr_iff: "emap f xs = Inr ys \<longleftrightarrow> list_all2 (\<lambda>x y. f x = Inr y) xs ys"
  by (induction xs arbitrary: ys) (auto simp: ebind_Inr_iff list_all2_Cons1)

lemma emap_length: "emap f xs = Inr ys \<Longrightarrow> length ys = length xs"
  by (auto simp: emap_Inr_iff dest: list_all2_lengthD)

lemma efold_invariant:
  assumes "efold f xs acc = Inr r" "P acc"
    and "\<And>x a b. x \<in> set xs \<Longrightarrow> f x a = Inr b \<Longrightarrow> P a \<Longrightarrow> P b"
  shows "P r"
  using assms by (induction xs arbitrary: acc) (auto simp: ebind_Inr_iff)

subsubsection \<open>Loops that succeed\<close>

lemma efold_succeeds_iff:
  "(\<And>x acc. (\<exists>b. f x acc = Inr b) \<longleftrightarrow> P x) \<Longrightarrow> (\<exists>r. efold f xs acc = Inr r) \<longleftrightarrow> list_all P xs"
proof (induction xs arbitrary: acc)
  case (Cons x xs)
  have "(\<exists>r. efold f (x # xs) acc = Inr r) \<longleftrightarrow> (\<exists>b. f x acc = Inr b \<and> (\<exists>r. efold f xs b = Inr r))"
    by (auto simp: ebind_Inr_iff)
  also have "\<dots> \<longleftrightarrow> (\<exists>b. f x acc = Inr b \<and> list_all P xs)" using Cons by blast
  also have "\<dots> \<longleftrightarrow> P x \<and> list_all P xs" using Cons.prems [of x acc] by blast
  finally show ?case by simp
qed simp

lemma emap_total:
  "(\<And>x. x \<in> set xs \<Longrightarrow> \<exists>y. f x = Inr y \<and> P x y) \<Longrightarrow> \<exists>ys. emap f xs = Inr ys \<and> list_all2 P xs ys"
proof (induction xs)
  case (Cons x xs)
  then obtain y ys where "f x = Inr y" "P x y" "emap f xs = Inr ys" "list_all2 P xs ys" by fastforce
  then show ?case by auto
qed simp

lemma list_all2_filter:
  "list_all2 R xs ys \<Longrightarrow> (\<And>x y. R x y \<Longrightarrow> P x = Q y) \<Longrightarrow> list_all2 R (filter P xs) (filter Q ys)"
  by (induction rule: list_all2_induct) auto

lemma list_all2_map_eq: "list_all2 R xs ys \<Longrightarrow> (\<And>x y. R x y \<Longrightarrow> f x = g y) \<Longrightarrow> map f xs = map g ys"
  by (induction rule: list_all2_induct) auto

lemma emap_map: "emap f (map g xs) = emap (\<lambda>x. f (g x)) xs"
  by (induction xs) auto

lemma ebind_assoc: "ebind (ebind m f) g = ebind m (\<lambda>x. ebind (f x) g)"
  by (cases m) auto

lemma list_all2_right: "list_all2 R xs ys \<Longrightarrow> (\<And>x y. R x y \<Longrightarrow> Q y) \<Longrightarrow> list_all Q ys"
  by (induction rule: list_all2_induct) auto

lemma list_all2_right_source: "list_all2 R xs ys \<Longrightarrow> \<forall>y \<in> set ys. \<exists>x \<in> set xs. R x y"
  by (induction rule: list_all2_induct) auto

lemma emap_succeeds_iff: "(\<exists>ys. emap f xs = Inr ys) \<longleftrightarrow> list_all (\<lambda>x. \<exists>y. f x = Inr y) xs"
proof (induction xs)
  case (Cons x xs)
  have "(\<exists>ys. emap f (x # xs) = Inr ys) \<longleftrightarrow> (\<exists>y. f x = Inr y) \<and> (\<exists>ys. emap f xs = Inr ys)"
    by (auto simp: ebind_Inr_iff)
  with Cons show ?case by simp
qed simp

text \<open>Two pending computations: whether the code returns at all, then whether it throws.\<close>

definition then_return :: "('e + 'a) option \<Rightarrow> ('a \<Rightarrow> ('e + 'b) option) \<Rightarrow> ('e + 'b) option" where
  "then_return m k = (case m of None \<Rightarrow> None | Some (Inl e) \<Rightarrow> Some (Inl e) | Some (Inr x) \<Rightarrow> k x)"

lemma then_return_simps [simp]:
  "then_return None k = None"
  "then_return (Some (Inl e)) k = Some (Inl e)"
  "then_return (Some (Inr x)) k = k x"
  by (simp_all add: then_return_def)

subsection \<open>Lists\<close>

lemma find_SomeD: "find P xs = Some x \<Longrightarrow> x \<in> set xs \<and> P x"
  by (auto simp: find_Some_iff)

lemma find_append: "find P (xs @ ys) = (case find P xs of None \<Rightarrow> find P ys | Some x \<Rightarrow> Some x)"
  by (induction xs) auto

lemma length_filter_map_eq:
  "(\<And>x. x \<in> set xs \<Longrightarrow> P (f x) = P x) \<Longrightarrow> length (filter P (map f xs)) = length (filter P xs)"
  by (induction xs) auto

subsection \<open>Sets in insertion order\<close>

text \<open>\<^verbatim>\<open>[...new Set(xs)]\<close>: the elements in the order of their first occurrence.\<close>

definition set_entries :: "'a list \<Rightarrow> 'a list" where
  "set_entries xs = rev (remdups (rev xs))"

lemma set_entries_facts [simp]: "set (set_entries xs) = set xs" "distinct (set_entries xs)"
  by (simp_all add: set_entries_def)

lemma length_set_entries: "length (set_entries xs) = card (set xs)"
  by (simp add: set_entries_def length_remdups_card_conv)

end
