(* ===== verification/Js_String.thy ===== *)
theory Js_String
  imports Prelude "HOL-Library.Char_ord" "HOL-Library.List_Lexorder"
begin

text \<open>
  JavaScript strings. A \<^theory_text>\<open>string\<close> is a list of code units; the development works with the code
  units U+0000 to U+00FF, which HOL's \<^theory_text>\<open>char\<close> covers. On these, the default array sort of the
  source and SQLite's binary collation are the lexicographic order of \<^theory_text>\<open>HOL-Library.List_Lexorder\<close>,
  \<^theory_text>\<open>trim\<close> removes the white space and line terminators of ECMA-262, and \<^theory_text>\<open>toLocaleLowerCase("und")\<close>
  is the Latin-1 case mapping. Decimal printing and parsing of naturals are here as well.
\<close>

subsection \<open>White space and case\<close>

definition is_space :: "char \<Rightarrow> bool" where
  "is_space c = (let n = of_char c in n \<in> {9, 10, 11, 12, 13, 32, 160 :: nat})"

definition trim_start :: "string \<Rightarrow> string" where
  "trim_start s = dropWhile is_space s"

definition trim :: "string \<Rightarrow> string" where
  "trim s = rev (trim_start (rev (trim_start s)))"

definition lower_char :: "char \<Rightarrow> char" where
  "lower_char c =
     (let n = of_char c :: nat
      in if 65 \<le> n \<and> n \<le> 90 \<or> 192 \<le> n \<and> n \<le> 222 \<and> n \<noteq> 215 then char_of (n + 32) else c)"

definition to_lower :: "string \<Rightarrow> string" where
  "to_lower s = map lower_char s"

lemma dropWhile_idem: "dropWhile P (dropWhile P s) = dropWhile P s"
  by (induction s) auto

lemma trim_eq_Nil: "trim s = [] \<longleftrightarrow> (\<forall>c \<in> set s. is_space c)"
proof -
  have "trim s = [] \<longleftrightarrow> (\<forall>c \<in> set (dropWhile is_space s). is_space c)"
    by (simp add: trim_def trim_start_def dropWhile_eq_Nil_conv)
  also have "\<dots> \<longleftrightarrow> (\<forall>c \<in> set s. is_space c)"
    by (metis dropWhile_eq_Nil_conv dropWhile_idem)
  finally show ?thesis .
qed

lemma lower_char_facts:
  "lower_char (lower_char c) = lower_char c" "is_space (lower_char c) = is_space c"
  unfolding lower_char_def is_space_def Let_def by auto

lemma trim_start_to_lower: "trim_start (to_lower s) = to_lower (trim_start s)"
  by (simp add: trim_start_def to_lower_def dropWhile_map comp_def lower_char_facts)

lemma trim_to_lower: "trim (to_lower s) = to_lower (trim s)"
proof -
  have "rev (to_lower u) = to_lower (rev u)" for u by (simp add: to_lower_def rev_map)
  then show ?thesis by (simp add: trim_def trim_start_to_lower)
qed

lemma to_lower_idem [simp]: "to_lower (to_lower s) = to_lower s"
  by (simp add: to_lower_def lower_char_facts comp_def)

lemma trim_idem [simp]: "trim (trim s) = trim s"
proof -
  have "dropWhile is_space (rev (dropWhile is_space (rev u))) = rev (dropWhile is_space (rev u))"
    if "u = [] \<or> \<not> is_space (hd u)" for u
  proof (cases u)
    case (Cons c v)
    with that have "\<not> is_space c" by simp
    then have "rev (dropWhile is_space (rev (c # v))) = c # rev (dropWhile is_space (rev v))"
      by (simp add: dropWhile_append)
    with Cons \<open>\<not> is_space c\<close> show ?thesis by simp
  qed simp
  moreover have "dropWhile is_space s = [] \<or> \<not> is_space (hd (dropWhile is_space s))"
    by (metis hd_dropWhile dropWhile_eq_Nil_conv)
  ultimately show ?thesis by (simp add: trim_def trim_start_def dropWhile_idem)
qed

text \<open>\<^verbatim>\<open>s.includes(p)\<close> and \<^verbatim>\<open>s.startsWith(p)\<close>.\<close>

definition starts_with :: "string \<Rightarrow> string \<Rightarrow> bool" where
  "starts_with p s = (take (length p) s = p)"

fun includes_text :: "string \<Rightarrow> string \<Rightarrow> bool" where
  "includes_text p [] = (p = [])"
| "includes_text p (c # s) = (starts_with p (c # s) \<or> includes_text p s)"

lemma includes_text_prefix: "includes_text p (p @ s)"
proof (cases "p @ s")
  case Nil
  then show ?thesis by simp
next
  case (Cons c t)
  have "starts_with p (p @ s)" by (simp add: starts_with_def)
  with Cons show ?thesis by simp
qed

subsection \<open>Decimal digits\<close>

definition digit_char :: "nat \<Rightarrow> char" where
  "digit_char d = char_of (48 + d)"

definition is_digit :: "char \<Rightarrow> bool" where
  "is_digit c = (let n = of_char c :: nat in 48 \<le> n \<and> n \<le> 57)"

definition digit_val :: "char \<Rightarrow> nat" where
  "digit_val c = of_char c - 48"

fun dec :: "nat \<Rightarrow> string" where
  "dec n = (if n < 10 then [digit_char n] else dec (n div 10) @ [digit_char (n mod 10)])"

declare dec.simps [simp del]

definition undec :: "string \<Rightarrow> nat" where
  "undec s = foldl (\<lambda>a c. 10 * a + digit_val c) 0 s"

definition int_dec :: "int \<Rightarrow> string" where
  "int_dec i = (if i < 0 then CHR ''-'' # dec (nat (- i)) else dec (nat i))"

definition pad_start :: "nat \<Rightarrow> string \<Rightarrow> string" where
  "pad_start w s = replicate (w - length s) CHR ''0'' @ s"

definition pad_end :: "nat \<Rightarrow> string \<Rightarrow> string" where
  "pad_end w s = s @ replicate (w - length s) CHR ''0''"

lemma digit_of_char: "d < 10 \<Longrightarrow> (of_char (digit_char d) :: nat) = 48 + d"
  by (simp add: digit_char_def)

lemma is_digit_digit_char [simp]: "d < 10 \<Longrightarrow> is_digit (digit_char d)"
  by (simp add: is_digit_def digit_of_char)

lemma digit_val_digit_char [simp]: "d < 10 \<Longrightarrow> digit_val (digit_char d) = d"
  by (simp add: digit_val_def digit_of_char)

lemma digit_char_0: "digit_char 0 = CHR ''0''"
  by code_simp

lemma digit_val_zero [simp]: "digit_val CHR ''0'' = 0"
  by code_simp

lemma is_digit_zero [simp]: "is_digit CHR ''0''"
  by code_simp

lemma digit_char_digit_val [simp]: "is_digit c \<Longrightarrow> digit_char (digit_val c) = c"
  by (simp add: is_digit_def digit_val_def digit_char_def Let_def)

lemma digit_val_less [simp]: "is_digit c \<Longrightarrow> digit_val c < 10"
  by (auto simp: is_digit_def digit_val_def Let_def)

lemma undec_Nil [simp]: "undec [] = 0"
  by (simp add: undec_def)

lemma undec_snoc [simp]: "undec (s @ [c]) = 10 * undec s + digit_val c"
  by (simp add: undec_def)

lemma undec_append: "undec (s @ t) = undec s * 10 ^ length t + undec t"
proof (induction t rule: rev_induct)
  case Nil
  then show ?case by simp
next
  case (snoc c t)
  then show ?case by (simp add: append_assoc [symmetric] algebra_simps del: append_assoc)
qed

lemma undec_Cons: "undec (c # s) = digit_val c * 10 ^ length s + undec s"
  using undec_append [of "[c]" s] undec_snoc [of "[]" c] by simp

lemma undec_zeros [simp]: "undec (replicate k CHR ''0'') = 0"
  by (induction k) (auto simp: undec_Cons)

lemma undec_less: "\<forall>c \<in> set s. is_digit c \<Longrightarrow> undec s < 10 ^ length s"
proof (induction s rule: rev_induct)
  case Nil
  then show ?case by simp
next
  case (snoc c s)
  then have "undec s < 10 ^ length s" "digit_val c < 10" by auto
  then show ?case by simp
qed

lemma dec_digits: "c \<in> set (dec n) \<Longrightarrow> is_digit c"
proof (induction n rule: dec.induct)
  case (1 n)
  then show ?case by (subst (asm) dec.simps) (auto split: if_splits)
qed

lemma undec_dec [simp]: "undec (dec n) = n"
proof (induction n rule: dec.induct)
  case (1 n)
  then show ?case by (subst dec.simps) (auto simp: undec_Cons)
qed

lemma dec_not_Nil [simp]: "dec n \<noteq> []"
  by (subst dec.simps) auto

lemma dec_inject [simp]: "dec m = dec n \<longleftrightarrow> m = n"
  by (metis undec_dec)

lemma dec_length_bound: "n < 10 ^ Suc k \<Longrightarrow> length (dec n) \<le> Suc k"
proof (induction k arbitrary: n)
  case 0
  then show ?case by (subst dec.simps) auto
next
  case (Suc k)
  show ?case
  proof (cases "n < 10")
    case True
    then show ?thesis by (subst dec.simps) auto
  next
    case False
    from Suc.prems have "n div 10 < 10 ^ Suc k" by (simp add: less_mult_imp_div_less)
    with Suc.IH False show ?thesis by (subst dec.simps) auto
  qed
qed

lemma length_pad_start: "length s \<le> w \<Longrightarrow> length (pad_start w s) = w"
  by (simp add: pad_start_def)

lemma undec_pad_start [simp]: "undec (pad_start w s) = undec s"
  by (simp add: pad_start_def undec_append)

lemma pad_start_digits: "\<forall>c \<in> set s. is_digit c \<Longrightarrow> c \<in> set (pad_start w s) \<Longrightarrow> is_digit c"
  by (auto simp: pad_start_def)

lemma undec_pad_end: "undec (pad_end w s) = undec s * 10 ^ (w - length s)"
  by (simp add: pad_end_def undec_append)

text \<open>Strings of digits of one length compare as the numbers they denote.\<close>

lemma digit_less_iff: "is_digit c \<Longrightarrow> is_digit d \<Longrightarrow> c < d \<longleftrightarrow> digit_val c < digit_val d"
  by (auto simp: is_digit_def digit_val_def less_char_def Let_def)

lemma digits_less_iff:
  assumes "length s = length t" "\<forall>c \<in> set s. is_digit c" "\<forall>c \<in> set t. is_digit c"
  shows "s < t \<longleftrightarrow> undec s < undec t"
  using assms
proof (induction s t rule: list_induct2)
  case Nil
  then show ?case by simp
next
  case (Cons c s d t)
  have b: "undec s < 10 ^ length s" "undec t < 10 ^ length s"
    using Cons.prems Cons.hyps undec_less [of s] undec_less [of t] by auto
  have eq: "c = d \<longleftrightarrow> digit_val c = digit_val d"
    using Cons.prems by (metis digit_char_digit_val list.set_intros(1))
  show ?case
  proof (cases "digit_val c = digit_val d")
    case True
    with eq Cons show ?thesis by (auto simp: undec_Cons)
  next
    case False
    then have ne: "c \<noteq> d" using eq by simp
    have lt: "c < d \<longleftrightarrow> digit_val c < digit_val d"
      using Cons.prems by (intro digit_less_iff) auto
    have step: "x * 10 ^ length s + u < y * 10 ^ length s + v"
      if "x < y" "u < 10 ^ length s" for x y u v :: nat
    proof -
      have "x * 10 ^ length s + u < Suc x * 10 ^ length s" using that by simp
      also have "\<dots> \<le> y * 10 ^ length s" using that by (intro mult_le_mono1) simp
      finally show ?thesis by simp
    qed
    show ?thesis
    proof (cases "digit_val c < digit_val d")
      case True
      with lt ne step [OF True b(1)] Cons.hyps show ?thesis by (simp add: undec_Cons)
    next
      case 2: False
      with False have gt: "digit_val d < digit_val c" by simp
      from step [OF gt b(2)] 2 lt ne Cons.hyps show ?thesis
        by (simp add: undec_Cons) (metis less_asym)
    qed
  qed
qed


subsection \<open>Evaluation of closed terms\<close>

text \<open>\<^theory_text>\<open>dec.simps\<close> restricted to numerals, so that the simplifier prints concrete numbers.\<close>

lemma dec_numeral: "dec (numeral k) =
    (if (numeral k :: nat) < 10 then [digit_char (numeral k)]
     else dec (numeral k div 10) @ [digit_char (numeral k mod 10)])"
  by (rule dec.simps)

lemma dec_one: "dec 1 = [digit_char 1]" "dec (Suc 0) = [digit_char 1]" "dec 0 = [digit_char 0]"
  by (simp_all add: dec.simps)

lemma digit_chars:
  "digit_char 0 = CHR ''0''" "digit_char 1 = CHR ''1''" "digit_char (Suc 0) = CHR ''1''"
  "digit_char 2 = CHR ''2''" "digit_char 3 = CHR ''3''" "digit_char 4 = CHR ''4''"
  "digit_char 5 = CHR ''5''" "digit_char 6 = CHR ''6''" "digit_char 7 = CHR ''7''"
  "digit_char 8 = CHR ''8''" "digit_char 9 = CHR ''9''"
  by code_simp+

lemma digit_vals:
  "digit_val CHR ''0'' = 0" "digit_val CHR ''1'' = 1" "digit_val CHR ''2'' = 2"
  "digit_val CHR ''3'' = 3" "digit_val CHR ''4'' = 4" "digit_val CHR ''5'' = 5"
  "digit_val CHR ''6'' = 6" "digit_val CHR ''7'' = 7" "digit_val CHR ''8'' = 8"
  "digit_val CHR ''9'' = 9"
  by code_simp+

lemma is_digits:
  "is_digit CHR ''0''" "is_digit CHR ''1''" "is_digit CHR ''2''" "is_digit CHR ''3''"
  "is_digit CHR ''4''" "is_digit CHR ''5''" "is_digit CHR ''6''" "is_digit CHR ''7''"
  "is_digit CHR ''8''" "is_digit CHR ''9''" "\<not> is_digit CHR ''.''" "\<not> is_digit CHR ''-''"
  by code_simp+

lemmas decimal_eval = dec_numeral dec_one digit_chars digit_vals is_digits undec_Cons pad_start_def

end
