(* ===== verification/Fixed_Decimal.thy ===== *)
theory Fixed_Decimal
  imports Js_String "HOL-Library.Signed_Division" Complex_Main
begin

text \<open>
  \<^verbatim>\<open>src/domain/fixed-decimal.ts\<close>: decimal numbers as a bigint number of units and a scale.
  A bigint is an \<^theory_text>\<open>int\<close>; its division and remainder truncate towards zero, which is
  \<^theory_text>\<open>sdiv\<close> and \<^theory_text>\<open>smod\<close> of \<^theory_text>\<open>HOL-Library.Signed_Division\<close>. A thrown \<^theory_text>\<open>TypeError\<close> or
  \<^theory_text>\<open>RangeError\<close> is \<^theory_text>\<open>Inl\<close>. \<^theory_text>\<open>fixed_value\<close> is the rational number a decimal denotes.
\<close>

record fixed_decimal =
  units :: int
  scale :: nat

datatype js_error = TypeError string | RangeError string

text \<open>The scan of \<^verbatim>\<open>/^(0|[1-9][0-9]*)(?:\.([0-9]+))?$/u\<close>: the two captured groups.\<close>

definition whole_part_ok :: "string \<Rightarrow> bool" where
  "whole_part_ok w \<longleftrightarrow> w = ''0'' \<or> w \<noteq> [] \<and> hd w \<noteq> CHR ''0''"

definition match_decimal :: "string \<Rightarrow> (string \<times> string) option" where
  "match_decimal s =
     (let w = takeWhile is_digit s; r = dropWhile is_digit s
      in if \<not> whole_part_ok w then None
         else case r of
                [] \<Rightarrow> Some (w, [])
              | c # f \<Rightarrow> if c = CHR ''.'' \<and> f \<noteq> [] \<and> list_all is_digit f then Some (w, f) else None)"

fun strip_zeros :: "int \<Rightarrow> nat \<Rightarrow> fixed_decimal" where
  "strip_zeros u 0 = \<lparr>units = u, scale = 0\<rparr>"
| "strip_zeros u (Suc k) =
     (if u smod 10 = 0 then strip_zeros (u sdiv 10) k else \<lparr>units = u, scale = Suc k\<rparr>)"

definition normalizeFixedDecimal :: "fixed_decimal \<Rightarrow> fixed_decimal" where
  "normalizeFixedDecimal v =
     (if units v = 0 then \<lparr>units = 0, scale = 0\<rparr> else strip_zeros (units v) (scale v))"

definition parsePositiveFixedDecimal :: "string \<Rightarrow> string \<Rightarrow> js_error + fixed_decimal" where
  "parsePositiveFixedDecimal s field =
     (case match_decimal s of
        None \<Rightarrow> Inl (TypeError (field @ '' must be a positive decimal string.''))
      | Some (w, f) \<Rightarrow>
          let u = int (undec (w @ f))
          in if u = 0 then Inl (TypeError (field @ '' must be positive.''))
             else Inr (normalizeFixedDecimal \<lparr>units = u, scale = length f\<rparr>))"

definition divideHalfUp :: "int \<Rightarrow> int \<Rightarrow> js_error + int" where
  "divideHalfUp n d =
     (if d = 0 then Inl (RangeError ''Division by zero'')
      else let q = n sdiv d; r = n smod d in Inr (if r * 2 \<ge> d then q + 1 else q))"

definition tenTo :: "nat \<Rightarrow> int" where
  "tenTo e = 10 ^ e"

definition formatFixedDecimalScale :: "fixed_decimal \<Rightarrow> nat \<Rightarrow> js_error + string" where
  "formatFixedDecimalScale v k =
     (if scale v > k
      then Inl (TypeError ''A fixed decimal cannot be formatted at lower precision.'')
      else
        let scaled = units v * tenTo (k - scale v);
            sign = (if scaled < 0 then ''-'' else '''');
            absolute = nat \<bar>scaled\<bar>
        in if k = 0 then Inr (sign @ dec absolute)
           else let padded = pad_start (k + 1) (dec absolute)
                in Inr (sign @ take (length padded - k) padded @ ''.'' @
                        drop (length padded - k) padded))"

definition formatFixedDecimal :: "fixed_decimal \<Rightarrow> js_error + string" where
  "formatFixedDecimal v =
     (let n = normalizeFixedDecimal v in formatFixedDecimalScale n (scale n))"

text \<open>The number denoted, and the decimals that \<^theory_text>\<open>normalizeFixedDecimal\<close> returns.\<close>

definition fixed_value :: "fixed_decimal \<Rightarrow> rat" where
  "fixed_value v = of_int (units v) / 10 ^ scale v"

definition is_normal :: "fixed_decimal \<Rightarrow> bool" where
  "is_normal v \<longleftrightarrow> (if units v = 0 then scale v = 0 else scale v = 0 \<or> \<not> 10 dvd units v)"

subsection \<open>Truncating division\<close>

lemma sdiv_smod_int: "(d::int) * (n sdiv d) + n smod d = n"
  by (rule mult_sdiv_smod_eq)

lemma smod_eq_0_iff: "(u::int) smod 10 = 0 \<longleftrightarrow> 10 dvd u"
  by (auto simp: signed_modulo_int_def sgn_0_0 dvd_eq_mod_eq_0 [symmetric])

lemma sdiv_10_exact: "10 dvd u \<Longrightarrow> 10 * (u sdiv 10) = (u::int)"
  using sdiv_smod_int [of 10 u] smod_eq_0_iff [of u] by simp

lemma sdiv_nonneg: "0 \<le> n \<Longrightarrow> 0 < d \<Longrightarrow> (n::int) sdiv d = n div d"
  by (cases "n = 0") (simp_all add: signed_divide_int_def)

lemma smod_nonneg: "0 \<le> n \<Longrightarrow> 0 < d \<Longrightarrow> (n::int) smod d = n mod d"
  by (simp add: smod_mod_positive)

subsection \<open>Normalisation\<close>

lemma strip_zeros_value:
  "(of_int (units (strip_zeros u k)) / 10 ^ scale (strip_zeros u k) :: rat) = of_int u / 10 ^ k"
proof (induction k arbitrary: u)
  case 0
  then show ?case by simp
next
  case (Suc k)
  show ?case
  proof (cases "10 dvd u")
    case True
    then have "(of_int u :: rat) = 10 * of_int (u sdiv 10)"
      by (metis of_int_mult of_int_numeral sdiv_10_exact)
    with True Suc show ?thesis by (simp add: smod_eq_0_iff)
  next
    case False
    then show ?thesis by (simp add: smod_eq_0_iff)
  qed
qed

lemma strip_zeros_normal:
  "u \<noteq> 0 \<Longrightarrow> is_normal (strip_zeros u k) \<and> units (strip_zeros u k) \<noteq> 0
     \<and> (0 < units (strip_zeros u k) \<longleftrightarrow> 0 < u) \<and> scale (strip_zeros u k) \<le> k"
proof (induction k arbitrary: u)
  case 0
  then show ?case by (simp add: is_normal_def)
next
  case (Suc k)
  show ?case
  proof (cases "10 dvd u")
    case True
    let ?q = "u sdiv 10"
    have "10 * ?q = u" using True by (rule sdiv_10_exact)
    with Suc.prems have "?q \<noteq> 0" "0 < ?q \<longleftrightarrow> 0 < u" by auto
    with Suc.IH [of ?q] True show ?thesis by (auto simp: smod_eq_0_iff)
  next
    case False
    with Suc.prems show ?thesis by (simp add: smod_eq_0_iff is_normal_def)
  qed
qed

lemma normalize_value [simp]: "fixed_value (normalizeFixedDecimal v) = fixed_value v"
  by (simp add: normalizeFixedDecimal_def fixed_value_def strip_zeros_value)

lemma normalize_is_normal: "is_normal (normalizeFixedDecimal v)"
  using strip_zeros_normal [of "units v" "scale v"]
  by (simp add: normalizeFixedDecimal_def is_normal_def)

lemma normalize_pos: "0 < units (normalizeFixedDecimal v) \<longleftrightarrow> 0 < units v"
  using strip_zeros_normal [of "units v" "scale v"] by (simp add: normalizeFixedDecimal_def)

lemma normalize_idem: "is_normal v \<Longrightarrow> normalizeFixedDecimal v = v"
  by (cases "scale v") (auto simp: normalizeFixedDecimal_def is_normal_def smod_eq_0_iff)

text \<open>A normal decimal is determined by its value.\<close>

lemma normal_unique_le:
  assumes "is_normal v" "is_normal w" "fixed_value v = fixed_value w" "scale v \<le> scale w"
  shows "v = w"
proof -
  obtain d where d: "scale w = scale v + d" using assms(4) le_Suc_ex by blast
  have "of_int (units w) = (of_int (units v * 10 ^ d) :: rat)"
    using assms(3) by (simp add: fixed_value_def d power_add field_simps)
  then have w: "units w = units v * 10 ^ d" by (simp only: of_int_eq_iff)
  have "d = 0"
  proof (rule ccontr)
    assume "d \<noteq> 0"
    then obtain e where "d = Suc e" by (cases d) auto
    with w have dvd: "10 dvd units w" by simp
    from \<open>d \<noteq> 0\<close> d have "scale w \<noteq> 0" by simp
    with assms(2) dvd have "False" by (auto simp: is_normal_def split: if_splits)
    then show False .
  qed
  with w d show ?thesis by (cases v, cases w) simp
qed

lemma normal_unique:
  assumes "is_normal v" "is_normal w" "fixed_value v = fixed_value w"
  shows "v = w"
  using assms normal_unique_le [of v w] normal_unique_le [of w v]
  by (metis linear)

subsection \<open>Rounding division\<close>

text \<open>On a nonnegative numerator the quotient is rounded to the nearest integer, ties upwards.\<close>

lemma divideHalfUp_nonneg:
  assumes "0 \<le> n" "0 < d"
  shows "divideHalfUp n d = Inr ((2 * n + d) div (2 * d))"
proof -
  define q r where "q = n div d" and "r = n mod d"
  have n: "n = d * q + r" and r: "0 \<le> r" "r < d" using assms by (simp_all add: q_def r_def)
  have "(2 * n + d) div (2 * d) = ((2 * r + d) + (2 * d) * q) div (2 * d)"
    by (rule arg_cong [where f = "\<lambda>x. x div (2 * d)"]) (simp add: n algebra_simps)
  also have "\<dots> = q + (2 * r + d) div (2 * d)"
    using assms by (subst div_mult_self2) simp_all
  also have "(2 * r + d) div (2 * d) = (if 2 * r \<ge> d then 1 else 0)"
  proof (cases "2 * r \<ge> d")
    case True
    then have "(2 * r + d) div (2 * d) = 1"
      using r by (intro int_div_pos_eq [where r = "2 * r - d"]) auto
    with True show ?thesis by simp
  next
    case False
    then show ?thesis using r assms by (simp add: div_pos_pos_trivial)
  qed
  finally show ?thesis
    using assms
    by (simp add: divideHalfUp_def sdiv_nonneg smod_nonneg Let_def mult.commute q_def r_def)
qed

text \<open>On a negative numerator the remainder is not positive, so nothing is ever rounded up:
  the quotient is truncated towards zero, ties and everything else alike.\<close>

lemma divideHalfUp_neg:
  assumes "n < 0" "0 < d"
  shows "divideHalfUp n d = Inr (- ((- n) div d))"
proof -
  have "n smod d = - ((- n) mod d)" using assms by (simp add: signed_modulo_int_def)
  moreover have "0 \<le> (- n) mod d" using assms by simp
  ultimately have "\<not> (n smod d) * 2 \<ge> d" using assms by linarith
  then show ?thesis using assms by (simp add: divideHalfUp_def Let_def signed_divide_int_def)
qed

lemma divideHalfUp_bounds:
  assumes "0 \<le> n" "0 < d" "divideHalfUp n d = Inr q"
  shows "(2 * q - 1) * d \<le> 2 * n" and "2 * n < (2 * q + 1) * d" and "0 \<le> q"
proof -
  have q: "q = (2 * n + d) div (2 * d)" using assms divideHalfUp_nonneg by simp
  have m: "0 \<le> (2 * n + d) mod (2 * d)" "(2 * n + d) mod (2 * d) < 2 * d" using assms by auto
  have e: "2 * n + d = 2 * d * q + (2 * n + d) mod (2 * d)"
    unfolding q by (simp only: mult_div_mod_eq)
  show "(2 * q - 1) * d \<le> 2 * n" using e m by (simp add: algebra_simps)
  show "2 * n < (2 * q + 1) * d" using e m by (simp add: algebra_simps)
  show "0 \<le> q" unfolding q using assms by (intro pos_imp_zdiv_nonneg_iff [THEN iffD2]) auto
qed

text \<open>Both cases over the rationals.\<close>

lemma divideHalfUp_rat:
  assumes "0 < d"
  shows "divideHalfUp n d = Inr (if 0 \<le> n then \<lfloor>(of_int n / of_int d :: rat) + 1 / 2\<rfloor>
                                 else \<lceil>of_int n / of_int d :: rat\<rceil>)"
proof (cases "0 \<le> n")
  case True
  have "(of_int n / of_int d :: rat) + 1 / 2 = of_int (2 * n + d) / of_int (2 * d)"
    using assms by (simp add: field_simps)
  then have "\<lfloor>(of_int n / of_int d :: rat) + 1 / 2\<rfloor> = (2 * n + d) div (2 * d)"
    by (simp only: floor_divide_of_int_eq)
  with True assms show ?thesis by (simp add: divideHalfUp_nonneg)
next
  case False
  have "\<lfloor>- (of_int n / of_int d) :: rat\<rfloor> = (- n) div d"
    using floor_divide_of_int_eq [of "- n" d, where ?'a = rat] by simp
  with False assms show ?thesis by (simp add: divideHalfUp_neg ceiling_def)
qed

subsection \<open>Printing and parsing\<close>

lemma dec_hd: "n \<noteq> 0 \<Longrightarrow> hd (dec n) \<noteq> CHR ''0''"
proof (induction n rule: dec.induct)
  case (1 n)
  show ?case
  proof (cases "n < 10")
    case True
    then have "digit_char n \<noteq> CHR ''0''"
      using 1 by (metis digit_val_digit_char digit_val_zero)
    with True show ?thesis by (subst dec.simps) simp
  next
    case False
    with 1 have "hd (dec (n div 10)) \<noteq> CHR ''0''" by auto
    with False show ?thesis by (subst dec.simps) simp
  qed
qed

lemma dec_0: "dec 0 = ''0''"
  by (subst dec.simps) (simp add: digit_char_0)

lemma whole_part_dec: "whole_part_ok (dec n)"
  by (cases "n = 0") (auto simp: whole_part_ok_def dec_0 dec_hd)

lemma match_decimal_whole:
  "list_all is_digit w \<Longrightarrow> whole_part_ok w \<Longrightarrow> match_decimal w = Some (w, [])"
proof -
  assume "list_all is_digit w" and ok: "whole_part_ok w"
  then have "dropWhile is_digit w = []" "takeWhile is_digit w = w"
    by (simp_all add: list_all_iff dropWhile_eq_Nil_conv takeWhile_eq_all_conv)
  with ok show ?thesis
    by (simp add: match_decimal_def del: dropWhile_eq_Nil_conv takeWhile_eq_all_conv)
qed

lemma not_is_digit_dot [simp]: "\<not> is_digit CHR ''.''"
  by code_simp

lemma match_decimal_dot:
  assumes "list_all is_digit w" "whole_part_ok w" "f \<noteq> []" "list_all is_digit f"
  shows "match_decimal (w @ ''.'' @ f) = Some (w, f)"
  using assms by (simp add: match_decimal_def list_all_iff takeWhile_append dropWhile_append)

lemma format_scale_match:
  assumes "0 \<le> units v" "scale v \<le> k"
  obtains s w f where "formatFixedDecimalScale v k = Inr s" "match_decimal s = Some (w, f)"
    "length f = k" "int (undec (w @ f)) = units v * 10 ^ (k - scale v)"
proof -
  define a where "a = nat (units v * 10 ^ (k - scale v))"
  have a: "int a = units v * 10 ^ (k - scale v)" and nneg: "\<not> units v * 10 ^ (k - scale v) < 0"
    using assms by (simp_all add: a_def not_less)
  have digits: "list_all is_digit (dec a)" by (auto simp: list_all_iff dec_digits)
  show ?thesis
  proof (cases "k = 0")
    case True
    have "formatFixedDecimalScale v k = Inr (dec a)"
      using assms True nneg by (simp add: formatFixedDecimalScale_def a_def tenTo_def)
    with that [of "dec a" "dec a" "[]"] True a digits show ?thesis
      by (simp add: match_decimal_whole whole_part_dec)
  next
    case False
    define p where "p = pad_start (k + 1) (dec a)"
    define w f where "w = take (length p - k) p" and "f = drop (length p - k) p"
    have len: "k + 1 \<le> length p" by (simp add: p_def pad_start_def)
    then have lenf: "length f = k" and wf: "w @ f = p" by (auto simp: w_def f_def)
    have all: "list_all is_digit p"
      using digits by (auto simp: p_def list_all_iff intro: pad_start_digits)
    then have dw: "list_all is_digit w" and df: "list_all is_digit f"
      using wf by (metis list_all_append)+
    have ok: "whole_part_ok w"
    proof (cases "length (dec a) \<le> k")
      case True
      then have "p = CHR ''0'' # replicate (k - length (dec a)) CHR ''0'' @ dec a"
        by (simp add: p_def pad_start_def Suc_diff_le)
      with True have "w = ''0''" by (simp add: w_def)
      then show ?thesis by (simp add: whole_part_ok_def)
    next
      case 2: False
      then have "p = dec a" by (simp add: p_def pad_start_def)
      with 2 have "w \<noteq> []" "hd w = hd (dec a)" by (auto simp: w_def)
      moreover have "a \<noteq> 0" using 2 False by (metis dec_0 length_Cons list.size(3) Suc_leI neq0_conv)
      ultimately show ?thesis by (simp add: whole_part_ok_def dec_hd)
    qed
    have "formatFixedDecimalScale v k = Inr (w @ ''.'' @ f)"
      using assms False nneg
      by (simp add: formatFixedDecimalScale_def a_def [symmetric] tenTo_def Let_def p_def w_def f_def)
    moreover have "match_decimal (w @ ''.'' @ f) = Some (w, f)"
      using dw ok df lenf False by (intro match_decimal_dot) auto
    moreover have "int (undec (w @ f)) = units v * 10 ^ (k - scale v)"
      using wf a by (simp add: p_def)
    ultimately show ?thesis using that lenf by blast
  qed
qed

lemma parse_format_scale:
  assumes "0 < units v" "scale v \<le> k"
  obtains s where "formatFixedDecimalScale v k = Inr s"
    "parsePositiveFixedDecimal s field = Inr (normalizeFixedDecimal v)"
proof -
  obtain s w f where s: "formatFixedDecimalScale v k = Inr s" and m: "match_decimal s = Some (w, f)"
    and l: "length f = k" and u: "int (undec (w @ f)) = units v * 10 ^ (k - scale v)"
    using format_scale_match [of v k] assms by auto
  let ?u = "\<lparr>units = int (undec (w @ f)), scale = length f\<rparr>"
  have p: "(10::rat) ^ k = 10 ^ (k - scale v) * 10 ^ scale v"
    using assms(2) by (simp flip: power_add)
  have "(of_int (int (undec (w @ f))) :: rat) = of_int (units v) * 10 ^ (k - scale v)"
    by (simp only: u of_int_mult of_int_power of_int_numeral)
  then have "fixed_value ?u = fixed_value v"
    using l p by (simp add: fixed_value_def)
  then have "normalizeFixedDecimal ?u = normalizeFixedDecimal v"
    by (intro normal_unique) (simp_all add: normalize_is_normal)
  moreover have "int (undec (w @ f)) \<noteq> 0" using u assms by simp
  ultimately show ?thesis
    using that s m by (simp add: parsePositiveFixedDecimal_def)
qed

lemma parse_ok_facts:
  assumes "parsePositiveFixedDecimal s field = Inr v"
  shows "0 < units v" and "is_normal v"
proof -
  obtain w f where v: "v = normalizeFixedDecimal \<lparr>units = int (undec (w @ f)), scale = length f\<rparr>"
    and nz: "int (undec (w @ f)) \<noteq> 0"
    using assms by (auto simp: parsePositiveFixedDecimal_def Let_def split: option.splits if_splits)
  show "is_normal v" unfolding v by (rule normalize_is_normal)
  show "0 < units v" unfolding v using nz by (simp add: normalize_pos del: of_nat_0_less_iff of_nat_eq_0_iff)
qed


subsection \<open>The text form as an interface\<close>

text \<open>What the recipes rely on: parsing yields positive normal decimals, and printing such a
  decimal gives a text that parses back to it.\<close>

locale decimal_codec =
  fixes parse :: "string \<Rightarrow> js_error + fixed_decimal"
    and print :: "fixed_decimal \<Rightarrow> js_error + string"
  assumes parse_canonical: "parse s = Inr v \<Longrightarrow> 0 < units v \<and> is_normal v"
    and parse_print: "0 < units v \<Longrightarrow> is_normal v \<Longrightarrow> \<exists>t. print v = Inr t \<and> parse t = Inr v"
begin

lemma reprint: "parse s = Inr v \<Longrightarrow> \<exists>t. print v = Inr t \<and> parse t = Inr v"
  using parse_canonical parse_print by blast

lemma reprint_stable: "parse s = Inr v \<Longrightarrow> print v = Inr t \<Longrightarrow> parse t = Inr v"
  using reprint by fastforce

lemma same_text_iff:
  assumes "parse s = Inr v" "parse t = Inr w"
  shows "print v = print w \<longleftrightarrow> fixed_value v = fixed_value w"
proof
  assume "print v = print w"
  with reprint [OF assms(1)] reprint [OF assms(2)] show "fixed_value v = fixed_value w" by auto
next
  assume "fixed_value v = fixed_value w"
  with assms show "print v = print w" using parse_canonical normal_unique by metis
qed

end

interpretation fixed_text: decimal_codec "\<lambda>s. parsePositiveFixedDecimal s field" formatFixedDecimal
  for field
proof
  fix v :: fixed_decimal
  assume v: "0 < units v" "is_normal v"
  then have n: "normalizeFixedDecimal v = v" by (simp add: normalize_idem)
  obtain s where "formatFixedDecimalScale v (scale v) = Inr s"
    "parsePositiveFixedDecimal s field = Inr (normalizeFixedDecimal v)"
    using parse_format_scale [OF v(1) order_refl] .
  with n show "\<exists>t. formatFixedDecimal v = Inr t \<and> parsePositiveFixedDecimal t field = Inr v"
    by (simp add: formatFixedDecimal_def Let_def)
qed (auto dest: parse_ok_facts)

lemmas decimal_ops_eval = parsePositiveFixedDecimal_def match_decimal_def whole_part_ok_def
  normalizeFixedDecimal_def formatFixedDecimal_def formatFixedDecimalScale_def tenTo_def
  smod_nonneg sdiv_nonneg Let_def decimal_eval

subsection \<open>Properties\<close>

text \<open>C32: whatever decimal text is accepted, printing it always succeeds, the printed text parses to
  the same decimal, and two accepted texts are printed alike exactly when they denote the same
  number.\<close>

theorem fixed_decimal_canonical_text:
  assumes "parsePositiveFixedDecimal s field = Inr v" "parsePositiveFixedDecimal t field = Inr w"
  shows "(\<exists>u. formatFixedDecimal v = Inr u \<and> parsePositiveFixedDecimal u field = Inr v)
    \<and> (formatFixedDecimal v = formatFixedDecimal w \<longleftrightarrow> fixed_value v = fixed_value w)"
  using fixed_text.reprint [OF assms(1)] fixed_text.same_text_iff [OF assms] by blast

theorem fixed_decimal_canonical_text_witness:
  "formatFixedDecimal \<lparr>units = 3, scale = 0\<rparr> \<noteq> formatFixedDecimal \<lparr>units = 305, scale = 2\<rparr>"
proof -
  have "parsePositiveFixedDecimal ''3.0'' ''x'' = Inr \<lparr>units = 3, scale = 0\<rparr>"
    "parsePositiveFixedDecimal ''3.05'' ''x'' = Inr \<lparr>units = 305, scale = 2\<rparr>"
    by (simp_all add: decimal_ops_eval)
  from fixed_decimal_canonical_text [OF this] show ?thesis by (simp add: fixed_value_def)
qed

text \<open>Division by a positive divisor rounds a nonnegative quotient to the nearest integer with
  ties upwards, and truncates a negative quotient towards zero; it never fails.\<close>

theorem divideHalfUp_rounding:
  assumes "0 < d"
  shows "divideHalfUp n d = Inr (if 0 \<le> n then \<lfloor>(of_int n / of_int d :: rat) + 1 / 2\<rfloor>
                                 else \<lceil>of_int n / of_int d :: rat\<rceil>)"
  by (rule divideHalfUp_rat [OF assms])

theorem divideHalfUp_rounding_witness:
  "divideHalfUp 5 2 = Inr \<lfloor>(5 / 2 :: rat) + 1 / 2\<rfloor> \<and> divideHalfUp (- 5) 3 = Inr \<lceil>- (5 / 3) :: rat\<rceil>"
  using divideHalfUp_rounding [of 2 5] divideHalfUp_rounding [of 3 "- 5"] by simp

end
