(* ===== verification/Evidence_Model.thy ===== *)
theory Evidence_Model
  imports Fixed_Decimal
begin

text \<open>
  The evidence records shared by the analysis recipes of \<^verbatim>\<open>src/domain\<close>: identities, the artifact a
  result was computed from and the release it belongs to. Number-typed years and counts are
  \<^theory_text>\<open>int\<close>: the recipes check them with \<^verbatim>\<open>Number.isSafeInteger\<close>, which is \<^theory_text>\<open>is_safe_integer\<close> on integers.
\<close>

record economy_identity =
  ec_code :: string
  ec_name :: string
  ec_iso3 :: "string option"
  ec_note :: "string option"

record product_identity =
  pr_hsRevision :: string
  pr_code :: string
  pr_descriptionEn :: string

record artifact_ref =
  art_baciRelease :: string
  art_buildId :: string
  art_schemaVersion :: string
  art_sha256 :: string

record release_ref =
  rel_baciRelease :: string
  rel_sourceUpdateDate :: string
  rel_hsRevision :: string
  rel_ingestedYears :: "int \<times> int"
  rel_finalizedCutoffYear :: int
  rel_provisionalYear :: int

record provenance =
  pv_baciRelease :: string
  pv_sourceUpdateDate :: string
  pv_hsRevision :: string
  pv_ingestedYears :: "int \<times> int"
  pv_finalizedWindow :: "int \<times> int"
  pv_provisionalYear :: int
  pv_artifactBuildId :: string
  pv_artifactSchemaVersion :: string
  pv_artifactSha256 :: string
  pv_valueUnit :: string

definition is_safe_integer :: "int \<Rightarrow> bool" where
  "is_safe_integer n \<longleftrightarrow> \<bar>n\<bar> \<le> 9007199254740991"

definition provenance_of :: "release_ref \<Rightarrow> artifact_ref \<Rightarrow> int \<times> int \<Rightarrow> provenance" where
  "provenance_of rel art window =
     \<lparr>pv_baciRelease = rel_baciRelease rel,
      pv_sourceUpdateDate = rel_sourceUpdateDate rel,
      pv_hsRevision = rel_hsRevision rel,
      pv_ingestedYears = rel_ingestedYears rel,
      pv_finalizedWindow = window,
      pv_provisionalYear = rel_provisionalYear rel,
      pv_artifactBuildId = art_buildId art,
      pv_artifactSchemaVersion = art_schemaVersion art,
      pv_artifactSha256 = art_sha256 art,
      pv_valueUnit = ''CURRENT_USD''\<rparr>"

end
