(* ===== verification/Trade_Trend.thy ===== *)
theory Trade_Trend
  imports Evidence_Model "HOL-Library.Multiset"
begin

text \<open>
  \<^verbatim>\<open>src/domain/trade-trend/trade-trend-v1.ts\<close>: the five-year import series of one market, its
  summary and the compound annual growth rate, all in exact bigint arithmetic. The two search
  loops of \<^verbatim>\<open>formatCagr\<close> are kept as loops: \<^theory_text>\<open>double_upper\<close> has no bound in the source, so it is a
  \<^theory_text>\<open>partial_function (option)\<close> whose \<^theory_text>\<open>None\<close> means that the loop does not return; that it always
  returns on what the recipe passes to it is proved below.
\<close>

datatype trend_state = RECORDED_POSITIVE | NO_RECORDED_POSITIVE_FLOW | MISSING_OBSERVATION

record trend_observation =
  ob_year :: int
  ob_state :: trend_state
  ob_value :: string

record trend_inputs =
  ti_analysisBuildId :: string
  ti_releaseCatalogSha256 :: string
  ti_artifact :: artifact_ref
  ti_release :: release_ref
  ti_importer :: economy_identity
  ti_product :: product_identity
  ti_finalized :: "trend_observation list"
  ti_provisional :: "trend_observation option"

record trend_available =
  ts_first :: "int \<times> string"
  ts_last :: "int \<times> string"
  ts_spanYears :: int
  ts_absoluteChange :: string
  ts_percentageChange :: string
  ts_cagr :: string

datatype trend_unavailable_reason =
  NO_RECORDED_POSITIVE_OBSERVATIONS | ONLY_ONE_RECORDED_POSITIVE_OBSERVATION

datatype trend_summary = Available trend_available | Unavailable trend_unavailable_reason

record trend_result =
  tr_analysisId :: string
  tr_analysisBuildId :: string
  tr_releaseCatalogSha256 :: string
  tr_query :: "economy_identity \<times> product_identity"
  tr_provenance :: provenance
  tr_finalized :: "trend_observation list"
  tr_summary :: trend_summary
  tr_provisional :: "trend_observation option"

definition FINALIZED_YEAR_COUNT :: int where
  "FINALIZED_YEAR_COUNT = 5"

definition PERCENTAGE_DIGITS :: nat where
  "PERCENTAGE_DIGITS = 6"

subsection \<open>The series\<close>

definition assertReleaseConsistency :: "trend_inputs \<Rightarrow> js_error + unit" where
  "assertReleaseConsistency inp =
     (if art_baciRelease (ti_artifact inp) \<noteq> rel_baciRelease (ti_release inp)
      then Inl (TypeError ''A Trade Trend cannot mix BACI Releases.'')
      else if pr_hsRevision (ti_product inp) \<noteq> ''HS12'' \<or> rel_hsRevision (ti_release inp) \<noteq> ''HS12''
      then Inl (TypeError ''Trade Trend v1 requires an HS12 product.'')
      else Inr ())"

text \<open>An observation with no recorded value carries none; the model keeps the empty string there.\<close>

definition canonicalObservation :: "trend_observation \<Rightarrow> js_error + trend_observation" where
  "canonicalObservation ob =
     (if ob_state ob \<noteq> RECORDED_POSITIVE
      then Inr \<lparr>ob_year = ob_year ob, ob_state = ob_state ob, ob_value = []\<rparr>
      else ebind (parsePositiveFixedDecimal (ob_value ob) ''Trade Trend recorded value'') (\<lambda>v.
           ebind (formatFixedDecimal v) (\<lambda>s.
           Inr \<lparr>ob_year = ob_year ob, ob_state = RECORDED_POSITIVE, ob_value = s\<rparr>)))"

definition place_observation ::
  "int \<Rightarrow> int \<Rightarrow> trend_observation \<Rightarrow> (int \<rightharpoonup> trend_observation) \<Rightarrow>
   js_error + (int \<rightharpoonup> trend_observation)" where
  "place_observation start cutoff ob byYear =
     (if \<not> is_safe_integer (ob_year ob) \<or> ob_year ob < start \<or> ob_year ob > cutoff
         \<or> byYear (ob_year ob) \<noteq> None
      then Inl (TypeError ''Trade Trend finalized observations must be unique members of the five-year finalized window.'')
      else ebind (canonicalObservation ob) (\<lambda>c. Inr (byYear(ob_year ob \<mapsto> c))))"

definition window_years :: "int \<Rightarrow> int list" where
  "window_years start = map (\<lambda>i. start + int i) [0..<nat FINALIZED_YEAR_COUNT]"

definition canonicalFinalizedObservations :: "trend_inputs \<Rightarrow> js_error + trend_observation list" where
  "canonicalFinalizedObservations inp =
     (let cutoff = rel_finalizedCutoffYear (ti_release inp);
          start = cutoff - (FINALIZED_YEAR_COUNT - 1)
      in ebind (efold (place_observation start cutoff) (ti_finalized inp) Map.empty) (\<lambda>byYear.
         let obs = map byYear (window_years start)
         in if None \<in> set obs
            then Inl (TypeError ''Trade Trend requires every member of the five-year finalized window.'')
            else Inr (map the obs)))"

definition canonicalProvisionalObservation :: "trend_inputs \<Rightarrow> js_error + trend_observation option" where
  "canonicalProvisionalObservation inp =
     (case ti_provisional inp of
        None \<Rightarrow> Inr None
      | Some ob \<Rightarrow>
          if ob_year ob \<noteq> rel_provisionalYear (ti_release inp)
          then Inl (TypeError ''Trade Trend provisional evidence must use the release provisional year.'')
          else ebind (canonicalObservation ob) (\<lambda>c. Inr (Some c)))"

subsection \<open>Arithmetic of the summary\<close>

definition subtract :: "fixed_decimal \<Rightarrow> fixed_decimal \<Rightarrow> fixed_decimal" where
  "subtract l r =
     (let s = max (scale l) (scale r)
      in normalizeFixedDecimal
           \<lparr>units = units l * tenTo (s - scale l) - units r * tenTo (s - scale r), scale = s\<rparr>)"

definition divide :: "fixed_decimal \<Rightarrow> fixed_decimal \<Rightarrow> nat \<Rightarrow> js_error + fixed_decimal" where
  "divide l r digits =
     (let n = units l * tenTo (scale r + digits); d = units r * tenTo (scale l)
      in ebind (divideHalfUp n d) (\<lambda>u. Inr \<lparr>units = u, scale = digits\<rparr>))"

definition formatPercentage :: "fixed_decimal \<Rightarrow> js_error + string" where
  "formatPercentage r =
     formatFixedDecimalScale \<lparr>units = units r * 100, scale = scale r\<rparr> PERCENTAGE_DIGITS"

text \<open>The square-and-multiply loop; the third argument is the loop variable \<^verbatim>\<open>remaining\<close>.\<close>

fun power_loop :: "int \<Rightarrow> int \<Rightarrow> nat \<Rightarrow> int" where
  "power_loop result current remaining =
     (if remaining = 0 then result
      else power_loop (if remaining mod 2 = 1 then result * current else result)
                      (current * current) (remaining div 2))"

declare power_loop.simps [simp del]

definition power_of :: "int \<Rightarrow> nat \<Rightarrow> int" where
  "power_of base e = power_loop 1 base e"

definition ratioNumerator :: "fixed_decimal \<Rightarrow> fixed_decimal \<Rightarrow> int" where
  "ratioNumerator l f = units l * tenTo (scale f)"

definition ratioDenominator :: "fixed_decimal \<Rightarrow> fixed_decimal \<Rightarrow> int" where
  "ratioDenominator l f = units f * tenTo (scale l)"

definition ratioAtLeast :: "fixed_decimal \<Rightarrow> fixed_decimal \<Rightarrow> int \<Rightarrow> int \<Rightarrow> nat \<Rightarrow> bool" where
  "ratioAtLeast l f factor p n =
     (let t = factor + p
      in if t \<le> 0 then True
         else ratioNumerator l f * power_of factor n \<ge> ratioDenominator l f * power_of t n)"

definition ratioAtLeastHalf :: "fixed_decimal \<Rightarrow> fixed_decimal \<Rightarrow> int \<Rightarrow> int \<Rightarrow> nat \<Rightarrow> bool" where
  "ratioAtLeastHalf l f factor p n =
     (let tn = 2 * (factor + p) + 1; td = 2 * factor
      in ratioNumerator l f * power_of td n \<ge> ratioDenominator l f * power_of tn n)"

partial_function (option) double_upper ::
  "fixed_decimal \<Rightarrow> fixed_decimal \<Rightarrow> int \<Rightarrow> nat \<Rightarrow> int \<Rightarrow> int \<Rightarrow> (int \<times> int) option" where
  "double_upper l f factor n lower upper =
     (if ratioAtLeast l f factor upper n then double_upper l f factor n upper (upper * 2)
      else Some (lower, upper))"

declare double_upper.simps [code]

function bisect ::
  "fixed_decimal \<Rightarrow> fixed_decimal \<Rightarrow> int \<Rightarrow> nat \<Rightarrow> int \<Rightarrow> int \<Rightarrow> int" where
  "bisect l f factor n lower upper =
     (if upper - lower > 1
      then let middle = lower + (upper - lower) sdiv 2
           in if ratioAtLeast l f factor middle n
              then bisect l f factor n middle upper
              else bisect l f factor n lower middle
      else lower)"
  by pat_completeness auto
termination
  by (relation "measure (\<lambda>(l, f, factor, n, lower, upper). nat (upper - lower))")
     (auto simp: sdiv_nonneg)

declare bisect.simps [simp del]

definition cagr_units :: "fixed_decimal \<Rightarrow> fixed_decimal \<Rightarrow> nat \<Rightarrow> int option" where
  "cagr_units l f n =
     (let factor = 100 * tenTo PERCENTAGE_DIGITS;
          bounds = (if ratioAtLeast l f factor 0 n
                    then double_upper l f factor n (- factor) factor
                    else Some (- factor, 0))
      in case bounds of
           None \<Rightarrow> None
         | Some (lo, up) \<Rightarrow>
             let lower = bisect l f factor n lo up
             in Some (if ratioAtLeastHalf l f factor lower n then lower + 1 else lower))"

definition formatCagr :: "fixed_decimal \<Rightarrow> fixed_decimal \<Rightarrow> nat \<Rightarrow> (js_error + string) option" where
  "formatCagr l f n =
     (case cagr_units l f n of
        None \<Rightarrow> None
      | Some u \<Rightarrow>
          Some (formatFixedDecimalScale \<lparr>units = u, scale = PERCENTAGE_DIGITS\<rparr> PERCENTAGE_DIGITS))"

subsection \<open>Summary and result\<close>

definition summaryFor :: "trend_observation list \<Rightarrow> (js_error + trend_summary) option" where
  "summaryFor obs =
     (let recorded = filter (\<lambda>ob. ob_state ob = RECORDED_POSITIVE) obs
      in if length recorded = 0 then Some (Inr (Unavailable NO_RECORDED_POSITIVE_OBSERVATIONS))
         else if length recorded = 1 then Some (Inr (Unavailable ONLY_ONE_RECORDED_POSITIVE_OBSERVATION))
         else
           let a = hd recorded; z = last recorded in
           then_return (Some (parsePositiveFixedDecimal (ob_value a) ''Trade Trend first recorded value'')) (\<lambda>fv.
           then_return (Some (parsePositiveFixedDecimal (ob_value z) ''Trade Trend last recorded value'')) (\<lambda>lv.
           let span = ob_year z - ob_year a in
           if span < 1
           then Some (Inl (TypeError ''Trade Trend recorded-positive endpoints must have a positive year span.''))
           else
             then_return (Some (formatFixedDecimal (subtract lv fv))) (\<lambda>change.
             then_return (Some (ebind (divide (subtract lv fv) fv PERCENTAGE_DIGITS) formatPercentage)) (\<lambda>pct.
             then_return (formatCagr lv fv (nat span)) (\<lambda>cagr.
             Some (Inr (Available
               \<lparr>ts_first = (ob_year a, ob_value a),
                ts_last = (ob_year z, ob_value z),
                ts_spanYears = span,
                ts_absoluteChange = change,
                ts_percentageChange = pct,
                ts_cagr = cagr\<rparr>))))))))"

definition computeTradeTrendV1 :: "trend_inputs \<Rightarrow> (js_error + trend_result) option" where
  "computeTradeTrendV1 inp =
     then_return (Some (assertReleaseConsistency inp)) (\<lambda>_.
     then_return (Some (canonicalFinalizedObservations inp)) (\<lambda>finalized.
     then_return (Some (canonicalProvisionalObservation inp)) (\<lambda>provisional.
     then_return (summaryFor finalized) (\<lambda>summary.
     let cutoff = rel_finalizedCutoffYear (ti_release inp) in
     Some (Inr
       \<lparr>tr_analysisId = ''trade-trend:'' @ ti_analysisBuildId inp @ '':'' @ ec_code (ti_importer inp)
                         @ '':'' @ pr_code (ti_product inp),
        tr_analysisBuildId = ti_analysisBuildId inp,
        tr_releaseCatalogSha256 = ti_releaseCatalogSha256 inp,
        tr_query = (ti_importer inp, ti_product inp),
        tr_provenance = provenance_of (ti_release inp) (ti_artifact inp)
                          (cutoff - (FINALIZED_YEAR_COUNT - 1), cutoff),
        tr_finalized = finalized,
        tr_summary = summary,
        tr_provisional = provisional\<rparr>)))))"

subsection \<open>The growth-rate search\<close>

lemma power_loop_eq: "power_loop r b e = r * b ^ e"
proof (induction r b e rule: power_loop.induct)
  case (1 r b e)
  show ?case
  proof (cases "e = 0")
    case True
    then show ?thesis by (subst power_loop.simps) simp
  next
    case False
    have "b ^ e = b ^ (2 * (e div 2) + e mod 2)" by simp
    also have "\<dots> = (b * b) ^ (e div 2) * b ^ (e mod 2)"
      by (simp only: power_add power_mult power2_eq_square)
    finally have e: "b ^ e = (b * b) ^ (e div 2) * b ^ (e mod 2)" .
    have "e mod 2 = 0 \<or> e mod 2 = 1" by auto
    with e 1 [OF False] False show ?thesis by (subst power_loop.simps) auto
  qed
qed

lemma power_of_eq [simp]: "power_of b e = b ^ e"
  by (simp add: power_of_def power_loop_eq)

lemma ratioAtLeast_iff:
  "ratioAtLeast l f F p n \<longleftrightarrow>
     F + p \<le> 0 \<or> ratioDenominator l f * (F + p) ^ n \<le> ratioNumerator l f * F ^ n"
  by (auto simp: ratioAtLeast_def Let_def)

lemma double_upper_returns:
  assumes "0 < ratioDenominator l f" "0 < n" "0 < F" "0 < u" "0 \<le> F + lo" "lo < u"
    and "ratioAtLeast l f F lo n"
  shows "\<exists>a b. double_upper l f F n lo u = Some (a, b) \<and> a < b \<and> 0 \<le> F + a
           \<and> ratioAtLeast l f F a n \<and> \<not> ratioAtLeast l f F b n"
  using assms
proof (induction "nat (ratioNumerator l f * F ^ n - u)" arbitrary: lo u rule: less_induct)
  case less
  show ?case
  proof (cases "ratioAtLeast l f F u n")
    case False
    with less.prems show ?thesis by (subst double_upper.simps) simp
  next
    case True
    let ?D = "ratioDenominator l f" and ?N = "ratioNumerator l f * F ^ n"
    from True less.prems have le: "?D * (F + u) ^ n \<le> ?N" by (simp add: ratioAtLeast_iff)
    have "F + u \<le> (F + u) ^ n" using less.prems by (intro self_le_power) auto
    also have "\<dots> \<le> ?D * (F + u) ^ n"
      using less.prems by (simp add: mult_le_cancel_right1 not_less)
    finally have "u < ?N" using le less.prems by linarith
    then have "nat (?N - u * 2) < nat (?N - u)" using less.prems by linarith
    from less.hyps [OF this, of u] less.prems True show ?thesis
      by (subst double_upper.simps) simp
  qed
qed

lemma bisect_result:
  assumes "lo < up" "ratioAtLeast l f F lo n" "\<not> ratioAtLeast l f F up n"
  defines "r \<equiv> bisect l f F n lo up"
  shows "lo \<le> r \<and> r < up \<and> ratioAtLeast l f F r n \<and> \<not> ratioAtLeast l f F (r + 1) n"
  using assms(1-3) unfolding r_def
proof (induction l f F n lo up rule: bisect.induct)
  case (1 l f F n lo up)
  show ?case
  proof (cases "up - lo > 1")
    case False
    with 1 have "up = lo + 1" by simp
    moreover have "bisect l f F n lo up = lo" using False by (subst bisect.simps) simp
    ultimately show ?thesis using 1 by simp
  next
    case True
    define m where "m = lo + (up - lo) sdiv 2"
    have m: "lo < m" "m < up" using True by (auto simp: m_def sdiv_nonneg)
    show ?thesis
    proof (cases "ratioAtLeast l f F m n")
      case 2: True
      with 1(1) [OF True m_def] 1 m have "m \<le> bisect l f F n m up \<and> bisect l f F n m up < up
        \<and> ratioAtLeast l f F (bisect l f F n m up) n \<and> \<not> ratioAtLeast l f F (bisect l f F n m up + 1) n"
        by simp
      with True 2 m show ?thesis
        by (simp add: bisect.simps [of l f F n lo up] Let_def flip: m_def)
    next
      case 3: False
      with 1(2) [OF True m_def] 1 m have "lo \<le> bisect l f F n lo m \<and> bisect l f F n lo m < m
        \<and> ratioAtLeast l f F (bisect l f F n lo m) n \<and> \<not> ratioAtLeast l f F (bisect l f F n lo m + 1) n"
        by simp
      with True 3 m show ?thesis
        by (simp add: bisect.simps [of l f F n lo up] Let_def flip: m_def)
    qed
  qed
qed

text \<open>The integer characterisation: the result is the last half-open half-unit interval whose
  lower end does not exceed the ratio.\<close>

lemma cagr_units_spec:
  assumes N: "0 < ratioNumerator l f" and D: "0 < ratioDenominator l f" and n: "0 < n"
  defines "F \<equiv> 100000000 :: int"
  obtains r where "cagr_units l f n = Some r" "0 \<le> F + r"
    "r = - F \<or> ratioDenominator l f * (2 * (F + r) - 1) ^ n \<le> ratioNumerator l f * (2 * F) ^ n"
    "ratioNumerator l f * (2 * F) ^ n < ratioDenominator l f * (2 * (F + r) + 1) ^ n"
proof -
  let ?D = "ratioDenominator l f" and ?N = "ratioNumerator l f"
  have F: "100 * tenTo PERCENTAGE_DIGITS = F" "0 < F"
    by (simp_all add: F_def tenTo_def PERCENTAGE_DIGITS_def)
  obtain lo up where b:
    "(if ratioAtLeast l f F 0 n then double_upper l f F n (- F) F else Some (- F, 0)) = Some (lo, up)"
    and lu: "lo < up" "0 \<le> F + lo" "ratioAtLeast l f F lo n" "\<not> ratioAtLeast l f F up n"
  proof (cases "ratioAtLeast l f F 0 n")
    case True
    from double_upper_returns [of l f n F F "- F"] D n F obtain a b where
      "double_upper l f F n (- F) F = Some (a, b)" "a < b" "0 \<le> F + a"
      "ratioAtLeast l f F a n" "\<not> ratioAtLeast l f F b n"
      by (auto simp: ratioAtLeast_iff)
    with True that show ?thesis by simp
  next
    case False
    with that [of "- F" 0] F show ?thesis by (simp add: ratioAtLeast_iff)
  qed
  define r where "r = bisect l f F n lo up"
  from bisect_result [OF lu(1,3,4)] have r: "lo \<le> r" "ratioAtLeast l f F r n"
    "\<not> ratioAtLeast l f F (r + 1) n" by (simp_all add: r_def)
  have r0: "0 \<le> F + r" using lu(2) r(1) by linarith
  from r(3) have up: "?N * F ^ n < ?D * (F + r + 1) ^ n"
    by (simp add: ratioAtLeast_iff not_le add.assoc)
  have eq: "cagr_units l f n = Some (if ratioAtLeastHalf l f F r n then r + 1 else r)"
    using b F by (simp add: cagr_units_def Let_def r_def)
  have dbl: "?N * (2 * F) ^ n = 2 ^ n * (?N * F ^ n)" by (simp add: power_mult_distrib)
  show ?thesis
  proof (cases "ratioAtLeastHalf l f F r n")
    case True
    then have le: "?D * (2 * (F + r) + 1) ^ n \<le> ?N * (2 * F) ^ n"
      by (simp add: ratioAtLeastHalf_def)
    have "?N * (2 * F) ^ n < 2 ^ n * (?D * (F + r + 1) ^ n)" using up by (simp add: dbl)
    also have "\<dots> = ?D * (2 * (F + r + 1)) ^ n" unfolding power_mult_distrib by simp
    also have "\<dots> \<le> ?D * (2 * (F + (r + 1)) + 1) ^ n"
      using D r0 by (intro mult_left_mono power_mono) auto
    finally have "?N * (2 * F) ^ n < ?D * (2 * (F + (r + 1)) + 1) ^ n" .
    moreover have e: "2 * (F + (r + 1)) - 1 = 2 * (F + r) + 1" by simp
    have "?D * (2 * (F + (r + 1)) - 1) ^ n \<le> ?N * (2 * F) ^ n" unfolding e by (rule le)
    moreover have "cagr_units l f n = Some (r + 1)" "0 \<le> F + (r + 1)" using eq True r0 by simp_all
    ultimately show ?thesis using that by blast
  next
    case False
    then have lt: "?N * (2 * F) ^ n < ?D * (2 * (F + r) + 1) ^ n"
      by (simp add: ratioAtLeastHalf_def not_le)
    have "r = - F \<or> ?D * (2 * (F + r) - 1) ^ n \<le> ?N * (2 * F) ^ n"
    proof (cases "F + r = 0")
      case True
      then show ?thesis by simp
    next
      case 2: False
      with r0 have pos: "0 < F + r" by simp
      with r(2) have "?D * (F + r) ^ n \<le> ?N * F ^ n" by (simp add: ratioAtLeast_iff)
      then have "2 ^ n * (?D * (F + r) ^ n) \<le> ?N * (2 * F) ^ n" by (simp add: dbl)
      moreover have "?D * (2 * (F + r) - 1) ^ n \<le> ?D * (2 * (F + r)) ^ n"
        using D pos by (intro mult_left_mono power_mono) auto
      moreover have "2 ^ n * (?D * (F + r) ^ n) = ?D * (2 * (F + r)) ^ n"
        unfolding power_mult_distrib by simp
      ultimately have "?D * (2 * (F + r) - 1) ^ n \<le> ?N * (2 * F) ^ n" by linarith
      then show ?thesis ..
    qed
    then show ?thesis by (intro that [of r]) (use eq False r0 lt in simp_all)
  qed
qed

text \<open>The same over the reals: the growth rate in units of \<^verbatim>\<open>10 ^ -6\<close> percent is the exact rate
  \<^theory_text>\<open>root n (l / f) - 1\<close>, rounded to the nearest unit with ties upwards.\<close>

definition real_value :: "fixed_decimal \<Rightarrow> real" where
  "real_value v = of_int (units v) / 10 ^ scale v"

lemma ratio_real:
  "0 < units f \<Longrightarrow> real_value l / real_value f
     = of_int (ratioNumerator l f) / of_int (ratioDenominator l f)"
  by (simp add: real_value_def ratioNumerator_def ratioDenominator_def tenTo_def)

lemma le_root_iff:
  assumes "0 < n" "0 \<le> (y::real)" "0 \<le> x"
  shows "y \<le> root n x \<longleftrightarrow> y ^ n \<le> x"
  using assms real_root_le_iff [of n "y ^ n" x] real_root_power_cancel [of n y] by simp

lemma root_less_iff:
  assumes "0 < n" "0 \<le> (y::real)" "0 \<le> x"
  shows "root n x < y \<longleftrightarrow> x < y ^ n"
  using le_root_iff [OF assms] by (auto simp: not_le [symmetric])

lemma scaled_power_le_iff:
  fixes N D a F :: int
  assumes "0 < D" "0 < F"
  shows "(of_int a / of_int F :: real) ^ n \<le> of_int N / of_int D \<longleftrightarrow> D * a ^ n \<le> N * F ^ n"
proof -
  have "(of_int a / of_int F :: real) ^ n \<le> of_int N / of_int D \<longleftrightarrow>
        (of_int (D * a ^ n) :: real) \<le> of_int (N * F ^ n)"
    using assms by (simp add: power_divide divide_le_eq le_divide_eq mult.commute)
  then show ?thesis by (simp only: of_int_le_iff)
qed

lemma cagr_units_root:
  assumes "0 < units l" "0 < units f" "0 < n"
  shows "cagr_units l f n = Some \<lfloor>10 ^ 8 * (root n (real_value l / real_value f) - 1) + 1 / 2\<rfloor>"
proof -
  define F :: int where "F = 100000000"
  let ?N = "ratioNumerator l f" and ?D = "ratioDenominator l f"
  have N: "0 < ?N" and D: "0 < ?D" and F: "0 < F" "0 < 2 * F"
    using assms by (simp_all add: ratioNumerator_def ratioDenominator_def tenTo_def F_def)
  obtain r where r: "cagr_units l f n = Some r" "0 \<le> F + r"
    "r = - F \<or> ?D * (2 * (F + r) - 1) ^ n \<le> ?N * (2 * F) ^ n"
    "?N * (2 * F) ^ n < ?D * (2 * (F + r) + 1) ^ n"
    using cagr_units_spec [OF N D assms(3)] unfolding F_def by blast
  define q where "q = root n (real_value l / real_value f)"
  have q: "q = root n (of_int ?N / of_int ?D)" using ratio_real [OF assms(2)] by (simp add: q_def)
  have x: "(0::real) \<le> of_int ?N / of_int ?D" using N D by simp
  have "0 \<le> q" unfolding q using x assms(3) by simp
  have hi: "q < of_int (2 * (F + r) + 1) / of_int (2 * F)"
    unfolding q using r(2,4) F scaled_power_le_iff [OF D F(2), of "2 * (F + r) + 1" n ?N]
    by (subst root_less_iff [OF assms(3) _ x]) auto
  have lo: "of_int (2 * (F + r) - 1) / of_int (2 * F) \<le> q"
  proof (cases "r = - F")
    case True
    then have "of_int (2 * (F + r) - 1) / of_int (2 * F) \<le> (0::real)" using F by simp
    with \<open>0 \<le> q\<close> show ?thesis by linarith
  next
    case False
    then show ?thesis
      unfolding q using r(2,3) F scaled_power_le_iff [OF D F(2), of "2 * (F + r) - 1" n ?N]
      by (subst le_root_iff [OF assms(3) _ x]) auto
  qed
  have "\<lfloor>10 ^ 8 * (q - 1) + 1 / 2\<rfloor> = r"
  proof (rule floor_unique)
    show "of_int r \<le> 10 ^ 8 * (q - 1) + 1 / 2"
      using lo by (simp add: F_def field_simps)
    show "10 ^ 8 * (q - 1) + 1 / 2 < of_int r + 1"
      using hi by (simp add: F_def field_simps)
  qed
  with r(1) show ?thesis by (simp add: q_def)
qed

lemma formatCagr_returns:
  assumes "0 < units l" "0 < units f" "0 < n"
  shows "formatCagr l f n = Some (formatFixedDecimalScale
    \<lparr>units = \<lfloor>10 ^ 8 * (root n (real_value l / real_value f) - 1) + 1 / 2\<rfloor>, scale = 6\<rparr> 6)"
  using cagr_units_root [OF assms] by (simp add: formatCagr_def PERCENTAGE_DIGITS_def)

lemma summaryFor_returns: "summaryFor obs \<noteq> None"
  by (auto simp: summaryFor_def then_return_def Let_def formatCagr_returns parse_ok_facts
      split: sum.splits)

lemma summaryFor_AvailableE:
  assumes "summaryFor obs = Some (Inr (Available t))"
  obtains a z fv lv where
    "a = hd (filter (\<lambda>ob. ob_state ob = RECORDED_POSITIVE) obs)"
    "z = last (filter (\<lambda>ob. ob_state ob = RECORDED_POSITIVE) obs)"
    "1 < length (filter (\<lambda>ob. ob_state ob = RECORDED_POSITIVE) obs)"
    "ts_first t = (ob_year a, ob_value a)" "ts_last t = (ob_year z, ob_value z)"
    "ts_spanYears t = ob_year z - ob_year a" "1 \<le> ts_spanYears t"
    "parsePositiveFixedDecimal (ob_value a) ''Trade Trend first recorded value'' = Inr fv"
    "parsePositiveFixedDecimal (ob_value z) ''Trade Trend last recorded value'' = Inr lv"
    "formatFixedDecimal (subtract lv fv) = Inr (ts_absoluteChange t)"
    "ebind (divide (subtract lv fv) fv PERCENTAGE_DIGITS) formatPercentage = Inr (ts_percentageChange t)"
    "formatCagr lv fv (nat (ts_spanYears t)) = Some (Inr (ts_cagr t))"
  using assms
  by (auto simp: summaryFor_def then_return_def Let_def not_less Suc_lessI
      split: sum.splits option.splits if_splits)

subsection \<open>The series is canonical\<close>

lemma canonicalObservation_year: "canonicalObservation ob = Inr c \<Longrightarrow> ob_year c = ob_year ob"
  by (auto simp: canonicalObservation_def ebind_Inr_iff split: if_splits)

definition placeable :: "int \<Rightarrow> int \<Rightarrow> trend_observation \<Rightarrow> bool" where
  "placeable start cutoff ob \<longleftrightarrow> is_safe_integer (ob_year ob) \<and> start \<le> ob_year ob \<and> ob_year ob \<le> cutoff"

lemma place_Inr_iff:
  "place_observation start cutoff ob m = Inr m' \<longleftrightarrow>
     placeable start cutoff ob \<and> m (ob_year ob) = None \<and>
     (\<exists>c. canonicalObservation ob = Inr c \<and> m' = m(ob_year ob \<mapsto> c))"
  by (auto simp: place_observation_def placeable_def ebind_Inr_iff)

lemma place_all_Inr_iff:
  "efold (place_observation start cutoff) obs m = Inr m' \<longleftrightarrow>
     (\<forall>ob \<in> set obs. placeable start cutoff ob \<and> m (ob_year ob) = None) \<and>
     distinct (map ob_year obs) \<and>
     (\<exists>cs. emap canonicalObservation obs = Inr cs \<and> m' = m ++ map_of (zip (map ob_year obs) cs))"
proof (induction obs arbitrary: m)
  case Nil
  then show ?case by auto
next
  case (Cons ob obs)
  have comm: "m(k \<mapsto> c) ++ map_of (zip (map ob_year obs) cs) =
      m ++ (map_of (zip (map ob_year obs) cs))(k \<mapsto> c)"
    if "k \<notin> ob_year ` set obs" for c cs k
  proof -
    have "k \<notin> dom (map_of (zip (map ob_year obs) cs))"
      using that by (auto simp: dom_map_of_conv_image_fst dest: set_zip_leftD)
    then show ?thesis by (auto simp: map_add_def fun_eq_iff split: option.splits)
  qed
  have fresh: "(\<forall>x \<in> set obs. placeable start cutoff x \<and> (m(ob_year ob \<mapsto> c)) (ob_year x) = None) \<longleftrightarrow>
      (\<forall>x \<in> set obs. placeable start cutoff x \<and> m (ob_year x) = None) \<and> ob_year ob \<notin> ob_year ` set obs"
    for c by (simp add: image_iff) (metis option.discI)
  have "efold (place_observation start cutoff) (ob # obs) m = Inr m' \<longleftrightarrow>
      placeable start cutoff ob \<and> m (ob_year ob) = None \<and>
      (\<exists>c. canonicalObservation ob = Inr c \<and>
        efold (place_observation start cutoff) obs (m(ob_year ob \<mapsto> c)) = Inr m')"
    by (auto simp: ebind_Inr_iff place_Inr_iff)
  also have "\<dots> \<longleftrightarrow> placeable start cutoff ob \<and> m (ob_year ob) = None \<and>
      (\<forall>x \<in> set obs. placeable start cutoff x \<and> m (ob_year x) = None) \<and>
      ob_year ob \<notin> ob_year ` set obs \<and> distinct (map ob_year obs) \<and>
      (\<exists>c cs. canonicalObservation ob = Inr c \<and> emap canonicalObservation obs = Inr cs \<and>
        m' = m(ob_year ob \<mapsto> c) ++ map_of (zip (map ob_year obs) cs))"
    unfolding Cons.IH fresh by blast
  also have "\<dots> \<longleftrightarrow> placeable start cutoff ob \<and> m (ob_year ob) = None \<and>
      (\<forall>x \<in> set obs. placeable start cutoff x \<and> m (ob_year x) = None) \<and>
      ob_year ob \<notin> ob_year ` set obs \<and> distinct (map ob_year obs) \<and>
      (\<exists>c cs. canonicalObservation ob = Inr c \<and> emap canonicalObservation obs = Inr cs \<and>
        m' = m ++ (map_of (zip (map ob_year obs) cs))(ob_year ob \<mapsto> c))"
    by (simp add: comm cong: conj_cong del: map_add_upd)
  also have "\<dots> \<longleftrightarrow> (\<forall>x \<in> set (ob # obs). placeable start cutoff x \<and> m (ob_year x) = None) \<and>
      distinct (map ob_year (ob # obs)) \<and>
      (\<exists>cs. emap canonicalObservation (ob # obs) = Inr cs \<and>
        m' = m ++ map_of (zip (map ob_year (ob # obs)) cs))"
    by (cases "canonicalObservation ob"; cases "emap canonicalObservation obs")
       (simp_all del: map_add_upd, blast?)
  finally show ?case .
qed

lemma window_years_eq: "window_years start = [start, start + 1, start + 2, start + 3, start + 4]"
  by (simp add: window_years_def FINALIZED_YEAR_COUNT_def upt_rec [where i = 0] upt_rec)

lemma canonical_finalized_facts:
  assumes "canonicalFinalizedObservations inp = Inr obs"
  defines "cy \<equiv> rel_finalizedCutoffYear (ti_release inp)"
  shows "map ob_year obs = [cy - 4, cy - 3, cy - 2, cy - 1, cy]"
    and "\<forall>ob \<in> set obs. \<exists>raw \<in> set (ti_finalized inp). canonicalObservation raw = Inr ob"
proof -
  from assms(1) obtain m cs where m: "m = map_of (zip (map ob_year (ti_finalized inp)) cs)"
    and cs: "emap canonicalObservation (ti_finalized inp) = Inr cs"
    and none: "None \<notin> set (map m (window_years (cy - 4)))"
    and obs: "obs = map the (map m (window_years (cy - 4)))"
    by (auto simp: canonicalFinalizedObservations_def Let_def ebind_Inr_iff place_all_Inr_iff
        FINALIZED_YEAR_COUNT_def cy_def simp del: set_map split: if_splits)
  have mem: "ob_year ob = y \<and> (\<exists>raw \<in> set (ti_finalized inp). canonicalObservation raw = Inr ob)"
    if "m y = Some ob" for y ob
  proof -
    from that m have "(y, ob) \<in> set (zip (map ob_year (ti_finalized inp)) cs)"
      by (auto dest: map_of_SomeD)
    then obtain i where "i < length cs" "i < length (ti_finalized inp)"
      "y = ob_year (ti_finalized inp ! i)" "ob = cs ! i" by (auto simp: in_set_zip)
    with cs have "canonicalObservation (ti_finalized inp ! i) = Inr ob"
      by (simp add: emap_Inr_iff list_all2_conv_all_nth)
    moreover have "ti_finalized inp ! i \<in> set (ti_finalized inp)"
      using \<open>i < length (ti_finalized inp)\<close> by simp
    ultimately show ?thesis
      using \<open>y = _\<close> by (metis canonicalObservation_year)
  qed
  have each: "\<exists>ob. m y = Some ob" if "y \<in> set (window_years (cy - 4))" for y
    using none that by (metis image_eqI not_None_eq set_map)
  then show "map ob_year obs = [cy - 4, cy - 3, cy - 2, cy - 1, cy]"
    unfolding obs window_years_eq using mem by fastforce
  show "\<forall>ob \<in> set obs. \<exists>raw \<in> set (ti_finalized inp). canonicalObservation raw = Inr ob"
    unfolding obs using mem each by fastforce
qed

lemma computeTradeTrend_facts:
  assumes "computeTradeTrendV1 inp = Some (Inr res)"
  shows "canonicalFinalizedObservations inp = Inr (tr_finalized res)"
    and "summaryFor (tr_finalized res) = Some (Inr (tr_summary res))"
    and "canonicalProvisionalObservation inp = Inr (tr_provisional res)"
  using assms
  by (auto simp: computeTradeTrendV1_def then_return_def Let_def split: sum.splits option.splits)


lemma sorted_map_hd_last:
  assumes "sorted (map f xs)" "x \<in> set xs"
  shows "f (hd xs) \<le> f x" "f x \<le> f (last xs)"
proof -
  obtain ys zs where xs: "xs = ys @ x # zs" using assms(2) by (meson split_list)
  with assms(1) show "f (hd xs) \<le> f x" by (cases ys) (auto simp: sorted_append)
  from xs assms(1) show "f x \<le> f (last xs)" by (cases zs rule: rev_cases) (auto simp: sorted_append)
qed

lemma sorted_map_filter: "sorted (map f xs) \<Longrightarrow> sorted (map f (filter P xs))"
  by (induction xs) auto

lemma endpoints_enclose:
  assumes "summaryFor obs = Some (Inr (Available t))" "sorted (map ob_year obs)"
    and "ob \<in> set obs" "ob_state ob = RECORDED_POSITIVE"
  shows "fst (ts_first t) \<le> ob_year ob \<and> ob_year ob \<le> fst (ts_last t)"
  using assms(1)
proof (rule summaryFor_AvailableE)
  fix a z
  assume "a = hd (filter (\<lambda>ob. ob_state ob = RECORDED_POSITIVE) obs)"
    "z = last (filter (\<lambda>ob. ob_state ob = RECORDED_POSITIVE) obs)"
    "ts_first t = (ob_year a, ob_value a)" "ts_last t = (ob_year z, ob_value z)"
  with sorted_map_hd_last [OF sorted_map_filter [OF assms(2)]] assms(3,4) show ?thesis
    by simp
qed

subsection \<open>Value of the change\<close>

lemma scale_up_value: "scale v \<le> k \<Longrightarrow> (of_int (units v * tenTo (k - scale v)) :: rat) / 10 ^ k = fixed_value v"
proof -
  assume "scale v \<le> k"
  then have "(10::rat) ^ k = 10 ^ (k - scale v) * 10 ^ scale v" by (simp flip: power_add)
  then show ?thesis by (simp add: fixed_value_def tenTo_def)
qed

lemma subtract_value [simp]: "fixed_value (subtract l r) = fixed_value l - fixed_value r"
proof -
  let ?s = "max (scale l) (scale r)"
  have "fixed_value (subtract l r) =
      of_int (units l * tenTo (?s - scale l)) / 10 ^ ?s - of_int (units r * tenTo (?s - scale r)) / 10 ^ ?s"
    by (simp add: subtract_def Let_def diff_divide_distrib) (simp add: fixed_value_def diff_divide_distrib)
  then show ?thesis by (simp only: scale_up_value max.cobounded1 max.cobounded2)
qed

lemma divide_value:
  fixes l r :: fixed_decimal and k :: nat
  assumes "0 < units r"
  defines "q \<equiv> fixed_value l / fixed_value r * 10 ^ k"
  shows "divide l r k = Inr \<lparr>units = if 0 \<le> q then \<lfloor>q + 1 / 2\<rfloor> else \<lceil>q\<rceil>, scale = k\<rparr>"
proof -
  let ?n = "units l * tenTo (scale r + k)" and ?d = "units r * tenTo (scale l)"
  have d: "0 < ?d" using assms by (simp add: tenTo_def)
  have q: "q = of_int ?n / of_int ?d"
    by (simp add: q_def fixed_value_def tenTo_def power_add field_simps)
  with d have "0 \<le> q \<longleftrightarrow> 0 \<le> ?n" by (simp add: zero_le_divide_iff del: of_int_mult)
  with divideHalfUp_rat [OF d, of ?n] q show ?thesis by (simp add: divide_def)
qed

lemma formatPercentage_of: "formatPercentage \<lparr>units = u, scale = PERCENTAGE_DIGITS\<rparr>
    = formatFixedDecimalScale \<lparr>units = 100 * u, scale = 6\<rparr> 6"
  by (simp add: formatPercentage_def PERCENTAGE_DIGITS_def mult.commute)

subsection \<open>Independence of the order of the input\<close>

lemma map_of_zip_emap:
  assumes "emap canonicalObservation obs = Inr cs" "distinct (map ob_year obs)"
  shows "map_of (zip (map ob_year obs) cs) y = Some c \<longleftrightarrow>
    (\<exists>ob \<in> set obs. ob_year ob = y \<and> canonicalObservation ob = Inr c)"
proof -
  from assms(1) have l: "length cs = length obs"
    and nth: "\<And>i. i < length obs \<Longrightarrow> canonicalObservation (obs ! i) = Inr (cs ! i)"
    by (auto simp: emap_Inr_iff list_all2_conv_all_nth)
  have "map_of (zip (map ob_year obs) cs) y = Some c \<longleftrightarrow> (y, c) \<in> set (zip (map ob_year obs) cs)"
    using assms(2) l by simp
  also have "\<dots> \<longleftrightarrow> (\<exists>i < length obs. ob_year (obs ! i) = y \<and> cs ! i = c)"
    using l by (auto simp: in_set_conv_nth)
  also have "\<dots> \<longleftrightarrow> (\<exists>ob \<in> set obs. ob_year ob = y \<and> canonicalObservation ob = Inr c)"
    using nth by (metis Inr_inject in_set_conv_nth)
  finally show ?thesis .
qed

lemma place_all_mset:
  assumes "efold (place_observation start cutoff) obs Map.empty = Inr m" "mset obs' = mset obs"
  shows "efold (place_observation start cutoff) obs' Map.empty = Inr m"
proof -
  from assms(1) obtain cs where cs: "emap canonicalObservation obs = Inr cs"
    and m: "m = map_of (zip (map ob_year obs) cs)"
    and pl: "\<forall>ob \<in> set obs. placeable start cutoff ob" and d: "distinct (map ob_year obs)"
    by (auto simp: place_all_Inr_iff)
  have set: "set obs' = set obs" using assms(2) by (metis set_mset_mset)
  have "mset (map ob_year obs') = mset (map ob_year obs)" using assms(2) by simp
  with d have d': "distinct (map ob_year obs')" using mset_eq_imp_distinct_iff by blast
  from cs have "\<forall>ob \<in> set obs'. \<exists>c. canonicalObservation ob = Inr c"
    unfolding set by (auto simp: emap_Inr_iff list_all2_conv_all_nth in_set_conv_nth)
  then obtain g where "\<forall>ob \<in> set obs'. canonicalObservation ob = Inr (g ob)" by metis
  then have cs': "emap canonicalObservation obs' = Inr (map g obs')"
    by (auto simp: emap_Inr_iff list_all2_conv_all_nth)
  have "map_of (zip (map ob_year obs') (map g obs')) = map_of (zip (map ob_year obs) cs)"
  proof
    fix y
    show "map_of (zip (map ob_year obs') (map g obs')) y = map_of (zip (map ob_year obs) cs) y"
      using map_of_zip_emap [OF cs d, of y] map_of_zip_emap [OF cs' d', of y] unfolding set
      by (cases "map_of (zip (map ob_year obs) cs) y") (metis not_None_eq)+
  qed
  with cs' d' pl set m show ?thesis by (simp add: place_all_Inr_iff)
qed


subsection \<open>Properties\<close>

definition sample_release :: release_ref where
  "sample_release = \<lparr>rel_baciRelease = ''202601'', rel_sourceUpdateDate = ''2026-01-22'',
     rel_hsRevision = ''HS12'', rel_ingestedYears = (2012, 2024), rel_finalizedCutoffYear = 2023,
     rel_provisionalYear = 2024\<rparr>"

definition sample_artifact :: artifact_ref where
  "sample_artifact = \<lparr>art_baciRelease = ''202601'', art_buildId = ''b1'', art_schemaVersion = ''1'',
     art_sha256 = ''aa''\<rparr>"

definition sample_economy :: "string \<Rightarrow> string \<Rightarrow> economy_identity" where
  "sample_economy code name = \<lparr>ec_code = code, ec_name = name, ec_iso3 = None, ec_note = None\<rparr>"

definition sample_product :: product_identity where
  "sample_product = \<lparr>pr_hsRevision = ''HS12'', pr_code = ''080440'', pr_descriptionEn = ''Avocados''\<rparr>"

definition sample_trend_inputs :: trend_inputs where
  "sample_trend_inputs =
     \<lparr>ti_analysisBuildId = ''a1'', ti_releaseCatalogSha256 = ''cc'', ti_artifact = sample_artifact,
      ti_release = sample_release, ti_importer = sample_economy ''528'' ''Netherlands'',
      ti_product = sample_product,
      ti_finalized =
        [\<lparr>ob_year = 2020, ob_state = MISSING_OBSERVATION, ob_value = []\<rparr>,
         \<lparr>ob_year = 2019, ob_state = NO_RECORDED_POSITIVE_FLOW, ob_value = []\<rparr>,
         \<lparr>ob_year = 2022, ob_state = RECORDED_POSITIVE, ob_value = ''3.0''\<rparr>,
         \<lparr>ob_year = 2021, ob_state = NO_RECORDED_POSITIVE_FLOW, ob_value = []\<rparr>,
         \<lparr>ob_year = 2023, ob_state = RECORDED_POSITIVE, ob_value = ''1''\<rparr>],
      ti_provisional = None\<rparr>"


lemma sample_cagr: "cagr_units \<lparr>units = 1, scale = 0\<rparr> \<lparr>units = 3, scale = 0\<rparr> 1 = Some (- 66666667)"
  by code_simp

lemma sample_change: "divideHalfUp (- 2000000) 3 = Inr (- 666666)"
  by code_simp

definition no_flow :: "int \<Rightarrow> trend_state \<Rightarrow> trend_observation" where
  "no_flow y st = \<lparr>ob_year = y, ob_state = st, ob_value = []\<rparr>"

lemma sample_values:
  "parsePositiveFixedDecimal ''3.0'' fld = Inr \<lparr>units = 3, scale = 0\<rparr>"
  "parsePositiveFixedDecimal ''3'' fld = Inr \<lparr>units = 3, scale = 0\<rparr>"
  "parsePositiveFixedDecimal ''1'' fld = Inr \<lparr>units = 1, scale = 0\<rparr>"
  "formatFixedDecimal \<lparr>units = 3, scale = 0\<rparr> = Inr ''3''"
  "formatFixedDecimal \<lparr>units = 1, scale = 0\<rparr> = Inr ''1''"
  "formatFixedDecimal \<lparr>units = - 2, scale = 0\<rparr> = Inr ''-2''"
  "formatFixedDecimalScale \<lparr>units = - 66666600, scale = 6\<rparr> 6 = Inr ''-66.666600''"
  "formatFixedDecimalScale \<lparr>units = - 66666667, scale = 6\<rparr> 6 = Inr ''-66.666667''"
  by (simp_all add: decimal_ops_eval)

lemma sample_finalized:
  "canonicalFinalizedObservations sample_trend_inputs = Inr
     [no_flow 2019 NO_RECORDED_POSITIVE_FLOW, no_flow 2020 MISSING_OBSERVATION,
      no_flow 2021 NO_RECORDED_POSITIVE_FLOW,
      \<lparr>ob_year = 2022, ob_state = RECORDED_POSITIVE, ob_value = ''3''\<rparr>,
      \<lparr>ob_year = 2023, ob_state = RECORDED_POSITIVE, ob_value = ''1''\<rparr>]"
  by (simp add: canonicalFinalizedObservations_def sample_trend_inputs_def sample_release_def
      place_observation_def canonicalObservation_def is_safe_integer_def FINALIZED_YEAR_COUNT_def
      window_years_eq sample_values no_flow_def)

lemma sample_summary:
  "summaryFor
     [no_flow 2019 NO_RECORDED_POSITIVE_FLOW, no_flow 2020 MISSING_OBSERVATION,
      no_flow 2021 NO_RECORDED_POSITIVE_FLOW,
      \<lparr>ob_year = 2022, ob_state = RECORDED_POSITIVE, ob_value = ''3''\<rparr>,
      \<lparr>ob_year = 2023, ob_state = RECORDED_POSITIVE, ob_value = ''1''\<rparr>] = Some (Inr (Available
      \<lparr>ts_first = (2022, ''3''), ts_last = (2023, ''1''), ts_spanYears = 1,
        ts_absoluteChange = ''-2'', ts_percentageChange = ''-66.666600'', ts_cagr = ''-66.666667''\<rparr>))"
proof -
  have "subtract \<lparr>units = 1, scale = 0\<rparr> \<lparr>units = 3, scale = 0\<rparr> = \<lparr>units = - 2, scale = 0\<rparr>"
    by (simp add: subtract_def tenTo_def normalizeFixedDecimal_def)
  moreover have "ebind (divide \<lparr>units = - 2, scale = 0\<rparr> \<lparr>units = 3, scale = 0\<rparr> PERCENTAGE_DIGITS)
      formatPercentage = Inr ''-66.666600''"
    by (simp add: divide_def PERCENTAGE_DIGITS_def tenTo_def sample_change formatPercentage_def sample_values)
  moreover have "formatCagr \<lparr>units = 1, scale = 0\<rparr> \<lparr>units = 3, scale = 0\<rparr> 1 = Some (Inr ''-66.666667'')"
    by (simp add: formatCagr_def sample_cagr [simplified] PERCENTAGE_DIGITS_def sample_values)
  ultimately show ?thesis by (simp add: summaryFor_def no_flow_def sample_values)
qed

lemma sample_result:
  "\<exists>res. computeTradeTrendV1 sample_trend_inputs = Some (Inr res) \<and>
    tr_summary res = Available
      \<lparr>ts_first = (2022, ''3''), ts_last = (2023, ''1''), ts_spanYears = 1,
        ts_absoluteChange = ''-2'', ts_percentageChange = ''-66.666600'', ts_cagr = ''-66.666667''\<rparr>"
proof -
  have "canonicalProvisionalObservation sample_trend_inputs = Inr None"
    "assertReleaseConsistency sample_trend_inputs = Inr ()"
    by (simp_all add: assertReleaseConsistency_def canonicalProvisionalObservation_def
        sample_trend_inputs_def sample_artifact_def sample_release_def sample_product_def)
  then show ?thesis
    by (simp add: computeTradeTrendV1_def sample_finalized sample_summary Let_def)
qed

text \<open>C31: \<^theory_text>\<open>computeTradeTrendV1\<close> always returns: whatever its input, the unbounded doubling loop
  of the growth-rate search ends, and the call yields a result or throws.\<close>

theorem trend_always_returns: "computeTradeTrendV1 inp \<noteq> None"
  by (auto simp: computeTradeTrendV1_def then_return_def Let_def summaryFor_returns
      split: sum.splits option.splits)

text \<open>C2: the growth rate the recipe prints is the exact compound annual rate of the first and
  the last recorded value, \<^theory_text>\<open>root n (l / f) - 1\<close> in percent, rounded to the nearest millionth of a
  percent with ties upwards, although the code only compares integer powers.\<close>

theorem trend_growth_rate_exact:
  assumes "computeTradeTrendV1 inp = Some (Inr res)" "tr_summary res = Available t"
  shows "\<exists>f l. parsePositiveFixedDecimal (snd (ts_first t)) ''Trade Trend first recorded value'' = Inr f
    \<and> parsePositiveFixedDecimal (snd (ts_last t)) ''Trade Trend last recorded value'' = Inr l
    \<and> formatFixedDecimalScale
        \<lparr>units = \<lfloor>10 ^ 8 * (root (nat (ts_spanYears t)) (real_value l / real_value f) - 1) + 1 / 2\<rfloor>,
         scale = 6\<rparr> 6 = Inr (ts_cagr t)"
  using computeTradeTrend_facts(2) [OF assms(1)] unfolding assms(2)
  by (elim summaryFor_AvailableE) (auto simp: formatCagr_returns parse_ok_facts)

theorem trend_growth_rate_exact_witness:
  "\<exists>f l. parsePositiveFixedDecimal ''3'' ''Trade Trend first recorded value'' = Inr f
    \<and> parsePositiveFixedDecimal ''1'' ''Trade Trend last recorded value'' = Inr l
    \<and> formatFixedDecimalScale
        \<lparr>units = \<lfloor>10 ^ 8 * (root 1 (real_value l / real_value f) - 1) + 1 / 2\<rfloor>, scale = 6\<rparr> 6
      = Inr ''-66.666667''"
  using sample_result trend_growth_rate_exact [of sample_trend_inputs] by fastforce

text \<open>C33: the percentage change is the exact relative change of the two endpoint values, cut to
  six digits of the ratio before it is printed as a percentage: rounded to the nearest with ties
  upwards when the trade grew, but truncated towards zero when it shrank.\<close>

theorem trend_percentage_rounding:
  assumes "computeTradeTrendV1 inp = Some (Inr res)" "tr_summary res = Available t"
  shows "\<exists>f l. parsePositiveFixedDecimal (snd (ts_first t)) ''Trade Trend first recorded value'' = Inr f
    \<and> parsePositiveFixedDecimal (snd (ts_last t)) ''Trade Trend last recorded value'' = Inr l
    \<and> (let q = (fixed_value l - fixed_value f) / fixed_value f * 10 ^ 6
       in formatFixedDecimalScale
            \<lparr>units = 100 * (if 0 \<le> q then \<lfloor>q + 1 / 2\<rfloor> else \<lceil>q\<rceil>), scale = 6\<rparr> 6
          = Inr (ts_percentageChange t))"
  using computeTradeTrend_facts(2) [OF assms(1)] unfolding assms(2)
  by (elim summaryFor_AvailableE)
    (auto simp: divide_value parse_ok_facts formatPercentage_of Let_def PERCENTAGE_DIGITS_def
      formatPercentage_of [unfolded PERCENTAGE_DIGITS_def])

theorem trend_percentage_rounding_witness:
  "\<exists>f l. parsePositiveFixedDecimal ''3'' ''Trade Trend first recorded value'' = Inr f
    \<and> parsePositiveFixedDecimal ''1'' ''Trade Trend last recorded value'' = Inr l
    \<and> (let q = (fixed_value l - fixed_value f) / fixed_value f * 10 ^ 6
       in formatFixedDecimalScale
            \<lparr>units = 100 * (if 0 \<le> q then \<lfloor>q + 1 / 2\<rfloor> else \<lceil>q\<rceil>), scale = 6\<rparr> 6
          = Inr ''-66.666600'')"
  using sample_result trend_percentage_rounding [of sample_trend_inputs] by fastforce

text \<open>The finalized series of a result has one observation for each year of the five-year
  window, in ascending order, each the canonical form of one of the observations given; and the
  endpoints of an available summary are the earliest and the latest of those with a value.\<close>

theorem trend_series_window:
  assumes "computeTradeTrendV1 inp = Some (Inr res)"
  defines "cy \<equiv> rel_finalizedCutoffYear (ti_release inp)"
  shows "map ob_year (tr_finalized res) = [cy - 4, cy - 3, cy - 2, cy - 1, cy]
    \<and> (\<forall>ob \<in> set (tr_finalized res). \<exists>raw \<in> set (ti_finalized inp). canonicalObservation raw = Inr ob)
    \<and> (\<forall>t. tr_summary res = Available t \<longrightarrow>
          (\<forall>ob \<in> set (tr_finalized res). ob_state ob = RECORDED_POSITIVE \<longrightarrow>
             fst (ts_first t) \<le> ob_year ob \<and> ob_year ob \<le> fst (ts_last t))
          \<and> ts_spanYears t = fst (ts_last t) - fst (ts_first t) \<and> 1 \<le> ts_spanYears t)"
proof (intro conjI allI impI)
  note f = computeTradeTrend_facts [OF assms(1)]
  show years: "map ob_year (tr_finalized res) = [cy - 4, cy - 3, cy - 2, cy - 1, cy]"
    using canonical_finalized_facts(1) [OF f(1)] by (simp add: cy_def)
  show "\<forall>ob \<in> set (tr_finalized res). \<exists>raw \<in> set (ti_finalized inp). canonicalObservation raw = Inr ob"
    using canonical_finalized_facts(2) [OF f(1)] .
  fix t assume t: "tr_summary res = Available t"
  have "sorted (map ob_year (tr_finalized res))" unfolding years by simp
  with endpoints_enclose f(2) t show "\<forall>ob \<in> set (tr_finalized res). ob_state ob = RECORDED_POSITIVE \<longrightarrow>
      fst (ts_first t) \<le> ob_year ob \<and> ob_year ob \<le> fst (ts_last t)" by auto
  show "ts_spanYears t = fst (ts_last t) - fst (ts_first t)" "1 \<le> ts_spanYears t"
    using f(2) unfolding t by (auto elim: summaryFor_AvailableE)
qed

theorem trend_series_window_witness:
  "map ob_year (tr_finalized (projr (the (computeTradeTrendV1 sample_trend_inputs))))
     = [2019, 2020, 2021, 2022, 2023]"
  using sample_result trend_series_window [of sample_trend_inputs]
  by (fastforce simp: sample_trend_inputs_def [THEN arg_cong [where f = ti_release]] sample_release_def)

text \<open>A result does not depend on the order in which the evidence source delivers the
  finalized observations.\<close>

theorem trend_order_independent:
  assumes "computeTradeTrendV1 inp = Some (Inr res)" "mset finalized' = mset (ti_finalized inp)"
  shows "computeTradeTrendV1 (inp\<lparr>ti_finalized := finalized'\<rparr>) = Some (Inr res)"
proof -
  let ?inp = "inp\<lparr>ti_finalized := finalized'\<rparr>"
  have "canonicalFinalizedObservations ?inp = Inr (tr_finalized res)"
    using computeTradeTrend_facts(1) [OF assms(1)]
    by (fastforce simp: canonicalFinalizedObservations_def Let_def
        elim!: ebind_InrE dest: place_all_mset [OF _ assms(2)])
  moreover have "canonicalProvisionalObservation ?inp = canonicalProvisionalObservation inp"
    "assertReleaseConsistency ?inp = assertReleaseConsistency inp"
    by (simp_all add: canonicalProvisionalObservation_def assertReleaseConsistency_def split: option.split)
  ultimately show ?thesis
    using computeTradeTrend_facts(1) [OF assms(1)] assms(1)
    by (simp add: computeTradeTrendV1_def)
qed

theorem trend_order_independent_witness:
  "\<exists>res. computeTradeTrendV1
     (sample_trend_inputs\<lparr>ti_finalized := rev (ti_finalized sample_trend_inputs)\<rparr>) = Some (Inr res)"
  using sample_result trend_order_independent [of sample_trend_inputs _ "rev (ti_finalized sample_trend_inputs)"]
  by auto

end
