(* ===== verification/Iso_Time.thy ===== *)
theory Iso_Time
  imports Js_String Complex_Main
begin

text \<open>
  JavaScript instants. A \<^verbatim>\<open>Date\<close> is its time value, an \<^theory_text>\<open>int\<close> of milliseconds since 1970; the civil
  calendar is the one of ECMA-262. \<^theory_text>\<open>to_iso\<close> is \<^verbatim>\<open>toISOString\<close> (\<^verbatim>\<open>toIso\<close> of
  \<^verbatim>\<open>src/operations/store/internal.ts\<close>) and \<^theory_text>\<open>date_parse\<close> is \<^verbatim>\<open>Date.parse\<close> on that format; any other
  text is \<^theory_text>\<open>None\<close>, the \<^verbatim>\<open>NaN\<close> of the source. The operational store compares instants as the
  strings \<^theory_text>\<open>to_iso\<close> makes; that this is the comparison of the instants, for the years 0 to 9999, is
  the interface \<^theory_text>\<open>time_text\<close> at the end.
\<close>

definition day_from_year :: "int \<Rightarrow> int" where
  "day_from_year y = 365 * (y - 1970) + (y - 1969) div 4 - (y - 1901) div 100 + (y - 1601) div 400"

definition leap_year :: "int \<Rightarrow> bool" where
  "leap_year y \<longleftrightarrow> 4 dvd y \<and> \<not> 100 dvd y \<or> 400 dvd y"

text \<open>The largest year that does not start after the day; the estimate is off by at most one.\<close>

definition year_from_day :: "int \<Rightarrow> int" where
  "year_from_day d =
     (let y = 1970 + (400 * d) div 146097
      in if d < day_from_year y then y - 1 else if day_from_year (y + 1) \<le> d then y + 1 else y)"

definition month_starts :: "bool \<Rightarrow> nat list" where
  "month_starts leap =
     (if leap then [0, 31, 60, 91, 121, 152, 182, 213, 244, 274, 305, 335]
      else [0, 31, 59, 90, 120, 151, 181, 212, 243, 273, 304, 334])"

definition month_in_year :: "bool \<Rightarrow> nat \<Rightarrow> nat" where
  "month_in_year leap k = length (filter (\<lambda>s. s \<le> k) (month_starts leap))"

definition date_of_day :: "int \<Rightarrow> int \<times> nat \<times> nat" where
  "date_of_day d =
     (let y = year_from_day d; k = nat (d - day_from_year y); m = month_in_year (leap_year y) k
      in (y, m, k - month_starts (leap_year y) ! (m - 1) + 1))"

definition fixed_width :: "nat \<Rightarrow> nat \<Rightarrow> string" where
  "fixed_width w n = pad_start w (dec n)"

definition iso_year :: "int \<Rightarrow> string" where
  "iso_year y =
     (if 0 \<le> y \<and> y \<le> 9999 then fixed_width 4 (nat y)
      else if 0 \<le> y then ''+'' @ fixed_width 6 (nat y) else ''-'' @ fixed_width 6 (nat (- y)))"

definition MS_PER_DAY :: int where
  "MS_PER_DAY = 86400000"

definition iso_time_of_day :: "nat \<Rightarrow> string" where
  "iso_time_of_day t =
     fixed_width 2 (t div 3600000) @ '':'' @ fixed_width 2 (t div 60000 mod 60) @ '':'' @
     fixed_width 2 (t div 1000 mod 60) @ ''.'' @ fixed_width 3 (t mod 1000) @ ''Z''"

definition to_iso :: "int \<Rightarrow> string" where
  "to_iso ms =
     (case date_of_day (ms div MS_PER_DAY) of (y, m, d) \<Rightarrow>
        iso_year y @ ''-'' @ fixed_width 2 m @ ''-'' @ fixed_width 2 d @ ''T'' @
        iso_time_of_day (nat (ms mod MS_PER_DAY)))"

text \<open>The parts of a 24-character text at the positions of the digits and of the separators.\<close>

definition digits_at :: "string \<Rightarrow> nat \<Rightarrow> nat \<Rightarrow> nat option" where
  "digits_at s i w =
     (let b = take w (drop i s) in if length b = w \<and> list_all is_digit b then Some (undec b) else None)"

definition date_parse :: "string \<Rightarrow> int option" where
  "date_parse s =
     (if length s = 24 \<and> s ! 4 = CHR ''-'' \<and> s ! 7 = CHR ''-'' \<and> s ! 10 = CHR ''T''
         \<and> s ! 13 = CHR '':'' \<and> s ! 16 = CHR '':'' \<and> s ! 19 = CHR ''.'' \<and> s ! 23 = CHR ''Z''
      then case (digits_at s 0 4, digits_at s 5 2, digits_at s 8 2, digits_at s 11 2,
                 digits_at s 14 2, digits_at s 17 2, digits_at s 20 3) of
             (Some y, Some m, Some d, Some h, Some mi, Some sec, Some ms) \<Rightarrow>
               if 1 \<le> m \<and> m \<le> 12 \<and> 1 \<le> d \<and> d \<le> 31 \<and> h < 24 \<and> mi < 60 \<and> sec < 60
               then Some ((day_from_year (int y) + int (month_starts (leap_year (int y)) ! (m - 1)) + int d - 1)
                            * MS_PER_DAY + int (h * 3600000 + mi * 60000 + sec * 1000 + ms))
               else None
           | _ \<Rightarrow> None
      else None)"

text \<open>The instants whose year has four digits.\<close>

definition year_0_to_9999 :: "int \<Rightarrow> bool" where
  "year_0_to_9999 ms \<longleftrightarrow> - 62167219200000 \<le> ms \<and> ms \<le> 253402300799999"

subsection \<open>The calendar\<close>

lemma div_step: "0 < n \<Longrightarrow> (x + 1) div n = x div n + (if n dvd x + 1 then 1 else (0::int))"
proof -
  assume n: "0 < n"
  show ?thesis
  proof (cases "n dvd x + 1")
    case True
    then obtain k where k: "x + 1 = n * k" by (elim dvdE)
    then have "x = n * (k - 1) + (n - 1)" by (simp add: algebra_simps)
    with n have "x div n = k - 1" by (simp add: div_pos_pos_trivial)
    with True k n show ?thesis by simp
  next
    case False
    let ?r = "x mod n"
    have r: "0 \<le> ?r" "?r < n" using n by auto
    have "?r + 1 \<noteq> n"
    proof
      assume "?r + 1 = n"
      then have "x + 1 = n * (x div n) + n" by (metis add.assoc mult_div_mod_eq)
      with False show False by (metis dvd_add dvd_refl dvd_triv_left)
    qed
    with r have "(?r + 1) div n = 0" by (intro div_pos_pos_trivial) auto
    moreover have "(x + 1) div n = (n * (x div n) + (?r + 1)) div n"
      by (metis add.assoc mult_div_mod_eq)
    moreover have "\<dots> = x div n + (?r + 1) div n"
      using n by (simp only: div_mult_self4)
    ultimately show ?thesis using False by simp
  qed
qed

lemma day_from_year_Suc: "day_from_year (y + 1) = day_from_year y + (if leap_year y then 366 else 365)"
proof -
  have a: "(y + 1 - 1969) div 4 = (y - 1969) div 4 + (if 4 dvd y then 1 else 0)"
    using div_step [of 4 "y - 1969"] dvd_add_left_iff [of 4 1968 "y - 1968"] by (simp add: algebra_simps)
  have b: "(y + 1 - 1901) div 100 = (y - 1901) div 100 + (if 100 dvd y then 1 else 0)"
    using div_step [of 100 "y - 1901"] dvd_add_left_iff [of 100 1900 "y - 1900"] by (simp add: algebra_simps)
  have c: "(y + 1 - 1601) div 400 = (y - 1601) div 400 + (if 400 dvd y then 1 else 0)"
    using div_step [of 400 "y - 1601"] dvd_add_left_iff [of 400 1600 "y - 1600"] by (simp add: algebra_simps)
  have "400 dvd y \<Longrightarrow> 100 dvd y" "100 dvd y \<Longrightarrow> 4 dvd y"
    by (erule dvd_trans [rotated], simp)+
  then show ?thesis unfolding day_from_year_def a b c by (auto simp: leap_year_def)
qed

lemma day_from_year_less: "y < z \<Longrightarrow> day_from_year y < day_from_year z"
proof -
  have "day_from_year y < day_from_year (y + 1 + int n)" for n
  proof (induction n)
    case 0
    then show ?case by (simp add: day_from_year_Suc)
  next
    case (Suc n)
    then show ?case using day_from_year_Suc [of "y + 1 + int n"] by (simp add: add.assoc)
  qed
  moreover assume "y < z"
  then obtain n where "z = y + 1 + int n" by (metis add.assoc add.commute zless_iff_Suc_zadd of_nat_Suc)
  ultimately show ?thesis by simp
qed

lemma day_from_year_mono: "y \<le> z \<Longrightarrow> day_from_year y \<le> day_from_year z"
  using day_from_year_less by (cases "y = z") (auto simp: less_le)

lemma day_from_year_bounds:
  "146097 * v - 506 \<le> 400 * day_from_year (1970 + v)"
  "400 * day_from_year (1970 + v) \<le> 146097 * v + 589"
proof -
  have d: "day_from_year (1970 + v) = 365 * v + (v + 1) div 4 - (v + 69) div 100 + (v + 369) div 400"
    by (simp add: day_from_year_def add.commute)
  define a b c where "a = (v + 1) div 4" and "b = (v + 69) div 100" and "c = (v + 369) div 400"
  have bounds: "4 * a \<le> v + 1" "v + 1 \<le> 4 * a + 3" "100 * b \<le> v + 69"
    "v + 69 \<le> 100 * b + 99" "400 * c \<le> v + 369" "v + 369 \<le> 400 * c + 399"
    by (simp_all add: a_def b_def c_def)
  have d: "day_from_year (1970 + v) = 365 * v + a - b + c"
    using d by (simp add: a_def b_def c_def)
  have "100 * v - 200 \<le> 400 * a" "400 * a \<le> 100 * v + 100" using bounds(1,2) by linarith+
  moreover have "4 * v - 120 \<le> 400 * b" "400 * b \<le> 4 * v + 276" using bounds(3,4) by linarith+
  moreover have "v - 30 \<le> 400 * c" "400 * c \<le> v + 369" using bounds(5,6) by linarith+
  moreover have "400 * day_from_year (1970 + v) = 146000 * v + 400 * a - 400 * b + 400 * c"
    unfolding d by (simp add: algebra_simps)
  ultimately show "146097 * v - 506 \<le> 400 * day_from_year (1970 + v)"
    "400 * day_from_year (1970 + v) \<le> 146097 * v + 589" by simp_all
qed

lemma year_from_day:
  "day_from_year (year_from_day d) \<le> d" "d < day_from_year (year_from_day d + 1)"
proof -
  define u where "u = (400 * d) div 146097"
  have u: "146097 * u \<le> 400 * d" "400 * d < 146097 * (u + 1)" by (simp_all add: u_def)
  have lo: "day_from_year (1970 + u - 1) \<le> d"
    using day_from_year_bounds(2) [of "u - 1"] u by (simp add: algebra_simps)
  have hi: "d < day_from_year (1970 + u + 1 + 1)"
    using day_from_year_bounds(1) [of "u + 2"] u by (simp add: algebra_simps)
  show "day_from_year (year_from_day d) \<le> d" "d < day_from_year (year_from_day d + 1)"
    using lo hi by (auto simp: year_from_day_def Let_def u_def [symmetric])
qed

lemma year_from_day_unique: "day_from_year y \<le> d \<Longrightarrow> d < day_from_year (y + 1) \<Longrightarrow> year_from_day d = y"
  using year_from_day [of d] day_from_year_mono [of "year_from_day d + 1" y]
    day_from_year_mono [of "y + 1" "year_from_day d"] by linarith

lemma year_from_day_mono: "d \<le> e \<Longrightarrow> year_from_day d \<le> year_from_day e"
  using year_from_day [of d] year_from_day [of e]
    day_from_year_mono [of "year_from_day e + 1" "year_from_day d"] by linarith

definition days_in_year :: "bool \<Rightarrow> nat" where
  "days_in_year leap = (if leap then 366 else 365)"

lemma sorted_filter_le:
  fixes k :: nat
  assumes "sorted xs"
  defines "m \<equiv> length (filter (\<lambda>s. s \<le> k) xs)"
  shows "0 < m \<Longrightarrow> xs ! (m - 1) \<le> k" and "m < length xs \<Longrightarrow> k < xs ! m"
proof -
  have eq: "filter (\<lambda>s. s \<le> k) xs = takeWhile (\<lambda>s. s \<le> k) xs"
    using assms(1)
  proof (induction xs)
    case (Cons a xs)
    then have IH: "filter (\<lambda>s. s \<le> k) xs = takeWhile (\<lambda>s. s \<le> k) xs" and le: "\<forall>x \<in> set xs. a \<le> x"
      by simp_all
    show ?case
    proof (cases "a \<le> k")
      case False
      with le have "filter (\<lambda>s. s \<le> k) xs = []" by (auto simp: filter_empty_conv)
      with False show ?thesis by simp
    qed (simp add: IH)
  qed simp
  then have m: "m = length (takeWhile (\<lambda>s. s \<le> k) xs)" by (simp add: m_def)
  show "0 < m \<Longrightarrow> xs ! (m - 1) \<le> k"
    unfolding m by (metis diff_less length_pos_if_in_set nth_mem set_takeWhileD takeWhile_nth zero_less_one)
  show "m < length xs \<Longrightarrow> k < xs ! m"
    unfolding m using nth_length_takeWhile by (metis not_le)
qed

lemma month_facts:
  assumes "k < days_in_year leap"
  defines "m \<equiv> month_in_year leap k"
  shows "1 \<le> m" "m \<le> 12" "month_starts leap ! (m - 1) \<le> k" "k - month_starts leap ! (m - 1) < 31"
proof -
  have sorted: "sorted (month_starts leap)" and len: "length (month_starts leap) = 12"
    by (simp_all add: month_starts_def)
  show m: "1 \<le> m" "m \<le> 12"
    using length_filter_le [of "\<lambda>s. s \<le> k" "month_starts leap"]
    by (simp_all add: m_def month_in_year_def len) (simp add: month_starts_def)
  from m(1) have "0 < length (filter (\<lambda>s. s \<le> k) (month_starts leap))"
    unfolding m_def month_in_year_def by linarith
  from sorted_filter_le(1) [OF sorted this] show s: "month_starts leap ! (m - 1) \<le> k"
    by (simp add: m_def month_in_year_def)
  have next_month: "m < 12 \<Longrightarrow> k < month_starts leap ! m"
    using sorted_filter_le(2) [OF sorted, of k] by (simp add: m_def month_in_year_def len)
  have "m \<in> set [1..<13]" using m by simp
  then have "m \<in> {1,2,3,4,5,6,7,8,9,10,11,12}" by (auto simp: upt_rec)
  with next_month s assms(1) show "k - month_starts leap ! (m - 1) < 31"
    by (cases leap) (auto simp: month_starts_def days_in_year_def)
qed

lemma month_mono: "j \<le> k \<Longrightarrow> month_in_year leap j \<le> month_in_year leap k"
proof -
  assume "j \<le> k"
  then have "length (filter (\<lambda>s. s \<le> j) xs) \<le> length (filter (\<lambda>s. s \<le> k) xs)" for xs :: "nat list"
    by (induction xs) auto
  then show ?thesis by (simp add: month_in_year_def)
qed

lemma date_of_day_facts:
  assumes "date_of_day n = (y, m, d)"
  shows "y = year_from_day n" "1 \<le> m" "m \<le> 12" "1 \<le> d" "d \<le> 31"
    "n = day_from_year y + int (month_starts (leap_year y) ! (m - 1)) + int d - 1"
proof -
  define k where "k = nat (n - day_from_year y)"
  from assms show y: "y = year_from_day n" by (simp add: date_of_day_def Let_def)
  have k: "int k = n - day_from_year y" "k < days_in_year (leap_year y)"
    using year_from_day [of n] by (auto simp: k_def y days_in_year_def day_from_year_Suc split: if_splits)
  have m: "m = month_in_year (leap_year y) k" and d: "d = k - month_starts (leap_year y) ! (m - 1) + 1"
    using assms by (auto simp: date_of_day_def Let_def k_def y)
  from month_facts [OF k(2)] show "1 \<le> m" "m \<le> 12" "1 \<le> d" "d \<le> 31"
    "n = day_from_year y + int (month_starts (leap_year y) ! (m - 1)) + int d - 1"
    using k(1) by (auto simp: m d)
qed


subsection \<open>The text orders like the instant\<close>

lemma fixed_width_facts:
  assumes "n < 10 ^ w" "0 < w"
  shows "length (fixed_width w n) = w" "\<forall>c \<in> set (fixed_width w n). is_digit c"
    "undec (fixed_width w n) = n"
proof -
  have "length (dec n) \<le> w" using assms dec_length_bound [of n "w - 1"] by simp
  then show "length (fixed_width w n) = w" by (simp add: fixed_width_def length_pad_start)
  show "\<forall>c \<in> set (fixed_width w n). is_digit c"
    by (auto simp: fixed_width_def intro: pad_start_digits dec_digits)
qed (simp add: fixed_width_def)

lemma fixed_width_less:
  assumes "m < 10 ^ w" "n < 10 ^ w" "0 < w"
  shows "fixed_width w m < fixed_width w n \<longleftrightarrow> m < n"
  using fixed_width_facts [OF assms(1,3)] fixed_width_facts [OF assms(2,3)]
  by (subst digits_less_iff) auto

lemma block_less:
  fixes a b s t :: string
  assumes "length a = length b"
  shows "a @ s < b @ t \<longleftrightarrow> a < b \<or> a = b \<and> s < t"
  using assms by (induction a b rule: list_induct2) auto

lemma fixed_width_block_less:
  assumes "m < 10 ^ w" "n < 10 ^ w" "0 < w"
  shows "fixed_width w m @ s < fixed_width w n @ t \<longleftrightarrow> m < n \<or> m = n \<and> s < t"
proof -
  note m = fixed_width_facts [OF assms(1,3)] and n = fixed_width_facts [OF assms(2,3)]
  have "fixed_width w m = fixed_width w n \<longleftrightarrow> m = n" using m(3) n(3) by metis
  moreover have "length (fixed_width w m) = length (fixed_width w n)" using m(1) n(1) by simp
  ultimately show ?thesis by (simp only: block_less fixed_width_less [OF assms])
qed

lemma date_of_day_lex:
  assumes "i < j" "date_of_day i = (y, m, d)" "date_of_day j = (y', m', d')"
  shows "y < y' \<or> y = y' \<and> (m < m' \<or> m = m' \<and> d < d')"
proof -
  note f = date_of_day_facts [OF assms(2)] and f' = date_of_day_facts [OF assms(3)]
  have "y \<le> y'" using f(1) f'(1) assms(1) year_from_day_mono by simp
  moreover have "m < m' \<or> m = m' \<and> d < d'" if "y = y'"
  proof -
    have m: "m = month_in_year (leap_year y) (nat (i - day_from_year y))"
      using assms(2) by (auto simp: date_of_day_def Let_def)
    have m': "m' = month_in_year (leap_year y') (nat (j - day_from_year y'))"
      using assms(3) by (auto simp: date_of_day_def Let_def)
    have "nat (i - day_from_year y) \<le> nat (j - day_from_year y)" using assms(1) by simp
    then have "m \<le> m'" unfolding m m' that by (rule month_mono)
    moreover have "d < d'" if "m = m'" using f(6) f'(6) assms(1) \<open>y = y'\<close> that by simp
    ultimately show ?thesis by auto
  qed
  ultimately show ?thesis by auto
qed

lemma clock_text_less:
  assumes "h < 100" "mi < 100" "sec < 100" "ms < 1000" "h' < 100" "mi' < 100" "sec' < 100" "ms' < 1000"
    and "h < h' \<or> h = h' \<and> (mi < mi' \<or> mi = mi' \<and> (sec < sec' \<or> sec = sec' \<and> ms < ms'))"
  shows "fixed_width 2 h @ '':'' @ fixed_width 2 mi @ '':'' @ fixed_width 2 sec @ ''.'' @ fixed_width 3 ms @ ''Z''
    < fixed_width 2 h' @ '':'' @ fixed_width 2 mi' @ '':'' @ fixed_width 2 sec' @ ''.'' @ fixed_width 3 ms' @ ''Z''"
  using assms by (auto simp: fixed_width_block_less)

lemma iso_time_of_day_less:
  assumes "a < b" "b < 86400000"
  shows "iso_time_of_day a < iso_time_of_day b"
proof -
  have bound: "x div 3600000 < 100" "x div 60000 mod 60 < 100" "x div 1000 mod 60 < 100"
    "x mod 1000 < 1000" if "x < 86400000" for x :: nat
  proof -
    show "x div 3600000 < 100" using that by (simp add: less_mult_imp_div_less)
    have "x div 60000 mod 60 < 60" "x div 1000 mod 60 < 60" by simp_all
    then show "x div 60000 mod 60 < 100" "x div 1000 mod 60 < 100" by linarith+
  qed simp
  have step: "x div k < y div k \<or> x div k = y div k \<and> x mod k < y mod k"
    if "x < y" for x y k :: nat
    using that by (metis div_le_mono div_mult_mod_eq nat_add_left_cancel_less le_neq_implies_less less_imp_le)
  have ch: "x div 1000 div 60 = x div 60000" "x div 60000 div 60 = x div 3600000" for x :: nat
    by (simp_all flip: div_mult2_eq)
  have eq: "a div 1000 = b div 1000 \<Longrightarrow> a div 60000 = b div 60000 \<and> a div 1000 mod 60 = b div 1000 mod 60"
    "a div 60000 = b div 60000 \<Longrightarrow> a div 3600000 = b div 3600000 \<and> a div 60000 mod 60 = b div 60000 mod 60"
    by (simp_all only: ch [symmetric])
  have "a div 3600000 < b div 3600000 \<or> a div 3600000 = b div 3600000 \<and>
      (a div 60000 mod 60 < b div 60000 mod 60 \<or> a div 60000 mod 60 = b div 60000 mod 60 \<and>
      (a div 1000 mod 60 < b div 1000 mod 60 \<or> a div 1000 mod 60 = b div 1000 mod 60 \<and>
       a mod 1000 < b mod 1000))"
    using step [OF assms(1), of 1000] step [of "a div 1000" "b div 1000" 60]
      step [of "a div 60000" "b div 60000" 60] eq unfolding ch by blast
  note lex = this
  have "a < 86400000" using assms by simp
  then show ?thesis
    unfolding iso_time_of_day_def by (intro clock_text_less [OF bound bound lex] assms(2))
qed

lemma year_0_to_9999_year:
  assumes "year_0_to_9999 ms" "date_of_day (ms div MS_PER_DAY) = (y, m, d)"
  shows "0 \<le> y" "y \<le> 9999"
proof -
  let ?n = "ms div MS_PER_DAY"
  have n: "- 719528 \<le> ?n" "?n < 2932897"
    using assms(1) by (auto simp: year_0_to_9999_def MS_PER_DAY_def)
  have e: "day_from_year 0 = - 719528" "day_from_year 10000 = 2932897"
    by (simp_all add: day_from_year_def)
  have y: "y = year_from_day ?n" using date_of_day_facts(1) [OF assms(2)] .
  show "0 \<le> y"
    using year_from_day(2) [of ?n] day_from_year_mono [of "y + 1" 0] n e unfolding y by linarith
  show "y \<le> 9999"
    using year_from_day(1) [of ?n] day_from_year_mono [of 10000 y] n e unfolding y by linarith
qed

lemma to_iso_blocks:
  assumes "year_0_to_9999 ms" "date_of_day (ms div MS_PER_DAY) = (y, m, d)"
  shows "to_iso ms = fixed_width 4 (nat y) @ ''-'' @ fixed_width 2 m @ ''-'' @ fixed_width 2 d @ ''T'' @
        iso_time_of_day (nat (ms mod MS_PER_DAY))"
    and "nat y < 10 ^ 4" "m < 10 ^ 2" "d < 10 ^ 2" "nat (ms mod MS_PER_DAY) < 86400000"
  using year_0_to_9999_year [OF assms] date_of_day_facts [OF assms(2)] assms(2)
  by (auto simp: to_iso_def iso_year_def MS_PER_DAY_def nat_less_iff)

lemma to_iso_less:
  assumes "a < b" "year_0_to_9999 a" "year_0_to_9999 b"
  shows "to_iso a < to_iso b"
proof -
  obtain y m d y' m' d' where da: "date_of_day (a div MS_PER_DAY) = (y, m, d)"
    and db: "date_of_day (b div MS_PER_DAY) = (y', m', d')" by (metis prod_cases3)
  note ba = to_iso_blocks [OF assms(2) da] and bb = to_iso_blocks [OF assms(3) db]
  have "a div MS_PER_DAY < b div MS_PER_DAY \<or> a div MS_PER_DAY = b div MS_PER_DAY \<and>
      nat (a mod MS_PER_DAY) < nat (b mod MS_PER_DAY)"
  proof (cases "a div MS_PER_DAY = b div MS_PER_DAY")
    case True
    with assms(1) have "a mod MS_PER_DAY < b mod MS_PER_DAY"
      by (metis add_less_cancel_left mult_div_mod_eq)
    with True show ?thesis by (simp add: MS_PER_DAY_def)
  next
    case False
    have "a div MS_PER_DAY \<le> b div MS_PER_DAY"
      using assms(1) by (intro zdiv_mono1) (auto simp: MS_PER_DAY_def)
    with False show ?thesis by simp
  qed
  then show ?thesis
  proof
    assume "a div MS_PER_DAY < b div MS_PER_DAY"
    from date_of_day_lex [OF this da db] year_0_to_9999_year [OF assms(2) da]
    have "nat y < nat y' \<or> nat y = nat y' \<and> (m < m' \<or> m = m' \<and> d < d')" by auto
    with ba bb show ?thesis by (auto simp: fixed_width_block_less)
  next
    assume "a div MS_PER_DAY = b div MS_PER_DAY \<and> nat (a mod MS_PER_DAY) < nat (b mod MS_PER_DAY)"
    then have "iso_time_of_day (nat (a mod MS_PER_DAY)) < iso_time_of_day (nat (b mod MS_PER_DAY))"
      and "y = y'" "m = m'" "d = d'" using bb(5) da db by (auto intro: iso_time_of_day_less)
    with ba bb show ?thesis by (simp add: fixed_width_block_less)
  qed
qed

lemma to_iso_less_iff:
  "year_0_to_9999 a \<Longrightarrow> year_0_to_9999 b \<Longrightarrow> to_iso a < to_iso b \<longleftrightarrow> a < b"
  using to_iso_less [of a b] to_iso_less [of b a] by (cases a b rule: linorder_cases) auto


subsection \<open>Parsing the text\<close>

definition days_from_civil :: "nat \<Rightarrow> nat \<Rightarrow> nat \<Rightarrow> int" where
  "days_from_civil y m d =
     day_from_year (int y) + int (month_starts (leap_year (int y)) ! (m - 1)) + int d - 1"

lemma length_2: "length s = 2 \<longleftrightarrow> (\<exists>a b. s = [a, b])"
  and length_3: "length s = 3 \<longleftrightarrow> (\<exists>a b c. s = [a, b, c])"
  and length_4: "length s = 4 \<longleftrightarrow> (\<exists>a b c d. s = [a, b, c, d])"
  by (auto simp: numeral_eq_Suc length_Suc_conv)

lemma date_parse_blocks:
  assumes "length y = 4" "length mo = 2" "length d = 2" "length h = 2" "length mi = 2"
    "length sec = 2" "length ms = 3"
    and "\<forall>c \<in> set (y @ mo @ d @ h @ mi @ sec @ ms). is_digit c"
    and "1 \<le> undec mo" "undec mo \<le> 12" "1 \<le> undec d" "undec d \<le> 31" "undec h < 24"
    "undec mi < 60" "undec sec < 60"
  shows "date_parse (y @ ''-'' @ mo @ ''-'' @ d @ ''T'' @ h @ '':'' @ mi @ '':'' @ sec @ ''.'' @ ms @ ''Z'')
    = Some (days_from_civil (undec y) (undec mo) (undec d) * MS_PER_DAY
        + int (undec h * 3600000 + undec mi * 60000 + undec sec * 1000 + undec ms))"
proof -
  from assms(1-7) obtain y1 y2 y3 y4 m1 m2 d1 d2 h1 h2 i1 i2 s1 s2 f1 f2 f3 where
    eqs: "y = [y1, y2, y3, y4]" "mo = [m1, m2]" "d = [d1, d2]" "h = [h1, h2]" "mi = [i1, i2]"
    "sec = [s1, s2]" "ms = [f1, f2, f3]" unfolding length_2 length_3 length_4 by blast
  have "digits_at (y @ ''-'' @ mo @ ''-'' @ d @ ''T'' @ h @ '':'' @ mi @ '':'' @ sec @ ''.'' @ ms @ ''Z'') i w
      = Some (undec b)"
    if "(i, w, b) \<in> {(0, 4, y), (5, 2, mo), (8, 2, d), (11, 2, h), (14, 2, mi), (17, 2, sec), (20, 3, ms)}"
    for i w b
    using that assms(8) unfolding eqs by (auto simp: digits_at_def)
  then show ?thesis
    using assms(9-15) by (simp add: date_parse_def days_from_civil_def) (simp add: eqs)
qed

lemma date_parse_to_iso: "year_0_to_9999 ms \<Longrightarrow> date_parse (to_iso ms) = Some ms"
proof -
  assume ok: "year_0_to_9999 ms"
  obtain y m d where da: "date_of_day (ms div MS_PER_DAY) = (y, m, d)" by (metis prod_cases3)
  define t where "t = nat (ms mod MS_PER_DAY)"
  note b = to_iso_blocks [OF ok da, folded t_def] and f = date_of_day_facts [OF da]
  note y = year_0_to_9999_year [OF ok da]
  have h: "t div 3600000 < 24" using b(5) by (simp add: less_mult_imp_div_less)
  have hh: "t div 3600000 < 10 ^ 2" "t div 60000 mod 60 < 10 ^ 2" "t div 1000 mod 60 < 10 ^ 2"
    "t mod 1000 < 10 ^ 3" "t div 60000 mod 60 < 60" "t div 1000 mod 60 < 60"
    using h pos_mod_bound by (auto intro: less_trans [OF mod_less_divisor [of 60]])
  have t: "t div 3600000 * 3600000 + t div 60000 mod 60 * 60000 + t div 1000 mod 60 * 1000 + t mod 1000 = t"
  proof -
    have "t div 3600000 = t div 60000 div 60" "t div 60000 = t div 1000 div 60"
      by (simp_all flip: div_mult2_eq)
    then have "t div 3600000 * 60 + t div 60000 mod 60 = t div 60000"
      "t div 60000 * 60 + t div 1000 mod 60 = t div 1000" by (simp_all only: div_mult_mod_eq)
    moreover have "t div 1000 * 1000 + t mod 1000 = t" by simp
    ultimately show ?thesis by linarith
  qed
  define h' i' s' f' where "h' = t div 3600000" and "i' = t div 60000 mod 60"
    and "s' = t div 1000 mod 60" and "f' = t mod 1000"
  note fw = fixed_width_facts [OF b(2)] fixed_width_facts [OF b(3)] fixed_width_facts [OF b(4)]
    fixed_width_facts [OF hh(1), folded h'_def] fixed_width_facts [OF hh(2), folded i'_def]
    fixed_width_facts [OF hh(3), folded s'_def] fixed_width_facts [OF hh(4), folded f'_def]
  have "date_parse (to_iso ms)
      = Some (days_from_civil (nat y) m d * MS_PER_DAY + int (h' * 3600000 + i' * 60000 + s' * 1000 + f'))"
    unfolding b(1) iso_time_of_day_def h'_def [symmetric] i'_def [symmetric] s'_def [symmetric]
      f'_def [symmetric]
    using date_parse_blocks [of "fixed_width 4 (nat y)" "fixed_width 2 m" "fixed_width 2 d"
      "fixed_width 2 h'" "fixed_width 2 i'" "fixed_width 2 s'" "fixed_width 3 f'"]
      f(2-5) h [folded h'_def] hh(5,6) [folded i'_def s'_def]
    by (simp add: fw ball_Un)
  moreover have "h' * 3600000 + i' * 60000 + s' * 1000 + f' = t"
    using t by (simp only: h'_def i'_def s'_def f'_def)
  moreover have "days_from_civil (nat y) m d = ms div MS_PER_DAY"
    using f(6) y by (simp add: days_from_civil_def)
  moreover have "int t = ms mod MS_PER_DAY" by (simp add: t_def MS_PER_DAY_def)
  ultimately show ?thesis by simp
qed

lemma to_iso_not_blank: "trim (to_iso ms) \<noteq> []"
proof -
  have "CHR ''-'' \<in> set (to_iso ms)" by (cases "date_of_day (ms div MS_PER_DAY)") (simp add: to_iso_def)
  moreover have "\<not> is_space CHR ''-''" by code_simp
  ultimately show ?thesis by (auto simp: trim_eq_Nil)
qed

subsection \<open>The interface\<close>

text \<open>What the operational store and its clients rely on when they keep instants as text.\<close>

locale time_text =
  fixes text_of :: "int \<Rightarrow> string" and instant_of :: "string \<Rightarrow> int option" and ok :: "int \<Rightarrow> bool"
  assumes text_less: "ok a \<Longrightarrow> ok b \<Longrightarrow> text_of a < text_of b \<longleftrightarrow> a < b"
    and parse_text: "ok a \<Longrightarrow> instant_of (text_of a) = Some a"
begin

lemma text_inject: "ok a \<Longrightarrow> ok b \<Longrightarrow> text_of a = text_of b \<longleftrightarrow> a = b"
  using parse_text by (metis option.inject)

lemma text_le: "ok a \<Longrightarrow> ok b \<Longrightarrow> text_of a \<le> text_of b \<longleftrightarrow> a \<le> b"
  using text_less text_inject by (metis le_less)

lemma later_text_wins: "ok a \<Longrightarrow> ok b \<Longrightarrow> max (text_of a) (text_of b) = text_of (max a b)"
  using text_le by (auto simp: max_def)

end

interpretation iso: time_text to_iso date_parse year_0_to_9999
  by unfold_locales (simp_all add: to_iso_less_iff date_parse_to_iso)

subsection \<open>Properties\<close>

text \<open>The text of an instant determines it and orders like it, for every instant of the years 0
  to 9999: comparing two stored timestamps as text is comparing the instants, and reading a stored
  timestamp back gives the instant that was written.\<close>

theorem timestamps_compare_as_instants:
  assumes "year_0_to_9999 a" "year_0_to_9999 b"
  shows "(to_iso a < to_iso b \<longleftrightarrow> a < b) \<and> (to_iso a = to_iso b \<longleftrightarrow> a = b) \<and> date_parse (to_iso a) = Some a"
  using iso.text_less [OF assms] iso.text_inject [OF assms] iso.parse_text [OF assms(1)] by simp

theorem timestamps_compare_as_instants_witness:
  "to_iso 999999999999 < to_iso 1000000000000 \<and> date_parse (to_iso 999999999999) = Some 999999999999"
  using timestamps_compare_as_instants [of 999999999999 1000000000000] by (simp add: year_0_to_9999_def)

end
