(* ===== verification/Store_Model.thy ===== *)
theory Store_Model
  imports Iso_Time "HOL-Library.Product_Lexorder"
begin

text \<open>
  The operational data plane: the records of \<^verbatim>\<open>src/operations/store/model.ts\<close>, the fourteen tables
  of the SQLite schema as lists of rows in insertion order, and the world an operation runs in:
  the database, the maintenance flag, the injected clock and the random sources, both as streams
  with a read counter. A row whose mapping function only renames columns is the model record
  itself. Text columns that hold JSON hold the value, because \<^verbatim>\<open>JSON.parse\<close> inverts
  \<^verbatim>\<open>JSON.stringify\<close> on it; a column with a closed set of texts holds a datatype.
\<close>

subsection \<open>Errors\<close>

datatype store_error_code =
    INVALID_STORE_INPUT | UNKNOWN_ENTITY | APPLICATION_LEASE_UNAVAILABLE | NON_LOCAL_SQLITE_VOLUME
  | MIGRATION_VALIDATION_FAILED | DUPLICATE_CREDENTIAL_IDENTITY | STORE_IN_MAINTENANCE

datatype account_error_code =
    INVALID_ACCOUNT_INPUT | INVALID_CREDENTIALS | CREDENTIAL_LOCKED | INVALID_PRIMARY_EXPORTER
  | INVALID_PRODUCT_IDENTITY | INVALID_RECOVERY_TOKEN

text \<open>Everything that may be thrown: the two error classes of the code, an error of the database
  engine, and an error of a collaborator.\<close>

datatype thrown =
    StoreError store_error_code string
  | AccountServiceError account_error_code string
  | SqliteError string
  | OtherError string

definition invalidStoreInput :: "string \<Rightarrow> thrown" where
  "invalidStoreInput m = StoreError INVALID_STORE_INPUT m"

definition unknownEntity :: "string \<Rightarrow> thrown" where
  "unknownEntity m = StoreError UNKNOWN_ENTITY m"

definition applicationLeaseUnavailable :: "string \<Rightarrow> thrown" where
  "applicationLeaseUnavailable holder = StoreError APPLICATION_LEASE_UNAVAILABLE
     (''A live single-instance application lease is already held by '' @ holder @ ''.'')"

definition duplicateCredentialIdentity :: "string \<Rightarrow> thrown" where
  "duplicateCredentialIdentity identity = StoreError DUPLICATE_CREDENTIAL_IDENTITY
     (''Credential identity '' @ identity @ '' already exists.'')"

definition storeInMaintenance :: thrown where
  "storeInMaintenance = StoreError STORE_IN_MAINTENANCE
     ''The operational store is in maintenance mode and rejects writes.''"

subsection \<open>Records\<close>

datatype json = JNull | JBool bool | JNum int | JStr string | JArr "json list"
  | JObj "(string \<times> json) list"

definition json_of :: "string option \<Rightarrow> json" where
  "json_of v = (case v of None \<Rightarrow> JNull | Some s \<Rightarrow> JStr s)"

record account =
  ac_id :: string
  ac_displayName :: string
  ac_primaryExportEconomy :: string
  ac_createdAt :: string
  ac_updatedAt :: string

record credential =
  cr_id :: string
  cr_accountId :: string
  cr_normalizedIdentity :: string
  cr_verifier :: string
  cr_failedAttemptCount :: int
  cr_lockedUntil :: "string option"
  cr_createdAt :: string
  cr_updatedAt :: string

record operational_session =
  se_tokenDigest :: string
  se_accountId :: string
  se_createdAt :: string
  se_expiresAt :: string

record session_row = operational_session +
  se_revokedAt :: "string option"

record recovery_token =
  rt_tokenDigest :: string
  rt_accountId :: string
  rt_createdAt :: string
  rt_expiresAt :: string
  rt_consumedAt :: "string option"

record audit_event =
  au_id :: string
  au_accountId :: "string option"
  au_kind :: string
  au_detail :: json
  au_createdAt :: string

record product_ref =
  pf_hsRevision :: string
  pf_code :: string

record confirmed_product =
  cp_accountId :: string
  cp_product :: product_ref
  cp_confirmedAt :: string

record delivery_consent =
  dc_accountId :: string
  dc_channel :: string
  dc_target :: string
  dc_consentedAt :: string
  dc_verifiedAt :: "string option"
  dc_unsubscribedAt :: "string option"
  dc_verificationToken :: string
  dc_unsubscribeToken :: string
  dc_createdAt :: string
  dc_updatedAt :: string

datatype suppression_reason = REASON_UNSUBSCRIBE | REASON_BOUNCE | REASON_COMPLAINT

record delivery_suppression =
  sp_accountId :: string
  sp_channel :: string
  sp_target :: string
  sp_reason :: suppression_reason
  sp_providerReceipt :: "string option"
  sp_createdAt :: string

datatype watch_status = ACTIVE | PAUSED

datatype watch_cadence = MONTHLY | QUARTERLY

record delivery_preference =
  wp_channel :: string
  wp_target :: "string option"
  wp_enabled :: bool

record last_evaluation =
  le_watchId :: string
  le_recipeId :: string
  le_packageId :: string
  le_cutoffMonth :: string
  le_resultDigest :: string
  le_state :: string
  le_growthRateDecimal :: "string option"
  le_confidence :: "string option"
  le_evaluatedAt :: string
  le_alertEventId :: "string option"

record watch_row =
  wr_id :: string
  wr_accountId :: string
  wr_hsRevision :: string
  wr_code :: string
  wr_marketEconomy :: string
  wr_reportingEconomyIso2 :: string
  wr_hs12Code :: string
  wr_exportEconomyCode :: string
  wr_cadence :: watch_cadence
  wr_deliveryPreferences :: "delivery_preference list"
  wr_contextIdentity :: string
  wr_status :: watch_status
  wr_createdAt :: string
  wr_updatedAt :: string
  wr_pausedAt :: "string option"
  wr_deletedAt :: "string option"
  wr_lastEvaluatedPackageId :: "string option"

record opportunity_watch =
  ow_id :: string
  ow_accountId :: string
  ow_product :: product_ref
  ow_marketEconomy :: string
  ow_reportingEconomyIso2 :: string
  ow_hs12Code :: string
  ow_exportEconomyCode :: "string option"
  ow_cadence :: watch_cadence
  ow_deliveryPreferences :: "delivery_preference list"
  ow_contextIdentity :: string
  ow_status :: watch_status
  ow_createdAt :: string
  ow_updatedAt :: string
  ow_pausedAt :: "string option"
  ow_deletedAt :: "string option"
  ow_lastEvaluatedPackageId :: "string option"
  ow_lastEvaluation :: "last_evaluation option"

record alert_event =
  ae_id :: string
  ae_watchId :: string
  ae_accountId :: string
  ae_kind :: string
  ae_dedupeKey :: string
  ae_recipeId :: "string option"
  ae_packageId :: "string option"
  ae_supersededPackageId :: "string option"
  ae_cutoffMonth :: "string option"
  ae_priorEventId :: "string option"
  ae_detail :: json
  ae_occurredAt :: string
  ae_createdAt :: string

datatype delivery_status = PENDING | SENT | FAILED | DEAD_LETTER | SUPPRESSED

datatype delivery_outcome =
    ACCEPTED | TRANSIENT_FAILURE | PERMANENT_FAILURE | BOUNCE | COMPLAINT
  | OUTCOME_SUPPRESSED | DUPLICATE_SUPPRESSED

record delivery_state =
  ds_deliveryId :: string
  ds_eventId :: string
  ds_channel :: string
  ds_idempotencyKey :: string
  ds_status :: delivery_status
  ds_attempts :: int
  ds_lastAttemptAt :: string
  ds_providerReceipt :: "string option"
  ds_lastOutcome :: "delivery_outcome option"
  ds_failureReason :: "string option"
  ds_updatedAt :: string

record evaluation_lease =
  el_leaseId :: string
  el_watchId :: string
  el_evaluatorId :: string
  el_packageId :: string
  el_acquiredAt :: string
  el_expiresAt :: string

record application_lease =
  al_holder :: string
  al_token :: string
  al_acquiredAt :: string
  al_expiresAt :: string

subsection \<open>Database and world\<close>

record database =
  accounts :: "account list"
  credentials :: "credential list"
  sessions :: "session_row list"
  recovery_tokens :: "recovery_token list"
  confirmed_products :: "confirmed_product list"
  consents :: "delivery_consent list"
  suppressions :: "delivery_suppression list"
  watches :: "watch_row list"
  last_evaluations :: "last_evaluation list"
  alert_events :: "alert_event list"
  delivery_states :: "delivery_state list"
  audit_events :: "audit_event list"
  evaluation_leases :: "evaluation_lease list"
  application_leases :: "application_lease option"

definition empty_database :: database where
  "empty_database =
     \<lparr>accounts = [], credentials = [], sessions = [], recovery_tokens = [],
      confirmed_products = [], consents = [], suppressions = [], watches = [],
      last_evaluations = [], alert_events = [], delivery_states = [], audit_events = [],
      evaluation_leases = [], application_leases = None\<rparr>"

text \<open>\<^theory_text>\<open>w_clock i\<close> is what the \<^theory_text>\<open>i\<close>-th call of the injected clock returns, \<^theory_text>\<open>w_uuids\<close> and
  \<^theory_text>\<open>w_bytes\<close> what \<^verbatim>\<open>randomUUID\<close> and \<^verbatim>\<open>randomBytes\<close> return, \<^theory_text>\<open>w_sha256\<close> the hex digest of
  \<^verbatim>\<open>node:crypto\<close>.\<close>

record world =
  w_db :: database
  w_maintenance :: bool
  w_clock :: "nat \<Rightarrow> int"
  w_reads :: nat
  w_uuids :: "nat \<Rightarrow> string"
  w_drawn :: nat
  w_bytes :: "nat \<Rightarrow> string"
  w_bytes_drawn :: nat
  w_sha256 :: "string \<Rightarrow> string"

type_synonym 'a store_op = "(world, thrown, 'a) op"

definition now :: "int store_op" where
  "now = (\<lambda>w. (Inr (w_clock w (w_reads w)), w\<lparr>w_reads := w_reads w + 1\<rparr>))"

definition now_iso :: "string store_op" where
  "now_iso = (\<lambda>w. (Inr (to_iso (w_clock w (w_reads w))), w\<lparr>w_reads := w_reads w + 1\<rparr>))"

definition randomUUID :: "string store_op" where
  "randomUUID = (\<lambda>w. (Inr (w_uuids w (w_drawn w)), w\<lparr>w_drawn := w_drawn w + 1\<rparr>))"

definition randomBytes :: "string store_op" where
  "randomBytes = (\<lambda>w. (Inr (w_bytes w (w_bytes_drawn w)), w\<lparr>w_bytes_drawn := w_bytes_drawn w + 1\<rparr>))"

text \<open>A query, a statement that cannot fail, a statement that may violate a constraint, and a
  transaction, which restores the rows when its body throws.\<close>

definition query :: "(database \<Rightarrow> 'a) \<Rightarrow> 'a store_op" where
  "query f = (\<lambda>w. (Inr (f (w_db w)), w))"

definition execute :: "(database \<Rightarrow> database) \<Rightarrow> unit store_op" where
  "execute f = (\<lambda>w. (Inr (), w\<lparr>w_db := f (w_db w)\<rparr>))"

definition try_execute :: "(database \<Rightarrow> thrown + database) \<Rightarrow> unit store_op" where
  "try_execute f = (\<lambda>w. case f (w_db w) of Inl e \<Rightarrow> (Inl e, w) | Inr d \<Rightarrow> (Inr (), w\<lparr>w_db := d\<rparr>))"

definition transaction :: "'a store_op \<Rightarrow> 'a store_op" where
  "transaction m = (\<lambda>w. case m w of (Inl e, t) \<Rightarrow> (Inl e, t\<lparr>w_db := w_db w\<rparr>) | (Inr x, t) \<Rightarrow> (Inr x, t))"

subsection \<open>Validation\<close>

definition requireNonEmpty :: "string \<Rightarrow> string \<Rightarrow> thrown + string" where
  "requireNonEmpty v field =
     (if trim v = [] then Inl (invalidStoreInput (field @ '' must be a non-empty string.'')) else Inr v)"

definition requirePositiveInt :: "int \<Rightarrow> string \<Rightarrow> thrown + int" where
  "requirePositiveInt v field =
     (if v \<le> 0 then Inl (invalidStoreInput (field @ '' must be a positive integer.'')) else Inr v)"

definition requireNonNegativeInt :: "int \<Rightarrow> string \<Rightarrow> thrown + int" where
  "requireNonNegativeInt v field =
     (if v < 0 then Inl (invalidStoreInput (field @ '' must be a non-negative integer.'')) else Inr v)"

definition normalizeCredentialIdentity :: "string \<Rightarrow> thrown + string" where
  "normalizeCredentialIdentity identity =
     ebind (requireNonEmpty identity ''identity'') (\<lambda>v. Inr (to_lower (trim v)))"

definition normalizeDeliveryChannel :: "string \<Rightarrow> thrown + string" where
  "normalizeDeliveryChannel channel =
     ebind (requireNonEmpty channel ''channel'') (\<lambda>v. Inr (to_lower (trim v)))"

definition normalizeDeliveryTarget :: "string \<Rightarrow> thrown + string" where
  "normalizeDeliveryTarget target =
     ebind (requireNonEmpty target ''target'') (\<lambda>v. Inr (to_lower (trim v)))"

definition normalizeCadence :: "string \<Rightarrow> thrown + watch_cadence" where
  "normalizeCadence v =
     ebind (requireNonEmpty v ''cadence'') (\<lambda>c.
       if c = ''MONTHLY'' then Inr MONTHLY
       else if c = ''QUARTERLY'' then Inr QUARTERLY
       else Inl (invalidStoreInput ''cadence must be MONTHLY or QUARTERLY.''))"

text \<open>A check that throws or yields a value, as a step of an operation.\<close>

definition check :: "thrown + 'a \<Rightarrow> 'a store_op" where
  "check r = (\<lambda>w. (r, w))"

definition assertWritable :: "unit store_op" where
  "assertWritable = (\<lambda>w. if w_maintenance w then (Inl storeInMaintenance, w) else (Inr (), w))"

definition enterMaintenance :: "unit store_op" where
  "enterMaintenance = writing (\<lambda>w. w\<lparr>w_maintenance := True\<rparr>)"

subsection \<open>Tables\<close>

text \<open>A table's uniqueness constraints are one relation \<^theory_text>\<open>clash\<close>: two rows that agree on some key.
  \<^theory_text>\<open>insert_row\<close> is an \<^verbatim>\<open>INSERT\<close>, \<^theory_text>\<open>update_rows\<close> an \<^verbatim>\<open>UPDATE ... WHERE\<close>.\<close>

definition insert_row :: "('r \<Rightarrow> 'r \<Rightarrow> bool) \<Rightarrow> string \<Rightarrow> 'r \<Rightarrow> 'r list \<Rightarrow> thrown + 'r list" where
  "insert_row clash constraint r rows =
     (if list_ex (clash r) rows then Inl (SqliteError (''UNIQUE constraint failed: '' @ constraint))
      else Inr (rows @ [r]))"

definition update_rows :: "('r \<Rightarrow> bool) \<Rightarrow> ('r \<Rightarrow> 'r) \<Rightarrow> 'r list \<Rightarrow> 'r list" where
  "update_rows P f rows = map (\<lambda>r. if P r then f r else r) rows"

definition delete_rows :: "('r \<Rightarrow> bool) \<Rightarrow> 'r list \<Rightarrow> 'r list" where
  "delete_rows P rows = filter (\<lambda>r. \<not> P r) rows"

definition changes :: "('r \<Rightarrow> bool) \<Rightarrow> 'r list \<Rightarrow> nat" where
  "changes P rows = length (filter P rows)"

text \<open>The condition the constraints keep: no two rows clash.\<close>

fun no_clash :: "('r \<Rightarrow> 'r \<Rightarrow> bool) \<Rightarrow> 'r list \<Rightarrow> bool" where
  "no_clash clash [] = True"
| "no_clash clash (r # rows) = (list_all (\<lambda>s. \<not> clash r s) rows \<and> no_clash clash rows)"

text \<open>\<^verbatim>\<open>INSERT ... ON CONFLICT (target) DO NOTHING\<close> and \<^verbatim>\<open>DO UPDATE\<close>: the engine looks at the
  conflict target first; an update may then still violate another constraint of the table.\<close>

definition upsert_nothing ::
  "('r \<Rightarrow> 'r \<Rightarrow> bool) \<Rightarrow> ('r \<Rightarrow> 'r \<Rightarrow> bool) \<Rightarrow> string \<Rightarrow> 'r \<Rightarrow> 'r list \<Rightarrow> thrown + 'r list" where
  "upsert_nothing target clash constraint r rows =
     (if list_ex (target r) rows then Inr rows else insert_row clash constraint r rows)"

definition upsert_update ::
  "('r \<Rightarrow> 'r \<Rightarrow> bool) \<Rightarrow> ('r \<Rightarrow> 'r \<Rightarrow> bool) \<Rightarrow> string \<Rightarrow> 'r \<Rightarrow> ('r \<Rightarrow> 'r) \<Rightarrow> 'r list \<Rightarrow> thrown + 'r list" where
  "upsert_update target clash constraint r f rows =
     (case find (target r) rows of
        None \<Rightarrow> insert_row clash constraint r rows
      | Some s \<Rightarrow>
          if list_ex (\<lambda>t. \<not> target r t \<and> clash (f s) t) rows
          then Inl (SqliteError (''UNIQUE constraint failed: '' @ constraint))
          else Inr (update_rows (target r) f rows))"

locale sql_table =
  fixes clash :: "'r \<Rightarrow> 'r \<Rightarrow> bool"
  assumes clash_sym: "clash r s \<Longrightarrow> clash s r"
begin

lemma no_clash_snoc: "no_clash clash (rows @ [r]) \<longleftrightarrow> no_clash clash rows \<and> (\<forall>s \<in> set rows. \<not> clash r s)"
  by (induction rows) (auto simp: list_all_iff dest: clash_sym)

lemma insert_keeps: "insert_row clash c r rows = Inr rows' \<Longrightarrow> no_clash clash rows \<Longrightarrow> no_clash clash rows'"
  by (auto simp: insert_row_def no_clash_snoc list_ex_iff split: if_splits)

lemma delete_keeps: "no_clash clash rows \<Longrightarrow> no_clash clash (delete_rows P rows)"
  by (induction rows) (auto simp: delete_rows_def list_all_iff)

lemma update_keeps:
  assumes "no_clash clash rows" "\<And>r s. clash (f r) s \<Longrightarrow> clash r s"
  shows "no_clash clash (update_rows P f rows)"
  using assms(1)
proof (induction rows)
  case (Cons r rows)
  have "\<not> clash (if P r then f r else r) (if P s then f s else s)" if "s \<in> set rows" for s
  proof
    assume c: "clash (if P r then f r else r) (if P s then f s else s)"
    have one: "clash x y" if "clash (if P x then f x else x) y" for x y
      using that assms(2) by (auto split: if_splits)
    from one [OF c] have "clash (if P s then f s else s) r" by (rule clash_sym)
    from one [OF this] have "clash r s" by (rule clash_sym)
    with Cons.prems \<open>s \<in> set rows\<close> show False by (auto simp: list_all_iff)
  qed
  then have "\<forall>s \<in> set rows. \<not> clash (if P r then f r else r) (if P s then f s else s)" by blast
  with Cons show ?case by (simp add: update_rows_def list_all_iff del: if_split if_image_distrib)
qed (simp add: update_rows_def)

lemma no_clash_unique:
  "no_clash clash rows \<Longrightarrow> r \<in> set rows \<Longrightarrow> s \<in> set rows \<Longrightarrow> clash r s \<Longrightarrow> r = s"
  by (induction rows) (auto simp: list_all_iff dest: clash_sym)

lemma find_unique:
  assumes "no_clash clash rows" "r \<in> set rows" "P r" "\<And>s. s \<in> set rows \<Longrightarrow> P s \<Longrightarrow> clash r s"
  shows "find P rows = Some r"
proof -
  obtain s where "find P rows = Some s" using assms(2,3) by (metis find_None_iff option.exhaust)
  then have "s \<in> set rows" "P s" by (auto dest: find_SomeD)
  with assms no_clash_unique [of rows r s] \<open>find P rows = Some s\<close> show ?thesis by auto
qed

end


text \<open>A table with a conflict target: the target is one of the uniqueness constraints.\<close>

locale sql_upsert = sql_table clash for clash :: "'r \<Rightarrow> 'r \<Rightarrow> bool" +
  fixes target :: "'r \<Rightarrow> 'r \<Rightarrow> bool"
  assumes target_clash: "target r s \<Longrightarrow> target r t \<Longrightarrow> clash s t"
begin

lemma upsert_nothing_keeps:
  "upsert_nothing target clash c r rows = Inr rows' \<Longrightarrow> no_clash clash rows \<Longrightarrow> no_clash clash rows'"
  by (auto simp: upsert_nothing_def insert_keeps split: if_splits)

lemma update_one_keeps:
  assumes "no_clash clash rows" "\<forall>s \<in> set rows. target r s \<longrightarrow> (\<forall>t \<in> set rows. \<not> target r t \<longrightarrow> \<not> clash (f s) t)"
  shows "no_clash clash (update_rows (target r) f rows)"
  using assms
proof (induction rows)
  case (Cons u rows)
  have "\<not> clash (if target r u then f u else u) (if target r s then f s else s)" if s: "s \<in> set rows" for s
  proof (cases "target r u")
    case True
    with Cons.prems s target_clash [OF True] have "\<not> target r s" by (auto simp: list_all_iff)
    with True Cons.prems s show ?thesis by auto
  next
    case False
    show ?thesis
    proof (cases "target r s")
      case 2: True
      with False Cons.prems s have "\<not> clash (f s) u" by auto
      with False 2 show ?thesis by (auto dest: clash_sym)
    next
      case 3: False
      with False Cons.prems s show ?thesis by (auto simp: list_all_iff)
    qed
  qed
  then have "\<forall>s \<in> set rows. \<not> clash (if target r u then f u else u) (if target r s then f s else s)" by blast
  with Cons show ?case by (simp add: update_rows_def list_all_iff del: if_split if_image_distrib)
qed (simp add: update_rows_def)

lemma upsert_update_keeps:
  assumes "upsert_update target clash c r f rows = Inr rows'" "no_clash clash rows"
  shows "no_clash clash rows'"
proof (cases "find (target r) rows")
  case None
  with assms show ?thesis by (auto simp: upsert_update_def insert_keeps)
next
  case (Some s)
  then have s: "s \<in> set rows" "target r s" by (auto dest: find_SomeD)
  have eq: "t = s" if "t \<in> set rows" "target r t" for t
    using that s no_clash_unique [OF assms(2) that(1) s(1)] target_clash by blast
  from Some assms(1) have "rows' = update_rows (target r) f rows"
    "\<forall>t \<in> set rows. \<not> target r t \<longrightarrow> \<not> clash (f s) t"
    by (auto simp: upsert_update_def list_ex_iff split: if_splits)
  with update_one_keeps [OF assms(2)] eq show ?thesis by metis
qed

lemma find_target_unique:
  "no_clash clash rows \<Longrightarrow> s \<in> set rows \<Longrightarrow> target r s \<Longrightarrow> find (target r) rows = Some s"
  by (rule find_unique [where r = s]) (auto intro: target_clash)

end

subsection \<open>Rows after a statement\<close>

lemma upsert_update_set:
  assumes "upsert_update target clash c r f rows = Inr rows'" "s \<in> set rows'"
  shows "s \<in> set rows \<or> s = r \<or> (\<exists>t \<in> set rows. target r t \<and> s = f t)"
  using assms
  by (auto simp: upsert_update_def insert_row_def update_rows_def split: option.splits if_splits)

lemma upsert_nothing_set:
  "upsert_nothing target clash c r rows = Inr rows' \<Longrightarrow> rows' = rows \<or> rows' = rows @ [r]"
  by (auto simp: upsert_nothing_def insert_row_def split: if_splits)

lemma insert_row_Inr: "insert_row clash c r rows = Inr rows' \<longleftrightarrow> rows' = rows @ [r] \<and> \<not> list_ex (clash r) rows"
  by (auto simp: insert_row_def)

lemma in_update_rows: "s \<in> set (update_rows P f rows) \<longleftrightarrow> (\<exists>r \<in> set rows. s = (if P r then f r else r))"
  by (auto simp: update_rows_def)

lemma in_delete_rows [simp]: "s \<in> set (delete_rows P rows) \<longleftrightarrow> s \<in> set rows \<and> \<not> P s"
  by (auto simp: delete_rows_def)

lemma find_update_rows:
  assumes "\<And>r. P (f r) = P r"
  shows "find P (update_rows Q f rows) = map_option (\<lambda>r. if Q r then f r else r) (find P rows)"
  by (induction rows) (auto simp: update_rows_def assms)

end
