(* ===== verification/Store_Tables.thy ===== *)
theory Store_Tables
  imports Store_Model
begin

text \<open>
  The schema of \<^verbatim>\<open>src/operations/store/sqlite-operational-store.ts\<close>: the \<^verbatim>\<open>PRIMARY KEY\<close> and
  \<^verbatim>\<open>UNIQUE\<close> constraints as one \<^theory_text>\<open>clash\<close> relation per table, the foreign keys with their
  \<^verbatim>\<open>ON DELETE\<close> actions, and the statements the store runs. \<^theory_text>\<open>database_ok\<close> says that the constraints
  hold; every statement keeps it.
\<close>

subsection \<open>Uniqueness constraints\<close>

definition account_clash :: "account \<Rightarrow> account \<Rightarrow> bool" where
  "account_clash a b \<longleftrightarrow> ac_id a = ac_id b"

definition credential_clash :: "credential \<Rightarrow> credential \<Rightarrow> bool" where
  "credential_clash a b \<longleftrightarrow> cr_id a = cr_id b \<or> cr_normalizedIdentity a = cr_normalizedIdentity b"

definition session_clash :: "session_row \<Rightarrow> session_row \<Rightarrow> bool" where
  "session_clash a b \<longleftrightarrow> se_tokenDigest a = se_tokenDigest b"

definition recovery_clash :: "recovery_token \<Rightarrow> recovery_token \<Rightarrow> bool" where
  "recovery_clash a b \<longleftrightarrow> rt_tokenDigest a = rt_tokenDigest b"

definition product_clash :: "confirmed_product \<Rightarrow> confirmed_product \<Rightarrow> bool" where
  "product_clash a b \<longleftrightarrow> cp_accountId a = cp_accountId b \<and> cp_product a = cp_product b"

definition consent_target :: "delivery_consent \<Rightarrow> delivery_consent \<Rightarrow> bool" where
  "consent_target a b \<longleftrightarrow>
     dc_accountId a = dc_accountId b \<and> dc_channel a = dc_channel b \<and> dc_target a = dc_target b"

definition consent_clash :: "delivery_consent \<Rightarrow> delivery_consent \<Rightarrow> bool" where
  "consent_clash a b \<longleftrightarrow> consent_target a b \<or> dc_verificationToken a = dc_verificationToken b
     \<or> dc_unsubscribeToken a = dc_unsubscribeToken b"

definition suppression_clash :: "delivery_suppression \<Rightarrow> delivery_suppression \<Rightarrow> bool" where
  "suppression_clash a b \<longleftrightarrow> sp_accountId a = sp_accountId b \<and> sp_channel a = sp_channel b
     \<and> sp_target a = sp_target b \<and> sp_reason a = sp_reason b"

definition watch_context :: "watch_row \<Rightarrow> watch_row \<Rightarrow> bool" where
  "watch_context a b \<longleftrightarrow> wr_accountId a = wr_accountId b
     \<and> wr_reportingEconomyIso2 a = wr_reportingEconomyIso2 b \<and> wr_hsRevision a = wr_hsRevision b
     \<and> wr_hs12Code a = wr_hs12Code b \<and> wr_cadence a = wr_cadence b
     \<and> wr_exportEconomyCode a = wr_exportEconomyCode b"

definition watch_clash :: "watch_row \<Rightarrow> watch_row \<Rightarrow> bool" where
  "watch_clash a b \<longleftrightarrow> wr_id a = wr_id b \<or> watch_context a b"

definition evaluation_clash :: "last_evaluation \<Rightarrow> last_evaluation \<Rightarrow> bool" where
  "evaluation_clash a b \<longleftrightarrow> le_watchId a = le_watchId b \<and> le_recipeId a = le_recipeId b"

definition event_target :: "alert_event \<Rightarrow> alert_event \<Rightarrow> bool" where
  "event_target a b \<longleftrightarrow> ae_watchId a = ae_watchId b \<and> ae_dedupeKey a = ae_dedupeKey b"

definition event_clash :: "alert_event \<Rightarrow> alert_event \<Rightarrow> bool" where
  "event_clash a b \<longleftrightarrow> ae_id a = ae_id b \<or> event_target a b"

definition delivery_target :: "delivery_state \<Rightarrow> delivery_state \<Rightarrow> bool" where
  "delivery_target a b \<longleftrightarrow> ds_eventId a = ds_eventId b \<and> ds_channel a = ds_channel b"

definition delivery_clash :: "delivery_state \<Rightarrow> delivery_state \<Rightarrow> bool" where
  "delivery_clash a b \<longleftrightarrow> ds_deliveryId a = ds_deliveryId b
     \<or> ds_idempotencyKey a = ds_idempotencyKey b \<or> delivery_target a b"

definition audit_clash :: "audit_event \<Rightarrow> audit_event \<Rightarrow> bool" where
  "audit_clash a b \<longleftrightarrow> au_id a = au_id b"

definition lease_target :: "evaluation_lease \<Rightarrow> evaluation_lease \<Rightarrow> bool" where
  "lease_target a b \<longleftrightarrow> el_watchId a = el_watchId b \<and> el_packageId a = el_packageId b"

definition lease_clash :: "evaluation_lease \<Rightarrow> evaluation_lease \<Rightarrow> bool" where
  "lease_clash a b \<longleftrightarrow> el_leaseId a = el_leaseId b \<or> lease_target a b"

lemmas clash_defs = account_clash_def credential_clash_def session_clash_def recovery_clash_def
  product_clash_def consent_target_def consent_clash_def suppression_clash_def watch_context_def
  watch_clash_def evaluation_clash_def event_target_def event_clash_def delivery_target_def
  delivery_clash_def audit_clash_def lease_target_def lease_clash_def

interpretation account_table: sql_table account_clash
  by unfold_locales (auto simp: clash_defs)

interpretation credential_table: sql_table credential_clash
  by unfold_locales (auto simp: clash_defs)

interpretation session_table: sql_table session_clash
  by unfold_locales (auto simp: clash_defs)

interpretation recovery_table: sql_table recovery_clash
  by unfold_locales (auto simp: clash_defs)

interpretation product_table: sql_table product_clash
  by unfold_locales (auto simp: clash_defs)

interpretation consent_table: sql_upsert consent_clash consent_target
  by unfold_locales (auto simp: clash_defs)

interpretation suppression_table: sql_upsert suppression_clash suppression_clash
  by unfold_locales (auto simp: clash_defs)

interpretation watch_table: sql_upsert watch_clash watch_context
  by unfold_locales (auto simp: clash_defs)

interpretation evaluation_table: sql_upsert evaluation_clash evaluation_clash
  by unfold_locales (auto simp: clash_defs)

interpretation event_table: sql_upsert event_clash event_target
  by unfold_locales (auto simp: clash_defs)

interpretation delivery_table: sql_upsert delivery_clash delivery_target
  by unfold_locales (auto simp: clash_defs)

interpretation audit_table: sql_table audit_clash
  by unfold_locales (auto simp: clash_defs)

interpretation lease_table: sql_upsert lease_clash lease_target
  by unfold_locales (auto simp: clash_defs)

subsection \<open>Foreign keys\<close>

definition account_ids :: "database \<Rightarrow> string set" where
  "account_ids db = ac_id ` set (accounts db)"

definition watch_ids :: "database \<Rightarrow> string set" where
  "watch_ids db = wr_id ` set (watches db)"

definition event_ids :: "database \<Rightarrow> string set" where
  "event_ids db = ae_id ` set (alert_events db)"

definition unique_ok :: "database \<Rightarrow> bool" where
  "unique_ok db \<longleftrightarrow>
     no_clash account_clash (accounts db) \<and> no_clash credential_clash (credentials db) \<and>
     no_clash session_clash (sessions db) \<and> no_clash recovery_clash (recovery_tokens db) \<and>
     no_clash product_clash (confirmed_products db) \<and> no_clash consent_clash (consents db) \<and>
     no_clash suppression_clash (suppressions db) \<and> no_clash watch_clash (watches db) \<and>
     no_clash evaluation_clash (last_evaluations db) \<and> no_clash event_clash (alert_events db) \<and>
     no_clash delivery_clash (delivery_states db) \<and> no_clash audit_clash (audit_events db) \<and>
     no_clash lease_clash (evaluation_leases db)"

definition references_ok :: "database \<Rightarrow> bool" where
  "references_ok db \<longleftrightarrow>
     (\<forall>r \<in> set (credentials db). cr_accountId r \<in> account_ids db) \<and>
     (\<forall>r \<in> set (sessions db). se_accountId r \<in> account_ids db) \<and>
     (\<forall>r \<in> set (recovery_tokens db). rt_accountId r \<in> account_ids db) \<and>
     (\<forall>r \<in> set (confirmed_products db). cp_accountId r \<in> account_ids db) \<and>
     (\<forall>r \<in> set (consents db). dc_accountId r \<in> account_ids db) \<and>
     (\<forall>r \<in> set (suppressions db). sp_accountId r \<in> account_ids db) \<and>
     (\<forall>r \<in> set (watches db). wr_accountId r \<in> account_ids db) \<and>
     (\<forall>r \<in> set (last_evaluations db). le_watchId r \<in> watch_ids db \<and>
        (\<forall>e. le_alertEventId r = Some e \<longrightarrow> e \<in> event_ids db)) \<and>
     (\<forall>r \<in> set (alert_events db). ae_watchId r \<in> watch_ids db \<and> ae_accountId r \<in> account_ids db \<and>
        (\<forall>e. ae_priorEventId r = Some e \<longrightarrow> e \<in> event_ids db)) \<and>
     (\<forall>r \<in> set (delivery_states db). ds_eventId r \<in> event_ids db) \<and>
     (\<forall>r \<in> set (evaluation_leases db). el_watchId r \<in> watch_ids db)"

definition database_ok :: "database \<Rightarrow> bool" where
  "database_ok db \<longleftrightarrow> unique_ok db \<and> references_ok db"

lemma database_ok_empty: "database_ok empty_database"
  by (simp add: database_ok_def unique_ok_def references_ok_def empty_database_def)

text \<open>The checks of a foreign key in a statement: the referenced row has to exist.\<close>

definition require_ref :: "bool \<Rightarrow> database \<Rightarrow> thrown + database" where
  "require_ref present db = (if present then Inr db else Inl (SqliteError ''FOREIGN KEY constraint failed''))"

definition has_account :: "string \<Rightarrow> database \<Rightarrow> bool" where
  "has_account i db = list_ex (\<lambda>a. ac_id a = i) (accounts db)"

definition has_watch :: "string \<Rightarrow> database \<Rightarrow> bool" where
  "has_watch i db = list_ex (\<lambda>w. wr_id w = i) (watches db)"

definition has_event :: "string \<Rightarrow> database \<Rightarrow> bool" where
  "has_event i db = list_ex (\<lambda>e. ae_id e = i) (alert_events db)"

definition has_optional_event :: "string option \<Rightarrow> database \<Rightarrow> bool" where
  "has_optional_event e db = (case e of None \<Rightarrow> True | Some i \<Rightarrow> has_event i db)"

lemma has_iff [simp]:
  "has_account i db \<longleftrightarrow> i \<in> account_ids db"
  "has_watch i db \<longleftrightarrow> i \<in> watch_ids db"
  "has_event i db \<longleftrightarrow> i \<in> event_ids db"
  by (auto simp: has_account_def has_watch_def has_event_def account_ids_def watch_ids_def
      event_ids_def list_ex_iff)

lemma has_optional_event_iff: "has_optional_event e db \<longleftrightarrow> (\<forall>i. e = Some i \<longrightarrow> i \<in> event_ids db)"
  by (simp add: has_optional_event_def split: option.splits)

lemma require_ref_Inr [simp]: "require_ref b db = Inr db' \<longleftrightarrow> b \<and> db' = db"
  by (auto simp: require_ref_def)

lemma require_ref_simps [simp]:
  "require_ref True db = Inr db"
  "require_ref False db = Inl (SqliteError ''FOREIGN KEY constraint failed'')"
  by (simp_all add: require_ref_def)

subsection \<open>Inserts and upserts\<close>

definition insert_account :: "account \<Rightarrow> database \<Rightarrow> thrown + database" where
  "insert_account r db =
     ebind (insert_row account_clash ''operational_account.id'' r (accounts db)) (\<lambda>rows.
     Inr (db\<lparr>accounts := rows\<rparr>))"

definition insert_credential :: "credential \<Rightarrow> database \<Rightarrow> thrown + database" where
  "insert_credential r db =
     ebind (insert_row credential_clash ''operational_credential.normalized_identity'' r (credentials db)) (\<lambda>rows.
     require_ref (has_account (cr_accountId r) db) (db\<lparr>credentials := rows\<rparr>))"

definition insert_session :: "session_row \<Rightarrow> database \<Rightarrow> thrown + database" where
  "insert_session r db =
     ebind (insert_row session_clash ''operational_session.token_digest'' r (sessions db)) (\<lambda>rows.
     require_ref (has_account (se_accountId r) db) (db\<lparr>sessions := rows\<rparr>))"

definition insert_recovery_token :: "recovery_token \<Rightarrow> database \<Rightarrow> thrown + database" where
  "insert_recovery_token r db =
     ebind (insert_row recovery_clash ''operational_recovery_token.token_digest'' r (recovery_tokens db)) (\<lambda>rows.
     require_ref (has_account (rt_accountId r) db) (db\<lparr>recovery_tokens := rows\<rparr>))"

definition insert_confirmed_product :: "confirmed_product \<Rightarrow> database \<Rightarrow> thrown + database" where
  "insert_confirmed_product r db =
     ebind (insert_row product_clash ''operational_confirmed_product.account_id'' r (confirmed_products db)) (\<lambda>rows.
     require_ref (has_account (cp_accountId r) db) (db\<lparr>confirmed_products := rows\<rparr>))"

definition insert_audit_event :: "audit_event \<Rightarrow> database \<Rightarrow> thrown + database" where
  "insert_audit_event r db =
     ebind (insert_row audit_clash ''operational_audit_event.id'' r (audit_events db)) (\<lambda>rows.
     Inr (db\<lparr>audit_events := rows\<rparr>))"

text \<open>\<^verbatim>\<open>requestDeliveryConsent\<close>: a repeated request resets the verification and the unsubscription.\<close>

definition upsert_consent :: "delivery_consent \<Rightarrow> database \<Rightarrow> thrown + database" where
  "upsert_consent r db =
     ebind (upsert_update consent_target consent_clash ''operational_delivery_consent.verification_token'' r
              (\<lambda>s. s\<lparr>dc_consentedAt := dc_consentedAt r, dc_verifiedAt := None, dc_unsubscribedAt := None,
                     dc_verificationToken := dc_verificationToken r,
                     dc_unsubscribeToken := dc_unsubscribeToken r, dc_updatedAt := dc_updatedAt r\<rparr>)
              (consents db)) (\<lambda>rows.
     require_ref (has_account (dc_accountId r) db) (db\<lparr>consents := rows\<rparr>))"

definition insert_suppression_once :: "delivery_suppression \<Rightarrow> database \<Rightarrow> thrown + database" where
  "insert_suppression_once r db =
     ebind (upsert_nothing suppression_clash suppression_clash ''operational_delivery_suppression'' r
              (suppressions db)) (\<lambda>rows.
     require_ref (has_account (sp_accountId r) db) (db\<lparr>suppressions := rows\<rparr>))"

definition coalesce :: "'a option \<Rightarrow> 'a option \<Rightarrow> 'a option" where
  "coalesce a b = (case a of None \<Rightarrow> b | Some x \<Rightarrow> Some x)"

definition upsert_suppression :: "delivery_suppression \<Rightarrow> database \<Rightarrow> thrown + database" where
  "upsert_suppression r db =
     ebind (upsert_update suppression_clash suppression_clash ''operational_delivery_suppression'' r
              (\<lambda>s. s\<lparr>sp_providerReceipt := coalesce (sp_providerReceipt s) (sp_providerReceipt r)\<rparr>)
              (suppressions db)) (\<lambda>rows.
     require_ref (has_account (sp_accountId r) db) (db\<lparr>suppressions := rows\<rparr>))"

definition insert_watch_once :: "watch_row \<Rightarrow> database \<Rightarrow> thrown + database" where
  "insert_watch_once r db =
     ebind (upsert_nothing watch_context watch_clash ''operational_watch.id'' r (watches db)) (\<lambda>rows.
     require_ref (has_account (wr_accountId r) db) (db\<lparr>watches := rows\<rparr>))"

definition upsert_last_evaluation :: "last_evaluation \<Rightarrow> database \<Rightarrow> thrown + database" where
  "upsert_last_evaluation r db =
     ebind (upsert_update evaluation_clash evaluation_clash ''operational_last_evaluation'' r (\<lambda>_. r)
              (last_evaluations db)) (\<lambda>rows.
     require_ref (has_watch (le_watchId r) db \<and> has_optional_event (le_alertEventId r) db)
       (db\<lparr>last_evaluations := rows\<rparr>))"

definition insert_event_once :: "alert_event \<Rightarrow> database \<Rightarrow> thrown + database" where
  "insert_event_once r db =
     ebind (upsert_nothing event_target event_clash ''operational_alert_event.id'' r (alert_events db)) (\<lambda>rows.
     require_ref
       (length rows = length (alert_events db) \<or>
        has_watch (ae_watchId r) db \<and> has_account (ae_accountId r) db \<and>
        (\<forall>i. ae_priorEventId r = Some i \<longrightarrow> i = ae_id r \<or> has_event i db))
       (db\<lparr>alert_events := rows\<rparr>))"

definition insert_delivery_once :: "delivery_state \<Rightarrow> database \<Rightarrow> thrown + database" where
  "insert_delivery_once r db =
     ebind (upsert_nothing delivery_target delivery_clash ''operational_delivery_state.delivery_id'' r
              (delivery_states db)) (\<lambda>rows.
     require_ref (has_event (ds_eventId r) db) (db\<lparr>delivery_states := rows\<rparr>))"

definition upsert_delivery :: "delivery_state \<Rightarrow> database \<Rightarrow> thrown + database" where
  "upsert_delivery r db =
     ebind (upsert_update delivery_target delivery_clash ''operational_delivery_state.delivery_id'' r
              (\<lambda>s. s\<lparr>ds_status := ds_status r, ds_attempts := ds_attempts s + 1,
                     ds_lastAttemptAt := ds_lastAttemptAt r,
                     ds_providerReceipt := coalesce (ds_providerReceipt r) (ds_providerReceipt s),
                     ds_lastOutcome := ds_lastOutcome r, ds_failureReason := ds_failureReason r,
                     ds_updatedAt := ds_updatedAt r\<rparr>)
              (delivery_states db)) (\<lambda>rows.
     require_ref (has_event (ds_eventId r) db) (db\<lparr>delivery_states := rows\<rparr>))"

text \<open>The lease upsert updates only an expired lease; a live one leaves the table as it is.\<close>

definition upsert_lease :: "evaluation_lease \<Rightarrow> string \<Rightarrow> database \<Rightarrow> thrown + database" where
  "upsert_lease r nowIso db =
     (case find (lease_target r) (evaluation_leases db) of
        Some l \<Rightarrow> if el_expiresAt l \<le> nowIso
          then ebind (upsert_update lease_target lease_clash ''operational_evaluation_lease.lease_id'' r
                        (\<lambda>s. s\<lparr>el_leaseId := el_leaseId r, el_evaluatorId := el_evaluatorId r,
                               el_acquiredAt := el_acquiredAt r, el_expiresAt := el_expiresAt r\<rparr>)
                        (evaluation_leases db)) (\<lambda>rows. Inr (db\<lparr>evaluation_leases := rows\<rparr>))
          else Inr db
      | None \<Rightarrow>
          ebind (insert_row lease_clash ''operational_evaluation_lease.lease_id'' r (evaluation_leases db)) (\<lambda>rows.
          require_ref (has_watch (el_watchId r) db) (db\<lparr>evaluation_leases := rows\<rparr>)))"

subsection \<open>Deletes with their cascades\<close>

definition delete_events :: "(alert_event \<Rightarrow> bool) \<Rightarrow> database \<Rightarrow> database" where
  "delete_events P db =
     (let gone = map ae_id (filter P (alert_events db)); kept = delete_rows P (alert_events db);
          unset = (\<lambda>e. case e of None \<Rightarrow> None | Some i \<Rightarrow> if i \<in> set gone then None else Some i)
      in db\<lparr>alert_events := map (\<lambda>r. r\<lparr>ae_priorEventId := unset (ae_priorEventId r)\<rparr>) kept,
            delivery_states := delete_rows (\<lambda>r. ds_eventId r \<in> set gone) (delivery_states db),
            last_evaluations := map (\<lambda>r. r\<lparr>le_alertEventId := unset (le_alertEventId r)\<rparr>) (last_evaluations db)\<rparr>)"

definition delete_watches :: "(watch_row \<Rightarrow> bool) \<Rightarrow> database \<Rightarrow> database" where
  "delete_watches P db =
     (let gone = map wr_id (filter P (watches db));
          db1 = delete_events (\<lambda>r. ae_watchId r \<in> set gone) db
      in db1\<lparr>watches := delete_rows P (watches db1),
             last_evaluations := delete_rows (\<lambda>r. le_watchId r \<in> set gone) (last_evaluations db1),
             evaluation_leases := delete_rows (\<lambda>r. el_watchId r \<in> set gone) (evaluation_leases db1)\<rparr>)"

definition delete_account_row :: "string \<Rightarrow> database \<Rightarrow> database" where
  "delete_account_row i db =
     (let db1 = delete_events (\<lambda>r. ae_accountId r = i) (delete_watches (\<lambda>r. wr_accountId r = i) db)
      in db1\<lparr>accounts := delete_rows (\<lambda>r. ac_id r = i) (accounts db1),
             credentials := delete_rows (\<lambda>r. cr_accountId r = i) (credentials db1),
             sessions := delete_rows (\<lambda>r. se_accountId r = i) (sessions db1),
             recovery_tokens := delete_rows (\<lambda>r. rt_accountId r = i) (recovery_tokens db1),
             confirmed_products := delete_rows (\<lambda>r. cp_accountId r = i) (confirmed_products db1),
             consents := delete_rows (\<lambda>r. dc_accountId r = i) (consents db1),
             suppressions := delete_rows (\<lambda>r. sp_accountId r = i) (suppressions db1)\<rparr>)"


subsection \<open>Every statement keeps the constraints\<close>

lemmas ids_defs = account_ids_def watch_ids_def event_ids_def

lemma ids_simps [simp]:
  "account_ids (db\<lparr>credentials := a\<rparr>) = account_ids db" "account_ids (db\<lparr>sessions := b\<rparr>) = account_ids db"
  "account_ids (db\<lparr>recovery_tokens := c\<rparr>) = account_ids db"
  "account_ids (db\<lparr>confirmed_products := d\<rparr>) = account_ids db"
  "account_ids (db\<lparr>consents := e\<rparr>) = account_ids db" "account_ids (db\<lparr>suppressions := f\<rparr>) = account_ids db"
  "account_ids (db\<lparr>watches := g\<rparr>) = account_ids db" "account_ids (db\<lparr>last_evaluations := h\<rparr>) = account_ids db"
  "account_ids (db\<lparr>alert_events := i\<rparr>) = account_ids db" "account_ids (db\<lparr>delivery_states := j\<rparr>) = account_ids db"
  "account_ids (db\<lparr>audit_events := k\<rparr>) = account_ids db" "account_ids (db\<lparr>evaluation_leases := l\<rparr>) = account_ids db"
  "account_ids (db\<lparr>accounts := m\<rparr>) = ac_id ` set m"
  "watch_ids (db\<lparr>credentials := a\<rparr>) = watch_ids db" "watch_ids (db\<lparr>sessions := b\<rparr>) = watch_ids db"
  "watch_ids (db\<lparr>recovery_tokens := c\<rparr>) = watch_ids db"
  "watch_ids (db\<lparr>confirmed_products := d\<rparr>) = watch_ids db"
  "watch_ids (db\<lparr>consents := e\<rparr>) = watch_ids db" "watch_ids (db\<lparr>suppressions := f\<rparr>) = watch_ids db"
  "watch_ids (db\<lparr>watches := g\<rparr>) = wr_id ` set g" "watch_ids (db\<lparr>last_evaluations := h\<rparr>) = watch_ids db"
  "watch_ids (db\<lparr>alert_events := i\<rparr>) = watch_ids db" "watch_ids (db\<lparr>delivery_states := j\<rparr>) = watch_ids db"
  "watch_ids (db\<lparr>audit_events := k\<rparr>) = watch_ids db" "watch_ids (db\<lparr>evaluation_leases := l\<rparr>) = watch_ids db"
  "watch_ids (db\<lparr>accounts := m\<rparr>) = watch_ids db"
  "event_ids (db\<lparr>credentials := a\<rparr>) = event_ids db" "event_ids (db\<lparr>sessions := b\<rparr>) = event_ids db"
  "event_ids (db\<lparr>recovery_tokens := c\<rparr>) = event_ids db"
  "event_ids (db\<lparr>confirmed_products := d\<rparr>) = event_ids db"
  "event_ids (db\<lparr>consents := e\<rparr>) = event_ids db" "event_ids (db\<lparr>suppressions := f\<rparr>) = event_ids db"
  "event_ids (db\<lparr>watches := g\<rparr>) = event_ids db" "event_ids (db\<lparr>last_evaluations := h\<rparr>) = event_ids db"
  "event_ids (db\<lparr>alert_events := i\<rparr>) = ae_id ` set i" "event_ids (db\<lparr>delivery_states := j\<rparr>) = event_ids db"
  "event_ids (db\<lparr>audit_events := k\<rparr>) = event_ids db" "event_ids (db\<lparr>evaluation_leases := l\<rparr>) = event_ids db"
  "event_ids (db\<lparr>accounts := m\<rparr>) = event_ids db"
  by (simp_all add: ids_defs)

lemma ids_image: "ac_id ` set (accounts db) = account_ids db" "wr_id ` set (watches db) = watch_ids db"
  "ae_id ` set (alert_events db) = event_ids db"
  by (simp_all add: ids_defs)

text \<open>Replacing the rows of one table.\<close>

lemma database_ok_tables:
  assumes "database_ok db"
  shows "no_clash account_clash (accounts db)" "no_clash credential_clash (credentials db)"
    "no_clash session_clash (sessions db)" "no_clash recovery_clash (recovery_tokens db)"
    "no_clash product_clash (confirmed_products db)" "no_clash consent_clash (consents db)"
    "no_clash suppression_clash (suppressions db)" "no_clash watch_clash (watches db)"
    "no_clash evaluation_clash (last_evaluations db)" "no_clash event_clash (alert_events db)"
    "no_clash delivery_clash (delivery_states db)" "no_clash audit_clash (audit_events db)"
    "no_clash lease_clash (evaluation_leases db)"
  using assms by (simp_all add: database_ok_def unique_ok_def)

lemma database_ok_refs:
  assumes "database_ok db"
  shows "r1 \<in> set (credentials db) \<Longrightarrow> cr_accountId r1 \<in> account_ids db"
    "r2 \<in> set (sessions db) \<Longrightarrow> se_accountId r2 \<in> account_ids db"
    "r3 \<in> set (recovery_tokens db) \<Longrightarrow> rt_accountId r3 \<in> account_ids db"
    "r4 \<in> set (confirmed_products db) \<Longrightarrow> cp_accountId r4 \<in> account_ids db"
    "r5 \<in> set (consents db) \<Longrightarrow> dc_accountId r5 \<in> account_ids db"
    "r6 \<in> set (suppressions db) \<Longrightarrow> sp_accountId r6 \<in> account_ids db"
    "r7 \<in> set (watches db) \<Longrightarrow> wr_accountId r7 \<in> account_ids db"
    "r8 \<in> set (last_evaluations db) \<Longrightarrow> le_watchId r8 \<in> watch_ids db \<and>
        (\<forall>e. le_alertEventId r8 = Some e \<longrightarrow> e \<in> event_ids db)"
    "r9 \<in> set (alert_events db) \<Longrightarrow> ae_watchId r9 \<in> watch_ids db \<and> ae_accountId r9 \<in> account_ids db \<and>
        (\<forall>e. ae_priorEventId r9 = Some e \<longrightarrow> e \<in> event_ids db)"
    "r10 \<in> set (delivery_states db) \<Longrightarrow> ds_eventId r10 \<in> event_ids db"
    "r11 \<in> set (evaluation_leases db) \<Longrightarrow> el_watchId r11 \<in> watch_ids db"
  using assms by (simp_all add: database_ok_def references_ok_def)

lemma put_rows_ok:
  assumes "database_ok db"
  shows "no_clash credential_clash a \<Longrightarrow> (\<And>r. r \<in> set a \<Longrightarrow> cr_accountId r \<in> account_ids db) \<Longrightarrow>
      database_ok (db\<lparr>credentials := a\<rparr>)"
    "no_clash session_clash b \<Longrightarrow> (\<And>r. r \<in> set b \<Longrightarrow> se_accountId r \<in> account_ids db) \<Longrightarrow>
      database_ok (db\<lparr>sessions := b\<rparr>)"
    "no_clash recovery_clash c \<Longrightarrow> (\<And>r. r \<in> set c \<Longrightarrow> rt_accountId r \<in> account_ids db) \<Longrightarrow>
      database_ok (db\<lparr>recovery_tokens := c\<rparr>)"
    "no_clash product_clash d \<Longrightarrow> (\<And>r. r \<in> set d \<Longrightarrow> cp_accountId r \<in> account_ids db) \<Longrightarrow>
      database_ok (db\<lparr>confirmed_products := d\<rparr>)"
    "no_clash consent_clash e \<Longrightarrow> (\<And>r. r \<in> set e \<Longrightarrow> dc_accountId r \<in> account_ids db) \<Longrightarrow>
      database_ok (db\<lparr>consents := e\<rparr>)"
    "no_clash suppression_clash f \<Longrightarrow> (\<And>r. r \<in> set f \<Longrightarrow> sp_accountId r \<in> account_ids db) \<Longrightarrow>
      database_ok (db\<lparr>suppressions := f\<rparr>)"
    "no_clash evaluation_clash h \<Longrightarrow> (\<And>r. r \<in> set h \<Longrightarrow> le_watchId r \<in> watch_ids db \<and>
        (\<forall>e. le_alertEventId r = Some e \<longrightarrow> e \<in> event_ids db)) \<Longrightarrow>
      database_ok (db\<lparr>last_evaluations := h\<rparr>)"
    "no_clash delivery_clash j \<Longrightarrow> (\<And>r. r \<in> set j \<Longrightarrow> ds_eventId r \<in> event_ids db) \<Longrightarrow>
      database_ok (db\<lparr>delivery_states := j\<rparr>)"
    "no_clash audit_clash k \<Longrightarrow> database_ok (db\<lparr>audit_events := k\<rparr>)"
    "no_clash lease_clash l \<Longrightarrow> (\<And>r. r \<in> set l \<Longrightarrow> el_watchId r \<in> watch_ids db) \<Longrightarrow>
      database_ok (db\<lparr>evaluation_leases := l\<rparr>)"
  using assms by (simp_all add: database_ok_def unique_ok_def references_ok_def)

lemma put_accounts_ok:
  assumes "database_ok db" "no_clash account_clash rows" "ac_id ` set rows = account_ids db \<union> new"
  shows "database_ok (db\<lparr>accounts := rows\<rparr>)"
  using assms by (auto simp: database_ok_def unique_ok_def references_ok_def)

lemma put_watches_ok:
  assumes "database_ok db" "no_clash watch_clash rows" "wr_id ` set rows = watch_ids db \<union> new"
    and "\<And>r. r \<in> set rows \<Longrightarrow> wr_accountId r \<in> account_ids db"
  shows "database_ok (db\<lparr>watches := rows\<rparr>)"
  using assms by (auto simp: database_ok_def unique_ok_def references_ok_def)

lemma put_events_ok:
  assumes "database_ok db" "no_clash event_clash rows" "ae_id ` set rows = event_ids db \<union> new"
    and "\<And>r. r \<in> set rows \<Longrightarrow> ae_watchId r \<in> watch_ids db \<and> ae_accountId r \<in> account_ids db \<and>
        (\<forall>e. ae_priorEventId r = Some e \<longrightarrow> e \<in> event_ids db \<union> new)"
  shows "database_ok (db\<lparr>alert_events := rows\<rparr>)"
  using assms by (auto simp: database_ok_def unique_ok_def references_ok_def)

lemma insert_account_ok: "insert_account r db = Inr db' \<Longrightarrow> database_ok db \<Longrightarrow> database_ok db'"
  using put_accounts_ok [of db "accounts db @ [r]" "{ac_id r}"]
  by (auto simp: insert_account_def ebind_Inr_iff insert_row_Inr account_table.no_clash_snoc
      list_ex_iff ids_image database_ok_tables)

lemma insert_credential_ok: "insert_credential r db = Inr db' \<Longrightarrow> database_ok db \<Longrightarrow> database_ok db'"
  by (auto simp: insert_credential_def ebind_Inr_iff insert_row_Inr credential_table.no_clash_snoc
      list_ex_iff database_ok_tables database_ok_refs intro!: put_rows_ok)

lemma insert_session_ok: "insert_session r db = Inr db' \<Longrightarrow> database_ok db \<Longrightarrow> database_ok db'"
  by (auto simp: insert_session_def ebind_Inr_iff insert_row_Inr session_table.no_clash_snoc
      list_ex_iff database_ok_tables database_ok_refs intro!: put_rows_ok)

lemma insert_recovery_token_ok: "insert_recovery_token r db = Inr db' \<Longrightarrow> database_ok db \<Longrightarrow> database_ok db'"
  by (auto simp: insert_recovery_token_def ebind_Inr_iff insert_row_Inr recovery_table.no_clash_snoc
      list_ex_iff database_ok_tables database_ok_refs intro!: put_rows_ok)

lemma insert_confirmed_product_ok:
  "insert_confirmed_product r db = Inr db' \<Longrightarrow> database_ok db \<Longrightarrow> database_ok db'"
  by (auto simp: insert_confirmed_product_def ebind_Inr_iff insert_row_Inr product_table.no_clash_snoc
      list_ex_iff database_ok_tables database_ok_refs intro!: put_rows_ok)

lemma insert_audit_event_ok: "insert_audit_event r db = Inr db' \<Longrightarrow> database_ok db \<Longrightarrow> database_ok db'"
  by (auto simp: insert_audit_event_def ebind_Inr_iff insert_row_Inr audit_table.no_clash_snoc
      list_ex_iff database_ok_tables intro!: put_rows_ok)

lemma upsert_consent_ok:
  assumes "upsert_consent r db = Inr db'" "database_ok db"
  shows "database_ok db'"
proof -
  obtain f rows where u: "upsert_update consent_target consent_clash
      ''operational_delivery_consent.verification_token'' r f (consents db) = Inr rows"
    and f: "\<And>s. dc_accountId (f s) = dc_accountId s" and ref: "dc_accountId r \<in> account_ids db"
    and db': "db' = db\<lparr>consents := rows\<rparr>"
    using assms(1) by (auto simp: upsert_consent_def ebind_Inr_iff)
  have "dc_accountId s \<in> account_ids db" if "s \<in> set rows" for s
    using upsert_update_set [OF u that] f ref assms(2) by (auto dest: database_ok_refs)
  with assms(2) consent_table.upsert_update_keeps [OF u] show ?thesis
    unfolding db' by (intro put_rows_ok) (auto dest: database_ok_tables)
qed


lemma insert_suppression_once_ok:
  assumes "insert_suppression_once r db = Inr db'" "database_ok db"
  shows "database_ok db'"
proof -
  obtain rows where u: "upsert_nothing suppression_clash suppression_clash
      ''operational_delivery_suppression'' r (suppressions db) = Inr rows"
    and ref: "sp_accountId r \<in> account_ids db" and db': "db' = db\<lparr>suppressions := rows\<rparr>"
    using assms(1) by (auto simp: insert_suppression_once_def ebind_Inr_iff)
  have "sp_accountId s \<in> account_ids db" if "s \<in> set rows" for s
    using upsert_nothing_set [OF u] that ref assms(2) by (auto dest: database_ok_refs)
  with assms(2) suppression_table.upsert_nothing_keeps [OF u] show ?thesis
    unfolding db' by (intro put_rows_ok) (auto dest: database_ok_tables)
qed

lemma upsert_suppression_ok:
  assumes "upsert_suppression r db = Inr db'" "database_ok db"
  shows "database_ok db'"
proof -
  obtain f rows where u: "upsert_update suppression_clash suppression_clash
      ''operational_delivery_suppression'' r f (suppressions db) = Inr rows"
    and f: "\<And>s. sp_accountId (f s) = sp_accountId s" and ref: "sp_accountId r \<in> account_ids db"
    and db': "db' = db\<lparr>suppressions := rows\<rparr>"
    using assms(1) by (auto simp: upsert_suppression_def ebind_Inr_iff)
  have "sp_accountId s \<in> account_ids db" if "s \<in> set rows" for s
    using upsert_update_set [OF u that] f ref assms(2) by (auto dest: database_ok_refs)
  with assms(2) suppression_table.upsert_update_keeps [OF u] show ?thesis
    unfolding db' by (intro put_rows_ok) (auto dest: database_ok_tables)
qed

lemma insert_watch_once_ok:
  assumes "insert_watch_once r db = Inr db'" "database_ok db"
  shows "database_ok db'"
proof -
  obtain rows where u: "upsert_nothing watch_context watch_clash ''operational_watch.id'' r (watches db) = Inr rows"
    and ref: "wr_accountId r \<in> account_ids db" and db': "db' = db\<lparr>watches := rows\<rparr>"
    using assms(1) by (auto simp: insert_watch_once_def ebind_Inr_iff)
  have rows: "rows = watches db \<or> rows = watches db @ [r]" using upsert_nothing_set [OF u] .
  then have "\<exists>new. wr_id ` set rows = watch_ids db \<union> new"
    by (auto simp: ids_image intro: exI [of _ "{}"] exI [of _ "{wr_id r}"])
  then obtain new where "wr_id ` set rows = watch_ids db \<union> new" by blast
  moreover have "no_clash watch_clash rows"
    using watch_table.upsert_nothing_keeps [OF u] assms(2) by (simp add: database_ok_tables)
  ultimately show ?thesis
    unfolding db' using rows ref assms(2) by (intro put_watches_ok) (auto dest: database_ok_refs)
qed

lemma upsert_last_evaluation_ok:
  assumes "upsert_last_evaluation r db = Inr db'" "database_ok db"
  shows "database_ok db'"
proof -
  obtain rows where u: "upsert_update evaluation_clash evaluation_clash
      ''operational_last_evaluation'' r (\<lambda>_. r) (last_evaluations db) = Inr rows"
    and ref: "le_watchId r \<in> watch_ids db" "has_optional_event (le_alertEventId r) db"
    and db': "db' = db\<lparr>last_evaluations := rows\<rparr>"
    using assms(1) by (auto simp: upsert_last_evaluation_def ebind_Inr_iff)
  have "le_watchId s \<in> watch_ids db \<and> (\<forall>e. le_alertEventId s = Some e \<longrightarrow> e \<in> event_ids db)"
    if "s \<in> set rows" for s
    using upsert_update_set [OF u that] ref assms(2)
    by (auto simp: has_optional_event_iff dest: database_ok_refs)
  with assms(2) evaluation_table.upsert_update_keeps [OF u] show ?thesis
    unfolding db' by (intro put_rows_ok) (auto dest: database_ok_tables)
qed

lemma insert_event_once_ok:
  assumes "insert_event_once r db = Inr db'" "database_ok db"
  shows "database_ok db'"
proof -
  obtain rows where u: "upsert_nothing event_target event_clash ''operational_alert_event.id'' r
      (alert_events db) = Inr rows"
    and ref: "length rows = length (alert_events db) \<or> ae_watchId r \<in> watch_ids db \<and>
        ae_accountId r \<in> account_ids db \<and>
        (\<forall>i. ae_priorEventId r = Some i \<longrightarrow> i = ae_id r \<or> i \<in> event_ids db)"
    and db': "db' = db\<lparr>alert_events := rows\<rparr>"
    using assms(1) by (auto simp: insert_event_once_def ebind_Inr_iff)
  show ?thesis
  proof (cases "rows = alert_events db")
    case True
    then show ?thesis unfolding db' using assms(2) by simp
  next
    case False
    with upsert_nothing_set [OF u] have rows: "rows = alert_events db @ [r]" by simp
    then have "ae_id ` set rows = event_ids db \<union> {ae_id r}" by (simp add: ids_image)
    moreover have "no_clash event_clash rows"
      using event_table.upsert_nothing_keeps [OF u] assms(2) by (simp add: database_ok_tables)
    ultimately show ?thesis
      unfolding db' using rows ref assms(2) by (intro put_events_ok) (auto dest: database_ok_refs)
  qed
qed

lemma insert_delivery_once_ok:
  assumes "insert_delivery_once r db = Inr db'" "database_ok db"
  shows "database_ok db'"
proof -
  obtain rows where u: "upsert_nothing delivery_target delivery_clash
      ''operational_delivery_state.delivery_id'' r (delivery_states db) = Inr rows"
    and ref: "ds_eventId r \<in> event_ids db" and db': "db' = db\<lparr>delivery_states := rows\<rparr>"
    using assms(1) by (auto simp: insert_delivery_once_def ebind_Inr_iff)
  have "ds_eventId s \<in> event_ids db" if "s \<in> set rows" for s
    using upsert_nothing_set [OF u] that ref assms(2) by (auto dest: database_ok_refs)
  with assms(2) delivery_table.upsert_nothing_keeps [OF u] show ?thesis
    unfolding db' by (intro put_rows_ok) (auto dest: database_ok_tables)
qed

lemma upsert_delivery_ok:
  assumes "upsert_delivery r db = Inr db'" "database_ok db"
  shows "database_ok db'"
proof -
  obtain f rows where u: "upsert_update delivery_target delivery_clash
      ''operational_delivery_state.delivery_id'' r f (delivery_states db) = Inr rows"
    and f: "\<And>s. ds_eventId (f s) = ds_eventId s" and ref: "ds_eventId r \<in> event_ids db"
    and db': "db' = db\<lparr>delivery_states := rows\<rparr>"
    using assms(1) by (auto simp: upsert_delivery_def ebind_Inr_iff)
  have "ds_eventId s \<in> event_ids db" if "s \<in> set rows" for s
    using upsert_update_set [OF u that] f ref assms(2) by (auto dest: database_ok_refs)
  with assms(2) delivery_table.upsert_update_keeps [OF u] show ?thesis
    unfolding db' by (intro put_rows_ok) (auto dest: database_ok_tables)
qed

lemma upsert_lease_ok:
  assumes "upsert_lease r n db = Inr db'" "database_ok db"
  shows "database_ok db'"
proof (cases "find (lease_target r) (evaluation_leases db)")
  case None
  with assms show ?thesis
    by (auto simp: upsert_lease_def ebind_Inr_iff insert_row_Inr lease_table.no_clash_snoc
        list_ex_iff database_ok_tables database_ok_refs intro!: put_rows_ok)
next
  case (Some l)
  then have l: "l \<in> set (evaluation_leases db)" "lease_target r l" by (auto dest: find_SomeD)
  show ?thesis
  proof (cases "el_expiresAt l \<le> n")
    case False
    with Some assms show ?thesis by (simp add: upsert_lease_def)
  next
    case True
    with Some assms(1) obtain f rows where u: "upsert_update lease_target lease_clash
        ''operational_evaluation_lease.lease_id'' r f (evaluation_leases db) = Inr rows"
      and f: "\<And>s. el_watchId (f s) = el_watchId s" and db': "db' = db\<lparr>evaluation_leases := rows\<rparr>"
      by (auto simp: upsert_lease_def ebind_Inr_iff)
    have "el_watchId r \<in> watch_ids db" using l assms(2) by (auto simp: clash_defs dest: database_ok_refs)
    then have "el_watchId s \<in> watch_ids db" if "s \<in> set rows" for s
      using upsert_update_set [OF u that] f assms(2) by (auto dest: database_ok_refs)
    with assms(2) lease_table.upsert_update_keeps [OF u] show ?thesis
      unfolding db' by (intro put_rows_ok) (auto dest: database_ok_tables)
  qed
qed


text \<open>Updates that leave the keys alone.\<close>

lemma update_credentials_ok:
  assumes "database_ok db" "\<And>r. cr_id (f r) = cr_id r" "\<And>r. cr_accountId (f r) = cr_accountId r"
    "\<And>r. cr_normalizedIdentity (f r) = cr_normalizedIdentity r"
  shows "database_ok (db\<lparr>credentials := update_rows P f (credentials db)\<rparr>)"
  using assms
  by (intro put_rows_ok credential_table.update_keeps)
     (auto simp: clash_defs in_update_rows dest: database_ok_tables database_ok_refs)

lemma update_sessions_ok:
  assumes "database_ok db" "\<And>r. se_tokenDigest (f r) = se_tokenDigest r" "\<And>r. se_accountId (f r) = se_accountId r"
  shows "database_ok (db\<lparr>sessions := update_rows P f (sessions db)\<rparr>)"
  using assms
  by (intro put_rows_ok session_table.update_keeps)
     (auto simp: clash_defs in_update_rows dest: database_ok_tables database_ok_refs)

lemma update_recovery_tokens_ok:
  assumes "database_ok db" "\<And>r. rt_tokenDigest (f r) = rt_tokenDigest r" "\<And>r. rt_accountId (f r) = rt_accountId r"
  shows "database_ok (db\<lparr>recovery_tokens := update_rows P f (recovery_tokens db)\<rparr>)"
  using assms
  by (intro put_rows_ok recovery_table.update_keeps)
     (auto simp: clash_defs in_update_rows dest: database_ok_tables database_ok_refs)

lemma update_consents_ok:
  assumes "database_ok db" "\<And>r. dc_accountId (f r) = dc_accountId r" "\<And>r. dc_channel (f r) = dc_channel r"
    "\<And>r. dc_target (f r) = dc_target r" "\<And>r. dc_verificationToken (f r) = dc_verificationToken r"
    "\<And>r. dc_unsubscribeToken (f r) = dc_unsubscribeToken r"
  shows "database_ok (db\<lparr>consents := update_rows P f (consents db)\<rparr>)"
  using assms
  by (intro put_rows_ok consent_table.update_keeps)
     (auto simp: clash_defs in_update_rows dest: database_ok_tables database_ok_refs)

lemma image_update_rows: "(\<And>r. g (f r) = g r) \<Longrightarrow> g ` set (update_rows P f rows) = g ` set rows"
proof -
  assume "\<And>r. g (f r) = g r"
  then have "map g (update_rows P f rows) = map g rows" by (simp add: update_rows_def)
  then show ?thesis by (metis set_map)
qed

lemma update_accounts_ok:
  assumes "database_ok db" "\<And>r. ac_id (f r) = ac_id r"
  shows "database_ok (db\<lparr>accounts := update_rows P f (accounts db)\<rparr>)"
  using assms
  by (intro put_accounts_ok [where new = "{}"] account_table.update_keeps)
     (auto simp: clash_defs image_update_rows ids_image dest: database_ok_tables)

lemma update_watches_ok:
  assumes "database_ok db" "\<And>r. wr_id (f r) = wr_id r" "\<And>r. wr_accountId (f r) = wr_accountId r"
    and "\<And>r s. watch_context (f r) s \<longleftrightarrow> watch_context r s"
  shows "database_ok (db\<lparr>watches := update_rows P f (watches db)\<rparr>)"
  using assms
  by (intro put_watches_ok [where new = "{}"] watch_table.update_keeps)
     (auto simp: watch_clash_def image_update_rows ids_image in_update_rows
       dest: database_ok_tables database_ok_refs)

text \<open>Deletes and their cascades.\<close>

lemma delete_products_ok:
  "database_ok db \<Longrightarrow> database_ok (db\<lparr>confirmed_products := delete_rows P (confirmed_products db)\<rparr>)"
  by (intro put_rows_ok product_table.delete_keeps) (auto dest: database_ok_tables database_ok_refs)

lemma delete_leases_ok:
  "database_ok db \<Longrightarrow> database_ok (db\<lparr>evaluation_leases := delete_rows P (evaluation_leases db)\<rparr>)"
  by (intro put_rows_ok lease_table.delete_keeps) (auto dest: database_ok_tables database_ok_refs)

lemma no_clash_map: "(\<And>r s. clash (f r) (f s) = clash r s) \<Longrightarrow> no_clash clash (map f rows) = no_clash clash rows"
  by (induction rows) (auto simp: list_all_iff)

lemma delete_events_ok: "database_ok db \<Longrightarrow> database_ok (delete_events P db)"
proof -
  assume ok: "database_ok db"
  define gone where "gone = ae_id ` {r \<in> set (alert_events db). P r}"
  have gone: "gone = set (map ae_id (filter P (alert_events db)))" by (auto simp: gone_def)
  define unset where "unset = (\<lambda>e. case e of None \<Rightarrow> None | Some i \<Rightarrow> if i \<in> gone then None else Some i)"
  define kept where "kept = map (\<lambda>r. r\<lparr>ae_priorEventId := unset (ae_priorEventId r)\<rparr>) (delete_rows P (alert_events db))"
  have eq: "delete_events P db = db\<lparr>alert_events := kept,
      delivery_states := delete_rows (\<lambda>r. ds_eventId r \<in> gone) (delivery_states db),
      last_evaluations := map (\<lambda>r. r\<lparr>le_alertEventId := unset (le_alertEventId r)\<rparr>) (last_evaluations db)\<rparr>"
    by (simp only: delete_events_def Let_def kept_def unset_def gone)
  have ids: "ae_id ` set kept = ae_id ` {r \<in> set (alert_events db). \<not> P r}"
    by (simp add: kept_def image_image) (simp add: delete_rows_def)
  have left: "i \<in> ae_id ` set kept" if "i \<in> event_ids db" "i \<notin> gone" for i
    using that by (auto simp: ids event_ids_def gone_def)
  have unset: "unset e = Some i \<Longrightarrow> e = Some i \<and> i \<notin> gone" for e i
    by (auto simp: unset_def split: option.splits if_splits)
  have "no_clash event_clash kept"
    unfolding kept_def using ok
    by (subst no_clash_map) (auto simp: clash_defs intro: event_table.delete_keeps database_ok_tables)
  moreover have "no_clash delivery_clash (delete_rows (\<lambda>r. ds_eventId r \<in> gone) (delivery_states db))"
    using ok by (intro delivery_table.delete_keeps) (rule database_ok_tables)
  moreover have "no_clash evaluation_clash
      (map (\<lambda>r. r\<lparr>le_alertEventId := unset (le_alertEventId r)\<rparr>) (last_evaluations db))"
    using ok by (subst no_clash_map) (auto simp: clash_defs intro: database_ok_tables)
  ultimately have "unique_ok (delete_events P db)"
    using ok unfolding eq by (simp add: database_ok_def unique_ok_def)
  moreover have "\<forall>r \<in> set kept. ae_watchId r \<in> watch_ids db \<and> ae_accountId r \<in> account_ids db \<and>
      (\<forall>e. ae_priorEventId r = Some e \<longrightarrow> e \<in> ae_id ` set kept)"
    using ok left by (auto simp: kept_def dest!: unset dest: database_ok_refs)
  moreover have "\<forall>r \<in> set (delete_rows (\<lambda>r. ds_eventId r \<in> gone) (delivery_states db)).
      ds_eventId r \<in> ae_id ` set kept"
    using ok left by (auto dest: database_ok_refs)
  moreover have "\<forall>r \<in> set (last_evaluations db). le_watchId r \<in> watch_ids db \<and>
      (\<forall>e. unset (le_alertEventId r) = Some e \<longrightarrow> e \<in> ae_id ` set kept)"
    using ok left by (auto dest!: unset dest: database_ok_refs)
  ultimately show ?thesis
    using ok unfolding eq database_ok_def by (simp add: references_ok_def)
qed

lemma delete_events_rest [simp]:
  "accounts (delete_events P db) = accounts db" "credentials (delete_events P db) = credentials db"
  "sessions (delete_events P db) = sessions db" "recovery_tokens (delete_events P db) = recovery_tokens db"
  "confirmed_products (delete_events P db) = confirmed_products db"
  "consents (delete_events P db) = consents db" "suppressions (delete_events P db) = suppressions db"
  "watches (delete_events P db) = watches db" "audit_events (delete_events P db) = audit_events db"
  "evaluation_leases (delete_events P db) = evaluation_leases db"
  "application_leases (delete_events P db) = application_leases db"
  by (simp_all add: delete_events_def Let_def)

lemma delete_events_gone: "r \<in> set (alert_events (delete_events P db)) \<Longrightarrow>
    \<exists>s \<in> set (alert_events db). \<not> P s \<and> ae_id r = ae_id s \<and> ae_watchId r = ae_watchId s
      \<and> ae_accountId r = ae_accountId s"
  by (auto simp: delete_events_def Let_def)

lemma delete_watches_ok:
  assumes "database_ok db"
  shows "database_ok (delete_watches P db)"
proof -
  define gone where "gone = wr_id ` {r \<in> set (watches db). P r}"
  define db1 where "db1 = delete_events (\<lambda>r. ae_watchId r \<in> gone) db"
  have eq: "delete_watches P db = db1\<lparr>watches := delete_rows P (watches db1),
             last_evaluations := delete_rows (\<lambda>r. le_watchId r \<in> gone) (last_evaluations db1),
             evaluation_leases := delete_rows (\<lambda>r. el_watchId r \<in> gone) (evaluation_leases db1)\<rparr>"
    by (simp add: delete_watches_def Let_def db1_def gone_def)
  have ok1: "database_ok db1" unfolding db1_def by (rule delete_events_ok [OF assms])
  have w: "watches db1 = watches db" by (simp add: db1_def)
  have left: "i \<in> wr_id ` set (delete_rows P (watches db1))" if "i \<in> watch_ids db1" "i \<notin> gone" for i
    using that by (fastforce simp: watch_ids_def gone_def w image_iff)
  have ev: "\<forall>r \<in> set (alert_events db1). ae_watchId r \<notin> gone"
    by (auto simp: db1_def dest!: delete_events_gone)
  have "unique_ok (delete_watches P db)"
    using ok1 unfolding eq database_ok_def unique_ok_def
    by (auto intro: watch_table.delete_keeps evaluation_table.delete_keeps lease_table.delete_keeps)
  moreover have "references_ok (delete_watches P db)"
    unfolding eq references_ok_def using ok1 ev left by (auto dest: database_ok_refs)
  ultimately show ?thesis by (simp add: database_ok_def)
qed

lemma delete_watches_rest [simp]:
  "accounts (delete_watches P db) = accounts db" "credentials (delete_watches P db) = credentials db"
  "sessions (delete_watches P db) = sessions db" "recovery_tokens (delete_watches P db) = recovery_tokens db"
  "confirmed_products (delete_watches P db) = confirmed_products db"
  "consents (delete_watches P db) = consents db" "suppressions (delete_watches P db) = suppressions db"
  "audit_events (delete_watches P db) = audit_events db" "watches (delete_watches P db) = delete_rows P (watches db)"
  "application_leases (delete_watches P db) = application_leases db"
  by (simp_all add: delete_watches_def Let_def)

lemma delete_account_row_ok:
  assumes "database_ok db"
  shows "database_ok (delete_account_row i db)"
proof -
  define db1 where "db1 = delete_events (\<lambda>r. ae_accountId r = i) (delete_watches (\<lambda>r. wr_accountId r = i) db)"
  have ok1: "database_ok db1" unfolding db1_def by (intro delete_events_ok delete_watches_ok assms)
  have eq: "delete_account_row i db = db1\<lparr>accounts := delete_rows (\<lambda>r. ac_id r = i) (accounts db1),
             credentials := delete_rows (\<lambda>r. cr_accountId r = i) (credentials db1),
             sessions := delete_rows (\<lambda>r. se_accountId r = i) (sessions db1),
             recovery_tokens := delete_rows (\<lambda>r. rt_accountId r = i) (recovery_tokens db1),
             confirmed_products := delete_rows (\<lambda>r. cp_accountId r = i) (confirmed_products db1),
             consents := delete_rows (\<lambda>r. dc_accountId r = i) (consents db1),
             suppressions := delete_rows (\<lambda>r. sp_accountId r = i) (suppressions db1)\<rparr>"
    by (simp add: delete_account_row_def Let_def db1_def)
  have left: "j \<in> ac_id ` set (delete_rows (\<lambda>r. ac_id r = i) (accounts db1))"
    if "j \<in> account_ids db1" "j \<noteq> i" for j
    using that by (auto simp: account_ids_def)
  have ev: "\<forall>r \<in> set (alert_events db1). ae_accountId r \<noteq> i"
    by (auto simp: db1_def dest: delete_events_gone)
  have wa: "\<forall>r \<in> set (watches db1). wr_accountId r \<noteq> i" by (simp add: db1_def)
  have "unique_ok (delete_account_row i db)"
    using ok1 unfolding eq database_ok_def unique_ok_def
    by (auto intro: account_table.delete_keeps credential_table.delete_keeps session_table.delete_keeps
        recovery_table.delete_keeps product_table.delete_keeps consent_table.delete_keeps
        suppression_table.delete_keeps)
  moreover have "references_ok (delete_account_row i db)"
    unfolding eq references_ok_def using ok1 ev wa left by (auto dest: database_ok_refs)
  ultimately show ?thesis by (simp add: database_ok_def)
qed

end
