(* ===== verification/Store_Runs.thy ===== *)
theory Store_Runs
  imports Store_Tables
begin

text \<open>
  How the store's building blocks run: their results as equivalences (\<^theory_text>\<open>run_iffs\<close>), what they keep
  (\<^theory_text>\<open>keeps_intros\<close>), and the operations that leave every row alone when they throw
  (\<^theory_text>\<open>atomic\<close>). The component proofs unfold an operation and run on these.
\<close>

named_theorems run_iffs \<open>results of the building blocks as equivalences\<close>
named_theorems atomic_intros \<open>rules that an operation changes no row when it throws\<close>

lemma andThen_Inr_iff [run_iffs]:
  "andThen m k s = (Inr y, u) \<longleftrightarrow> (\<exists>x t. m s = (Inr x, t) \<and> k x t = (Inr y, u))"
  by (auto simp: andThen_def split: prod.splits sum.splits)

lemma andThen_Inl_iff [run_iffs]:
  "andThen m k s = (Inl e, u) \<longleftrightarrow> m s = (Inl e, u) \<or> (\<exists>x t. m s = (Inr x, t) \<and> k x t = (Inl e, u))"
  by (auto simp: andThen_def split: prod.splits sum.splits)

lemma catching_Inr_iff [run_iffs]:
  "catching m h s = (Inr x, t) \<longleftrightarrow> m s = (Inr x, t) \<or> (\<exists>e u. m s = (Inl e, u) \<and> h e u = (Inr x, t))"
  by (auto simp: catching_def split: prod.splits sum.splits)

lemma catching_Inl_iff [run_iffs]:
  "catching m h s = (Inl e, t) \<longleftrightarrow> (\<exists>e' u. m s = (Inl e', u) \<and> h e' u = (Inl e, t))"
  by (auto simp: catching_def split: prod.splits sum.splits)

lemma basic_iffs [run_iffs]:
  "ret a s = (Inr b, t) \<longleftrightarrow> b = a \<and> t = s" "\<not> ret a s = (Inl e, t)"
  "raise e s = (Inl e', t) \<longleftrightarrow> e' = e \<and> t = s" "\<not> raise e s = (Inr b, t)"
  "check r w = (Inr b, w') \<longleftrightarrow> r = Inr b \<and> w' = w" "check r w = (Inl e1, w') \<longleftrightarrow> r = Inl e1 \<and> w' = w"
  "query f w = (Inr c, w') \<longleftrightarrow> c = f (w_db w) \<and> w' = w" "\<not> query f w = (Inl e2, w')"
  "execute g w = (Inr d, w') \<longleftrightarrow> w' = w\<lparr>w_db := g (w_db w)\<rparr>" "\<not> execute g w = (Inl e2, w')"
  "assertWritable w = (Inr d, w') \<longleftrightarrow> \<not> w_maintenance w \<and> w' = w"
  "assertWritable w = (Inl e3, w') \<longleftrightarrow> w_maintenance w \<and> e3 = storeInMaintenance \<and> w' = w"
  by (auto simp: ret_def raise_def check_def query_def execute_def assertWritable_def)

lemma source_iffs [run_iffs]:
  "now w = (Inr n, w') \<longleftrightarrow> n = w_clock w (w_reads w) \<and> w' = w\<lparr>w_reads := w_reads w + 1\<rparr>"
  "\<not> now w = (Inl e, w')"
  "now_iso w = (Inr s, w') \<longleftrightarrow> s = to_iso (w_clock w (w_reads w)) \<and> w' = w\<lparr>w_reads := w_reads w + 1\<rparr>"
  "\<not> now_iso w = (Inl e, w')"
  "randomUUID w = (Inr s, w') \<longleftrightarrow> s = w_uuids w (w_drawn w) \<and> w' = w\<lparr>w_drawn := w_drawn w + 1\<rparr>"
  "\<not> randomUUID w = (Inl e, w')"
  "randomBytes w = (Inr s, w') \<longleftrightarrow> s = w_bytes w (w_bytes_drawn w) \<and> w' = w\<lparr>w_bytes_drawn := w_bytes_drawn w + 1\<rparr>"
  "\<not> randomBytes w = (Inl e, w')"
  by (auto simp: now_def now_iso_def randomUUID_def randomBytes_def)

lemma try_execute_iffs [run_iffs]:
  "try_execute f w = (Inr u, w') \<longleftrightarrow> (\<exists>d. f (w_db w) = Inr d \<and> w' = w\<lparr>w_db := d\<rparr>)"
  "try_execute f w = (Inl e, w') \<longleftrightarrow> f (w_db w) = Inl e \<and> w' = w"
  by (auto simp: try_execute_def split: sum.splits)

lemma transaction_iffs [run_iffs]:
  "transaction m w = (Inr x, w') \<longleftrightarrow> m w = (Inr x, w')"
  "transaction m w = (Inl e, w') \<longleftrightarrow> (\<exists>t. m w = (Inl e, t) \<and> w' = t\<lparr>w_db := w_db w\<rparr>)"
  by (auto simp: transaction_def split: prod.splits sum.splits)

subsection \<open>What is kept\<close>

lemma keeps_sources [keeps_intros]:
  "keeps (\<lambda>w. Q (w_db w)) now" "keeps (\<lambda>w. Q (w_db w)) now_iso" "keeps (\<lambda>w. Q (w_db w)) randomUUID"
  "keeps (\<lambda>w. Q (w_db w)) randomBytes"
  by (simp_all add: keeps_def now_def now_iso_def randomUUID_def randomBytes_def)

lemma keeps_pure [keeps_intros]: "keeps P (query f)" "keeps P (check r)" "keeps P assertWritable"
  by (simp_all add: keeps_def query_def check_def assertWritable_def)

lemma keeps_execute: "(\<And>db. Q db \<Longrightarrow> Q (f db)) \<Longrightarrow> keeps (\<lambda>w. Q (w_db w)) (execute f)"
  by (simp add: keeps_def execute_def)

lemma keeps_try_execute:
  "(\<And>db db'. f db = Inr db' \<Longrightarrow> Q db \<Longrightarrow> Q db') \<Longrightarrow> keeps (\<lambda>w. Q (w_db w)) (try_execute f)"
  by (auto simp: keeps_def try_execute_def split: sum.splits)

lemma keeps_transaction [keeps_intros]:
  "keeps (\<lambda>w. Q (w_db w)) m \<Longrightarrow> keeps (\<lambda>w. Q (w_db w)) (transaction m)"
  by (simp add: keeps_def transaction_def split: prod.splits sum.splits) (metis snd_conv)

lemma keeps_Let [keeps_intros]: "(\<And>x. x = v \<Longrightarrow> keeps P (m x)) \<Longrightarrow> keeps P (Let v m)"
  by simp

lemma keeps_case_prod [keeps_intros]: "(\<And>a b. keeps P (m a b)) \<Longrightarrow> keeps P (case_prod m p)"
  by (simp split: prod.splits)

subsection \<open>Atomicity\<close>

definition quiet :: "'a store_op \<Rightarrow> bool" where
  "quiet m \<longleftrightarrow> (\<forall>w. w_db (snd (m w)) = w_db w)"

definition atomic :: "'a store_op \<Rightarrow> bool" where
  "atomic m \<longleftrightarrow> (\<forall>w e t. m w = (Inl e, t) \<longrightarrow> w_db t = w_db w)"

definition never_throws :: "'a store_op \<Rightarrow> bool" where
  "never_throws m \<longleftrightarrow> (\<forall>w e t. m w \<noteq> (Inl e, t))"

lemma atomicD: "atomic m \<Longrightarrow> m w = (Inl e, t) \<Longrightarrow> w_db t = w_db w"
  by (simp add: atomic_def)

lemma quietD: "quiet m \<Longrightarrow> m w = (r, t) \<Longrightarrow> w_db t = w_db w"
  by (metis quiet_def snd_conv)

lemma quiet_intros [atomic_intros]:
  "quiet (ret a)" "quiet (raise e)" "quiet (check r)" "quiet (query f)" "quiet now" "quiet now_iso"
  "quiet randomUUID" "quiet randomBytes" "quiet assertWritable"
  by (simp_all add: quiet_def ret_def raise_def check_def query_def now_def now_iso_def
      randomUUID_def randomBytes_def assertWritable_def)

lemma quiet_andThen [atomic_intros]: "quiet m \<Longrightarrow> (\<And>x. quiet (k x)) \<Longrightarrow> quiet (andThen m k)"
  by (simp add: quiet_def andThen_def split: prod.splits sum.splits) (metis snd_conv)

lemma quiet_option [atomic_intros]:
  "quiet a \<Longrightarrow> (\<And>x. quiet (b x)) \<Longrightarrow> quiet (case v of None \<Rightarrow> a | Some x \<Rightarrow> b x)"
  by (cases v) auto

lemma quiet_if [atomic_intros]: "quiet a \<Longrightarrow> quiet b \<Longrightarrow> quiet (if c then a else b)"
  by simp

lemma atomic_quiet: "quiet m \<Longrightarrow> atomic m"
  by (auto simp: atomic_def dest: quietD)

lemma atomic_execute [atomic_intros]: "atomic (execute f)"
  by (simp add: atomic_def run_iffs)

lemma atomic_try_execute [atomic_intros]: "atomic (try_execute f)"
  by (auto simp: atomic_def run_iffs)

lemma atomic_transaction [atomic_intros]: "atomic (transaction m)"
  by (auto simp: atomic_def run_iffs)

lemma atomic_andThen: "quiet m \<Longrightarrow> (\<And>x. atomic (k x)) \<Longrightarrow> atomic (andThen m k)"
  by (auto simp: atomic_def run_iffs dest: quietD)

text \<open>An operation is checks, reads and draws, then one writing step, then steps that cannot throw.\<close>

lemma atomic_steps [atomic_intros]:
  "(\<And>x. atomic (k1 x)) \<Longrightarrow> atomic (andThen (check r) k1)"
  "(\<And>x. atomic (k2 x)) \<Longrightarrow> atomic (andThen (query f) k2)"
  "(\<And>x. atomic (k3 x)) \<Longrightarrow> atomic (andThen now k3)"
  "(\<And>x. atomic (k4 x)) \<Longrightarrow> atomic (andThen now_iso k4)"
  "(\<And>x. atomic (k5 x)) \<Longrightarrow> atomic (andThen randomUUID k5)"
  "(\<And>x. atomic (k6 x)) \<Longrightarrow> atomic (andThen randomBytes k6)"
  "(\<And>x. atomic (k7 x)) \<Longrightarrow> atomic (andThen assertWritable k7)"
  by (auto intro!: atomic_andThen atomic_intros)

lemma atomic_andThen_total: "atomic m \<Longrightarrow> (\<And>x. never_throws (k x)) \<Longrightarrow> atomic (andThen m k)"
  by (auto simp: atomic_def never_throws_def run_iffs)

lemma atomic_catching [atomic_intros]: "atomic m \<Longrightarrow> (\<And>e. quiet (h e)) \<Longrightarrow> atomic (catching m h)"
  by (auto simp: atomic_def run_iffs) (metis quietD)

lemma atomic_writes [atomic_intros]:
  "(\<And>x. never_throws (k1 x)) \<Longrightarrow> atomic (andThen (try_execute f) k1)"
  "(\<And>x. never_throws (k2 x)) \<Longrightarrow> atomic (andThen (transaction m) k2)"
  "(\<And>x. never_throws (k3 x)) \<Longrightarrow> (\<And>e. quiet (h e)) \<Longrightarrow> atomic (andThen (catching (transaction m) h) k3)"
  "(\<And>x. never_throws (k4 x)) \<Longrightarrow> atomic (andThen (execute g) k4)"
  by (auto intro!: atomic_andThen_total atomic_intros)

lemma atomic_option [atomic_intros]:
  "atomic a \<Longrightarrow> (\<And>x. atomic (b x)) \<Longrightarrow> atomic (case v of None \<Rightarrow> a | Some x \<Rightarrow> b x)"
  by (cases v) auto

lemma atomic_if [atomic_intros]: "atomic a \<Longrightarrow> atomic b \<Longrightarrow> atomic (if c then a else b)"
  by simp

lemma atomic_Let [atomic_intros]: "(\<And>x. atomic (m x)) \<Longrightarrow> atomic (Let v m)"
  by simp

lemma never_throws_intros [atomic_intros]:
  "never_throws (ret a)" "never_throws (query f)" "never_throws (execute g)"
  by (simp_all add: never_throws_def run_iffs)

lemma never_throws_andThen [atomic_intros]:
  "never_throws m \<Longrightarrow> (\<And>x. never_throws (k x)) \<Longrightarrow> never_throws (andThen m k)"
  by (auto simp: never_throws_def run_iffs)

end
