(* ===== verification/Store_Accounts.thy ===== *)
theory Store_Accounts
  imports Store_Runs "HOL-Library.Multiset"
begin

text \<open>
  The account side of \<^verbatim>\<open>SqliteOperationalStore\<close>: accounts, credentials, sessions, recovery tokens,
  the audit log and the confirmed portfolio. Each operation is the method of the same name, with
  its checks, statements, clock reads and random draws in the order of the source.
\<close>

subsection \<open>Accounts and credentials\<close>

definition mapCredentialInsertError :: "thrown \<Rightarrow> string \<Rightarrow> thrown" where
  "mapCredentialInsertError e identity =
     (let message = (case e of StoreError _ m \<Rightarrow> m | AccountServiceError _ m \<Rightarrow> m
                     | SqliteError m \<Rightarrow> m | OtherError m \<Rightarrow> m)
      in if includes_text ''operational_credential.normalized_identity'' message
            \<or> includes_text ''UNIQUE constraint failed'' message
         then duplicateCredentialIdentity identity else e)"

definition createAccount :: "string \<Rightarrow> string \<Rightarrow> account store_op" where
  "createAccount displayName primaryExportEconomy =
     andThen assertWritable (\<lambda>_.
     andThen (check (requireNonEmpty displayName ''displayName'')) (\<lambda>name.
     andThen (check (requireNonEmpty primaryExportEconomy ''primaryExportEconomy'')) (\<lambda>economy.
     andThen randomUUID (\<lambda>i.
     andThen now_iso (\<lambda>ts.
     let a = \<lparr>ac_id = i, ac_displayName = name, ac_primaryExportEconomy = economy,
              ac_createdAt = ts, ac_updatedAt = ts\<rparr>
     in andThen (try_execute (insert_account a)) (\<lambda>_. ret a))))))"

definition createAccountWithCredential ::
  "string \<Rightarrow> string \<Rightarrow> string \<Rightarrow> string \<Rightarrow> (account \<times> credential) store_op" where
  "createAccountWithCredential displayName primaryExportEconomy credentialIdentity credentialVerifier =
     andThen assertWritable (\<lambda>_.
     andThen (check (requireNonEmpty displayName ''displayName'')) (\<lambda>name.
     andThen (check (requireNonEmpty primaryExportEconomy ''primaryExportEconomy'')) (\<lambda>economy.
     andThen (check (normalizeCredentialIdentity credentialIdentity)) (\<lambda>identity.
     andThen (check (requireNonEmpty credentialVerifier ''credentialVerifier'')) (\<lambda>verifier.
     andThen randomUUID (\<lambda>accountId.
     andThen randomUUID (\<lambda>credentialId.
     andThen now_iso (\<lambda>ts.
     let a = \<lparr>ac_id = accountId, ac_displayName = name, ac_primaryExportEconomy = economy,
              ac_createdAt = ts, ac_updatedAt = ts\<rparr>;
         c = \<lparr>cr_id = credentialId, cr_accountId = accountId, cr_normalizedIdentity = identity,
              cr_verifier = verifier, cr_failedAttemptCount = 0, cr_lockedUntil = None,
              cr_createdAt = ts, cr_updatedAt = ts\<rparr>
     in andThen (catching
          (transaction (andThen (try_execute (insert_account a)) (\<lambda>_. try_execute (insert_credential c))))
          (\<lambda>e. raise (mapCredentialInsertError e identity))) (\<lambda>_. ret (a, c))))))))))"

definition findAccount :: "string \<Rightarrow> account option store_op" where
  "findAccount i = query (\<lambda>db. find (\<lambda>a. ac_id a = i) (accounts db))"

definition requireAccount :: "string \<Rightarrow> unit store_op" where
  "requireAccount i =
     andThen (findAccount i) (\<lambda>found.
       case found of
         None \<Rightarrow> raise (unknownEntity (''Account '' @ i @ '' does not exist.''))
       | Some _ \<Rightarrow> ret ())"

definition createCredential :: "string \<Rightarrow> string \<Rightarrow> string \<Rightarrow> credential store_op" where
  "createCredential accountId0 identity0 verifier0 =
     andThen assertWritable (\<lambda>_.
     andThen (check (requireNonEmpty accountId0 ''accountId'')) (\<lambda>accountId.
     andThen (check (normalizeCredentialIdentity identity0)) (\<lambda>identity.
     andThen (check (requireNonEmpty verifier0 ''verifier'')) (\<lambda>verifier.
     andThen randomUUID (\<lambda>i.
     andThen now_iso (\<lambda>ts.
     let c = \<lparr>cr_id = i, cr_accountId = accountId, cr_normalizedIdentity = identity,
              cr_verifier = verifier, cr_failedAttemptCount = 0, cr_lockedUntil = None,
              cr_createdAt = ts, cr_updatedAt = ts\<rparr>
     in andThen (catching
          (transaction (andThen (requireAccount accountId) (\<lambda>_. try_execute (insert_credential c))))
          (\<lambda>e. raise (mapCredentialInsertError e identity))) (\<lambda>_. ret c)))))))"

definition findCredentialByIdentity :: "string \<Rightarrow> credential option store_op" where
  "findCredentialByIdentity identity0 =
     andThen (check (normalizeCredentialIdentity identity0)) (\<lambda>identity.
     query (\<lambda>db. find (\<lambda>c. cr_normalizedIdentity c = identity) (credentials db)))"

definition findCredentialByAccount :: "string \<Rightarrow> credential option store_op" where
  "findCredentialByAccount accountId =
     query (\<lambda>db. find (\<lambda>c. cr_accountId c = accountId) (credentials db))"

text \<open>\<^verbatim>\<open>UPDATE operational_credential ... WHERE id = ?\<close> followed by reading the row back.\<close>

definition update_credential :: "string \<Rightarrow> (credential \<Rightarrow> credential) \<Rightarrow> credential store_op" where
  "update_credential credentialId f =
     andThen (query (\<lambda>db. changes (\<lambda>c. cr_id c = credentialId) (credentials db))) (\<lambda>n.
     andThen (execute (\<lambda>db. db\<lparr>credentials := update_rows (\<lambda>c. cr_id c = credentialId) f (credentials db)\<rparr>)) (\<lambda>_.
     if n = 0
     then raise (unknownEntity (''Credential '' @ credentialId @ '' does not exist.''))
     else query (\<lambda>db. the (find (\<lambda>c. cr_id c = credentialId) (credentials db)))))"

definition updateCredentialAttempts :: "string \<Rightarrow> int \<Rightarrow> string option \<Rightarrow> credential store_op" where
  "updateCredentialAttempts credentialId0 failedAttemptCount0 lockedUntil0 =
     andThen assertWritable (\<lambda>_.
     andThen (check (requireNonEmpty credentialId0 ''credentialId'')) (\<lambda>credentialId.
     andThen (check (requireNonNegativeInt failedAttemptCount0 ''failedAttemptCount'')) (\<lambda>failedAttemptCount.
     andThen (check (case lockedUntil0 of None \<Rightarrow> Inr None
                     | Some l \<Rightarrow> ebind (requireNonEmpty l ''lockedUntil'') (\<lambda>l. Inr (Some l)))) (\<lambda>lockedUntil.
     andThen now_iso (\<lambda>ts.
     update_credential credentialId
       (\<lambda>c. c\<lparr>cr_failedAttemptCount := failedAttemptCount, cr_lockedUntil := lockedUntil,
              cr_updatedAt := ts\<rparr>))))))"

definition updateCredentialVerifier :: "string \<Rightarrow> string \<Rightarrow> credential store_op" where
  "updateCredentialVerifier credentialId0 verifier0 =
     andThen assertWritable (\<lambda>_.
     andThen (check (requireNonEmpty credentialId0 ''credentialId'')) (\<lambda>credentialId.
     andThen (check (requireNonEmpty verifier0 ''verifier'')) (\<lambda>verifier.
     andThen now_iso (\<lambda>ts.
     update_credential credentialId
       (\<lambda>c. c\<lparr>cr_verifier := verifier, cr_failedAttemptCount := 0, cr_lockedUntil := None,
              cr_updatedAt := ts\<rparr>)))))"

definition setPrimaryExporter :: "string \<Rightarrow> string \<Rightarrow> account store_op" where
  "setPrimaryExporter accountId economyCode =
     andThen assertWritable (\<lambda>_.
     andThen (check (requireNonEmpty economyCode ''economyCode'')) (\<lambda>economy.
     andThen now_iso (\<lambda>ts.
     andThen (query (\<lambda>db. changes (\<lambda>a. ac_id a = accountId) (accounts db))) (\<lambda>n.
     andThen (execute (\<lambda>db. db\<lparr>accounts := update_rows (\<lambda>a. ac_id a = accountId)
                (\<lambda>a. a\<lparr>ac_primaryExportEconomy := economy, ac_updatedAt := ts\<rparr>) (accounts db)\<rparr>)) (\<lambda>_.
     if n = 0
     then raise (unknownEntity (''Account '' @ accountId @ '' does not exist.''))
     else andThen (findAccount accountId) (\<lambda>a. ret (the a)))))))"

subsection \<open>Sessions and recovery tokens\<close>

definition createSession :: "string \<Rightarrow> string \<Rightarrow> string \<Rightarrow> operational_session store_op" where
  "createSession accountId0 tokenDigest0 expiresAt0 =
     andThen assertWritable (\<lambda>_.
     andThen (check (requireNonEmpty accountId0 ''accountId'')) (\<lambda>accountId.
     andThen (check (requireNonEmpty tokenDigest0 ''tokenDigest'')) (\<lambda>tokenDigest.
     andThen (check (requireNonEmpty expiresAt0 ''expiresAt'')) (\<lambda>expiresAt.
     andThen now_iso (\<lambda>createdAt.
     let r = \<lparr>se_tokenDigest = tokenDigest, se_accountId = accountId, se_createdAt = createdAt,
              se_expiresAt = expiresAt, se_revokedAt = None\<rparr>
     in andThen (transaction (andThen (requireAccount accountId) (\<lambda>_. try_execute (insert_session r)))) (\<lambda>_.
        ret (operational_session.truncate r)))))))"

definition live_session :: "string \<Rightarrow> string \<Rightarrow> session_row \<Rightarrow> bool" where
  "live_session digest nowIso r \<longleftrightarrow>
     se_tokenDigest r = digest \<and> se_revokedAt r = None \<and> nowIso < se_expiresAt r"

definition findSession :: "string \<Rightarrow> operational_session option store_op" where
  "findSession tokenDigest0 =
     andThen (check (requireNonEmpty tokenDigest0 ''tokenDigest'')) (\<lambda>digest.
     andThen now_iso (\<lambda>ts.
     query (\<lambda>db. map_option operational_session.truncate (find (live_session digest ts) (sessions db)))))"

definition revokeSession :: "string \<Rightarrow> unit store_op" where
  "revokeSession tokenDigest0 =
     andThen assertWritable (\<lambda>_.
     andThen (check (requireNonEmpty tokenDigest0 ''tokenDigest'')) (\<lambda>digest.
     andThen now_iso (\<lambda>ts.
     execute (\<lambda>db. db\<lparr>sessions :=
       update_rows (\<lambda>r. se_tokenDigest r = digest \<and> se_revokedAt r = None)
         (\<lambda>r. r\<lparr>se_revokedAt := Some ts\<rparr>) (sessions db)\<rparr>))))"

definition revokeSessionsForAccount :: "string \<Rightarrow> unit store_op" where
  "revokeSessionsForAccount accountId =
     andThen assertWritable (\<lambda>_.
     andThen (requireAccount accountId) (\<lambda>_.
     andThen now_iso (\<lambda>ts.
     execute (\<lambda>db. db\<lparr>sessions :=
       update_rows (\<lambda>r. se_accountId r = accountId \<and> se_revokedAt r = None)
         (\<lambda>r. r\<lparr>se_revokedAt := Some ts\<rparr>) (sessions db)\<rparr>))))"

definition issueRecoveryToken :: "string \<Rightarrow> string \<Rightarrow> string \<Rightarrow> recovery_token store_op" where
  "issueRecoveryToken accountId0 tokenDigest0 expiresAt0 =
     andThen assertWritable (\<lambda>_.
     andThen (check (requireNonEmpty accountId0 ''accountId'')) (\<lambda>accountId.
     andThen (check (requireNonEmpty tokenDigest0 ''tokenDigest'')) (\<lambda>tokenDigest.
     andThen (check (requireNonEmpty expiresAt0 ''expiresAt'')) (\<lambda>expiresAt.
     andThen now_iso (\<lambda>createdAt.
     let r = \<lparr>rt_tokenDigest = tokenDigest, rt_accountId = accountId, rt_createdAt = createdAt,
              rt_expiresAt = expiresAt, rt_consumedAt = None\<rparr>
     in andThen (transaction (andThen (requireAccount accountId) (\<lambda>_. try_execute (insert_recovery_token r)))) (\<lambda>_.
        ret r))))))"

definition live_recovery_token :: "string \<Rightarrow> string \<Rightarrow> recovery_token \<Rightarrow> bool" where
  "live_recovery_token digest nowIso r \<longleftrightarrow>
     rt_tokenDigest r = digest \<and> rt_consumedAt r = None \<and> nowIso < rt_expiresAt r"

definition consumeRecoveryToken :: "string \<Rightarrow> recovery_token option store_op" where
  "consumeRecoveryToken tokenDigest0 =
     andThen assertWritable (\<lambda>_.
     andThen (check (requireNonEmpty tokenDigest0 ''tokenDigest'')) (\<lambda>digest.
     andThen now_iso (\<lambda>consumedAt.
     transaction (
       andThen (query (\<lambda>db. find (live_recovery_token digest consumedAt) (recovery_tokens db))) (\<lambda>row.
       case row of
         None \<Rightarrow> ret None
       | Some r \<Rightarrow>
           andThen (execute (\<lambda>db. db\<lparr>recovery_tokens :=
             update_rows (\<lambda>s. rt_tokenDigest s = digest) (\<lambda>s. s\<lparr>rt_consumedAt := Some consumedAt\<rparr>)
               (recovery_tokens db)\<rparr>)) (\<lambda>_.
           ret (Some (r\<lparr>rt_consumedAt := Some consumedAt\<rparr>))))))))"

subsection \<open>Audit log, deletion, portfolio\<close>

definition appendAuditEvent :: "string option \<Rightarrow> string \<Rightarrow> json \<Rightarrow> audit_event store_op" where
  "appendAuditEvent accountId0 kind0 detail =
     andThen assertWritable (\<lambda>_.
     andThen (check (case accountId0 of None \<Rightarrow> Inr None
                     | Some a \<Rightarrow> ebind (requireNonEmpty a ''accountId'') (\<lambda>a. Inr (Some a)))) (\<lambda>accountId.
     andThen (check (requireNonEmpty kind0 ''kind'')) (\<lambda>kind.
     andThen randomUUID (\<lambda>i.
     andThen now_iso (\<lambda>createdAt.
     andThen (case accountId of None \<Rightarrow> ret () | Some a \<Rightarrow> requireAccount a) (\<lambda>_.
     let r = \<lparr>au_id = i, au_accountId = accountId, au_kind = kind, au_detail = detail,
              au_createdAt = createdAt\<rparr>
     in andThen (try_execute (insert_audit_event r)) (\<lambda>_. ret r)))))))"

definition listAuditEvents :: "string \<Rightarrow> audit_event list store_op" where
  "listAuditEvents accountId =
     query (\<lambda>db. sort_key (\<lambda>r. (au_createdAt r, au_id r))
       (filter (\<lambda>r. au_accountId r = Some accountId) (audit_events db)))"

definition deleteAccount :: "string \<Rightarrow> audit_event store_op" where
  "deleteAccount accountId =
     andThen assertWritable (\<lambda>_.
     andThen (check (requireNonEmpty accountId ''accountId'')) (\<lambda>i.
     andThen randomUUID (\<lambda>auditId.
     andThen now_iso (\<lambda>createdAt.
     let r = \<lparr>au_id = auditId, au_accountId = Some i, au_kind = ''ACCOUNT_DELETED'',
              au_detail = JObj [(''accountId'', JStr i),
                                (''retentionPolicy'', JStr ''operational-account-deletion-v1'')],
              au_createdAt = createdAt\<rparr>
     in andThen (transaction (
          andThen (requireAccount i) (\<lambda>_.
          andThen (execute (delete_account_row i)) (\<lambda>_.
          try_execute (insert_audit_event r))))) (\<lambda>_. ret r)))))"

text \<open>\<^verbatim>\<open>dedupeProducts\<close>: a JavaScript \<^verbatim>\<open>Map\<close> keeps the position of a key that is set again.\<close>

definition product_key :: "product_ref \<Rightarrow> string" where
  "product_key p = pf_hsRevision p @ ''|'' @ pf_code p"

fun map_set :: "'k \<Rightarrow> 'v \<Rightarrow> ('k \<times> 'v) list \<Rightarrow> ('k \<times> 'v) list" where
  "map_set k v [] = [(k, v)]"
| "map_set k v ((k', v') # m) = (if k = k' then (k, v) # m else (k', v') # map_set k v m)"

definition normalizeProductRef :: "product_ref \<Rightarrow> thrown + product_ref" where
  "normalizeProductRef p =
     ebind (requireNonEmpty (pf_hsRevision p) ''product.hsRevision'') (\<lambda>hsRevision.
     ebind (requireNonEmpty (pf_code p) ''product.code'') (\<lambda>code.
     Inr \<lparr>pf_hsRevision = hsRevision, pf_code = code\<rparr>))"

definition dedupeProducts :: "product_ref list \<Rightarrow> thrown + product_ref list" where
  "dedupeProducts products =
     ebind (efold (\<lambda>p seen. ebind (normalizeProductRef p) (\<lambda>q. Inr (map_set (product_key q) q seen)))
              products []) (\<lambda>seen.
     Inr (map snd seen))"

definition listConfirmedProducts :: "string \<Rightarrow> confirmed_product list store_op" where
  "listConfirmedProducts accountId =
     query (\<lambda>db. sort_key (\<lambda>r. (pf_hsRevision (cp_product r), pf_code (cp_product r)))
       (filter (\<lambda>r. cp_accountId r = accountId) (confirmed_products db)))"

definition insert_products :: "string \<Rightarrow> string \<Rightarrow> product_ref list \<Rightarrow> unit store_op" where
  "insert_products accountId ts products =
     foldOp (\<lambda>p _. try_execute (insert_confirmed_product
       \<lparr>cp_accountId = accountId, cp_product = p, cp_confirmedAt = ts\<rparr>)) products ()"

definition confirmPortfolio :: "string \<Rightarrow> product_ref list \<Rightarrow> confirmed_product list store_op" where
  "confirmPortfolio accountId products =
     andThen assertWritable (\<lambda>_.
     andThen (check (dedupeProducts products)) (\<lambda>normalized.
     andThen now_iso (\<lambda>ts.
     andThen (transaction (
       andThen (requireAccount accountId) (\<lambda>_.
       andThen (execute (\<lambda>db. db\<lparr>confirmed_products :=
         delete_rows (\<lambda>r. cp_accountId r = accountId) (confirmed_products db)\<rparr>)) (\<lambda>_.
       insert_products accountId ts normalized)))) (\<lambda>_.
     listConfirmedProducts accountId))))"


subsection \<open>The operations keep the constraints\<close>

abbreviation consistent :: "world \<Rightarrow> bool" where
  "consistent \<equiv> \<lambda>w. database_ok (w_db w)"

lemmas keeps_statement = keeps_execute [where Q = database_ok] keeps_try_execute [where Q = database_ok]

lemma keeps_findAccount [keeps_intros]: "keeps consistent (findAccount i)"
  by (simp add: findAccount_def keeps_intros)

lemma keeps_requireAccount [keeps_intros]: "keeps consistent (requireAccount i)"
  unfolding requireAccount_def by (intro keeps_intros)

lemma keeps_update_credential:
  assumes "\<And>r. cr_id (f r) = cr_id r" "\<And>r. cr_accountId (f r) = cr_accountId r"
    "\<And>r. cr_normalizedIdentity (f r) = cr_normalizedIdentity r"
  shows "keeps consistent (update_credential i f)"
  unfolding update_credential_def
  by (intro keeps_intros keeps_statement) (auto intro: update_credentials_ok assms)

lemma keeps_insert_products: "keeps consistent (insert_products i ts ps)"
  unfolding insert_products_def
  by (intro keeps_intros keeps_statement) (rule insert_confirmed_product_ok)

lemma account_operations_keep [keeps_intros]:
  "keeps consistent (createAccount n e)"
  "keeps consistent (createAccountWithCredential n e ident v)"
  "keeps consistent (createCredential a ident v)"
  "keeps consistent (findCredentialByIdentity ident)"
  "keeps consistent (findCredentialByAccount a)"
  "keeps consistent (updateCredentialAttempts i c l)"
  "keeps consistent (updateCredentialVerifier i v)"
  "keeps consistent (setPrimaryExporter a e)"
  "keeps consistent (createSession a d x)"
  "keeps consistent (findSession d)"
  "keeps consistent (revokeSession d)"
  "keeps consistent (revokeSessionsForAccount a)"
  "keeps consistent (issueRecoveryToken a d x)"
  "keeps consistent (consumeRecoveryToken d)"
  "keeps consistent (appendAuditEvent a2 k j)"
  "keeps consistent (listAuditEvents a)"
  "keeps consistent (deleteAccount a)"
  "keeps consistent (listConfirmedProducts a)"
  "keeps consistent (confirmPortfolio a ps)"
proof -
  show "keeps consistent (createAccount n e)"
    unfolding createAccount_def by (intro keeps_intros keeps_statement) (rule insert_account_ok)
  show "keeps consistent (createAccountWithCredential n e ident v)"
    unfolding createAccountWithCredential_def
    by (intro keeps_intros keeps_statement) (auto intro: insert_account_ok insert_credential_ok)
  show "keeps consistent (createCredential a ident v)"
    unfolding createCredential_def by (intro keeps_intros keeps_statement) (rule insert_credential_ok)
  show "keeps consistent (findCredentialByIdentity ident)"
    unfolding findCredentialByIdentity_def by (intro keeps_intros)
  show "keeps consistent (findCredentialByAccount a)"
    unfolding findCredentialByAccount_def by (intro keeps_intros)
  show "keeps consistent (updateCredentialAttempts i c l)"
    unfolding updateCredentialAttempts_def by (intro keeps_intros keeps_update_credential) simp_all
  show "keeps consistent (updateCredentialVerifier i v)"
    unfolding updateCredentialVerifier_def by (intro keeps_intros keeps_update_credential) simp_all
  show "keeps consistent (setPrimaryExporter a e)"
    unfolding setPrimaryExporter_def
    by (intro keeps_intros keeps_statement) (auto intro: update_accounts_ok)
  show "keeps consistent (createSession a d x)"
    unfolding createSession_def by (intro keeps_intros keeps_statement) (rule insert_session_ok)
  show "keeps consistent (findSession d)"
    unfolding findSession_def by (intro keeps_intros)
  show "keeps consistent (revokeSession d)"
    unfolding revokeSession_def by (intro keeps_intros keeps_statement) (auto intro: update_sessions_ok)
  show "keeps consistent (revokeSessionsForAccount a)"
    unfolding revokeSessionsForAccount_def
    by (intro keeps_intros keeps_statement) (auto intro: update_sessions_ok)
  show "keeps consistent (issueRecoveryToken a d x)"
    unfolding issueRecoveryToken_def
    by (intro keeps_intros keeps_statement) (rule insert_recovery_token_ok)
  show "keeps consistent (consumeRecoveryToken d)"
    unfolding consumeRecoveryToken_def
    by (intro keeps_intros keeps_statement) (auto intro: update_recovery_tokens_ok)
  show "keeps consistent (appendAuditEvent a2 k j)"
    unfolding appendAuditEvent_def by (intro keeps_intros keeps_statement) (rule insert_audit_event_ok)
  show "keeps consistent (listAuditEvents a)"
    unfolding listAuditEvents_def by (intro keeps_intros)
  show "keeps consistent (deleteAccount a)"
    unfolding deleteAccount_def
    by (intro keeps_intros keeps_statement) (auto intro: delete_account_row_ok insert_audit_event_ok)
  show "keeps consistent (listConfirmedProducts a)"
    unfolding listConfirmedProducts_def by (intro keeps_intros)
  then show "keeps consistent (confirmPortfolio a ps)"
    unfolding confirmPortfolio_def
    by (intro keeps_intros keeps_statement keeps_insert_products) (auto intro: delete_products_ok)
qed

subsection \<open>An operation that throws leaves every row alone\<close>

lemma quiet_findAccount [atomic_intros]: "quiet (findAccount i)"
  unfolding findAccount_def by (intro atomic_intros)

lemma quiet_requireAccount [atomic_intros]: "quiet (requireAccount i)"
  unfolding requireAccount_def by (intro atomic_intros)

lemma atomic_account_steps [atomic_intros]:
  "(\<And>x. atomic (k1 x)) \<Longrightarrow> atomic (andThen (findAccount i) k1)"
  "(\<And>x. atomic (k2 x)) \<Longrightarrow> atomic (andThen (requireAccount i) k2)"
  by (auto intro!: atomic_andThen atomic_intros)

lemma update_rows_none: "filter P rows = [] \<Longrightarrow> update_rows P f rows = rows"
  unfolding update_rows_def by (rule map_idI) (auto simp: filter_empty_conv)

lemma atomic_update_credential [atomic_intros]: "atomic (update_credential i f)"
  by (auto simp: atomic_def update_credential_def run_iffs changes_def update_rows_none split: if_splits)

lemma account_operations_atomic [atomic_intros]:
  "atomic (createAccount n e)"
  "atomic (createAccountWithCredential n e ident v)"
  "atomic (createCredential a ident v)"
  "atomic (updateCredentialAttempts i c l)"
  "atomic (updateCredentialVerifier i v)"
  "atomic (setPrimaryExporter a e)"
  "atomic (createSession a d x)"
  "atomic (revokeSession d)"
  "atomic (revokeSessionsForAccount a)"
  "atomic (issueRecoveryToken a d x)"
  "atomic (consumeRecoveryToken d)"
  "atomic (appendAuditEvent a2 k j)"
  "atomic (deleteAccount a)"
  "atomic (confirmPortfolio a ps)"
proof -
  show "atomic (createAccount n e)"
    unfolding createAccount_def Let_def by (intro atomic_intros)
  show "atomic (createAccountWithCredential n e ident v)"
    unfolding createAccountWithCredential_def Let_def by (intro atomic_intros)
  show "atomic (createCredential a ident v)"
    unfolding createCredential_def Let_def by (intro atomic_intros)
  show "atomic (updateCredentialAttempts i c l)"
    unfolding updateCredentialAttempts_def Let_def by (intro atomic_intros)
  show "atomic (updateCredentialVerifier i v)"
    unfolding updateCredentialVerifier_def Let_def by (intro atomic_intros)
  show "atomic (setPrimaryExporter a e)"
    by (auto simp: atomic_def setPrimaryExporter_def findAccount_def run_iffs changes_def
        update_rows_none split: if_splits)
  show "atomic (createSession a d x)"
    unfolding createSession_def Let_def by (intro atomic_intros)
  show "atomic (revokeSession d)"
    unfolding revokeSession_def Let_def by (intro atomic_intros)
  show "atomic (revokeSessionsForAccount a)"
    unfolding revokeSessionsForAccount_def Let_def by (intro atomic_intros)
  show "atomic (issueRecoveryToken a d x)"
    unfolding issueRecoveryToken_def Let_def by (intro atomic_intros)
  show "atomic (consumeRecoveryToken d)"
    unfolding consumeRecoveryToken_def Let_def by (intro atomic_intros)
  show "atomic (appendAuditEvent a2 k j)"
    unfolding appendAuditEvent_def Let_def
    by (intro atomic_intros, rule atomic_andThen) (intro atomic_intros)+
  show "atomic (deleteAccount a)"
    unfolding deleteAccount_def Let_def by (intro atomic_intros)
  show "atomic (confirmPortfolio a ps)"
    unfolding confirmPortfolio_def listConfirmedProducts_def by (intro atomic_intros)
qed


subsection \<open>Registering\<close>

lemma find_snoc_new: "(\<forall>x \<in> set xs. \<not> P x) \<Longrightarrow> P y \<Longrightarrow> find P (xs @ [y]) = Some y"
  by (induction xs) auto

lemma normalizeCredentialIdentity_Inr_iff:
  "normalizeCredentialIdentity s = Inr n \<longleftrightarrow> trim s \<noteq> [] \<and> n = to_lower (trim s)"
  by (auto simp: normalizeCredentialIdentity_def requireNonEmpty_def)

lemma createAccountWithCredential_InrD:
  assumes "createAccountWithCredential n e ident v w = (Inr (a, c), t)"
  shows "normalizeCredentialIdentity ident = Inr (cr_normalizedIdentity c)"
    and "accounts (w_db t) = accounts (w_db w) @ [a]" "credentials (w_db t) = credentials (w_db w) @ [c]"
    and "cr_accountId c = ac_id a" "cr_verifier c = v" "ac_displayName a = n" "ac_primaryExportEconomy a = e"
    and "\<forall>b \<in> set (accounts (w_db w)). ac_id b \<noteq> ac_id a"
    and "\<forall>b \<in> set (credentials (w_db w)). cr_normalizedIdentity b \<noteq> cr_normalizedIdentity c \<and> cr_id b \<noteq> cr_id c"
    and "w_maintenance t = w_maintenance w" "\<not> w_maintenance w"
    and "w_clock t = w_clock w" "w_reads t = Suc (w_reads w)"
  using assms
  by (auto simp: createAccountWithCredential_def run_iffs Let_def insert_account_def insert_credential_def
      ebind_Inr_iff insert_row_Inr list_ex_iff clash_defs requireNonEmpty_def split: if_splits)

lemma createAccountWithCredential_Duplicate:
  assumes "\<not> w_maintenance w" "trim n \<noteq> []" "trim e \<noteq> []" "trim v \<noteq> []"
    and "normalizeCredentialIdentity ident = Inr i" "c \<in> set (credentials (w_db w))" "cr_normalizedIdentity c = i"
  shows "\<exists>t. createAccountWithCredential n e ident v w = (Inl (duplicateCredentialIdentity i), t)
    \<and> w_db t = w_db w"
proof -
  have dup: "mapCredentialInsertError (SqliteError ''UNIQUE constraint failed: operational_account.id'') i
      = duplicateCredentialIdentity i"
    "mapCredentialInsertError
       (SqliteError ''UNIQUE constraint failed: operational_credential.normalized_identity'') i
      = duplicateCredentialIdentity i"
    by (simp_all add: mapCredentialInsertError_def starts_with_def)
  have clash: "insert_row credential_clash x r (credentials d) = Inl (SqliteError (''UNIQUE constraint failed: '' @ x))"
    if "cr_normalizedIdentity r = i" "credentials d = credentials (w_db w)" for x r d
    using that assms(6,7)
    by (auto simp: insert_row_def list_ex_iff credential_clash_def intro!: bexI [of _ c])
  show ?thesis
    using assms(1-5)
    by (simp add: createAccountWithCredential_def andThen_def assertWritable_def check_def
        requireNonEmpty_def randomUUID_def now_iso_def Let_def catching_def transaction_def
        try_execute_def insert_account_def insert_credential_def insert_row_def [of account_clash]
        clash dup raise_def ebind.simps)
qed


subsection \<open>Sessions\<close>

lemma createSession_InrD:
  assumes "createSession a d x w = (Inr s, t)"
  shows "s = \<lparr>se_tokenDigest = d, se_accountId = a, se_createdAt = to_iso (w_clock w (w_reads w)),
              se_expiresAt = x\<rparr>"
    and "sessions (w_db t) = sessions (w_db w) @
      [\<lparr>se_tokenDigest = d, se_accountId = a, se_createdAt = to_iso (w_clock w (w_reads w)),
        se_expiresAt = x, se_revokedAt = None\<rparr>]"
    and "\<forall>r \<in> set (sessions (w_db w)). se_tokenDigest r \<noteq> d" "trim d \<noteq> []"
    and "accounts (w_db t) = accounts (w_db w)" "a \<in> account_ids (w_db w)"
    and "w_clock t = w_clock w" "w_reads t = Suc (w_reads w)" "w_maintenance t = w_maintenance w"
  using assms
  by (auto simp: createSession_def run_iffs Let_def insert_session_def ebind_Inr_iff insert_row_Inr
      list_ex_iff clash_defs requireNonEmpty_def requireAccount_def findAccount_def
      operational_session.defs split: if_splits option.splits)

lemma findSession_run:
  assumes "trim d \<noteq> []"
  shows "findSession d w =
    (Inr (map_option operational_session.truncate
       (find (live_session d (to_iso (w_clock w (w_reads w)))) (sessions (w_db w)))),
     w\<lparr>w_reads := w_reads w + 1\<rparr>)"
  using assms
  by (simp add: findSession_def andThen_def check_def requireNonEmpty_def now_iso_def query_def)

lemma find_none: "(\<forall>x \<in> set xs. \<not> P x) \<Longrightarrow> find P xs = None"
  by (simp add: find_None_iff)

lemma revoked_rows:
  assumes "r \<in> set (update_rows (\<lambda>r. P r \<and> se_revokedAt r = None) (\<lambda>r. r\<lparr>se_revokedAt := Some ts\<rparr>) rows)"
    and "P r" "\<And>s x. P (s\<lparr>se_revokedAt := x\<rparr>) = P s"
  shows "se_revokedAt r \<noteq> None"
proof -
  obtain s where "r = (if P s \<and> se_revokedAt s = None then s\<lparr>se_revokedAt := Some ts\<rparr> else s)"
    using assms(1) by (auto simp: in_update_rows)
  with assms(2) show ?thesis by (cases "P s \<and> se_revokedAt s = None") auto
qed

lemma revoked_not_live:
  assumes "\<And>q. q \<in> set rows \<Longrightarrow> se_tokenDigest q = d \<Longrightarrow> se_accountId q = a"
    and "rows' = update_rows (\<lambda>r. se_accountId r = a \<and> se_revokedAt r = None) (\<lambda>r. r\<lparr>se_revokedAt := Some ts\<rparr>) rows"
    and "q \<in> set rows'"
  shows "\<not> live_session d x q"
proof
  assume live: "live_session d x q"
  from assms(2,3) obtain s where s: "s \<in> set rows"
    "q = (if se_accountId s = a \<and> se_revokedAt s = None then s\<lparr>se_revokedAt := Some ts\<rparr> else s)"
    unfolding assms(2) in_update_rows by blast
  show False
  proof (cases "se_accountId s = a \<and> se_revokedAt s = None")
    case True
    with s(2) live show False by (simp add: live_session_def)
  next
    case False
    with s(2) have "q = s" by simp
    with live False assms(1) [OF s(1)] show False by (auto simp: live_session_def)
  qed
qed

lemma revokeSessionsForAccount_sessions:
  assumes "revokeSessionsForAccount a w = (Inr u, t)" "r \<in> set (sessions (w_db t))" "se_accountId r = a"
  shows "se_revokedAt r \<noteq> None"
proof -
  from assms(1) obtain ts where "sessions (w_db t) =
      update_rows (\<lambda>r. se_accountId r = a \<and> se_revokedAt r = None) (\<lambda>r. r\<lparr>se_revokedAt := Some ts\<rparr>) (sessions (w_db w))"
    by (fastforce simp: revokeSessionsForAccount_def requireAccount_def findAccount_def run_iffs
        split: option.splits)
  with revoked_rows [of r "\<lambda>r. se_accountId r = a"] assms(2,3) show ?thesis by simp
qed

lemma revokeSession_sessions:
  assumes "revokeSession d w = (Inr u, t)" "r \<in> set (sessions (w_db t))" "se_tokenDigest r = d"
  shows "se_revokedAt r \<noteq> None"
proof -
  from assms(1) obtain ts where "sessions (w_db t) =
      update_rows (\<lambda>r. se_tokenDigest r = d \<and> se_revokedAt r = None) (\<lambda>r. r\<lparr>se_revokedAt := Some ts\<rparr>) (sessions (w_db w))"
    by (fastforce simp: revokeSession_def run_iffs requireNonEmpty_def split: if_splits)
  with revoked_rows [of r "\<lambda>r. se_tokenDigest r = d"] assms(2,3) show ?thesis by simp
qed

subsection \<open>Recovery tokens\<close>

lemma consumeRecoveryToken_InrD:
  assumes "consumeRecoveryToken d w = (Inr (Some r), t)"
  shows "\<exists>q \<in> set (recovery_tokens (w_db w)). live_recovery_token d (to_iso (w_clock w (w_reads w))) q
      \<and> r = q\<lparr>rt_consumedAt := Some (to_iso (w_clock w (w_reads w)))\<rparr>"
    and "\<forall>q \<in> set (recovery_tokens (w_db t)). rt_tokenDigest q = d \<longrightarrow> rt_consumedAt q \<noteq> None"
proof -
  let ?ts = "to_iso (w_clock w (w_reads w))"
  from assms obtain q where q: "find (live_recovery_token d ?ts) (recovery_tokens (w_db w)) = Some q"
    and r: "r = q\<lparr>rt_consumedAt := Some ?ts\<rparr>"
    and t: "recovery_tokens (w_db t) = update_rows (\<lambda>s. rt_tokenDigest s = d)
        (\<lambda>s. s\<lparr>rt_consumedAt := Some ?ts\<rparr>) (recovery_tokens (w_db w))"
    by (fastforce simp: consumeRecoveryToken_def run_iffs requireNonEmpty_def split: option.splits if_splits)
  show "\<exists>q \<in> set (recovery_tokens (w_db w)). live_recovery_token d ?ts q
      \<and> r = q\<lparr>rt_consumedAt := Some ?ts\<rparr>"
    using find_SomeD [OF q] r by blast
  show "\<forall>q \<in> set (recovery_tokens (w_db t)). rt_tokenDigest q = d \<longrightarrow> rt_consumedAt q \<noteq> None"
  proof (intro ballI impI)
    fix q assume "q \<in> set (recovery_tokens (w_db t))" "rt_tokenDigest q = d"
    then obtain s where "q = (if rt_tokenDigest s = d then s\<lparr>rt_consumedAt := Some ?ts\<rparr> else s)"
      unfolding t in_update_rows by blast
    with \<open>rt_tokenDigest q = d\<close> show "rt_consumedAt q \<noteq> None" by (cases "rt_tokenDigest s = d") auto
  qed
qed

lemma consumed_stays_consumed:
  assumes "\<forall>q \<in> set (recovery_tokens (w_db w)). rt_tokenDigest q = d \<longrightarrow> rt_consumedAt q \<noteq> None"
    and "\<not> w_maintenance w" "trim d \<noteq> []"
  shows "\<exists>t. consumeRecoveryToken d w = (Inr None, t) \<and> w_db t = w_db w"
proof -
  have "find (live_recovery_token d x) (recovery_tokens (w_db w)) = None" for x
    using assms(1) by (auto simp: live_recovery_token_def find_None_iff)
  with assms(2,3) show ?thesis
    by (simp add: consumeRecoveryToken_def andThen_def assertWritable_def check_def requireNonEmpty_def
        now_iso_def transaction_def query_def ret_def)
qed

subsection \<open>Deleting an account\<close>

lemma deleteAccount_InrD:
  assumes "deleteAccount a w = (Inr ev, t)"
  shows "w_db t = (delete_account_row a (w_db w))\<lparr>audit_events := audit_events (w_db w) @ [ev]\<rparr>"
    and "au_accountId ev = Some a" "au_kind ev = ''ACCOUNT_DELETED''" "a \<in> account_ids (w_db w)"
  using assms
  by (auto simp: deleteAccount_def run_iffs Let_def requireNonEmpty_def requireAccount_def findAccount_def
      insert_audit_event_def ebind_Inr_iff insert_row_Inr delete_account_row_def account_ids_def
      split: if_splits option.splits dest!: find_SomeD)

subsection \<open>The portfolio\<close>

lemma map_set_keys: "set (map fst (map_set k v m)) = insert k (set (map fst m))"
  by (induction k v m rule: map_set.induct) (simp_all add: insert_commute)

lemma map_set_distinct: "distinct (map fst m) \<Longrightarrow> distinct (map fst (map_set k v m))"
proof (induction m)
  case (Cons e m)
  then show ?case using map_set_keys [of k v m] by (cases e) auto
qed simp

text \<open>The key of the map is the text \<^verbatim>\<open>hsRevision|code\<close>, which is injective as long as the revision
  contains no bar.\<close>

lemma product_key_inject:
  assumes "CHR ''|'' \<notin> set (pf_hsRevision p)" "CHR ''|'' \<notin> set (pf_hsRevision q)"
  shows "product_key p = product_key q \<longleftrightarrow> p = q"
proof
  assume "product_key p = product_key q"
  then have "pf_hsRevision p @ CHR ''|'' # pf_code p = pf_hsRevision q @ CHR ''|'' # pf_code q"
    by (simp add: product_key_def)
  moreover have "takeWhile (\<lambda>c. c \<noteq> CHR ''|'') (pf_hsRevision x @ CHR ''|'' # y) = pf_hsRevision x"
    if "CHR ''|'' \<notin> set (pf_hsRevision x)" for x :: product_ref and y
    using that by (subst takeWhile_append2) auto
  ultimately have "pf_hsRevision p = pf_hsRevision q" using assms by metis
  with \<open>product_key p = product_key q\<close> show "p = q" by (simp add: product_key_def)
qed simp


lemma dedupeProducts_InrD:
  assumes "dedupeProducts ps = Inr qs"
  shows "distinct (map product_key qs)" "\<forall>p \<in> set ps. normalizeProductRef p = Inr p"
    and "product_key ` set qs = product_key ` set ps" "set qs \<subseteq> set ps"
proof -
  have norm: "normalizeProductRef p = Inr q \<Longrightarrow> q = p" for p q
    by (auto simp: normalizeProductRef_def ebind_Inr_iff requireNonEmpty_def split: if_splits)
  have run: "distinct (map fst m) \<Longrightarrow> \<forall>(k, p) \<in> set m. k = product_key p \<Longrightarrow>
      efold (\<lambda>p seen. ebind (normalizeProductRef p) (\<lambda>q. Inr (map_set (product_key q) q seen))) ps m = Inr n \<Longrightarrow>
      distinct (map fst n) \<and> (\<forall>(k, p) \<in> set n. k = product_key p) \<and>
      (\<forall>p \<in> set ps. normalizeProductRef p = Inr p) \<and>
      set (map fst n) = set (map fst m) \<union> product_key ` set ps \<and> set (map snd n) \<subseteq> set (map snd m) \<union> set ps" for m n
  proof (induction ps arbitrary: m)
    case Nil
    then show ?case by auto
  next
    case (Cons p ps)
    from Cons.prems(3) obtain q where q: "normalizeProductRef p = Inr q"
      and rest: "efold (\<lambda>p seen. ebind (normalizeProductRef p) (\<lambda>q. Inr (map_set (product_key q) q seen))) ps
        (map_set (product_key q) q m) = Inr n" by (auto simp: ebind_Inr_iff)
    have pq: "q = p" using norm [OF q] .
    have sub: "set (map_set k v l) \<subseteq> insert (k, v) (set l)" for k v and l :: "(string \<times> product_ref) list"
      by (induction k v l rule: map_set.induct) auto
    have "\<forall>(k, p) \<in> set (map_set (product_key p) p m). k = product_key p"
      using Cons.prems(2) sub [of "product_key p" p m] by blast
    note IH = Cons.IH [OF map_set_distinct [OF Cons.prems(1)] this rest [unfolded pq]]
    have "set (map fst n) = set (map fst m) \<union> product_key ` set (p # ps)"
      using IH map_set_keys [of "product_key p" p m] by (simp only: list.set image_insert) blast
    moreover have "set (map snd (map_set (product_key p) p m)) \<subseteq> insert p (set (map snd m))"
      using image_mono [OF sub [of "product_key p" p m], of snd] by simp
    then have "set (map snd n) \<subseteq> set (map snd m) \<union> set (p # ps)"
      using IH by (simp only: list.set) blast
    ultimately show ?case using IH q pq by simp
  qed
  from assms obtain n where n: "efold (\<lambda>p seen. ebind (normalizeProductRef p)
      (\<lambda>q. Inr (map_set (product_key q) q seen))) ps [] = Inr n" and qs: "qs = map snd n"
    by (auto simp: dedupeProducts_def ebind_Inr_iff)
  from run [OF _ _ n] have r: "distinct (map fst n)" "\<forall>(k, p) \<in> set n. k = product_key p"
    "\<forall>p \<in> set ps. normalizeProductRef p = Inr p" "set (map fst n) = product_key ` set ps"
    "set (map snd n) \<subseteq> set ps" by auto
  from r(2) have eq: "map product_key qs = map fst n" unfolding qs by auto
  show "distinct (map product_key qs)" unfolding eq by (rule r(1))
  show "\<forall>p \<in> set ps. normalizeProductRef p = Inr p" by (rule r(3))
  have "product_key ` set qs = set (map product_key qs)" by simp
  then show "product_key ` set qs = product_key ` set ps" unfolding eq r(4) .
  show "set qs \<subseteq> set ps" unfolding qs by (rule r(5))
qed

lemma insert_products_Inr_iff:
  "insert_products a ts ps w = (Inr u, t) \<Longrightarrow>
   confirmed_products (w_db t) = confirmed_products (w_db w) @
     map (\<lambda>p. \<lparr>cp_accountId = a, cp_product = p, cp_confirmedAt = ts\<rparr>) ps"
  by (induction ps arbitrary: w)
     (auto simp: insert_products_def run_iffs insert_confirmed_product_def ebind_Inr_iff insert_row_Inr)

lemma confirmPortfolio_InrD:
  assumes "confirmPortfolio a ps w = (Inr rs, t)"
  obtains qs ts where "dedupeProducts ps = Inr qs"
    "confirmed_products (w_db t) = delete_rows (\<lambda>r. cp_accountId r = a) (confirmed_products (w_db w)) @
      map (\<lambda>p. \<lparr>cp_accountId = a, cp_product = p, cp_confirmedAt = ts\<rparr>) qs"
    "rs = sort_key (\<lambda>r. (pf_hsRevision (cp_product r), pf_code (cp_product r)))
      (map (\<lambda>p. \<lparr>cp_accountId = a, cp_product = p, cp_confirmedAt = ts\<rparr>) qs)"
proof -
  from assms obtain qs ts w1 u where d: "dedupeProducts ps = Inr qs"
    and ins: "insert_products a ts qs w1 = (Inr u, t)"
    and w1: "confirmed_products (w_db w1) = delete_rows (\<lambda>r. cp_accountId r = a) (confirmed_products (w_db w))"
    and rs: "rs = sort_key (\<lambda>r. (pf_hsRevision (cp_product r), pf_code (cp_product r)))
      (filter (\<lambda>r. cp_accountId r = a) (confirmed_products (w_db t)))"
    by (fastforce simp: confirmPortfolio_def run_iffs listConfirmedProducts_def requireAccount_def
        findAccount_def split: option.splits)
  note t = insert_products_Inr_iff [OF ins, unfolded w1]
  have "filter (\<lambda>r. cp_accountId r = a) (confirmed_products (w_db t)) =
      map (\<lambda>p. \<lparr>cp_accountId = a, cp_product = p, cp_confirmedAt = ts\<rparr>) qs"
    unfolding t by (simp add: delete_rows_def filter_empty_conv)
  with that [OF d t] rs show ?thesis by simp
qed


subsection \<open>Properties\<close>

text \<open>A world to apply the properties in: an empty database, a clock that advances a second with
  every reading, and distinct identifiers.\<close>

definition sample_world :: world where
  "sample_world = \<lparr>w_db = empty_database, w_maintenance = False,
     w_clock = (\<lambda>i. 1767225600000 + 1000 * int i), w_reads = 0,
     w_uuids = (\<lambda>i. ''id-'' @ dec i), w_drawn = 0, w_bytes = (\<lambda>i. ''token-'' @ dec i), w_bytes_drawn = 0,
     w_sha256 = (\<lambda>s. ''sha:'' @ s)\<rparr>"

lemmas run_defs = andThen_def assertWritable_def check_def ret_def raise_def query_def execute_def
  try_execute_def transaction_def catching_def now_def now_iso_def randomUUID_def randomBytes_def
  requireNonEmpty_def Let_def

lemmas text_eval = trim_def trim_start_def is_space_def to_lower_def lower_char_def

definition registered_world :: world where
  "registered_world = snd (createAccountWithCredential ''Ada'' ''528'' ''Ada@Example.org'' ''v1'' sample_world)"

lemma normalize_sample: "normalizeCredentialIdentity ''Ada@Example.org'' = Inr ''ada@example.org''"
  "normalizeCredentialIdentity ''  ADA@example.org'' = Inr ''ada@example.org''"
  by code_simp+

definition sample_account :: account where
  "sample_account = \<lparr>ac_id = ''id-0'', ac_displayName = ''Ada'', ac_primaryExportEconomy = ''528'',
     ac_createdAt = to_iso 1767225600000, ac_updatedAt = to_iso 1767225600000\<rparr>"

definition sample_credential :: credential where
  "sample_credential = \<lparr>cr_id = ''id-1'', cr_accountId = ''id-0'', cr_normalizedIdentity = ''ada@example.org'',
     cr_verifier = ''v1'', cr_failedAttemptCount = 0, cr_lockedUntil = None,
     cr_createdAt = to_iso 1767225600000, cr_updatedAt = to_iso 1767225600000\<rparr>"

lemma trims: "trim ''Ada'' = ''Ada''" "trim ''528'' = ''528''" "trim ''v1'' = ''v1''" "trim ''id-0'' = ''id-0''"
  "trim ''d1'' = ''d1''"
  by code_simp+

lemma registered:
  "createAccountWithCredential ''Ada'' ''528'' ''Ada@Example.org'' ''v1'' sample_world =
     (Inr (sample_account, sample_credential), registered_world)"
  by (simp add: registered_world_def createAccountWithCredential_def run_defs normalize_sample trims
      insert_account_def insert_credential_def insert_row_def sample_world_def empty_database_def
      dec_one digit_chars account_ids_def sample_account_def sample_credential_def)


text \<open>A registered credential is found under every spelling of its identity, together with its
  account, and a second registration under any such spelling is refused as a duplicate and leaves
  every row as it was.\<close>

theorem registration_is_found_and_unique:
  assumes "createAccountWithCredential n e ident v w = (Inr (a, c), t)"
    and "normalizeCredentialIdentity other = normalizeCredentialIdentity ident"
    and "trim n' \<noteq> []" "trim e' \<noteq> []" "trim v' \<noteq> []"
  shows "findCredentialByIdentity other t = (Inr (Some c), t) \<and> findAccount (ac_id a) t = (Inr (Some a), t)
    \<and> (\<exists>u. createAccountWithCredential n' e' other v' t
            = (Inl (duplicateCredentialIdentity (cr_normalizedIdentity c)), u) \<and> w_db u = w_db t)"
proof (intro conjI)
  note f = createAccountWithCredential_InrD [OF assms(1)]
  show "findCredentialByIdentity other t = (Inr (Some c), t)"
    using f assms(2) by (simp add: findCredentialByIdentity_def run_defs find_snoc_new)
  show "findAccount (ac_id a) t = (Inr (Some a), t)"
    using f by (simp add: findAccount_def query_def find_snoc_new)
  show "\<exists>u. createAccountWithCredential n' e' other v' t
            = (Inl (duplicateCredentialIdentity (cr_normalizedIdentity c)), u) \<and> w_db u = w_db t"
    using f assms(2-5) by (intro createAccountWithCredential_Duplicate [where c = c]) simp_all
qed

theorem registration_is_found_and_unique_witness:
  "findCredentialByIdentity ''  ADA@example.org'' registered_world = (Inr (Some sample_credential), registered_world)"
  using registration_is_found_and_unique [OF registered, of "''  ADA@example.org''" "''Ada''" "''528''" "''v1''"]
  by (simp add: normalize_sample trims)

text \<open>C24: a session that was created to expire at an instant is found exactly while the clock is
  before that instant and the session is not revoked: revoking it, or all sessions of its account,
  makes every later lookup fail.\<close>

theorem session_lifetime:
  assumes "createSession a d (to_iso x) w = (Inr s, t)"
    and "year_0_to_9999 x" "year_0_to_9999 (w_clock t (w_reads t))"
  shows "fst (findSession d t) = Inr (if w_clock t (w_reads t) < x then Some s else None)
    \<and> (\<forall>u t'. revokeSession d t = (Inr u, t') \<longrightarrow> fst (findSession d t') = Inr None)
    \<and> (\<forall>u t'. revokeSessionsForAccount a t = (Inr u, t') \<longrightarrow> fst (findSession d t') = Inr None)"
proof (intro conjI allI impI)
  note f = createSession_InrD [OF assms(1)]
  let ?now = "to_iso (w_clock t (w_reads t))"
  have "find (live_session d ?now) (sessions (w_db t)) = (if w_clock t (w_reads t) < x
      then Some \<lparr>se_tokenDigest = d, se_accountId = a, se_createdAt = to_iso (w_clock w (w_reads w)),
        se_expiresAt = to_iso x, se_revokedAt = None\<rparr> else None)"
    unfolding f(2) using f(3) iso.text_less [OF assms(3,2)]
    by (auto simp: find_append live_session_def find_None_iff split: option.splits dest!: find_SomeD)
  then show "fst (findSession d t) = Inr (if w_clock t (w_reads t) < x then Some s else None)"
    unfolding findSession_run [OF f(4)] f(1) by (simp add: operational_session.defs)
  fix u t'
  show "fst (findSession d t') = Inr None" if "revokeSession d t = (Inr u, t')"
    using revokeSession_sessions [OF that] unfolding findSession_run [OF f(4)]
    by (auto simp: find_None_iff live_session_def)
  show "fst (findSession d t') = Inr None" if r: "revokeSessionsForAccount a t = (Inr u, t')"
  proof -
    have "se_accountId q = a" if "q \<in> set (sessions (w_db t))" "se_tokenDigest q = d" for q
    proof -
      from that f(2,3) have "q = \<lparr>se_tokenDigest = d, se_accountId = a,
          se_createdAt = to_iso (w_clock w (w_reads w)), se_expiresAt = to_iso x, se_revokedAt = None\<rparr>"
        by auto
      from arg_cong [OF this, of se_accountId] show ?thesis by simp
    qed
    moreover from r obtain ts where "sessions (w_db t') = update_rows
        (\<lambda>r. se_accountId r = a \<and> se_revokedAt r = None) (\<lambda>r. r\<lparr>se_revokedAt := Some ts\<rparr>) (sessions (w_db t))"
      by (fastforce simp: revokeSessionsForAccount_def requireAccount_def findAccount_def run_iffs
          split: option.splits)
    ultimately have "\<forall>q \<in> set (sessions (w_db t')). \<not> live_session d x q" for x
      using revoked_not_live by blast
    then show ?thesis unfolding findSession_run [OF f(4)] by (simp add: find_none)
  qed
qed

definition account_session_world :: world where
  "account_session_world = snd (createSession ''id-0'' ''d1'' (to_iso 1767225603000) registered_world)"

lemma registered_world_facts:
  "w_clock registered_world = w_clock sample_world" "w_reads registered_world = 1"
  "w_maintenance registered_world = False"
  "accounts (w_db registered_world) = [sample_account]" "sessions (w_db registered_world) = []"
  "recovery_tokens (w_db registered_world) = []" "confirmed_products (w_db registered_world) = []"
  by (simp_all add: registered_world_def createAccountWithCredential_def run_defs normalize_sample trims
      insert_account_def insert_credential_def insert_row_def sample_world_def empty_database_def
      dec_one digit_chars account_ids_def sample_account_def)

definition sample_session :: operational_session where
  "sample_session = \<lparr>se_tokenDigest = ''d1'', se_accountId = ''id-0'',
     se_createdAt = to_iso 1767225601000, se_expiresAt = to_iso 1767225603000\<rparr>"

lemma created_session:
  "createSession ''id-0'' ''d1'' (to_iso 1767225603000) registered_world = (Inr sample_session, account_session_world)"
  by (simp add: account_session_world_def createSession_def run_defs trims to_iso_not_blank
      registered_world_facts requireAccount_def findAccount_def insert_session_def insert_row_def
      account_ids_def sample_account_def sample_world_def operational_session.defs sample_session_def)

lemma account_session_world_clock:
  "w_clock account_session_world (w_reads account_session_world) = 1767225602000"
  using createSession_InrD(7,8) [OF created_session]
  by (simp add: registered_world_facts sample_world_def)

theorem session_lifetime_witness:
  "fst (findSession ''d1'' account_session_world) = Inr (Some sample_session)"
  using session_lifetime [OF created_session] account_session_world_clock by (simp add: year_0_to_9999_def)

text \<open>A recovery token can be consumed once: consuming it succeeds only before its expiry and
  while it is unconsumed, and afterwards every attempt with the same digest finds nothing and
  changes no row.\<close>

theorem recovery_token_single_use:
  assumes "consumeRecoveryToken d w = (Inr (Some r), t)"
  shows "(\<exists>q \<in> set (recovery_tokens (w_db w)). rt_tokenDigest q = d \<and> rt_accountId q = rt_accountId r
          \<and> rt_consumedAt q = None \<and> to_iso (w_clock w (w_reads w)) < rt_expiresAt q)
    \<and> (\<exists>u. consumeRecoveryToken d t = (Inr None, u) \<and> w_db u = w_db t)"
proof -
  note f = consumeRecoveryToken_InrD [OF assms]
  have "\<not> w_maintenance t" "trim d \<noteq> []"
    using assms by (auto simp: consumeRecoveryToken_def run_iffs requireNonEmpty_def
        split: option.splits if_splits)
  from consumed_stays_consumed [OF f(2) this] f(1) show ?thesis
    by (auto simp: live_recovery_token_def)
qed


definition recovery_world :: world where
  "recovery_world = snd (issueRecoveryToken ''id-0'' ''d1'' (to_iso 1767225603000) registered_world)"

definition recovered_world :: world where
  "recovered_world = snd (consumeRecoveryToken ''d1'' recovery_world)"

lemma recovery_run:
  "recovery_tokens (w_db recovery_world) = [\<lparr>rt_tokenDigest = ''d1'', rt_accountId = ''id-0'',
     rt_createdAt = to_iso 1767225601000, rt_expiresAt = to_iso 1767225603000, rt_consumedAt = None\<rparr>]"
  "w_maintenance recovery_world = False" "w_clock recovery_world (w_reads recovery_world) = 1767225602000"
  by (simp_all add: recovery_world_def issueRecoveryToken_def run_defs trims to_iso_not_blank
      registered_world_facts requireAccount_def findAccount_def insert_recovery_token_def insert_row_def
      account_ids_def sample_account_def sample_world_def)

lemma recovered:
  "consumeRecoveryToken ''d1'' recovery_world = (Inr (Some \<lparr>rt_tokenDigest = ''d1'', rt_accountId = ''id-0'',
     rt_createdAt = to_iso 1767225601000, rt_expiresAt = to_iso 1767225603000,
     rt_consumedAt = Some (to_iso 1767225602000)\<rparr>), recovered_world)"
proof -
  have "to_iso 1767225602000 < to_iso 1767225603000" by (rule to_iso_less) (simp_all add: year_0_to_9999_def)
  then show ?thesis
    by (simp add: recovered_world_def consumeRecoveryToken_def run_defs trims recovery_run
        live_recovery_token_def)
qed

theorem recovery_token_single_use_witness:
  "\<exists>u. consumeRecoveryToken ''d1'' recovered_world = (Inr None, u) \<and> w_db u = w_db recovered_world"
  using recovery_token_single_use [OF recovered] by blast

text \<open>Deleting an account removes its account row and every row that belongs to it, down to the
  alerts, deliveries and leases of its watches, keeps every row of the other accounts, and leaves
  the deletion in the audit log.\<close>

theorem account_deletion_is_complete:
  assumes "deleteAccount a w = (Inr ev, t)" "database_ok (w_db w)"
  shows "(let d = w_db w; d' = w_db t in
      a \<notin> account_ids d' \<and> database_ok d'
    \<and> credentials d' = filter (\<lambda>r. cr_accountId r \<noteq> a) (credentials d)
    \<and> sessions d' = filter (\<lambda>r. se_accountId r \<noteq> a) (sessions d)
    \<and> recovery_tokens d' = filter (\<lambda>r. rt_accountId r \<noteq> a) (recovery_tokens d)
    \<and> confirmed_products d' = filter (\<lambda>r. cp_accountId r \<noteq> a) (confirmed_products d)
    \<and> consents d' = filter (\<lambda>r. dc_accountId r \<noteq> a) (consents d)
    \<and> suppressions d' = filter (\<lambda>r. sp_accountId r \<noteq> a) (suppressions d)
    \<and> watches d' = filter (\<lambda>r. wr_accountId r \<noteq> a) (watches d)
    \<and> (\<forall>r \<in> set (alert_events d'). ae_accountId r \<noteq> a)
    \<and> account_ids d' = account_ids d - {a}
    \<and> audit_events d' = audit_events d @ [ev] \<and> au_accountId ev = Some a)"
proof -
  note f = deleteAccount_InrD [OF assms(1)]
  have "database_ok (w_db t)"
    using keepsD [OF account_operations_keep(17) _ assms(1)] assms(2) by simp
  moreover have "\<forall>r \<in> set (alert_events (w_db t)). ae_accountId r \<noteq> a"
    unfolding f(1) by (auto simp: delete_account_row_def Let_def dest: delete_events_gone)
  moreover have "account_ids (w_db t) = account_ids (w_db w) - {a}"
    unfolding f(1) by (auto simp: delete_account_row_def Let_def account_ids_def)
  moreover have "credentials (w_db t) = filter (\<lambda>r. cr_accountId r \<noteq> a) (credentials (w_db w))"
    "sessions (w_db t) = filter (\<lambda>r. se_accountId r \<noteq> a) (sessions (w_db w))"
    "recovery_tokens (w_db t) = filter (\<lambda>r. rt_accountId r \<noteq> a) (recovery_tokens (w_db w))"
    "confirmed_products (w_db t) = filter (\<lambda>r. cp_accountId r \<noteq> a) (confirmed_products (w_db w))"
    "consents (w_db t) = filter (\<lambda>r. dc_accountId r \<noteq> a) (consents (w_db w))"
    "suppressions (w_db t) = filter (\<lambda>r. sp_accountId r \<noteq> a) (suppressions (w_db w))"
    "watches (w_db t) = filter (\<lambda>r. wr_accountId r \<noteq> a) (watches (w_db w))"
    "audit_events (w_db t) = audit_events (w_db w) @ [ev]"
    by (simp_all add: f(1) delete_account_row_def Let_def delete_rows_def)
  ultimately show ?thesis using f(2) unfolding Let_def by simp
qed

definition deleted_world :: world where
  "deleted_world = snd (deleteAccount ''id-0'' registered_world)"

lemma registered_ok: "database_ok (w_db registered_world)"
proof -
  have "database_ok (w_db sample_world)" using database_ok_empty by (simp add: sample_world_def)
  then show ?thesis using keepsD [OF account_operations_keep(2) _ registered] by simp
qed

lemma deleted: "\<exists>ev. deleteAccount ''id-0'' registered_world = (Inr ev, deleted_world)"
proof -
  have "audit_events (w_db registered_world) = []"
    by (simp add: registered_world_def createAccountWithCredential_def run_defs normalize_sample trims
        insert_account_def insert_credential_def insert_row_def sample_world_def empty_database_def
        dec_one digit_chars account_ids_def)
  then show ?thesis
    by (simp add: deleted_world_def deleteAccount_def run_defs trims registered_world_facts
        requireAccount_def findAccount_def sample_account_def insert_audit_event_def insert_row_def
        delete_account_row_def)
qed

theorem account_deletion_is_complete_witness: "''id-0'' \<notin> account_ids (w_db deleted_world)"
  using deleted account_deletion_is_complete [OF _ registered_ok] by (auto simp: Let_def)

text \<open>Confirming a portfolio replaces it: whatever was confirmed before, afterwards the account's
  products are exactly the given ones, each once, listed by revision and code, and no other
  account's products change (for revisions without a bar, which separates the parts of the key).\<close>

theorem portfolio_is_replaced:
  assumes "confirmPortfolio a ps w = (Inr rs, t)" "\<forall>p \<in> set ps. CHR ''|'' \<notin> set (pf_hsRevision p)"
  shows "set (map cp_product rs) = set ps \<and> distinct (map cp_product rs)
    \<and> sorted (map (\<lambda>r. (pf_hsRevision (cp_product r), pf_code (cp_product r))) rs)
    \<and> listConfirmedProducts a t = (Inr rs, t)
    \<and> filter (\<lambda>r. cp_accountId r \<noteq> a) (confirmed_products (w_db t))
      = filter (\<lambda>r. cp_accountId r \<noteq> a) (confirmed_products (w_db w))"
proof -
  obtain qs ts where d: "dedupeProducts ps = Inr qs"
    and t: "confirmed_products (w_db t) = delete_rows (\<lambda>r. cp_accountId r = a) (confirmed_products (w_db w)) @
      map (\<lambda>p. \<lparr>cp_accountId = a, cp_product = p, cp_confirmedAt = ts\<rparr>) qs"
    and rs: "rs = sort_key (\<lambda>r. (pf_hsRevision (cp_product r), pf_code (cp_product r)))
      (map (\<lambda>p. \<lparr>cp_accountId = a, cp_product = p, cp_confirmedAt = ts\<rparr>) qs)"
    using confirmPortfolio_InrD [OF assms(1)] by blast
  note q = dedupeProducts_InrD [OF d]
  have "set qs = set ps"
  proof
    show "set qs \<subseteq> set ps" by (rule q(4))
    show "set ps \<subseteq> set qs"
    proof
      fix p assume p: "p \<in> set ps"
      then obtain p' where p': "p' \<in> set qs" "product_key p = product_key p'" using q(3) by force
      with q(4) assms(2) p have "p = p'" by (subst (asm) product_key_inject) auto
      with p' show "p \<in> set qs" by simp
    qed
  qed
  moreover have "set (map cp_product rs) = set qs" by (simp add: rs image_image)
  moreover have "mset (map cp_product rs) = mset qs"
    by (simp add: rs multiset.map_comp comp_def)
  note same = this
  have "distinct qs" using q(1) by (simp add: distinct_map)
  with mset_eq_imp_distinct_iff [OF same] have "distinct (map cp_product rs)" by (rule iffD2)
  moreover have "sorted (map (\<lambda>r. (pf_hsRevision (cp_product r), pf_code (cp_product r))) rs)"
    unfolding rs by (rule sorted_sort_key)
  moreover have mine: "filter (\<lambda>r. cp_accountId r = a) (confirmed_products (w_db t)) =
      map (\<lambda>p. \<lparr>cp_accountId = a, cp_product = p, cp_confirmedAt = ts\<rparr>) qs"
    unfolding t by (simp add: delete_rows_def filter_empty_conv comp_def)
  then have "listConfirmedProducts a t = (Inr rs, t)"
    by (simp only: listConfirmedProducts_def query_def rs)
  moreover have "filter (\<lambda>r. cp_accountId r \<noteq> a) (confirmed_products (w_db t))
      = filter (\<lambda>r. cp_accountId r \<noteq> a) (confirmed_products (w_db w))"
    unfolding t by (simp add: delete_rows_def filter_empty_conv)
  ultimately show ?thesis using \<open>set qs = set ps\<close> by simp
qed

definition product_a :: product_ref where
  "product_a = \<lparr>pf_hsRevision = ''HS12'', pf_code = ''080440''\<rparr>"

lemma portfolio_run: "\<exists>rs t. confirmPortfolio ''id-0'' [product_a, product_a] registered_world = (Inr rs, t)"
proof -
  have "dedupeProducts [product_a, product_a] = Inr [product_a]" by code_simp
  then show ?thesis
    by (simp add: confirmPortfolio_def run_defs registered_world_facts requireAccount_def findAccount_def
        sample_account_def delete_rows_def insert_products_def insert_confirmed_product_def
        insert_row_def account_ids_def listConfirmedProducts_def)
qed

theorem portfolio_is_replaced_witness:
  "\<exists>rs t. confirmPortfolio ''id-0'' [product_a, product_a] registered_world = (Inr rs, t)
     \<and> map cp_product rs = [product_a]"
proof -
  obtain rs t where r: "confirmPortfolio ''id-0'' [product_a, product_a] registered_world = (Inr rs, t)"
    using portfolio_run by blast
  from portfolio_is_replaced [OF r] have "set (map cp_product rs) = {product_a}" "distinct (map cp_product rs)"
    by (auto simp: product_a_def)
  then have "map cp_product rs = [product_a]"
    by (cases "map cp_product rs"; cases "tl (map cp_product rs)") auto
  with r show ?thesis by (intro exI conjI)
qed

text \<open>Why the condition on the bar is needed: the key does not separate these two products.\<close>

lemma portfolio_key_collision:
  "dedupeProducts [\<lparr>pf_hsRevision = ''A|B'', pf_code = ''C''\<rparr>, \<lparr>pf_hsRevision = ''A'', pf_code = ''B|C''\<rparr>]
     = Inr [\<lparr>pf_hsRevision = ''A'', pf_code = ''B|C''\<rparr>]"
  by code_simp

end
