(* ===== verification/Store_Consents.thy ===== *)
theory Store_Consents
  imports Store_Accounts
begin

text \<open>
  Delivery consent and suppression of \<^verbatim>\<open>SqliteOperationalStore\<close>: a target has to be requested,
  verified with its token and not unsubscribed; bounces, complaints and unsubscriptions suppress it.
\<close>

definition findDeliveryConsent :: "string \<Rightarrow> string \<Rightarrow> string \<Rightarrow> delivery_consent option store_op" where
  "findDeliveryConsent accountId0 channel0 target0 =
     andThen (check (requireNonEmpty accountId0 ''accountId'')) (\<lambda>accountId.
     andThen (check (normalizeDeliveryChannel channel0)) (\<lambda>channel.
     andThen (check (normalizeDeliveryTarget target0)) (\<lambda>target.
     query (\<lambda>db. find (\<lambda>r. dc_accountId r = accountId \<and> dc_channel r = channel \<and> dc_target r = target)
       (consents db)))))"

text \<open>An empty token is replaced by a fresh one, like an absent one.\<close>

definition given_or_random :: "string option \<Rightarrow> string \<Rightarrow> string store_op" where
  "given_or_random token field =
     (case token of
        None \<Rightarrow> randomUUID
      | Some t \<Rightarrow> if t = [] then randomUUID else check (requireNonEmpty t field))"

definition requestDeliveryConsent ::
  "string \<Rightarrow> string \<Rightarrow> string \<Rightarrow> string option \<Rightarrow> string option \<Rightarrow> delivery_consent store_op" where
  "requestDeliveryConsent accountId0 channel0 target0 verificationToken0 unsubscribeToken0 =
     andThen assertWritable (\<lambda>_.
     andThen (check (requireNonEmpty accountId0 ''accountId'')) (\<lambda>accountId.
     andThen (check (normalizeDeliveryChannel channel0)) (\<lambda>channel.
     andThen (check (normalizeDeliveryTarget target0)) (\<lambda>target.
     andThen (given_or_random verificationToken0 ''verificationToken'') (\<lambda>verificationToken.
     andThen (given_or_random unsubscribeToken0 ''unsubscribeToken'') (\<lambda>unsubscribeToken.
     andThen now_iso (\<lambda>ts.
     let r = \<lparr>dc_accountId = accountId, dc_channel = channel, dc_target = target, dc_consentedAt = ts,
              dc_verifiedAt = None, dc_unsubscribedAt = None, dc_verificationToken = verificationToken,
              dc_unsubscribeToken = unsubscribeToken, dc_createdAt = ts, dc_updatedAt = ts\<rparr>
     in andThen (transaction (andThen (requireAccount accountId) (\<lambda>_. try_execute (upsert_consent r)))) (\<lambda>_.
        andThen (findDeliveryConsent accountId channel target) (\<lambda>found. ret (the found))))))))))"

definition verifyDeliveryConsent ::
  "string \<Rightarrow> string \<Rightarrow> string \<Rightarrow> string \<Rightarrow> delivery_consent option store_op" where
  "verifyDeliveryConsent accountId0 channel0 target0 verificationToken0 =
     andThen assertWritable (\<lambda>_.
     andThen (check (requireNonEmpty accountId0 ''accountId'')) (\<lambda>accountId.
     andThen (check (normalizeDeliveryChannel channel0)) (\<lambda>channel.
     andThen (check (normalizeDeliveryTarget target0)) (\<lambda>target.
     andThen (check (requireNonEmpty verificationToken0 ''verificationToken'')) (\<lambda>verificationToken.
     andThen now_iso (\<lambda>ts.
     let P = (\<lambda>r. dc_accountId r = accountId \<and> dc_channel r = channel \<and> dc_target r = target
                  \<and> dc_verificationToken r = verificationToken \<and> dc_unsubscribedAt r = None)
     in andThen (query (\<lambda>db. changes P (consents db))) (\<lambda>n.
        andThen (execute (\<lambda>db. db\<lparr>consents := update_rows P
          (\<lambda>r. r\<lparr>dc_verifiedAt := coalesce (dc_verifiedAt r) (Some ts), dc_updatedAt := ts\<rparr>)
          (consents db)\<rparr>)) (\<lambda>_.
        if n = 0 then ret None else findDeliveryConsent accountId channel target))))))))"

definition unsubscribeDeliveryTarget :: "string \<Rightarrow> delivery_consent option store_op" where
  "unsubscribeDeliveryTarget unsubscribeToken0 =
     andThen assertWritable (\<lambda>_.
     andThen (check (requireNonEmpty unsubscribeToken0 ''unsubscribeToken'')) (\<lambda>token.
     andThen now_iso (\<lambda>ts.
     andThen (transaction (
       andThen (query (\<lambda>db. find (\<lambda>r. dc_unsubscribeToken r = token) (consents db))) (\<lambda>consent.
       case consent of
         None \<Rightarrow> ret None
       | Some c \<Rightarrow>
           andThen (execute (\<lambda>db. db\<lparr>consents := update_rows (\<lambda>r. dc_unsubscribeToken r = token)
             (\<lambda>r. r\<lparr>dc_unsubscribedAt := coalesce (dc_unsubscribedAt r) (Some ts), dc_updatedAt := ts\<rparr>)
             (consents db)\<rparr>)) (\<lambda>_.
           andThen (try_execute (insert_suppression_once
             \<lparr>sp_accountId = dc_accountId c, sp_channel = dc_channel c, sp_target = dc_target c,
              sp_reason = REASON_UNSUBSCRIBE, sp_providerReceipt = None, sp_createdAt = ts\<rparr>)) (\<lambda>_.
           ret (Some c)))))) (\<lambda>consent.
     case consent of
       None \<Rightarrow> ret None
     | Some c \<Rightarrow> findDeliveryConsent (dc_accountId c) (dc_channel c) (dc_target c)))))"

text \<open>\<^verbatim>\<open>ORDER BY CASE reason ... END, created_at, reason LIMIT 1\<close>.\<close>

definition reason_rank :: "suppression_reason \<Rightarrow> nat" where
  "reason_rank r = (case r of REASON_BOUNCE \<Rightarrow> 1 | REASON_COMPLAINT \<Rightarrow> 2 | REASON_UNSUBSCRIBE \<Rightarrow> 3)"

definition first_row :: "('r \<Rightarrow> 'k :: linorder) \<Rightarrow> 'r list \<Rightarrow> 'r option" where
  "first_row key rows = (case sort_key key rows of [] \<Rightarrow> None | r # _ \<Rightarrow> Some r)"

definition getDeliverySuppression :: "string \<Rightarrow> string \<Rightarrow> string \<Rightarrow> delivery_suppression option store_op" where
  "getDeliverySuppression accountId0 channel0 target0 =
     andThen (check (requireNonEmpty accountId0 ''accountId'')) (\<lambda>accountId.
     andThen (check (normalizeDeliveryChannel channel0)) (\<lambda>channel.
     andThen (check (normalizeDeliveryTarget target0)) (\<lambda>target.
     query (\<lambda>db. first_row (\<lambda>r. (reason_rank (sp_reason r), sp_createdAt r))
       (filter (\<lambda>r. sp_accountId r = accountId \<and> sp_channel r = channel \<and> sp_target r = target)
         (suppressions db))))))"

definition recordDeliverySuppression ::
  "string \<Rightarrow> string \<Rightarrow> string \<Rightarrow> suppression_reason \<Rightarrow> string option \<Rightarrow> delivery_suppression store_op" where
  "recordDeliverySuppression accountId0 channel0 target0 reason providerReceipt =
     andThen assertWritable (\<lambda>_.
     andThen (check (requireNonEmpty accountId0 ''accountId'')) (\<lambda>accountId.
     andThen (check (normalizeDeliveryChannel channel0)) (\<lambda>channel.
     andThen (check (normalizeDeliveryTarget target0)) (\<lambda>target.
     andThen now_iso (\<lambda>ts.
     let r = \<lparr>sp_accountId = accountId, sp_channel = channel, sp_target = target, sp_reason = reason,
              sp_providerReceipt = providerReceipt, sp_createdAt = ts\<rparr>
     in andThen (transaction (andThen (requireAccount accountId) (\<lambda>_. try_execute (upsert_suppression r)))) (\<lambda>_.
        andThen (getDeliverySuppression accountId channel target) (\<lambda>found. ret (the found))))))))"

subsection \<open>Constraints and atomicity\<close>

lemma keeps_given_or_random [keeps_intros]: "keeps consistent (given_or_random t f)"
  unfolding given_or_random_def by (intro keeps_intros)

lemma consent_operations_keep [keeps_intros]:
  "keeps consistent (findDeliveryConsent a c t)"
  "keeps consistent (requestDeliveryConsent a c t v u)"
  "keeps consistent (verifyDeliveryConsent a c t v2)"
  "keeps consistent (unsubscribeDeliveryTarget u2)"
  "keeps consistent (getDeliverySuppression a c t)"
  "keeps consistent (recordDeliverySuppression a c t r p)"
proof -
  show f: "keeps consistent (findDeliveryConsent a c t)" for a c t
    unfolding findDeliveryConsent_def by (intro keeps_intros)
  show g: "keeps consistent (getDeliverySuppression a c t)" for a c t
    unfolding getDeliverySuppression_def by (intro keeps_intros)
  show "keeps consistent (requestDeliveryConsent a c t v u)"
    unfolding requestDeliveryConsent_def
    by (intro keeps_intros keeps_statement f) (rule upsert_consent_ok)
  show "keeps consistent (verifyDeliveryConsent a c t v2)"
    unfolding verifyDeliveryConsent_def
    by (intro keeps_intros keeps_statement f) (auto intro: update_consents_ok)
  show "keeps consistent (unsubscribeDeliveryTarget u2)"
    unfolding unsubscribeDeliveryTarget_def
    by (intro keeps_intros keeps_statement f)
       (auto intro: update_consents_ok insert_suppression_once_ok)
  show "keeps consistent (recordDeliverySuppression a c t r p)"
    unfolding recordDeliverySuppression_def
    by (intro keeps_intros keeps_statement g) (rule upsert_suppression_ok)
qed


lemma normalizeDelivery_Inr_iff:
  "normalizeDeliveryChannel c = Inr n \<longleftrightarrow> trim c \<noteq> [] \<and> n = to_lower (trim c)"
  "normalizeDeliveryTarget c = Inr n \<longleftrightarrow> trim c \<noteq> [] \<and> n = to_lower (trim c)"
  by (auto simp: normalizeDeliveryChannel_def normalizeDeliveryTarget_def requireNonEmpty_def)

lemma to_lower_Nil [simp]: "to_lower s = [] \<longleftrightarrow> s = []"
  by (simp add: to_lower_def)

lemma normal_again:
  "trim c \<noteq> [] \<Longrightarrow> normalizeDeliveryChannel (to_lower (trim c)) = Inr (to_lower (trim c))"
  "trim c \<noteq> [] \<Longrightarrow> normalizeDeliveryTarget (to_lower (trim c)) = Inr (to_lower (trim c))"
  by (simp_all add: normalizeDelivery_Inr_iff trim_to_lower)

text \<open>Stored targets are normalised: an invariant of the consent table.\<close>

definition normal_consent :: "delivery_consent \<Rightarrow> bool" where
  "normal_consent r \<longleftrightarrow> trim (dc_accountId r) \<noteq> [] \<and> normalizeDeliveryChannel (dc_channel r) = Inr (dc_channel r)
     \<and> normalizeDeliveryTarget (dc_target r) = Inr (dc_target r)"

definition consents_normal :: "database \<Rightarrow> bool" where
  "consents_normal db \<longleftrightarrow> (\<forall>r \<in> set (consents db). normal_consent r)"

definition consent_key :: "string \<Rightarrow> string \<Rightarrow> string \<Rightarrow> delivery_consent \<Rightarrow> bool" where
  "consent_key a c t r \<longleftrightarrow> dc_accountId r = a \<and> dc_channel r = c \<and> dc_target r = t"

lemma findDeliveryConsent_run:
  assumes "trim a \<noteq> []" "normalizeDeliveryChannel c = Inr c'" "normalizeDeliveryTarget t = Inr t'"
  shows "findDeliveryConsent a c t w = (Inr (find (consent_key a c' t') (consents (w_db w))), w)"
  using assms by (simp add: findDeliveryConsent_def run_defs consent_key_def [abs_def])

lemma findDeliveryConsent_Inr_iff:
  "findDeliveryConsent a c t w = (Inr q, w') \<longleftrightarrow> trim a \<noteq> [] \<and> w' = w
     \<and> (\<exists>c' t'. normalizeDeliveryChannel c = Inr c' \<and> normalizeDeliveryTarget t = Inr t'
          \<and> q = find (consent_key a c' t') (consents (w_db w)))"
  by (auto simp: findDeliveryConsent_def run_iffs requireNonEmpty_def consent_key_def [abs_def])

lemma given_or_random_Inr:
  "given_or_random x f w = (Inr s, w') \<Longrightarrow> w_db w' = w_db w \<and> w_maintenance w' = w_maintenance w"
  by (auto simp: given_or_random_def run_iffs requireNonEmpty_def split: option.splits if_splits)

lemma requireAccount_Inr: "requireAccount a w = (Inr s, w') \<longleftrightarrow> a \<in> account_ids (w_db w) \<and> w' = w"
  by (auto simp: requireAccount_def findAccount_def run_iffs find_None_iff account_ids_def
      split: option.splits dest!: find_SomeD)

lemma getDeliverySuppression_run:
  assumes "trim a \<noteq> []" "normalizeDeliveryChannel c = Inr c'" "normalizeDeliveryTarget t = Inr t'"
  shows "getDeliverySuppression a c t w = (Inr (first_row (\<lambda>r. (reason_rank (sp_reason r), sp_createdAt r))
       (filter (\<lambda>r. sp_accountId r = a \<and> sp_channel r = c' \<and> sp_target r = t') (suppressions (w_db w)))), w)"
  using assms by (simp add: getDeliverySuppression_def run_defs)

lemma first_row_None [simp]: "first_row k rows = None \<longleftrightarrow> rows = []"
proof -
  have "sort_key k rows = [] \<longleftrightarrow> rows = []" by (metis length_0_conv length_sort)
  then show ?thesis by (cases "sort_key k rows") (auto simp: first_row_def)
qed

lemma keep_key: "consent_target r = consent_key (dc_accountId r) (dc_channel r) (dc_target r)"
  by (intro ext) (simp only: consent_target_def consent_key_def eq_commute)

text \<open>After an upsert the row is found under its target.\<close>

lemma upsert_update_find:
  assumes "upsert_update target clash c r f rows = Inr rows'" "target r r" "\<And>s. target r (f s) = target r s"
  shows "find (target r) rows' = Some (case find (target r) rows of None \<Rightarrow> r | Some s \<Rightarrow> f s)"
proof (cases "find (target r) rows")
  case None
  with assms(1) have "rows' = rows @ [r]"
    by (auto simp: upsert_update_def insert_row_def split: if_splits)
  with None assms(2) show ?thesis by (simp add: find_append)
next
  case (Some s)
  with assms(1) have "rows' = update_rows (target r) f rows" by (auto simp: upsert_update_def split: if_splits)
  with Some find_SomeD [OF Some] find_update_rows [where P = "target r" and f = f, OF assms(3)]
  show ?thesis by simp
qed

lemma requestDeliveryConsent_InrD:
  assumes "requestDeliveryConsent a c t v u w = (Inr k, w1)"
  obtains c' t' where "normalizeDeliveryChannel c = Inr c'" "normalizeDeliveryTarget t = Inr t'" "trim a \<noteq> []"
    "find (consent_key a c' t') (consents (w_db w1)) = Some k" "dc_verifiedAt k = None"
    "dc_unsubscribedAt k = None" "\<not> w_maintenance w1"
proof -
  from assms obtain c' t' vt ut ts c2 t2 where p: "trim a \<noteq> []" "normalizeDeliveryChannel c = Inr c'"
      "normalizeDeliveryTarget t = Inr t'" "\<not> w_maintenance w1"
    and u: "upsert_consent \<lparr>dc_accountId = a, dc_channel = c', dc_target = t', dc_consentedAt = ts,
              dc_verifiedAt = None, dc_unsubscribedAt = None, dc_verificationToken = vt,
              dc_unsubscribeToken = ut, dc_createdAt = ts, dc_updatedAt = ts\<rparr> (w_db w) = Inr (w_db w1)"
    and n: "normalizeDeliveryChannel c' = Inr c2" "normalizeDeliveryTarget t' = Inr t2"
    and k: "k = the (find (consent_key a c2 t2) (consents (w_db w1)))"
    by (fastforce simp: requestDeliveryConsent_def run_iffs Let_def requireNonEmpty_def requireAccount_Inr
        findDeliveryConsent_Inr_iff split: if_splits dest!: given_or_random_Inr)
  have "c2 = c'" "t2 = t'"
    using p n by (simp_all add: normalizeDelivery_Inr_iff trim_to_lower)
  define r where "r = \<lparr>dc_accountId = a, dc_channel = c', dc_target = t', dc_consentedAt = ts,
              dc_verifiedAt = None, dc_unsubscribedAt = None, dc_verificationToken = vt,
              dc_unsubscribeToken = ut, dc_createdAt = ts, dc_updatedAt = ts\<rparr>"
  from u obtain rows where "consents (w_db w1) = rows" and
    up: "upsert_update consent_target consent_clash ''operational_delivery_consent.verification_token'' r
              (\<lambda>s. s\<lparr>dc_consentedAt := ts, dc_verifiedAt := None, dc_unsubscribedAt := None,
                     dc_verificationToken := vt, dc_unsubscribeToken := ut, dc_updatedAt := ts\<rparr>)
              (consents (w_db w)) = Inr rows"
    unfolding r_def by (auto simp: upsert_consent_def ebind_Inr_iff)
  moreover have "consent_target r = consent_key a c' t'" unfolding keep_key by (simp add: r_def)
  ultimately have "find (consent_key a c' t') (consents (w_db w1)) = Some
      (case find (consent_key a c' t') (consents (w_db w)) of None \<Rightarrow> r
       | Some s \<Rightarrow> s\<lparr>dc_consentedAt := ts, dc_verifiedAt := None, dc_unsubscribedAt := None,
                     dc_verificationToken := vt, dc_unsubscribeToken := ut, dc_updatedAt := ts\<rparr>)"
    using upsert_update_find [OF up] by (simp add: consent_key_def r_def)
  with p k show thesis
    by (intro that [of c' t']) (auto simp: r_def \<open>c2 = c'\<close> \<open>t2 = t'\<close> split: option.splits)
qed

lemma consent_row_unique:
  assumes "database_ok db" "find (consent_key a c t) (consents db) = Some k"
    "r \<in> set (consents db)" "consent_key a c t r"
  shows "r = k"
proof -
  have "k \<in> set (consents db)" "consent_key a c t k" using find_SomeD [OF assms(2)] by simp_all
  moreover have "consent_clash r k"
    using assms(4) \<open>consent_key a c t k\<close> by (simp add: clash_defs consent_key_def)
  ultimately show ?thesis
    using consent_table.no_clash_unique [OF database_ok_tables(6) [OF assms(1)] assms(3)] by blast
qed

lemma verifyDeliveryConsent_run:
  assumes "\<not> w_maintenance w" "trim a \<noteq> []" "normalizeDeliveryChannel c = Inr c'"
    "normalizeDeliveryTarget t = Inr t'" "trim v \<noteq> []" "database_ok (w_db w)"
    "find (consent_key a c' t') (consents (w_db w)) = Some k"
  shows "\<exists>w2. verifyDeliveryConsent a c t v w =
      (Inr (if dc_verificationToken k = v \<and> dc_unsubscribedAt k = None
            then Some (k\<lparr>dc_verifiedAt := coalesce (dc_verifiedAt k) (Some (to_iso (w_clock w (w_reads w)))),
                         dc_updatedAt := to_iso (w_clock w (w_reads w))\<rparr>)
            else None), w2)
    \<and> (\<not> (dc_verificationToken k = v \<and> dc_unsubscribedAt k = None) \<longrightarrow> w_db w2 = w_db w)"
proof -
  let ?ts = "to_iso (w_clock w (w_reads w))"
  let ?P = "\<lambda>r. dc_accountId r = a \<and> dc_channel r = c' \<and> dc_target r = t' \<and> dc_verificationToken r = v
              \<and> dc_unsubscribedAt r = None"
  let ?f = "\<lambda>r. r\<lparr>dc_verifiedAt := coalesce (dc_verifiedAt r) (Some ?ts), dc_updatedAt := ?ts\<rparr>"
  have k: "k \<in> set (consents (w_db w))" "consent_key a c' t' k" using find_SomeD [OF assms(7)] by simp_all
  have P: "?P r \<longleftrightarrow> r = k \<and> dc_verificationToken k = v \<and> dc_unsubscribedAt k = None"
    if "r \<in> set (consents (w_db w))" for r
    using consent_row_unique [OF assms(6,7) that] k(2) by (auto simp: consent_key_def)
  have n: "normalizeDeliveryChannel c' = Inr c'" "normalizeDeliveryTarget t' = Inr t'"
    using assms(3,4) by (auto simp: normalizeDelivery_Inr_iff trim_to_lower)
  have up: "find (consent_key a c' t') (update_rows ?P ?f (consents (w_db w))) = Some (if ?P k then ?f k else k)"
    using find_update_rows [where P = "consent_key a c' t'" and f = ?f and Q = ?P and rows = "consents (w_db w)"]
      assms(7) by (simp add: consent_key_def)
  show ?thesis
  proof (cases "dc_verificationToken k = v \<and> dc_unsubscribedAt k = None")
    case True
    then have "changes ?P (consents (w_db w)) \<noteq> 0" using P [OF k(1)] k(1)
      by (auto simp: changes_def filter_empty_conv)
    with True assms(1-5) up n P [OF k(1)] show ?thesis
      by (simp add: verifyDeliveryConsent_def run_defs findDeliveryConsent_run)
  next
    case False
    then have "filter ?P (consents (w_db w)) = []" using P by (auto simp: filter_empty_conv)
    with False assms(1-5) show ?thesis
      by (simp add: verifyDeliveryConsent_def run_defs changes_def update_rows_none)
  qed
qed

lemma unsubscribeDeliveryTarget_InrD:
  assumes "unsubscribeDeliveryTarget u w = (Inr (Some k), t)" "database_ok (w_db w)" "consents_normal (w_db w)"
  shows "find (consent_key (dc_accountId k) (dc_channel k) (dc_target k)) (consents (w_db t)) = Some k"
    and "dc_unsubscribedAt k \<noteq> None" "normal_consent k" "\<not> w_maintenance t"
    and "\<exists>s \<in> set (suppressions (w_db t)). sp_accountId s = dc_accountId k \<and> sp_channel s = dc_channel k
           \<and> sp_target s = dc_target k \<and> sp_reason s = REASON_UNSUBSCRIBE"
proof -
  let ?P = "\<lambda>r. dc_unsubscribeToken r = u"
  let ?ts = "to_iso (w_clock w (w_reads w))"
  let ?f = "\<lambda>r. r\<lparr>dc_unsubscribedAt := coalesce (dc_unsubscribedAt r) (Some ?ts), dc_updatedAt := ?ts\<rparr>"
  let ?s = "\<lambda>c. \<lparr>sp_accountId = dc_accountId c, sp_channel = dc_channel c, sp_target = dc_target c,
              sp_reason = REASON_UNSUBSCRIBE, sp_providerReceipt = None, sp_createdAt = ?ts\<rparr>"
  from assms(1) obtain c c' t' where c: "find ?P (consents (w_db w)) = Some c" and "\<not> w_maintenance t"
    and ins: "insert_suppression_once (?s c) ((w_db w)\<lparr>consents := update_rows ?P ?f (consents (w_db w))\<rparr>) = Inr (w_db t)"
    and n: "normalizeDeliveryChannel (dc_channel c) = Inr c'" "normalizeDeliveryTarget (dc_target c) = Inr t'"
    and k: "find (consent_key (dc_accountId c) c' t') (consents (w_db t)) = Some k"
    by (auto simp: unsubscribeDeliveryTarget_def run_iffs requireNonEmpty_def findDeliveryConsent_Inr_iff
        split: if_splits option.splits)
  have cin: "c \<in> set (consents (w_db w))" "dc_unsubscribeToken c = u" using find_SomeD [OF c] by simp_all
  with assms(3) have nc: "normal_consent c" by (simp add: consents_normal_def)
  with n have eq: "c' = dc_channel c" "t' = dc_target c" by (simp_all add: normal_consent_def)
  have cs: "consents (w_db t) = update_rows ?P ?f (consents (w_db w))"
    using ins by (auto simp: insert_suppression_once_def ebind_Inr_iff)
  have fc: "find (consent_key (dc_accountId c) (dc_channel c) (dc_target c)) (consents (w_db w)) = Some c"
    using consent_table.find_target_unique [OF database_ok_tables(6) [OF assms(2)] cin(1), of c]
    by (simp add: keep_key consent_key_def)
  have kc: "k = ?f c"
    using k fc cin find_update_rows [where P = "consent_key (dc_accountId c) (dc_channel c) (dc_target c)"
        and f = ?f and Q = ?P and rows = "consents (w_db w)"]
    by (simp add: cs eq consent_key_def)
  then show "find (consent_key (dc_accountId k) (dc_channel k) (dc_target k)) (consents (w_db t)) = Some k"
    using k eq by simp
  show "dc_unsubscribedAt k \<noteq> None" using kc by (simp add: coalesce_def split: option.splits)
  show "normal_consent k" using nc kc by (simp add: normal_consent_def)
  show "\<not> w_maintenance t" by fact
  from ins obtain rows where up: "upsert_nothing suppression_clash suppression_clash
      ''operational_delivery_suppression'' (?s c) (suppressions (w_db w)) = Inr rows"
    and "suppressions (w_db t) = rows"
    by (auto simp: insert_suppression_once_def ebind_Inr_iff)
  moreover have "\<exists>s \<in> set rows. suppression_clash (?s c) s"
    using up by (auto simp: upsert_nothing_def insert_row_def list_ex_iff suppression_clash_def split: if_splits)
  ultimately show "\<exists>s \<in> set (suppressions (w_db t)). sp_accountId s = dc_accountId k \<and> sp_channel s = dc_channel k
           \<and> sp_target s = dc_target k \<and> sp_reason s = REASON_UNSUBSCRIBE"
    using kc by (auto simp: suppression_clash_def)
qed

subsection \<open>Properties\<close>

text \<open>C25: a requested delivery consent is not verified; only its own verification token verifies it,
  every other token is answered with nothing and changes no row.\<close>

theorem delivery_consent_needs_its_token:
  assumes "requestDeliveryConsent a c t v0 u0 w = (Inr k, w1)" "database_ok (w_db w)" "trim v \<noteq> []"
  shows "dc_verifiedAt k = None
    \<and> (\<exists>w2. verifyDeliveryConsent a c t v w1 =
        (Inr (if v = dc_verificationToken k
              then Some (k\<lparr>dc_verifiedAt := Some (to_iso (w_clock w1 (w_reads w1))),
                           dc_updatedAt := to_iso (w_clock w1 (w_reads w1))\<rparr>) else None), w2)
       \<and> (v \<noteq> dc_verificationToken k \<longrightarrow> w_db w2 = w_db w1))"
proof -
  have ok: "database_ok (w_db w1)" using keepsD [OF consent_operations_keep(2) _ assms(1)] assms(2) by simp
  obtain c' t' where p: "normalizeDeliveryChannel c = Inr c'" "normalizeDeliveryTarget t = Inr t'" "trim a \<noteq> []"
    "find (consent_key a c' t') (consents (w_db w1)) = Some k" "dc_verifiedAt k = None"
    "dc_unsubscribedAt k = None" "\<not> w_maintenance w1"
    using requestDeliveryConsent_InrD [OF assms(1)] .
  from verifyDeliveryConsent_run [OF p(7,3,1,2) assms(3) ok p(4)] p(5,6) show ?thesis
    by (auto simp: coalesce_def)
qed

text \<open>After a target is unsubscribed it is marked so, it is suppressed, and no verification token
  brings the consent back.\<close>

theorem unsubscribed_target_stays_silent:
  assumes "unsubscribeDeliveryTarget u w = (Inr (Some k), t)" "database_ok (w_db w)" "consents_normal (w_db w)"
  shows "findDeliveryConsent (dc_accountId k) (dc_channel k) (dc_target k) t = (Inr (Some k), t)
    \<and> dc_unsubscribedAt k \<noteq> None
    \<and> (\<exists>s. getDeliverySuppression (dc_accountId k) (dc_channel k) (dc_target k) t = (Inr (Some s), t))
    \<and> (\<forall>v r t'. verifyDeliveryConsent (dc_accountId k) (dc_channel k) (dc_target k) v t = (Inr r, t')
         \<longrightarrow> r = None \<and> w_db t' = w_db t)"
proof -
  note f = unsubscribeDeliveryTarget_InrD [OF assms]
  have n: "trim (dc_accountId k) \<noteq> []" "normalizeDeliveryChannel (dc_channel k) = Inr (dc_channel k)"
    "normalizeDeliveryTarget (dc_target k) = Inr (dc_target k)"
    using f(3) by (simp_all add: normal_consent_def)
  have ok: "database_ok (w_db t)" using keepsD [OF consent_operations_keep(4) _ assms(1)] assms(2) by simp
  have "r = None \<and> w_db t' = w_db t"
    if v: "verifyDeliveryConsent (dc_accountId k) (dc_channel k) (dc_target k) v t = (Inr r, t')" for v r t'
  proof -
    have "trim v \<noteq> []" using v n f(4)
      by (auto simp: verifyDeliveryConsent_def run_iffs requireNonEmpty_def split: if_splits)
    from verifyDeliveryConsent_run [OF f(4) n this ok f(1)] f(2) v show ?thesis by auto
  qed
  moreover have "\<exists>s. getDeliverySuppression (dc_accountId k) (dc_channel k) (dc_target k) t = (Inr (Some s), t)"
    using f(5) unfolding getDeliverySuppression_run [OF n] by (auto simp: filter_empty_conv simp flip: not_None_eq)
  ultimately show ?thesis using findDeliveryConsent_run [OF n] f(1,2) by simp
qed


definition consent_world :: world where
  "consent_world = snd (requestDeliveryConsent ''id-0'' ''Email'' ''Ada@Example.org'' None None registered_world)"

definition sample_consent :: delivery_consent where
  "sample_consent = \<lparr>dc_accountId = ''id-0'', dc_channel = ''email'', dc_target = ''ada@example.org'',
     dc_consentedAt = to_iso 1767225601000, dc_verifiedAt = None, dc_unsubscribedAt = None,
     dc_verificationToken = ''id-2'', dc_unsubscribeToken = ''id-3'',
     dc_createdAt = to_iso 1767225601000, dc_updatedAt = to_iso 1767225601000\<rparr>"

lemma normalize_samples:
  "normalizeDeliveryChannel ''Email'' = Inr ''email''" "normalizeDeliveryChannel ''email'' = Inr ''email''"
  "normalizeDeliveryTarget ''Ada@Example.org'' = Inr ''ada@example.org''"
  "normalizeDeliveryTarget ''ada@example.org'' = Inr ''ada@example.org''"
  "trim ''id-2'' = ''id-2''" "trim ''id-3'' = ''id-3''" "dec 2 = ''2''" "dec 3 = ''3''"
  by code_simp+

lemma registered_world_rest:
  "w_uuids registered_world = w_uuids sample_world" "w_drawn registered_world = 2"
  "consents (w_db registered_world) = []" "suppressions (w_db registered_world) = []"
  by (simp_all add: registered_world_def createAccountWithCredential_def run_defs normalize_sample trims
      insert_account_def insert_credential_def insert_row_def sample_world_def empty_database_def
      dec_one digit_chars account_ids_def)

lemma consent_requested:
  "requestDeliveryConsent ''id-0'' ''Email'' ''Ada@Example.org'' None None registered_world
     = (Inr sample_consent, consent_world)"
  "consents (w_db consent_world) = [sample_consent]" "suppressions (w_db consent_world) = []"
  "accounts (w_db consent_world) = [sample_account]" "\<not> w_maintenance consent_world"
  by (simp_all add: consent_world_def requestDeliveryConsent_def run_defs normalize_samples trims
      given_or_random_def registered_world_facts registered_world_rest requireAccount_def findAccount_def
      sample_account_def upsert_consent_def upsert_update_def insert_row_def account_ids_def
      findDeliveryConsent_def sample_consent_def sample_world_def dec_one digit_chars)

theorem delivery_consent_needs_its_token_witness:
  "\<exists>w2. verifyDeliveryConsent ''id-0'' ''Email'' ''Ada@Example.org'' ''id-3'' consent_world = (Inr None, w2)
     \<and> w_db w2 = w_db consent_world"
  using delivery_consent_needs_its_token [OF consent_requested(1) registered_ok, of "''id-3''"]
  by (auto simp: normalize_samples sample_consent_def)

lemma unsubscribed:
  "\<exists>k t. unsubscribeDeliveryTarget ''id-3'' consent_world = (Inr (Some k), t)"
  by (simp add: unsubscribeDeliveryTarget_def run_defs consent_requested normalize_samples trims
      findDeliveryConsent_def sample_consent_def update_rows_def insert_suppression_once_def
      upsert_nothing_def insert_row_def sample_account_def account_ids_def)

theorem unsubscribed_target_stays_silent_witness:
  "\<exists>k t. unsubscribeDeliveryTarget ''id-3'' consent_world = (Inr (Some k), t) \<and> dc_unsubscribedAt k \<noteq> None"
proof -
  obtain k t where u: "unsubscribeDeliveryTarget ''id-3'' consent_world = (Inr (Some k), t)"
    using unsubscribed by blast
  have "database_ok (w_db consent_world)"
    using keepsD [OF consent_operations_keep(2) _ consent_requested(1)] registered_ok by simp
  moreover have "consents_normal (w_db consent_world)"
    by (simp add: consents_normal_def consent_requested normal_consent_def sample_consent_def
        normalize_samples trims)
  ultimately show ?thesis using unsubscribed_target_stays_silent [OF u] u by blast
qed

end
