(* ===== verification/Store_Watches.thy ===== *)
theory Store_Watches
  imports Store_Consents
begin

text \<open>
  Watches and their evaluation in \<^verbatim>\<open>SqliteOperationalStore\<close>: opening, pausing, resuming and deleting
  a watch; claiming watches for one activated package with leases; completing an evaluation; the
  append-only alert events; the delivery state of an alert; the single-instance application lease;
  and what a backup keeps.
\<close>

subsection \<open>Watches\<close>

text \<open>\<^verbatim>\<open>ORDER BY evaluated_at DESC, recipe_id LIMIT 1\<close>.\<close>

definition later_evaluation :: "last_evaluation \<Rightarrow> last_evaluation \<Rightarrow> bool" where
  "later_evaluation r s \<longleftrightarrow>
     le_evaluatedAt s < le_evaluatedAt r \<or> le_evaluatedAt s = le_evaluatedAt r \<and> le_recipeId r < le_recipeId s"

definition latest_evaluation :: "last_evaluation list \<Rightarrow> last_evaluation option" where
  "latest_evaluation rows =
     fold (\<lambda>r best. case best of None \<Rightarrow> Some r | Some s \<Rightarrow> Some (if later_evaluation r s then r else s)) rows None"

definition mapWatch :: "watch_row \<Rightarrow> last_evaluation option \<Rightarrow> opportunity_watch" where
  "mapWatch row lastEvaluation =
     \<lparr>ow_id = wr_id row, ow_accountId = wr_accountId row,
      ow_product = \<lparr>pf_hsRevision = wr_hsRevision row, pf_code = wr_code row\<rparr>,
      ow_marketEconomy = wr_marketEconomy row, ow_reportingEconomyIso2 = wr_reportingEconomyIso2 row,
      ow_hs12Code = wr_hs12Code row,
      ow_exportEconomyCode = (if wr_exportEconomyCode row = [] then None else Some (wr_exportEconomyCode row)),
      ow_cadence = wr_cadence row, ow_deliveryPreferences = wr_deliveryPreferences row,
      ow_contextIdentity = wr_contextIdentity row, ow_status = wr_status row,
      ow_createdAt = wr_createdAt row, ow_updatedAt = wr_updatedAt row, ow_pausedAt = wr_pausedAt row,
      ow_deletedAt = wr_deletedAt row, ow_lastEvaluatedPackageId = wr_lastEvaluatedPackageId row,
      ow_lastEvaluation = lastEvaluation\<rparr>"

definition mapWatchWithLastEvaluation :: "watch_row \<Rightarrow> database \<Rightarrow> opportunity_watch" where
  "mapWatchWithLastEvaluation row db =
     mapWatch row (latest_evaluation (filter (\<lambda>e. le_watchId e = wr_id row) (last_evaluations db)))"

definition computeWatchContextIdentity :: "string \<Rightarrow> string \<Rightarrow> string \<Rightarrow> string store_op" where
  "computeWatchContextIdentity reportingEconomyIso2 hsRevision hs12Code =
     (\<lambda>w. (Inr (w_sha256 w (''opportunity-watch-context-v1'' @ ''|'' @ reportingEconomyIso2 @ ''|''
                 @ hsRevision @ ''|'' @ hs12Code)), w))"

record open_watch_input =
  oi_product :: product_ref
  oi_marketEconomy :: string
  oi_reportingEconomyIso2 :: "string option"
  oi_hs12Code :: "string option"
  oi_exportEconomyCode :: "string option"
  oi_cadence :: "string option"
  oi_deliveryPreferences :: "delivery_preference list option"

definition or_else :: "'a option \<Rightarrow> 'a \<Rightarrow> 'a" where
  "or_else v d = (case v of None \<Rightarrow> d | Some x \<Rightarrow> x)"

definition openWatch :: "string \<Rightarrow> open_watch_input \<Rightarrow> opportunity_watch store_op" where
  "openWatch accountId input =
     andThen assertWritable (\<lambda>_.
     andThen (check (requireNonEmpty (pf_hsRevision (oi_product input)) ''product.hsRevision'')) (\<lambda>hsRevision.
     andThen (check (requireNonEmpty (pf_code (oi_product input)) ''product.code'')) (\<lambda>code.
     andThen (check (requireNonEmpty (oi_marketEconomy input) ''marketEconomy'')) (\<lambda>market.
     andThen (check (requireNonEmpty (or_else (oi_reportingEconomyIso2 input) market) ''reportingEconomyIso2''))
       (\<lambda>reportingEconomyIso2.
     andThen (check (requireNonEmpty (or_else (oi_hs12Code input) code) ''hs12Code'')) (\<lambda>hs12Code.
     andThen (check (normalizeCadence (or_else (oi_cadence input) ''MONTHLY''))) (\<lambda>cadence.
     andThen (computeWatchContextIdentity reportingEconomyIso2 hsRevision hs12Code) (\<lambda>contextIdentity.
     andThen now_iso (\<lambda>ts.
     andThen randomUUID (\<lambda>i.
     let r = \<lparr>wr_id = i, wr_accountId = accountId, wr_hsRevision = hsRevision, wr_code = code,
              wr_marketEconomy = market, wr_reportingEconomyIso2 = reportingEconomyIso2,
              wr_hs12Code = hs12Code, wr_exportEconomyCode = or_else (oi_exportEconomyCode input) [],
              wr_cadence = cadence, wr_deliveryPreferences = or_else (oi_deliveryPreferences input) [],
              wr_contextIdentity = contextIdentity, wr_status = ACTIVE, wr_createdAt = ts,
              wr_updatedAt = ts, wr_pausedAt = None, wr_deletedAt = None,
              wr_lastEvaluatedPackageId = None\<rparr>
     in andThen (transaction (andThen (requireAccount accountId) (\<lambda>_. try_execute (insert_watch_once r)))) (\<lambda>_.
        query (\<lambda>db. mapWatchWithLastEvaluation (the (find (watch_context r) (watches db))) db))))))))))))"

definition listWatches :: "string \<Rightarrow> opportunity_watch list store_op" where
  "listWatches accountId =
     query (\<lambda>db. map (\<lambda>r. mapWatchWithLastEvaluation r db)
       (sort_key (\<lambda>r. (wr_createdAt r, wr_id r))
         (filter (\<lambda>r. wr_accountId r = accountId \<and> wr_deletedAt r = None) (watches db))))"

definition open_watch :: "string \<Rightarrow> watch_row \<Rightarrow> bool" where
  "open_watch watchId r \<longleftrightarrow> wr_id r = watchId \<and> wr_deletedAt r = None"

definition findWatch :: "string \<Rightarrow> opportunity_watch store_op" where
  "findWatch watchId =
     andThen (query (\<lambda>db. map_option (\<lambda>r. mapWatchWithLastEvaluation r db)
                            (find (open_watch watchId) (watches db)))) (\<lambda>row.
     case row of
       None \<Rightarrow> raise (unknownEntity (''Watch '' @ watchId @ '' does not exist.''))
     | Some r \<Rightarrow> ret r)"

text \<open>\<^verbatim>\<open>UPDATE operational_watch ... WHERE id = ? AND deleted_at IS NULL\<close>, an error when nothing changed.\<close>

definition update_watch :: "string \<Rightarrow> (watch_row \<Rightarrow> watch_row) \<Rightarrow> unit store_op" where
  "update_watch watchId f =
     andThen (query (\<lambda>db. changes (open_watch watchId) (watches db))) (\<lambda>n.
     andThen (execute (\<lambda>db. db\<lparr>watches := update_rows (open_watch watchId) f (watches db)\<rparr>)) (\<lambda>_.
     if n = 0 then raise (unknownEntity (''Watch '' @ watchId @ '' does not exist.'')) else ret ()))"

definition pauseWatch :: "string \<Rightarrow> opportunity_watch store_op" where
  "pauseWatch watchId =
     andThen assertWritable (\<lambda>_.
     andThen now_iso (\<lambda>ts.
     andThen (update_watch watchId
       (\<lambda>r. r\<lparr>wr_status := PAUSED, wr_pausedAt := coalesce (wr_pausedAt r) (Some ts), wr_updatedAt := ts\<rparr>)) (\<lambda>_.
     findWatch watchId)))"

definition resumeWatch :: "string \<Rightarrow> opportunity_watch store_op" where
  "resumeWatch watchId =
     andThen assertWritable (\<lambda>_.
     andThen now_iso (\<lambda>ts.
     andThen (update_watch watchId
       (\<lambda>r. r\<lparr>wr_status := ACTIVE, wr_pausedAt := None, wr_updatedAt := ts\<rparr>)) (\<lambda>_.
     findWatch watchId)))"

definition deleteWatch :: "string \<Rightarrow> opportunity_watch store_op" where
  "deleteWatch watchId =
     andThen assertWritable (\<lambda>_.
     andThen (findWatch watchId) (\<lambda>existing.
     andThen now_iso (\<lambda>ts.
     andThen (update_watch watchId
       (\<lambda>r. r\<lparr>wr_status := PAUSED, wr_deletedAt := coalesce (wr_deletedAt r) (Some ts), wr_updatedAt := ts\<rparr>)) (\<lambda>_.
     ret (existing\<lparr>ow_status := PAUSED, ow_updatedAt := ts, ow_deletedAt := Some ts\<rparr>)))))"

subsection \<open>Evaluation leases\<close>

record claimed_watch =
  cw_watch :: opportunity_watch
  cw_leaseId :: string
  cw_leaseExpiresAt :: string

definition live_lease :: "string \<Rightarrow> string \<Rightarrow> string \<Rightarrow> evaluation_lease \<Rightarrow> bool" where
  "live_lease watchId packageId nowIso l \<longleftrightarrow>
     el_watchId l = watchId \<and> el_packageId l = packageId \<and> nowIso < el_expiresAt l"

definition eligible_watch :: "string \<Rightarrow> string \<Rightarrow> evaluation_lease list \<Rightarrow> watch_row \<Rightarrow> bool" where
  "eligible_watch packageId nowIso leases r \<longleftrightarrow>
     wr_status r = ACTIVE \<and> wr_deletedAt r = None
     \<and> wr_lastEvaluatedPackageId r \<noteq> Some packageId
     \<and> \<not> list_ex (live_lease (wr_id r) packageId nowIso) leases"

definition eligible_watches :: "string \<Rightarrow> string \<Rightarrow> int \<Rightarrow> database \<Rightarrow> watch_row list" where
  "eligible_watches packageId nowIso limit db =
     take (nat limit) (sort_key (\<lambda>r. (wr_createdAt r, wr_id r))
       (filter (eligible_watch packageId nowIso (evaluation_leases db)) (watches db)))"

text \<open>Whether the lease upsert changes a row: there is none yet, or an expired one.\<close>

definition lease_free :: "evaluation_lease \<Rightarrow> string \<Rightarrow> database \<Rightarrow> bool" where
  "lease_free r nowIso db =
     (case find (lease_target r) (evaluation_leases db) of None \<Rightarrow> True | Some l \<Rightarrow> el_expiresAt l \<le> nowIso)"

definition claim_one ::
  "string \<Rightarrow> string \<Rightarrow> string \<Rightarrow> string \<Rightarrow> watch_row \<Rightarrow> claimed_watch list \<Rightarrow> claimed_watch list store_op" where
  "claim_one evaluatorId packageId nowIso expiresAt row claimed =
     andThen randomUUID (\<lambda>leaseId.
     let l = \<lparr>el_leaseId = leaseId, el_watchId = wr_id row, el_evaluatorId = evaluatorId,
              el_packageId = packageId, el_acquiredAt = nowIso, el_expiresAt = expiresAt\<rparr>
     in andThen (query (lease_free l nowIso)) (\<lambda>changed.
        andThen (try_execute (upsert_lease l nowIso)) (\<lambda>_.
        if changed
        then query (\<lambda>db. claimed @ [\<lparr>cw_watch = mapWatchWithLastEvaluation row db, cw_leaseId = leaseId,
                                      cw_leaseExpiresAt = expiresAt\<rparr>])
        else ret claimed)))"

definition claimWatchesForEvaluation ::
  "string \<Rightarrow> string \<Rightarrow> int \<Rightarrow> int \<Rightarrow> claimed_watch list store_op" where
  "claimWatchesForEvaluation evaluatorId0 packageId0 limit0 leaseSeconds0 =
     andThen assertWritable (\<lambda>_.
     andThen (check (requireNonEmpty evaluatorId0 ''evaluatorId'')) (\<lambda>evaluatorId.
     andThen (check (requireNonEmpty packageId0 ''packageId'')) (\<lambda>packageId.
     andThen (check (requirePositiveInt limit0 ''limit'')) (\<lambda>limit.
     andThen (check (requirePositiveInt leaseSeconds0 ''leaseSeconds'')) (\<lambda>leaseSeconds.
     andThen now (\<lambda>nowMs.
     let nowIso = to_iso nowMs; expiresAt = to_iso (nowMs + leaseSeconds * 1000)
     in transaction (
          andThen (query (eligible_watches packageId nowIso limit)) (\<lambda>eligible.
          foldOp (claim_one evaluatorId packageId nowIso expiresAt) eligible []))))))))"

record complete_evaluation_input =
  ce_recipeId :: string
  ce_cutoffMonth :: string
  ce_resultDigest :: string
  ce_state :: string
  ce_growthRateDecimal :: "string option"
  ce_confidence :: "string option"
  ce_alertEventId :: "string option"

definition record_evaluation :: "string \<Rightarrow> string \<Rightarrow> complete_evaluation_input \<Rightarrow> unit store_op" where
  "record_evaluation watchId packageId evaluation =
     andThen now_iso (\<lambda>evaluatedAt.
     andThen (check (requireNonEmpty (ce_recipeId evaluation) ''evaluation.recipeId'')) (\<lambda>recipeId.
     andThen (check (requireNonEmpty (ce_cutoffMonth evaluation) ''evaluation.cutoffMonth'')) (\<lambda>cutoffMonth.
     andThen (check (requireNonEmpty (ce_resultDigest evaluation) ''evaluation.resultDigest'')) (\<lambda>resultDigest.
     andThen (check (requireNonEmpty (ce_state evaluation) ''evaluation.state'')) (\<lambda>state.
     try_execute (upsert_last_evaluation
       \<lparr>le_watchId = watchId, le_recipeId = recipeId, le_packageId = packageId,
        le_cutoffMonth = cutoffMonth, le_resultDigest = resultDigest, le_state = state,
        le_growthRateDecimal = ce_growthRateDecimal evaluation,
        le_confidence = ce_confidence evaluation, le_evaluatedAt = evaluatedAt,
        le_alertEventId = ce_alertEventId evaluation\<rparr>))))))"

definition completeEvaluation ::
  "string \<Rightarrow> string \<Rightarrow> complete_evaluation_input option \<Rightarrow> unit store_op" where
  "completeEvaluation leaseId packageId evaluation =
     andThen assertWritable (\<lambda>_.
     transaction (
       andThen (query (\<lambda>db. find (\<lambda>l. el_leaseId l = leaseId) (evaluation_leases db))) (\<lambda>lease.
       case lease of
         None \<Rightarrow> ret ()
       | Some l \<Rightarrow>
           if el_packageId l \<noteq> packageId then ret ()
           else
             andThen now_iso (\<lambda>ts.
             andThen (execute (\<lambda>db. db\<lparr>watches := update_rows (\<lambda>r. wr_id r = el_watchId l)
               (\<lambda>r. r\<lparr>wr_lastEvaluatedPackageId := Some packageId, wr_updatedAt := ts\<rparr>) (watches db)\<rparr>)) (\<lambda>_.
             andThen (case evaluation of
                        None \<Rightarrow> ret ()
                      | Some e \<Rightarrow> record_evaluation (el_watchId l) packageId e) (\<lambda>_.
             execute (\<lambda>db. db\<lparr>evaluation_leases :=
               delete_rows (\<lambda>m. el_leaseId m = leaseId) (evaluation_leases db)\<rparr>)))))))"

subsection \<open>Alert events and deliveries\<close>

record record_alert_event_input =
  ri_watchId :: string
  ri_kind :: string
  ri_dedupeKey :: string
  ri_recipeId :: "string option"
  ri_packageId :: "string option"
  ri_supersededPackageId :: "string option"
  ri_cutoffMonth :: "string option"
  ri_priorEventId :: "string option"
  ri_detail :: json
  ri_occurredAt :: string

text \<open>\<^verbatim>\<open>value ? requireNonEmpty(value, field) : null\<close>: an empty text counts as absent.\<close>

definition nonEmptyWhenTruthy :: "string option \<Rightarrow> string \<Rightarrow> thrown + string option" where
  "nonEmptyWhenTruthy v field =
     (case v of None \<Rightarrow> Inr None
      | Some s \<Rightarrow> if s = [] then Inr None else ebind (requireNonEmpty s field) (\<lambda>s. Inr (Some s)))"

definition nonEmptyWhenPresent :: "string option \<Rightarrow> string \<Rightarrow> thrown + string option" where
  "nonEmptyWhenPresent v field =
     (case v of None \<Rightarrow> Inr None | Some s \<Rightarrow> ebind (requireNonEmpty s field) (\<lambda>s. Inr (Some s)))"

definition recordAlertEvent :: "record_alert_event_input \<Rightarrow> (alert_event \<times> bool) store_op" where
  "recordAlertEvent input =
     andThen assertWritable (\<lambda>_.
     andThen (check (requireNonEmpty (ri_watchId input) ''watchId'')) (\<lambda>watchId.
     andThen (check (requireNonEmpty (ri_kind input) ''kind'')) (\<lambda>kind.
     andThen (check (requireNonEmpty (ri_dedupeKey input) ''dedupeKey'')) (\<lambda>dedupeKey.
     andThen (check (requireNonEmpty (ri_occurredAt input) ''occurredAt'')) (\<lambda>occurredAt.
     andThen (check (nonEmptyWhenTruthy (ri_recipeId input) ''recipeId'')) (\<lambda>recipeId.
     andThen (check (nonEmptyWhenTruthy (ri_packageId input) ''packageId'')) (\<lambda>eventPackageId.
     andThen (check (nonEmptyWhenPresent (ri_supersededPackageId input) ''supersededPackageId''))
       (\<lambda>supersededPackageId.
     andThen (check (nonEmptyWhenTruthy (ri_cutoffMonth input) ''cutoffMonth'')) (\<lambda>cutoffMonth.
     andThen randomUUID (\<lambda>i.
     andThen now_iso (\<lambda>createdAt.
     andThen (transaction (
       andThen (query (\<lambda>db. find (\<lambda>r. wr_id r = watchId) (watches db))) (\<lambda>watch.
       case watch of
         None \<Rightarrow> raise (unknownEntity (''Watch '' @ watchId @ '' does not exist.''))
       | Some wr \<Rightarrow>
           let e = \<lparr>ae_id = i, ae_watchId = watchId, ae_accountId = wr_accountId wr, ae_kind = kind,
                    ae_dedupeKey = dedupeKey, ae_recipeId = recipeId, ae_packageId = eventPackageId,
                    ae_supersededPackageId = supersededPackageId, ae_cutoffMonth = cutoffMonth,
                    ae_priorEventId = ri_priorEventId input, ae_detail = ri_detail input,
                    ae_occurredAt = occurredAt, ae_createdAt = createdAt\<rparr>
           in andThen (query (\<lambda>db. \<not> list_ex (event_target e) (alert_events db))) (\<lambda>created.
              andThen (try_execute (insert_event_once e)) (\<lambda>_. ret created))))) (\<lambda>created.
     query (\<lambda>db. (the (find (\<lambda>e. ae_watchId e = watchId \<and> ae_dedupeKey e = dedupeKey) (alert_events db)),
                  created))))))))))))))"

definition listAlertEvents :: "string \<Rightarrow> alert_event list store_op" where
  "listAlertEvents accountId =
     query (\<lambda>db. sort_key (\<lambda>r. (ae_occurredAt r, ae_createdAt r, ae_id r))
       (filter (\<lambda>r. ae_accountId r = accountId) (alert_events db)))"

definition deliveryIdempotencyKey :: "string \<Rightarrow> string \<Rightarrow> string" where
  "deliveryIdempotencyKey eventId channel = eventId @ '':'' @ channel"

definition getDeliveryState :: "string \<Rightarrow> string \<Rightarrow> delivery_state option store_op" where
  "getDeliveryState eventId channel =
     query (\<lambda>db. find (\<lambda>d. ds_eventId d = eventId \<and> ds_channel d = channel) (delivery_states db))"

definition require_event :: "string \<Rightarrow> unit store_op" where
  "require_event eventId =
     andThen (query (has_event eventId)) (\<lambda>found.
     if found then ret () else raise (unknownEntity (''Alert event '' @ eventId @ '' does not exist.'')))"

definition ensureDeliveryState :: "string \<Rightarrow> string \<Rightarrow> delivery_state store_op" where
  "ensureDeliveryState eventId channel =
     andThen assertWritable (\<lambda>_.
     andThen (check (requireNonEmpty channel ''channel'')) (\<lambda>chan.
     andThen now_iso (\<lambda>ts.
     andThen (transaction (
       andThen (require_event eventId) (\<lambda>_.
       andThen randomUUID (\<lambda>i.
       try_execute (insert_delivery_once
         \<lparr>ds_deliveryId = i, ds_eventId = eventId, ds_channel = chan,
          ds_idempotencyKey = deliveryIdempotencyKey eventId chan, ds_status = PENDING, ds_attempts = 0,
          ds_lastAttemptAt = ts, ds_providerReceipt = None, ds_lastOutcome = None,
          ds_failureReason = None, ds_updatedAt = ts\<rparr>))))) (\<lambda>_.
     andThen (getDeliveryState eventId chan) (\<lambda>d. ret (the d))))))"

definition normalizeDeliveryStatus :: "delivery_status \<Rightarrow> thrown + delivery_status" where
  "normalizeDeliveryStatus status =
     (if status = PENDING then Inl (invalidStoreInput ''delivery attempt status cannot be PENDING.'')
      else Inr status)"

record delivery_attempt_input =
  di_eventId :: string
  di_channel :: string
  di_status :: delivery_status
  di_outcome :: delivery_outcome
  di_providerReceipt :: "string option"
  di_failureReason :: "string option"

definition recordDeliveryAttempt :: "delivery_attempt_input \<Rightarrow> delivery_state store_op" where
  "recordDeliveryAttempt input =
     andThen assertWritable (\<lambda>_.
     andThen (check (requireNonEmpty (di_eventId input) ''eventId'')) (\<lambda>eventId.
     andThen (check (requireNonEmpty (di_channel input) ''channel'')) (\<lambda>chan.
     andThen (check (normalizeDeliveryStatus (di_status input))) (\<lambda>status.
     andThen (check (nonEmptyWhenPresent (di_failureReason input) ''failureReason'')) (\<lambda>failureReason.
     andThen now_iso (\<lambda>ts.
     andThen (transaction (
       andThen (require_event eventId) (\<lambda>_.
       andThen randomUUID (\<lambda>i.
       try_execute (upsert_delivery
         \<lparr>ds_deliveryId = i, ds_eventId = eventId, ds_channel = chan,
          ds_idempotencyKey = deliveryIdempotencyKey eventId chan, ds_status = status, ds_attempts = 1,
          ds_lastAttemptAt = ts, ds_providerReceipt = di_providerReceipt input,
          ds_lastOutcome = Some (di_outcome input), ds_failureReason = failureReason,
          ds_updatedAt = ts\<rparr>))))) (\<lambda>_.
     andThen (getDeliveryState eventId chan) (\<lambda>d. ret (the d)))))))))"

definition markDelivered :: "string \<Rightarrow> string \<Rightarrow> string option \<Rightarrow> delivery_state store_op" where
  "markDelivered eventId channel providerReceipt =
     recordDeliveryAttempt \<lparr>di_eventId = eventId, di_channel = channel, di_status = SENT,
       di_outcome = ACCEPTED, di_providerReceipt = providerReceipt, di_failureReason = None\<rparr>"

subsection \<open>The application lease, backup and close\<close>

definition acquireApplicationLease :: "string \<Rightarrow> string \<Rightarrow> int \<Rightarrow> unit store_op" where
  "acquireApplicationLease holder token applicationLeaseSeconds =
     andThen now (\<lambda>nowMs.
     transaction (
       andThen (query application_leases) (\<lambda>existing.
       let live = (case existing of
             None \<Rightarrow> False
           | Some l \<Rightarrow> (case date_parse (al_expiresAt l) of None \<Rightarrow> False | Some x \<Rightarrow> nowMs < x) \<and> al_token l \<noteq> token)
       in if live then raise (applicationLeaseUnavailable (al_holder (the existing)))
          else execute (\<lambda>db. db\<lparr>application_leases := Some
            \<lparr>al_holder = holder, al_token = token, al_acquiredAt = to_iso nowMs,
             al_expiresAt = to_iso (nowMs + applicationLeaseSeconds * 1000)\<rparr>\<rparr>))))"

text \<open>The rows of a backup copy: the destination is checked, the copied file loses its leases and
  secrets. Copying the file itself is SQLite's.\<close>

definition backup_rows :: "database \<Rightarrow> database" where
  "backup_rows db = db\<lparr>application_leases := None, evaluation_leases := [], sessions := [], recovery_tokens := []\<rparr>"

definition backup :: "string \<Rightarrow> database store_op" where
  "backup destinationPath =
     andThen (check (requireNonEmpty destinationPath ''destinationPath'')) (\<lambda>target.
     if target = '':memory:'' \<or> includes_text ''://'' target
     then raise (invalidStoreInput ''Backup destination must be a local file path.'')
     else query backup_rows)"

definition close :: "string \<Rightarrow> unit store_op" where
  "close token =
     execute (\<lambda>db. db\<lparr>application_leases :=
       (case application_leases db of None \<Rightarrow> None | Some l \<Rightarrow> if al_token l = token then None else Some l)\<rparr>)"

subsection \<open>Constraints and atomicity\<close>

lemma keeps_update_watch:
  assumes "\<And>r. wr_id (f r) = wr_id r" "\<And>r. wr_accountId (f r) = wr_accountId r"
    "\<And>r s. watch_context (f r) s = watch_context r s"
  shows "keeps consistent (update_watch i f)"
  unfolding update_watch_def
  by (intro keeps_intros keeps_statement) (auto intro!: update_watches_ok simp: assms)

lemma keeps_claim_one: "keeps consistent (claim_one e p n x r c)"
  unfolding claim_one_def by (intro keeps_intros keeps_statement) (rule upsert_lease_ok)

lemma keeps_record_evaluation: "keeps consistent (record_evaluation i p e)"
  unfolding record_evaluation_def by (intro keeps_intros keeps_statement) (rule upsert_last_evaluation_ok)

lemma keeps_require_event [keeps_intros]: "keeps consistent (require_event e)"
  unfolding require_event_def by (intro keeps_intros)

lemma keeps_context_identity [keeps_intros]: "keeps P (computeWatchContextIdentity a b c)"
  by (simp add: keeps_def computeWatchContextIdentity_def)

lemma watch_operations_keep [keeps_intros]:
  "keeps consistent (openWatch a oi)"
  "keeps consistent (listWatches a)"
  "keeps consistent (findWatch i)"
  "keeps consistent (pauseWatch i)"
  "keeps consistent (resumeWatch i)"
  "keeps consistent (deleteWatch i)"
  "keeps consistent (claimWatchesForEvaluation ev p l s)"
  "keeps consistent (completeEvaluation le p ce)"
  "keeps consistent (recordAlertEvent ri)"
  "keeps consistent (listAlertEvents a)"
  "keeps consistent (getDeliveryState e c)"
  "keeps consistent (ensureDeliveryState e c)"
  "keeps consistent (recordDeliveryAttempt di)"
  "keeps consistent (markDelivered e c p1)"
  "keeps consistent (acquireApplicationLease h tk sec)"
  "keeps consistent (backup path)"
  "keeps consistent (close tk)"
proof -
  show "keeps consistent (openWatch a oi)"
    unfolding openWatch_def by (intro keeps_intros keeps_statement) (rule insert_watch_once_ok)
  show "keeps consistent (listWatches a)"
    unfolding listWatches_def by (intro keeps_intros)
  show f: "keeps consistent (findWatch i)" for i
    unfolding findWatch_def by (intro keeps_intros)
  show "keeps consistent (pauseWatch i)"
    unfolding pauseWatch_def by (intro keeps_intros keeps_update_watch f) (simp_all add: watch_context_def)
  show "keeps consistent (resumeWatch i)"
    unfolding resumeWatch_def by (intro keeps_intros keeps_update_watch f) (simp_all add: watch_context_def)
  show "keeps consistent (deleteWatch i)"
    unfolding deleteWatch_def by (intro keeps_intros keeps_update_watch f) (simp_all add: watch_context_def)
  show "keeps consistent (claimWatchesForEvaluation ev p l s)"
    unfolding claimWatchesForEvaluation_def by (intro keeps_intros keeps_claim_one)
  show "keeps consistent (completeEvaluation le p ce)"
    unfolding completeEvaluation_def
    by (intro keeps_intros keeps_statement keeps_record_evaluation)
       (auto intro!: update_watches_ok delete_leases_ok simp: watch_context_def)
  show "keeps consistent (recordAlertEvent ri)"
    unfolding recordAlertEvent_def by (intro keeps_intros keeps_statement) (rule insert_event_once_ok)
  show "keeps consistent (listAlertEvents a)"
    unfolding listAlertEvents_def by (intro keeps_intros)
  show g: "keeps consistent (getDeliveryState e c)" for e c
    unfolding getDeliveryState_def by (intro keeps_intros)
  show "keeps consistent (ensureDeliveryState e c)"
    unfolding ensureDeliveryState_def by (intro keeps_intros keeps_statement g) (rule insert_delivery_once_ok)
  show r: "keeps consistent (recordDeliveryAttempt di)" for di
    unfolding recordDeliveryAttempt_def by (intro keeps_intros keeps_statement g) (rule upsert_delivery_ok)
  show "keeps consistent (markDelivered e c p1)"
    unfolding markDelivered_def by (rule r)
  show "keeps consistent (acquireApplicationLease h tk sec)"
    unfolding acquireApplicationLease_def
    by (intro keeps_intros keeps_statement) (simp add: database_ok_def unique_ok_def references_ok_def ids_defs)
  show "keeps consistent (backup path)"
    unfolding backup_def by (intro keeps_intros)
  show "keeps consistent (close tk)"
    unfolding close_def
    by (intro keeps_intros keeps_statement) (simp add: database_ok_def unique_ok_def references_ok_def ids_defs)
qed

lemma atomic_update_watch [atomic_intros]: "atomic (update_watch i f)"
  by (auto simp: atomic_def update_watch_def run_iffs changes_def update_rows_none split: if_splits)

lemma quiet_findWatch [atomic_intros]: "quiet (findWatch i)"
  unfolding findWatch_def by (intro atomic_intros)

lemma quiet_context_identity [atomic_intros]: "quiet (computeWatchContextIdentity a b c)"
  by (simp add: quiet_def computeWatchContextIdentity_def)

lemma atomic_context_identity [atomic_intros]:
  "(\<And>x. atomic (k x)) \<Longrightarrow> atomic (andThen (computeWatchContextIdentity a b c) k)"
  by (rule atomic_andThen [OF quiet_context_identity])

lemma never_throws_getDeliveryState [atomic_intros]: "never_throws (getDeliveryState e c)"
  unfolding getDeliveryState_def by (intro atomic_intros)

text \<open>An update of a watch that found a row is followed by a lookup of that row, which finds it.\<close>

lemma atomic_update_find:
  assumes "\<And>r. open_watch i (f r) = open_watch i r"
  shows "atomic (andThen (update_watch i f) (\<lambda>_. findWatch i))"
proof -
  have "findWatch i t \<noteq> (Inl e, u)" if "update_watch i f w = (Inr x, t)" for w t x e u
  proof -
    have "t = w\<lparr>w_db := (w_db w)\<lparr>watches := update_rows (open_watch i) f (watches (w_db w))\<rparr>\<rparr>"
      "filter (open_watch i) (watches (w_db w)) \<noteq> []"
      using that by (auto simp: update_watch_def run_iffs changes_def split: if_splits)
    then show ?thesis
      using find_update_rows [where P = "open_watch i" and f = f, OF assms]
      by (auto simp: findWatch_def run_iffs filter_empty_conv find_None_iff split: option.splits)
  qed
  then show ?thesis
    using atomic_update_watch [of i f] unfolding atomic_def andThen_Inl_iff by blast
qed

lemma watch_operations_atomic [atomic_intros]:
  "atomic (openWatch a oi)"
  "atomic (pauseWatch i)"
  "atomic (resumeWatch i)"
  "atomic (deleteWatch i)"
  "atomic (claimWatchesForEvaluation ev p l s)"
  "atomic (completeEvaluation le p ce)"
  "atomic (recordAlertEvent ri)"
  "atomic (ensureDeliveryState e c)"
  "atomic (recordDeliveryAttempt di)"
  "atomic (markDelivered e c p1)"
  "atomic (acquireApplicationLease h tk sec)"
proof -
  show "atomic (openWatch a oi)"
    unfolding openWatch_def Let_def by (intro atomic_intros)
  show "atomic (pauseWatch i)"
    unfolding pauseWatch_def by (intro atomic_intros atomic_update_find) (simp add: open_watch_def)
  show "atomic (resumeWatch i)"
    unfolding resumeWatch_def by (intro atomic_intros atomic_update_find) (simp add: open_watch_def)
  show "atomic (deleteWatch i)"
    unfolding deleteWatch_def
    by (intro atomic_intros atomic_andThen [OF quiet_findWatch] atomic_andThen_total)
  show "atomic (claimWatchesForEvaluation ev p l s)"
    unfolding claimWatchesForEvaluation_def Let_def by (intro atomic_intros)
  show "atomic (completeEvaluation le p ce)"
    unfolding completeEvaluation_def by (intro atomic_intros)
  show "atomic (recordAlertEvent ri)"
    unfolding recordAlertEvent_def Let_def by (intro atomic_intros)
  show "atomic (ensureDeliveryState e c)"
    unfolding ensureDeliveryState_def Let_def by (intro atomic_intros)
  show r: "atomic (recordDeliveryAttempt di)" for di
    unfolding recordDeliveryAttempt_def Let_def by (intro atomic_intros)
  show "atomic (markDelivered e c p1)"
    unfolding markDelivered_def by (rule r)
  show "atomic (acquireApplicationLease h tk sec)"
    unfolding acquireApplicationLease_def by (intro atomic_intros)
qed


subsection \<open>Claiming\<close>

lemma lease_target_iff: "lease_target r s \<longleftrightarrow> el_watchId s = el_watchId r \<and> el_packageId s = el_packageId r"
  by (auto simp: lease_target_def)

lemma upsert_lease_found:
  assumes "upsert_lease r n db = Inr db'" "lease_free r n db"
  shows "\<exists>l. find (lease_target r) (evaluation_leases db') = Some l \<and> el_expiresAt l = el_expiresAt r
    \<and> el_leaseId l = el_leaseId r"
proof (cases "find (lease_target r) (evaluation_leases db)")
  case None
  with assms(1) have "evaluation_leases db' = evaluation_leases db @ [r]"
    by (auto simp: upsert_lease_def ebind_Inr_iff insert_row_Inr)
  with None show ?thesis by (simp add: find_append lease_target_iff)
next
  case (Some l)
  let ?f = "\<lambda>s. s\<lparr>el_leaseId := el_leaseId r, el_evaluatorId := el_evaluatorId r,
               el_acquiredAt := el_acquiredAt r, el_expiresAt := el_expiresAt r\<rparr>"
  from Some assms obtain rows where "upsert_update lease_target lease_clash
      ''operational_evaluation_lease.lease_id'' r ?f (evaluation_leases db) = Inr rows"
    and "evaluation_leases db' = rows"
    by (auto simp: upsert_lease_def lease_free_def ebind_Inr_iff)
  with Some upsert_update_find [where f = ?f and target = lease_target and r = r] show ?thesis
    by (auto simp: lease_target_iff)
qed

lemma find_update_other:
  assumes "\<And>r. P (f r) = P r" "\<And>r. P r \<Longrightarrow> \<not> Q r"
  shows "find P (update_rows Q f rows) = find P rows"
proof -
  have "map_option (\<lambda>r. if Q r then f r else r) (find P rows) = find P rows"
    using assms(2) by (cases "find P rows") (auto dest: find_SomeD)
  then show ?thesis using find_update_rows [where P = P and f = f, OF assms(1)] by metis
qed

lemma upsert_lease_other:
  assumes "upsert_lease r n db = Inr db'" "\<not> lease_target r s"
  shows "find (lease_target s) (evaluation_leases db') = find (lease_target s) (evaluation_leases db)"
proof (cases "find (lease_target r) (evaluation_leases db)")
  case None
  with assms(1) have "evaluation_leases db' = evaluation_leases db @ [r]"
    by (auto simp: upsert_lease_def ebind_Inr_iff insert_row_Inr)
  with assms(2) show ?thesis by (auto simp: find_append lease_target_iff split: option.splits)
next
  case (Some l)
  let ?f = "\<lambda>s. s\<lparr>el_leaseId := el_leaseId r, el_evaluatorId := el_evaluatorId r,
               el_acquiredAt := el_acquiredAt r, el_expiresAt := el_expiresAt r\<rparr>"
  from Some assms have "evaluation_leases db' = evaluation_leases db
      \<or> evaluation_leases db' = update_rows (lease_target r) ?f (evaluation_leases db)"
    by (auto simp: upsert_lease_def upsert_update_def ebind_Inr_iff split: if_splits)
  moreover have "find (lease_target s) (update_rows (lease_target r) ?f (evaluation_leases db))
      = find (lease_target s) (evaluation_leases db)"
    using assms(2) by (intro find_update_other) (auto simp: lease_target_iff)
  ultimately show ?thesis by metis
qed

lemma upsert_lease_rest:
  assumes "upsert_lease r n db = Inr db'"
  shows "watches db' = watches db" "last_evaluations db' = last_evaluations db"
  using assms by (auto simp: upsert_lease_def ebind_Inr_iff split: option.splits if_splits)

lemma mapWatch_id [simp]: "ow_id (mapWatchWithLastEvaluation r db) = wr_id r"
  by (simp add: mapWatchWithLastEvaluation_def mapWatch_def)

text \<open>One turn of the claiming loop for a watch that no live lease holds.\<close>

definition leased :: "string \<Rightarrow> string \<Rightarrow> string \<Rightarrow> string \<Rightarrow> database \<Rightarrow> bool" where
  "leased packageId watchId leaseId expiresAt db \<longleftrightarrow>
     (\<exists>l. find (\<lambda>l. el_watchId l = watchId \<and> el_packageId l = packageId) (evaluation_leases db) = Some l
        \<and> el_leaseId l = leaseId \<and> el_expiresAt l = expiresAt)"

definition unleased :: "string \<Rightarrow> string \<Rightarrow> string \<Rightarrow> database \<Rightarrow> bool" where
  "unleased packageId nowIso watchId db \<longleftrightarrow>
     (\<forall>l. find (\<lambda>l. el_watchId l = watchId \<and> el_packageId l = packageId) (evaluation_leases db) = Some l
        \<longrightarrow> el_expiresAt l \<le> nowIso)"

lemma claim_one_InrD:
  assumes "claim_one ev p n x r acc w = (Inr acc', t)" "unleased p n (wr_id r) (w_db w)"
  shows "\<exists>c. acc' = acc @ [c] \<and> ow_id (cw_watch c) = wr_id r \<and> cw_leaseExpiresAt c = x
      \<and> leased p (wr_id r) (cw_leaseId c) x (w_db t)"
    and "i \<noteq> wr_id r \<Longrightarrow> leased p i li y (w_db t) = leased p i li y (w_db w)"
    and "i \<noteq> wr_id r \<Longrightarrow> unleased p n i (w_db t) = unleased p n i (w_db w)"
    and "watches (w_db t) = watches (w_db w)" "w_clock t = w_clock w" "w_reads t = w_reads w"
    and "w_maintenance t = w_maintenance w"
proof -
  obtain l where l: "el_watchId l = wr_id r" "el_packageId l = p" "el_expiresAt l = x"
    and up: "upsert_lease l n (w_db w) = Inr (w_db t)"
    and acc': "acc' = (if lease_free l n (w_db w) then acc @ [\<lparr>cw_watch = mapWatchWithLastEvaluation r (w_db t),
        cw_leaseId = el_leaseId l, cw_leaseExpiresAt = x\<rparr>] else acc)"
    and rest: "w_clock t = w_clock w" "w_reads t = w_reads w" "w_maintenance t = w_maintenance w"
    using assms(1) that [of "\<lparr>el_leaseId = w_uuids w (w_drawn w), el_watchId = wr_id r, el_evaluatorId = ev,
              el_packageId = p, el_acquiredAt = n, el_expiresAt = x\<rparr>"]
    by (auto simp: claim_one_def run_iffs Let_def split: if_splits)
  have tgt: "lease_target l = (\<lambda>m. el_watchId m = wr_id r \<and> el_packageId m = p)"
    using l by (intro ext) (simp add: lease_target_iff)
  have "lease_free l n (w_db w)"
    using assms(2) by (auto simp: lease_free_def unleased_def tgt split: option.splits)
  then show "\<exists>c. acc' = acc @ [c] \<and> ow_id (cw_watch c) = wr_id r \<and> cw_leaseExpiresAt c = x
      \<and> leased p (wr_id r) (cw_leaseId c) x (w_db t)"
    using acc' upsert_lease_found [OF up] l by (auto simp: leased_def tgt)
  have other: "find (\<lambda>m. el_watchId m = i \<and> el_packageId m = p) (evaluation_leases (w_db t)) =
      find (\<lambda>m. el_watchId m = i \<and> el_packageId m = p) (evaluation_leases (w_db w))" if "i \<noteq> wr_id r" for i
  proof -
    have "lease_target (l\<lparr>el_watchId := i\<rparr>) = (\<lambda>m. el_watchId m = i \<and> el_packageId m = p)"
      using l by (intro ext) (simp add: lease_target_iff)
    moreover have "\<not> lease_target l (l\<lparr>el_watchId := i\<rparr>)" using that l by (simp add: lease_target_iff)
    ultimately show ?thesis using upsert_lease_other [OF up] by metis
  qed
  show "i \<noteq> wr_id r \<Longrightarrow> leased p i li y (w_db t) = leased p i li y (w_db w)"
    by (simp add: leased_def other)
  show "i \<noteq> wr_id r \<Longrightarrow> unleased p n i (w_db t) = unleased p n i (w_db w)"
    by (simp add: unleased_def other)
  show "watches (w_db t) = watches (w_db w)" by (rule upsert_lease_rest [OF up])
  show "w_clock t = w_clock w" "w_reads t = w_reads w" "w_maintenance t = w_maintenance w" by fact+
qed

lemma claim_loop_InrD:
  assumes "foldOp (claim_one ev p n x) rows acc w = (Inr cs, t)" "distinct (map wr_id rows)"
    "\<forall>r \<in> set rows. unleased p n (wr_id r) (w_db w)"
  shows "\<exists>bs. cs = acc @ bs \<and> map (\<lambda>c. ow_id (cw_watch c)) bs = map wr_id rows
      \<and> (\<forall>c \<in> set bs. cw_leaseExpiresAt c = x \<and> leased p (ow_id (cw_watch c)) (cw_leaseId c) x (w_db t))
      \<and> (\<forall>i li y. i \<notin> wr_id ` set rows \<longrightarrow> leased p i li y (w_db t) = leased p i li y (w_db w))
      \<and> watches (w_db t) = watches (w_db w) \<and> w_clock t = w_clock w \<and> w_reads t = w_reads w
      \<and> w_maintenance t = w_maintenance w"
  using assms
proof (induction rows arbitrary: acc w)
  case Nil
  then show ?case by (simp add: ret_def)
next
  case (Cons r rows)
  from Cons.prems(1) obtain acc1 w1 where one: "claim_one ev p n x r acc w = (Inr acc1, w1)"
    and loop: "foldOp (claim_one ev p n x) rows acc1 w1 = (Inr cs, t)"
    by (auto simp: run_iffs)
  have un: "unleased p n (wr_id r) (w_db w)" using Cons.prems(3) by simp
  note f = claim_one_InrD [OF one un]
  obtain c where c: "acc1 = acc @ [c]" "ow_id (cw_watch c) = wr_id r" "cw_leaseExpiresAt c = x"
    "leased p (wr_id r) (cw_leaseId c) x (w_db w1)" using f(1) by blast
  have "\<forall>s \<in> set rows. unleased p n (wr_id s) (w_db w1)"
  proof
    fix s assume "s \<in> set rows"
    then have "wr_id s \<noteq> wr_id r" using Cons.prems(2) by (auto simp: image_iff)
    moreover have "unleased p n (wr_id s) (w_db w)" using \<open>s \<in> set rows\<close> Cons.prems(3) by simp
    ultimately show "unleased p n (wr_id s) (w_db w1)" using f(3) by simp
  qed
  from Cons.IH [OF loop _ this] Cons.prems(2) obtain bs where bs: "cs = acc1 @ bs"
    "map (\<lambda>c. ow_id (cw_watch c)) bs = map wr_id rows"
    "\<forall>c \<in> set bs. cw_leaseExpiresAt c = x \<and> leased p (ow_id (cw_watch c)) (cw_leaseId c) x (w_db t)"
    "\<forall>i li y. i \<notin> wr_id ` set rows \<longrightarrow> leased p i li y (w_db t) = leased p i li y (w_db w1)"
    "watches (w_db t) = watches (w_db w1)" "w_clock t = w_clock w1" "w_reads t = w_reads w1"
    "w_maintenance t = w_maintenance w1"
    by auto
  have "leased p (wr_id r) (cw_leaseId c) x (w_db t)" using bs(4) c(4) Cons.prems(2) by simp
  with bs c f show ?case by (intro exI [of _ "c # bs"]) simp
qed

lemma eligible_ids_distinct: "database_ok db \<Longrightarrow> distinct (map wr_id (watches db))"
proof -
  have "no_clash watch_clash rows \<Longrightarrow> distinct (map wr_id rows)" for rows
    by (induction rows) (auto simp: list_all_iff watch_clash_def)
  then show "database_ok db \<Longrightarrow> distinct (map wr_id (watches db))" using database_ok_tables(8) by blast
qed

lemma eligible_watches_distinct:
  assumes "database_ok db"
  shows "distinct (map wr_id (eligible_watches p n l db))"
proof -
  have "distinct (map wr_id (filter Q (watches db)))" for Q
    using eligible_ids_distinct [OF assms] by (simp add: distinct_map inj_on_def)
  moreover have "mset (map wr_id (sort_key k rows)) = mset (map wr_id rows)" for k :: "watch_row \<Rightarrow> string \<times> string" and rows
    by simp
  ultimately have "distinct (map wr_id (sort_key (\<lambda>r. (wr_createdAt r, wr_id r)) (filter Q (watches db))))" for Q
    using mset_eq_imp_distinct_iff by blast
  then show ?thesis by (simp add: eligible_watches_def flip: take_map)
qed

lemma eligible_watches_set:
  "r \<in> set (eligible_watches p n l db) \<Longrightarrow> r \<in> set (watches db) \<and> eligible_watch p n (evaluation_leases db) r"
  by (auto simp: eligible_watches_def dest: in_set_takeD)

lemma eligible_unleased: "eligible_watch p n (evaluation_leases db) r \<Longrightarrow> unleased p n (wr_id r) db"
  by (fastforce simp: eligible_watch_def unleased_def live_lease_def list_ex_iff dest: find_SomeD)

lemma leased_not_eligible:
  "leased p i li x db \<Longrightarrow> n < x \<Longrightarrow> eligible_watch p n (evaluation_leases db) r \<Longrightarrow> wr_id r \<noteq> i"
  by (fastforce simp: eligible_watch_def leased_def live_lease_def list_ex_iff dest: find_SomeD)

lemma claimWatchesForEvaluation_InrD:
  assumes "claimWatchesForEvaluation ev p l s w = (Inr cs, t)" "database_ok (w_db w)"
  defines "n \<equiv> to_iso (w_clock w (w_reads w))" and "x \<equiv> to_iso (w_clock w (w_reads w) + s * 1000)"
  shows "map (\<lambda>c. ow_id (cw_watch c)) cs = map wr_id (eligible_watches p n l (w_db w))"
    and "\<forall>c \<in> set cs. cw_leaseExpiresAt c = x \<and> leased p (ow_id (cw_watch c)) (cw_leaseId c) x (w_db t)"
    and "watches (w_db t) = watches (w_db w)" "w_clock t = w_clock w" "w_reads t = Suc (w_reads w)"
    and "\<not> w_maintenance t" "0 < l" "0 < s" "trim p \<noteq> []"
proof -
  let ?rows = "eligible_watches p n l (w_db w)"
  from assms(1) obtain w1 where loop: "foldOp (claim_one ev p n x) ?rows [] w1 = (Inr cs, t)"
    and w1: "w_db w1 = w_db w" "w_clock w1 = w_clock w" "w_reads w1 = Suc (w_reads w)" "\<not> w_maintenance w1"
    and checks: "0 < l" "0 < s" "trim p \<noteq> []"
    by (fastforce simp: claimWatchesForEvaluation_def run_iffs Let_def requireNonEmpty_def
        requirePositiveInt_def n_def x_def split: if_splits)
  have "\<forall>r \<in> set ?rows. unleased p n (wr_id r) (w_db w1)"
    unfolding w1 using eligible_watches_set eligible_unleased by blast
  from claim_loop_InrD [OF loop eligible_watches_distinct [OF assms(2)] this] w1
  show "map (\<lambda>c. ow_id (cw_watch c)) cs = map wr_id ?rows"
    and "\<forall>c \<in> set cs. cw_leaseExpiresAt c = x \<and> leased p (ow_id (cw_watch c)) (cw_leaseId c) x (w_db t)"
    and "watches (w_db t) = watches (w_db w)" "w_clock t = w_clock w" "w_reads t = Suc (w_reads w)"
    and "\<not> w_maintenance t"
    by auto
  show "0 < l" "0 < s" "trim p \<noteq> []" by fact+
qed

subsection \<open>Completing\<close>

lemma completeEvaluation_InrD:
  assumes "completeEvaluation li p ce w = (Inr u, t)"
    "find (\<lambda>l. el_leaseId l = li) (evaluation_leases (w_db w)) = Some l" "el_packageId l = p"
  shows "watches (w_db t) = update_rows (\<lambda>r. wr_id r = el_watchId l) (\<lambda>r. r\<lparr>wr_lastEvaluatedPackageId := Some p,
           wr_updatedAt := to_iso (w_clock w (w_reads w))\<rparr>) (watches (w_db w))"
    and "evaluation_leases (w_db t) = delete_rows (\<lambda>m. el_leaseId m = li) (evaluation_leases (w_db w))"
    and "ce = None \<Longrightarrow> last_evaluations (w_db t) = last_evaluations (w_db w)"
    and "ce = Some e \<Longrightarrow> find (\<lambda>r. le_watchId r = el_watchId l \<and> le_recipeId r = ce_recipeId e)
           (last_evaluations (w_db t)) = Some \<lparr>le_watchId = el_watchId l, le_recipeId = ce_recipeId e,
             le_packageId = p, le_cutoffMonth = ce_cutoffMonth e, le_resultDigest = ce_resultDigest e,
             le_state = ce_state e, le_growthRateDecimal = ce_growthRateDecimal e,
             le_confidence = ce_confidence e, le_evaluatedAt = to_iso (w_clock w (Suc (w_reads w))),
             le_alertEventId = ce_alertEventId e\<rparr>"
    and "\<not> w_maintenance t"
proof -
  note d = completeEvaluation_def run_iffs record_evaluation_def requireNonEmpty_def
    upsert_last_evaluation_def ebind_Inr_iff
  show "watches (w_db t) = update_rows (\<lambda>r. wr_id r = el_watchId l) (\<lambda>r. r\<lparr>wr_lastEvaluatedPackageId := Some p,
           wr_updatedAt := to_iso (w_clock w (w_reads w))\<rparr>) (watches (w_db w))"
    and "evaluation_leases (w_db t) = delete_rows (\<lambda>m. el_leaseId m = li) (evaluation_leases (w_db w))"
    and "\<not> w_maintenance t"
    using assms by (auto simp: d split: option.splits if_splits)
  show "ce = None \<Longrightarrow> last_evaluations (w_db t) = last_evaluations (w_db w)"
    using assms by (auto simp: d split: option.splits if_splits)
  assume e: "ce = Some e"
  let ?r = "\<lparr>le_watchId = el_watchId l, le_recipeId = ce_recipeId e,
             le_packageId = p, le_cutoffMonth = ce_cutoffMonth e, le_resultDigest = ce_resultDigest e,
             le_state = ce_state e, le_growthRateDecimal = ce_growthRateDecimal e,
             le_confidence = ce_confidence e, le_evaluatedAt = to_iso (w_clock w (Suc (w_reads w))),
             le_alertEventId = ce_alertEventId e\<rparr>"
  have "\<exists>rows. upsert_update evaluation_clash evaluation_clash ''operational_last_evaluation'' ?r (\<lambda>_. ?r)
      (last_evaluations (w_db w)) = Inr rows \<and> last_evaluations (w_db t) = rows"
    using assms e by (auto simp: d split: option.splits if_splits)
  then obtain rows where up: "upsert_update evaluation_clash evaluation_clash ''operational_last_evaluation'' ?r (\<lambda>_. ?r)
      (last_evaluations (w_db w)) = Inr rows" and rows: "last_evaluations (w_db t) = rows" by blast
  define r where "r = ?r"
  have P: "evaluation_clash r = (\<lambda>q. le_watchId q = el_watchId l \<and> le_recipeId q = ce_recipeId e)"
    by (intro ext) (auto simp: evaluation_clash_def r_def)
  consider "find (evaluation_clash r) (last_evaluations (w_db w)) = None" "rows = last_evaluations (w_db w) @ [r]"
    | "find (evaluation_clash r) (last_evaluations (w_db w)) \<noteq> None"
      "rows = update_rows (evaluation_clash r) (\<lambda>_. r) (last_evaluations (w_db w))"
    using up unfolding r_def [symmetric]
    by (auto simp: upsert_update_def insert_row_Inr split: option.splits if_splits)
  then have "find (evaluation_clash r) rows = Some r"
  proof cases
    case 1
    then show ?thesis by (simp add: find_append evaluation_clash_def)
  next
    case 2
    have "find (evaluation_clash r) qs \<noteq> None \<Longrightarrow>
        find (evaluation_clash r) (update_rows (evaluation_clash r) (\<lambda>_. r) qs) = Some r" for qs
      by (induction qs) (auto simp: update_rows_def evaluation_clash_def)
    with 2 show ?thesis by simp
  qed
  then show "find (\<lambda>r. le_watchId r = el_watchId l \<and> le_recipeId r = ce_recipeId e)
           (last_evaluations (w_db t)) = Some ?r"
    unfolding P rows by (simp add: r_def)
qed

lemma completeEvaluation_stale:
  assumes "\<not> w_maintenance w"
    "\<forall>l. find (\<lambda>l. el_leaseId l = li) (evaluation_leases (w_db w)) = Some l \<longrightarrow> el_packageId l \<noteq> p"
  shows "completeEvaluation li p ce w = (Inr (), w)"
  using assms by (auto simp: completeEvaluation_def run_defs split: option.splits)

subsection \<open>Alert events, deliveries, opening\<close>

lemma recordAlertEvent_InrD:
  assumes "recordAlertEvent i w = (Inr (e, created), t)"
  defines "Q \<equiv> \<lambda>e. ae_watchId e = ri_watchId i \<and> ae_dedupeKey e = ri_dedupeKey i"
  shows "created \<longleftrightarrow> find Q (alert_events (w_db w)) = None"
    and "created \<Longrightarrow> w_db t = (w_db w)\<lparr>alert_events := alert_events (w_db w) @ [e]\<rparr>"
    and "created \<Longrightarrow> ae_kind e = ri_kind i \<and> ae_detail e = ri_detail i \<and> ae_occurredAt e = ri_occurredAt i
           \<and> (\<exists>r \<in> set (watches (w_db w)). wr_id r = ri_watchId i \<and> ae_accountId e = wr_accountId r)"
    and "\<not> created \<Longrightarrow> w_db t = w_db w"
    and "find Q (alert_events (w_db t)) = Some e"
proof -
  from assms(1) obtain wr ei o1 o2 o3 o4 ts where
    wr: "find (\<lambda>r. wr_id r = ri_watchId i) (watches (w_db w)) = Some wr"
    and ins0: "insert_event_once \<lparr>ae_id = ei, ae_watchId = ri_watchId i, ae_accountId = wr_accountId wr, ae_kind = ri_kind i,
        ae_dedupeKey = ri_dedupeKey i, ae_recipeId = o1, ae_packageId = o2, ae_supersededPackageId = o3,
        ae_cutoffMonth = o4, ae_priorEventId = ri_priorEventId i, ae_detail = ri_detail i,
        ae_occurredAt = ri_occurredAt i, ae_createdAt = ts\<rparr> (w_db w) = Inr (w_db t)"
    and c0: "created = (\<not> list_ex (event_target \<lparr>ae_id = ei, ae_watchId = ri_watchId i, ae_accountId = wr_accountId wr, ae_kind = ri_kind i,
        ae_dedupeKey = ri_dedupeKey i, ae_recipeId = o1, ae_packageId = o2, ae_supersededPackageId = o3,
        ae_cutoffMonth = o4, ae_priorEventId = ri_priorEventId i, ae_detail = ri_detail i,
        ae_occurredAt = ri_occurredAt i, ae_createdAt = ts\<rparr>) (alert_events (w_db w)))"
    and e: "e = the (find Q (alert_events (w_db t)))"
    unfolding Q_def
    by (cases created) (auto simp: recordAlertEvent_def run_iffs Let_def requireNonEmpty_def
        split: if_splits option.splits)
  define ev where "ev = \<lparr>ae_id = ei, ae_watchId = ri_watchId i, ae_accountId = wr_accountId wr, ae_kind = ri_kind i,
        ae_dedupeKey = ri_dedupeKey i, ae_recipeId = o1, ae_packageId = o2, ae_supersededPackageId = o3,
        ae_cutoffMonth = o4, ae_priorEventId = ri_priorEventId i, ae_detail = ri_detail i,
        ae_occurredAt = ri_occurredAt i, ae_createdAt = ts\<rparr>"
  have ev: "ae_watchId ev = ri_watchId i" "ae_dedupeKey ev = ri_dedupeKey i" "ae_kind ev = ri_kind i"
      "ae_detail ev = ri_detail i" "ae_occurredAt ev = ri_occurredAt i" "ae_accountId ev = wr_accountId wr"
    by (simp_all add: ev_def)
  note ins = ins0 [folded ev_def] and c = c0 [folded ev_def]
  have Q: "event_target ev = Q" using ev by (intro ext) (auto simp: event_target_def Q_def)
  from ins obtain rows where up: "upsert_nothing event_target event_clash ''operational_alert_event.id'' ev
      (alert_events (w_db w)) = Inr rows" and t: "w_db t = (w_db w)\<lparr>alert_events := rows\<rparr>"
    by (auto simp: insert_event_once_def ebind_Inr_iff)
  have rows: "rows = (if created then alert_events (w_db w) @ [ev] else alert_events (w_db w))"
    using up c by (auto simp: upsert_nothing_def insert_row_def split: if_splits)
  show c': "created \<longleftrightarrow> find Q (alert_events (w_db w)) = None"
    by (auto simp: c Q list_ex_iff find_None_iff)
  have "Q ev" using ev by (simp add: Q_def)
  with c' have found: "find Q rows \<noteq> None" "created \<Longrightarrow> find Q rows = Some ev"
    by (auto simp: rows find_append)
  then show "find Q (alert_events (w_db t)) = Some e" using e t by auto
  then have ee: "created \<Longrightarrow> e = ev" using found(2) t by simp
  show "created \<Longrightarrow> w_db t = (w_db w)\<lparr>alert_events := alert_events (w_db w) @ [e]\<rparr>"
    using t rows ee by simp
  show "created \<Longrightarrow> ae_kind e = ri_kind i \<and> ae_detail e = ri_detail i \<and> ae_occurredAt e = ri_occurredAt i
           \<and> (\<exists>r \<in> set (watches (w_db w)). wr_id r = ri_watchId i \<and> ae_accountId e = wr_accountId r)"
    using ee ev find_SomeD [OF wr] by auto
  show "\<not> created \<Longrightarrow> w_db t = w_db w" using t rows by simp
qed

lemma recordDeliveryAttempt_InrD:
  assumes "recordDeliveryAttempt i w = (Inr d, t)"
  defines "Q \<equiv> \<lambda>d. ds_eventId d = di_eventId i \<and> ds_channel d = di_channel i"
  shows "find Q (delivery_states (w_db t)) = Some d" "di_eventId i \<in> event_ids (w_db w)" "di_status i \<noteq> PENDING"
    "ds_status d = di_status i" "ds_lastOutcome d = Some (di_outcome i)"
    "ds_attempts d = (case find Q (delivery_states (w_db w)) of None \<Rightarrow> 1 | Some p \<Rightarrow> ds_attempts p + 1)"
    "find Q (delivery_states (w_db w)) = Some p \<Longrightarrow> ds_deliveryId d = ds_deliveryId p
       \<and> ds_idempotencyKey d = ds_idempotencyKey p
       \<and> ds_providerReceipt d = coalesce (di_providerReceipt i) (ds_providerReceipt p)"
    "find Q (delivery_states (w_db w)) = None \<Longrightarrow> ds_idempotencyKey d = deliveryIdempotencyKey (di_eventId i) (di_channel i)"
proof -
  let ?f = "\<lambda>r s. s\<lparr>ds_status := ds_status r, ds_attempts := ds_attempts s + 1,
                     ds_lastAttemptAt := ds_lastAttemptAt r,
                     ds_providerReceipt := coalesce (ds_providerReceipt r) (ds_providerReceipt s),
                     ds_lastOutcome := ds_lastOutcome r, ds_failureReason := ds_failureReason r,
                     ds_updatedAt := ds_updatedAt r\<rparr>"
  from assms(1) obtain di ts fr where
    ins0: "upsert_delivery \<lparr>ds_deliveryId = di, ds_eventId = di_eventId i, ds_channel = di_channel i,
          ds_idempotencyKey = deliveryIdempotencyKey (di_eventId i) (di_channel i), ds_status = di_status i,
          ds_attempts = 1, ds_lastAttemptAt = ts, ds_providerReceipt = di_providerReceipt i,
          ds_lastOutcome = Some (di_outcome i), ds_failureReason = fr, ds_updatedAt = ts\<rparr> (w_db w) = Inr (w_db t)"
    and p: "di_status i \<noteq> PENDING" "di_eventId i \<in> event_ids (w_db w)"
    and d: "d = the (find Q (delivery_states (w_db t)))"
    unfolding Q_def
    by (auto simp: recordDeliveryAttempt_def run_iffs Let_def requireNonEmpty_def require_event_def
        normalizeDeliveryStatus_def getDeliveryState_def split: if_splits)
  define r where "r = \<lparr>ds_deliveryId = di, ds_eventId = di_eventId i, ds_channel = di_channel i,
          ds_idempotencyKey = deliveryIdempotencyKey (di_eventId i) (di_channel i), ds_status = di_status i,
          ds_attempts = 1, ds_lastAttemptAt = ts, ds_providerReceipt = di_providerReceipt i,
          ds_lastOutcome = Some (di_outcome i), ds_failureReason = fr, ds_updatedAt = ts\<rparr>"
  have r: "ds_eventId r = di_eventId i" "ds_channel r = di_channel i"
      "ds_status r = di_status i" "ds_lastOutcome r = Some (di_outcome i)" "ds_attempts r = 1"
      "ds_providerReceipt r = di_providerReceipt i"
      "ds_idempotencyKey r = deliveryIdempotencyKey (di_eventId i) (di_channel i)"
    by (simp_all add: r_def)
  note ins = ins0 [folded r_def]
  have Q: "delivery_target r = Q" using r by (intro ext) (auto simp: delivery_target_def Q_def)
  from ins obtain rows where up: "upsert_update delivery_target delivery_clash
      ''operational_delivery_state.delivery_id'' r (?f r) (delivery_states (w_db w)) = Inr rows"
    and t: "delivery_states (w_db t) = rows"
    by (auto simp: upsert_delivery_def ebind_Inr_iff)
  from upsert_update_find [OF up] have
    f: "find Q rows = Some (case find Q (delivery_states (w_db w)) of None \<Rightarrow> r | Some s \<Rightarrow> ?f r s)"
    unfolding Q by (simp add: Q_def r)
  then show "find Q (delivery_states (w_db t)) = Some d" using d t by simp
  from f d t have dd: "d = (case find Q (delivery_states (w_db w)) of None \<Rightarrow> r | Some s \<Rightarrow> ?f r s)" by simp
  show "di_eventId i \<in> event_ids (w_db w)" "di_status i \<noteq> PENDING" by fact+
  show "ds_status d = di_status i" "ds_lastOutcome d = Some (di_outcome i)"
    "ds_attempts d = (case find Q (delivery_states (w_db w)) of None \<Rightarrow> 1 | Some p \<Rightarrow> ds_attempts p + 1)"
    "find Q (delivery_states (w_db w)) = Some p \<Longrightarrow> ds_deliveryId d = ds_deliveryId p
       \<and> ds_idempotencyKey d = ds_idempotencyKey p
       \<and> ds_providerReceipt d = coalesce (di_providerReceipt i) (ds_providerReceipt p)"
    "find Q (delivery_states (w_db w)) = None \<Longrightarrow> ds_idempotencyKey d = deliveryIdempotencyKey (di_eventId i) (di_channel i)"
    unfolding dd using r by (auto split: option.splits)
qed

text \<open>The row an \<^verbatim>\<open>openWatch\<close> call is about: the one of its account and context.\<close>

definition watch_key :: "string \<Rightarrow> open_watch_input \<Rightarrow> watch_row \<Rightarrow> bool" where
  "watch_key accountId i r \<longleftrightarrow> wr_accountId r = accountId
     \<and> wr_reportingEconomyIso2 r = or_else (oi_reportingEconomyIso2 i) (oi_marketEconomy i)
     \<and> wr_hsRevision r = pf_hsRevision (oi_product i)
     \<and> wr_hs12Code r = or_else (oi_hs12Code i) (pf_code (oi_product i))
     \<and> normalizeCadence (or_else (oi_cadence i) ''MONTHLY'') = Inr (wr_cadence r)
     \<and> wr_exportEconomyCode r = or_else (oi_exportEconomyCode i) []"

lemma openWatch_InrD:
  assumes "openWatch a i w = (Inr x, t)"
  shows "\<exists>r. find (watch_key a i) (watches (w_db t)) = Some r \<and> x = mapWatchWithLastEvaluation r (w_db t)
    \<and> (if find (watch_key a i) (watches (w_db w)) = None
       then w_db t = (w_db w)\<lparr>watches := watches (w_db w) @ [r]\<rparr> \<and> wr_status r = ACTIVE \<and> wr_deletedAt r = None
       else w_db t = w_db w)"
    and "a \<in> account_ids (w_db w)" "\<not> w_maintenance t"
proof -
  from assms obtain wi ts ci cad where
    c: "normalizeCadence (or_else (oi_cadence i) ''MONTHLY'') = Inr cad"
    and ins0: "insert_watch_once \<lparr>wr_id = wi, wr_accountId = a, wr_hsRevision = pf_hsRevision (oi_product i),
              wr_code = pf_code (oi_product i), wr_marketEconomy = oi_marketEconomy i,
              wr_reportingEconomyIso2 = or_else (oi_reportingEconomyIso2 i) (oi_marketEconomy i),
              wr_hs12Code = or_else (oi_hs12Code i) (pf_code (oi_product i)),
              wr_exportEconomyCode = or_else (oi_exportEconomyCode i) [],
              wr_cadence = cad, wr_deliveryPreferences = or_else (oi_deliveryPreferences i) [],
              wr_contextIdentity = ci, wr_status = ACTIVE, wr_createdAt = ts,
              wr_updatedAt = ts, wr_pausedAt = None, wr_deletedAt = None,
              wr_lastEvaluatedPackageId = None\<rparr> (w_db w) = Inr (w_db t)"
    and acc: "a \<in> account_ids (w_db w)" "\<not> w_maintenance t"
    and x0: "x = mapWatchWithLastEvaluation (the (find (watch_context \<lparr>wr_id = wi, wr_accountId = a, wr_hsRevision = pf_hsRevision (oi_product i),
              wr_code = pf_code (oi_product i), wr_marketEconomy = oi_marketEconomy i,
              wr_reportingEconomyIso2 = or_else (oi_reportingEconomyIso2 i) (oi_marketEconomy i),
              wr_hs12Code = or_else (oi_hs12Code i) (pf_code (oi_product i)),
              wr_exportEconomyCode = or_else (oi_exportEconomyCode i) [],
              wr_cadence = cad, wr_deliveryPreferences = or_else (oi_deliveryPreferences i) [],
              wr_contextIdentity = ci, wr_status = ACTIVE, wr_createdAt = ts,
              wr_updatedAt = ts, wr_pausedAt = None, wr_deletedAt = None,
              wr_lastEvaluatedPackageId = None\<rparr>) (watches (w_db t)))) (w_db t)"
    by (auto simp: openWatch_def run_iffs Let_def requireNonEmpty_def requireAccount_Inr
        computeWatchContextIdentity_def split: if_splits)
  define r where "r = \<lparr>wr_id = wi, wr_accountId = a, wr_hsRevision = pf_hsRevision (oi_product i),
              wr_code = pf_code (oi_product i), wr_marketEconomy = oi_marketEconomy i,
              wr_reportingEconomyIso2 = or_else (oi_reportingEconomyIso2 i) (oi_marketEconomy i),
              wr_hs12Code = or_else (oi_hs12Code i) (pf_code (oi_product i)),
              wr_exportEconomyCode = or_else (oi_exportEconomyCode i) [],
              wr_cadence = cad, wr_deliveryPreferences = or_else (oi_deliveryPreferences i) [],
              wr_contextIdentity = ci, wr_status = ACTIVE, wr_createdAt = ts,
              wr_updatedAt = ts, wr_pausedAt = None, wr_deletedAt = None,
              wr_lastEvaluatedPackageId = None\<rparr>"
  have r: "wr_accountId r = a"
      "wr_reportingEconomyIso2 r = or_else (oi_reportingEconomyIso2 i) (oi_marketEconomy i)"
      "wr_hsRevision r = pf_hsRevision (oi_product i)"
      "wr_hs12Code r = or_else (oi_hs12Code i) (pf_code (oi_product i))"
      "normalizeCadence (or_else (oi_cadence i) ''MONTHLY'') = Inr (wr_cadence r)"
      "wr_exportEconomyCode r = or_else (oi_exportEconomyCode i) []"
      "wr_status r = ACTIVE" "wr_deletedAt r = None"
    by (simp_all add: r_def c)
  note ins = ins0 [folded r_def] and x = x0 [folded r_def]
  have Q: "watch_context r = watch_key a i" using r by (intro ext) (auto simp: watch_context_def watch_key_def)
  from ins obtain rows where up: "upsert_nothing watch_context watch_clash ''operational_watch.id'' r
      (watches (w_db w)) = Inr rows" and t: "w_db t = (w_db w)\<lparr>watches := rows\<rparr>"
    by (auto simp: insert_watch_once_def ebind_Inr_iff)
  show "\<exists>r. find (watch_key a i) (watches (w_db t)) = Some r \<and> x = mapWatchWithLastEvaluation r (w_db t)
    \<and> (if find (watch_key a i) (watches (w_db w)) = None
       then w_db t = (w_db w)\<lparr>watches := watches (w_db w) @ [r]\<rparr> \<and> wr_status r = ACTIVE \<and> wr_deletedAt r = None
       else w_db t = w_db w)"
  proof (cases "find (watch_key a i) (watches (w_db w))")
    case None
    then have "rows = watches (w_db w) @ [r]"
      using up by (auto simp: upsert_nothing_def insert_row_def Q list_ex_iff find_None_iff split: if_splits)
    moreover have "watch_key a i r" using r by (simp add: watch_key_def)
    ultimately show ?thesis using None x t r by (simp add: find_append Q)
  next
    case (Some s)
    then have "list_ex (watch_key a i) (watches (w_db w))" by (auto simp: list_ex_iff dest: find_SomeD)
    then have "rows = watches (w_db w)" using up by (simp add: upsert_nothing_def Q)
    then show ?thesis using Some x t by (simp add: Q)
  qed
  show "a \<in> account_ids (w_db w)" "\<not> w_maintenance t" by fact+
qed

lemma deleteWatch_InrD:
  assumes "deleteWatch i w = (Inr y, t)"
  shows "\<exists>ts. w_db t = (w_db w)\<lparr>watches := update_rows (open_watch i)
      (\<lambda>r. r\<lparr>wr_status := PAUSED, wr_deletedAt := coalesce (wr_deletedAt r) (Some ts), wr_updatedAt := ts\<rparr>)
      (watches (w_db w))\<rparr>"
  using assms by (auto simp: deleteWatch_def update_watch_def findWatch_def run_iffs
      split: if_splits option.splits)

subsection \<open>Properties\<close>

text \<open>C3: claiming takes exactly the first eligible watches in the order of their creation, each once,
  and as long as its lease lives no other evaluator's claim for the same package gets one of them.\<close>

theorem watches_are_claimed_exclusively:
  assumes "claimWatchesForEvaluation ev p l s w = (Inr cs, t)" "database_ok (w_db w)"
    and "year_0_to_9999 (w_clock t (w_reads t))" "year_0_to_9999 (w_clock w (w_reads w) + s * 1000)"
  shows "map (\<lambda>c. ow_id (cw_watch c)) cs
      = map wr_id (eligible_watches p (to_iso (w_clock w (w_reads w))) l (w_db w))
    \<and> distinct (map (\<lambda>c. ow_id (cw_watch c)) cs) \<and> length cs \<le> nat l
    \<and> (w_clock t (w_reads t) < w_clock w (w_reads w) + s * 1000 \<longrightarrow>
        (\<forall>ev' l' s' cs' t'. claimWatchesForEvaluation ev' p l' s' t = (Inr cs', t') \<longrightarrow>
           (\<forall>c \<in> set cs. \<forall>c' \<in> set cs'. ow_id (cw_watch c) \<noteq> ow_id (cw_watch c'))))"
proof (intro conjI impI allI ballI)
  note f = claimWatchesForEvaluation_InrD [OF assms(1,2)]
  show ids: "map (\<lambda>c. ow_id (cw_watch c)) cs
      = map wr_id (eligible_watches p (to_iso (w_clock w (w_reads w))) l (w_db w))" by (rule f(1))
  show "distinct (map (\<lambda>c. ow_id (cw_watch c)) cs)"
    unfolding ids by (rule eligible_watches_distinct [OF assms(2)])
  have "length cs = length (eligible_watches p (to_iso (w_clock w (w_reads w))) l (w_db w))"
    using arg_cong [OF ids, of length] by simp
  then show "length cs \<le> nat l" by (simp add: eligible_watches_def)
  fix ev' l' s' cs' t' c c'
  assume early: "w_clock t (w_reads t) < w_clock w (w_reads w) + s * 1000"
    and again: "claimWatchesForEvaluation ev' p l' s' t = (Inr cs', t')" and c: "c \<in> set cs" and c': "c' \<in> set cs'"
  have "database_ok (w_db t)" using keepsD [OF watch_operations_keep(7) _ assms(1)] assms(2) by simp
  from claimWatchesForEvaluation_InrD(1) [OF again this]
  have "ow_id (cw_watch c') \<in> wr_id ` set (eligible_watches p (to_iso (w_clock t (w_reads t))) l' (w_db t))"
    using c' by (metis (no_types, lifting) image_eqI set_map)
  then obtain r where r: "wr_id r = ow_id (cw_watch c')"
    "eligible_watch p (to_iso (w_clock t (w_reads t))) (evaluation_leases (w_db t)) r"
    by (auto dest: eligible_watches_set)
  have "to_iso (w_clock t (w_reads t)) < to_iso (w_clock w (w_reads w) + s * 1000)"
    using early iso.text_less [OF assms(3,4)] by simp
  with leased_not_eligible [OF _ this r(2)] f(2) c r(1) show "ow_id (cw_watch c) \<noteq> ow_id (cw_watch c')" by metis
qed

text \<open>Completing an evaluation releases its lease, stores the given evaluation as the one of its
  recipe, and marks the watch, which is then never claimed for that package again; a completion
  with an unknown lease or another package changes nothing.\<close>

theorem completed_evaluation_is_final:
  assumes "completeEvaluation li p ce w = (Inr u, t)" "database_ok (w_db w)"
    and "find (\<lambda>l. el_leaseId l = li) (evaluation_leases (w_db w)) = Some le" "el_packageId le = p"
  shows "(\<forall>l \<in> set (evaluation_leases (w_db t)). el_leaseId l \<noteq> li)
    \<and> (\<forall>e. ce = Some e \<longrightarrow> (\<exists>r. find (\<lambda>r. le_watchId r = el_watchId le \<and> le_recipeId r = ce_recipeId e)
          (last_evaluations (w_db t)) = Some r \<and> le_packageId r = p \<and> le_resultDigest r = ce_resultDigest e
          \<and> le_state r = ce_state e \<and> le_alertEventId r = ce_alertEventId e))
    \<and> (\<forall>ev l s cs t'. claimWatchesForEvaluation ev p l s t = (Inr cs, t') \<longrightarrow>
          (\<forall>c \<in> set cs. ow_id (cw_watch c) \<noteq> el_watchId le))
    \<and> completeEvaluation li p ce t = (Inr (), t)"
proof (intro conjI allI impI ballI)
  note f = completeEvaluation_InrD [OF assms(1,3,4)]
  show "\<And>l. l \<in> set (evaluation_leases (w_db t)) \<Longrightarrow> el_leaseId l \<noteq> li" using f(2) by simp
  show "\<exists>r. find (\<lambda>r. le_watchId r = el_watchId le \<and> le_recipeId r = ce_recipeId e)
          (last_evaluations (w_db t)) = Some r \<and> le_packageId r = p \<and> le_resultDigest r = ce_resultDigest e
          \<and> le_state r = ce_state e \<and> le_alertEventId r = ce_alertEventId e" if "ce = Some e" for e
    using f(4) [OF that] by simp
  have "find (\<lambda>l. el_leaseId l = li) (evaluation_leases (w_db t)) = None"
    using f(2) by (simp add: find_None_iff)
  then show "completeEvaluation li p ce t = (Inr (), t)"
    using f(5) by (intro completeEvaluation_stale) simp_all
  fix ev l s cs t' c
  assume claim: "claimWatchesForEvaluation ev p l s t = (Inr cs, t')" and c: "c \<in> set cs"
  have "database_ok (w_db t)" using keepsD [OF watch_operations_keep(8) _ assms(1)] assms(2) by simp
  from claimWatchesForEvaluation_InrD(1) [OF claim this]
  have "ow_id (cw_watch c) \<in> wr_id ` set (eligible_watches p (to_iso (w_clock t (w_reads t))) l (w_db t))"
    using c by (metis (no_types, lifting) image_eqI set_map)
  then obtain r where r: "wr_id r = ow_id (cw_watch c)" "r \<in> set (watches (w_db t))"
      "wr_lastEvaluatedPackageId r \<noteq> Some p"
    by (auto simp: eligible_watch_def dest!: eligible_watches_set)
  then obtain q where "r = (if wr_id q = el_watchId le then q\<lparr>wr_lastEvaluatedPackageId := Some p,
           wr_updatedAt := to_iso (w_clock w (w_reads w))\<rparr> else q)"
    unfolding f(1) in_update_rows by blast
  with r(1,3) show "ow_id (cw_watch c) \<noteq> el_watchId le" by (cases "wr_id q = el_watchId le") auto
qed

text \<open>An alert event is appended once for its watch and key: the first call appends it for the
  watch's account, and every later call with the same watch and key, whatever else it says,
  returns that event, reports that it created nothing and changes no row.\<close>

theorem alert_events_append_once:
  assumes "recordAlertEvent i w = (Inr (e, created), t)"
  shows "(if created then w_db t = (w_db w)\<lparr>alert_events := alert_events (w_db w) @ [e]\<rparr> \<and> ae_kind e = ri_kind i
            \<and> (\<exists>r \<in> set (watches (w_db w)). wr_id r = ri_watchId i \<and> ae_accountId e = wr_accountId r)
          else w_db t = w_db w \<and> e \<in> set (alert_events (w_db w)))
    \<and> ae_watchId e = ri_watchId i \<and> ae_dedupeKey e = ri_dedupeKey i
    \<and> (\<forall>j e' c' u. ri_watchId j = ri_watchId i \<and> ri_dedupeKey j = ri_dedupeKey i
          \<and> recordAlertEvent j t = (Inr (e', c'), u) \<longrightarrow> e' = e \<and> \<not> c' \<and> w_db u = w_db t)"
proof (intro conjI allI impI)
  note f = recordAlertEvent_InrD [OF assms]
  show "if created then w_db t = (w_db w)\<lparr>alert_events := alert_events (w_db w) @ [e]\<rparr> \<and> ae_kind e = ri_kind i
            \<and> (\<exists>r \<in> set (watches (w_db w)). wr_id r = ri_watchId i \<and> ae_accountId e = wr_accountId r)
          else w_db t = w_db w \<and> e \<in> set (alert_events (w_db w))"
  proof (cases created)
    case True
    with f(2,3) show ?thesis by simp
  next
    case False
    with f(4) find_SomeD [OF f(5)] show ?thesis by simp
  qed
  show "ae_watchId e = ri_watchId i" "ae_dedupeKey e = ri_dedupeKey i" using find_SomeD [OF f(5)] by simp_all
  fix j e' c' u
  assume j: "ri_watchId j = ri_watchId i \<and> ri_dedupeKey j = ri_dedupeKey i
          \<and> recordAlertEvent j t = (Inr (e', c'), u)"
  then have "recordAlertEvent j t = (Inr (e', c'), u)" by simp
  note g = recordAlertEvent_InrD [OF this]
  show c': "\<not> c'" using g(1) f(5) j by simp
  show "w_db u = w_db t" using g(4) c' by simp
  then show "e' = e" using g(5) f(5) j by simp
qed

text \<open>Every recorded delivery attempt counts: the state of an alert and channel has the status
  and outcome of the last attempt, one more attempt than before, the identity and idempotency key
  of the first, and the last receipt a provider gave.\<close>

theorem delivery_attempts_are_counted:
  assumes "recordDeliveryAttempt i w = (Inr d, t)"
  shows "getDeliveryState (di_eventId i) (di_channel i) t = (Inr (Some d), t)
    \<and> ds_status d = di_status i \<and> ds_lastOutcome d = Some (di_outcome i)
    \<and> (case find (\<lambda>d. ds_eventId d = di_eventId i \<and> ds_channel d = di_channel i) (delivery_states (w_db w)) of
         None \<Rightarrow> ds_attempts d = 1 \<and> ds_idempotencyKey d = deliveryIdempotencyKey (di_eventId i) (di_channel i)
       | Some p \<Rightarrow> ds_attempts d = ds_attempts p + 1 \<and> ds_deliveryId d = ds_deliveryId p
           \<and> ds_idempotencyKey d = ds_idempotencyKey p
           \<and> ds_providerReceipt d = coalesce (di_providerReceipt i) (ds_providerReceipt p))"
proof -
  note f = recordDeliveryAttempt_InrD [OF assms]
  show ?thesis
    using f(1,4,5,6,8) f(7) by (auto simp: getDeliveryState_def query_def split: option.splits)
qed

text \<open>Opening a watch is idempotent: the same account and context give one watch, and opening it
  again returns it and changes no row.\<close>

theorem one_watch_per_context:
  assumes "openWatch a i w = (Inr x, t)"
  shows "(find (watch_key a i) (watches (w_db w)) = None \<longrightarrow> ow_status x = ACTIVE \<and> ow_deletedAt x = None
        \<and> length (watches (w_db t)) = Suc (length (watches (w_db w))))
    \<and> (find (watch_key a i) (watches (w_db w)) \<noteq> None \<longrightarrow> w_db t = w_db w)
    \<and> (\<forall>y u. openWatch a i t = (Inr y, u) \<longrightarrow> y = x \<and> w_db u = w_db t)"
proof -
  from openWatch_InrD(1) [OF assms] obtain r where
    r: "find (watch_key a i) (watches (w_db t)) = Some r" "x = mapWatchWithLastEvaluation r (w_db t)"
    and c: "if find (watch_key a i) (watches (w_db w)) = None
       then w_db t = (w_db w)\<lparr>watches := watches (w_db w) @ [r]\<rparr> \<and> wr_status r = ACTIVE \<and> wr_deletedAt r = None
       else w_db t = w_db w" by blast
  have "ow_status x = wr_status r" "ow_deletedAt x = wr_deletedAt r"
    by (simp_all add: r(2) mapWatchWithLastEvaluation_def mapWatch_def)
  with c have "find (watch_key a i) (watches (w_db w)) = None \<longrightarrow> ow_status x = ACTIVE \<and> ow_deletedAt x = None
        \<and> length (watches (w_db t)) = Suc (length (watches (w_db w)))"
    "find (watch_key a i) (watches (w_db w)) \<noteq> None \<longrightarrow> w_db t = w_db w"
    by (cases "find (watch_key a i) (watches (w_db w)) = None"; simp)+
  moreover have "y = x \<and> w_db u = w_db t" if "openWatch a i t = (Inr y, u)" for y u
    using openWatch_InrD(1) [OF that] r by auto
  ultimately show ?thesis by blast
qed

text \<open>C34: a deleted watch is never opened again: opening its context returns the deleted watch, which
  no other operation of the store finds.\<close>

theorem deleted_watch_is_not_reopened:
  assumes "openWatch a i w = (Inr x, t)" "deleteWatch (ow_id x) t = (Inr d, t')" "openWatch a i t' = (Inr y, u)"
    and "ow_deletedAt x = None"
  shows "ow_id y = ow_id x \<and> ow_deletedAt y \<noteq> None \<and> ow_status y = PAUSED \<and> w_db u = w_db t'"
proof -
  from openWatch_InrD(1) [OF assms(1)] obtain r where
    r: "find (watch_key a i) (watches (w_db t)) = Some r" "x = mapWatchWithLastEvaluation r (w_db t)" by blast
  obtain ts where t': "w_db t' = (w_db t)\<lparr>watches := update_rows (open_watch (ow_id x))
      (\<lambda>r. r\<lparr>wr_status := PAUSED, wr_deletedAt := coalesce (wr_deletedAt r) (Some ts), wr_updatedAt := ts\<rparr>)
      (watches (w_db t))\<rparr>" (is "_ = (w_db t)\<lparr>watches := update_rows _ ?f _\<rparr>")
    using deleteWatch_InrD [OF assms(2)] by blast
  have f: "find (watch_key a i) (watches (w_db t')) = Some (if open_watch (ow_id x) r then ?f r else r)"
    using find_update_rows [where P = "watch_key a i" and f = ?f] r(1) by (simp add: t' watch_key_def)
  from openWatch_InrD(1) [OF assms(3)] f have
    y: "y = mapWatchWithLastEvaluation (if open_watch (ow_id x) r then ?f r else r) (w_db u)" and u: "w_db u = w_db t'"
    by auto
  have "wr_deletedAt r = None" using assms(4) r(2) by (simp add: mapWatchWithLastEvaluation_def mapWatch_def)
  with y u r(2) show ?thesis
    by (simp add: open_watch_def mapWatchWithLastEvaluation_def mapWatch_def coalesce_def)
qed

text \<open>One application lease: acquiring it fails exactly while a lease of another token has not
  expired, it then changes no row and names the holder, and closing the holder frees it.\<close>

theorem single_application_lease:
  assumes "acquireApplicationLease h tok s w = (Inr u, t)" "tok' \<noteq> tok"
    and "year_0_to_9999 (w_clock w (w_reads w) + s * 1000)"
  shows "(w_clock t (w_reads t) < w_clock w (w_reads w) + s * 1000 \<longrightarrow>
        (\<exists>t'. acquireApplicationLease h' tok' s' t = (Inl (applicationLeaseUnavailable h), t') \<and> w_db t' = w_db t))
    \<and> (w_clock w (w_reads w) + s * 1000 \<le> w_clock t (w_reads t) \<longrightarrow>
        (\<exists>t'. acquireApplicationLease h' tok' s' t = (Inr (), t')))
    \<and> (\<exists>t1 t2. close tok t = (Inr (), t1) \<and> acquireApplicationLease h' tok' s' t1 = (Inr (), t2))
    \<and> (\<exists>t'. acquireApplicationLease h tok s' t = (Inr (), t'))"
proof -
  have t: "application_leases (w_db t) = Some \<lparr>al_holder = h, al_token = tok,
      al_acquiredAt = to_iso (w_clock w (w_reads w)), al_expiresAt = to_iso (w_clock w (w_reads w) + s * 1000)\<rparr>"
    using assms(1) by (auto simp: acquireApplicationLease_def run_iffs Let_def split: if_splits)
  show ?thesis
    using assms(2) date_parse_to_iso [OF assms(3)]
    by (auto simp: acquireApplicationLease_def run_defs t close_def split: option.splits)
qed


subsection \<open>Applying the properties\<close>

definition sample_input :: open_watch_input where
  "sample_input = \<lparr>oi_product = product_a, oi_marketEconomy = ''DE'', oi_reportingEconomyIso2 = None,
     oi_hs12Code = None, oi_exportEconomyCode = None, oi_cadence = None, oi_deliveryPreferences = None\<rparr>"

definition sample_watch :: watch_row where
  "sample_watch = \<lparr>wr_id = ''id-2'', wr_accountId = ''id-0'', wr_hsRevision = ''HS12'', wr_code = ''080440'',
     wr_marketEconomy = ''DE'', wr_reportingEconomyIso2 = ''DE'', wr_hs12Code = ''080440'',
     wr_exportEconomyCode = [], wr_cadence = MONTHLY, wr_deliveryPreferences = [],
     wr_contextIdentity = ''sha:opportunity-watch-context-v1|DE|HS12|080440'', wr_status = ACTIVE,
     wr_createdAt = to_iso 1767225601000, wr_updatedAt = to_iso 1767225601000, wr_pausedAt = None,
     wr_deletedAt = None, wr_lastEvaluatedPackageId = None\<rparr>"

definition watch_world :: world where
  "watch_world = snd (openWatch ''id-0'' sample_input registered_world)"

lemma watch_texts:
  "trim ''DE'' = ''DE''" "trim ''HS12'' = ''HS12''" "trim ''080440'' = ''080440''" "trim ''ev'' = ''ev''"
  "trim ''pkg'' = ''pkg''" "trim ''k'' = ''k''" "trim ''r'' = ''r''" "trim ''email'' = ''email''"
  "normalizeCadence ''MONTHLY'' = Inr MONTHLY"
  by code_simp+

lemma registered_world_empty:
  "watches (w_db registered_world) = []" "evaluation_leases (w_db registered_world) = []"
  "last_evaluations (w_db registered_world) = []" "alert_events (w_db registered_world) = []"
  "delivery_states (w_db registered_world) = []" "w_sha256 registered_world = w_sha256 sample_world"
  by (simp_all add: registered_world_def createAccountWithCredential_def run_defs normalize_sample trims
      insert_account_def insert_credential_def insert_row_def sample_world_def empty_database_def
      dec_one digit_chars account_ids_def)

lemma watch_opened:
  "openWatch ''id-0'' sample_input registered_world = (Inr (mapWatch sample_watch None), watch_world)"
  "watches (w_db watch_world) = [sample_watch]" "evaluation_leases (w_db watch_world) = []"
  "last_evaluations (w_db watch_world) = []" "alert_events (w_db watch_world) = []"
  "delivery_states (w_db watch_world) = []" "w_clock watch_world = w_clock sample_world"
  "w_reads watch_world = 2" "w_uuids watch_world = w_uuids sample_world" "w_drawn watch_world = 3"
  "\<not> w_maintenance watch_world" "accounts (w_db watch_world) = [sample_account]"
  by (simp_all add: watch_world_def openWatch_def sample_input_def product_a_def run_defs or_else_def
      watch_texts registered_world_facts registered_world_rest registered_world_empty
      computeWatchContextIdentity_def requireAccount_def findAccount_def sample_account_def
      insert_watch_once_def upsert_nothing_def insert_row_def account_ids_def watch_context_def
      mapWatchWithLastEvaluation_def latest_evaluation_def sample_watch_def sample_world_def
      normalize_samples)

lemma watch_world_ok: "database_ok (w_db watch_world)"
  using keepsD [OF watch_operations_keep(1) _ watch_opened(1)] registered_ok by simp

definition claimed_world :: world where
  "claimed_world = snd (claimWatchesForEvaluation ''ev'' ''pkg'' 5 60 watch_world)"

lemma claimed:
  "\<exists>c. claimWatchesForEvaluation ''ev'' ''pkg'' 5 60 watch_world = (Inr [c], claimed_world)
     \<and> ow_id (cw_watch c) = ''id-2''"
  "evaluation_leases (w_db claimed_world) = [\<lparr>el_leaseId = ''id-3'', el_watchId = ''id-2'',
     el_evaluatorId = ''ev'', el_packageId = ''pkg'', el_acquiredAt = to_iso 1767225602000,
     el_expiresAt = to_iso 1767225662000\<rparr>]"
  "w_clock claimed_world = w_clock sample_world" "w_reads claimed_world = 3" "\<not> w_maintenance claimed_world"
  "watches (w_db claimed_world) = [sample_watch]" "last_evaluations (w_db claimed_world) = []"
  by (simp_all add: claimed_world_def claimWatchesForEvaluation_def run_defs watch_texts watch_opened
      requirePositiveInt_def eligible_watches_def eligible_watch_def sample_watch_def claim_one_def
      lease_free_def upsert_lease_def insert_row_def watch_ids_def sample_world_def normalize_samples)

theorem watches_are_claimed_exclusively_witness:
  "map wr_id (eligible_watches ''pkg'' (to_iso (w_clock watch_world (w_reads watch_world))) 5 (w_db watch_world))
     = [''id-2'']"
proof -
  obtain c where c: "claimWatchesForEvaluation ''ev'' ''pkg'' 5 60 watch_world = (Inr [c], claimed_world)"
    "ow_id (cw_watch c) = ''id-2''" using claimed(1) by blast
  have "year_0_to_9999 (w_clock claimed_world (w_reads claimed_world))"
    "year_0_to_9999 (w_clock watch_world (w_reads watch_world) + 60 * 1000)"
    by (simp_all add: claimed watch_opened sample_world_def year_0_to_9999_def)
  note excl = watches_are_claimed_exclusively [OF c(1) watch_world_ok this]
  then show ?thesis using c(2) by simp
qed

definition sample_evaluation :: complete_evaluation_input where
  "sample_evaluation = \<lparr>ce_recipeId = ''r'', ce_cutoffMonth = ''k'', ce_resultDigest = ''k'', ce_state = ''k'',
     ce_growthRateDecimal = None, ce_confidence = None, ce_alertEventId = None\<rparr>"

lemma completed: "\<exists>t. completeEvaluation ''id-3'' ''pkg'' (Some sample_evaluation) claimed_world = (Inr (), t)"
  by (simp add: completeEvaluation_def run_defs claimed sample_evaluation_def record_evaluation_def watch_texts
      upsert_last_evaluation_def upsert_update_def insert_row_def watch_ids_def in_update_rows sample_watch_def
      has_optional_event_def update_rows_def)

theorem completed_evaluation_is_final_witness:
  "\<exists>t. completeEvaluation ''id-3'' ''pkg'' (Some sample_evaluation) claimed_world = (Inr (), t)
     \<and> completeEvaluation ''id-3'' ''pkg'' (Some sample_evaluation) t = (Inr (), t)"
proof -
  obtain t where t: "completeEvaluation ''id-3'' ''pkg'' (Some sample_evaluation) claimed_world = (Inr (), t)"
    using completed by blast
  have "database_ok (w_db claimed_world)"
    using claimed(1) keepsD [OF watch_operations_keep(7)] watch_world_ok by blast
  from completed_evaluation_is_final [OF t this] t show ?thesis by (auto simp: claimed)
qed

definition sample_event_input :: record_alert_event_input where
  "sample_event_input = \<lparr>ri_watchId = ''id-2'', ri_kind = ''k'', ri_dedupeKey = ''k'', ri_recipeId = None,
     ri_packageId = None, ri_supersededPackageId = None, ri_cutoffMonth = None, ri_priorEventId = None,
     ri_detail = JObj [], ri_occurredAt = ''k''\<rparr>"

definition event_world :: world where
  "event_world = snd (recordAlertEvent sample_event_input watch_world)"

lemma event_recorded:
  "\<exists>e. recordAlertEvent sample_event_input watch_world = (Inr (e, True), event_world)"
  "event_ids (w_db event_world) = {''id-3''}" "delivery_states (w_db event_world) = []"
  "\<not> w_maintenance event_world"
  by (simp_all add: event_world_def recordAlertEvent_def sample_event_input_def run_defs watch_texts
      nonEmptyWhenTruthy_def nonEmptyWhenPresent_def watch_opened sample_watch_def insert_event_once_def
      upsert_nothing_def insert_row_def watch_ids_def account_ids_def sample_account_def event_ids_def
      sample_world_def normalize_samples)

theorem alert_events_append_once_witness:
  "\<exists>e. recordAlertEvent sample_event_input watch_world = (Inr (e, True), event_world)
     \<and> w_db event_world = (w_db watch_world)\<lparr>alert_events := alert_events (w_db watch_world) @ [e]\<rparr>"
proof -
  obtain e where e: "recordAlertEvent sample_event_input watch_world = (Inr (e, True), event_world)"
    using event_recorded(1) by blast
  from alert_events_append_once [OF e] e show ?thesis by (metis (no_types))
qed

definition sample_attempt :: delivery_attempt_input where
  "sample_attempt = \<lparr>di_eventId = ''id-3'', di_channel = ''email'', di_status = SENT, di_outcome = ACCEPTED,
     di_providerReceipt = None, di_failureReason = None\<rparr>"

lemma attempted: "\<exists>d t. recordDeliveryAttempt sample_attempt event_world = (Inr d, t)"
  by (simp add: recordDeliveryAttempt_def sample_attempt_def run_defs normalize_samples watch_texts
      normalizeDeliveryStatus_def nonEmptyWhenPresent_def require_event_def event_recorded
      upsert_delivery_def upsert_update_def insert_row_def getDeliveryState_def)

theorem delivery_attempts_are_counted_witness:
  "\<exists>d t. recordDeliveryAttempt sample_attempt event_world = (Inr d, t) \<and> ds_attempts d = 1"
proof -
  obtain d t where "recordDeliveryAttempt sample_attempt event_world = (Inr d, t)" using attempted by blast
  with delivery_attempts_are_counted [OF this] show ?thesis by (auto simp: event_recorded)
qed

theorem one_watch_per_context_witness:
  "ow_status (mapWatch sample_watch None) = ACTIVE
     \<and> length (watches (w_db watch_world)) = Suc (length (watches (w_db registered_world)))"
  using one_watch_per_context [OF watch_opened(1)] by (simp add: registered_world_empty)

lemma watch_deleted: "\<exists>d t y u. deleteWatch ''id-2'' watch_world = (Inr d, t)
    \<and> openWatch ''id-0'' sample_input t = (Inr y, u)"
  by (simp add: deleteWatch_def update_watch_def findWatch_def run_defs watch_opened open_watch_def
      sample_watch_def changes_def update_rows_def openWatch_def sample_input_def product_a_def or_else_def
      watch_texts computeWatchContextIdentity_def requireAccount_def findAccount_def sample_account_def
      insert_watch_once_def upsert_nothing_def watch_context_def account_ids_def)

theorem deleted_watch_is_not_reopened_witness:
  "\<exists>d t y u. deleteWatch ''id-2'' watch_world = (Inr d, t) \<and> openWatch ''id-0'' sample_input t = (Inr y, u)
     \<and> ow_deletedAt y \<noteq> None"
proof -
  obtain d t y u where r: "deleteWatch ''id-2'' watch_world = (Inr d, t)"
    "openWatch ''id-0'' sample_input t = (Inr y, u)" using watch_deleted by blast
  have "ow_id (mapWatch sample_watch None) = ''id-2''" "ow_deletedAt (mapWatch sample_watch None) = None"
    by (simp_all add: mapWatch_def sample_watch_def)
  with deleted_watch_is_not_reopened [OF watch_opened(1) _ r(2)] r show ?thesis by metis
qed

theorem single_application_lease_witness:
  "\<exists>t t'. acquireApplicationLease ''h'' ''a'' 60 sample_world = (Inr (), t)
     \<and> acquireApplicationLease ''g'' ''b'' 60 t = (Inl (applicationLeaseUnavailable ''h''), t')"
proof -
  obtain t where t: "acquireApplicationLease ''h'' ''a'' 60 sample_world = (Inr (), t)"
    "w_clock t = w_clock sample_world" "w_reads t = 1"
    by (auto simp: acquireApplicationLease_def run_defs sample_world_def empty_database_def)
  have "year_0_to_9999 (w_clock sample_world (w_reads sample_world) + 60 * 1000)"
    by (simp add: sample_world_def year_0_to_9999_def)
  from single_application_lease [OF t(1) _ this, of "''b''" "''g''" 60] t show ?thesis
    by (auto simp: sample_world_def)
qed

end
