(* ===== verification/Store_Steps.thy ===== *)
theory Store_Steps
  imports Store_Watches
begin

text \<open>
  The store as a state machine: \<^theory_text>\<open>store_call\<close> relates the worlds before and after any public call of
  \<^verbatim>\<open>SqliteOperationalStore\<close>, with the error it threw, and \<^theory_text>\<open>store_run\<close> the worlds a store can get to
  from an empty database by any sequence of calls, in any order and with any arguments.
\<close>

definition thrown_by :: "(thrown + 'a) \<times> world \<Rightarrow> thrown option" where
  "thrown_by r = (case fst r of Inl e \<Rightarrow> Some e | Inr _ \<Rightarrow> None)"

inductive store_call :: "world \<Rightarrow> thrown option \<Rightarrow> world \<Rightarrow> bool" where
  "m = createAccount n e \<Longrightarrow> store_call w (thrown_by (m w)) (snd (m w))"
| "m = createAccountWithCredential n e i v \<Longrightarrow> store_call w (thrown_by (m w)) (snd (m w))"
| "m = createCredential a i v \<Longrightarrow> store_call w (thrown_by (m w)) (snd (m w))"
| "m = findAccount a \<Longrightarrow> store_call w (thrown_by (m w)) (snd (m w))"
| "m = findCredentialByIdentity i \<Longrightarrow> store_call w (thrown_by (m w)) (snd (m w))"
| "m = findCredentialByAccount a \<Longrightarrow> store_call w (thrown_by (m w)) (snd (m w))"
| "m = updateCredentialAttempts i c l \<Longrightarrow> store_call w (thrown_by (m w)) (snd (m w))"
| "m = updateCredentialVerifier i v \<Longrightarrow> store_call w (thrown_by (m w)) (snd (m w))"
| "m = setPrimaryExporter a e \<Longrightarrow> store_call w (thrown_by (m w)) (snd (m w))"
| "m = createSession a d x \<Longrightarrow> store_call w (thrown_by (m w)) (snd (m w))"
| "m = findSession d \<Longrightarrow> store_call w (thrown_by (m w)) (snd (m w))"
| "m = revokeSession d \<Longrightarrow> store_call w (thrown_by (m w)) (snd (m w))"
| "m = revokeSessionsForAccount a \<Longrightarrow> store_call w (thrown_by (m w)) (snd (m w))"
| "m = issueRecoveryToken a d x \<Longrightarrow> store_call w (thrown_by (m w)) (snd (m w))"
| "m = consumeRecoveryToken d \<Longrightarrow> store_call w (thrown_by (m w)) (snd (m w))"
| "m = appendAuditEvent a2 k j \<Longrightarrow> store_call w (thrown_by (m w)) (snd (m w))"
| "m = listAuditEvents a \<Longrightarrow> store_call w (thrown_by (m w)) (snd (m w))"
| "m = deleteAccount a \<Longrightarrow> store_call w (thrown_by (m w)) (snd (m w))"
| "m = listConfirmedProducts a \<Longrightarrow> store_call w (thrown_by (m w)) (snd (m w))"
| "m = confirmPortfolio a ps \<Longrightarrow> store_call w (thrown_by (m w)) (snd (m w))"
| "m = findDeliveryConsent a c t \<Longrightarrow> store_call w (thrown_by (m w)) (snd (m w))"
| "m = requestDeliveryConsent a c t vt ut \<Longrightarrow> store_call w (thrown_by (m w)) (snd (m w))"
| "m = verifyDeliveryConsent a c t v \<Longrightarrow> store_call w (thrown_by (m w)) (snd (m w))"
| "m = unsubscribeDeliveryTarget u \<Longrightarrow> store_call w (thrown_by (m w)) (snd (m w))"
| "m = getDeliverySuppression a c t \<Longrightarrow> store_call w (thrown_by (m w)) (snd (m w))"
| "m = recordDeliverySuppression a c t re pr \<Longrightarrow> store_call w (thrown_by (m w)) (snd (m w))"
| "m = openWatch a oi \<Longrightarrow> store_call w (thrown_by (m w)) (snd (m w))"
| "m = listWatches a \<Longrightarrow> store_call w (thrown_by (m w)) (snd (m w))"
| "m = pauseWatch i \<Longrightarrow> store_call w (thrown_by (m w)) (snd (m w))"
| "m = resumeWatch i \<Longrightarrow> store_call w (thrown_by (m w)) (snd (m w))"
| "m = deleteWatch i \<Longrightarrow> store_call w (thrown_by (m w)) (snd (m w))"
| "m = claimWatchesForEvaluation ev p l s \<Longrightarrow> store_call w (thrown_by (m w)) (snd (m w))"
| "m = completeEvaluation li p ce \<Longrightarrow> store_call w (thrown_by (m w)) (snd (m w))"
| "m = recordAlertEvent ri \<Longrightarrow> store_call w (thrown_by (m w)) (snd (m w))"
| "m = listAlertEvents a \<Longrightarrow> store_call w (thrown_by (m w)) (snd (m w))"
| "m = getDeliveryState ei c \<Longrightarrow> store_call w (thrown_by (m w)) (snd (m w))"
| "m = ensureDeliveryState ei c \<Longrightarrow> store_call w (thrown_by (m w)) (snd (m w))"
| "m = recordDeliveryAttempt di \<Longrightarrow> store_call w (thrown_by (m w)) (snd (m w))"
| "m = markDelivered ei c pr \<Longrightarrow> store_call w (thrown_by (m w)) (snd (m w))"
| "m = acquireApplicationLease h tk sec \<Longrightarrow> store_call w (thrown_by (m w)) (snd (m w))"
| "m = backup path \<Longrightarrow> store_call w (thrown_by (m w)) (snd (m w))"
| "m = close tk \<Longrightarrow> store_call w (thrown_by (m w)) (snd (m w))"
| "m = enterMaintenance \<Longrightarrow> store_call w (thrown_by (m w)) (snd (m w))"

inductive store_run :: "world \<Rightarrow> bool" where
  open_store: "w_db w = empty_database \<Longrightarrow> store_run w"
| call: "store_run w \<Longrightarrow> store_call w e t \<Longrightarrow> store_run t"

subsection \<open>Normalised consents\<close>

text \<open>Every statement but two leaves the consents alone, deletes some, or writes other columns.\<close>

abbreviation normalised :: "world \<Rightarrow> bool" where
  "normalised \<equiv> \<lambda>w. consents_normal (w_db w)"

lemma consents_of_deletes [simp]:
  "consents (delete_events P db) = consents db" "consents (delete_watches Q db) = consents db"
  by (simp_all add: delete_watches_def Let_def)

lemma consents_kept:
  "insert_account r1 db = Inr db' \<Longrightarrow> consents db' = consents db"
  "insert_credential r2 db = Inr db' \<Longrightarrow> consents db' = consents db"
  "insert_session r3 db = Inr db' \<Longrightarrow> consents db' = consents db"
  "insert_recovery_token r4 db = Inr db' \<Longrightarrow> consents db' = consents db"
  "insert_confirmed_product r5 db = Inr db' \<Longrightarrow> consents db' = consents db"
  "insert_audit_event r6 db = Inr db' \<Longrightarrow> consents db' = consents db"
  "insert_suppression_once r7 db = Inr db' \<Longrightarrow> consents db' = consents db"
  "upsert_suppression r7 db = Inr db' \<Longrightarrow> consents db' = consents db"
  "insert_watch_once r8 db = Inr db' \<Longrightarrow> consents db' = consents db"
  "upsert_last_evaluation r9 db = Inr db' \<Longrightarrow> consents db' = consents db"
  "insert_event_once r10 db = Inr db' \<Longrightarrow> consents db' = consents db"
  "insert_delivery_once r11 db = Inr db' \<Longrightarrow> consents db' = consents db"
  "upsert_delivery r11 db = Inr db' \<Longrightarrow> consents db' = consents db"
  "upsert_lease r12 n db = Inr db' \<Longrightarrow> consents db' = consents db"
  by (auto simp: insert_account_def insert_credential_def insert_session_def insert_recovery_token_def
      insert_confirmed_product_def insert_audit_event_def insert_suppression_once_def
      upsert_suppression_def insert_watch_once_def upsert_last_evaluation_def insert_event_once_def
      insert_delivery_once_def upsert_delivery_def upsert_lease_def ebind_Inr_iff
      split: option.splits if_splits)

lemma consents_normal_cong: "consents db' = consents db \<Longrightarrow> consents_normal db' = consents_normal db"
  by (simp add: consents_normal_def)

lemmas keeps_normal = keeps_execute [where Q = consents_normal] keeps_try_execute [where Q = consents_normal]

lemma consents_normal_update:
  assumes "\<And>r. normal_consent (f r) = normal_consent r"
  shows "consents_normal db \<Longrightarrow> consents_normal (db\<lparr>consents := update_rows P f (consents db)\<rparr>)"
  using assms by (auto simp: consents_normal_def in_update_rows)

lemma consents_normal_upsert:
  assumes "upsert_consent r db = Inr db'" "normal_consent r" "consents_normal db"
  shows "consents_normal db'"
proof -
  have "normal_consent s" if "s \<in> set (consents db')" for s
  proof -
    have "s \<in> set (consents db) \<or> s = r \<or> (\<exists>t \<in> set (consents db). s = t\<lparr>dc_consentedAt := dc_consentedAt r,
        dc_verifiedAt := None, dc_unsubscribedAt := None, dc_verificationToken := dc_verificationToken r,
        dc_unsubscribeToken := dc_unsubscribeToken r, dc_updatedAt := dc_updatedAt r\<rparr>)"
      using assms(1) that by (auto simp: upsert_consent_def ebind_Inr_iff dest: upsert_update_set)
    with assms(2,3) show ?thesis by (auto simp: consents_normal_def normal_consent_def)
  qed
  then show ?thesis by (simp add: consents_normal_def)
qed

lemma normalised_pieces [keeps_intros]:
  "keeps normalised (findAccount a)" "keeps normalised (requireAccount a)"
  "keeps normalised (update_credential i f)" "keeps normalised (given_or_random t g)"
  "keeps normalised (insert_products a ts ps)" "keeps normalised (update_watch i h)"
  "keeps normalised (claim_one e p n x r c)" "keeps normalised (record_evaluation i p ce)"
  "keeps normalised (require_event e)" "keeps normalised (listConfirmedProducts a)"
  "keeps normalised (findWatch i)" "keeps normalised (getDeliveryState e ch)"
  "keeps normalised (findDeliveryConsent a ch tg)" "keeps normalised (getDeliverySuppression a ch tg)"
proof -
  show f: "keeps normalised (findAccount a)" for a
    unfolding findAccount_def by (intro keeps_intros)
  show "keeps normalised (requireAccount a)"
    unfolding requireAccount_def by (intro keeps_intros f)
  show "keeps normalised (update_credential i f)"
    unfolding update_credential_def
    by (intro keeps_intros keeps_normal) (simp add: consents_normal_def)
  show "keeps normalised (given_or_random t g)"
    unfolding given_or_random_def by (intro keeps_intros)
  show "keeps normalised (insert_products a ts ps)"
    unfolding insert_products_def
    by (intro keeps_intros keeps_normal) (simp add: consents_kept consents_normal_def)
  show "keeps normalised (update_watch i h)"
    unfolding update_watch_def by (intro keeps_intros keeps_normal) (simp add: consents_normal_def)
  show "keeps normalised (claim_one e p n x r c)"
    unfolding claim_one_def
    by (intro keeps_intros keeps_normal) (simp add: consents_kept consents_normal_def)
  show "keeps normalised (record_evaluation i p ce)"
    unfolding record_evaluation_def
    by (intro keeps_intros keeps_normal) (simp add: consents_kept consents_normal_def)
  show "keeps normalised (require_event e)"
    unfolding require_event_def by (intro keeps_intros)
  show "keeps normalised (listConfirmedProducts a)"
    unfolding listConfirmedProducts_def by (intro keeps_intros)
  show "keeps normalised (findWatch i)"
    unfolding findWatch_def by (intro keeps_intros)
  show "keeps normalised (getDeliveryState e ch)"
    unfolding getDeliveryState_def by (intro keeps_intros)
  show "keeps normalised (findDeliveryConsent a ch tg)"
    unfolding findDeliveryConsent_def by (intro keeps_intros)
  show "keeps normalised (getDeliverySuppression a ch tg)"
    unfolding getDeliverySuppression_def by (intro keeps_intros)
qed

lemma keeps_check: "(\<And>x. r = Inr x \<Longrightarrow> keeps P (k x)) \<Longrightarrow> keeps P (andThen (check r) k)"
  by (auto simp: keeps_def andThen_def check_def split: sum.splits)

lemma normalised_requestDeliveryConsent: "keeps normalised (requestDeliveryConsent a c t v u)"
proof -
  have store: "keeps normalised (transaction (andThen (requireAccount b) (\<lambda>_. try_execute (upsert_consent r))))"
    if "normal_consent r" for b r
    by (intro keeps_intros keeps_normal) (rule consents_normal_upsert [OF _ that])
  show ?thesis
    unfolding requestDeliveryConsent_def Let_def
    by (rule keeps_andThen [OF keeps_pure(3)], rule keeps_check, rule keeps_check, rule keeps_check,
        rule keeps_andThen [OF normalised_pieces(4)], rule keeps_andThen [OF normalised_pieces(4)],
        rule keeps_andThen [OF keeps_sources(2)], rule keeps_andThen, rule store,
        simp add: normal_consent_def requireNonEmpty_def normalizeDelivery_Inr_iff trim_to_lower split: if_splits,
        intro keeps_intros)
qed

lemma normalised_consent_operations:
  "keeps normalised (verifyDeliveryConsent a c t v)" "keeps normalised (unsubscribeDeliveryTarget u)"
  "keeps normalised (deleteAccount a)"
proof -
  have same: "normal_consent (r\<lparr>dc_verifiedAt := x, dc_updatedAt := y\<rparr>) = normal_consent r"
    "normal_consent (r\<lparr>dc_unsubscribedAt := x, dc_updatedAt := y\<rparr>) = normal_consent r" for r x y
    by (simp_all add: normal_consent_def)
  show "keeps normalised (verifyDeliveryConsent a c t v)"
    unfolding verifyDeliveryConsent_def
    by (intro keeps_intros keeps_normal consents_normal_update) (simp_all add: same)
  show "keeps normalised (unsubscribeDeliveryTarget u)"
    unfolding unsubscribeDeliveryTarget_def
    by (intro keeps_intros keeps_normal)
       (auto intro!: consents_normal_update simp: same simp: consents_normal_def consents_kept in_update_rows)
  show "keeps normalised (deleteAccount a)"
    unfolding deleteAccount_def
    by (intro keeps_intros keeps_normal)
       (auto simp: consents_normal_def consents_kept delete_account_row_def Let_def)
qed

lemma normalised_operations:
  "keeps normalised (createAccount n e)"
  "keeps normalised (createAccountWithCredential n e ident v)"
  "keeps normalised (createCredential a ident v)"
  "keeps normalised (findCredentialByIdentity ident)"
  "keeps normalised (findCredentialByAccount a)"
  "keeps normalised (updateCredentialAttempts i c l)"
  "keeps normalised (updateCredentialVerifier i v)"
  "keeps normalised (setPrimaryExporter a e)"
  "keeps normalised (createSession a d x)"
  "keeps normalised (findSession d)"
  "keeps normalised (revokeSession d)"
  "keeps normalised (revokeSessionsForAccount a)"
  "keeps normalised (issueRecoveryToken a d x)"
  "keeps normalised (consumeRecoveryToken d)"
  "keeps normalised (appendAuditEvent a2 k j)"
  "keeps normalised (listAuditEvents a)"
  "keeps normalised (confirmPortfolio a ps)"
  "keeps normalised (recordDeliverySuppression a ch tg re pr)"
  "keeps normalised (openWatch a oi)"
  "keeps normalised (listWatches a)"
  "keeps normalised (pauseWatch i)"
  "keeps normalised (resumeWatch i)"
  "keeps normalised (deleteWatch i)"
  "keeps normalised (claimWatchesForEvaluation ev p lm s)"
  "keeps normalised (completeEvaluation li p ce)"
  "keeps normalised (recordAlertEvent ri)"
  "keeps normalised (listAlertEvents a)"
  "keeps normalised (ensureDeliveryState ei ch)"
  "keeps normalised (recordDeliveryAttempt di)"
  "keeps normalised (markDelivered ei ch pr)"
  "keeps normalised (acquireApplicationLease h tk sec)"
  "keeps normalised (backup path)"
  "keeps normalised (close tk)"
  "keeps normalised enterMaintenance"
  unfolding createAccount_def createAccountWithCredential_def createCredential_def
    findCredentialByIdentity_def findCredentialByAccount_def updateCredentialAttempts_def
    updateCredentialVerifier_def setPrimaryExporter_def createSession_def findSession_def
    revokeSession_def revokeSessionsForAccount_def issueRecoveryToken_def consumeRecoveryToken_def
    appendAuditEvent_def listAuditEvents_def confirmPortfolio_def recordDeliverySuppression_def
    openWatch_def listWatches_def pauseWatch_def resumeWatch_def deleteWatch_def
    claimWatchesForEvaluation_def completeEvaluation_def recordAlertEvent_def listAlertEvents_def
    ensureDeliveryState_def recordDeliveryAttempt_def markDelivered_def acquireApplicationLease_def
    backup_def close_def enterMaintenance_def
  by (intro keeps_intros keeps_normal keeps_writing; simp add: consents_kept consents_normal_def)+

subsection \<open>Atomicity of the consent operations\<close>

lemma atomic_check: "(\<And>x. r = Inr x \<Longrightarrow> atomic (k x)) \<Longrightarrow> atomic (andThen (check r) k)"
  by (auto simp: atomic_def run_iffs)

lemma never_throws_found:
  "trim a \<noteq> [] \<Longrightarrow> normalizeDeliveryChannel c = Inr c' \<Longrightarrow> normalizeDeliveryTarget t = Inr t' \<Longrightarrow>
     never_throws (findDeliveryConsent a c t)"
  "trim a \<noteq> [] \<Longrightarrow> normalizeDeliveryChannel c = Inr c' \<Longrightarrow> normalizeDeliveryTarget t = Inr t' \<Longrightarrow>
     never_throws (getDeliverySuppression a c t)"
  by (simp_all add: never_throws_def findDeliveryConsent_run getDeliverySuppression_run)

lemma nonEmpty_normal:
  "requireNonEmpty a f = Inr a' \<Longrightarrow> trim a' \<noteq> []"
  "normalizeDeliveryChannel c = Inr c' \<Longrightarrow> normalizeDeliveryChannel c' = Inr c'"
  "normalizeDeliveryTarget t = Inr t' \<Longrightarrow> normalizeDeliveryTarget t' = Inr t'"
  by (auto simp: requireNonEmpty_def normalizeDelivery_Inr_iff trim_to_lower split: if_splits)

lemma quiet_given_or_random: "quiet (given_or_random t f)"
  unfolding given_or_random_def by (intro atomic_intros)

lemma atomic_consent_operations:
  "atomic (requestDeliveryConsent a c t v u)" "atomic (recordDeliverySuppression a c t re pr)"
  "atomic (verifyDeliveryConsent a c t v1)"
proof -
  show "atomic (requestDeliveryConsent a c t v u)"
    unfolding requestDeliveryConsent_def Let_def
    by (rule atomic_andThen [OF quiet_intros(9)], rule atomic_check, rule atomic_check, rule atomic_check,
        rule atomic_andThen [OF quiet_given_or_random], rule atomic_andThen [OF quiet_given_or_random],
        rule atomic_andThen [OF quiet_intros(6)], rule atomic_andThen_total, rule atomic_transaction,
        rule never_throws_andThen, rule never_throws_found)
       (erule nonEmpty_normal nonEmpty_normal | intro atomic_intros)+
  show "atomic (recordDeliverySuppression a c t re pr)"
    unfolding recordDeliverySuppression_def Let_def
    by (rule atomic_andThen [OF quiet_intros(9)], rule atomic_check, rule atomic_check, rule atomic_check,
        rule atomic_andThen [OF quiet_intros(6)], rule atomic_andThen_total, rule atomic_transaction,
        rule never_throws_andThen, rule never_throws_found)
       (erule nonEmpty_normal nonEmpty_normal | intro atomic_intros)+
  show "atomic (verifyDeliveryConsent a c t v1)"
    unfolding verifyDeliveryConsent_def Let_def
    by (rule atomic_andThen [OF quiet_intros(9)], rule atomic_check, rule atomic_check, rule atomic_check,
        rule atomic_andThen [OF quiet_intros(3)], rule atomic_andThen [OF quiet_intros(6)],
        rule atomic_andThen [OF quiet_intros(4)], rule atomic_andThen_total, rule atomic_execute)
       (auto intro!: atomic_intros never_throws_found dest: nonEmpty_normal)
qed

lemma atomic_unsubscribe:
  assumes "unsubscribeDeliveryTarget u w = (Inl e, t)" "normalised w"
  shows "w_db t = w_db w"
proof -
  have "normal_consent c" if "find P (consents (w_db w)) = Some c" for P c
    using find_SomeD [OF that] assms(2) by (simp add: consents_normal_def)
  then have "findDeliveryConsent (dc_accountId c) (dc_channel c) (dc_target c) w2 \<noteq> (Inl e, t)"
    if "find P (consents (w_db w)) = Some c" for P c w2
    using never_throws_found(1) that by (auto simp: normal_consent_def never_throws_def)
  with assms(1) show ?thesis
    by (auto simp: unsubscribeDeliveryTarget_def run_iffs requireNonEmpty_def split: if_splits option.splits)
qed

subsection \<open>Every call\<close>

lemma keeps_snd: "P w \<Longrightarrow> keeps P m \<Longrightarrow> P (snd (m w))"
  by (simp add: keeps_def)

lemma consistent_enterMaintenance [keeps_intros]: "keeps consistent enterMaintenance"
  unfolding enterMaintenance_def by (rule keeps_writing) simp

lemma store_call_consistent: "store_call w e t \<Longrightarrow> consistent w \<Longrightarrow> consistent t"
  by (induction rule: store_call.induct; hypsubst; erule keeps_snd [where P = consistent]; intro keeps_intros)

lemma store_call_normalised: "store_call w e t \<Longrightarrow> normalised w \<Longrightarrow> normalised t"
  by (induction rule: store_call.induct; hypsubst; erule keeps_snd [where P = normalised];
      intro keeps_intros normalised_operations normalised_requestDeliveryConsent normalised_consent_operations)

lemma thrown_by_Some: "thrown_by r = Some e \<longleftrightarrow> fst r = Inl e"
  by (simp add: thrown_by_def split: sum.splits)

lemma atomic_snd: "thrown_by (m w) = Some e \<Longrightarrow> atomic m \<Longrightarrow> w_db (snd (m w)) = w_db w"
  by (cases "m w") (auto simp: thrown_by_Some dest: atomicD)

lemma atomic_quiet_operations:
  "atomic (findAccount a)" "atomic (findCredentialByIdentity i)" "atomic (findCredentialByAccount a)"
  "atomic (findSession d)" "atomic (listAuditEvents a)" "atomic (listConfirmedProducts a)"
  "atomic (findDeliveryConsent a c t)" "atomic (getDeliverySuppression a c t)" "atomic (listWatches a)"
  "atomic (listAlertEvents a)" "atomic (getDeliveryState ei c)" "atomic (backup path)" "atomic (close tk)"
  "atomic enterMaintenance"
proof -
  have "quiet (findAccount a)" "quiet (findCredentialByIdentity i)" "quiet (findCredentialByAccount a)"
    "quiet (findSession d)" "quiet (listAuditEvents a)" "quiet (listConfirmedProducts a)"
    "quiet (findDeliveryConsent a c t)" "quiet (getDeliverySuppression a c t)" "quiet (listWatches a)"
    "quiet (listAlertEvents a)" "quiet (getDeliveryState ei c)" "quiet (backup path)"
    unfolding findAccount_def findCredentialByIdentity_def findCredentialByAccount_def findSession_def
      listAuditEvents_def listConfirmedProducts_def findDeliveryConsent_def getDeliverySuppression_def
      listWatches_def listAlertEvents_def getDeliveryState_def backup_def
    by (intro atomic_intros)+
  then show "atomic (findAccount a)" "atomic (findCredentialByIdentity i)" "atomic (findCredentialByAccount a)"
    "atomic (findSession d)" "atomic (listAuditEvents a)" "atomic (listConfirmedProducts a)"
    "atomic (findDeliveryConsent a c t)" "atomic (getDeliverySuppression a c t)" "atomic (listWatches a)"
    "atomic (listAlertEvents a)" "atomic (getDeliveryState ei c)" "atomic (backup path)"
    by (simp_all add: atomic_quiet)
  show "atomic (close tk)" unfolding close_def by (intro atomic_intros)
  show "atomic enterMaintenance" by (simp add: atomic_def enterMaintenance_def writing_def)
qed

lemma store_call_atomic:
  assumes "store_call w (Some e) t" "normalised w"
  shows "w_db t = w_db w"
proof -
  have "store_call w x t \<Longrightarrow> x = Some e \<Longrightarrow> normalised w \<Longrightarrow> w_db t = w_db w" for x
  proof (induction rule: store_call.induct)
    case (24 m u w)
    then show ?case using atomic_unsubscribe by (cases "m w") (auto simp: thrown_by_Some)
  qed (hypsubst, erule atomic_snd,
       (rule account_operations_atomic watch_operations_atomic atomic_consent_operations atomic_quiet_operations))+
  then show ?thesis using assms by blast
qed

lemma store_run_normalised: "store_run w \<Longrightarrow> normalised w"
  by (induction rule: store_run.induct)
     (auto simp: consents_normal_def empty_database_def dest: store_call_normalised)

subsection \<open>Properties\<close>

lemma sample_run: "store_run sample_world" "store_run registered_world" "store_run watch_world"
proof -
  show s: "store_run sample_world" by (rule open_store) (simp add: sample_world_def)
  have "store_call sample_world None registered_world"
    using store_call.intros(2) [where n = "''Ada''" and e = "''528''" and i = "''Ada@Example.org''" and v = "''v1''"
        and w = sample_world, OF refl]
    by (simp add: registered thrown_by_def)
  with s show r: "store_run registered_world" by (rule store_run.call)
  have "store_call registered_world None watch_world"
    using store_call.intros(27) [where a = "''id-0''" and oi = sample_input and w = registered_world, OF refl]
    by (simp add: watch_opened(1) thrown_by_def)
  with r show "store_run watch_world" by (rule store_run.call)
qed

text \<open>C27: a call that throws changes no row, whatever it had done before it threw.\<close>

theorem failed_call_changes_no_row:
  assumes "store_run w" "store_call w (Some e) t"
  shows "w_db t = w_db w"
  by (rule store_call_atomic [OF assms(2) store_run_normalised [OF assms(1)]])

theorem failed_call_changes_no_row_witness:
  "w_db (snd (resumeWatch ''none'' watch_world)) = w_db watch_world"
proof -
  have "\<exists>e. thrown_by (resumeWatch ''none'' watch_world) = Some e"
    by (simp add: resumeWatch_def update_watch_def run_defs watch_opened changes_def open_watch_def
        sample_watch_def thrown_by_def)
  then obtain e where "thrown_by (resumeWatch ''none'' watch_world) = Some e" by blast
  then have "store_call watch_world (Some e) (snd (resumeWatch ''none'' watch_world))"
    using store_call.intros(30) [where i = "''none''" and w = watch_world, OF refl] by simp
  with sample_run(3) show ?thesis by (rule failed_call_changes_no_row)
qed

end
