(* ===== verification/Store_Coherence.thy ===== *)
theory Store_Coherence
  imports Store_Steps
begin

text \<open>
  What the code of \<^verbatim>\<open>SqliteOperationalStore\<close> guarantees about its rows beyond the constraints the
  engine checks: no \<^verbatim>\<open>CHECK\<close> and no foreign key says that an identity is normalised, that an
  unsubscribed target is suppressed, that an alert belongs to the account of its watch, or that the state
  of a watch or of a delivery fits its timestamps and counters. The facts are stated over the columns,
  the keys of the schema with them, and hold in every store a sequence of calls can reach.
\<close>

subsection \<open>The facts\<close>

definition normal_text :: "string \<Rightarrow> bool" where
  "normal_text s \<longleftrightarrow> s \<noteq> [] \<and> trim s = s \<and> to_lower s = s"

definition credential_fact :: "credential \<Rightarrow> bool" where
  "credential_fact c \<longleftrightarrow> normal_text (cr_normalizedIdentity c) \<and> 0 \<le> cr_failedAttemptCount c"

definition suppression_fact :: "delivery_suppression \<Rightarrow> bool" where
  "suppression_fact s \<longleftrightarrow> normal_text (sp_channel s) \<and> normal_text (sp_target s)"

text \<open>An unsubscribed consent has a suppression of its account, channel and target.\<close>

definition unsubscribed_suppressed :: "delivery_suppression list \<Rightarrow> delivery_consent \<Rightarrow> bool" where
  "unsubscribed_suppressed ss c \<longleftrightarrow> dc_unsubscribedAt c = None \<or>
     (\<exists>s \<in> set ss. sp_accountId s = dc_accountId c \<and> sp_channel s = dc_channel c
        \<and> sp_target s = dc_target c \<and> sp_reason s = REASON_UNSUBSCRIBE)"

text \<open>A watch is active exactly while it is neither paused nor deleted.\<close>

definition watch_fact :: "watch_row \<Rightarrow> bool" where
  "watch_fact r \<longleftrightarrow> (wr_status r = ACTIVE \<longleftrightarrow> wr_pausedAt r = None \<and> wr_deletedAt r = None)"

definition event_fact :: "watch_row list \<Rightarrow> alert_event \<Rightarrow> bool" where
  "event_fact ws e \<longleftrightarrow> (\<exists>r \<in> set ws. wr_id r = ae_watchId e \<and> wr_accountId r = ae_accountId e)"

text \<open>A delivery is pending exactly until its first attempt, and an attempt leaves its outcome.\<close>

definition delivery_fact :: "delivery_state \<Rightarrow> bool" where
  "delivery_fact d \<longleftrightarrow> ds_idempotencyKey d = ds_eventId d @ '':'' @ ds_channel d \<and> 0 \<le> ds_attempts d
     \<and> (ds_status d = PENDING \<longleftrightarrow> ds_attempts d = 0) \<and> (ds_lastOutcome d = None \<longleftrightarrow> ds_attempts d = 0)"

definition coherent :: "database \<Rightarrow> bool" where
  "coherent db \<longleftrightarrow>
     (\<forall>c \<in> set (credentials db). credential_fact c) \<and>
     (\<forall>s \<in> set (suppressions db). suppression_fact s) \<and>
     (\<forall>c \<in> set (consents db). unsubscribed_suppressed (suppressions db) c) \<and>
     (\<forall>r \<in> set (watches db). watch_fact r) \<and>
     (\<forall>e \<in> set (alert_events db). event_fact (watches db) e) \<and>
     (\<forall>d \<in> set (delivery_states db). delivery_fact d)"

text \<open>The keys of the tables, column by column.\<close>

definition keys_unique :: "database \<Rightarrow> bool" where
  "keys_unique db \<longleftrightarrow>
     distinct (map ac_id (accounts db)) \<and>
     distinct (map cr_id (credentials db)) \<and> distinct (map cr_normalizedIdentity (credentials db)) \<and>
     distinct (map se_tokenDigest (sessions db)) \<and> distinct (map rt_tokenDigest (recovery_tokens db)) \<and>
     distinct (map (\<lambda>r. (cp_accountId r, cp_product r)) (confirmed_products db)) \<and>
     distinct (map (\<lambda>r. (dc_accountId r, dc_channel r, dc_target r)) (consents db)) \<and>
     distinct (map dc_verificationToken (consents db)) \<and> distinct (map dc_unsubscribeToken (consents db)) \<and>
     distinct (map (\<lambda>r. (sp_accountId r, sp_channel r, sp_target r, sp_reason r)) (suppressions db)) \<and>
     distinct (map wr_id (watches db)) \<and>
     distinct (map (\<lambda>r. (wr_accountId r, wr_reportingEconomyIso2 r, wr_hsRevision r, wr_hs12Code r,
       wr_cadence r, wr_exportEconomyCode r)) (watches db)) \<and>
     distinct (map (\<lambda>r. (le_watchId r, le_recipeId r)) (last_evaluations db)) \<and>
     distinct (map ae_id (alert_events db)) \<and>
     distinct (map (\<lambda>r. (ae_watchId r, ae_dedupeKey r)) (alert_events db)) \<and>
     distinct (map ds_deliveryId (delivery_states db)) \<and> distinct (map ds_idempotencyKey (delivery_states db)) \<and>
     distinct (map (\<lambda>r. (ds_eventId r, ds_channel r)) (delivery_states db)) \<and>
     distinct (map au_id (audit_events db)) \<and> distinct (map el_leaseId (evaluation_leases db)) \<and>
     distinct (map (\<lambda>r. (el_watchId r, el_packageId r)) (evaluation_leases db))"

lemma no_clash_distinct:
  "no_clash clash rows \<Longrightarrow> (\<And>r s. key r = key s \<Longrightarrow> clash r s) \<Longrightarrow> distinct (map key rows)"
  by (induction rows) (auto simp: list_all_iff)

lemma keys_unique_ok:
  assumes "database_ok db"
  shows "keys_unique db"
  unfolding keys_unique_def
  by (intro conjI; rule no_clash_distinct, rule database_ok_tables [OF assms]; simp add: clash_defs)

lemma normal_text_normalized: "trim s \<noteq> [] \<Longrightarrow> normal_text (to_lower (trim s))"
  by (simp add: normal_text_def trim_to_lower)

subsection \<open>Statements\<close>

text \<open>The tables the facts are about; most statements leave them alone.\<close>

definition told :: "database \<Rightarrow> credential list \<times> delivery_suppression list \<times> delivery_consent list
    \<times> watch_row list \<times> alert_event list \<times> delivery_state list" where
  "told db = (credentials db, suppressions db, consents db, watches db, alert_events db, delivery_states db)"

lemma coherent_told: "told db' = told db \<Longrightarrow> coherent db \<Longrightarrow> coherent db'"
  by (simp add: told_def coherent_def)

lemma coherent_untold:
  "insert_account r1 db = Inr db' \<Longrightarrow> coherent db \<Longrightarrow> coherent db'"
  "insert_session r2 db = Inr db' \<Longrightarrow> coherent db \<Longrightarrow> coherent db'"
  "insert_recovery_token r3 db = Inr db' \<Longrightarrow> coherent db \<Longrightarrow> coherent db'"
  "insert_confirmed_product r4 db = Inr db' \<Longrightarrow> coherent db \<Longrightarrow> coherent db'"
  "insert_audit_event r5 db = Inr db' \<Longrightarrow> coherent db \<Longrightarrow> coherent db'"
  "upsert_last_evaluation r6 db = Inr db' \<Longrightarrow> coherent db \<Longrightarrow> coherent db'"
  "upsert_lease r7 n db = Inr db' \<Longrightarrow> coherent db \<Longrightarrow> coherent db'"
  by (erule coherent_told [rotated], auto simp: told_def insert_account_def insert_session_def insert_recovery_token_def
      insert_confirmed_product_def insert_audit_event_def upsert_last_evaluation_def upsert_lease_def
      ebind_Inr_iff split: option.splits if_splits)+

lemma suppressed_more:
  "unsubscribed_suppressed ss c \<Longrightarrow> (\<And>s. s \<in> set ss \<Longrightarrow> \<exists>t \<in> set ss'. suppression_clash s t) \<Longrightarrow>
     unsubscribed_suppressed ss' c"
  by (fastforce simp: unsubscribed_suppressed_def suppression_clash_def)

lemma event_more:
  "event_fact ws e \<Longrightarrow> (\<And>r. r \<in> set ws \<Longrightarrow> \<exists>s \<in> set ws'. wr_id s = wr_id r \<and> wr_accountId s = wr_accountId r) \<Longrightarrow>
     event_fact ws' e"
  by (fastforce simp: event_fact_def)

lemma coherent_credentials:
  "coherent db \<Longrightarrow> (\<And>c. c \<in> set cs \<Longrightarrow> credential_fact c) \<Longrightarrow> coherent (db\<lparr>credentials := cs\<rparr>)"
  by (simp add: coherent_def)

lemma coherent_suppressions:
  assumes "coherent db" "\<And>s. s \<in> set ss \<Longrightarrow> suppression_fact s"
    "\<And>s. s \<in> set (suppressions db) \<Longrightarrow> \<exists>t \<in> set ss. suppression_clash s t"
  shows "coherent (db\<lparr>suppressions := ss\<rparr>)"
  using assms by (auto simp: coherent_def intro: suppressed_more)

lemma coherent_consents:
  "coherent db \<Longrightarrow> (\<And>c. c \<in> set cs \<Longrightarrow> unsubscribed_suppressed (suppressions db) c) \<Longrightarrow>
     coherent (db\<lparr>consents := cs\<rparr>)"
  by (simp add: coherent_def)

lemma coherent_update_consents:
  assumes "coherent db" "\<And>r. dc_accountId (f r) = dc_accountId r" "\<And>r. dc_channel (f r) = dc_channel r"
    "\<And>r. dc_target (f r) = dc_target r" "\<And>r. dc_unsubscribedAt (f r) = dc_unsubscribedAt r"
  shows "coherent (db\<lparr>consents := update_rows P f (consents db)\<rparr>)"
proof (rule coherent_consents [OF assms(1)])
  fix c assume "c \<in> set (update_rows P f (consents db))"
  then obtain r where "r \<in> set (consents db)" "c = (if P r then f r else r)" unfolding in_update_rows by blast
  moreover from this(1) assms(1) have "unsubscribed_suppressed (suppressions db) r" by (simp add: coherent_def)
  ultimately show "unsubscribed_suppressed (suppressions db) c"
    using assms(2-5) by (simp add: unsubscribed_suppressed_def)
qed

lemma coherent_watches:
  assumes "coherent db" "\<And>r. r \<in> set ws \<Longrightarrow> watch_fact r"
    "\<And>r. r \<in> set (watches db) \<Longrightarrow> \<exists>s \<in> set ws. wr_id s = wr_id r \<and> wr_accountId s = wr_accountId r"
  shows "coherent (db\<lparr>watches := ws\<rparr>)"
  using assms by (auto simp: coherent_def intro: event_more)

lemma coherent_deliveries:
  "coherent db \<Longrightarrow> (\<And>d. d \<in> set ds \<Longrightarrow> delivery_fact d) \<Longrightarrow> coherent (db\<lparr>delivery_states := ds\<rparr>)"
  by (simp add: coherent_def)

lemma coherent_insert_credential:
  "insert_credential r db = Inr db' \<Longrightarrow> credential_fact r \<Longrightarrow> coherent db \<Longrightarrow> coherent db'"
  by (auto simp: insert_credential_def ebind_Inr_iff insert_row_Inr coherent_def)

lemma coherent_suppression_once:
  assumes "upsert_nothing suppression_clash suppression_clash c r (suppressions db) = Inr rows"
    "suppression_fact r" "coherent db"
  shows "coherent (db\<lparr>suppressions := rows\<rparr>)"
proof (rule coherent_suppressions [OF assms(3)])
  from upsert_nothing_set [OF assms(1)] have rows: "rows = suppressions db \<or> rows = suppressions db @ [r]" .
  show "suppression_fact s" if "s \<in> set rows" for s
    using rows that assms(2,3) by (auto simp: coherent_def)
  show "\<exists>t \<in> set rows. suppression_clash s t" if "s \<in> set (suppressions db)" for s
    using rows that by (auto intro!: bexI [of _ s] simp: suppression_clash_def)
qed

lemma upsert_update_has:
  "upsert_update target clash c r f rows = Inr rows' \<Longrightarrow> s \<in> set rows \<Longrightarrow> s \<in> set rows' \<or> f s \<in> set rows'"
  by (auto simp: upsert_update_def insert_row_def update_rows_def split: option.splits if_splits)

lemma coherent_upsert_suppression:
  assumes "upsert_suppression r db = Inr db'" "suppression_fact r" "coherent db"
  shows "coherent db'"
proof -
  let ?f = "\<lambda>s. s\<lparr>sp_providerReceipt := coalesce (sp_providerReceipt s) (sp_providerReceipt r)\<rparr>"
  from assms(1) obtain rows where up: "upsert_update suppression_clash suppression_clash
      ''operational_delivery_suppression'' r ?f (suppressions db) = Inr rows" and db': "db' = db\<lparr>suppressions := rows\<rparr>"
    by (auto simp: upsert_suppression_def ebind_Inr_iff)
  have "suppression_fact s" if "s \<in> set rows" for s
    using upsert_update_set [OF up that] assms(2,3) by (auto simp: coherent_def suppression_fact_def)
  moreover have "\<exists>t \<in> set rows. suppression_clash s t" if "s \<in> set (suppressions db)" for s
  proof -
    have "suppression_clash s s" "suppression_clash s (?f s)" by (simp_all add: suppression_clash_def)
    with upsert_update_has [OF up that] show ?thesis by blast
  qed
  ultimately show ?thesis unfolding db' using assms(3) by (intro coherent_suppressions)
qed

lemma coherent_upsert_consent:
  assumes "upsert_consent r db = Inr db'" "dc_unsubscribedAt r = None" "coherent db"
  shows "coherent db'"
proof -
  let ?f = "\<lambda>s. s\<lparr>dc_consentedAt := dc_consentedAt r, dc_verifiedAt := None, dc_unsubscribedAt := None,
      dc_verificationToken := dc_verificationToken r, dc_unsubscribeToken := dc_unsubscribeToken r,
      dc_updatedAt := dc_updatedAt r\<rparr>"
  from assms(1) obtain rows where up: "upsert_update consent_target consent_clash
      ''operational_delivery_consent.verification_token'' r ?f (consents db) = Inr rows" and db': "db' = db\<lparr>consents := rows\<rparr>"
    by (auto simp: upsert_consent_def ebind_Inr_iff)
  have "unsubscribed_suppressed (suppressions db) s" if "s \<in> set rows" for s
    using upsert_update_set [OF up that] assms(2,3) by (auto simp: coherent_def) (auto simp: unsubscribed_suppressed_def)
  then show ?thesis unfolding db' using assms(3) by (intro coherent_consents)
qed

lemma coherent_insert_watch:
  assumes "insert_watch_once r db = Inr db'" "watch_fact r" "coherent db"
  shows "coherent db'"
proof -
  from assms(1) obtain rows where up: "upsert_nothing watch_context watch_clash ''operational_watch.id'' r (watches db) = Inr rows"
    and db': "db' = db\<lparr>watches := rows\<rparr>"
    by (auto simp: insert_watch_once_def ebind_Inr_iff)
  from upsert_nothing_set [OF up] have rows: "rows = watches db \<or> rows = watches db @ [r]" .
  then have "watch_fact s" if "s \<in> set rows" for s
    using that assms(2,3) by (auto simp: coherent_def)
  moreover have "\<exists>t \<in> set rows. wr_id t = wr_id s \<and> wr_accountId t = wr_accountId s" if "s \<in> set (watches db)" for s
    using rows that by auto
  ultimately show ?thesis unfolding db' using assms(3) by (intro coherent_watches)
qed

lemma coherent_insert_delivery:
  assumes "insert_delivery_once r db = Inr db'" "delivery_fact r" "coherent db"
  shows "coherent db'"
proof -
  from assms(1) obtain rows where "upsert_nothing delivery_target delivery_clash
      ''operational_delivery_state.delivery_id'' r (delivery_states db) = Inr rows" "db' = db\<lparr>delivery_states := rows\<rparr>"
    by (auto simp: insert_delivery_once_def ebind_Inr_iff)
  with upsert_nothing_set [OF this(1)] show ?thesis
    using assms(2,3) by (auto intro!: coherent_deliveries simp: coherent_def)
qed

text \<open>A further attempt is recorded with a status that is not pending.\<close>

lemma coherent_upsert_delivery:
  assumes "upsert_delivery r db = Inr db'" "delivery_fact r" "ds_status r \<noteq> PENDING" "coherent db"
  shows "coherent db'"
proof -
  let ?f = "\<lambda>s. s\<lparr>ds_status := ds_status r, ds_attempts := ds_attempts s + 1,
      ds_lastAttemptAt := ds_lastAttemptAt r,
      ds_providerReceipt := coalesce (ds_providerReceipt r) (ds_providerReceipt s),
      ds_lastOutcome := ds_lastOutcome r, ds_failureReason := ds_failureReason r,
      ds_updatedAt := ds_updatedAt r\<rparr>"
  from assms(1) obtain rows where up: "upsert_update delivery_target delivery_clash
      ''operational_delivery_state.delivery_id'' r ?f (delivery_states db) = Inr rows"
    and db': "db' = db\<lparr>delivery_states := rows\<rparr>"
    by (auto simp: upsert_delivery_def ebind_Inr_iff)
  have "delivery_fact s" if "s \<in> set rows" for s
  proof -
    have "delivery_fact (?f t)" if "t \<in> set (delivery_states db)" for t
      using that assms(2-4) by (auto simp: coherent_def delivery_fact_def)
    with upsert_update_set [OF up that] assms(2,4) show ?thesis by (auto simp: coherent_def)
  qed
  then show ?thesis unfolding db' using assms(4) by (intro coherent_deliveries)
qed

lemma coherent_update_watches:
  assumes "coherent db" "\<And>r. wr_id (f r) = wr_id r" "\<And>r. wr_accountId (f r) = wr_accountId r"
    "\<And>r. P r \<Longrightarrow> watch_fact r \<Longrightarrow> watch_fact (f r)"
  shows "coherent (db\<lparr>watches := update_rows P f (watches db)\<rparr>)"
proof (rule coherent_watches [OF assms(1)])
  fix r assume "r \<in> set (update_rows P f (watches db))"
  with assms(1,4) show "watch_fact r" by (auto simp: in_update_rows coherent_def)
next
  fix r assume "r \<in> set (watches db)"
  then have "(if P r then f r else r) \<in> set (update_rows P f (watches db))" unfolding in_update_rows by blast
  moreover have "wr_id (if P r then f r else r) = wr_id r" "wr_accountId (if P r then f r else r) = wr_accountId r"
    using assms(2,3) by simp_all
  ultimately show "\<exists>s \<in> set (update_rows P f (watches db)). wr_id s = wr_id r \<and> wr_accountId s = wr_accountId r"
    by blast
qed

text \<open>Deleting an account keeps the watch of every event that stays, and the suppression of every consent.\<close>

lemma delete_account_rows:
  "credentials (delete_account_row i db) = delete_rows (\<lambda>r. cr_accountId r = i) (credentials db)"
  "suppressions (delete_account_row i db) = delete_rows (\<lambda>r. sp_accountId r = i) (suppressions db)"
  "consents (delete_account_row i db) = delete_rows (\<lambda>r. dc_accountId r = i) (consents db)"
  "watches (delete_account_row i db) = delete_rows (\<lambda>r. wr_accountId r = i) (watches db)"
  "set (delivery_states (delete_account_row i db)) \<subseteq> set (delivery_states db)"
  by (auto simp: delete_account_row_def delete_watches_def delete_events_def Let_def)

lemma delete_account_events:
  assumes "e \<in> set (alert_events (delete_account_row i db))"
  shows "\<exists>d \<in> set (alert_events db). ae_watchId e = ae_watchId d \<and> ae_accountId e = ae_accountId d \<and> ae_accountId d \<noteq> i"
proof -
  have "\<exists>d \<in> set (alert_events db). ae_watchId e = ae_watchId d \<and> ae_accountId e = ae_accountId d \<and> P d"
    if "e \<in> set (alert_events (delete_events (\<lambda>r. \<not> P r) db))" "\<And>r x. P (r\<lparr>ae_priorEventId := x\<rparr>) = P r" for e P db
    using that by (auto simp: delete_events_def Let_def)
  note gone = this
  from assms have "e \<in> set (alert_events (delete_events (\<lambda>r. \<not> ae_accountId r \<noteq> i)
      (delete_watches (\<lambda>r. wr_accountId r = i) db)))"
    by (simp add: delete_account_row_def Let_def)
  from gone [OF this] obtain d where d: "d \<in> set (alert_events (delete_watches (\<lambda>r. wr_accountId r = i) db))"
    "ae_watchId e = ae_watchId d" "ae_accountId e = ae_accountId d" "ae_accountId d \<noteq> i" by auto
  have "d \<in> set (alert_events (delete_events
      (\<lambda>r. \<not> ae_watchId r \<notin> set (map wr_id (filter (\<lambda>r. wr_accountId r = i) (watches db)))) db))"
    using d(1) by (simp add: delete_watches_def Let_def)
  from gone [OF this] d show ?thesis by auto
qed

lemma coherent_delete_account:
  assumes "coherent db"
  shows "coherent (delete_account_row i db)"
proof -
  have "event_fact (watches (delete_account_row i db)) e" if "e \<in> set (alert_events (delete_account_row i db))" for e
  proof -
    from delete_account_events [OF that] obtain d where d: "d \<in> set (alert_events db)"
      "ae_watchId e = ae_watchId d" "ae_accountId e = ae_accountId d" "ae_accountId d \<noteq> i" by blast
    with assms have "event_fact (watches db) d" by (simp add: coherent_def)
    with d show ?thesis by (auto simp: event_fact_def delete_account_rows)
  qed
  moreover have "unsubscribed_suppressed (suppressions (delete_account_row i db)) c"
    if "c \<in> set (consents (delete_account_row i db))" for c
  proof -
    from that assms have "dc_accountId c \<noteq> i" "unsubscribed_suppressed (suppressions db) c"
      by (simp_all add: coherent_def delete_account_rows)
    then show ?thesis by (auto simp: unsubscribed_suppressed_def delete_account_rows(2))
  qed
  moreover have "delivery_fact d" if "d \<in> set (delivery_states (delete_account_row i db))" for d
    using assms that delete_account_rows(5) [of i db] by (auto simp: coherent_def)
  ultimately show ?thesis using assms by (simp add: coherent_def delete_account_rows(1-4))
qed

subsection \<open>Operations\<close>

lemmas keeps_coherent = keeps_execute [where Q = coherent] keeps_try_execute [where Q = coherent]

abbreviation telling :: "world \<Rightarrow> bool" where
  "telling \<equiv> \<lambda>w. coherent (w_db w)"

text \<open>An insertion of a row that has its fact, after the checks that give the fact.\<close>

lemma coherent_pieces [keeps_intros]:
  "keeps telling (findAccount a)" "keeps telling (requireAccount a)"
  "keeps telling (given_or_random t g)" "keeps telling (insert_products a ts ps)"
  "keeps telling (claim_one e p n x r c)" "keeps telling (record_evaluation i p ce)"
  "keeps telling (require_event e)" "keeps telling (listConfirmedProducts a)"
  "keeps telling (findWatch i)" "keeps telling (getDeliveryState e ch)"
  "keeps telling (findDeliveryConsent a ch tg)" "keeps telling (getDeliverySuppression a ch tg)"
proof -
  show f: "keeps telling (findAccount a)" for a
    unfolding findAccount_def by (intro keeps_intros)
  show "keeps telling (requireAccount a)"
    unfolding requireAccount_def by (intro keeps_intros f)
  show "keeps telling (given_or_random t g)"
    unfolding given_or_random_def by (intro keeps_intros)
  show "keeps telling (insert_products a ts ps)"
    unfolding insert_products_def by (intro keeps_intros keeps_coherent) (erule (1) coherent_untold)
  show "keeps telling (claim_one e p n x r c)"
    unfolding claim_one_def by (intro keeps_intros keeps_coherent) (erule (1) coherent_untold)
  show "keeps telling (record_evaluation i p ce)"
    unfolding record_evaluation_def by (intro keeps_intros keeps_coherent) (erule (1) coherent_untold)
  show "keeps telling (require_event e)"
    unfolding require_event_def by (intro keeps_intros)
  show "keeps telling (listConfirmedProducts a)"
    unfolding listConfirmedProducts_def by (intro keeps_intros)
  show "keeps telling (findWatch i)"
    unfolding findWatch_def by (intro keeps_intros)
  show "keeps telling (getDeliveryState e ch)"
    unfolding getDeliveryState_def by (intro keeps_intros)
  show "keeps telling (findDeliveryConsent a ch tg)"
    unfolding findDeliveryConsent_def by (intro keeps_intros)
  show "keeps telling (getDeliverySuppression a ch tg)"
    unfolding getDeliverySuppression_def by (intro keeps_intros)
qed

lemma coherent_quiet_operations:
  "keeps telling (findCredentialByIdentity ident)" "keeps telling (findCredentialByAccount a)"
  "keeps telling (findSession d)" "keeps telling (listAuditEvents a)" "keeps telling (listWatches a)"
  "keeps telling (listAlertEvents a)" "keeps telling (backup path)" "keeps telling enterMaintenance"
  unfolding findCredentialByIdentity_def findCredentialByAccount_def findSession_def listAuditEvents_def
    listWatches_def listAlertEvents_def backup_def enterMaintenance_def
  by (intro keeps_intros keeps_writing; simp)+

lemma coherent_untold_operations:
  "keeps telling (createAccount n e)" "keeps telling (createSession a d x)"
  "keeps telling (revokeSession d)" "keeps telling (revokeSessionsForAccount a)"
  "keeps telling (issueRecoveryToken a d x)" "keeps telling (consumeRecoveryToken d)"
  "keeps telling (appendAuditEvent a2 k j)" "keeps telling (setPrimaryExporter a e)"
  "keeps telling (confirmPortfolio a ps)" "keeps telling (claimWatchesForEvaluation ev p lm s)"
  "keeps telling (acquireApplicationLease h tk sec)" "keeps telling (close tk)"
  unfolding createAccount_def createSession_def revokeSession_def revokeSessionsForAccount_def
    issueRecoveryToken_def consumeRecoveryToken_def appendAuditEvent_def setPrimaryExporter_def
    confirmPortfolio_def claimWatchesForEvaluation_def acquireApplicationLease_def close_def
  by (intro keeps_intros keeps_coherent; (erule (1) coherent_untold | simp add: coherent_def))+

text \<open>The operations that write a row of one of the tables: the checks before the statement give its fact.\<close>

lemma keeps_update_credential_telling:
  assumes "\<And>c. credential_fact c \<Longrightarrow> credential_fact (f c)"
  shows "keeps telling (update_credential i f)"
  unfolding update_credential_def
  by (intro keeps_intros keeps_coherent) (auto intro!: coherent_credentials simp: coherent_def in_update_rows assms)

lemma credential_fact_new:
  "normalizeCredentialIdentity ident = Inr n \<Longrightarrow> credential_fact
     \<lparr>cr_id = i, cr_accountId = a, cr_normalizedIdentity = n, cr_verifier = v, cr_failedAttemptCount = 0,
      cr_lockedUntil = None, cr_createdAt = ts, cr_updatedAt = ts\<rparr>"
  by (simp add: credential_fact_def normalizeCredentialIdentity_Inr_iff normal_text_normalized)

lemma coherent_credential_operations:
  "keeps telling (createAccountWithCredential n e ident v)" "keeps telling (createCredential a ident v)"
  "keeps telling (updateCredentialAttempts i c l)" "keeps telling (updateCredentialVerifier i v)"
proof -
  show "keeps telling (createAccountWithCredential n e ident v)"
    unfolding createAccountWithCredential_def
    by (rule keeps_check keeps_intros keeps_coherent | erule (1) coherent_untold
        | (erule coherent_insert_credential, simp add: credential_fact_new, assumption))+
  show "keeps telling (createCredential a ident v)"
    unfolding createCredential_def
    by (rule keeps_check keeps_intros keeps_coherent
        | (erule coherent_insert_credential, simp add: credential_fact_new, assumption))+
  show "keeps telling (updateCredentialAttempts i c l)"
    unfolding updateCredentialAttempts_def
    by (rule keeps_check keeps_intros keeps_update_credential_telling
        | simp add: credential_fact_def requireNonNegativeInt_def split: if_splits)+
  show "keeps telling (updateCredentialVerifier i v)"
    unfolding updateCredentialVerifier_def
    by (intro keeps_intros keeps_update_credential_telling) (simp add: credential_fact_def)
qed

lemma attempt_status: "normalizeDeliveryStatus s = Inr n \<Longrightarrow> n \<noteq> PENDING"
  by (auto simp: normalizeDeliveryStatus_def split: if_splits)

lemma coherent_delivery_operations:
  "keeps telling (ensureDeliveryState ei ch)" "keeps telling (recordDeliveryAttempt di)"
  "keeps telling (markDelivered ei ch pr)"
proof -
  show "keeps telling (ensureDeliveryState ei ch)"
    unfolding ensureDeliveryState_def
    by (rule keeps_intros keeps_coherent
        | (erule coherent_insert_delivery, simp add: delivery_fact_def deliveryIdempotencyKey_def, assumption))+
  show r: "keeps telling (recordDeliveryAttempt di)" for di
    unfolding recordDeliveryAttempt_def
    by (rule keeps_check keeps_intros keeps_coherent
        | (erule coherent_upsert_delivery, simp add: delivery_fact_def deliveryIdempotencyKey_def attempt_status,
           simp add: attempt_status, assumption))+
  show "keeps telling (markDelivered ei ch pr)"
    unfolding markDelivered_def by (rule r)
qed

lemma keeps_update_watch_telling:
  assumes "\<And>r. wr_id (f r) = wr_id r" "\<And>r. wr_accountId (f r) = wr_accountId r"
    "\<And>r. wr_deletedAt r = None \<Longrightarrow> watch_fact r \<Longrightarrow> watch_fact (f r)"
  shows "keeps telling (update_watch i f)"
  unfolding update_watch_def
  by (intro keeps_intros keeps_coherent) (auto intro!: coherent_update_watches simp: assms open_watch_def)

lemma coherent_watch_operations:
  "keeps telling (openWatch a oi)" "keeps telling (pauseWatch i)" "keeps telling (resumeWatch i)"
  "keeps telling (deleteWatch i)" "keeps telling (completeEvaluation li p ce)"
proof -
  show "keeps telling (openWatch a oi)"
    unfolding openWatch_def
    by (rule keeps_intros keeps_coherent | (erule coherent_insert_watch, simp add: watch_fact_def, assumption))+
  show "keeps telling (pauseWatch i)"
    unfolding pauseWatch_def
    by (intro keeps_intros keeps_update_watch_telling) (simp_all add: watch_fact_def coalesce_def split: option.splits)
  show "keeps telling (resumeWatch i)"
    unfolding resumeWatch_def by (intro keeps_intros keeps_update_watch_telling) (simp_all add: watch_fact_def)
  show "keeps telling (deleteWatch i)"
    unfolding deleteWatch_def
    by (intro keeps_intros keeps_update_watch_telling) (simp_all add: watch_fact_def coalesce_def)
  show "keeps telling (completeEvaluation li p ce)"
    unfolding completeEvaluation_def
    by (intro keeps_intros keeps_coherent; (rule coherent_update_watches)?; simp add: watch_fact_def coherent_def)
qed

text \<open>A suppression is stored under a normalised channel and target.\<close>

lemma suppression_fact_new:
  "normalizeDeliveryChannel c = Inr c' \<Longrightarrow> normalizeDeliveryTarget t = Inr t' \<Longrightarrow> suppression_fact
     \<lparr>sp_accountId = a, sp_channel = c', sp_target = t', sp_reason = re, sp_providerReceipt = pr, sp_createdAt = ts\<rparr>"
  by (auto simp: suppression_fact_def normalizeDelivery_Inr_iff normal_text_normalized)

lemma coherent_consent_operations:
  "keeps telling (requestDeliveryConsent a c t v u)" "keeps telling (verifyDeliveryConsent a c t v1)"
  "keeps telling (recordDeliverySuppression a c t re pr)" "keeps telling (deleteAccount a)"
proof -
  show "keeps telling (requestDeliveryConsent a c t v u)"
    unfolding requestDeliveryConsent_def
    by (rule keeps_intros keeps_coherent | (erule coherent_upsert_consent, simp, assumption))+
  show "keeps telling (verifyDeliveryConsent a c t v1)"
    unfolding verifyDeliveryConsent_def
    by (intro keeps_intros keeps_coherent)
       (auto intro!: coherent_update_consents)
  show "keeps telling (recordDeliverySuppression a c t re pr)"
    unfolding recordDeliverySuppression_def
    by (rule keeps_check keeps_intros keeps_coherent
        | (erule coherent_upsert_suppression, simp add: suppression_fact_new, assumption))+
  show "keeps telling (deleteAccount a)"
    unfolding deleteAccount_def
    by (rule keeps_intros keeps_coherent | erule (1) coherent_untold | erule coherent_delete_account)+
qed

text \<open>An unsubscription marks the one consent of its token and suppresses its target in one transaction.\<close>

lemma coherent_unsubscribe:
  assumes "unsubscribeDeliveryTarget u w = (q, t)" "database_ok (w_db w)" "consents_normal (w_db w)" "telling w"
  shows "telling t"
proof -
  let ?P = "\<lambda>r. dc_unsubscribeToken r = u" and ?ts = "to_iso (w_clock w (w_reads w))" and ?db = "w_db w"
  let ?f = "\<lambda>r. r\<lparr>dc_unsubscribedAt := coalesce (dc_unsubscribedAt r) (Some ?ts), dc_updatedAt := ?ts\<rparr>"
  let ?s = "\<lambda>c. \<lparr>sp_accountId = dc_accountId c, sp_channel = dc_channel c, sp_target = dc_target c,
              sp_reason = REASON_UNSUBSCRIBE, sp_providerReceipt = None, sp_createdAt = ?ts\<rparr>"
  show ?thesis
  proof (cases "w_db t = ?db")
    case False
    then obtain x where "q = Inr x" using atomic_unsubscribe assms(1,3) by (cases q) auto
    with assms(1) False obtain c where c: "find ?P (consents ?db) = Some c"
      and ins: "insert_suppression_once (?s c) (?db\<lparr>consents := update_rows ?P ?f (consents ?db)\<rparr>) = Inr (w_db t)"
      by (auto simp: unsubscribeDeliveryTarget_def run_iffs requireNonEmpty_def findDeliveryConsent_Inr_iff
          split: if_splits option.splits)
    from find_SomeD [OF c] have cin: "c \<in> set (consents ?db)" "dc_unsubscribeToken c = u" by simp_all
    from ins obtain ss where up: "upsert_nothing suppression_clash suppression_clash
        ''operational_delivery_suppression'' (?s c) (suppressions ?db) = Inr ss"
      and t: "w_db t = (?db\<lparr>suppressions := ss\<rparr>)\<lparr>consents := update_rows ?P ?f (consents ?db)\<rparr>"
      by (auto simp: insert_suppression_once_def ebind_Inr_iff)
    have "normal_consent c" using cin(1) assms(3) by (simp add: consents_normal_def)
    then have "suppression_fact (?s c)"
      by (auto simp: normal_consent_def suppression_fact_def normalizeDelivery_Inr_iff dest: normal_text_normalized)
    with up assms(4) have kept: "coherent (?db\<lparr>suppressions := ss\<rparr>)" by (intro coherent_suppression_once)
    have "\<exists>s \<in> set ss. suppression_clash (?s c) s"
      using up by (auto simp: upsert_nothing_def insert_row_def list_ex_iff suppression_clash_def split: if_splits)
    then have now: "unsubscribed_suppressed ss (?f c)"
      by (auto simp: unsubscribed_suppressed_def suppression_clash_def)
    have "unsubscribed_suppressed ss s" if "s \<in> set (update_rows ?P ?f (consents ?db))" for s
    proof -
      from that obtain r where r: "r \<in> set (consents ?db)" "s = (if ?P r then ?f r else r)"
        unfolding in_update_rows by blast
      show ?thesis
      proof (cases "?P r")
        case True
        with cin have "consent_clash r c" by (simp add: consent_clash_def)
        with r(1) cin(1) have "r = c"
          using consent_table.no_clash_unique [OF database_ok_tables(6) [OF assms(2)]] by blast
        with True r(2) now show ?thesis by simp
      next
        case False
        with r kept show ?thesis by (simp add: coherent_def)
      qed
    qed
    with kept show ?thesis unfolding t by (intro coherent_consents) simp_all
  qed (use assms(4) in simp)
qed

text \<open>An alert is recorded for the account of its watch.\<close>

lemma coherent_recordAlertEvent: "keeps telling (recordAlertEvent ri)"
  unfolding keeps_def
proof (intro allI impI)
  fix w :: world assume k: "telling w"
  obtain q t where r: "recordAlertEvent ri w = (q, t)" by fastforce
  show "telling (snd (recordAlertEvent ri w))"
  proof (cases q)
    case (Inl e)
    with r k atomicD [OF watch_operations_atomic(7)] show ?thesis by simp
  next
    case (Inr p)
    then obtain e created where p: "recordAlertEvent ri w = (Inr (e, created), t)" using r by (cases p) auto
    note f = recordAlertEvent_InrD [OF p]
    show ?thesis
    proof (cases created)
      case True
      have "ae_watchId e = ri_watchId ri" using find_SomeD [OF f(5)] by simp
      with f(3) [OF True] have "event_fact (watches (w_db w)) e" by (auto simp: event_fact_def)
      with k f(2) [OF True] p show ?thesis by (auto simp: coherent_def)
    qed (use f(4) k p in simp)
  qed
qed

subsection \<open>Every call\<close>

lemmas telling_operations = coherent_quiet_operations coherent_untold_operations coherent_credential_operations
  coherent_delivery_operations coherent_watch_operations coherent_consent_operations
  coherent_recordAlertEvent coherent_pieces

lemma store_call_coherent:
  assumes "store_call w e t" "consistent w" "normalised w" "telling w"
  shows "telling t"
  using assms
proof (induction rule: store_call.induct)
  case (24 m u w)
  then show ?case using coherent_unsubscribe by (cases "m w") auto
qed (hypsubst, erule keeps_snd [where P = telling], rule telling_operations)+

lemma store_run_facts: "store_run w \<Longrightarrow> consistent w \<and> normalised w \<and> telling w"
proof (induction rule: store_run.induct)
  case (open_store w)
  then show ?case using database_ok_empty by (simp add: consents_normal_def empty_database_def coherent_def)
next
  case (call w e t)
  then show ?case using store_call_consistent store_call_normalised store_call_coherent by blast
qed

lemma normal_consent_texts: "normal_consent c \<Longrightarrow> normal_text (dc_channel c) \<and> normal_text (dc_target c)"
  unfolding normal_consent_def normalizeDelivery_Inr_iff by (metis normal_text_normalized)

subsection \<open>Properties\<close>

text \<open>C19: whatever calls a store sees, from an empty database on, its rows make sense. A credential identity is
  normalised, its failed attempts are not negative; the channel and target of a consent and of a
  suppression are normalised; the target of an unsubscribed consent is suppressed; a watch is active exactly
  while it is neither paused nor deleted; an alert belongs to the account of its watch; a delivery carries
  the key of its alert and channel, is pending exactly until its first attempt, and has an outcome
  from then on. No two rows share a key, and every row refers to rows that exist.\<close>

theorem store_invariant:
  assumes "store_run w"
  defines "db \<equiv> w_db w"
  shows "(\<forall>c \<in> set (credentials db). normal_text (cr_normalizedIdentity c) \<and> 0 \<le> cr_failedAttemptCount c)
    \<and> (\<forall>c \<in> set (consents db). normal_text (dc_channel c) \<and> normal_text (dc_target c)
        \<and> (dc_unsubscribedAt c \<noteq> None \<longrightarrow> (\<exists>s \<in> set (suppressions db). sp_accountId s = dc_accountId c
              \<and> sp_channel s = dc_channel c \<and> sp_target s = dc_target c \<and> sp_reason s = REASON_UNSUBSCRIBE)))
    \<and> (\<forall>s \<in> set (suppressions db). normal_text (sp_channel s) \<and> normal_text (sp_target s))
    \<and> (\<forall>r \<in> set (watches db). wr_status r = ACTIVE \<longleftrightarrow> wr_pausedAt r = None \<and> wr_deletedAt r = None)
    \<and> (\<forall>e \<in> set (alert_events db). \<exists>r \<in> set (watches db). wr_id r = ae_watchId e \<and> wr_accountId r = ae_accountId e)
    \<and> (\<forall>d \<in> set (delivery_states db). ds_idempotencyKey d = ds_eventId d @ '':'' @ ds_channel d \<and> 0 \<le> ds_attempts d
        \<and> (ds_status d = PENDING \<longleftrightarrow> ds_attempts d = 0) \<and> (ds_lastOutcome d = None \<longleftrightarrow> ds_attempts d = 0))
    \<and> keys_unique db \<and> references_ok db"
proof -
  have ok: "database_ok db" "consents_normal db" "coherent db"
    using store_run_facts [OF assms(1)] by (simp_all add: db_def)
  then have c: "normal_text (dc_channel c) \<and> normal_text (dc_target c)
      \<and> (dc_unsubscribedAt c \<noteq> None \<longrightarrow> (\<exists>s \<in> set (suppressions db). sp_accountId s = dc_accountId c
              \<and> sp_channel s = dc_channel c \<and> sp_target s = dc_target c \<and> sp_reason s = REASON_UNSUBSCRIBE))"
    if "c \<in> set (consents db)" for c
    using that normal_consent_texts by (auto simp: consents_normal_def coherent_def unsubscribed_suppressed_def)
  show ?thesis
    using ok(1,3) c keys_unique_ok [OF ok(1)]
    by (simp add: coherent_def credential_fact_def suppression_fact_def watch_fact_def event_fact_def
        delivery_fact_def database_ok_def)
qed

text \<open>A run in which a consent is requested and unsubscribed.\<close>

lemma sample_unsubscribed:
  "\<exists>k t. unsubscribeDeliveryTarget ''id-3'' consent_world = (Inr (Some k), t) \<and> store_run t"
proof -
  have "store_call registered_world None consent_world"
    using store_call.intros(22) [where a = "''id-0''" and c = "''Email''" and t = "''Ada@Example.org''" and vt = None
        and ut = None and w = registered_world, OF refl]
    by (simp add: consent_requested(1) thrown_by_def)
  with sample_run(2) have c: "store_run consent_world" by (rule store_run.call)
  obtain k t where u: "unsubscribeDeliveryTarget ''id-3'' consent_world = (Inr (Some k), t)"
    using unsubscribed by blast
  have "store_call consent_world None t"
    using store_call.intros(24) [where u = "''id-3''" and w = consent_world, OF refl]
    by (simp add: u thrown_by_def)
  with c u show ?thesis using store_run.call by blast
qed

theorem store_invariant_witness:
  "(\<exists>k t. unsubscribeDeliveryTarget ''id-3'' consent_world = (Inr (Some k), t) \<and> k \<in> set (consents (w_db t))
      \<and> (\<exists>s \<in> set (suppressions (w_db t)). sp_target s = dc_target k \<and> sp_reason s = REASON_UNSUBSCRIBE))
    \<and> keys_unique (w_db watch_world) \<and> references_ok (w_db watch_world)"
proof -
  obtain k t where u: "unsubscribeDeliveryTarget ''id-3'' consent_world = (Inr (Some k), t)" "store_run t"
    using sample_unsubscribed by blast
  have "database_ok (w_db consent_world)"
    using keepsD [OF consent_operations_keep(2) _ consent_requested(1)] registered_ok by simp
  moreover have "consents_normal (w_db consent_world)"
    by (simp add: consents_normal_def consent_requested normal_consent_def sample_consent_def
        normalize_samples trims)
  ultimately have f: "find (consent_key (dc_accountId k) (dc_channel k) (dc_target k)) (consents (w_db t)) = Some k"
    "dc_unsubscribedAt k \<noteq> None"
    by (rule unsubscribeDeliveryTarget_InrD(1) [OF u(1)], rule unsubscribeDeliveryTarget_InrD(2) [OF u(1)])
  from find_SomeD [OF f(1)] have k: "k \<in> set (consents (w_db t))" by simp
  note run = store_invariant [OF u(2)]
  from bspec [OF conjunct1 [OF conjunct2 [OF run]] k] f(2) have "\<exists>s \<in> set (suppressions (w_db t)).
      sp_target s = dc_target k \<and> sp_reason s = REASON_UNSUBSCRIBE" by blast
  with u(1) k have "\<exists>k t. unsubscribeDeliveryTarget ''id-3'' consent_world = (Inr (Some k), t)
      \<and> k \<in> set (consents (w_db t))
      \<and> (\<exists>s \<in> set (suppressions (w_db t)). sp_target s = dc_target k \<and> sp_reason s = REASON_UNSUBSCRIBE)"
    by (intro exI [of _ k] exI [of _ t]) simp
  moreover have "keys_unique (w_db watch_world) \<and> references_ok (w_db watch_world)"
    using store_invariant [OF sample_run(3)] by (elim conjE) (intro conjI)
  ultimately show ?thesis by (rule conjI)
qed

end
