(* ===== verification/Base64.thy ===== *)
theory Base64
  imports Js_String
begin

text \<open>
  The base64 texts of Node's \<^verbatim>\<open>Buffer\<close>: a buffer is the list of its bytes. Decoding is as lenient as
  Node's: it takes the URL alphabet too, skips foreign characters, and stops at the padding.
\<close>

definition base64_alphabet :: string where
  "base64_alphabet = ''ABCDEFGHIJKLMNOPQRSTUVWXYZabcdefghijklmnopqrstuvwxyz0123456789+/''"

definition base64url_alphabet :: string where
  "base64url_alphabet = ''ABCDEFGHIJKLMNOPQRSTUVWXYZabcdefghijklmnopqrstuvwxyz0123456789-_''"

fun sextets :: "nat list \<Rightarrow> nat list" where
  "sextets (a # b # c # bs) =
     (a div 4) # (a mod 4 * 16 + b div 16) # (b mod 16 * 4 + c div 64) # (c mod 64) # sextets bs"
| "sextets [a, b] = [a div 4, a mod 4 * 16 + b div 16, b mod 16 * 4]"
| "sextets [a] = [a div 4, a mod 4 * 16]"
| "sextets [] = []"

fun unsextets :: "nat list \<Rightarrow> nat list" where
  "unsextets (p # q # r # s # ss) =
     (p * 4 + q div 16) # (q mod 16 * 16 + r div 4) # (r mod 4 * 64 + s) # unsextets ss"
| "unsextets [p, q, r] = [p * 4 + q div 16, q mod 16 * 16 + r div 4]"
| "unsextets [p, q] = [p * 4 + q div 16]"
| "unsextets _ = []"

definition bytes_of :: "string \<Rightarrow> nat list" where
  "bytes_of s = map of_char s"

definition text_of :: "nat list \<Rightarrow> string" where
  "text_of ns = map char_of ns"

definition padding :: "nat \<Rightarrow> string" where
  "padding n = (if n mod 3 = 1 then ''=='' else if n mod 3 = 2 then ''='' else [])"

definition to_base64 :: "string \<Rightarrow> string" where
  "to_base64 b = map (\<lambda>n. base64_alphabet ! n) (sextets (bytes_of b)) @ padding (length b)"

definition to_base64url :: "string \<Rightarrow> string" where
  "to_base64url b = map (\<lambda>n. base64url_alphabet ! n) (sextets (bytes_of b))"

fun index_in :: "char \<Rightarrow> string \<Rightarrow> nat option" where
  "index_in c [] = None"
| "index_in c (d # ds) = (if c = d then Some 0 else map_option Suc (index_in c ds))"

definition sextet_of :: "char \<Rightarrow> nat option" where
  "sextet_of c =
     (case index_in c base64_alphabet of Some n \<Rightarrow> Some n | None \<Rightarrow> index_in c base64url_alphabet)"

definition from_base64 :: "string \<Rightarrow> string" where
  "from_base64 s = text_of (unsextets (List.map_filter sextet_of (takeWhile (\<lambda>c. c \<noteq> CHR ''='') s)))"

lemma sextets_small: "\<forall>b \<in> set bs. b < 256 \<Longrightarrow> n \<in> set (sextets bs) \<Longrightarrow> n < 64"
proof (induction bs rule: sextets.induct)
  case (1 a b c bs)
  have "a div 4 < 64" "a mod 4 * 16 + b div 16 < 64" "b mod 16 * 4 + c div 64 < 64" "c mod 64 < 64"
    using "1.prems"(1) by (auto simp: less_mult_imp_div_less)
  with 1 show ?case by auto
qed (auto simp: less_mult_imp_div_less)

lemma unsextets_sextets: "\<forall>b \<in> set bs. b < 256 \<Longrightarrow> unsextets (sextets bs) = bs"
proof (induction bs rule: sextets.induct)
  case (1 a b c bs)
  have "(a mod 4 * 16 + b div 16) div 16 = a mod 4" "(a mod 4 * 16 + b div 16) mod 16 = b div 16"
    "(b mod 16 * 4 + c div 64) div 4 = b mod 16" "(b mod 16 * 4 + c div 64) mod 4 = c div 64"
    using "1.prems" by (simp_all add: less_mult_imp_div_less)
  with 1 show ?case by simp
next
  case (2 a b)
  have "(a mod 4 * 16 + b div 16) div 16 = a mod 4" "(a mod 4 * 16 + b div 16) mod 16 = b div 16"
    using 2 by (simp_all add: less_mult_imp_div_less)
  then show ?case by simp
qed auto

lemma alphabet_round_trip:
  "list_all (\<lambda>n. sextet_of (base64_alphabet ! n) = Some n \<and> base64_alphabet ! n \<noteq> CHR ''=''
     \<and> base64_alphabet ! n \<noteq> CHR ''$'') [0 ..< 64]"
  by code_simp

lemma alphabet_nth:
  assumes "n < 64"
  shows "sextet_of (base64_alphabet ! n) = Some n" "base64_alphabet ! n \<noteq> CHR ''=''"
    "base64_alphabet ! n \<noteq> CHR ''$''"
  using assms alphabet_round_trip by (auto simp: list_all_iff)

lemma bytes_small: "b \<in> set (bytes_of s) \<Longrightarrow> b < 256"
  by (auto simp: bytes_of_def)

text \<open>Decoding an encoded buffer gives the buffer back.\<close>

lemma from_to_base64 [simp]: "from_base64 (to_base64 b) = b"
proof -
  let ?s = "sextets (bytes_of b)"
  have small: "\<forall>n \<in> set ?s. n < 64" using sextets_small bytes_small by blast
  have "takeWhile (\<lambda>c. c \<noteq> CHR ''='') (map (\<lambda>n. base64_alphabet ! n) ?s @ padding (length b))
      = map (\<lambda>n. base64_alphabet ! n) ?s"
    using small alphabet_nth(2) by (subst takeWhile_append2) (auto simp: padding_def)
  moreover have "List.map_filter sextet_of (map (\<lambda>n. base64_alphabet ! n) ns) = ns" if "\<forall>n \<in> set ns. n < 64" for ns
    using that by (induction ns) (simp_all add: alphabet_nth map_filter_simps)
  ultimately have "from_base64 (to_base64 b) = text_of (unsextets ?s)"
    using small by (simp add: from_base64_def to_base64_def)
  also have "\<dots> = text_of (bytes_of b)" using unsextets_sextets bytes_small by metis
  finally show ?thesis by (simp add: text_of_def bytes_of_def comp_def)
qed

lemma base64_no_dollar: "CHR ''$'' \<notin> set (to_base64 b)"
proof -
  have "\<forall>n \<in> set (sextets (bytes_of b)). base64_alphabet ! n \<noteq> CHR ''$''"
    using alphabet_nth(3) sextets_small bytes_small by blast
  moreover have "CHR ''$'' \<notin> set (padding n)" for n by (simp add: padding_def)
  ultimately show ?thesis by (auto simp only: to_base64_def set_append set_map image_iff Un_iff)
qed

lemma sextets_Nil: "sextets bs = [] \<longleftrightarrow> bs = []"
  by (cases bs rule: sextets.cases) simp_all

lemma to_base64_Nil [simp]: "to_base64 b = [] \<longleftrightarrow> b = []"
proof
  assume "to_base64 b = []"
  then have "sextets (bytes_of b) = []" by (simp only: to_base64_def append_is_Nil_conv map_is_Nil_conv)
  then show "b = []" by (simp only: sextets_Nil bytes_of_def map_is_Nil_conv)
qed (simp add: to_base64_def bytes_of_def padding_def)

end
