(* ===== verification/Unicode_Text.thy ===== *)
theory Unicode_Text
  imports Js_String
begin

text \<open>
  Text splitting and the Unicode tables the searches use. The tables (NFKC, the classes P and S, the
  scripts Han and Latin) belong to the JavaScript engine, so they are a parameter; whether a code unit is
  white space and its lower case are those of \<^theory_text>\<open>Js_String\<close>.
\<close>

record unicode =
  un_nfkc :: "string \<Rightarrow> string"
  un_punctuation :: "char \<Rightarrow> bool"
  un_symbol :: "char \<Rightarrow> bool"
  un_han :: "char \<Rightarrow> bool"
  un_latin :: "char \<Rightarrow> bool"

text \<open>\<^verbatim>\<open>s.split(c)\<close> for one character.\<close>

fun split_on :: "char \<Rightarrow> string \<Rightarrow> string list" where
  "split_on c [] = [[]]"
| "split_on c (x # xs) =
     (if x = c then [] # split_on c xs
      else (case split_on c xs of [] \<Rightarrow> [[x]] | p # ps \<Rightarrow> (x # p) # ps))"

text \<open>\<^verbatim>\<open>s.replace(/[P]+/gu, " ")\<close>: every run of characters in the class becomes one space.\<close>

lemma length_dropWhile_Suc [termination_simp]: "length (dropWhile P s) < Suc (length s)"
  using length_dropWhile_le [of P s] by simp

fun replace_runs :: "(char \<Rightarrow> bool) \<Rightarrow> string \<Rightarrow> string" where
  "replace_runs P [] = []"
| "replace_runs P (c # s) =
     (if P c then CHR '' '' # replace_runs P (dropWhile P s) else c # replace_runs P s)"

text \<open>\<^verbatim>\<open>s.split(/\s+/gu)\<close>.\<close>

definition split_spaces :: "string \<Rightarrow> string list" where
  "split_spaces s = split_on CHR '' '' (replace_runs is_space s)"

lemma split_on_not_Nil [simp]: "split_on c s \<noteq> []"
  by (cases s) (auto split: list.splits)

lemma split_on_append: "c \<notin> set p \<Longrightarrow> split_on c (p @ c # s) = p # split_on c s"
  by (induction p) auto

lemma split_on_single: "c \<notin> set p \<Longrightarrow> split_on c p = [p]"
  by (induction p) auto

lemma replace_runs_id: "\<forall>c \<in> set s. \<not> P c \<Longrightarrow> replace_runs P s = s"
  by (induction s) auto

text \<open>The tables on ASCII texts.\<close>

definition ascii_unicode :: unicode where
  "ascii_unicode = \<lparr>un_nfkc = (\<lambda>s. s), un_punctuation = (\<lambda>c. c \<in> set ''!#%&()*,-./:;?@[]_{}''),
     un_symbol = (\<lambda>c. c \<in> set ''$+<=>^`|~''), un_han = (\<lambda>c. False),
     un_latin = (\<lambda>c. c \<in> set ''ABCDEFGHIJKLMNOPQRSTUVWXYZabcdefghijklmnopqrstuvwxyz'')\<rparr>"

end
