(* ===== verification/Economy_Search.thy ===== *)
theory Economy_Search
  imports Unicode_Text Store_Model "HOL-Library.Product_Lexorder" "HOL-Library.Multiset"
begin

text \<open>
  The economy directory: \<^verbatim>\<open>src/economy/economy-search.ts\<close> and the search of
  \<^verbatim>\<open>DuckDbEconomyDirectory\<close>. A code is the decimal text of a nonnegative integer, as the loader makes
  it; the directory's own errors are \<^theory_text>\<open>OtherError\<close>.
\<close>

record economy_record =
  ec_code :: string
  ec_iso2 :: "string option"
  ec_iso3 :: "string option"
  ec_name :: string
  ec_identityNote :: "string option"

datatype economy_match_class =
    EXACT_CODE | EXACT_CROSSWALK | EXACT_NAME | CODE_PREFIX | CROSSWALK_PREFIX | NAME_PREFIX | NAME_TOKENS

datatype economy_matched_field = FIELD_CODE | FIELD_ISO2 | FIELD_ISO3 | FIELD_NAME

record economy_match =
  em_class :: economy_match_class
  em_field :: economy_matched_field
  em_matchedText :: string

record economy_search_query =
  eq_analysisBuildId :: string
  eq_query :: string
  eq_limit :: int

record economy_search_result =
  es_analysisBuildId :: string
  es_normalized :: string
  es_limit :: int
  es_totalMatches :: nat
  es_truncated :: bool
  es_matches :: "(economy_record \<times> economy_match option) list"

fun economy_class_order :: "economy_match_class \<Rightarrow> nat" where
  "economy_class_order EXACT_CODE = 0"
| "economy_class_order EXACT_CROSSWALK = 1"
| "economy_class_order EXACT_NAME = 2"
| "economy_class_order CODE_PREFIX = 3"
| "economy_class_order CROSSWALK_PREFIX = 4"
| "economy_class_order NAME_PREFIX = 5"
| "economy_class_order NAME_TOKENS = 6"

definition normalizeEconomyQuery :: "unicode \<Rightarrow> string \<Rightarrow> string" where
  "normalizeEconomyQuery u text = replace_runs is_space (trim (to_lower (un_nfkc u text)))"

definition validateEconomySearchQuery :: "economy_search_query \<Rightarrow> thrown + unit" where
  "validateEconomySearchQuery q =
     (if 100 < length (eq_query q)
      then Inl (OtherError ''Economy search query exceeds 100 Unicode code points.'')
      else if eq_limit q < 1 \<or> 50 < eq_limit q
      then Inl (OtherError ''Economy search limit must be an integer from 1 through 50.'')
      else Inr ())"

definition containsEveryNameToken :: "unicode \<Rightarrow> string \<Rightarrow> string \<Rightarrow> bool" where
  "containsEveryNameToken u name q =
     (let nameTokens = split_spaces (replace_runs (un_punctuation u) name)
      in list_all (\<lambda>t. t \<in> set nameTokens) (split_spaces (replace_runs (un_punctuation u) q)))"

text \<open>\<^verbatim>\<open>crosswalks.find(...)\<close> over ISO2 and ISO3, in that order.\<close>

definition find_crosswalk ::
  "(string \<Rightarrow> bool) \<Rightarrow> economy_record \<Rightarrow> (economy_matched_field \<times> string) option" where
  "find_crosswalk P economy =
     (case ec_iso2 economy of
        Some v \<Rightarrow> if P (to_lower v) then Some (FIELD_ISO2, v)
          else (case ec_iso3 economy of
                  Some v' \<Rightarrow> if P (to_lower v') then Some (FIELD_ISO3, v') else None | None \<Rightarrow> None)
      | None \<Rightarrow> (case ec_iso3 economy of
                  Some v' \<Rightarrow> if P (to_lower v') then Some (FIELD_ISO3, v') else None | None \<Rightarrow> None))"

definition economy_matched :: "economy_match_class \<Rightarrow> economy_matched_field \<Rightarrow> string \<Rightarrow> economy_match" where
  "economy_matched c f t = \<lparr>em_class = c, em_field = f, em_matchedText = t\<rparr>"

definition matchEconomy :: "unicode \<Rightarrow> economy_record \<Rightarrow> string \<Rightarrow> economy_match option" where
  "matchEconomy u economy q =
     (if ec_code economy = q then Some (economy_matched EXACT_CODE FIELD_CODE (ec_code economy)) else
      case find_crosswalk (\<lambda>v. v = q) economy of
        Some (f, v) \<Rightarrow> Some (economy_matched EXACT_CROSSWALK f v)
      | None \<Rightarrow>
          let normalizedName = normalizeEconomyQuery u (ec_name economy) in
          if normalizedName = q then Some (economy_matched EXACT_NAME FIELD_NAME (ec_name economy))
          else if starts_with q (ec_code economy)
          then Some (economy_matched CODE_PREFIX FIELD_CODE (ec_code economy)) else
          case find_crosswalk (starts_with q) economy of
            Some (f, v) \<Rightarrow> Some (economy_matched CROSSWALK_PREFIX f v)
          | None \<Rightarrow>
              if starts_with q normalizedName
              then Some (economy_matched NAME_PREFIX FIELD_NAME (ec_name economy))
              else if containsEveryNameToken u normalizedName q
              then Some (economy_matched NAME_TOKENS FIELD_NAME (ec_name economy))
              else None)"

definition economy_code_number :: "economy_record \<Rightarrow> nat" where
  "economy_code_number e = undec (ec_code e)"

definition searchEconomies ::
  "unicode \<Rightarrow> economy_record list \<Rightarrow> string \<Rightarrow> (economy_record \<times> economy_match option) list" where
  "searchEconomies u economies normalizedQuery =
     (if normalizedQuery = [] then map (\<lambda>e. (e, None)) (sort_key economy_code_number economies)
      else map (\<lambda>(e, m). (e, Some m))
        (sort_key (\<lambda>(e, m). (economy_class_order (em_class m), economy_code_number e))
          (List.map_filter (\<lambda>e. map_option (Pair e) (matchEconomy u e normalizedQuery)) economies)))"

definition economyDirectorySearch ::
  "unicode \<Rightarrow> string \<Rightarrow> economy_record list \<Rightarrow> economy_search_query \<Rightarrow> thrown + economy_search_result" where
  "economyDirectorySearch u analysisBuildId economies q =
     ebind (validateEconomySearchQuery q) (\<lambda>_.
     if eq_analysisBuildId q \<noteq> analysisBuildId
     then Inl (OtherError (''Analysis build '' @ eq_analysisBuildId q @ '' is no longer served.''))
     else
       let normalizedQuery = normalizeEconomyQuery u (eq_query q);
           allMatches = searchEconomies u economies normalizedQuery;
           matches = take (nat (eq_limit q)) allMatches
       in Inr \<lparr>es_analysisBuildId = eq_analysisBuildId q, es_normalized = normalizedQuery,
               es_limit = eq_limit q, es_totalMatches = length allMatches,
               es_truncated = length matches < length allMatches, es_matches = matches\<rparr>)"

subsection \<open>Lemmas\<close>

lemma matchEconomy_exact [simp]:
  "matchEconomy u e q = Some m \<Longrightarrow> em_class m = EXACT_CODE \<longleftrightarrow> ec_code e = q"
  by (auto simp: matchEconomy_def economy_matched_def Let_def split: option.splits if_splits)

lemma economy_class_order_0 [simp]: "economy_class_order c = 0 \<longleftrightarrow> c = EXACT_CODE"
  by (cases c) simp_all

lemma matched_set:
  "(e, m) \<in> set (List.map_filter (\<lambda>e. map_option (Pair e) (matchEconomy u e q)) es)
     \<longleftrightarrow> e \<in> set es \<and> matchEconomy u e q = Some m"
  by (auto simp: map_filter_def image_iff)

lemma hd_sort_key_least:
  assumes "x \<in> set xs"
  shows "hd (sort_key f xs) \<in> set xs \<and> f (hd (sort_key f xs)) \<le> f x"
proof -
  obtain y ys where s: "sort_key f xs = y # ys" using assms
    by (metis set_sort length_pos_if_in_set list.exhaust list.set(1) empty_iff)
  have "sorted (map f (y # ys))" using sorted_sort_key [of f xs] s by simp
  moreover have "x \<in> set (y # ys)" "y \<in> set xs"
    using assms s by (metis set_sort, metis set_sort list.set_intros(1))
  ultimately show ?thesis using s by auto
qed

lemma economyDirectorySearch_Inr:
  assumes "economyDirectorySearch u b es q = Inr r"
  shows "es_normalized r = normalizeEconomyQuery u (eq_query q)"
    "es_matches r = take (nat (eq_limit q)) (searchEconomies u es (es_normalized r))"
    "es_totalMatches r = length (searchEconomies u es (es_normalized r))"
    "es_truncated r \<longleftrightarrow> eq_limit q < int (es_totalMatches r)" "1 \<le> eq_limit q" "eq_limit q \<le> 50"
  using assms
  by (auto simp: economyDirectorySearch_def validateEconomySearchQuery_def Let_def ebind_Inr_iff split: if_splits)

text \<open>What the seven match classes say, and the rank of a match: the best class that applies, then the
  numeric code.\<close>

fun class_applies :: "unicode \<Rightarrow> economy_record \<Rightarrow> string \<Rightarrow> economy_match_class \<Rightarrow> bool" where
  "class_applies u e q EXACT_CODE \<longleftrightarrow> ec_code e = q"
| "class_applies u e q EXACT_CROSSWALK \<longleftrightarrow> (\<exists>v. (ec_iso2 e = Some v \<or> ec_iso3 e = Some v) \<and> to_lower v = q)"
| "class_applies u e q EXACT_NAME \<longleftrightarrow> normalizeEconomyQuery u (ec_name e) = q"
| "class_applies u e q CODE_PREFIX \<longleftrightarrow> (\<exists>t. ec_code e = q @ t)"
| "class_applies u e q CROSSWALK_PREFIX \<longleftrightarrow> (\<exists>v t. (ec_iso2 e = Some v \<or> ec_iso3 e = Some v) \<and> to_lower v = q @ t)"
| "class_applies u e q NAME_PREFIX \<longleftrightarrow> (\<exists>t. normalizeEconomyQuery u (ec_name e) = q @ t)"
| "class_applies u e q NAME_TOKENS \<longleftrightarrow> set (split_spaces (replace_runs (un_punctuation u) q))
     \<subseteq> set (split_spaces (replace_runs (un_punctuation u) (normalizeEconomyQuery u (ec_name e))))"

definition economy_matches :: "unicode \<Rightarrow> string \<Rightarrow> economy_record \<Rightarrow> bool" where
  "economy_matches u q e \<longleftrightarrow> (\<exists>c. class_applies u e q c)"

definition economy_rank :: "unicode \<Rightarrow> string \<Rightarrow> economy_record \<Rightarrow> nat \<times> nat" where
  "economy_rank u q e =
     (LEAST n. \<exists>c. class_applies u e q c \<and> economy_class_order c = n, economy_code_number e)"

lemma starts_with_append: "starts_with p s \<longleftrightarrow> (\<exists>t. s = p @ t)"
  unfolding starts_with_def by (metis append_eq_conv_conj)

lemma find_crosswalk_None:
  "find_crosswalk P e = None \<longleftrightarrow> \<not> (\<exists>v. (ec_iso2 e = Some v \<or> ec_iso3 e = Some v) \<and> P (to_lower v))"
  by (auto simp: find_crosswalk_def split: option.splits if_splits)

text \<open>\<^verbatim>\<open>matchEconomy\<close> tries the classes in their order.\<close>

lemma matchEconomy_chain:
  "map_option em_class (matchEconomy u e q) =
     find (class_applies u e q)
       [EXACT_CODE, EXACT_CROSSWALK, EXACT_NAME, CODE_PREFIX, CROSSWALK_PREFIX, NAME_PREFIX, NAME_TOKENS]"
proof -
  have exact: "class_applies u e q EXACT_CROSSWALK \<longleftrightarrow> find_crosswalk (\<lambda>v. v = q) e \<noteq> None"
    unfolding find_crosswalk_None by simp
  have "class_applies u e q CROSSWALK_PREFIX \<longleftrightarrow> find_crosswalk (starts_with q) e \<noteq> None"
    unfolding find_crosswalk_None starts_with_append class_applies.simps by blast
  moreover have "class_applies u e q EXACT_CODE \<longleftrightarrow> ec_code e = q"
    "class_applies u e q EXACT_NAME \<longleftrightarrow> normalizeEconomyQuery u (ec_name e) = q"
    "class_applies u e q CODE_PREFIX \<longleftrightarrow> starts_with q (ec_code e)"
    "class_applies u e q NAME_PREFIX \<longleftrightarrow> starts_with q (normalizeEconomyQuery u (ec_name e))"
    "class_applies u e q NAME_TOKENS \<longleftrightarrow> containsEveryNameToken u (normalizeEconomyQuery u (ec_name e)) q"
    by (auto simp: starts_with_append containsEveryNameToken_def list_all_iff)
  ultimately show ?thesis
    using exact unfolding matchEconomy_def Let_def economy_matched_def find.simps
    by (cases "find_crosswalk (\<lambda>v. v = q) e"; cases "find_crosswalk (starts_with q) e")
       (simp_all add: case_prod_unfold del: class_applies.simps)
qed

lemma every_class:
  "c \<in> set [EXACT_CODE, EXACT_CROSSWALK, EXACT_NAME, CODE_PREFIX, CROSSWALK_PREFIX, NAME_PREFIX, NAME_TOKENS]"
  by (cases c) simp_all

lemma find_sorted_least:
  "find P xs = Some x \<Longrightarrow> sorted (map f xs) \<Longrightarrow> c \<in> set xs \<Longrightarrow> P c \<Longrightarrow> f x \<le> f c"
  by (induction xs) (auto split: if_splits)

lemma matchEconomy_class:
  assumes "matchEconomy u e q = Some m"
  shows "class_applies u e q (em_class m)"
    "class_applies u e q c \<Longrightarrow> economy_class_order (em_class m) \<le> economy_class_order c"
proof -
  have f: "find (class_applies u e q) [EXACT_CODE, EXACT_CROSSWALK, EXACT_NAME, CODE_PREFIX, CROSSWALK_PREFIX,
      NAME_PREFIX, NAME_TOKENS] = Some (em_class m)"
    using matchEconomy_chain [of u e q] assms by simp
  from find_SomeD [OF f] show "class_applies u e q (em_class m)" by simp
  have "sorted (map economy_class_order [EXACT_CODE, EXACT_CROSSWALK, EXACT_NAME, CODE_PREFIX, CROSSWALK_PREFIX,
      NAME_PREFIX, NAME_TOKENS])" by simp
  from find_sorted_least [OF f this every_class]
  show "class_applies u e q c \<Longrightarrow> economy_class_order (em_class m) \<le> economy_class_order c" .
qed

lemma matchEconomy_None: "matchEconomy u e q = None \<longleftrightarrow> \<not> economy_matches u q e"
  using matchEconomy_chain [of u e q] every_class unfolding economy_matches_def
  by (metis find_None_iff map_option_is_None)

lemma matchEconomy_rank:
  assumes "matchEconomy u e q = Some m"
  shows "economy_rank u q e = (economy_class_order (em_class m), economy_code_number e)"
proof -
  have "(LEAST n. \<exists>c. class_applies u e q c \<and> economy_class_order c = n) = economy_class_order (em_class m)"
    using matchEconomy_class [OF assms] by (intro Least_equality) auto
  then show ?thesis by (simp add: economy_rank_def)
qed

lemma matched_rows:
  "map fst (List.map_filter (\<lambda>e. map_option (Pair e) (matchEconomy u e q)) es) = filter (economy_matches u q) es"
proof (induction es)
  case (Cons e es)
  then show ?case
    using matchEconomy_None [of u e q] by (cases "matchEconomy u e q") (auto simp: List.map_filter_simps)
qed (simp add: List.map_filter_simps)

lemma searchEconomies_ranked:
  assumes "q \<noteq> []"
  shows "\<exists>rows. searchEconomies u es q = map (\<lambda>(e, m). (e, Some m)) rows
    \<and> sorted (map (\<lambda>(e, m). (economy_class_order (em_class m), economy_code_number e)) rows)
    \<and> (\<forall>e m. (e, m) \<in> set rows \<longleftrightarrow> e \<in> set es \<and> matchEconomy u e q = Some m)
    \<and> mset (map fst rows) = mset (filter (economy_matches u q) es)"
proof -
  let ?k = "\<lambda>(e, m). (economy_class_order (em_class m), economy_code_number e)"
  let ?found = "List.map_filter (\<lambda>e. map_option (Pair e) (matchEconomy u e q)) es"
  let ?rows = "sort_key ?k ?found"
  have "searchEconomies u es q = map (\<lambda>(e, m). (e, Some m)) ?rows" using assms by (simp add: searchEconomies_def)
  moreover have "sorted (map ?k ?rows)" by (rule sorted_sort_key)
  moreover have "mset (map fst ?rows) = mset (filter (economy_matches u q) es)"
    unfolding mset_map mset_sort unfolding mset_map [symmetric] matched_rows ..
  ultimately show ?thesis using matched_set by (intro exI [of _ ?rows]) simp
qed

text \<open>The whole list of matches is the matching economies, sorted by their rank.\<close>

lemma searchEconomies_complete:
  assumes "q \<noteq> []"
  shows "mset (map fst (searchEconomies u es q)) = mset (filter (economy_matches u q) es)"
    "sorted (map (economy_rank u q) (map fst (searchEconomies u es q)))"
proof -
  obtain rows where r: "searchEconomies u es q = map (\<lambda>(e, m). (e, Some m)) rows"
    "sorted (map (\<lambda>(e, m). (economy_class_order (em_class m), economy_code_number e)) rows)"
    "\<And>e m. (e, m) \<in> set rows \<longleftrightarrow> e \<in> set es \<and> matchEconomy u e q = Some m"
    "mset (map fst rows) = mset (filter (economy_matches u q) es)"
    using searchEconomies_ranked [OF assms] by blast
  have f: "map fst (searchEconomies u es q) = map fst rows" by (simp add: r(1) case_prod_unfold comp_def)
  then show "mset (map fst (searchEconomies u es q)) = mset (filter (economy_matches u q) es)" using r(4) by simp
  have "map (economy_rank u q) (map fst rows)
      = map (\<lambda>(e, m). (economy_class_order (em_class m), economy_code_number e)) rows"
  proof (unfold map_map, rule map_cong [OF refl])
    fix x assume "x \<in> set rows"
    then have "matchEconomy u (fst x) q = Some (snd x)" using r(3) [of "fst x" "snd x"] by simp
    from matchEconomy_rank [OF this] show "(economy_rank u q \<circ> fst) x =
        (case x of (e, m) \<Rightarrow> (economy_class_order (em_class m), economy_code_number e))"
      by (simp add: case_prod_unfold)
  qed
  then show "sorted (map (economy_rank u q) (map fst (searchEconomies u es q)))" unfolding f using r(2) by (simp only:)
qed

lemma searchEconomies_exact:
  assumes "q \<noteq> []"
  shows "(\<exists>e \<in> set es. ec_code e = q) \<longleftrightarrow>
    (\<exists>e m ms. searchEconomies u es q = (e, Some m) # ms \<and> em_class m = EXACT_CODE \<and> ec_code e = q)"
proof -
  obtain rows where r: "searchEconomies u es q = map (\<lambda>(e, m). (e, Some m)) rows"
    "sorted (map (\<lambda>(e, m). (economy_class_order (em_class m), economy_code_number e)) rows)"
    "\<And>e m. (e, m) \<in> set rows \<longleftrightarrow> e \<in> set es \<and> matchEconomy u e q = Some m"
    using searchEconomies_ranked [OF assms] by blast
  show ?thesis
  proof
    assume "\<exists>e \<in> set es. ec_code e = q"
    then obtain e where e: "e \<in> set es" "ec_code e = q" by blast
    then have "(e, economy_matched EXACT_CODE FIELD_CODE q) \<in> set rows"
      by (simp add: r(3) matchEconomy_def)
    then obtain e' m' rs where rows: "rows = (e', m') # rs" by (cases rows) auto
    with \<open>(e, economy_matched EXACT_CODE FIELD_CODE q) \<in> set rows\<close> r(2)
    have "economy_class_order (em_class m') \<le> 0" by (auto simp: economy_matched_def)
    then have "em_class m' = EXACT_CODE" by simp
    moreover have "matchEconomy u e' q = Some m'" using r(3) [of e' m'] rows by simp
    ultimately show "\<exists>e m ms. searchEconomies u es q = (e, Some m) # ms \<and> em_class m = EXACT_CODE \<and> ec_code e = q"
      using rows r(1) by auto
  next
    assume "\<exists>e m ms. searchEconomies u es q = (e, Some m) # ms \<and> em_class m = EXACT_CODE \<and> ec_code e = q"
    then obtain e m ms where e: "searchEconomies u es q = (e, Some m) # ms" "ec_code e = q" by blast
    then have "(e, m) \<in> set rows" using r(1) by (cases rows) auto
    with r(3) e(2) show "\<exists>e \<in> set es. ec_code e = q" by blast
  qed
qed

subsection \<open>Properties\<close>

text \<open>C35: the economy search returns the best matching economies. With \<^theory_text>\<open>rest\<close>, what the limit cut off, its matches
  are all the economies of the directory to which some match class applies, each as often as it is there, in the order of
  their ranks: the best class that applies, then the numeric code. Each comes with its match; the total counts
  them all, the limit alone cuts them and the result says so; an economy whose code is the query always comes first.\<close>

theorem economy_search_ranks_exact_code_first:
  assumes "economyDirectorySearch u b es q = Inr r" "es_normalized r \<noteq> []"
  shows "((\<exists>e \<in> set es. ec_code e = es_normalized r) \<longleftrightarrow>
      (\<exists>e m ms. es_matches r = (e, Some m) # ms \<and> em_class m = EXACT_CODE \<and> ec_code e = es_normalized r))
    \<and> (\<forall>(e, m) \<in> set (es_matches r). e \<in> set es \<and> m = matchEconomy u e (es_normalized r) \<and> m \<noteq> None)
    \<and> sorted (map (\<lambda>(e, m). (economy_class_order (em_class (the m)), economy_code_number e)) (es_matches r))
    \<and> length (es_matches r) = min (nat (eq_limit q)) (es_totalMatches r)
    \<and> (es_truncated r \<longleftrightarrow> eq_limit q < int (es_totalMatches r))
    \<and> es_totalMatches r = length (filter (economy_matches u (es_normalized r)) es)
    \<and> (\<exists>rest. mset (map fst (es_matches r) @ rest) = mset (filter (economy_matches u (es_normalized r)) es)
        \<and> sorted (map (economy_rank u (es_normalized r)) (map fst (es_matches r) @ rest)))"
proof -
  note f = economyDirectorySearch_Inr [OF assms(1)]
  obtain n where n: "nat (eq_limit q) = Suc n" using f(5) by (cases "nat (eq_limit q)") auto
  obtain rows where r: "searchEconomies u es (es_normalized r) = map (\<lambda>(e, m). (e, Some m)) rows"
    "sorted (map (\<lambda>(e, m). (economy_class_order (em_class m), economy_code_number e)) rows)"
    "\<And>e m. (e, m) \<in> set rows \<longleftrightarrow> e \<in> set es \<and> matchEconomy u e (es_normalized r) = Some m"
    using searchEconomies_ranked [OF assms(2)] by blast
  have m: "es_matches r = map (\<lambda>(e, m). (e, Some m)) (take (nat (eq_limit q)) rows)"
    using f(2) r(1) by (simp add: take_map)
  have "(\<exists>e \<in> set es. ec_code e = es_normalized r) \<longleftrightarrow>
      (\<exists>e m ms. es_matches r = (e, Some m) # ms \<and> em_class m = EXACT_CODE \<and> ec_code e = es_normalized r)"
    unfolding searchEconomies_exact [OF assms(2), of es u] f(2) n
    by (cases "searchEconomies u es (es_normalized r)") auto
  moreover have "\<forall>(e, m) \<in> set (es_matches r). e \<in> set es \<and> m = matchEconomy u e (es_normalized r) \<and> m \<noteq> None"
    using r(3) by (auto simp: m dest!: in_set_takeD)
  moreover have "sorted (map (\<lambda>(e, m). (economy_class_order (em_class (the m)), economy_code_number e)) (es_matches r))"
  proof -
    have "map (\<lambda>(e, m). (economy_class_order (em_class (the m)), economy_code_number e)) (es_matches r)
        = take (nat (eq_limit q)) (map (\<lambda>(e, m). (economy_class_order (em_class m), economy_code_number e)) rows)"
      by (simp add: m take_map case_prod_unfold comp_def)
    then show ?thesis using r(2) by (metis sorted_wrt_take)
  qed
  moreover have "length (es_matches r) = min (nat (eq_limit q)) (es_totalMatches r)"
    using f(2,3) by simp
  moreover have "es_totalMatches r = length (filter (economy_matches u (es_normalized r)) es)"
    using arg_cong [OF searchEconomies_complete(1) [OF assms(2), of u es], of size] f(3)
    unfolding size_mset length_map by simp
  moreover have "\<exists>rest. mset (map fst (es_matches r) @ rest) = mset (filter (economy_matches u (es_normalized r)) es)
        \<and> sorted (map (economy_rank u (es_normalized r)) (map fst (es_matches r) @ rest))"
  proof
    let ?all = "searchEconomies u es (es_normalized r)"
    have "map fst (es_matches r) @ map fst (drop (nat (eq_limit q)) ?all) = map fst ?all"
      unfolding f(2) map_append [symmetric] by simp
    then show "mset (map fst (es_matches r) @ map fst (drop (nat (eq_limit q)) ?all))
          = mset (filter (economy_matches u (es_normalized r)) es)
        \<and> sorted (map (economy_rank u (es_normalized r)) (map fst (es_matches r) @ map fst (drop (nat (eq_limit q)) ?all)))"
      using searchEconomies_complete [OF assms(2), of u es] by (simp only:)
  qed
  ultimately show ?thesis using f(4) by blast
qed

definition sample_economies :: "economy_record list" where
  "sample_economies =
     [\<lparr>ec_code = ''5280'', ec_iso2 = None, ec_iso3 = None, ec_name = ''Elsewhere'', ec_identityNote = None\<rparr>,
      \<lparr>ec_code = ''528'', ec_iso2 = Some ''NL'', ec_iso3 = Some ''NLD'', ec_name = ''Netherlands'', ec_identityNote = None\<rparr>]"

definition sample_economy_query :: "string \<Rightarrow> int \<Rightarrow> economy_search_query" where
  "sample_economy_query q l = \<lparr>eq_analysisBuildId = ''b'', eq_query = q, eq_limit = l\<rparr>"

theorem economy_search_ranks_exact_code_first_witness:
  "\<exists>r. economyDirectorySearch ascii_unicode ''b'' sample_economies (sample_economy_query ''528 '' 1) = Inr r
     \<and> length (es_matches r) = 1 \<and> es_truncated r"
proof -
  let ?s = "economyDirectorySearch ascii_unicode ''b'' sample_economies (sample_economy_query ''528 '' 1)"
  have c: "case ?s of Inr r \<Rightarrow> es_normalized r = ''528'' \<and> es_totalMatches r = 2 | Inl e \<Rightarrow> False" by code_simp
  then obtain r where r: "?s = Inr r" by (cases ?s) auto
  with c have "es_normalized r = ''528''" "es_totalMatches r = 2" by auto
  with economy_search_ranks_exact_code_first [OF r] r show ?thesis
    by (simp add: sample_economy_query_def)
qed

end
