(* ===== verification/Product_Search.thy ===== *)
theory Product_Search
  imports Unicode_Text Store_Model "HOL-Library.Product_Lexorder"
begin

text \<open>
  The lexical product search: \<^verbatim>\<open>src/catalog/product-search.ts\<close>, its text normalisation and the
  validation and dispatch of \<^verbatim>\<open>ImmutableProductCatalog.search\<close>. The traditional-to-simplified table is
  applied by a parameter function.
\<close>

datatype product_locale = LOCALE_EN | LOCALE_ZH_HANS

datatype product_match_class =
    PM_EXACT_CODE | PM_CODE_PREFIX | PM_EXACT_DESCRIPTION | PM_EXACT_ALIAS | PM_DESCRIPTION_PREFIX
  | PM_ALIAS_PREFIX | PM_DESCRIPTION_TOKENS | PM_ALIAS_TOKENS | PM_LATIN_TYPO

datatype product_matched_field =
    PF_CODE | PF_SOURCE_DESCRIPTION_EN | PF_AUXILIARY_DESCRIPTION_ZH_HANS | PF_ALIAS_EN | PF_ALIAS_ZH_HANS

record search_product =
  sr_hsRevision :: string
  sr_code :: string
  sr_sourceDescriptionEn :: string
  sr_auxiliaryDescriptionZhHans :: string

record product_alias =
  pa_hsRevision :: string
  pa_code :: string
  pa_locale :: product_locale
  pa_alias :: string

record indexed_product =
  ip_product :: search_product
  ip_normalizedSourceDescriptionEn :: string
  ip_normalizedAuxiliaryDescriptionZhHans :: string

record indexed_alias =
  ia_alias :: product_alias
  ia_normalizedSearchText :: string

record product_index =
  px_products :: "indexed_product list"
  px_aliasesByProduct :: "(string \<times> indexed_alias list) list"

datatype field_kind = KIND_CODE | KIND_DESCRIPTION | KIND_ALIAS

record indexed_field =
  if_text :: string
  if_normalizedText :: string
  if_field :: product_matched_field
  if_kind :: field_kind
  if_locale :: product_locale

record ranked_match =
  rm_product :: search_product
  rm_class :: product_match_class
  rm_field :: product_matched_field
  rm_matchedText :: string
  rm_classOrder :: nat
  rm_unmatchedCharacters :: nat
  rm_editedCharacters :: nat
  rm_localePenalty :: nat
  rm_fieldKindPenalty :: nat

datatype search_state = RESULTS | NO_MATCH | SUPPRESSED_SHORT_QUERY | UNSUPPORTED_HS_REVISION

record product_search_query =
  pq_productSearchBuildId :: string
  pq_query :: string
  pq_locale :: product_locale
  pq_limit :: int

record product_search_result =
  ps_normalized :: string
  ps_state :: search_state
  ps_totalMatches :: nat
  ps_truncated :: bool
  ps_matches :: "ranked_match list"

fun product_class_order :: "product_match_class \<Rightarrow> nat" where
  "product_class_order PM_EXACT_CODE = 0"
| "product_class_order PM_CODE_PREFIX = 1"
| "product_class_order PM_EXACT_DESCRIPTION = 2"
| "product_class_order PM_EXACT_ALIAS = 3"
| "product_class_order PM_DESCRIPTION_PREFIX = 4"
| "product_class_order PM_ALIAS_PREFIX = 5"
| "product_class_order PM_DESCRIPTION_TOKENS = 6"
| "product_class_order PM_ALIAS_TOKENS = 7"
| "product_class_order PM_LATIN_TYPO = 8"

subsection \<open>Normalisation and the index\<close>

definition normalizeProductSearchText :: "unicode \<Rightarrow> string \<Rightarrow> string" where
  "normalizeProductSearchText u v =
     replace_runs is_space (trim (replace_runs (\<lambda>c. un_punctuation u c \<or> un_symbol u c) (to_lower (un_nfkc u v))))"

definition normalizeProductSearchQuery :: "unicode \<Rightarrow> (string \<Rightarrow> string) \<Rightarrow> string \<Rightarrow> string" where
  "normalizeProductSearchQuery u toSimplified v =
     normalizeProductSearchText u (toSimplified (un_nfkc u v))"

definition search_key :: "string \<Rightarrow> string \<Rightarrow> string" where
  "search_key hsRevision code = hsRevision @ [CHR 0x00] @ code"

text \<open>\<^verbatim>\<open>aliasesByProduct.set(key, [...(get(key) ?? []), alias])\<close>.\<close>

fun push_alias :: "string \<Rightarrow> 'a \<Rightarrow> (string \<times> 'a list) list \<Rightarrow> (string \<times> 'a list) list" where
  "push_alias k a [] = [(k, [a])]"
| "push_alias k a ((k', as) # m) = (if k' = k then (k', as @ [a]) # m else (k', as) # push_alias k a m)"

definition createProductSearchIndex :: "indexed_product list \<Rightarrow> indexed_alias list \<Rightarrow> product_index" where
  "createProductSearchIndex products aliases =
     \<lparr>px_products = products,
      px_aliasesByProduct =
        fold (\<lambda>a. push_alias (search_key (pa_hsRevision (ia_alias a)) (pa_code (ia_alias a))) a) aliases []\<rparr>"

definition indexProductSearchCatalog ::
  "unicode \<Rightarrow> search_product list \<Rightarrow> product_alias list \<Rightarrow> product_index" where
  "indexProductSearchCatalog u products aliases =
     createProductSearchIndex
       (map (\<lambda>p. \<lparr>ip_product = p,
              ip_normalizedSourceDescriptionEn = normalizeProductSearchText u (sr_sourceDescriptionEn p),
              ip_normalizedAuxiliaryDescriptionZhHans =
                normalizeProductSearchText u (sr_auxiliaryDescriptionZhHans p)\<rparr>) products)
       (map (\<lambda>a. \<lparr>ia_alias = a, ia_normalizedSearchText = normalizeProductSearchText u (pa_alias a)\<rparr>) aliases)"

definition aliases_of :: "product_index \<Rightarrow> search_product \<Rightarrow> indexed_alias list" where
  "aliases_of idx p =
     (case map_of (px_aliasesByProduct idx) (search_key (sr_hsRevision p) (sr_code p)) of
        None \<Rightarrow> [] | Some as \<Rightarrow> as)"

subsection \<open>Edits\<close>

text \<open>The indexes at which two texts of one length differ.\<close>

fun differences :: "nat \<Rightarrow> string \<Rightarrow> string \<Rightarrow> nat list" where
  "differences i (a # s) (b # t) = (if a \<noteq> b then i # differences (Suc i) s t else differences (Suc i) s t)"
| "differences i _ _ = []"

text \<open>The walk over a shorter and a longer text, with at most one character skipped in the longer.\<close>

fun skip_one :: "bool \<Rightarrow> string \<Rightarrow> string \<Rightarrow> nat" where
  "skip_one skipped (a # s) (b # t) =
     (if a = b then skip_one skipped s t
      else if skipped then 2
      else skip_one True (a # s) t)"
| "skip_one skipped _ _ = 1"

definition damerauLevenshteinWithinOne :: "string \<Rightarrow> string \<Rightarrow> nat" where
  "damerauLevenshteinWithinOne left right =
     (if left = right then 0
      else if 1 < \<bar>int (length left) - int (length right)\<bar> then 2
      else if length left = length right
      then (case differences 0 left right of
              [i] \<Rightarrow> 1
            | [i, j] \<Rightarrow> if j = i + 1 \<and> left ! i = right ! j \<and> left ! j = right ! i then 1 else 2
            | _ \<Rightarrow> 2)
      else if length left < length right then skip_one False left right
      else skip_one False right left)"

text \<open>\<^verbatim>\<open>Math.min(...xs)\<close> over the nonempty list of field tokens.\<close>

definition least :: "nat list \<Rightarrow> nat" where
  "least xs = fold min (tl xs) (hd xs)"

fun typo_edits :: "string list \<Rightarrow> string list \<Rightarrow> nat \<Rightarrow> nat option" where
  "typo_edits fieldTokens [] edits = (if 0 < edits then Some edits else None)"
| "typo_edits fieldTokens (q # qs) edits =
     (let tokenEdits = least (map (damerauLevenshteinWithinOne q) fieldTokens)
      in if 1 < tokenEdits then None else typo_edits fieldTokens qs (edits + tokenEdits))"

definition boundedLatinTypoEdits :: "unicode \<Rightarrow> string \<Rightarrow> string \<Rightarrow> nat option" where
  "boundedLatinTypoEdits u normalizedField normalizedQuery =
     (let queryTokens = split_on CHR '' '' normalizedQuery
      in if list_ex (\<lambda>t. length t < 4 \<or> \<not> list_all (un_latin u) t) queryTokens then None
         else typo_edits (split_on CHR '' '' normalizedField) queryTokens 0)"

subsection \<open>Matching\<close>

definition all_digits :: "string \<Rightarrow> bool" where
  "all_digits s \<longleftrightarrow> s \<noteq> [] \<and> list_all is_digit s"

definition containsEveryToken :: "unicode \<Rightarrow> string \<Rightarrow> string \<Rightarrow> bool" where
  "containsEveryToken u normalizedField normalizedQuery =
     (let fieldTokens = split_on CHR '' '' normalizedField
      in list_all (\<lambda>t. if list_ex (un_han u) t then includes_text t normalizedField else t \<in> set fieldTokens)
           (split_on CHR '' '' normalizedQuery))"

definition rankedMatch ::
  "search_product \<Rightarrow> product_match_class \<Rightarrow> indexed_field \<Rightarrow> string \<Rightarrow> product_locale \<Rightarrow> nat \<Rightarrow> ranked_match" where
  "rankedMatch product matchClass indexedField normalizedQuery locale0 editedCharacters =
     \<lparr>rm_product = product, rm_class = matchClass, rm_field = if_field indexedField,
      rm_matchedText = if_text indexedField, rm_classOrder = product_class_order matchClass,
      rm_unmatchedCharacters = length (if_normalizedText indexedField) - length normalizedQuery,
      rm_editedCharacters = editedCharacters,
      rm_localePenalty = (if if_kind indexedField = KIND_CODE \<or> if_locale indexedField = locale0 then 0 else 1),
      rm_fieldKindPenalty = (if if_kind indexedField = KIND_ALIAS then 1 else 0)\<rparr>"

text \<open>\<^verbatim>\<open>compareRankedMatches\<close> compares these five keys in order.\<close>

definition rank_key :: "ranked_match \<Rightarrow> nat \<times> nat \<times> nat \<times> nat \<times> string" where
  "rank_key m = (rm_classOrder m, rm_unmatchedCharacters m + rm_editedCharacters m, rm_localePenalty m,
     rm_fieldKindPenalty m, sr_code (rm_product m))"

definition code_field :: "search_product \<Rightarrow> indexed_field" where
  "code_field product = \<lparr>if_text = sr_code product, if_normalizedText = sr_code product, if_field = PF_CODE,
     if_kind = KIND_CODE, if_locale = LOCALE_EN\<rparr>"

definition matchCode :: "search_product \<Rightarrow> string \<Rightarrow> ranked_match option" where
  "matchCode product normalizedQuery =
     (if sr_code product = normalizedQuery
      then Some (rankedMatch product PM_EXACT_CODE (code_field product) normalizedQuery LOCALE_EN 0)
      else if all_digits normalizedQuery \<and> starts_with normalizedQuery (sr_code product)
      then Some (rankedMatch product PM_CODE_PREFIX (code_field product) normalizedQuery LOCALE_EN 0)
      else None)"

definition matchField ::
  "unicode \<Rightarrow> search_product \<Rightarrow> indexed_field \<Rightarrow> string \<Rightarrow> product_locale \<Rightarrow> ranked_match option" where
  "matchField u product field normalizedQuery locale0 =
     (let normalizedField = if_normalizedText field; description = (if_kind field = KIND_DESCRIPTION)
      in if normalizedField = normalizedQuery
         then Some (rankedMatch product (if description then PM_EXACT_DESCRIPTION else PM_EXACT_ALIAS)
                      field normalizedQuery locale0 0)
         else if starts_with normalizedQuery normalizedField
         then Some (rankedMatch product (if description then PM_DESCRIPTION_PREFIX else PM_ALIAS_PREFIX)
                      field normalizedQuery locale0 0)
         else if containsEveryToken u normalizedField normalizedQuery
         then Some (rankedMatch product (if description then PM_DESCRIPTION_TOKENS else PM_ALIAS_TOKENS)
                      field normalizedQuery locale0 0)
         else (case boundedLatinTypoEdits u normalizedField normalizedQuery of
                 None \<Rightarrow> None
               | Some edits \<Rightarrow> Some (rankedMatch product PM_LATIN_TYPO field normalizedQuery locale0 edits)))"

definition product_fields :: "indexed_product \<Rightarrow> indexed_alias list \<Rightarrow> indexed_field list" where
  "product_fields indexedProduct aliases =
     \<lparr>if_text = sr_sourceDescriptionEn (ip_product indexedProduct),
      if_normalizedText = ip_normalizedSourceDescriptionEn indexedProduct,
      if_field = PF_SOURCE_DESCRIPTION_EN, if_kind = KIND_DESCRIPTION, if_locale = LOCALE_EN\<rparr> #
     \<lparr>if_text = sr_auxiliaryDescriptionZhHans (ip_product indexedProduct),
      if_normalizedText = ip_normalizedAuxiliaryDescriptionZhHans indexedProduct,
      if_field = PF_AUXILIARY_DESCRIPTION_ZH_HANS, if_kind = KIND_DESCRIPTION, if_locale = LOCALE_ZH_HANS\<rparr> #
     map (\<lambda>a. \<lparr>if_text = pa_alias (ia_alias a), if_normalizedText = ia_normalizedSearchText a,
        if_field = (if pa_locale (ia_alias a) = LOCALE_EN then PF_ALIAS_EN else PF_ALIAS_ZH_HANS),
        if_kind = KIND_ALIAS, if_locale = pa_locale (ia_alias a)\<rparr>) aliases"

definition matchProduct ::
  "unicode \<Rightarrow> indexed_product \<Rightarrow> indexed_alias list \<Rightarrow> string \<Rightarrow> product_locale \<Rightarrow> ranked_match option" where
  "matchProduct u indexedProduct aliases normalizedQuery locale0 =
     (let codeCandidate = matchCode (ip_product indexedProduct) normalizedQuery
      in if codeCandidate \<noteq> None \<or> all_digits normalizedQuery then codeCandidate
         else (case sort_key rank_key (List.map_filter (\<lambda>f. matchField u (ip_product indexedProduct) f normalizedQuery locale0)
                      (product_fields indexedProduct aliases)) of
                 [] \<Rightarrow> None | m # _ \<Rightarrow> Some m))"

subsection \<open>Searching\<close>

text \<open>\<^verbatim>\<open>/^hs\s*(\d{2}|\d{4})(?:\s|$)/u\<close> and \<^verbatim>\<open>/^hs\s*(12|2012)(?:\s+|$)(.*)$/u\<close>: what follows the letters
  and their white space, and whether a revision of the given length ends there.\<close>

definition after_hs :: "string \<Rightarrow> string option" where
  "after_hs s = (if starts_with ''hs'' s then Some (dropWhile is_space (drop 2 s)) else None)"

definition ends_at :: "nat \<Rightarrow> string \<Rightarrow> bool" where
  "ends_at n s \<longleftrightarrow> n \<le> length s \<and> (drop n s = [] \<or> is_space (hd (drop n s)))"

definition hasUnsupportedHsRevision :: "string \<Rightarrow> bool" where
  "hasUnsupportedHsRevision normalizedQuery =
     (case after_hs normalizedQuery of
        None \<Rightarrow> False
      | Some s \<Rightarrow>
          if ends_at 2 s \<and> list_all is_digit (take 2 s) then take 2 s \<noteq> ''12''
          else ends_at 4 s \<and> list_all is_digit (take 4 s) \<and> take 4 s \<noteq> ''2012'')"

definition removeAcceptedHs12Scope :: "string \<Rightarrow> string" where
  "removeAcceptedHs12Scope normalizedQuery =
     (case after_hs normalizedQuery of
        None \<Rightarrow> normalizedQuery
      | Some s \<Rightarrow>
          if take 2 s = ''12'' \<and> ends_at 2 s then trim (drop 2 s)
          else if take 4 s = ''2012'' \<and> ends_at 4 s then trim (drop 4 s)
          else normalizedQuery)"

definition isSuppressedProductQuery :: "string \<Rightarrow> bool" where
  "isSuppressedProductQuery q \<longleftrightarrow> length q < 2"

definition hasExactReviewedAlias :: "product_index \<Rightarrow> string \<Rightarrow> bool" where
  "hasExactReviewedAlias idx normalizedQuery =
     list_ex (\<lambda>(_, aliases). list_ex (\<lambda>a. ia_normalizedSearchText a = normalizedQuery) aliases)
       (px_aliasesByProduct idx)"

definition resolveSearchOutcome :: "bool \<Rightarrow> bool \<Rightarrow> nat \<Rightarrow> search_state" where
  "resolveSearchOutcome unsupportedRevision querySuppressed totalMatches =
     (if unsupportedRevision then UNSUPPORTED_HS_REVISION
      else if querySuppressed then SUPPRESSED_SHORT_QUERY
      else if totalMatches = 0 then NO_MATCH else RESULTS)"

definition searchProductIndex ::
  "unicode \<Rightarrow> (string \<Rightarrow> string) \<Rightarrow> product_index \<Rightarrow> product_search_query \<Rightarrow> product_search_result" where
  "searchProductIndex u toSimplified idx q =
     (let normalizedInput = normalizeProductSearchQuery u toSimplified (pq_query q);
          unsupportedRevision = hasUnsupportedHsRevision normalizedInput;
          normalizedQuery = (if unsupportedRevision then normalizedInput else removeAcceptedHs12Scope normalizedInput);
          querySuppressed = (isSuppressedProductQuery normalizedQuery \<and> \<not> hasExactReviewedAlias idx normalizedQuery);
          rankedMatches = (if querySuppressed \<or> unsupportedRevision then []
            else sort_key rank_key
              (List.map_filter (\<lambda>p. matchProduct u p (aliases_of idx (ip_product p)) normalizedQuery (pq_locale q))
                 (px_products idx)));
          matches = take (nat (pq_limit q)) rankedMatches
      in \<lparr>ps_normalized = normalizedQuery,
          ps_state = resolveSearchOutcome unsupportedRevision querySuppressed (length rankedMatches),
          ps_totalMatches = length rankedMatches, ps_truncated = length matches < length rankedMatches,
          ps_matches = matches\<rparr>)"

definition validateProductSearchQuery :: "product_search_query \<Rightarrow> thrown + unit" where
  "validateProductSearchQuery q =
     (if 300 < length (pq_query q)
      then Inl (OtherError ''Product search query exceeds 300 Unicode code points.'')
      else if pq_limit q < 1 \<or> 20 < pq_limit q
      then Inl (OtherError ''Product search limit must be an integer from 1 through 20.'')
      else Inr ())"

definition productCatalogSearch ::
  "unicode \<Rightarrow> (string \<Rightarrow> string) \<Rightarrow> string \<Rightarrow> product_index \<Rightarrow> product_search_query \<Rightarrow> thrown + product_search_result" where
  "productCatalogSearch u toSimplified buildId idx q =
     ebind (validateProductSearchQuery q) (\<lambda>_.
     if pq_productSearchBuildId q \<noteq> buildId
     then Inl (OtherError (''Product search build '' @ pq_productSearchBuildId q @ '' is no longer served.''))
     else Inr (searchProductIndex u toSimplified idx q))"

subsection \<open>One edit\<close>

text \<open>The specification of the typo measure: two texts are one edit apart when a single substitution,
  deletion, insertion or swap of neighbours leads from one to the other.\<close>

inductive one_edit :: "string \<Rightarrow> string \<Rightarrow> bool" where
  substitution: "a \<noteq> b \<Longrightarrow> one_edit (xs @ a # ys) (xs @ b # ys)"
| deletion: "one_edit (xs @ a # ys) (xs @ ys)"
| insertion: "one_edit (xs @ ys) (xs @ a # ys)"
| transposition: "a \<noteq> b \<Longrightarrow> one_edit (xs @ a # b # ys) (xs @ b # a # ys)"

lemma differences_prefix: "differences i (xs @ s) (xs @ t) = differences (i + length xs) s t"
  by (induction xs arbitrary: i) simp_all

lemma differences_same [simp]: "differences i s s = []"
  by (induction s arbitrary: i) simp_all

lemma differences_split:
  assumes "length s = length t" "s \<noteq> t"
  obtains xs a b s' t' where "s = xs @ a # s'" "t = xs @ b # t'" "a \<noteq> b" "length s' = length t'"
    "differences i s t = (i + length xs) # differences (Suc (i + length xs)) s' t'"
proof -
  obtain xs a b s' t' where e: "s = xs @ a # s'" "t = xs @ b # t'" "a \<noteq> b"
    using same_length_different [OF assms(2,1)] by auto
  with assms(1) show thesis by (intro that [of xs a s' b t']) (simp_all add: differences_prefix)
qed

lemma differences_Nil: "length s = length t \<Longrightarrow> differences i s t = [] \<longleftrightarrow> s = t"
  by (metis differences_same differences_split list.distinct(1))

definition equal_length_edit :: "string \<Rightarrow> string \<Rightarrow> nat" where
  "equal_length_edit left right = (case differences 0 left right of
      [i] \<Rightarrow> 1
    | [i, j] \<Rightarrow> if j = i + 1 \<and> left ! i = right ! j \<and> left ! j = right ! i then 1 else 2
    | _ \<Rightarrow> 2)"

lemma equal_length_edit_sound:
  assumes "length s = length t" "s \<noteq> t"
  shows "equal_length_edit s t = 1 \<and> one_edit s t \<or> equal_length_edit s t = 2"
proof -
  obtain xs a b s' t' where e: "s = xs @ a # s'" "t = xs @ b # t'" "a \<noteq> b" "length s' = length t'"
    and d: "differences 0 s t = length xs # differences (Suc (length xs)) s' t'"
    using differences_split [OF assms, of 0] by (metis add_0)
  show ?thesis
  proof (cases "s' = t'")
    case True
    with e d substitution [of a b xs s'] show ?thesis by (simp add: equal_length_edit_def)
  next
    case False
    obtain ys c f s2 t2 where e2: "s' = ys @ c # s2" "t' = ys @ f # t2" "c \<noteq> f" "length s2 = length t2"
      and d2: "differences (Suc (length xs)) s' t' = (Suc (length xs) + length ys)
        # differences (Suc (Suc (length xs) + length ys)) s2 t2"
      using differences_split [OF e(4) False] by metis
    show ?thesis
    proof (cases "s2 = t2 \<and> ys = [] \<and> a = f \<and> c = b")
      case True
      then have "s = xs @ a # c # s2" "t = xs @ c # a # s2" using e e2 by simp_all
      moreover have "equal_length_edit s t = 1"
        using True e e2 d d2 by (simp add: equal_length_edit_def nth_append)
      ultimately show ?thesis using True e(3) transposition [of a c xs s2] by simp
    next
      case swap: False
      show ?thesis
      proof (cases "s2 = t2 \<and> ys = []")
        case True
        with swap e e2 d d2 show ?thesis by (auto simp: equal_length_edit_def nth_append)
      next
        case 2: False
        then have "s2 \<noteq> t2 \<or> ys \<noteq> []" by blast
        with d d2 e2(4) show ?thesis
          by (auto simp: equal_length_edit_def differences_Nil split: list.splits)
      qed
    qed
  qed
qed

lemma equal_length_edit_complete:
  assumes "one_edit s t" "length s = length t"
  shows "equal_length_edit s t = 1"
  using assms
proof (cases rule: one_edit.cases)
  case (substitution a b xs ys)
  then show ?thesis by (simp add: equal_length_edit_def differences_prefix)
next
  case (transposition a b xs ys)
  then show ?thesis by (simp add: equal_length_edit_def differences_prefix nth_append)
qed simp_all

lemma skip_one_True: "length s = length t \<Longrightarrow> skip_one True s t = (if s = t then 1 else 2)"
  by (induction s t rule: list_induct2) auto

lemma skip_one_False:
  assumes "length t = Suc (length s)"
  shows "skip_one False s t = (if \<exists>xs a ys. t = xs @ a # ys \<and> s = xs @ ys then 1 else 2)"
  using assms
proof (induction s arbitrary: t)
  case Nil
  then obtain b where "t = [b]" by (metis length_0_conv length_Suc_conv list.size(3))
  then have e: "\<exists>xs a ys. t = xs @ a # ys \<and> [] = xs @ ys" by (intro exI [of _ "[]"] exI [of _ b]) simp
  show ?case unfolding if_P [OF e] by simp
next
  case (Cons c s)
  then obtain b t' where t: "t = b # t'" "length t' = Suc (length s)" by (cases t) auto
  show ?case
  proof (cases "c = b")
    case True
    have "(\<exists>xs a ys. t = xs @ a # ys \<and> c # s = xs @ ys) \<longleftrightarrow> (\<exists>xs a ys. t' = xs @ a # ys \<and> s = xs @ ys)"
    proof
      assume "\<exists>xs a ys. t = xs @ a # ys \<and> c # s = xs @ ys"
      then obtain xs a ys where x: "t = xs @ a # ys" "c # s = xs @ ys" by blast
      show "\<exists>xs a ys. t' = xs @ a # ys \<and> s = xs @ ys"
      proof (cases xs)
        case Nil
        with x t True have "t' = [] @ c # s \<and> s = [] @ s" by auto
        then show ?thesis by blast
      next
        case (Cons d zs)
        with x t have "t' = zs @ a # ys \<and> s = zs @ ys" by auto
        then show ?thesis by blast
      qed
    next
      assume "\<exists>xs a ys. t' = xs @ a # ys \<and> s = xs @ ys"
      then obtain xs a ys where "t' = xs @ a # ys" "s = xs @ ys" by blast
      with t True have "t = (c # xs) @ a # ys \<and> c # s = (c # xs) @ ys" by simp
      then show "\<exists>xs a ys. t = xs @ a # ys \<and> c # s = xs @ ys" by blast
    qed
    with Cons.IH [OF t(2)] True t show ?thesis by simp
  next
    case False
    have "(\<exists>xs a ys. t = xs @ a # ys \<and> c # s = xs @ ys) \<longleftrightarrow> c # s = t'"
    proof
      assume "\<exists>xs a ys. t = xs @ a # ys \<and> c # s = xs @ ys"
      then obtain xs a ys where x: "t = xs @ a # ys" "c # s = xs @ ys" by blast
      with t False show "c # s = t'" by (cases xs) auto
    next
      assume "c # s = t'"
      then have "t = [] @ b # (c # s) \<and> c # s = [] @ (c # s)" using t by simp
      then show "\<exists>xs a ys. t = xs @ a # ys \<and> c # s = xs @ ys" by blast
    qed
    with skip_one_True [of "c # s" t'] t False show ?thesis by simp
  qed
qed

lemma one_edit_longer:
  assumes "length s < length t"
  shows "one_edit s t \<longleftrightarrow> (\<exists>xs a ys. t = xs @ a # ys \<and> s = xs @ ys)"
proof
  assume "one_edit s t"
  then show "\<exists>xs a ys. t = xs @ a # ys \<and> s = xs @ ys"
    using assms by (cases rule: one_edit.cases) auto
qed (auto intro: one_edit.insertion)

lemma one_edit_sym: "one_edit s t \<Longrightarrow> one_edit t s"
  by (cases rule: one_edit.cases) (auto intro: one_edit.intros)

lemma one_edit_length: "one_edit s t \<Longrightarrow> \<bar>int (length s) - int (length t)\<bar> \<le> 1"
  by (cases rule: one_edit.cases) auto

subsection \<open>Properties\<close>

text \<open>C30: the typo measure of the product search is exact: it is 0 for equal texts, 1 for texts one
  substitution, insertion, deletion or swap of neighbours apart, and 2 for all others.\<close>

theorem typo_measure_exact:
  "damerauLevenshteinWithinOne s t = (if s = t then 0 else if one_edit s t then 1 else 2)"
proof -
  consider "s = t" | "s \<noteq> t" "length s = length t" | "1 < \<bar>int (length s) - int (length t)\<bar>"
    | "length t = Suc (length s)" | "length s = Suc (length t)" by linarith
  then show ?thesis
  proof cases
    case 2
    then have "damerauLevenshteinWithinOne s t = equal_length_edit s t"
      by (simp add: damerauLevenshteinWithinOne_def equal_length_edit_def)
    with equal_length_edit_sound [of s t] equal_length_edit_complete [of s t] 2 show ?thesis by auto
  next
    case 3
    with one_edit_length [of s t] show ?thesis by (auto simp: damerauLevenshteinWithinOne_def)
  next
    case 4
    then have "damerauLevenshteinWithinOne s t = skip_one False s t"
      by (auto simp: damerauLevenshteinWithinOne_def)
    with skip_one_False [OF 4] one_edit_longer [of s t] 4 show ?thesis by auto
  next
    case 5
    then have "damerauLevenshteinWithinOne s t = skip_one False t s"
      by (auto simp: damerauLevenshteinWithinOne_def)
    moreover have "one_edit s t = one_edit t s" using one_edit_sym by blast
    ultimately show ?thesis using skip_one_False [OF 5] one_edit_longer [of t s] 5 by auto
  qed (simp add: damerauLevenshteinWithinOne_def)
qed

lemma starts_with_refl [simp]: "starts_with q q"
  by (simp add: starts_with_def)

lemma matchCode_digits:
  assumes "all_digits q"
  shows "matchCode p q \<noteq> None \<longleftrightarrow> starts_with q (sr_code p)"
    and "matchCode p q = Some m \<Longrightarrow> rm_product m = p \<and> (rm_class m = PM_EXACT_CODE \<longleftrightarrow> sr_code p = q)
       \<and> rm_classOrder m = (if sr_code p = q then 0 else 1)"
  using assms by (auto simp: matchCode_def rankedMatch_def split: if_splits)

lemma matchProduct_digits: "all_digits q \<Longrightarrow> matchProduct u p as q l = matchCode (ip_product p) q"
  by (simp add: matchProduct_def Let_def)

lemma map_filter_length: "length (List.map_filter f xs) = length (filter (\<lambda>x. f x \<noteq> None) xs)"
  by (induction xs) (auto simp: map_filter_simps split: option.splits)

lemma searchProductIndex_digits:
  assumes "all_digits (ps_normalized r)" "2 \<le> length (ps_normalized r)" "r = searchProductIndex u ts idx q"
  shows "\<exists>rows. rows = sort_key rank_key
      (List.map_filter (\<lambda>p. matchCode (ip_product p) (ps_normalized r)) (px_products idx))
    \<and> ps_matches r = take (nat (pq_limit q)) rows \<and> ps_totalMatches r = length rows"
proof -
  let ?i = "normalizeProductSearchQuery u ts (pq_query q)"
  have "\<not> hasUnsupportedHsRevision ?i"
  proof
    assume h: "hasUnsupportedHsRevision ?i"
    with assms(3) have "ps_normalized r = ?i" by (simp add: searchProductIndex_def Let_def)
    moreover have "starts_with ''hs'' ?i"
      using h by (auto simp: hasUnsupportedHsRevision_def after_hs_def split: if_splits)
    then obtain v where "?i = CHR ''h'' # v" by (cases ?i) (auto simp: starts_with_def)
    ultimately have "is_digit CHR ''h''" using assms(1) by (simp add: all_digits_def)
    then show False by (simp add: is_digit_def)
  qed
  with assms show ?thesis
    by (auto simp: searchProductIndex_def Let_def isSuppressedProductQuery_def matchProduct_digits)
qed

text \<open>A query of at least two digits finds exactly the products whose code starts with it, ranked, the
  product with exactly that code first; what is left out by the limit is reported.\<close>

theorem numeric_query_finds_codes:
  assumes "productCatalogSearch u ts b idx q = Inr r" "all_digits (ps_normalized r)" "2 \<le> length (ps_normalized r)"
  shows "(\<forall>m \<in> set (ps_matches r). starts_with (ps_normalized r) (sr_code (rm_product m))
          \<and> (\<exists>p \<in> set (px_products idx). ip_product p = rm_product m))
    \<and> ps_totalMatches r
        = length (filter (\<lambda>p. starts_with (ps_normalized r) (sr_code (ip_product p))) (px_products idx))
    \<and> sorted (map rank_key (ps_matches r))
    \<and> length (ps_matches r) = min (nat (pq_limit q)) (ps_totalMatches r)
    \<and> ((\<exists>p \<in> set (px_products idx). sr_code (ip_product p) = ps_normalized r) \<longleftrightarrow>
       (\<exists>m ms. ps_matches r = m # ms \<and> rm_class m = PM_EXACT_CODE \<and> sr_code (rm_product m) = ps_normalized r))"
proof -
  let ?q = "ps_normalized r"
  have r: "r = searchProductIndex u ts idx q" and lim: "1 \<le> pq_limit q"
    using assms(1) by (auto simp: productCatalogSearch_def validateProductSearchQuery_def ebind_Inr_iff split: if_splits)
  obtain rows where rows: "rows = sort_key rank_key (List.map_filter (\<lambda>p. matchCode (ip_product p) ?q) (px_products idx))"
    and m: "ps_matches r = take (nat (pq_limit q)) rows" and n: "ps_totalMatches r = length rows"
    using searchProductIndex_digits [OF assms(2,3) r] by blast
  note code = matchCode_digits [OF assms(2)]
  have set_rows: "x \<in> set rows \<longleftrightarrow> (\<exists>p \<in> set (px_products idx). matchCode (ip_product p) ?q = Some x)" for x
    by (auto simp: rows map_filter_def image_iff)
  have "starts_with ?q (sr_code (rm_product x)) \<and> (\<exists>p \<in> set (px_products idx). ip_product p = rm_product x)"
    if x: "x \<in> set rows" for x
  proof -
    obtain p where p: "p \<in> set (px_products idx)" "matchCode (ip_product p) ?q = Some x"
      using x set_rows by blast
    with code(1) [of "ip_product p"] code(2) [OF p(2)] show ?thesis by auto
  qed
  then have "\<forall>x \<in> set (ps_matches r). starts_with ?q (sr_code (rm_product x))
          \<and> (\<exists>p \<in> set (px_products idx). ip_product p = rm_product x)"
    using m by (auto dest: in_set_takeD)
  moreover have "length rows = length (filter (\<lambda>p. starts_with ?q (sr_code (ip_product p))) (px_products idx))"
    by (simp add: rows map_filter_length code(1) del: not_None_eq)
  moreover have sorted_rows: "sorted (map rank_key rows)" by (simp only: rows sorted_sort_key)
  then have "sorted (map rank_key (ps_matches r))" unfolding m by (metis sorted_wrt_take take_map)
  moreover have "(\<exists>p \<in> set (px_products idx). sr_code (ip_product p) = ?q) \<longleftrightarrow>
       (\<exists>x ms. ps_matches r = x # ms \<and> rm_class x = PM_EXACT_CODE \<and> sr_code (rm_product x) = ?q)"
  proof
    assume "\<exists>p \<in> set (px_products idx). sr_code (ip_product p) = ?q"
    then obtain p where p: "p \<in> set (px_products idx)" "sr_code (ip_product p) = ?q" by blast
    then obtain x where x: "matchCode (ip_product p) ?q = Some x" using code(1) [of "ip_product p"] by auto
    with p set_rows have xin: "x \<in> set rows" by blast
    then obtain y ys where y: "rows = y # ys" by (cases rows) auto
    with sorted_rows xin have "rank_key y \<le> rank_key x" by auto
    moreover have "rm_classOrder x = 0" using code(2) [OF x] p(2) by simp
    ultimately have "rm_classOrder y = 0" by (simp add: rank_key_def less_eq_prod_def)
    moreover have "y \<in> set rows" by (simp add: y)
    then obtain p' where p': "matchCode p' ?q = Some y" using set_rows by blast
    ultimately have "rm_class y = PM_EXACT_CODE" "sr_code (rm_product y) = ?q"
      using code(2) [OF p'] by (auto split: if_splits)
    moreover obtain k where "nat (pq_limit q) = Suc k" using lim by (cases "nat (pq_limit q)") auto
    ultimately show "\<exists>x ms. ps_matches r = x # ms \<and> rm_class x = PM_EXACT_CODE \<and> sr_code (rm_product x) = ?q"
      using m y by simp
  next
    assume "\<exists>x ms. ps_matches r = x # ms \<and> rm_class x = PM_EXACT_CODE \<and> sr_code (rm_product x) = ?q"
    then obtain x where "x \<in> set rows" "sr_code (rm_product x) = ?q" using m
      by (metis in_set_takeD list.set_intros(1))
    moreover from this(1) obtain p where "p \<in> set (px_products idx)" "matchCode (ip_product p) ?q = Some x"
      using set_rows by blast
    ultimately show "\<exists>p \<in> set (px_products idx). sr_code (ip_product p) = ?q" using code(2) by metis
  qed
  ultimately show ?thesis using m n by simp
qed


definition sample_index :: product_index where
  "sample_index = indexProductSearchCatalog ascii_unicode
     [\<lparr>sr_hsRevision = ''HS12'', sr_code = ''080440'', sr_sourceDescriptionEn = ''Avocados, fresh'',
       sr_auxiliaryDescriptionZhHans = ''x''\<rparr>,
      \<lparr>sr_hsRevision = ''HS12'', sr_code = ''080450'', sr_sourceDescriptionEn = ''Guavas'',
       sr_auxiliaryDescriptionZhHans = ''y''\<rparr>] []"

definition sample_product_query :: "string \<Rightarrow> int \<Rightarrow> product_search_query" where
  "sample_product_query q l =
     \<lparr>pq_productSearchBuildId = ''b'', pq_query = q, pq_locale = LOCALE_EN, pq_limit = l\<rparr>"

theorem numeric_query_finds_codes_witness:
  "\<exists>r. productCatalogSearch ascii_unicode id ''b'' sample_index (sample_product_query ''HS12 0804'' 1) = Inr r
     \<and> ps_totalMatches r = 2 \<and> length (ps_matches r) = 1"
proof -
  let ?s = "productCatalogSearch ascii_unicode id ''b'' sample_index (sample_product_query ''HS12 0804'' 1)"
  have c: "case ?s of Inr r \<Rightarrow> ps_normalized r = ''0804'' | Inl e \<Rightarrow> False" by code_simp
  then obtain r where r: "?s = Inr r" "ps_normalized r = ''0804''" by (cases ?s) auto
  have d: "all_digits ''0804''" by code_simp
  have "length (filter (\<lambda>p. starts_with ''0804'' (sr_code (ip_product p))) (px_products sample_index)) = 2"
    by code_simp
  with numeric_query_finds_codes [OF r(1)] r d show ?thesis by (simp add: sample_product_query_def)
qed

end
