(* ===== verification/Account_Service.thy ===== *)
theory Account_Service
  imports Store_Steps Base64 Economy_Search Product_Search
begin

text \<open>
  \<^verbatim>\<open>DefaultAccountService\<close> of \<^verbatim>\<open>src/operations/account/account-service.ts\<close> on top of the store. The key
  derivation of \<^verbatim>\<open>node:crypto\<close> and the two searches the service is constructed with are in its options;
  the service and the store share one injected clock. A buffer is the list of its bytes. The parts of a
  stored verifier that \<^verbatim>\<open>Number\<close> reads are decimal numerals, which is all the service ever writes; any
  other spelling counts as not a number.
\<close>

record account_options =
  ao_scrypt :: "nat \<Rightarrow> nat \<Rightarrow> nat \<Rightarrow> nat \<Rightarrow> string \<Rightarrow> string \<Rightarrow> thrown + string"
  ao_searchEconomies :: "economy_search_query \<Rightarrow> thrown + economy_search_result"
  ao_searchProducts :: "product_search_query \<Rightarrow> thrown + product_search_result"
  ao_economyAnalysisBuildId :: string
  ao_productSearchBuildId :: string

definition SCRYPT_N :: nat where "SCRYPT_N = 16384"
definition SCRYPT_R :: nat where "SCRYPT_R = 8"
definition SCRYPT_P :: nat where "SCRYPT_P = 1"
definition SCRYPT_KEY_LENGTH :: nat where "SCRYPT_KEY_LENGTH = 64"
definition DEFAULT_SESSION_SECONDS :: int where "DEFAULT_SESSION_SECONDS = 8 * 60 * 60"
definition DEFAULT_RECOVERY_SECONDS :: int where "DEFAULT_RECOVERY_SECONDS = 60 * 60"
definition FAILED_ATTEMPT_LOCK_THRESHOLD :: int where "FAILED_ATTEMPT_LOCK_THRESHOLD = 5"
definition LOCKOUT_MILLISECONDS :: int where "LOCKOUT_MILLISECONDS = 15 * 60 * 1000"

subsection \<open>Errors and validation\<close>

definition invalidAccountInput :: "string \<Rightarrow> thrown" where
  "invalidAccountInput m = AccountServiceError INVALID_ACCOUNT_INPUT m"

definition invalidCredentials :: thrown where
  "invalidCredentials = AccountServiceError INVALID_CREDENTIALS ''The credentials could not be verified.''"

definition credentialLocked :: "string \<Rightarrow> thrown" where
  "credentialLocked lockedUntil =
     AccountServiceError CREDENTIAL_LOCKED (''The credential is locked until '' @ lockedUntil @ ''.'')"

definition invalidPrimaryExporter :: "string \<Rightarrow> thrown" where
  "invalidPrimaryExporter economyCode = AccountServiceError INVALID_PRIMARY_EXPORTER
     (''Primary exporter '' @ economyCode @ '' is not a supported economy code.'')"

definition invalidProductIdentity :: "string \<Rightarrow> string \<Rightarrow> thrown" where
  "invalidProductIdentity hsRevision code = AccountServiceError INVALID_PRODUCT_IDENTITY
     (hsRevision @ '' product '' @ code @ '' is not a confirmed catalog identity.'')"

definition invalidRecoveryToken :: thrown where
  "invalidRecoveryToken = AccountServiceError INVALID_RECOVERY_TOKEN
     ''The recovery token is expired, consumed, or unknown.''"

text \<open>\<^verbatim>\<open>/^[^\s@]+@[^\s@]+\.[^\s@]+$/u\<close>.\<close>

definition valid_email :: "string \<Rightarrow> bool" where
  "valid_email s =
     (let user = takeWhile (\<lambda>c. c \<noteq> CHR ''@'') s; domain = drop (length user + 1) s
      in CHR ''@'' \<in> set s \<and> user \<noteq> [] \<and> CHR ''@'' \<notin> set domain \<and> \<not> list_ex is_space s
         \<and> list_ex (\<lambda>i. domain ! i = CHR ''.'') [1 ..< length domain - 1])"

definition normalizeEmail :: "string \<Rightarrow> thrown + string" where
  "normalizeEmail email =
     ebind (requireNonEmpty email ''email'') (\<lambda>v.
     let normalized = to_lower (trim v)
     in if valid_email normalized then Inr normalized
        else Inl (invalidAccountInput ''Email must be a valid address.''))"

definition requirePassword :: "string \<Rightarrow> thrown + string" where
  "requirePassword password =
     ebind (requireNonEmpty password ''password'') (\<lambda>v.
     if length v < 8 then Inl (invalidAccountInput ''Password must be at least 8 characters.'') else Inr v)"

definition activeLock :: "credential \<Rightarrow> int \<Rightarrow> string option" where
  "activeLock c nowMs =
     (case cr_lockedUntil c of
        None \<Rightarrow> None
      | Some l \<Rightarrow> (case date_parse l of None \<Rightarrow> None | Some x \<Rightarrow> if nowMs < x then Some l else None))"

definition expiredLock :: "credential \<Rightarrow> int \<Rightarrow> bool" where
  "expiredLock c nowMs =
     (case cr_lockedUntil c of
        None \<Rightarrow> False
      | Some l \<Rightarrow> (case date_parse l of None \<Rightarrow> False | Some x \<Rightarrow> x \<le> nowMs))"

subsection \<open>Passwords and tokens\<close>

record parsed_verifier =
  pv_N :: nat
  pv_r :: nat
  pv_p :: nat
  pv_salt :: string
  pv_hash :: string

definition number_of :: "string \<Rightarrow> nat option" where
  "number_of s = (if s \<noteq> [] \<and> list_all is_digit s then Some (undec s) else None)"

definition parseVerifier :: "string \<Rightarrow> parsed_verifier option" where
  "parseVerifier verifier =
     (case split_on CHR ''$'' verifier of
        kind # N # r # p # salt # hash # _ \<Rightarrow>
          if kind \<noteq> ''scrypt'' \<or> N = [] \<or> r = [] \<or> p = [] \<or> salt = [] \<or> hash = [] then None
          else (case (number_of N, number_of r, number_of p) of
                  (Some n, Some r', Some p') \<Rightarrow>
                    if from_base64 salt = [] \<or> from_base64 hash = [] then None
                    else Some \<lparr>pv_N = n, pv_r = r', pv_p = p', pv_salt = from_base64 salt, pv_hash = from_base64 hash\<rparr>
                | _ \<Rightarrow> None)
      | _ \<Rightarrow> None)"

definition verifyPassword :: "account_options \<Rightarrow> string \<Rightarrow> string \<Rightarrow> thrown + bool" where
  "verifyPassword opts password verifier =
     (case parseVerifier verifier of
        None \<Rightarrow> Inr False
      | Some v \<Rightarrow>
          ebind (ao_scrypt opts (pv_N v) (pv_r v) (pv_p v) (length (pv_hash v)) password (pv_salt v)) (\<lambda>actual.
          Inr (length actual = length (pv_hash v) \<and> actual = pv_hash v)))"

definition verifier_text :: "string \<Rightarrow> string \<Rightarrow> string" where
  "verifier_text salt hash =
     ''scrypt'' @ ''$'' @ dec SCRYPT_N @ ''$'' @ dec SCRYPT_R @ ''$'' @ dec SCRYPT_P @ ''$'' @ to_base64 salt @ ''$''
       @ to_base64 hash"

definition hashPassword :: "account_options \<Rightarrow> string \<Rightarrow> string store_op" where
  "hashPassword opts password =
     andThen randomBytes (\<lambda>salt.
     andThen (check (ao_scrypt opts SCRYPT_N SCRYPT_R SCRYPT_P SCRYPT_KEY_LENGTH password salt)) (\<lambda>hash.
     ret (verifier_text salt hash)))"

definition digestToken :: "string \<Rightarrow> string store_op" where
  "digestToken token = (\<lambda>w. (Inr (w_sha256 w token), w))"

definition issueOpaqueToken :: "(string \<times> string) store_op" where
  "issueOpaqueToken =
     andThen randomBytes (\<lambda>bytes.
     let token = to_base64url bytes in andThen (digestToken token) (\<lambda>digest. ret (token, digest)))"

subsection \<open>Catalog checks\<close>

definition requirePrimaryExporter :: "account_options \<Rightarrow> string \<Rightarrow> thrown + string" where
  "requirePrimaryExporter opts economyCode =
     ebind (requireNonEmpty economyCode ''primaryExportEconomy'') (\<lambda>code.
     ebind (ao_searchEconomies opts
       \<lparr>eq_analysisBuildId = ao_economyAnalysisBuildId opts, eq_query = code, eq_limit = 1\<rparr>) (\<lambda>result.
     case es_matches result of
       (economy, Some m) # _ \<Rightarrow>
         if em_class m \<noteq> EXACT_CODE \<or> ec_code economy \<noteq> es_normalized result
         then Inl (invalidPrimaryExporter code) else Inr (ec_code economy)
     | _ \<Rightarrow> Inl (invalidPrimaryExporter code)))"

definition requireProductIdentity :: "account_options \<Rightarrow> product_ref \<Rightarrow> thrown + product_ref" where
  "requireProductIdentity opts product =
     ebind (normalizeProductRef product) (\<lambda>normalized.
     ebind (ao_searchProducts opts
       \<lparr>pq_productSearchBuildId = ao_productSearchBuildId opts, pq_query = pf_code normalized,
        pq_locale = LOCALE_EN, pq_limit = 1\<rparr>) (\<lambda>result.
     case ps_matches result of
       [] \<Rightarrow> Inl (invalidProductIdentity (pf_hsRevision normalized) (pf_code normalized))
     | m # _ \<Rightarrow>
         if rm_class m \<noteq> PM_EXACT_CODE \<or> rm_field m \<noteq> PF_CODE
            \<or> sr_hsRevision (rm_product m) \<noteq> pf_hsRevision normalized
            \<or> sr_code (rm_product m) \<noteq> pf_code normalized
         then Inl (invalidProductIdentity (pf_hsRevision normalized) (pf_code normalized))
         else Inr \<lparr>pf_hsRevision = sr_hsRevision (rm_product m), pf_code = sr_code (rm_product m)\<rparr>))"

subsection \<open>The service\<close>

definition auditSignInRefused :: "string option \<Rightarrow> string \<Rightarrow> unit store_op" where
  "auditSignInRefused accountId reason =
     andThen (appendAuditEvent accountId ''SIGN_IN_REFUSED'' (JObj [(''reason'', JStr reason)])) (\<lambda>_. ret ())"

record register_account_input =
  gi_email :: string
  gi_password :: string
  gi_displayName :: string
  gi_primaryExportEconomy :: string

definition registerAccount :: "account_options \<Rightarrow> register_account_input \<Rightarrow> account store_op" where
  "registerAccount opts input =
     andThen (check (normalizeEmail (gi_email input))) (\<lambda>email.
     andThen (check (requirePassword (gi_password input))) (\<lambda>password.
     andThen (check (requireNonEmpty (gi_displayName input) ''displayName'')) (\<lambda>displayName.
     andThen (check (requirePrimaryExporter opts (gi_primaryExportEconomy input))) (\<lambda>primaryExportEconomy.
     andThen (hashPassword opts password) (\<lambda>verifier.
     catching
       (andThen (createAccountWithCredential displayName primaryExportEconomy email verifier) (\<lambda>(acct, _).
        andThen (appendAuditEvent (Some (ac_id acct)) ''ACCOUNT_CREATED''
          (JObj [(''primaryExportEconomy'', JStr primaryExportEconomy)])) (\<lambda>_.
        ret acct)))
       (\<lambda>e. case e of
              StoreError DUPLICATE_CREDENTIAL_IDENTITY _ \<Rightarrow>
                raise (invalidAccountInput ''An account already uses that email identity.'')
            | _ \<Rightarrow> raise e))))))"

text \<open>The branch of \<^verbatim>\<open>authenticate\<close> for a password that does not verify.\<close>

definition refuse_password :: "credential \<Rightarrow> (account \<times> string \<times> string) store_op" where
  "refuse_password c =
     andThen now (\<lambda>nowMs.
     let failedAttemptCount = (if expiredLock c nowMs then 0 else cr_failedAttemptCount c) + 1
     in andThen (if FAILED_ATTEMPT_LOCK_THRESHOLD \<le> failedAttemptCount
                 then andThen now (\<lambda>n. ret (Some (to_iso (n + LOCKOUT_MILLISECONDS)))) else ret None) (\<lambda>lockedUntil.
        andThen (updateCredentialAttempts (cr_id c) failedAttemptCount lockedUntil) (\<lambda>_.
        andThen (auditSignInRefused (Some (cr_accountId c))
          (if lockedUntil = None then ''INVALID_CREDENTIALS'' else ''LOCKED'')) (\<lambda>_.
        case lockedUntil of Some l \<Rightarrow> raise (credentialLocked l) | None \<Rightarrow> raise invalidCredentials))))"

definition open_session :: "account \<Rightarrow> int option \<Rightarrow> (account \<times> string \<times> string) store_op" where
  "open_session acct sessionDurationSeconds =
     andThen (check (requirePositiveInt (or_else sessionDurationSeconds DEFAULT_SESSION_SECONDS)
       ''sessionDurationSeconds'')) (\<lambda>durationSeconds.
     andThen issueOpaqueToken (\<lambda>(token, digest).
     andThen now (\<lambda>nowMs.
     let expiresAt = to_iso (nowMs + durationSeconds * 1000)
     in andThen (createSession (ac_id acct) digest expiresAt) (\<lambda>_.
        andThen (appendAuditEvent (Some (ac_id acct)) ''SIGN_IN_SUCCEEDED''
          (JObj [(''expiresAt'', JStr expiresAt)])) (\<lambda>_.
        ret (acct, token, expiresAt))))))"

definition authenticate ::
  "account_options \<Rightarrow> string \<Rightarrow> string \<Rightarrow> int option \<Rightarrow> (account \<times> string \<times> string) store_op" where
  "authenticate opts email0 password0 sessionDurationSeconds =
     andThen (check (normalizeEmail email0)) (\<lambda>email.
     andThen (check (requirePassword password0)) (\<lambda>password.
     andThen (findCredentialByIdentity email) (\<lambda>found.
     case found of
       None \<Rightarrow> andThen (auditSignInRefused None ''INVALID_CREDENTIALS'') (\<lambda>_. raise invalidCredentials)
     | Some c \<Rightarrow>
         andThen now (\<lambda>nowMs.
         case activeLock c nowMs of
           Some l \<Rightarrow> andThen (auditSignInRefused (Some (cr_accountId c)) ''LOCKED'') (\<lambda>_. raise (credentialLocked l))
         | None \<Rightarrow>
             andThen (check (verifyPassword opts password (cr_verifier c))) (\<lambda>verified.
             if \<not> verified then refuse_password c
             else
               andThen (updateCredentialAttempts (cr_id c) 0 None) (\<lambda>_.
               andThen (findAccount (cr_accountId c)) (\<lambda>acct.
               case acct of
                 None \<Rightarrow> andThen (auditSignInRefused None ''INVALID_CREDENTIALS'') (\<lambda>_. raise invalidCredentials)
               | Some a \<Rightarrow> open_session a sessionDurationSeconds)))))))"

definition resolveSession :: "string \<Rightarrow> account option store_op" where
  "resolveSession sessionToken0 =
     andThen (check (requireNonEmpty sessionToken0 ''sessionToken'')) (\<lambda>token.
     andThen (digestToken token) (\<lambda>digest.
     andThen (findSession digest) (\<lambda>session.
     case session of None \<Rightarrow> ret None | Some s \<Rightarrow> findAccount (se_accountId s))))"

definition signOut :: "string \<Rightarrow> unit store_op" where
  "signOut sessionToken0 =
     andThen (check (requireNonEmpty sessionToken0 ''sessionToken'')) (\<lambda>token.
     andThen (digestToken token) revokeSession)"

definition account_issueRecoveryToken :: "string \<Rightarrow> int option \<Rightarrow> (string \<times> string) store_op" where
  "account_issueRecoveryToken email0 tokenDurationSeconds =
     andThen (check (normalizeEmail email0)) (\<lambda>email.
     andThen (findCredentialByIdentity email) (\<lambda>found.
     case found of
       None \<Rightarrow> andThen (appendAuditEvent None ''RECOVERY_REFUSED''
                 (JObj [(''reason'', JStr ''INVALID_CREDENTIALS'')])) (\<lambda>_. raise invalidCredentials)
     | Some c \<Rightarrow>
         andThen (check (requirePositiveInt (or_else tokenDurationSeconds DEFAULT_RECOVERY_SECONDS)
           ''tokenDurationSeconds'')) (\<lambda>durationSeconds.
         andThen issueOpaqueToken (\<lambda>(token, digest).
         andThen now (\<lambda>nowMs.
         let expiresAt = to_iso (nowMs + durationSeconds * 1000)
         in andThen (issueRecoveryToken (cr_accountId c) digest expiresAt) (\<lambda>_.
            andThen (appendAuditEvent (Some (cr_accountId c)) ''RECOVERY_TOKEN_ISSUED''
              (JObj [(''expiresAt'', JStr expiresAt)])) (\<lambda>_.
            ret (token, expiresAt))))))))"

definition account_consumeRecoveryToken :: "account_options \<Rightarrow> string \<Rightarrow> string \<Rightarrow> unit store_op" where
  "account_consumeRecoveryToken opts token0 newPassword0 =
     andThen (check (requireNonEmpty token0 ''token'')) (\<lambda>token.
     andThen (check (requirePassword newPassword0)) (\<lambda>newPassword.
     andThen (digestToken token) (\<lambda>digest.
     andThen (consumeRecoveryToken digest) (\<lambda>consumed.
     case consumed of
       None \<Rightarrow> raise invalidRecoveryToken
     | Some r \<Rightarrow>
         andThen (findCredentialByAccount (rt_accountId r)) (\<lambda>found.
         case found of
           None \<Rightarrow> raise invalidRecoveryToken
         | Some c \<Rightarrow>
             andThen (hashPassword opts newPassword) (\<lambda>verifier.
             andThen (updateCredentialVerifier (cr_id c) verifier) (\<lambda>_.
             andThen (revokeSessionsForAccount (rt_accountId r)) (\<lambda>_.
             andThen (appendAuditEvent (Some (rt_accountId r)) ''ACCOUNT_RECOVERED'' (JObj [])) (\<lambda>_.
             ret ())))))))))"

definition account_setPrimaryExporter :: "account_options \<Rightarrow> string \<Rightarrow> string \<Rightarrow> account store_op" where
  "account_setPrimaryExporter opts accountId economyCode =
     andThen (findAccount accountId) (\<lambda>existing.
     case existing of
       None \<Rightarrow> raise (invalidAccountInput (''Account '' @ accountId @ '' does not exist.''))
     | Some a \<Rightarrow>
         andThen (check (requirePrimaryExporter opts economyCode)) (\<lambda>primaryExportEconomy.
         andThen (setPrimaryExporter accountId primaryExportEconomy) (\<lambda>changed.
         andThen (appendAuditEvent (Some accountId) ''PRIMARY_EXPORTER_CHANGED''
           (JObj [(''from'', JStr (ac_primaryExportEconomy a)), (''to'', JStr primaryExportEconomy)])) (\<lambda>_.
         ret changed))))"

definition searchProductCandidates ::
  "account_options \<Rightarrow> string \<Rightarrow> product_locale \<Rightarrow> int \<Rightarrow> thrown + product_search_result" where
  "searchProductCandidates opts q locale0 limit =
     ebind (requireNonEmpty q ''query'') (\<lambda>q'.
     ao_searchProducts opts \<lparr>pq_productSearchBuildId = ao_productSearchBuildId opts, pq_query = q',
       pq_locale = locale0, pq_limit = limit\<rparr>)"

definition product_json :: "product_ref \<Rightarrow> json" where
  "product_json p = JObj [(''hsRevision'', JStr (pf_hsRevision p)), (''code'', JStr (pf_code p))]"

definition confirmProduct :: "account_options \<Rightarrow> string \<Rightarrow> product_ref \<Rightarrow> confirmed_product list store_op" where
  "confirmProduct opts accountId product =
     andThen (check (requireProductIdentity opts product)) (\<lambda>confirmedProduct.
     andThen (listConfirmedProducts accountId) (\<lambda>current.
     let next = map_set (product_key confirmedProduct) confirmedProduct
                  (fold (\<lambda>e. map_set (product_key (cp_product e)) (cp_product e)) current [])
     in andThen (confirmPortfolio accountId (map snd next)) (\<lambda>confirmed.
        andThen (appendAuditEvent (Some accountId) ''PRODUCT_CONFIRMED''
          (JObj [(''product'', product_json confirmedProduct)])) (\<lambda>_.
        ret confirmed))))"

definition removeProduct :: "string \<Rightarrow> product_ref \<Rightarrow> confirmed_product list store_op" where
  "removeProduct accountId product =
     andThen (check (normalizeProductRef product)) (\<lambda>normalized.
     andThen (listConfirmedProducts accountId) (\<lambda>current.
     let remaining = filter (\<lambda>p. product_key p \<noteq> product_key normalized) (map cp_product current)
     in andThen (confirmPortfolio accountId remaining) (\<lambda>confirmed.
        andThen (appendAuditEvent (Some accountId) ''PRODUCT_REMOVED''
          (JObj [(''product'', product_json normalized)])) (\<lambda>_.
        ret confirmed))))"

definition account_deleteAccount :: "string \<Rightarrow> unit store_op" where
  "account_deleteAccount accountId = andThen (deleteAccount accountId) (\<lambda>_. ret ())"

subsection \<open>Passwords\<close>

text \<open>What \<^verbatim>\<open>scrypt\<close> promises: a derived key has the requested length.\<close>

definition key_lengths_ok :: "account_options \<Rightarrow> bool" where
  "key_lengths_ok opts \<longleftrightarrow> (\<forall>n r p k password salt h. ao_scrypt opts n r p k password salt = Inr h \<longrightarrow> length h = k)"

lemma dec_no_dollar: "CHR ''$'' \<notin> set (dec n)"
proof
  assume "CHR ''$'' \<in> set (dec n)"
  then have "is_digit CHR ''$''" using dec_digits by blast
  then show False by (simp add: is_digit_def)
qed

lemma number_of_dec: "number_of (dec n) = Some n"
  by (auto simp: number_of_def list_all_iff dest: dec_digits)

lemma parseVerifier_text:
  assumes "salt \<noteq> []" "hash \<noteq> []"
  shows "parseVerifier (verifier_text salt hash) = Some \<lparr>pv_N = SCRYPT_N, pv_r = SCRYPT_R, pv_p = SCRYPT_P,
    pv_salt = salt, pv_hash = hash\<rparr>"
proof -
  have "split_on CHR ''$'' (verifier_text salt hash) =
      [''scrypt'', dec SCRYPT_N, dec SCRYPT_R, dec SCRYPT_P, to_base64 salt, to_base64 hash]"
    using split_on_append [OF dec_no_dollar] split_on_append [OF base64_no_dollar] split_on_single [OF base64_no_dollar]
    by (simp add: verifier_text_def)
  with assms show ?thesis by (simp add: parseVerifier_def number_of_dec)
qed

lemma hashPassword_Inr_iff:
  "hashPassword opts p w = (Inr v, t) \<longleftrightarrow> (\<exists>hash. ao_scrypt opts SCRYPT_N SCRYPT_R SCRYPT_P SCRYPT_KEY_LENGTH p
      (w_bytes w (w_bytes_drawn w)) = Inr hash \<and> v = verifier_text (w_bytes w (w_bytes_drawn w)) hash
      \<and> t = w\<lparr>w_bytes_drawn := w_bytes_drawn w + 1\<rparr>)"
  by (auto simp: hashPassword_def run_iffs)

lemma verify_own_hash:
  assumes "hashPassword opts p w = (Inr v, t)" "key_lengths_ok opts" "w_bytes w (w_bytes_drawn w) \<noteq> []"
  shows "verifyPassword opts q v = ebind (ao_scrypt opts SCRYPT_N SCRYPT_R SCRYPT_P SCRYPT_KEY_LENGTH q
      (w_bytes w (w_bytes_drawn w))) (\<lambda>h. Inr (ao_scrypt opts SCRYPT_N SCRYPT_R SCRYPT_P SCRYPT_KEY_LENGTH p
      (w_bytes w (w_bytes_drawn w)) = Inr h))"
proof -
  obtain hash where h: "ao_scrypt opts SCRYPT_N SCRYPT_R SCRYPT_P SCRYPT_KEY_LENGTH p
      (w_bytes w (w_bytes_drawn w)) = Inr hash" and v: "v = verifier_text (w_bytes w (w_bytes_drawn w)) hash"
    using assms(1) by (auto simp: hashPassword_Inr_iff)
  have len: "length hash = SCRYPT_KEY_LENGTH" using assms(2) h by (auto simp: key_lengths_ok_def)
  then have "hash \<noteq> []" by (auto simp: SCRYPT_KEY_LENGTH_def)
  then show ?thesis using h len
    by (auto simp: verifyPassword_def v parseVerifier_text [OF assms(3)] intro: arg_cong [where f = "ebind _"])
qed

subsection \<open>What the steps change\<close>

lemma appendAuditEvent_cases:
  assumes "appendAuditEvent a k d w = (r, t)"
  shows "(case r of Inl e \<Rightarrow> w_db t = w_db w
      | Inr ev \<Rightarrow> w_db t = (w_db w)\<lparr>audit_events := audit_events (w_db w) @ [ev]\<rparr>)
    \<and> w_clock t = w_clock w \<and> w_maintenance t = w_maintenance w \<and> w_sha256 t = w_sha256 w"
proof (cases r)
  case (Inl e)
  have "w_clock t = w_clock w \<and> w_maintenance t = w_maintenance w \<and> w_sha256 t = w_sha256 w"
    using assms unfolding Inl
    by (auto simp: appendAuditEvent_def run_iffs Let_def requireAccount_def findAccount_def
        split: option.splits)
  with atomicD [OF account_operations_atomic(12), of a k d w e t] assms Inl show ?thesis by simp
next
  case (Inr ev)
  from assms have "insert_audit_event ev (w_db w) = Inr (w_db t)
      \<and> w_clock t = w_clock w \<and> w_maintenance t = w_maintenance w \<and> w_sha256 t = w_sha256 w"
    unfolding Inr
    by (cases a) (auto simp: appendAuditEvent_def run_iffs Let_def requireAccount_Inr ebind_Inr_iff)
  then show ?thesis unfolding Inr
    by (auto simp: insert_audit_event_def ebind_Inr_iff insert_row_Inr)
qed

lemma appendAuditEvent_run:
  assumes "appendAuditEvent a k d w = (r, t)"
  shows "credentials (w_db t) = credentials (w_db w)" "sessions (w_db t) = sessions (w_db w)"
    "accounts (w_db t) = accounts (w_db w)" "recovery_tokens (w_db t) = recovery_tokens (w_db w)"
    "w_clock t = w_clock w" "w_maintenance t = w_maintenance w" "w_sha256 t = w_sha256 w"
    "r = Inl e \<Longrightarrow> w_db t = w_db w"
proof -
  note f = appendAuditEvent_cases [OF assms]
  show "credentials (w_db t) = credentials (w_db w)" using f by (cases r) simp_all
  show "sessions (w_db t) = sessions (w_db w)" using f by (cases r) simp_all
  show "accounts (w_db t) = accounts (w_db w)" using f by (cases r) simp_all
  show "recovery_tokens (w_db t) = recovery_tokens (w_db w)" using f by (cases r) simp_all
  show "w_clock t = w_clock w" "w_maintenance t = w_maintenance w" "w_sha256 t = w_sha256 w"
    using f by simp_all
  show "r = Inl e \<Longrightarrow> w_db t = w_db w" using f by simp
qed

lemma auditSignInRefused_run:
  assumes "auditSignInRefused a k w = (r, t)"
  shows "credentials (w_db t) = credentials (w_db w)" "sessions (w_db t) = sessions (w_db w)"
    "accounts (w_db t) = accounts (w_db w)" "w_clock t = w_clock w" "w_maintenance t = w_maintenance w"
    "r = Inl e \<Longrightarrow> w_db t = w_db w"
proof -
  obtain q where q: "appendAuditEvent a ''SIGN_IN_REFUSED'' (JObj [(''reason'', JStr k)]) w = (q, t)"
    "\<And>e. r = Inl e \<longleftrightarrow> q = Inl e"
    using assms by (auto simp: auditSignInRefused_def andThen_def ret_def split: prod.splits sum.splits)
  note f = appendAuditEvent_run [OF q(1)]
  show "credentials (w_db t) = credentials (w_db w)" "sessions (w_db t) = sessions (w_db w)"
    "accounts (w_db t) = accounts (w_db w)" "w_clock t = w_clock w" "w_maintenance t = w_maintenance w"
    "r = Inl e \<Longrightarrow> w_db t = w_db w"
    using f q(2) by simp_all
qed

lemma updateCredentialAttempts_run:
  assumes "\<not> w_maintenance w" "trim i \<noteq> []" "0 \<le> k" "c \<in> set (credentials (w_db w))" "cr_id c = i"
    "\<And>l. until = Some l \<Longrightarrow> trim l \<noteq> []"
  shows "\<exists>x. updateCredentialAttempts i k until w = (Inr x, w\<lparr>w_reads := w_reads w + 1, w_db := (w_db w)\<lparr>credentials :=
    update_rows (\<lambda>q. cr_id q = i) (\<lambda>q. q\<lparr>cr_failedAttemptCount := k, cr_lockedUntil := until,
      cr_updatedAt := to_iso (w_clock w (w_reads w))\<rparr>) (credentials (w_db w))\<rparr>\<rparr>)"
proof -
  have "changes (\<lambda>c. cr_id c = i) (credentials (w_db w)) \<noteq> 0"
    using assms(4,5) by (auto simp: changes_def filter_empty_conv)
  moreover have "(case until of None \<Rightarrow> Inr None | Some l \<Rightarrow> ebind (requireNonEmpty l ''lockedUntil'') (\<lambda>l. Inr (Some l)))
      = Inr until"
    using assms(6) by (cases until) (simp_all add: requireNonEmpty_def)
  ultimately show ?thesis
    using assms(1-3)
    by (simp add: updateCredentialAttempts_def update_credential_def andThen_def assertWritable_def check_def
        requireNonEmpty_def requireNonNegativeInt_def now_iso_def query_def execute_def)
qed

lemma findCredentialByIdentity_run:
  assumes "normalizeEmail email = Inr e"
  shows "findCredentialByIdentity e w = (Inr (find (\<lambda>c. cr_normalizedIdentity c = e) (credentials (w_db w))), w)"
proof -
  have "trim email \<noteq> []" "e = to_lower (trim email)"
    using assms by (auto simp: normalizeEmail_def ebind_Inr_iff requireNonEmpty_def Let_def split: if_splits)
  then have "normalizeCredentialIdentity e = Inr e"
    by (simp add: normalizeCredentialIdentity_Inr_iff trim_to_lower)
  then show ?thesis by (simp add: findCredentialByIdentity_def andThen_def check_def query_def)
qed

definition next_count :: "credential \<Rightarrow> int \<Rightarrow> int" where
  "next_count c nowMs = (if expiredLock c nowMs then 0 else cr_failedAttemptCount c) + 1"

lemma refuse_password_run:
  assumes "refuse_password c w = (r, t)" "\<not> w_maintenance w" "trim (cr_id c) \<noteq> []" "0 \<le> cr_failedAttemptCount c"
    "c \<in> set (credentials (w_db w))"
  defines "k \<equiv> next_count c (w_clock w (w_reads w))"
  defines "until \<equiv> if FAILED_ATTEMPT_LOCK_THRESHOLD \<le> k
    then Some (to_iso (w_clock w (Suc (w_reads w)) + LOCKOUT_MILLISECONDS)) else None"
  shows "(\<exists>e. r = Inl e) \<and> sessions (w_db t) = sessions (w_db w) \<and> w_clock t = w_clock w
    \<and> \<not> w_maintenance t
    \<and> (\<exists>ts. credentials (w_db t) = update_rows (\<lambda>q. cr_id q = cr_id c) (\<lambda>q. q\<lparr>cr_failedAttemptCount := k,
         cr_lockedUntil := until, cr_updatedAt := ts\<rparr>) (credentials (w_db w)))
    \<and> (audit_events (w_db t) \<noteq> audit_events (w_db w) \<longrightarrow>
         r = Inl (case until of Some l \<Rightarrow> credentialLocked l | None \<Rightarrow> invalidCredentials))"
proof -
  let ?n = "if FAILED_ATTEMPT_LOCK_THRESHOLD \<le> k then 2 else 1"
  define w1 where "w1 = w\<lparr>w_reads := w_reads w + ?n\<rparr>"
  have k0: "0 \<le> k" using assms(4) by (simp add: k_def next_count_def)
  have "trim l \<noteq> []" if "until = Some l" for l using that to_iso_not_blank by (auto simp: until_def split: if_splits)
  then obtain x where up: "updateCredentialAttempts (cr_id c) k until w1 = (Inr x, w1\<lparr>w_reads := w_reads w1 + 1,
      w_db := (w_db w1)\<lparr>credentials := update_rows (\<lambda>q. cr_id q = cr_id c) (\<lambda>q. q\<lparr>cr_failedAttemptCount := k,
        cr_lockedUntil := until, cr_updatedAt := to_iso (w_clock w1 (w_reads w1))\<rparr>) (credentials (w_db w1))\<rparr>\<rparr>)"
    (is "_ = (_, ?w2)")
    using updateCredentialAttempts_run [of w1 "cr_id c" k c until] assms(2,3,5) k0 by (auto simp: w1_def)
  obtain q t' where aud: "auditSignInRefused (Some (cr_accountId c))
      (if until = None then ''INVALID_CREDENTIALS'' else ''LOCKED'') ?w2 = (q, t')"
    by (cases "auditSignInRefused (Some (cr_accountId c))
      (if until = None then ''INVALID_CREDENTIALS'' else ''LOCKED'') ?w2")
  note f = auditSignInRefused_run [OF aud]
  have run: "refuse_password c w = (case q of Inl e \<Rightarrow> (Inl e, t')
      | Inr _ \<Rightarrow> (Inl (case until of Some l \<Rightarrow> credentialLocked l | None \<Rightarrow> invalidCredentials), t'))"
    using up aud
    by (auto simp: refuse_password_def andThen_def now_def ret_def raise_def Let_def w1_def k_def [symmetric, unfolded next_count_def]
        until_def split: sum.splits option.splits)
  have rt: "t = t'" "\<exists>e. r = Inl e" using run assms(1) by (auto split: sum.splits)
  have "audit_events (w_db t') \<noteq> audit_events (w_db w) \<Longrightarrow>
      r = Inl (case until of Some l \<Rightarrow> credentialLocked l | None \<Rightarrow> invalidCredentials)"
  proof (cases q)
    case (Inl e)
    assume "audit_events (w_db t') \<noteq> audit_events (w_db w)"
    with f(6) [OF Inl] show ?thesis by (simp add: w1_def)
  next
    case (Inr y)
    with run assms(1) show ?thesis by simp
  qed
  moreover have "sessions (w_db t') = sessions (w_db w)" using f(2) by (simp add: w1_def)
  moreover have "w_clock t' = w_clock w" "\<not> w_maintenance t'" using f(4,5) assms(2) by (simp_all add: w1_def)
  moreover have "credentials (w_db t') = update_rows (\<lambda>q. cr_id q = cr_id c) (\<lambda>q. q\<lparr>cr_failedAttemptCount := k,
         cr_lockedUntil := until, cr_updatedAt := to_iso (w_clock w1 (w_reads w1))\<rparr>) (credentials (w_db w))"
    using f(1) by (simp add: w1_def)
  ultimately show ?thesis using rt by blast
qed

lemma steps:
  "andThen (check (Inr x)) k w = k x w"
  "andThen now k' w = k' (w_clock w (w_reads w)) (w\<lparr>w_reads := w_reads w + 1\<rparr>)"
  by (simp_all add: andThen_def check_def now_def)

lemma authenticate_found:
  assumes "normalizeEmail email = Inr e" "requirePassword pw = Inr pw'"
    "find (\<lambda>c. cr_normalizedIdentity c = e) (credentials (w_db w)) = Some c"
  shows "authenticate opts email pw d w =
    (case activeLock c (w_clock w (w_reads w)) of
       Some l \<Rightarrow> andThen (auditSignInRefused (Some (cr_accountId c)) ''LOCKED'') (\<lambda>_. raise (credentialLocked l))
     | None \<Rightarrow>
         andThen (check (verifyPassword opts pw' (cr_verifier c))) (\<lambda>verified.
         if \<not> verified then refuse_password c
         else
           andThen (updateCredentialAttempts (cr_id c) 0 None) (\<lambda>_.
           andThen (findAccount (cr_accountId c)) (\<lambda>acct.
           case acct of
             None \<Rightarrow> andThen (auditSignInRefused None ''INVALID_CREDENTIALS'') (\<lambda>_. raise invalidCredentials)
           | Some a \<Rightarrow> open_session a d)))) (w\<lparr>w_reads := w_reads w + 1\<rparr>)"
  by (simp only: authenticate_def assms(1,2) steps andThen_Inr [OF findCredentialByIdentity_run [OF assms(1)]]
      assms(3) option.case)

lemma authenticate_locked:
  assumes "authenticate opts email pw d w = (r, t)" "normalizeEmail email = Inr e"
    "find (\<lambda>c. cr_normalizedIdentity c = e) (credentials (w_db w)) = Some c"
    "activeLock c (w_clock w (w_reads w)) = Some l"
  shows "(\<exists>e. r = Inl e) \<and> credentials (w_db t) = credentials (w_db w) \<and> sessions (w_db t) = sessions (w_db w)"
proof (cases "requirePassword pw")
  case (Inl x)
  with assms(1,2) show ?thesis by (auto simp: authenticate_def andThen_def check_def)
next
  case (Inr pw')
  let ?w = "w\<lparr>w_reads := w_reads w + 1\<rparr>"
  obtain q t' where aud: "auditSignInRefused (Some (cr_accountId c)) ''LOCKED'' ?w = (q, t')"
    by (cases "auditSignInRefused (Some (cr_accountId c)) ''LOCKED'' ?w")
  have "authenticate opts email pw d w = (case q of Inl e \<Rightarrow> (Inl e, t') | Inr _ \<Rightarrow> (Inl (credentialLocked l), t'))"
    unfolding authenticate_found [OF assms(2) Inr assms(3)] using assms(4) aud
    by (auto simp: andThen_def raise_def split: sum.splits)
  with assms(1) have "(\<exists>e. r = Inl e) \<and> t = t'" by (auto split: sum.splits)
  with auditSignInRefused_run [OF aud] show ?thesis by simp
qed

lemma credential_unique:
  assumes "database_ok db" "c \<in> set (credentials db)" "c' \<in> set (credentials db)" "cr_id c = cr_id c'"
  shows "c = c'"
  using credential_table.no_clash_unique [OF database_ok_tables(2) [OF assms(1)] assms(2,3)] assms(4)
  by (simp add: credential_clash_def)

subsection \<open>Properties\<close>

text \<open>C21: every failed password counts, and the fifth in a row (an expired lock starts a new row) locks the
  credential for fifteen minutes: a failed sign-in opens no session and stores the count and the lock, is
  reported as locked or as invalid once it is in the audit log, and while the lock lasts every sign-in
  is refused, whatever the password, and leaves credentials and sessions alone.\<close>

theorem failed_sign_ins_lock_the_credential:
  assumes "authenticate opts email pw d w = (r, t)"
    and "normalizeEmail email = Inr e" "requirePassword pw = Inr pw'"
    and "find (\<lambda>c. cr_normalizedIdentity c = e) (credentials (w_db w)) = Some c"
    and "activeLock c (w_clock w (w_reads w)) = None" "verifyPassword opts pw' (cr_verifier c) = Inr False"
    and "\<not> w_maintenance w" "trim (cr_id c) \<noteq> []" "0 \<le> cr_failedAttemptCount c"
  defines "k \<equiv> next_count c (w_clock w (Suc (w_reads w)))"
  defines "lock \<equiv> w_clock w (Suc (Suc (w_reads w))) + 15 * 60 * 1000"
  shows "(\<exists>e. r = Inl e) \<and> sessions (w_db t) = sessions (w_db w)
    \<and> (\<exists>c'. find (\<lambda>c. cr_normalizedIdentity c = e) (credentials (w_db t)) = Some c' \<and> cr_failedAttemptCount c' = k
         \<and> cr_lockedUntil c' = (if 5 \<le> k then Some (to_iso lock) else None))
    \<and> (audit_events (w_db t) \<noteq> audit_events (w_db w) \<longrightarrow>
         r = Inl (if 5 \<le> k then credentialLocked (to_iso lock) else invalidCredentials))
    \<and> (5 \<le> k \<and> year_0_to_9999 lock \<and> w_clock t (w_reads t) < lock \<longrightarrow>
        (\<forall>pw2 d2 r2 t2. authenticate opts email pw2 d2 t = (r2, t2) \<longrightarrow>
           (\<exists>e. r2 = Inl e) \<and> credentials (w_db t2) = credentials (w_db t) \<and> sessions (w_db t2) = sessions (w_db t)))"
proof -
  let ?w = "w\<lparr>w_reads := w_reads w + 1\<rparr>"
  have c: "c \<in> set (credentials (w_db w))" using find_SomeD [OF assms(4)] by simp
  have "authenticate opts email pw d w = refuse_password c ?w"
    unfolding authenticate_found [OF assms(2-4)] using assms(5,6) by (simp add: andThen_def check_def)
  with assms(1) have ref: "refuse_password c ?w = (r, t)" by simp
  have rr: "w_reads ?w = Suc (w_reads w)" "w_clock ?w = w_clock w" "w_db ?w = w_db w" by simp_all
  obtain ts where ts: "credentials (w_db t) = update_rows (\<lambda>q. cr_id q = cr_id c) (\<lambda>q. q\<lparr>cr_failedAttemptCount := k,
       cr_lockedUntil := if 5 \<le> k then Some (to_iso lock) else None, cr_updatedAt := ts\<rparr>) (credentials (w_db w))"
    and rest: "\<exists>e. r = Inl e" "sessions (w_db t) = sessions (w_db w)"
      "audit_events (w_db t) \<noteq> audit_events (w_db w) \<longrightarrow>
         r = Inl (if 5 \<le> k then credentialLocked (to_iso lock) else invalidCredentials)"
    using refuse_password_run [OF ref] assms(7-9) c unfolding rr k_def lock_def
    by (auto simp: FAILED_ATTEMPT_LOCK_THRESHOLD_def LOCKOUT_MILLISECONDS_def split: if_splits)
  let ?f = "\<lambda>q. q\<lparr>cr_failedAttemptCount := k,
       cr_lockedUntil := if 5 \<le> k then Some (to_iso lock) else None, cr_updatedAt := ts\<rparr>"
  have found: "find (\<lambda>c. cr_normalizedIdentity c = e) (credentials (w_db t)) = Some (?f c)"
    using find_update_rows [where P = "\<lambda>c. cr_normalizedIdentity c = e" and f = ?f and Q = "\<lambda>q. cr_id q = cr_id c"
        and rows = "credentials (w_db w)"] assms(4) by (simp add: ts)
  have "(\<exists>e. r2 = Inl e) \<and> credentials (w_db t2) = credentials (w_db t) \<and> sessions (w_db t2) = sessions (w_db t)"
    if "5 \<le> k" "year_0_to_9999 lock" "w_clock t (w_reads t) < lock"
      "authenticate opts email pw2 d2 t = (r2, t2)" for pw2 d2 r2 t2
  proof -
    have "activeLock (?f c) (w_clock t (w_reads t)) = Some (to_iso lock)"
      using that(1,3) date_parse_to_iso [OF that(2)] by (simp add: activeLock_def)
    from authenticate_locked [OF that(4) assms(2) found this] show ?thesis .
  qed
  with rest found show ?thesis by auto
qed

subsection \<open>Sessions, recovery, portfolio\<close>

lemma issueOpaqueToken_Inr_iff:
  "issueOpaqueToken w = (Inr (tok, dig), t) \<longleftrightarrow> tok = to_base64url (w_bytes w (w_bytes_drawn w))
     \<and> dig = w_sha256 w tok \<and> t = w\<lparr>w_bytes_drawn := w_bytes_drawn w + 1\<rparr>"
  by (auto simp: issueOpaqueToken_def run_iffs digestToken_def Let_def)

lemma createSession_sha: "createSession a d x w = (Inr s, t) \<Longrightarrow> w_sha256 t = w_sha256 w"
  by (auto simp: createSession_def run_iffs Let_def requireAccount_Inr)

definition token_row :: "string \<Rightarrow> string \<Rightarrow> string \<Rightarrow> session_row \<Rightarrow> bool" where
  "token_row digest accountId expiresAt r \<longleftrightarrow> se_tokenDigest r = digest \<and> se_accountId r = accountId
     \<and> se_expiresAt r = expiresAt \<and> se_revokedAt r = None"

lemma open_session_InrD:
  assumes "open_session a d w = (Inr (a', tok, ex), t)"
  shows "a' = a" "tok = to_base64url (w_bytes w (w_bytes_drawn w))"
    "ex = to_iso (w_clock w (w_reads w) + or_else d DEFAULT_SESSION_SECONDS * 1000)" "0 < or_else d DEFAULT_SESSION_SECONDS"
    "\<exists>r. sessions (w_db t) = sessions (w_db w) @ [r] \<and> token_row (w_sha256 w tok) (ac_id a) ex r"
    "\<forall>r \<in> set (sessions (w_db w)). se_tokenDigest r \<noteq> w_sha256 w tok" "trim (w_sha256 w tok) \<noteq> []"
    "accounts (w_db t) = accounts (w_db w)" "credentials (w_db t) = credentials (w_db w)"
    "w_clock t = w_clock w" "w_sha256 t = w_sha256 w" "w_maintenance t = w_maintenance w"
proof -
  let ?ex = "to_iso (w_clock w (w_reads w) + or_else d DEFAULT_SESSION_SECONDS * 1000)"
  let ?tok = "to_base64url (w_bytes w (w_bytes_drawn w))"
  define w1 where "w1 = w\<lparr>w_bytes_drawn := Suc (w_bytes_drawn w), w_reads := Suc (w_reads w)\<rparr>"
  have w1: "w_db w1 = w_db w" "w_clock w1 = w_clock w" "w_sha256 w1 = w_sha256 w" "w_maintenance w1 = w_maintenance w"
    by (simp_all add: w1_def)
  from assms obtain s ev w2 where s: "createSession (ac_id a) (w_sha256 w ?tok) ?ex w1 = (Inr s, w2)"
    and au: "appendAuditEvent (Some (ac_id a)) ''SIGN_IN_SUCCEEDED'' (JObj [(''expiresAt'', JStr ?ex)]) w2 = (Inr ev, t)"
    and r: "a' = a" "tok = ?tok" "ex = ?ex" "0 < or_else d DEFAULT_SESSION_SECONDS"
    unfolding w1_def
    by (auto simp: open_session_def run_iffs issueOpaqueToken_Inr_iff Let_def requirePositiveInt_def
        split: if_splits)
  note f = createSession_InrD [OF s] and g = appendAuditEvent_run [OF au] and h = createSession_sha [OF s]
  show "a' = a" "tok = ?tok" "ex = ?ex" "0 < or_else d DEFAULT_SESSION_SECONDS" by fact+
  show "\<exists>r. sessions (w_db t) = sessions (w_db w) @ [r] \<and> token_row (w_sha256 w tok) (ac_id a) ex r"
    using f(2) g(2) w1 r by (simp add: token_row_def)
  show "\<forall>r \<in> set (sessions (w_db w)). se_tokenDigest r \<noteq> w_sha256 w tok" "trim (w_sha256 w tok) \<noteq> []"
    using f(3,4) w1 r by simp_all
  show "accounts (w_db t) = accounts (w_db w)" using f(5) g(3) w1 by simp
  have "credentials (w_db w2) = credentials (w_db w1)" using s
    by (auto simp: createSession_def run_iffs Let_def requireAccount_Inr insert_session_def ebind_Inr_iff)
  then show "credentials (w_db t) = credentials (w_db w)" using g(1) w1 by simp
  show "w_clock t = w_clock w" "w_sha256 t = w_sha256 w" "w_maintenance t = w_maintenance w"
    using f(7,9) g(5-7) h w1 by simp_all
qed

lemma live_snoc:
  assumes "\<forall>r \<in> set rows. se_tokenDigest r \<noteq> d" "token_row d a x q"
  shows "find (live_session d n) (rows @ [q]) = (if n < x then Some q else None)"
  using assms by (auto simp: find_append live_session_def token_row_def find_None_iff split: option.splits dest!: find_SomeD)

lemma resolveSession_run:
  assumes "trim tok \<noteq> []" "trim (w_sha256 w tok) \<noteq> []"
  shows "fst (resolveSession tok w) =
    Inr (case find (live_session (w_sha256 w tok) (to_iso (w_clock w (w_reads w)))) (sessions (w_db w)) of
           None \<Rightarrow> None | Some s \<Rightarrow> find (\<lambda>a. ac_id a = se_accountId s) (accounts (w_db w)))"
  using assms findSession_run [OF assms(2), of w]
  by (auto simp: resolveSession_def andThen_def check_def requireNonEmpty_def digestToken_def ret_def
      findAccount_def query_def operational_session.defs split: option.splits)

lemma authenticate_InrD:
  assumes "authenticate opts email pw d w = (Inr (a, tok, ex), t)" "database_ok (w_db w)"
  obtains e c w1 where "normalizeEmail email = Inr e" "requirePassword pw = Inr pw"
    "find (\<lambda>c. cr_normalizedIdentity c = e) (credentials (w_db w)) = Some c"
    "activeLock c (w_clock w (w_reads w)) = None" "verifyPassword opts pw (cr_verifier c) = Inr True"
    "find (\<lambda>a. ac_id a = cr_accountId c) (accounts (w_db w)) = Some a" "open_session a d w1 = (Inr (a, tok, ex), t)"
    "sessions (w_db w1) = sessions (w_db w)" "accounts (w_db w1) = accounts (w_db w)"
    "w_clock w1 = w_clock w" "w_sha256 w1 = w_sha256 w" "\<not> w_maintenance w1"
    "\<exists>ts. credentials (w_db w1) = update_rows (\<lambda>q. cr_id q = cr_id c) (\<lambda>q. q\<lparr>cr_failedAttemptCount := 0,
       cr_lockedUntil := None, cr_updatedAt := ts\<rparr>) (credentials (w_db w))"
proof -
  have np: "requirePassword pw = Inr pw' \<Longrightarrow> pw' = pw" for pw'
    by (auto simp: requirePassword_def requireNonEmpty_def ebind_Inr_iff split: if_splits)
  obtain e where e: "normalizeEmail email = Inr e" using assms(1) by (auto simp: authenticate_def run_iffs)
  moreover have p: "requirePassword pw = Inr pw" using assms(1) np by (auto simp: authenticate_def run_iffs)
  moreover obtain c where c: "find (\<lambda>c. cr_normalizedIdentity c = e) (credentials (w_db w)) = Some c"
    using assms(1) e p findCredentialByIdentity_run [OF e, of w]
    by (cases "find (\<lambda>c. cr_normalizedIdentity c = e) (credentials (w_db w))")
       (auto simp: authenticate_def run_iffs)
  note run = assms(1) [unfolded authenticate_found [OF e p c]]
  moreover have lock: "activeLock c (w_clock w (w_reads w)) = None"
    using run by (cases "activeLock c (w_clock w (w_reads w))") (auto simp: run_iffs)
  moreover have "refuse_password c u \<noteq> (Inr y, t)" for u y
    by (auto simp: refuse_password_def run_iffs Let_def split: option.splits)
  then obtain cr w1 where ver: "verifyPassword opts pw (cr_verifier c) = Inr True"
    and up: "updateCredentialAttempts (cr_id c) 0 None (w\<lparr>w_reads := w_reads w + 1\<rparr>) = (Inr cr, w1)"
    and acc: "(case find (\<lambda>a. ac_id a = cr_accountId c) (accounts (w_db w1)) of
        None \<Rightarrow> andThen (auditSignInRefused None ''INVALID_CREDENTIALS'') (\<lambda>_. raise invalidCredentials)
      | Some a \<Rightarrow> open_session a d) w1 = (Inr (a, tok, ex), t)"
    using run lock by (fastforce simp: run_iffs findAccount_def split: if_splits)
  from up have w1: "sessions (w_db w1) = sessions (w_db w)" "accounts (w_db w1) = accounts (w_db w)"
    "w_clock w1 = w_clock w" "w_sha256 w1 = w_sha256 w" "\<not> w_maintenance w1"
    "\<exists>ts. credentials (w_db w1) = update_rows (\<lambda>q. cr_id q = cr_id c) (\<lambda>q. q\<lparr>cr_failedAttemptCount := 0,
       cr_lockedUntil := None, cr_updatedAt := ts\<rparr>) (credentials (w_db w))"
    by (auto simp: updateCredentialAttempts_def update_credential_def run_iffs requireNonEmpty_def
        requireNonNegativeInt_def split: if_splits)
  moreover obtain b where b: "find (\<lambda>a. ac_id a = cr_accountId c) (accounts (w_db w)) = Some b"
    "open_session b d w1 = (Inr (a, tok, ex), t)"
    using acc w1(2) by (cases "find (\<lambda>a. ac_id a = cr_accountId c) (accounts (w_db w))") (auto simp: run_iffs)
  moreover have "a = b" using open_session_InrD(1) [OF b(2)] .
  ultimately show thesis using that e p c ver by blast
qed

text \<open>C22: a successful sign-in had the right password for an unlocked credential of that identity, clears its
  failures, and returns a token that resolves to the account of the credential exactly until the
  stated expiry, and to nobody after signing out.\<close>

theorem sign_in_opens_session:
  assumes "authenticate opts email pw d w = (Inr (a, tok, ex), t)" "database_ok (w_db w)" "trim tok \<noteq> []"
    and "\<And>i. year_0_to_9999 (w_clock w i)" "\<And>i. year_0_to_9999 (w_clock w i + or_else d DEFAULT_SESSION_SECONDS * 1000)"
  shows "(\<exists>c \<in> set (credentials (w_db w)). normalizeEmail email = Inr (cr_normalizedIdentity c)
        \<and> verifyPassword opts pw (cr_verifier c) = Inr True \<and> activeLock c (w_clock w (w_reads w)) = None
        \<and> ac_id a = cr_accountId c
        \<and> (\<forall>c' \<in> set (credentials (w_db t)). cr_id c' = cr_id c \<longrightarrow> cr_failedAttemptCount c' = 0 \<and> cr_lockedUntil c' = None))
    \<and> (\<exists>x. ex = to_iso x \<and> fst (resolveSession tok t) = Inr (if w_clock t (w_reads t) < x then Some a else None))
    \<and> (\<forall>u. signOut tok t = (Inr (), u) \<longrightarrow> fst (resolveSession tok u) = Inr None)"
proof -
  obtain e c w1 where f: "normalizeEmail email = Inr e" "requirePassword pw = Inr pw"
    "find (\<lambda>c. cr_normalizedIdentity c = e) (credentials (w_db w)) = Some c"
    "activeLock c (w_clock w (w_reads w)) = None" "verifyPassword opts pw (cr_verifier c) = Inr True"
    "find (\<lambda>a. ac_id a = cr_accountId c) (accounts (w_db w)) = Some a" "open_session a d w1 = (Inr (a, tok, ex), t)"
    "sessions (w_db w1) = sessions (w_db w)" "accounts (w_db w1) = accounts (w_db w)"
    "w_clock w1 = w_clock w" "w_sha256 w1 = w_sha256 w" "\<not> w_maintenance w1"
    "\<exists>ts. credentials (w_db w1) = update_rows (\<lambda>q. cr_id q = cr_id c) (\<lambda>q. q\<lparr>cr_failedAttemptCount := 0,
       cr_lockedUntil := None, cr_updatedAt := ts\<rparr>) (credentials (w_db w))"
    by (rule authenticate_InrD [OF assms(1,2)]) blast
  note g = open_session_InrD [OF f(7)]
  obtain q where q: "sessions (w_db t) = sessions (w_db w1) @ [q]" "token_row (w_sha256 w1 tok) (ac_id a) ex q"
    using g(5) by blast
  have c: "c \<in> set (credentials (w_db w))" "cr_normalizedIdentity c = e" using find_SomeD [OF f(3)] by simp_all
  have a: "ac_id a = cr_accountId c" using find_SomeD [OF f(6)] by simp
  have dig: "trim (w_sha256 t tok) \<noteq> []" using g(7,11) by simp
  have live: "find (live_session (w_sha256 t tok) n) (sessions (w_db t)) = (if n < ex then Some q else None)" for n
    using live_snoc [OF g(6) q(2)] q(1) g(11) by simp
  have "cr_failedAttemptCount c' = 0 \<and> cr_lockedUntil c' = None"
    if c': "c' \<in> set (credentials (w_db t))" "cr_id c' = cr_id c" for c'
  proof -
    obtain ts p where "c' = (if cr_id p = cr_id c then p\<lparr>cr_failedAttemptCount := 0,
       cr_lockedUntil := None, cr_updatedAt := ts\<rparr> else p)"
      using c'(1) f(13) g(9) by (auto simp: in_update_rows)
    with c'(2) show ?thesis by (cases "cr_id p = cr_id c") simp_all
  qed
  then have first: "\<exists>c \<in> set (credentials (w_db w)). normalizeEmail email = Inr (cr_normalizedIdentity c)
        \<and> verifyPassword opts pw (cr_verifier c) = Inr True \<and> activeLock c (w_clock w (w_reads w)) = None
        \<and> ac_id a = cr_accountId c
        \<and> (\<forall>c' \<in> set (credentials (w_db t)). cr_id c' = cr_id c \<longrightarrow> cr_failedAttemptCount c' = 0 \<and> cr_lockedUntil c' = None)"
    using c f(1,4,5) a by blast
  let ?x = "w_clock w1 (w_reads w1) + or_else d DEFAULT_SESSION_SECONDS * 1000"
  have years: "year_0_to_9999 ?x" "year_0_to_9999 (w_clock t (w_reads t))"
    using assms(4,5) f(10) g(10) by simp_all
  have acc: "find (\<lambda>b. ac_id b = se_accountId q) (accounts (w_db t)) = Some a"
    using f(6,9) g(8) q(2) a by (simp add: token_row_def)
  have "fst (resolveSession tok t) = Inr (if w_clock t (w_reads t) < ?x then Some a else None)"
    unfolding resolveSession_run [OF assms(3) dig] live using iso.text_less [OF years(2,1)] acc g(3) by simp
  with g(3) have second: "\<exists>x. ex = to_iso x \<and> fst (resolveSession tok t) = Inr (if w_clock t (w_reads t) < x then Some a else None)"
    by blast
  have "fst (resolveSession tok u) = Inr None" if "signOut tok t = (Inr (), u)" for u
  proof -
    have rev: "revokeSession (w_sha256 t tok) t = (Inr (), u)" and sha: "w_sha256 u = w_sha256 t"
      using that by (auto simp: signOut_def run_iffs digestToken_def requireNonEmpty_def revokeSession_def split: if_splits)
    have "find (live_session (w_sha256 t tok) n) (sessions (w_db u)) = None" for n
      using revokeSession_sessions [OF rev] by (intro find_none) (auto simp: live_session_def)
    moreover have "trim (w_sha256 u tok) \<noteq> []" using dig by (simp add: sha)
    ultimately show ?thesis using resolveSession_run [OF assms(3), of u] by (simp add: sha)
  qed
  with first second show ?thesis by blast
qed

lemma account_consumeRecoveryToken_InrD:
  assumes "account_consumeRecoveryToken opts tok pw w = (Inr (), t)"
  obtains r w1 c h w2 w3 v x ev where "trim tok \<noteq> []" "requirePassword pw = Inr pw"
    "consumeRecoveryToken (w_sha256 w tok) w = (Inr (Some r), w1)"
    "find (\<lambda>c. cr_accountId c = rt_accountId r) (credentials (w_db w1)) = Some c"
    "hashPassword opts pw w1 = (Inr v, w2)" "updateCredentialVerifier (cr_id c) v w2 = (Inr h, w3)"
    "revokeSessionsForAccount (rt_accountId r) w3 = (Inr (), x)"
    "appendAuditEvent (Some (rt_accountId r)) ''ACCOUNT_RECOVERED'' (JObj []) x = (Inr ev, t)"
proof -
  have np: "requirePassword pw = Inr pw' \<Longrightarrow> pw' = pw" for pw'
    by (auto simp: requirePassword_def requireNonEmpty_def ebind_Inr_iff split: if_splits)
  have p: "requirePassword pw = Inr pw"
    using assms np by (auto simp: account_consumeRecoveryToken_def run_iffs)
  from assms show thesis
    unfolding account_consumeRecoveryToken_def
    by (auto simp: run_iffs requireNonEmpty_def digestToken_def findCredentialByAccount_def p
        split: if_splits option.splits) (rule that, assumption, rule p, assumption+)
qed

lemma updateCredentialVerifier_InrD:
  assumes "updateCredentialVerifier i v w = (Inr h, t)"
  shows "\<exists>ts. credentials (w_db t) = update_rows (\<lambda>c. cr_id c = i) (\<lambda>c. c\<lparr>cr_verifier := v, cr_failedAttemptCount := 0,
      cr_lockedUntil := None, cr_updatedAt := ts\<rparr>) (credentials (w_db w))"
    and "recovery_tokens (w_db t) = recovery_tokens (w_db w)" "w_sha256 t = w_sha256 w"
    "w_maintenance t = w_maintenance w"
  using assms by (auto simp: updateCredentialVerifier_def update_credential_def run_iffs requireNonEmpty_def split: if_splits)

lemma revokeSessionsForAccount_InrD:
  assumes "revokeSessionsForAccount a w = (Inr u, t)"
  shows "\<exists>ts. sessions (w_db t) = update_rows (\<lambda>r. se_accountId r = a \<and> se_revokedAt r = None)
      (\<lambda>r. r\<lparr>se_revokedAt := Some ts\<rparr>) (sessions (w_db w))"
    and "credentials (w_db t) = credentials (w_db w)" "recovery_tokens (w_db t) = recovery_tokens (w_db w)"
    "w_sha256 t = w_sha256 w" "w_maintenance t = w_maintenance w" "\<not> w_maintenance w"
  using assms by (auto simp: revokeSessionsForAccount_def run_iffs requireAccount_Inr)

lemma consumeRecoveryToken_rest:
  assumes "consumeRecoveryToken d w = (Inr r, t)"
  shows "credentials (w_db t) = credentials (w_db w)" "w_sha256 t = w_sha256 w" "w_bytes t = w_bytes w"
    "w_bytes_drawn t = w_bytes_drawn w" "trim d \<noteq> []"
  using assms by (auto simp: consumeRecoveryToken_def run_iffs requireNonEmpty_def split: option.splits if_splits)

text \<open>C23: recovering an account needs a live, unconsumed recovery token and consumes it: the new password
  then verifies for the account's credential, whose failures and lock are cleared, every session of
  the account is revoked, and the token works for nobody again.\<close>

theorem recovery_replaces_password:
  assumes "account_consumeRecoveryToken opts tok pw w = (Inr (), t)" "database_ok (w_db w)"
    and "key_lengths_ok opts" "w_bytes w (w_bytes_drawn w) \<noteq> []"
  shows "\<exists>a c. (\<exists>q \<in> set (recovery_tokens (w_db w)). rt_tokenDigest q = w_sha256 w tok \<and> rt_accountId q = a
         \<and> rt_consumedAt q = None \<and> to_iso (w_clock w (w_reads w)) < rt_expiresAt q)
      \<and> find (\<lambda>c. cr_accountId c = a) (credentials (w_db t)) = Some c
      \<and> verifyPassword opts pw (cr_verifier c) = Inr True \<and> cr_failedAttemptCount c = 0 \<and> cr_lockedUntil c = None
      \<and> (\<forall>s \<in> set (sessions (w_db t)). se_accountId s = a \<longrightarrow> se_revokedAt s \<noteq> None)
      \<and> (\<forall>pw2 r2 t2. account_consumeRecoveryToken opts tok pw2 t = (r2, t2) \<longrightarrow> (\<exists>e. r2 = Inl e) \<and> w_db t2 = w_db t)"
proof -
  obtain r w1 c h w2 w3 v x ev where f: "trim tok \<noteq> []" "requirePassword pw = Inr pw"
    "consumeRecoveryToken (w_sha256 w tok) w = (Inr (Some r), w1)"
    "find (\<lambda>c. cr_accountId c = rt_accountId r) (credentials (w_db w1)) = Some c"
    "hashPassword opts pw w1 = (Inr v, w2)" "updateCredentialVerifier (cr_id c) v w2 = (Inr h, w3)"
    "revokeSessionsForAccount (rt_accountId r) w3 = (Inr (), x)"
    "appendAuditEvent (Some (rt_accountId r)) ''ACCOUNT_RECOVERED'' (JObj []) x = (Inr ev, t)"
    by (rule account_consumeRecoveryToken_InrD [OF assms(1)]) blast
  note con = consumeRecoveryToken_InrD [OF f(3)] and con2 = consumeRecoveryToken_rest [OF f(3)]
    and upd = updateCredentialVerifier_InrD [OF f(6)] and rev = revokeSessionsForAccount_InrD [OF f(7)]
    and aud = appendAuditEvent_run [OF f(8)]
  have w2: "w_db w2 = w_db w1" "w_sha256 w2 = w_sha256 w1" using f(5) by (auto simp: hashPassword_Inr_iff)
  obtain ts where cr: "credentials (w_db t) = update_rows (\<lambda>q. cr_id q = cr_id c) (\<lambda>c. c\<lparr>cr_verifier := v,
      cr_failedAttemptCount := 0, cr_lockedUntil := None, cr_updatedAt := ts\<rparr>) (credentials (w_db w1))"
    using upd(1) w2 rev(2) aud(1) by auto
  let ?c = "c\<lparr>cr_verifier := v, cr_failedAttemptCount := 0, cr_lockedUntil := None, cr_updatedAt := ts\<rparr>"
  have found: "find (\<lambda>c. cr_accountId c = rt_accountId r) (credentials (w_db t)) = Some ?c"
    using find_update_rows [where P = "\<lambda>c. cr_accountId c = rt_accountId r" and Q = "\<lambda>q. cr_id q = cr_id c"
        and f = "\<lambda>c. c\<lparr>cr_verifier := v, cr_failedAttemptCount := 0, cr_lockedUntil := None, cr_updatedAt := ts\<rparr>"
        and rows = "credentials (w_db w1)"] f(4) by (simp add: cr)
  have "verifyPassword opts pw v = Inr True"
    using verify_own_hash [OF f(5) assms(3)] f(5) assms(4) con2(3,4) by (auto simp: hashPassword_Inr_iff)
  then have ver: "verifyPassword opts pw (cr_verifier ?c) = Inr True" by simp
  obtain ts2 where se: "sessions (w_db t) = update_rows (\<lambda>r'. se_accountId r' = rt_accountId r \<and> se_revokedAt r' = None)
      (\<lambda>r. r\<lparr>se_revokedAt := Some ts2\<rparr>) (sessions (w_db w3))"
    using rev(1) aud(2) by auto
  have revoked: "\<forall>s \<in> set (sessions (w_db t)). se_accountId s = rt_accountId r \<longrightarrow> se_revokedAt s \<noteq> None"
    unfolding se using revoked_rows [where P = "\<lambda>s. se_accountId s = rt_accountId r"] by auto
  have tokens: "recovery_tokens (w_db t) = recovery_tokens (w_db w1)" using upd(2) w2 rev(3) aud(4) by simp
  have sha: "w_sha256 t = w_sha256 w" using upd(3) w2 rev(4) aud(7) con2(2) by simp
  have maint: "\<not> w_maintenance t" using rev(5,6) aud(6) by simp
  have again: "(\<exists>e. r2 = Inl e) \<and> w_db t2 = w_db t"
    if r2: "account_consumeRecoveryToken opts tok pw2 t = (r2, t2)" for pw2 r2 t2
  proof (cases "requirePassword pw2")
    case (Inl e)
    with r2 f(1) show ?thesis
      by (auto simp: account_consumeRecoveryToken_def andThen_def check_def requireNonEmpty_def)
  next
    case (Inr p)
    obtain t' where "consumeRecoveryToken (w_sha256 t tok) t = (Inr None, t')" "w_db t' = w_db t"
      using consumed_stays_consumed [of t "w_sha256 t tok"] con(2) maint con2(5) by (auto simp: tokens sha)
    with r2 f(1) Inr show ?thesis
      by (auto simp: account_consumeRecoveryToken_def andThen_def check_def requireNonEmpty_def digestToken_def raise_def)
  qed
  from con(1) have "\<exists>q \<in> set (recovery_tokens (w_db w)). rt_tokenDigest q = w_sha256 w tok \<and> rt_accountId q = rt_accountId r
         \<and> rt_consumedAt q = None \<and> to_iso (w_clock w (w_reads w)) < rt_expiresAt q"
    by (auto simp: live_recovery_token_def)
  moreover have "cr_failedAttemptCount ?c = 0" "cr_lockedUntil ?c = None" by simp_all
  ultimately show ?thesis using found ver revoked again by blast
qed

subsection \<open>The directory as an interface\<close>

text \<open>What the account service relies on of an economy directory: the first match of a search is an exact code
  match exactly when the normalised query is one of its codes.\<close>

locale economy_lookup =
  fixes search :: "economy_search_query \<Rightarrow> thrown + economy_search_result"
    and codes :: "string set"
  assumes exact_first: "search q = Inr r \<Longrightarrow>
    (es_normalized r \<noteq> [] \<and> es_normalized r \<in> codes) \<longleftrightarrow>
    (\<exists>e m ms. es_matches r = (e, Some m) # ms \<and> em_class m = EXACT_CODE \<and> ec_code e = es_normalized r)"
begin

lemma requirePrimaryExporter_iff:
  assumes "ao_searchEconomies opts = search"
  shows "requirePrimaryExporter opts x = Inr c \<longleftrightarrow> trim x \<noteq> [] \<and> c \<noteq> [] \<and> c \<in> codes \<and> (\<exists>r.
    search \<lparr>eq_analysisBuildId = ao_economyAnalysisBuildId opts, eq_query = x, eq_limit = 1\<rparr> = Inr r
    \<and> c = es_normalized r)"
proof (cases "search \<lparr>eq_analysisBuildId = ao_economyAnalysisBuildId opts, eq_query = x, eq_limit = 1\<rparr>")
  case (Inl e)
  then show ?thesis using assms by (auto simp: requirePrimaryExporter_def requireNonEmpty_def)
next
  case (Inr r)
  have "requirePrimaryExporter opts x = Inr c \<longleftrightarrow> trim x \<noteq> [] \<and>
      (\<exists>e m ms. es_matches r = (e, Some m) # ms \<and> em_class m = EXACT_CODE \<and> ec_code e = es_normalized r
         \<and> c = ec_code e)"
    using assms Inr
    by (auto simp: requirePrimaryExporter_def requireNonEmpty_def split: list.splits option.splits if_splits)
  also have "\<dots> \<longleftrightarrow> trim x \<noteq> [] \<and> c = es_normalized r \<and> es_normalized r \<noteq> [] \<and> es_normalized r \<in> codes"
    using exact_first [OF Inr] by auto
  finally show ?thesis using Inr by auto
qed

end

interpretation listed: economy_lookup "economyDirectorySearch u b es" "ec_code ` set es" for u b es
proof
  fix q r
  assume r: "economyDirectorySearch u b es q = Inr r"
  note f = economyDirectorySearch_Inr [OF r]
  obtain n where n: "nat (eq_limit q) = Suc n" using f(5) by (cases "nat (eq_limit q)") auto
  show "(es_normalized r \<noteq> [] \<and> es_normalized r \<in> ec_code ` set es) \<longleftrightarrow>
    (\<exists>e m ms. es_matches r = (e, Some m) # ms \<and> em_class m = EXACT_CODE \<and> ec_code e = es_normalized r)"
  proof (cases "es_normalized r = []")
    case True
    then show ?thesis unfolding f(2) n
      by (cases "sort_key economy_code_number es") (simp_all add: searchEconomies_def)
  next
    case False
    have "(\<exists>e m ms. es_matches r = (e, Some m) # ms \<and> em_class m = EXACT_CODE \<and> ec_code e = es_normalized r)
        \<longleftrightarrow> (\<exists>e \<in> set es. ec_code e = es_normalized r)"
      unfolding searchEconomies_exact [OF False, of es u] f(2) n
      by (cases "searchEconomies u es (es_normalized r)") auto
    with False show ?thesis unfolding image_iff by metis
  qed
qed

lemma directory_accepts:
  "(\<exists>r. economyDirectorySearch u b es \<lparr>eq_analysisBuildId = b, eq_query = x, eq_limit = 1\<rparr> = Inr r
      \<and> c = es_normalized r) \<longleftrightarrow> length x \<le> 100 \<and> c = normalizeEconomyQuery u x"
  by (auto simp: economyDirectorySearch_def validateEconomySearchQuery_def Let_def)

subsection \<open>Registration\<close>

lemma registerAccount_InrD:
  assumes "registerAccount opts i w = (Inr a, t)"
  obtains e x v w1 c w2 ev where "normalizeEmail (gi_email i) = Inr e" "requirePassword (gi_password i) = Inr (gi_password i)"
    "requirePrimaryExporter opts (gi_primaryExportEconomy i) = Inr x" "hashPassword opts (gi_password i) w = (Inr v, w1)"
    "createAccountWithCredential (gi_displayName i) x e v w1 = (Inr (a, c), w2)"
    "appendAuditEvent (Some (ac_id a)) ''ACCOUNT_CREATED'' (JObj [(''primaryExportEconomy'', JStr x)]) w2 = (Inr ev, t)"
proof -
  have np: "requirePassword pw = Inr pw' \<Longrightarrow> pw' = pw" for pw pw'
    by (auto simp: requirePassword_def requireNonEmpty_def ebind_Inr_iff split: if_splits)
  have p: "requirePassword (gi_password i) = Inr (gi_password i)"
    using assms np by (auto simp: registerAccount_def run_iffs)
  have handler: "(case e of StoreError DUPLICATE_CREDENTIAL_IDENTITY x \<Rightarrow> raise y | _ \<Rightarrow> raise e) u \<noteq> (Inr z, t')"
    for e y u z t' by (simp add: raise_def split: thrown.splits store_error_code.splits)
  obtain e x v w1 where e: "normalizeEmail (gi_email i) = Inr e"
    "requirePrimaryExporter opts (gi_primaryExportEconomy i) = Inr x" "hashPassword opts (gi_password i) w = (Inr v, w1)"
    and rest: "catching (andThen (createAccountWithCredential (gi_displayName i) x e v) (\<lambda>(acct, _).
        andThen (appendAuditEvent (Some (ac_id acct)) ''ACCOUNT_CREATED''
          (JObj [(''primaryExportEconomy'', JStr x)])) (\<lambda>_. ret acct)))
       (\<lambda>e. case e of
              StoreError DUPLICATE_CREDENTIAL_IDENTITY _ \<Rightarrow>
                raise (invalidAccountInput ''An account already uses that email identity.'')
            | _ \<Rightarrow> raise e) w1 = (Inr a, t)"
    using assms unfolding registerAccount_def andThen_Inr_iff p
    by (auto simp only: basic_iffs requireNonEmpty_def sum.inject split: if_splits)
  from rest have "andThen (createAccountWithCredential (gi_displayName i) x e v) (\<lambda>(acct, _).
        andThen (appendAuditEvent (Some (ac_id acct)) ''ACCOUNT_CREATED''
          (JObj [(''primaryExportEconomy'', JStr x)])) (\<lambda>_. ret acct)) w1 = (Inr a, t)"
    unfolding catching_Inr_iff by (elim disjE exE conjE) (assumption, erule notE [OF handler])
  then obtain c w2 ev where
    "createAccountWithCredential (gi_displayName i) x e v w1 = (Inr (a, c), w2)"
    "appendAuditEvent (Some (ac_id a)) ''ACCOUNT_CREATED'' (JObj [(''primaryExportEconomy'', JStr x)]) w2 = (Inr ev, t)"
    by (auto simp: run_iffs)
  with e p show thesis by (intro that)
qed

text \<open>Registering with the economy directory of the analysis stores an account whose exporter is the
  normalised code of a listed economy, and a credential, unlocked and without failures, under the
  normalised email, that the registered password verifies.\<close>

theorem registration_is_complete:
  assumes "registerAccount opts i w = (Inr a, t)" "key_lengths_ok opts" "w_bytes w (w_bytes_drawn w) \<noteq> []"
    and "ao_searchEconomies opts = economyDirectorySearch u (ao_economyAnalysisBuildId opts) es"
  shows "ac_primaryExportEconomy a \<in> ec_code ` set es
    \<and> ac_primaryExportEconomy a = normalizeEconomyQuery u (gi_primaryExportEconomy i)
    \<and> findAccount (ac_id a) t = (Inr (Some a), t)
    \<and> (\<exists>c. findCredentialByIdentity (gi_email i) t = (Inr (Some c), t) \<and> normalizeEmail (gi_email i) = Inr (cr_normalizedIdentity c)
         \<and> cr_accountId c = ac_id a \<and> cr_failedAttemptCount c = 0 \<and> cr_lockedUntil c = None
         \<and> verifyPassword opts (gi_password i) (cr_verifier c) = Inr True)"
proof -
  obtain e x v w1 c w2 ev where f: "normalizeEmail (gi_email i) = Inr e" "requirePassword (gi_password i) = Inr (gi_password i)"
    "requirePrimaryExporter opts (gi_primaryExportEconomy i) = Inr x" "hashPassword opts (gi_password i) w = (Inr v, w1)"
    "createAccountWithCredential (gi_displayName i) x e v w1 = (Inr (a, c), w2)"
    "appendAuditEvent (Some (ac_id a)) ''ACCOUNT_CREATED'' (JObj [(''primaryExportEconomy'', JStr x)]) w2 = (Inr ev, t)"
    by (rule registerAccount_InrD [OF assms(1)]) blast
  note cr = createAccountWithCredential_InrD [OF f(5)] and au = appendAuditEvent_run [OF f(6)]
  have x: "x \<in> ec_code ` set es" "x = normalizeEconomyQuery u (gi_primaryExportEconomy i)"
    using iffD1 [OF listed.requirePrimaryExporter_iff [OF assms(4)] f(3)] directory_accepts [of u _ es] by blast+
  have e: "e = to_lower (trim (gi_email i))" "trim (gi_email i) \<noteq> []"
    using f(1) by (auto simp: normalizeEmail_def ebind_Inr_iff requireNonEmpty_def Let_def split: if_splits)
  then have ident: "cr_normalizedIdentity c = e" "normalizeCredentialIdentity (gi_email i) = Inr e"
    using cr(1) by (simp_all add: normalizeCredentialIdentity_Inr_iff trim_to_lower)
  have "findCredentialByIdentity (gi_email i) t = (Inr (Some c), t)"
    using cr(3,9) au(1) ident by (simp add: findCredentialByIdentity_def andThen_def check_def query_def find_snoc_new)
  moreover have "findAccount (ac_id a) t = (Inr (Some a), t)"
    using cr(2,8) au(3) by (simp add: findAccount_def query_def find_snoc_new)
  moreover have "verifyPassword opts (gi_password i) (cr_verifier c) = Inr True"
    using verify_own_hash [OF f(4) assms(2,3)] f(4) cr(5) by (auto simp: hashPassword_Inr_iff)
  moreover have "cr_failedAttemptCount c = 0" "cr_lockedUntil c = None"
    using f(5) by (auto simp: createAccountWithCredential_def run_iffs Let_def)
  ultimately show ?thesis using x cr(4,7) f(1) ident by simp
qed

lemma requireProductIdentity_InrD:
  assumes "requireProductIdentity opts p = Inr q"
  shows "q = p"
proof -
  obtain n and r :: product_search_result where n: "normalizeProductRef p = Inr n" and r: "(case ps_matches r of
       [] \<Rightarrow> Inl (invalidProductIdentity (pf_hsRevision n) (pf_code n))
     | m # _ \<Rightarrow>
         if rm_class m \<noteq> PM_EXACT_CODE \<or> rm_field m \<noteq> PF_CODE \<or> sr_hsRevision (rm_product m) \<noteq> pf_hsRevision n
            \<or> sr_code (rm_product m) \<noteq> pf_code n
         then Inl (invalidProductIdentity (pf_hsRevision n) (pf_code n))
         else Inr \<lparr>pf_hsRevision = sr_hsRevision (rm_product m), pf_code = sr_code (rm_product m)\<rparr>) = Inr q"
    using assms unfolding requireProductIdentity_def ebind_Inr_iff by blast
  from n have "n = p" by (auto simp: normalizeProductRef_def ebind_Inr_iff requireNonEmpty_def split: if_splits)
  with r show ?thesis by (cases "ps_matches r") (auto split: if_splits)
qed

definition bar_free :: "product_ref \<Rightarrow> bool" where
  "bar_free p \<longleftrightarrow> CHR ''|'' \<notin> set (pf_hsRevision p)"

lemma confirmPortfolio_set:
  assumes "confirmPortfolio a ps w = (Inr rs, t)" "\<forall>p \<in> set ps. bar_free p"
  shows "set (map cp_product rs) = set ps"
proof -
  obtain qs ts where d: "dedupeProducts ps = Inr qs"
    and rs: "rs = sort_key (\<lambda>r. (pf_hsRevision (cp_product r), pf_code (cp_product r)))
      (map (\<lambda>p. \<lparr>cp_accountId = a, cp_product = p, cp_confirmedAt = ts\<rparr>) qs)"
    using confirmPortfolio_InrD [OF assms(1)] by blast
  note q = dedupeProducts_InrD [OF d]
  have "p \<in> set qs" if p: "p \<in> set ps" for p
  proof -
    obtain p' where p': "p' \<in> set qs" "product_key p = product_key p'" using p q(3) by force
    with q(4) assms(2) p have "p = p'" using product_key_inject [of p p'] by (auto simp: bar_free_def)
    with p' show ?thesis by simp
  qed
  with q(4) have "set qs = set ps" by blast
  then show ?thesis by (simp add: rs image_image)
qed

lemma map_set_values:
  assumes "\<forall>(k, v) \<in> set m. k = product_key v \<and> bar_free v" "bar_free p" "distinct (map fst m)"
  shows "set (map snd (map_set (product_key p) p m)) = insert p (set (map snd m))"
    and "\<forall>(k, v) \<in> set (map_set (product_key p) p m). k = product_key v \<and> bar_free v"
  using assms
proof (induction m)
  case (Cons e m)
  obtain k v where e: "e = (k, v)" by (cases e)
  { case 1
    then show ?case
    proof (cases "product_key p = k")
      case True
      with 1 e have "v = p" using product_key_inject [of p v] by (auto simp: bar_free_def)
      with True e show ?thesis by simp
    next
      case False
      with Cons.IH(1) 1 e show ?thesis by auto
    qed
  next
    case 2
    then show ?case using Cons.IH(2) e by (cases "product_key p = k") auto
  }
qed simp_all

lemma fold_map_set:
  assumes "\<forall>p \<in> set ps. bar_free p" "\<forall>(k, v) \<in> set m. k = product_key v \<and> bar_free v" "distinct (map fst m)"
  shows "set (map snd (fold (\<lambda>p. map_set (product_key p) p) ps m)) = set (map snd m) \<union> set ps
    \<and> (\<forall>(k, v) \<in> set (fold (\<lambda>p. map_set (product_key p) p) ps m). k = product_key v \<and> bar_free v)
    \<and> distinct (map fst (fold (\<lambda>p. map_set (product_key p) p) ps m))"
  using assms
proof (induction ps arbitrary: m)
  case (Cons p ps)
  have p: "bar_free p" "\<forall>p \<in> set ps. bar_free p" using Cons.prems by simp_all
  note one = map_set_values [OF Cons.prems(2) p(1) Cons.prems(3)] map_set_distinct [OF Cons.prems(3)]
  from Cons.IH [OF p(2) one(2,3)] one(1) show ?case by simp
qed simp_all

text \<open>Confirming a product adds exactly that product to the account's confirmed products and removing
  one takes exactly it away, as long as no revision contains the bar of the product key.\<close>

theorem portfolio_edits_one_product:
  assumes "listConfirmedProducts a w = (Inr cur, w')" "\<forall>r \<in> set cur. bar_free (cp_product r)" "bar_free p"
  shows "(confirmProduct opts a p w = (Inr rs, t) \<longrightarrow> set (map cp_product rs) = insert p (cp_product ` set cur))
    \<and> (removeProduct a p w = (Inr rs', t') \<longrightarrow> set (map cp_product rs') = cp_product ` set cur - {p})"
proof (intro conjI impI)
  have cur: "listConfirmedProducts a w = (Inr cur, w)"
    using assms(1) by (auto simp: listConfirmedProducts_def query_def)
  {
    assume c: "confirmProduct opts a p w = (Inr rs, t)"
    let ?old = "fold (\<lambda>p. map_set (product_key p) p) (map cp_product cur) []"
    have folded: "fold (\<lambda>e. map_set (product_key (cp_product e)) (cp_product e)) cur [] = ?old"
      by (simp add: fold_map comp_def)
    have bars: "\<forall>p \<in> set (map cp_product cur). bar_free p" using assms(2) by simp
    have old: "set (map snd ?old) = cp_product ` set cur" "\<forall>(k, v) \<in> set ?old. k = product_key v \<and> bar_free v"
      "distinct (map fst ?old)" using fold_map_set [OF bars, of "[]"] by simp_all
    note new = map_set_values [OF old(2) assms(3) old(3)]
    have n: "set (map snd (map_set (product_key p) p ?old)) = insert p (cp_product ` set cur)"
      using new(1) old(1) by simp
    have "bar_free q" if "q \<in> set (map snd (map_set (product_key p) p ?old))" for q
      using that new(2) by fastforce
    note all = ballI [OF this]
    obtain q where "requireProductIdentity opts p = Inr q"
      using c unfolding confirmProduct_def andThen_Inr_iff basic_iffs by blast
    with requireProductIdentity_InrD have id: "requireProductIdentity opts p = Inr p" by metis
    from c obtain t1 where "confirmPortfolio a (map snd (map_set (product_key p) p ?old)) w = (Inr rs, t1)"
      unfolding confirmProduct_def id steps andThen_Inr [where m = "listConfirmedProducts a", OF cur] Let_def folded by (auto simp: andThen_Inr_iff basic_iffs)
    from confirmPortfolio_set [OF this all] n show "set (map cp_product rs) = insert p (cp_product ` set cur)" by simp
  next
    assume c: "removeProduct a p w = (Inr rs', t')"
    have q: "normalizeProductRef p = Inr q \<Longrightarrow> q = p" for q
      by (auto simp: normalizeProductRef_def ebind_Inr_iff requireNonEmpty_def split: if_splits)
    let ?rest = "filter (\<lambda>r. product_key r \<noteq> product_key p) (map cp_product cur)"
    have id: "normalizeProductRef p = Inr p"
      using c q unfolding removeProduct_def andThen_Inr_iff basic_iffs by metis
    from c obtain t1 where conf: "confirmPortfolio a ?rest w = (Inr rs', t1)"
      unfolding removeProduct_def id steps andThen_Inr [where m = "listConfirmedProducts a", OF cur] Let_def by (auto simp: andThen_Inr_iff basic_iffs)
    have "product_key r = product_key p \<longleftrightarrow> r = p" if "r \<in> cp_product ` set cur" for r
      using that assms(2,3) product_key_inject [of r p] by (auto simp: bar_free_def)
    then have "set ?rest = cp_product ` set cur - {p}" by auto
    moreover have "\<forall>r \<in> set ?rest. bar_free r" using assms(2) by auto
    ultimately show "set (map cp_product rs') = cp_product ` set cur - {p}"
      using confirmPortfolio_set [OF conf] by simp
  }
qed

subsection \<open>The service keeps the database consistent\<close>

lemma service_parts_keep [keeps_intros]:
  "keeps consistent (hashPassword opts pw)" "keeps consistent (digestToken s)" "keeps consistent issueOpaqueToken"
  "keeps consistent (auditSignInRefused a k)"
  unfolding hashPassword_def digestToken_def issueOpaqueToken_def auditSignInRefused_def Let_def
  by (intro keeps_intros account_operations_keep | simp add: keeps_def)+

lemma service_keeps:
  "keeps consistent (registerAccount opts i)" "keeps consistent (authenticate opts e pw d)"
  "keeps consistent (resolveSession tok)" "keeps consistent (signOut tok)"
  "keeps consistent (account_issueRecoveryToken e d)" "keeps consistent (account_consumeRecoveryToken opts tok pw)"
  "keeps consistent (account_setPrimaryExporter opts a c)" "keeps consistent (confirmProduct opts a p)"
  "keeps consistent (removeProduct a p)" "keeps consistent (account_deleteAccount a)"
proof -
  show "keeps consistent (registerAccount opts i)"
    unfolding registerAccount_def
    by (intro keeps_intros | simp add: keeps_raise split: prod.splits thrown.splits store_error_code.splits)+
  show "keeps consistent (authenticate opts e pw d)"
    unfolding authenticate_def refuse_password_def open_session_def Let_def
    by (intro keeps_intros | simp split: prod.splits option.splits)+
  show "keeps consistent (resolveSession tok)" "keeps consistent (signOut tok)"
    unfolding resolveSession_def signOut_def by (intro keeps_intros)+
  show "keeps consistent (account_issueRecoveryToken e d)"
    unfolding account_issueRecoveryToken_def Let_def by (intro keeps_intros | simp split: prod.splits)+
  show "keeps consistent (account_consumeRecoveryToken opts tok pw)"
    unfolding account_consumeRecoveryToken_def by (intro keeps_intros)+
  show "keeps consistent (account_setPrimaryExporter opts a c)" "keeps consistent (confirmProduct opts a p)"
    "keeps consistent (removeProduct a p)" "keeps consistent (account_deleteAccount a)"
    unfolding account_setPrimaryExporter_def confirmProduct_def removeProduct_def account_deleteAccount_def Let_def
    by (intro keeps_intros)+
qed

subsection \<open>The properties applied\<close>

definition sample_options :: account_options where
  "sample_options = \<lparr>ao_scrypt = (\<lambda>n r p k pw salt. Inr (take k (pw @ salt @ replicate k CHR ''x''))),
     ao_searchEconomies = economyDirectorySearch ascii_unicode ''b'' sample_economies,
     ao_searchProducts = productCatalogSearch ascii_unicode (\<lambda>s. s) ''b'' sample_index,
     ao_economyAnalysisBuildId = ''b'', ao_productSearchBuildId = ''b''\<rparr>"

definition sample_registration :: register_account_input where
  "sample_registration = \<lparr>gi_email = '' Ada@Example.org'', gi_password = ''password1'', gi_displayName = ''Ada'',
     gi_primaryExportEconomy = ''528''\<rparr>"

lemma sample_checks:
  "normalizeCredentialIdentity ''ada@example.org'' = Inr ''ada@example.org''"
  "requirePassword ''password1'' = Inr ''password1''" "requirePassword ''password2'' = Inr ''password2''"
  "trim ''ACCOUNT_CREATED'' \<noteq> []" "trim ''SIGN_IN_SUCCEEDED'' \<noteq> []" "trim ''RECOVERY_TOKEN_ISSUED'' \<noteq> []"
  "trim ''ACCOUNT_RECOVERED'' \<noteq> []" "trim ''id-1'' \<noteq> []"
  by code_simp+

lemma sample_email: "normalizeEmail '' Ada@Example.org'' = Inr ''ada@example.org''"
  by code_simp

lemma sample_exporter: "requirePrimaryExporter sample_options ''528'' = Inr ''528''"
proof -
  have "ao_searchEconomies sample_options = economyDirectorySearch ascii_unicode ''b'' sample_economies"
    by (simp add: sample_options_def)
  note r = listed.requirePrimaryExporter_iff [OF this]
  have "normalizeEconomyQuery ascii_unicode ''528'' = ''528''" "trim ''528'' \<noteq> []" by code_simp+
  moreover have "''528'' \<in> ec_code ` set sample_economies" by (simp add: sample_economies_def)
  ultimately show ?thesis unfolding r
    using directory_accepts [of ascii_unicode "''b''" sample_economies "''528''" "''528''"] by (simp add: sample_options_def)
qed

lemma sample_key_lengths: "key_lengths_ok sample_options"
  by (auto simp: key_lengths_ok_def sample_options_def)

definition ada_verifier :: string where
  "ada_verifier = verifier_text ''token-0'' (take 64 (''password1'' @ ''token-0'' @ replicate 64 CHR ''x''))"

lemma trim_not_blank: "c \<in> set s \<Longrightarrow> \<not> is_space c \<Longrightarrow> trim s \<noteq> []"
  by (auto simp: trim_def trim_start_def dropWhile_eq_Nil_conv)
     (metis (no_types) Un_iff set_append set_takeWhileD takeWhile_dropWhile_id)

lemma trim_ada_verifier: "trim ada_verifier \<noteq> []"
  by (rule trim_not_blank [of "CHR ''s''"]) (simp_all add: ada_verifier_def verifier_text_def is_space_def)


definition ada_credential :: credential where
  "ada_credential = sample_credential\<lparr>cr_verifier := ada_verifier\<rparr>"

definition frozen_world :: world where
  "frozen_world = sample_world\<lparr>w_clock := \<lambda>_. 1767225600000\<rparr>"

definition ada_world :: world where
  "ada_world = snd (registerAccount sample_options sample_registration frozen_world)"

definition ada_event :: audit_event where
  "ada_event = \<lparr>au_id = ''id-2'', au_accountId = Some ''id-0'', au_kind = ''ACCOUNT_CREATED'',
     au_detail = JObj [(''primaryExportEconomy'', JStr ''528'')], au_createdAt = to_iso 1767225600000\<rparr>"

lemma ada_steps:
  "hashPassword sample_options ''password1'' frozen_world = (Inr ada_verifier, frozen_world\<lparr>w_bytes_drawn := 1\<rparr>)"
  "createAccountWithCredential ''Ada'' ''528'' ''ada@example.org'' ada_verifier (frozen_world\<lparr>w_bytes_drawn := 1\<rparr>) =
     (Inr (sample_account, ada_credential), frozen_world\<lparr>w_bytes_drawn := 1, w_reads := 1, w_drawn := 2,
        w_db := empty_database\<lparr>accounts := [sample_account], credentials := [ada_credential]\<rparr>\<rparr>)"
  "appendAuditEvent (Some ''id-0'') ''ACCOUNT_CREATED'' (JObj [(''primaryExportEconomy'', JStr ''528'')])
     (frozen_world\<lparr>w_bytes_drawn := 1, w_reads := 1, w_drawn := 2,
        w_db := empty_database\<lparr>accounts := [sample_account], credentials := [ada_credential]\<rparr>\<rparr>) =
     (Inr ada_event, frozen_world\<lparr>w_bytes_drawn := 1, w_reads := 2, w_drawn := 3, w_db := empty_database\<lparr>
        accounts := [sample_account], credentials := [ada_credential], audit_events := [ada_event]\<rparr>\<rparr>)"
proof -
  show "hashPassword sample_options ''password1'' frozen_world = (Inr ada_verifier, frozen_world\<lparr>w_bytes_drawn := 1\<rparr>)"
    by (simp add: hashPassword_def run_defs frozen_world_def sample_world_def sample_options_def ada_verifier_def SCRYPT_KEY_LENGTH_def
        dec.simps digit_chars)
  show "createAccountWithCredential ''Ada'' ''528'' ''ada@example.org'' ada_verifier (frozen_world\<lparr>w_bytes_drawn := 1\<rparr>) =
     (Inr (sample_account, ada_credential), frozen_world\<lparr>w_bytes_drawn := 1, w_reads := 1, w_drawn := 2,
        w_db := empty_database\<lparr>accounts := [sample_account], credentials := [ada_credential]\<rparr>\<rparr>)"
    by (simp add: createAccountWithCredential_def run_defs sample_checks trims trim_ada_verifier
        insert_account_def insert_credential_def insert_row_def frozen_world_def sample_world_def empty_database_def
        dec.simps digit_chars account_ids_def sample_account_def sample_credential_def ada_credential_def)
  show "appendAuditEvent (Some ''id-0'') ''ACCOUNT_CREATED'' (JObj [(''primaryExportEconomy'', JStr ''528'')])
     (frozen_world\<lparr>w_bytes_drawn := 1, w_reads := 1, w_drawn := 2,
        w_db := empty_database\<lparr>accounts := [sample_account], credentials := [ada_credential]\<rparr>\<rparr>) =
     (Inr ada_event, frozen_world\<lparr>w_bytes_drawn := 1, w_reads := 2, w_drawn := 3, w_db := empty_database\<lparr>
        accounts := [sample_account], credentials := [ada_credential], audit_events := [ada_event]\<rparr>\<rparr>)"
    by (simp add: appendAuditEvent_def run_defs sample_checks trims insert_audit_event_def insert_row_def
        requireAccount_def findAccount_def frozen_world_def sample_world_def empty_database_def
        dec.simps digit_chars account_ids_def sample_account_def ada_event_def)
qed

lemma registered_ada: "registerAccount sample_options sample_registration frozen_world = (Inr sample_account, ada_world)"
  and ada_world: "ada_world = frozen_world\<lparr>w_bytes_drawn := 1, w_reads := 2, w_drawn := 3, w_db := empty_database\<lparr>
        accounts := [sample_account], credentials := [ada_credential], audit_events := [ada_event]\<rparr>\<rparr>"
proof -
  have i: "ac_id sample_account = ''id-0''" by (simp add: sample_account_def)
  have n: "trim ''Ada'' \<noteq> []" by code_simp
  have "registerAccount sample_options sample_registration frozen_world = (Inr sample_account,
      frozen_world\<lparr>w_bytes_drawn := 1, w_reads := 2, w_drawn := 3, w_db := empty_database\<lparr>
        accounts := [sample_account], credentials := [ada_credential], audit_events := [ada_event]\<rparr>\<rparr>)"
    by (simp only: registerAccount_def sample_registration_def register_account_input.simps sample_email sample_checks
        sample_exporter steps requireNonEmpty_def n if_False andThen_Inr [where m = "hashPassword sample_options ''password1''", OF ada_steps(1)])
       (simp add: catching_def andThen_def ada_steps(2,3) i ret_def del: One_nat_def)
  then show "registerAccount sample_options sample_registration frozen_world = (Inr sample_account, ada_world)"
    "ada_world = frozen_world\<lparr>w_bytes_drawn := 1, w_reads := 2, w_drawn := 3, w_db := empty_database\<lparr>
        accounts := [sample_account], credentials := [ada_credential], audit_events := [ada_event]\<rparr>\<rparr>"
    by (simp_all add: ada_world_def)
qed


lemma ada_verifies: "verifyPassword sample_options ''password1'' ada_verifier = Inr True"
  "verifyPassword sample_options ''password2'' ada_verifier = Inr False"
proof -
  have b: "w_bytes frozen_world (w_bytes_drawn frozen_world) = ''token-0''"
    by (simp add: frozen_world_def sample_world_def dec.simps digit_chars)
  have v: "verifyPassword sample_options q ada_verifier = Inr (take 64 (''password1'' @ ''token-0'' @ replicate 64 CHR ''x'')
      = take 64 (q @ ''token-0'' @ replicate 64 CHR ''x''))" for q
    using verify_own_hash [OF ada_steps(1) sample_key_lengths, of q] unfolding b
    by (simp add: sample_options_def SCRYPT_KEY_LENGTH_def del: take_append append.simps take_replicate)
  show "verifyPassword sample_options ''password1'' ada_verifier = Inr True"
    "verifyPassword sample_options ''password2'' ada_verifier = Inr False"
    unfolding v by simp_all
qed

lemma ada_found: "find (\<lambda>c. cr_normalizedIdentity c = ''ada@example.org'') (credentials (w_db ada_world)) = Some ada_credential"
  by (simp add: ada_world ada_credential_def sample_credential_def)

theorem registration_is_complete_witness:
  "ac_primaryExportEconomy sample_account \<in> ec_code ` set sample_economies
   \<and> findAccount ''id-0'' ada_world = (Inr (Some sample_account), ada_world)"
proof -
  have "w_bytes frozen_world (w_bytes_drawn frozen_world) \<noteq> []" by (simp add: frozen_world_def sample_world_def)
  moreover have "ao_searchEconomies sample_options =
      economyDirectorySearch ascii_unicode (ao_economyAnalysisBuildId sample_options) sample_economies"
    by (simp add: sample_options_def)
  moreover have "ac_id sample_account = ''id-0''" by (simp add: sample_account_def)
  ultimately show ?thesis using registration_is_complete [OF registered_ada sample_key_lengths] by metis
qed

theorem failed_sign_ins_lock_the_credential_witness:
  "\<exists>e c. fst (authenticate sample_options '' Ada@Example.org'' ''password2'' None ada_world) = Inl e
     \<and> find (\<lambda>c. cr_normalizedIdentity c = ''ada@example.org'') (credentials (w_db (snd
          (authenticate sample_options '' Ada@Example.org'' ''password2'' None ada_world)))) = Some c
     \<and> cr_failedAttemptCount c = 1 \<and> cr_lockedUntil c = None"
proof -
  obtain r t where r: "authenticate sample_options '' Ada@Example.org'' ''password2'' None ada_world = (r, t)" by fastforce
  have v: "verifyPassword sample_options ''password2'' (cr_verifier ada_credential) = Inr False"
    by (simp add: ada_credential_def ada_verifies)
  have c: "activeLock ada_credential x = None" "expiredLock ada_credential x = False" "cr_failedAttemptCount ada_credential = 0"
    "trim (cr_id ada_credential) \<noteq> []" for x
    using sample_checks by (simp_all add: ada_credential_def sample_credential_def activeLock_def expiredLock_def)
  have m: "\<not> w_maintenance ada_world" by (simp add: ada_world frozen_world_def sample_world_def)
  have k: "next_count ada_credential x = 1" for x by (simp add: next_count_def c)
  show ?thesis
    using failed_sign_ins_lock_the_credential [OF r sample_email sample_checks(3) ada_found c(1) v m c(4)] unfolding r k
    by (auto simp: c)
qed


lemma ada_world_ok: "database_ok (w_db ada_world)"
  using keepsD [OF service_keeps(1) _ registered_ada] by (simp add: frozen_world_def sample_world_def database_ok_empty)

definition ada_token :: string where
  "ada_token = to_base64url ''token-1''"

definition signed_in :: world where
  "signed_in = snd (authenticate sample_options '' Ada@Example.org'' ''password1'' None ada_world)"

lemma sign_in_run:
  "authenticate sample_options '' Ada@Example.org'' ''password1'' None ada_world =
     (Inr (sample_account, ada_token, to_iso 1767254400000), signed_in)"
proof -
  have v: "verifyPassword sample_options ''password1'' (cr_verifier ada_credential) = Inr True"
    by (simp add: ada_credential_def ada_verifies)
  have l: "activeLock ada_credential x = None" for x
    by (simp add: ada_credential_def sample_credential_def activeLock_def)
  have sha: "trim (''sha:'' @ s) \<noteq> []" for s
    by (rule trim_not_blank [of "CHR ''s''"]) (simp_all add: is_space_def)
  have "fst (authenticate sample_options '' Ada@Example.org'' ''password1'' None ada_world) =
     Inr (sample_account, ada_token, to_iso 1767254400000)"
    unfolding authenticate_found [OF sample_email sample_checks(2) ada_found] l option.case v steps
    using sha [of "to_base64url ''token-1''"]
    by (simp add: ada_world updateCredentialAttempts_def update_credential_def requireNonNegativeInt_def
      run_defs open_session_def issueOpaqueToken_def digestToken_def createSession_def insert_session_def
      insert_row_def requireAccount_def findAccount_def appendAuditEvent_def insert_audit_event_def
      sample_checks trims trim_ada_verifier ada_credential_def sample_credential_def sample_account_def
      frozen_world_def sample_world_def DEFAULT_SESSION_SECONDS_def or_else_def requirePositiveInt_def
      changes_def update_rows_def dec.simps digit_chars ada_token_def to_iso_not_blank empty_database_def
      account_ids_def operational_session.defs ada_event_def audit_clash_def)
  then show ?thesis by (simp add: signed_in_def prod_eq_iff)
qed


lemma ada_resolves: "trim ada_token \<noteq> []"
  by code_simp

lemma frozen_years: "year_0_to_9999 (w_clock ada_world i)"
  "year_0_to_9999 (w_clock ada_world i + or_else None DEFAULT_SESSION_SECONDS * 1000)"
  by (simp_all add: ada_world frozen_world_def sample_world_def year_0_to_9999_def or_else_def DEFAULT_SESSION_SECONDS_def)

theorem sign_in_opens_session_witness:
  "(\<exists>c \<in> set (credentials (w_db ada_world)). verifyPassword sample_options ''password1'' (cr_verifier c) = Inr True
      \<and> ac_id sample_account = cr_accountId c)
   \<and> (\<exists>x. to_iso 1767254400000 = to_iso x
      \<and> fst (resolveSession ada_token signed_in) = Inr (if w_clock signed_in (w_reads signed_in) < x then Some sample_account else None))"
  using sign_in_opens_session [OF sign_in_run ada_world_ok ada_resolves frozen_years] by blast

definition recovery_row :: recovery_token where
  "recovery_row = \<lparr>rt_tokenDigest = ''sha:'' @ ada_token, rt_accountId = ''id-0'',
     rt_createdAt = to_iso 1767225600000, rt_expiresAt = to_iso 1767229200000, rt_consumedAt = None\<rparr>"

definition recovery_event :: audit_event where
  "recovery_event = \<lparr>au_id = ''id-3'', au_accountId = Some ''id-0'', au_kind = ''RECOVERY_TOKEN_ISSUED'',
     au_detail = JObj [(''expiresAt'', JStr (to_iso 1767229200000))], au_createdAt = to_iso 1767225600000\<rparr>"

definition reset_world :: world where
  "reset_world = frozen_world\<lparr>w_bytes_drawn := 2, w_reads := 5, w_drawn := 4, w_db := empty_database\<lparr>
     accounts := [sample_account], credentials := [ada_credential], recovery_tokens := [recovery_row],
     audit_events := [ada_event, recovery_event]\<rparr>\<rparr>"

definition reset_done_world :: world where
  "reset_done_world = snd (account_consumeRecoveryToken sample_options ada_token ''password2'' reset_world)"

lemma ada_by_identity: "findCredentialByIdentity ''ada@example.org'' ada_world = (Inr (Some ada_credential), ada_world)"
  using findCredentialByIdentity_run [OF sample_email] ada_found by simp

lemmas ada_eval = ada_world run_defs issueOpaqueToken_def digestToken_def insert_row_def requireAccount_def findAccount_def
  appendAuditEvent_def insert_audit_event_def sample_checks trims ada_credential_def sample_credential_def
  sample_account_def frozen_world_def sample_world_def requirePositiveInt_def or_else_def dec.simps digit_chars
  to_iso_not_blank empty_database_def account_ids_def ada_event_def audit_clash_def changes_def update_rows_def

lemma recovery_issued:
  "account_issueRecoveryToken '' Ada@Example.org'' None ada_world = (Inr (ada_token, to_iso 1767229200000), reset_world)"
proof -
  have sha: "trim (''sha:'' @ s) \<noteq> []" for s
    by (rule trim_not_blank [of "CHR ''s''"]) (simp_all add: is_space_def)
  show ?thesis
    unfolding account_issueRecoveryToken_def sample_email steps andThen_def [where m = "findCredentialByIdentity ''ada@example.org''"] ada_by_identity
    using sha [of "to_base64url ''token-1''"]
    by (simp add: ada_eval issueRecoveryToken_def insert_recovery_token_def DEFAULT_RECOVERY_SECONDS_def ada_token_def
        reset_world_def recovery_row_def recovery_event_def)
qed

lemma recovery_consumed:
  "account_consumeRecoveryToken sample_options ada_token ''password2'' reset_world = (Inr (), reset_done_world)"
proof -
  have sha: "trim (''sha:'' @ s) \<noteq> []" for s
    by (rule trim_not_blank [of "CHR ''s''"]) (simp_all add: is_space_def)
  have v: "trim (verifier_text s h) \<noteq> []" for s h
    by (rule trim_not_blank [of "CHR ''s''"]) (simp_all add: verifier_text_def is_space_def)
  have tok: "trim ada_token \<noteq> []" by (rule ada_resolves)
  have live: "to_iso 1767225600000 < to_iso 1767229200000"
    by (rule iffD2 [OF iso.text_less]) (simp_all add: year_0_to_9999_def)
  have "fst (account_consumeRecoveryToken sample_options ada_token ''password2'' reset_world) = Inr ()"
    using sha [of "to_base64url ''token-1''"] tok live v
    by (simp add: reset_world_def recovery_row_def recovery_event_def ada_eval ada_token_def
        account_consumeRecoveryToken_def consumeRecoveryToken_def live_recovery_token_def findCredentialByAccount_def
        hashPassword_def sample_options_def updateCredentialVerifier_def update_credential_def
        revokeSessionsForAccount_def)
  then show ?thesis by (simp add: reset_done_world_def prod_eq_iff)
qed


theorem recovery_replaces_password_witness:
  "\<exists>c. find (\<lambda>c. cr_accountId c = ''id-0'') (credentials (w_db reset_done_world)) = Some c
     \<and> verifyPassword sample_options ''password2'' (cr_verifier c) = Inr True"
proof -
  have ok: "database_ok (w_db reset_world)"
    using keepsD [OF service_keeps(5) ada_world_ok recovery_issued] by simp
  have b: "w_bytes reset_world (w_bytes_drawn reset_world) \<noteq> []"
    by (simp add: reset_world_def frozen_world_def sample_world_def)
  have q: "\<forall>q \<in> set (recovery_tokens (w_db reset_world)). rt_accountId q = ''id-0''"
    by (simp add: reset_world_def recovery_row_def)
  from recovery_replaces_password [OF recovery_consumed ok sample_key_lengths b] q show ?thesis by metis
qed

definition avocados :: product_ref where
  "avocados = \<lparr>pf_hsRevision = ''HS12'', pf_code = ''080440''\<rparr>"

lemma avocados_identity: "requireProductIdentity sample_options avocados = Inr avocados"
  by code_simp

lemma portfolio_row: "dedupeProducts [avocados] = Inr [avocados]" "trim ''PRODUCT_CONFIRMED'' \<noteq> []"
  by code_simp+

lemma portfolio_confirmed:
  "fst (confirmProduct sample_options ''id-0'' avocados ada_world) =
     Inr [\<lparr>cp_accountId = ''id-0'', cp_product = avocados, cp_confirmedAt = to_iso 1767225600000\<rparr>]"
  by (simp add: confirmProduct_def avocados_identity portfolio_row ada_eval listConfirmedProducts_def confirmPortfolio_def
      insert_products_def insert_confirmed_product_def delete_rows_def)

theorem portfolio_edits_one_product_witness:
  "\<exists>rs. fst (confirmProduct sample_options ''id-0'' avocados ada_world) = Inr rs \<and> set (map cp_product rs) = {avocados}"
proof -
  obtain rs t where t: "confirmProduct sample_options ''id-0'' avocados ada_world = (Inr rs, t)"
    using portfolio_confirmed by (metis prod.collapse)
  have "listConfirmedProducts ''id-0'' ada_world = (Inr [], ada_world)"
    by (simp add: listConfirmedProducts_def query_def ada_world empty_database_def)
  from portfolio_edits_one_product [OF this, of avocados sample_options] t show ?thesis
    by (simp add: bar_free_def avocados_def)
qed

end
