(* ===== verification/Js_Number.thy ===== *)
theory Js_Number
  imports Js_String "HOL-Library.Log_Nat"
begin

text \<open>
  The numbers of the language: binary64 values as rationals. A finite double is the rational it stands for
  (the two zeros are one value), and the result of an operation is the exact result rounded to the nearest
  double, ties to even. \<^theory_text>\<open>nearest_double\<close> rounds a magnitude, \<^theory_text>\<open>to_number\<close> adds sign and overflow,
  \<^theory_text>\<open>js_minus\<close>, \<^theory_text>\<open>js_divide\<close> and \<^theory_text>\<open>js_abs\<close> are the operators, \<^theory_text>\<open>to_fixed\<close> is \<^verbatim>\<open>Number.prototype.toFixed\<close>
  below \<^verbatim>\<open>1e21\<close>. The lemmas show that rounding is monotone, keeps safe integers and errs by at most the
  relative unit roundoff.
\<close>

subsection \<open>Rounding\<close>

definition pow2 :: "int \<Rightarrow> rat" where
  "pow2 k = (if 0 \<le> k then 2 ^ nat k else 1 / 2 ^ nat (- k))"

text \<open>The \<^theory_text>\<open>e\<close> with \<^theory_text>\<open>pow2 e \<le> x < pow2 (e + 1)\<close>.\<close>

definition binade :: "rat \<Rightarrow> int" where
  "binade x = (let (a, b) = quotient_of x; k = int (floorlog 2 (nat a)) - int (floorlog 2 (nat b))
               in if pow2 k \<le> x then k else k - 1)"

definition round_even :: "rat \<Rightarrow> int" where
  "round_even x = (let f = \<lfloor>x\<rfloor>; r = x - of_int f
     in if r < 1 / 2 then f else if 1 / 2 < r then f + 1 else if even f then f else f + 1)"

definition spacing :: "rat \<Rightarrow> int" where
  "spacing x = max (binade x - 52) (- 1074)"

definition nearest_double :: "rat \<Rightarrow> rat" where
  "nearest_double x = (if x \<le> 0 then 0 else of_int (round_even (x / pow2 (spacing x))) * pow2 (spacing x))"

datatype js_number = NaN | Infinite bool | Finite rat

definition to_number :: "rat \<Rightarrow> js_number" where
  "to_number x = (let m = nearest_double \<bar>x\<bar>
     in if pow2 1024 \<le> m then Infinite (x < 0) else Finite (if x < 0 then - m else m))"

fun js_minus :: "js_number \<Rightarrow> js_number \<Rightarrow> js_number" where
  "js_minus (Finite x) (Finite y) = to_number (x - y)"
| "js_minus (Infinite s) (Finite y) = Infinite s"
| "js_minus (Finite x) (Infinite s) = Infinite (\<not> s)"
| "js_minus (Infinite s) (Infinite t) = (if s = t then NaN else Infinite s)"
| "js_minus _ _ = NaN"

text \<open>A division by zero is only ever by the positive zero here.\<close>

fun js_divide :: "js_number \<Rightarrow> js_number \<Rightarrow> js_number" where
  "js_divide (Finite x) (Finite y) =
     (if y = 0 then if x = 0 then NaN else Infinite (x < 0) else to_number (x / y))"
| "js_divide (Infinite s) (Finite y) = Infinite (s \<noteq> (y < 0))"
| "js_divide (Finite x) (Infinite s) = Finite 0"
| "js_divide _ _ = NaN"

fun js_abs :: "js_number \<Rightarrow> js_number" where
  "js_abs (Finite x) = Finite \<bar>x\<bar>"
| "js_abs (Infinite s) = Infinite False"
| "js_abs NaN = NaN"

fun js_ge :: "js_number \<Rightarrow> js_number \<Rightarrow> bool" where
  "js_ge (Finite x) (Finite y) = (y \<le> x)"
| "js_ge (Infinite s) (Finite y) = (\<not> s)"
| "js_ge (Finite x) (Infinite s) = s"
| "js_ge (Infinite s) (Infinite t) = (\<not> s \<or> t)"
| "js_ge _ _ = False"

fun js_less :: "js_number \<Rightarrow> js_number \<Rightarrow> bool" where
  "js_less (Finite x) (Finite y) = (x < y)"
| "js_less (Infinite s) (Finite y) = s"
| "js_less (Finite x) (Infinite s) = (\<not> s)"
| "js_less (Infinite s) (Infinite t) = (s \<and> \<not> t)"
| "js_less _ _ = False"

text \<open>\<^verbatim>\<open>toFixed(d)\<close>: the nearest integer multiple of \<^theory_text>\<open>10 ^ - d\<close>, the larger one of two, behind the sign.\<close>

definition fixed_digits :: "nat \<Rightarrow> nat \<Rightarrow> string" where
  "fixed_digits d n = (if d = 0 then dec n else dec (n div 10 ^ d) @ CHR ''.'' # pad_start d (dec (n mod 10 ^ d)))"

fun to_fixed :: "nat \<Rightarrow> js_number \<Rightarrow> string" where
  "to_fixed d NaN = ''NaN''"
| "to_fixed d (Infinite s) = (if s then ''-Infinity'' else ''Infinity'')"
| "to_fixed d (Finite x) = (if x < 0 then ''-'' else '''') @ fixed_digits d (nat \<lfloor>\<bar>x\<bar> * 10 ^ d + 1 / 2\<rfloor>)"

subsection \<open>Powers of two\<close>

lemma pow2_pos [simp]: "0 < pow2 k"
  by (simp add: pow2_def)

lemma pow2_nonzero [simp]: "pow2 k \<noteq> 0"
  by (simp add: pow2_def)

lemma pow2_nonneg [simp]: "0 \<le> pow2 k"
  by (simp add: pow2_def)

lemma pow2_add: "pow2 (a + b) = pow2 a * pow2 b"
proof -
  have *: "pow2 k = 2 powi k" for k
    by (simp add: pow2_def power_int_def inverse_eq_divide power_one_over)
  show ?thesis by (simp add: * power_int_add)
qed

lemma pow2_diff: "pow2 (a - b) = pow2 a / pow2 b"
proof -
  have "pow2 a = pow2 (a - b) * pow2 b" using pow2_add [of "a - b" b] by simp
  then show ?thesis by (simp add: eq_divide_eq)
qed

lemma pow2_Suc: "pow2 (k + 1) = 2 * pow2 k"
  unfolding pow2_add by (simp add: pow2_def)

lemma pow2_nat: "pow2 (int n) = of_nat (2 ^ n)"
  by (simp add: pow2_def)

lemma pow2_ge_1: "0 \<le> k \<Longrightarrow> 1 \<le> pow2 k"
  by (simp add: pow2_def)

lemma pow2_le_iff: "pow2 a \<le> pow2 b \<longleftrightarrow> a \<le> b"
proof -
  have "pow2 a \<le> pow2 b" if "a \<le> b" for a b
  proof -
    have "pow2 b = pow2 a * pow2 (b - a)" using pow2_add [of a "b - a"] by simp
    moreover have "1 \<le> pow2 (b - a)" using that by (intro pow2_ge_1) simp
    ultimately show ?thesis using mult_left_mono [of 1 "pow2 (b - a)" "pow2 a"] by simp
  qed
  moreover have "pow2 b < pow2 a" if "b < a"
  proof -
    have "pow2 (b + 1) \<le> pow2 a" using that \<open>\<And>b a. a \<le> b \<Longrightarrow> pow2 a \<le> pow2 b\<close> [of "b + 1" a] by simp
    moreover have "pow2 b < pow2 (b + 1)" by (simp add: pow2_Suc)
    ultimately show ?thesis by simp
  qed
  ultimately show ?thesis by (metis linorder_not_le)
qed

lemma pow2_less_iff: "pow2 a < pow2 b \<longleftrightarrow> a < b"
  using pow2_le_iff [of b a] by auto

lemma binade:
  assumes "0 < x"
  shows "pow2 (binade x) \<le> x" "x < pow2 (binade x + 1)"
proof -
  obtain a b where q: "quotient_of x = (a, b)" by (cases "quotient_of x")
  have b: "0 < b" using quotient_of_denom_pos [OF q] .
  have x: "x = of_int a / of_int b" using quotient_of_div [OF q] .
  have a: "0 < a" using assms x b by (simp add: zero_less_divide_iff)
  define i j where "i = floorlog 2 (nat a)" and "j = floorlog 2 (nat b)"
  have ij: "i \<ge> 1" "j \<ge> 1"
    using floorlog_eq_zero_iff [of 2 "nat a"] floorlog_eq_zero_iff [of 2 "nat b"] a b unfolding i_def j_def by linarith+
  have "2 ^ (i - 1) \<le> nat a \<and> nat a < 2 ^ i" "2 ^ (j - 1) \<le> nat b \<and> nat b < 2 ^ j"
    unfolding i_def j_def using floorlog_bounds [of "nat a" 2] floorlog_bounds [of "nat b" 2] a b by simp_all
  then have "of_nat (2 ^ (i - 1)) \<le> (of_nat (nat a) :: rat)" "of_nat (nat a) < (of_nat (2 ^ i) :: rat)"
    "of_nat (2 ^ (j - 1)) \<le> (of_nat (nat b) :: rat)" "of_nat (nat b) < (of_nat (2 ^ j) :: rat)"
    using of_nat_le_iff of_nat_less_iff by blast+
  then have ra: "pow2 (int i - 1) \<le> of_int a" "of_int a < pow2 (int i)"
    and rb: "pow2 (int j - 1) \<le> of_int b" "of_int b < pow2 (int j)"
    using a b ij pow2_nat [of "i - 1"] pow2_nat [of "j - 1"] pow2_nat [of i] pow2_nat [of j]
    by (simp_all add: of_nat_diff)
  have b': "0 < (of_int b :: rat)" using b by simp
  have "pow2 (int i - 1 - int j) = pow2 (int i - 1) / pow2 (int j)" by (simp add: pow2_diff)
  also have "\<dots> \<le> of_int a / of_int b"
    using ra(1) rb(2) b' a by (intro frac_le) simp_all
  finally have lo: "pow2 (int i - int j - 1) \<le> x" unfolding x by (simp add: algebra_simps)
  have "of_int a / of_int b < pow2 (int i) / pow2 (int j - 1)"
    using ra(2) rb(1) b' a by (intro frac_less) simp_all
  also have "\<dots> = pow2 (int i - int j + 1)" by (simp add: pow2_diff [symmetric] algebra_simps)
  finally have hi: "x < pow2 (int i - int j + 1)" unfolding x .
  have d: "binade x = (if pow2 (int i - int j) \<le> x then int i - int j else int i - int j - 1)"
    by (simp add: binade_def q i_def j_def Let_def)
  show "pow2 (binade x) \<le> x" using lo by (simp add: d)
  show "x < pow2 (binade x + 1)" using hi by (simp add: d)
qed

lemma binade_unique:
  assumes "pow2 e \<le> x" "x < pow2 (e + 1)"
  shows "binade x = e"
proof -
  have x: "0 < x" using assms(1) pow2_pos [of e] by linarith
  have "e < binade x + 1" "binade x < e + 1"
    using binade [OF x] assms pow2_less_iff [of e "binade x + 1"] pow2_less_iff [of "binade x" "e + 1"] by linarith+
  then show ?thesis by simp
qed

lemma binade_mono:
  assumes "0 < x" "x \<le> y"
  shows "binade x \<le> binade y"
proof -
  have "pow2 (binade x) < pow2 (binade y + 1)"
    using binade(1) [OF assms(1)] binade(2) [of y] assms by linarith
  then show ?thesis by (simp add: pow2_less_iff)
qed

subsection \<open>The rounded value\<close>

lemma round_even_error: "\<bar>of_int (round_even x) - x\<bar> \<le> 1 / 2"
  using of_int_floor_le [of x] floor_correct [of x] by (auto simp: round_even_def Let_def abs_le_iff)

lemma round_even_int [simp]: "round_even (of_int n) = n"
  by (simp add: round_even_def)

lemma round_even_mono:
  assumes "x \<le> y"
  shows "round_even x \<le> round_even y"
proof (cases "\<lfloor>x\<rfloor> = \<lfloor>y\<rfloor>")
  case True
  then show ?thesis using assms by (auto simp: round_even_def Let_def)
next
  case False
  then have "\<lfloor>x\<rfloor> + 1 \<le> \<lfloor>y\<rfloor>" using floor_mono [OF assms] by linarith
  moreover have "round_even x \<le> \<lfloor>x\<rfloor> + 1" "\<lfloor>y\<rfloor> \<le> round_even y" by (auto simp: round_even_def Let_def)
  ultimately show ?thesis by linarith
qed

lemma round_even_le_int: "x \<le> of_int n \<Longrightarrow> round_even x \<le> n"
  using round_even_mono [of x "of_int n"] by simp

lemma round_even_ge_int: "of_int n \<le> x \<Longrightarrow> n \<le> round_even x"
  using round_even_mono [of "of_int n" x] by simp

lemma pow2_is_int: "0 \<le> k \<Longrightarrow> pow2 k = of_int (2 ^ nat k)"
  by (simp add: pow2_def)

lemma nearest_le_pow2:
  assumes "0 < x" "x \<le> pow2 k" "spacing x \<le> k"
  shows "nearest_double x \<le> pow2 k"
proof -
  let ?q = "spacing x"
  have k: "pow2 k / pow2 ?q = of_int (2 ^ nat (k - ?q))"
    using assms(3) by (simp add: pow2_diff [symmetric] pow2_is_int)
  have "x / pow2 ?q \<le> of_int (2 ^ nat (k - ?q))"
    unfolding k [symmetric] using assms(2) by (rule divide_right_mono) simp
  from round_even_le_int [OF this] have "of_int (round_even (x / pow2 ?q)) \<le> (of_int (2 ^ nat (k - ?q)) :: rat)"
    using of_int_le_iff by blast
  then have "of_int (round_even (x / pow2 ?q)) * pow2 ?q \<le> pow2 k / pow2 ?q * pow2 ?q"
    unfolding k using pow2_pos [of ?q] by (simp add: mult_right_mono)
  then show ?thesis using assms(1) by (simp add: nearest_double_def)
qed

lemma nearest_ge_pow2:
  assumes "pow2 k \<le> x" "spacing x \<le> k"
  shows "pow2 k \<le> nearest_double x"
proof -
  let ?q = "spacing x"
  have k: "pow2 k / pow2 ?q = of_int (2 ^ nat (k - ?q))"
    using assms(2) by (simp add: pow2_diff [symmetric] pow2_is_int)
  have x: "0 < x" using assms(1) pow2_pos [of k] by linarith
  have "of_int (2 ^ nat (k - ?q)) \<le> x / pow2 ?q"
    unfolding k [symmetric] using assms(1) by (rule divide_right_mono) simp
  from round_even_ge_int [OF this] have "(of_int (2 ^ nat (k - ?q)) :: rat) \<le> of_int (round_even (x / pow2 ?q))"
    using of_int_le_iff by blast
  then have "pow2 k / pow2 ?q * pow2 ?q \<le> of_int (round_even (x / pow2 ?q)) * pow2 ?q"
    unfolding k using pow2_pos [of ?q] by (simp add: mult_right_mono)
  then show ?thesis using x by (simp add: nearest_double_def)
qed

lemma nearest_double_nonneg: "0 \<le> nearest_double x"
proof (cases "0 < x")
  case True
  then have "of_int 0 \<le> x / pow2 (spacing x)" by (simp add: zero_le_divide_iff)
  from round_even_ge_int [OF this] show ?thesis using True by (simp add: nearest_double_def)
qed (simp add: nearest_double_def)

theorem nearest_double_mono:
  assumes "x \<le> y"
  shows "nearest_double x \<le> nearest_double y"
proof (cases "0 < x")
  case False
  then show ?thesis using nearest_double_nonneg [of y] by (simp add: nearest_double_def)
next
  case True
  have m: "binade x \<le> binade y" using binade_mono [OF True assms] .
  show ?thesis
  proof (cases "spacing x = spacing y")
    case same: True
    have "x / pow2 (spacing y) \<le> y / pow2 (spacing y)" using assms by (rule divide_right_mono) simp
    from round_even_mono [OF this] show ?thesis using True assms pow2_pos [of "spacing y"]
      by (simp add: nearest_double_def same mult_right_mono)
  next
    case False
    with m have s: "spacing y = binade y - 52" "binade x + 1 \<le> binade y" "spacing x \<le> binade y"
      by (auto simp: spacing_def)
    have y: "pow2 (binade y) \<le> y" using binade(1) [of y] True assms by simp
    have "x \<le> pow2 (binade y)"
      using binade(2) [OF True] s(2) pow2_le_iff [of "binade x + 1" "binade y"] by linarith
    from nearest_le_pow2 [OF True this s(3)] nearest_ge_pow2 [OF y] s(1) show ?thesis by linarith
  qed
qed

lemma nearest_double_int:
  assumes "0 \<le> n" "n \<le> 2 ^ 53"
  shows "nearest_double (of_int n) = of_int n"
proof (cases "n = 0")
  case False
  let ?x = "of_int n :: rat" and ?q = "spacing (of_int n)"
  have x: "0 < ?x" using False assms(1) by simp
  have "pow2 (binade ?x) \<le> pow2 53"
  proof -
    have "?x \<le> of_int (2 ^ 53)" using assms(2) of_int_le_iff by blast
    then show ?thesis using binade(1) [OF x] by (simp add: pow2_def)
  qed
  then have b: "binade ?x \<le> 53" by (simp add: pow2_le_iff)
  show ?thesis
  proof (cases "binade ?x = 53")
    case True
    then have "pow2 53 \<le> ?x" using binade(1) [OF x] by simp
    then have "?x = pow2 53" using assms(2) by (simp add: pow2_def)
    moreover have "spacing ?x = 1" using True by (simp add: spacing_def)
    ultimately show ?thesis using nearest_le_pow2 [OF x, of 53] nearest_ge_pow2 [of 53 ?x] by simp
  next
    case False
    then have q: "?q \<le> 0" using b by (simp add: spacing_def)
    have "?x / pow2 ?q = of_int (n * 2 ^ nat (- ?q))"
      using q by (cases "?q = 0") (simp_all add: pow2_def)
    then have "round_even (?x / pow2 ?q) = n * 2 ^ nat (- ?q)" using round_even_int by metis
    then have "nearest_double ?x = of_int (n * 2 ^ nat (- ?q)) * pow2 ?q" using x by (simp add: nearest_double_def)
    also have "\<dots> = ?x" using \<open>?x / pow2 ?q = _\<close> by (metis nonzero_divide_eq_eq pow2_nonzero)
    finally show ?thesis .
  qed
qed (simp add: nearest_double_def)

text \<open>The relative error of a normal result is at most \<^theory_text>\<open>2 ^ - 53\<close>.\<close>

lemma nearest_double_error:
  assumes "pow2 (- 1022) \<le> x"
  shows "\<bar>nearest_double x - x\<bar> \<le> x / 2 ^ 53"
proof -
  have x: "0 < x" using assms pow2_pos [of "- 1022"] by linarith
  have "- 1022 \<le> binade x" using binade(2) [OF x] assms pow2_less_iff [of "- 1022" "binade x + 1"] by linarith
  then have q: "spacing x = binade x - 52" by (simp add: spacing_def)
  let ?p = "pow2 (spacing x)"
  have "nearest_double x - x = (of_int (round_even (x / ?p)) - x / ?p) * ?p"
    using x by (simp add: nearest_double_def algebra_simps)
  then have "\<bar>nearest_double x - x\<bar> \<le> 1 / 2 * ?p"
    using round_even_error [of "x / ?p"] pow2_pos [of "spacing x"] by (simp add: abs_mult)
  also have "?p = pow2 (binade x) / 2 ^ 52" by (simp add: q pow2_diff) (simp add: pow2_def)
  finally show ?thesis using binade(1) [OF x] by simp
qed


lemma nearest_double_error_any:
  assumes "0 \<le> x"
  shows "\<bar>nearest_double x - x\<bar> \<le> x / 2 ^ 53 + pow2 (- 1075)"
proof (cases "pow2 (- 1022) \<le> x")
  case True
  then show ?thesis using nearest_double_error [OF True] pow2_nonneg [of "- 1075"] by linarith
next
  case small: False
  show ?thesis
  proof (cases "x = 0")
    case False
    then have x: "0 < x" using assms by simp
    have "binade x < - 1022" using binade(1) [OF x] small pow2_le_iff [of "- 1022" "binade x"] by linarith
    then have q: "spacing x = - 1074" by (simp add: spacing_def)
    let ?p = "pow2 (- 1074)"
    have "nearest_double x - x = (of_int (round_even (x / ?p)) - x / ?p) * ?p"
      using x by (simp add: nearest_double_def q algebra_simps)
    then have "\<bar>nearest_double x - x\<bar> \<le> 1 / 2 * ?p"
      using round_even_error [of "x / ?p"] by (simp add: abs_mult)
    also have "1 / 2 * ?p = pow2 (- 1075)" using pow2_Suc [of "- 1075"] by simp
    finally have e: "\<bar>nearest_double x - x\<bar> \<le> pow2 (- 1075)" .
    have "0 \<le> x / 2 ^ 53" using assms by simp
    with e show ?thesis by linarith
  qed (simp add: nearest_double_def)
qed

lemma to_number_close:
  assumes "\<bar>x\<bar> \<le> 2 ^ 1000"
  obtains y where "to_number x = Finite y" "\<bar>y - x\<bar> \<le> \<bar>x\<bar> / 2 ^ 53 + pow2 (- 1075)" "0 \<le> x \<Longrightarrow> 0 \<le> y"
proof -
  let ?m = "nearest_double \<bar>x\<bar>"
  have e: "\<bar>?m - \<bar>x\<bar>\<bar> \<le> \<bar>x\<bar> / 2 ^ 53 + pow2 (- 1075)" by (rule nearest_double_error_any) simp
  define A where "A = pow2 1000"
  have A: "0 < A" "\<bar>x\<bar> \<le> A" "pow2 (- 1075) \<le> A" "pow2 1024 = 16777216 * A"
    using assms pow2_add [of 24 1000] by (simp_all add: A_def pow2_le_iff) (simp_all add: pow2_def)
  have "\<bar>x\<bar> / 2 ^ 53 \<le> \<bar>x\<bar>" by (simp add: divide_le_eq)
  with e A have "?m \<le> 3 * A" by linarith
  with A(1,4) have "?m < pow2 1024" by linarith
  then have "to_number x = Finite (if x < 0 then - ?m else ?m)" by (simp add: to_number_def Let_def)
  then show thesis using e nearest_double_nonneg [of "\<bar>x\<bar>"] that [of "- ?m"] that [of ?m] by (cases "x < 0") auto
qed

lemma to_fixed_close:
  obtains n where "to_fixed d (Finite x) = (if x < 0 then ''-'' else []) @ fixed_digits d n"
    "\<bar>(if x < 0 then - of_nat n else of_nat n) / 10 ^ d - x\<bar> \<le> 1 / (2 * 10 ^ d)"
proof
  let ?n = "nat \<lfloor>\<bar>x\<bar> * 10 ^ d + 1 / 2\<rfloor>"
  show "to_fixed d (Finite x) = (if x < 0 then ''-'' else []) @ fixed_digits d ?n" by simp
  have "0 \<le> \<lfloor>\<bar>x\<bar> * 10 ^ d + 1 / 2\<rfloor>" by simp
  then have "of_nat ?n = (of_int \<lfloor>\<bar>x\<bar> * 10 ^ d + 1 / 2\<rfloor> :: rat)" by simp
  moreover have "of_int \<lfloor>\<bar>x\<bar> * 10 ^ d + 1 / 2\<rfloor> \<le> \<bar>x\<bar> * 10 ^ d + 1 / 2"
    "\<bar>x\<bar> * 10 ^ d + 1 / 2 < of_int \<lfloor>\<bar>x\<bar> * 10 ^ d + 1 / 2\<rfloor> + 1"
    using floor_correct [of "\<bar>x\<bar> * 10 ^ d + 1 / 2"] by (simp_all only: of_int_add of_int_1)
  ultimately have "\<bar>of_nat ?n - \<bar>x\<bar> * 10 ^ d\<bar> \<le> 1 / 2" by linarith
  then have "\<bar>of_nat ?n - \<bar>x\<bar> * 10 ^ d\<bar> / 10 ^ d \<le> 1 / 2 / 10 ^ d" by (rule divide_right_mono) simp
  also have "\<bar>of_nat ?n - \<bar>x\<bar> * 10 ^ d\<bar> / 10 ^ d = \<bar>(of_nat ?n - \<bar>x\<bar> * 10 ^ d) / 10 ^ d\<bar>" by simp
  also have "(of_nat ?n - \<bar>x\<bar> * 10 ^ d) / 10 ^ d = of_nat ?n / 10 ^ d - \<bar>x\<bar>" by (simp add: diff_divide_distrib)
  finally have "\<bar>of_nat ?n / 10 ^ d - \<bar>x\<bar>\<bar> \<le> 1 / (2 * 10 ^ d)" by simp
  moreover have "\<bar>(if x < 0 then - of_nat ?n else of_nat ?n) / 10 ^ d - x\<bar> = \<bar>of_nat ?n / 10 ^ d - \<bar>x\<bar>\<bar>"
    by (cases "x < 0") (simp_all add: abs_if)
  ultimately show "\<bar>(if x < 0 then - of_nat ?n else of_nat ?n) / 10 ^ d - x\<bar> \<le> 1 / (2 * 10 ^ d)" by simp
qed

subsection \<open>Numbers from texts\<close>

text \<open>\<^verbatim>\<open>Number(s)\<close>: the decimal literals with an exponent, \<^verbatim>\<open>Infinity\<close>, the hexadecimal, octal and binary
  literals, and zero for a blank text; anything else is \<^verbatim>\<open>NaN\<close>.\<close>

definition js_exponent :: "string \<Rightarrow> int option" where
  "js_exponent s =
     (if s = [] then Some 0
      else if hd s \<noteq> CHR ''e'' \<and> hd s \<noteq> CHR ''E'' then None
      else let t = tl s; u = (if t \<noteq> [] \<and> (hd t = CHR ''+'' \<or> hd t = CHR ''-'') then tl t else t)
           in if u \<noteq> [] \<and> list_all is_digit u
              then Some (if t \<noteq> [] \<and> hd t = CHR ''-'' then - int (undec u) else int (undec u)) else None)"

definition pow10 :: "int \<Rightarrow> rat" where
  "pow10 k = (if 0 \<le> k then 10 ^ nat k else 1 / 10 ^ nat (- k))"

definition js_unsigned :: "string \<Rightarrow> js_number" where
  "js_unsigned s =
     (if s = ''Infinity'' then Infinite False
      else let whole = takeWhile is_digit s; rest = dropWhile is_digit s;
               dot = rest \<noteq> [] \<and> hd rest = CHR ''.'';
               fraction = (if dot then takeWhile is_digit (tl rest) else []);
               after = (if dot then dropWhile is_digit (tl rest) else rest)
           in case js_exponent after of
                None \<Rightarrow> NaN
              | Some e \<Rightarrow> if whole = [] \<and> fraction = [] then NaN
                  else to_number (of_nat (undec (whole @ fraction)) * pow10 (e - int (length fraction))))"

definition negate :: "js_number \<Rightarrow> js_number" where
  "negate n = (case n of Finite x \<Rightarrow> Finite (- x) | Infinite s \<Rightarrow> Infinite (\<not> s) | NaN \<Rightarrow> NaN)"

definition radix_digit :: "char \<Rightarrow> nat" where
  "radix_digit c = (let n = of_char c :: nat
     in if 48 \<le> n \<and> n \<le> 57 then n - 48 else if 97 \<le> n \<and> n \<le> 102 then n - 87
        else if 65 \<le> n \<and> n \<le> 70 then n - 55 else 99)"

definition radix_number :: "nat \<Rightarrow> string \<Rightarrow> js_number" where
  "radix_number b s =
     (if s \<noteq> [] \<and> list_all (\<lambda>c. radix_digit c < b) s
      then to_number (of_nat (foldl (\<lambda>a c. b * a + radix_digit c) 0 s)) else NaN)"

definition js_Number :: "string \<Rightarrow> js_number" where
  "js_Number text =
     (let s = trim text; prefix = take 2 s
      in if s = [] then Finite 0
         else if prefix = ''0x'' \<or> prefix = ''0X'' then radix_number 16 (drop 2 s)
         else if prefix = ''0o'' \<or> prefix = ''0O'' then radix_number 8 (drop 2 s)
         else if prefix = ''0b'' \<or> prefix = ''0B'' then radix_number 2 (drop 2 s)
         else if hd s = CHR ''-'' then negate (js_unsigned (tl s))
         else if hd s = CHR ''+'' then js_unsigned (tl s) else js_unsigned s)"

fun js_times :: "js_number \<Rightarrow> js_number \<Rightarrow> js_number" where
  "js_times (Finite x) (Finite y) = to_number (x * y)"
| "js_times (Infinite s) (Finite y) = (if y = 0 then NaN else Infinite (s \<noteq> (y < 0)))"
| "js_times (Finite x) (Infinite s) = (if x = 0 then NaN else Infinite (s \<noteq> (x < 0)))"
| "js_times (Infinite s) (Infinite t) = Infinite (s \<noteq> t)"
| "js_times _ _ = NaN"

text \<open>\<^verbatim>\<open>BigInt(Math.round(n))\<close>, which throws on a number that is not finite.\<close>

fun rounded_big_int :: "js_number \<Rightarrow> string + int" where
  "rounded_big_int (Finite x) = Inr \<lfloor>x + 1 / 2\<rfloor>"
| "rounded_big_int _ = Inl ''The number cannot be converted to a BigInt because it is not an integer''"

end
