(* ===== verification/Momentum.thy ===== *)
theory Momentum
  imports Fixed_Decimal Js_Number
begin

text \<open>
  \<^verbatim>\<open>computeRecentTradeMomentumV1\<close> of \<^verbatim>\<open>src/domain/recent-trade-momentum/recent-trade-momentum-v1.ts\<close>: the
  imports of the last three months against the same months a year before. Amounts are unbounded integers,
  the growth rate is a double; an error is its message. The two literal members of an outcome
  (\<^verbatim>\<open>schemaVersion\<close> and \<^verbatim>\<open>recipe\<close>) and its constant \<^verbatim>\<open>expectedHistoryMonths\<close> are left out.
\<close>

datatype observation_state =
    MO_RECORDED_POSITIVE | MO_RECORDED_ZERO | MO_NOT_OBSERVED | MO_SUPPRESSED_OR_REALLOCATED
  | MO_UNSUPPORTED_PRODUCT_MAPPING | MO_UNSUPPORTED_MARKET | MO_SOURCE_UNAVAILABLE

datatype update_state = PRELIMINARY | FINAL_BY_SOURCE_SCHEDULE | HISTORICALLY_REVISED

datatype coverage_state =
    MC_SUPPORTED | MC_SUPPORTED_NO_SIGNAL | MC_NOT_OBSERVED | MC_SUPPRESSED_OR_REALLOCATED
  | MC_UNSUPPORTED_MARKET | MC_UNSUPPORTED_PRODUCT_MAPPING | MC_SOURCE_UNAVAILABLE

datatype signal_state = RISING_FAST | RISING | BROADLY_STABLE | FALLING | FALLING_FAST

datatype momentum_reason =
    INSUFFICIENT_COMPLETE_HISTORY | INSUFFICIENT_RECORDED_MONTHS | MISSING_COMPARISON_MONTH | SMALL_BASE
  | WINDOW_CONCENTRATION | MR_SUPPRESSED_OR_REALLOCATED | CLASSIFICATION_BREAK
  | MR_UNSUPPORTED_PRODUCT_MAPPING | MR_UNSUPPORTED_MARKET | MR_SOURCE_UNAVAILABLE

datatype confidence_level = HIGH | MEDIUM | LOW

datatype confidence_reason =
    RECORDED_HISTORY_20_TO_23 | RECORDED_HISTORY_18_TO_19 | PRELIMINARY_COMPARISON_MONTH
  | MULTI_STEP_EXACT_CORRESPONDENCE | MATERIAL_SOURCE_REVISION

datatype mapping_chain = DIRECT_EXACT | MULTI_STEP_EXACT

record month_observation =
  ob_referenceMonth :: string
  ob_observationState :: observation_state
  ob_valueEur :: "js_number option"
  ob_updateState :: update_state
  ob_mappingChain :: mapping_chain

datatype market_status = MARKET_SUPPORTED | MARKET_UNSUPPORTED | MARKET_SOURCE_UNAVAILABLE
datatype mapping_status = EXACT_REVIEWED | MAPPING_UNSUPPORTED

record momentum_input =
  mi_recipe :: string
  mi_resultSchemaVersion :: string
  mi_monthlyPackageId :: string
  mi_sourceVintageId :: string
  mi_reporterIso2 :: string
  mi_hs12Code :: string
  mi_cutoffMonth :: string
  mi_eligibleCompleteMonths :: "string list"
  mi_marketStatus :: market_status
  mi_productMappingStatus :: mapping_status
  mi_observations :: "month_observation list"
  mi_revisionComparisonWindowChangeRate :: js_number

record momentum_outcome =
  mo_monthlyPackageId :: string
  mo_sourceVintageId :: string
  mo_reporterIso2 :: string
  mo_hs12Code :: string
  mo_cutoffMonth :: string
  mo_recentMonths :: "string list"
  mo_baselineMonths :: "string list"
  mo_coverageState :: coverage_state
  mo_signalState :: "signal_state option"
  mo_reasonCodes :: "momentum_reason list"
  mo_recentValueEur :: "string option"
  mo_baselineValueEur :: "string option"
  mo_growthRateDecimal :: "string option"
  mo_growthPercentDisplay :: "string option"
  mo_confidence :: "confidence_level option"
  mo_confidenceReasons :: "confidence_reason list"
  mo_recordedHistoryMonths :: nat

definition MINIMUM_RECORDED_HISTORY_MONTHS :: nat where "MINIMUM_RECORDED_HISTORY_MONTHS = 18"
definition MINIMUM_WINDOW_VALUE_EUR :: int where "MINIMUM_WINDOW_VALUE_EUR = 250000"

subsection \<open>Months\<close>

definition is_month_text :: "string \<Rightarrow> bool" where
  "is_month_text m \<longleftrightarrow> length m = 7 \<and> list_all is_digit (take 4 m) \<and> m ! 4 = CHR ''-'' \<and> list_all is_digit (drop 5 m)"

definition month_text :: "int \<Rightarrow> string" where
  "month_text totalMonths =
     int_dec (totalMonths div 12) @ ''-'' @ pad_start 2 (int_dec (totalMonths smod 12 + 1))"

definition month_number :: "string \<Rightarrow> int" where
  "month_number m = int (undec (take 4 m)) * 12 + (int (undec (drop 5 m)) - 1)"

definition addMonths :: "string \<Rightarrow> int \<Rightarrow> string + string" where
  "addMonths month delta =
     (if is_month_text month then Inr (month_text (month_number month + delta))
      else Inl ''Reference month must use YYYY-MM format.'')"

definition previousMonths :: "string \<Rightarrow> int \<Rightarrow> int \<Rightarrow> string + string list" where
  "previousMonths cutoffMonth startOffset endOffset =
     emap (\<lambda>offset. addMonths cutoffMonth (- offset)) (rev [endOffset .. startOffset])"

subsection \<open>Validation\<close>

fun is_safe_integer :: "js_number \<Rightarrow> bool" where
  "is_safe_integer (Finite x) = (x = of_int \<lfloor>x\<rfloor> \<and> \<bar>x\<bar> \<le> 2 ^ 53 - 1)"
| "is_safe_integer _ = False"

fun big_int :: "js_number \<Rightarrow> int" where
  "big_int (Finite x) = \<lfloor>x\<rfloor>"
| "big_int _ = 0"

definition validateObservation :: "month_observation \<Rightarrow> string + unit" where
  "validateObservation ob =
     (case ob_valueEur ob of
        None \<Rightarrow> Inr ()
      | Some v \<Rightarrow>
          if \<not> is_safe_integer v \<or> js_less v (Finite 0)
          then Inl ''Monthly value must be a nonnegative integer EUR amount.''
          else if ob_observationState ob = MO_RECORDED_POSITIVE \<and> js_ge (Finite 0) v
          then Inl ''Recorded-positive observations must be positive.''
          else Inr ())"

definition is_upper :: "char \<Rightarrow> bool" where
  "is_upper c = (let n = of_char c :: nat in 65 \<le> n \<and> n \<le> 90)"

definition validateInput :: "momentum_input \<Rightarrow> string + unit" where
  "validateInput i =
     (if mi_recipe i \<noteq> ''recent-trade-momentum-v1'' then Inl ''Recent Trade Momentum recipe is incompatible.''
      else if mi_resultSchemaVersion i \<noteq> ''recent-trade-momentum-result-v1''
      then Inl ''Recent Trade Momentum result schema is incompatible.''
      else if \<not> (length (mi_reporterIso2 i) = 2 \<and> list_all is_upper (mi_reporterIso2 i))
      then Inl ''Reporter identity must be ISO alpha-2.''
      else if \<not> (length (mi_hs12Code i) = 6 \<and> list_all is_digit (mi_hs12Code i))
      then Inl ''Recent Trade Momentum product must be an HS12 code.''
      else ebind (emap validateObservation (mi_observations i)) (\<lambda>_. Inr ()))"

subsection \<open>The recipe\<close>

text \<open>A \<^verbatim>\<open>Map\<close> built from the observations keeps the last one of a month.\<close>

definition observation_of :: "month_observation list \<Rightarrow> string \<Rightarrow> month_observation option" where
  "observation_of obs m = find (\<lambda>ob. ob_referenceMonth ob = m) (rev obs)"

definition in_state :: "observation_state \<Rightarrow> month_observation option \<Rightarrow> bool" where
  "in_state s ob = (case ob of None \<Rightarrow> False | Some x \<Rightarrow> ob_observationState x = s)"

definition valuesForMonths :: "month_observation list \<Rightarrow> string list \<Rightarrow> string + int list" where
  "valuesForMonths obs months =
     emap (\<lambda>m. case observation_of obs m of
         None \<Rightarrow> Inl ''Comparison window values must be recorded positive.''
       | Some ob \<Rightarrow>
           (case ob_valueEur ob of
              Some v \<Rightarrow> if ob_observationState ob \<noteq> MO_RECORDED_POSITIVE
                then Inl ''Comparison window values must be recorded positive.'' else Inr (big_int v)
            | None \<Rightarrow> Inl ''Comparison window values must be recorded positive.'')) months"

definition exceedsConcentrationCap :: "int list \<Rightarrow> int \<Rightarrow> bool" where
  "exceedsConcentrationCap vs windowTotal = list_ex (\<lambda>v. windowTotal * 80 < v * 100) vs"

definition classifySignal :: "int \<Rightarrow> int \<Rightarrow> signal_state" where
  "classifySignal recentValue baselineValue =
     (if baselineValue * 5 \<le> recentValue * 4 then RISING_FAST
      else if baselineValue * 11 \<le> recentValue * 10 then RISING
      else if recentValue * 4 \<le> baselineValue * 3 then FALLING_FAST
      else if recentValue * 10 \<le> baselineValue * 9 then FALLING
      else BROADLY_STABLE)"

definition formatGrowthPercent :: "int \<Rightarrow> int \<Rightarrow> string" where
  "formatGrowthPercent recentValue baselineValue =
     (let diff = recentValue - baselineValue;
          oneDecimalUnits = (\<bar>diff\<bar> * 1000 * 2 + baselineValue) sdiv (baselineValue * 2)
      in (if diff < 0 then ''-'' else ''+'') @ int_dec (oneDecimalUnits sdiv 10) @ ''.'' @ int_dec (oneDecimalUnits smod 10))"

definition growth_rate :: "int \<Rightarrow> int \<Rightarrow> js_number" where
  "growth_rate recentValue baselineValue =
     js_minus (js_divide (to_number (of_int recentValue)) (to_number (of_int baselineValue))) (Finite 1)"

text \<open>\<^verbatim>\<open>cap\<close> lowers the rank and keeps a reason once.\<close>

definition cap :: "nat \<Rightarrow> confidence_reason \<Rightarrow> nat \<times> confidence_reason list \<Rightarrow> nat \<times> confidence_reason list" where
  "cap rank reason = (\<lambda>(k, reasons). (min k rank, if reason \<in> set reasons then reasons else reasons @ [reason]))"

definition computeConfidence ::
  "nat \<Rightarrow> month_observation list \<Rightarrow> month_observation list \<Rightarrow> js_number \<Rightarrow> confidence_level \<times> confidence_reason list" where
  "computeConfidence recordedHistoryMonths comparisonObservations historyObservations revisionRate =
     (let a = (if 20 \<le> recordedHistoryMonths \<and> recordedHistoryMonths \<le> 23 then cap 2 RECORDED_HISTORY_20_TO_23 (3, [])
               else if 18 \<le> recordedHistoryMonths \<and> recordedHistoryMonths \<le> 19
               then cap 1 RECORDED_HISTORY_18_TO_19 (3, []) else (3, []));
          b = (if list_ex (\<lambda>ob. ob_updateState ob = PRELIMINARY) comparisonObservations
               then cap 2 PRELIMINARY_COMPARISON_MONTH a else a);
          c = (if list_ex (\<lambda>ob. ob_mappingChain ob = MULTI_STEP_EXACT) historyObservations
               then cap 2 MULTI_STEP_EXACT_CORRESPONDENCE b else b);
          d = (if js_ge revisionRate (to_number (5 / 100)) then cap 1 MATERIAL_SOURCE_REVISION c else c)
      in (if fst d = 3 then HIGH else if fst d = 2 then MEDIUM else LOW, snd d))"

definition noSignal ::
  "momentum_input \<Rightarrow> string list \<Rightarrow> string list \<Rightarrow> coverage_state \<Rightarrow> momentum_reason \<Rightarrow> nat \<Rightarrow> (int \<times> int) option \<Rightarrow>
   momentum_outcome" where
  "noSignal i recentMonths baselineMonths coverage reason recorded vals =
     \<lparr>mo_monthlyPackageId = mi_monthlyPackageId i, mo_sourceVintageId = mi_sourceVintageId i,
      mo_reporterIso2 = mi_reporterIso2 i, mo_hs12Code = mi_hs12Code i, mo_cutoffMonth = mi_cutoffMonth i,
      mo_recentMonths = recentMonths, mo_baselineMonths = baselineMonths, mo_coverageState = coverage,
      mo_signalState = None, mo_reasonCodes = [reason],
      mo_recentValueEur = map_option (\<lambda>v. int_dec (fst v)) vals,
      mo_baselineValueEur = map_option (\<lambda>v. int_dec (snd v)) vals,
      mo_growthRateDecimal = None, mo_growthPercentDisplay = None, mo_confidence = None,
      mo_confidenceReasons = [], mo_recordedHistoryMonths = recorded\<rparr>"

definition momentum_signal ::
  "momentum_input \<Rightarrow> string list \<Rightarrow> string list \<Rightarrow> month_observation option list \<Rightarrow> month_observation option list \<Rightarrow>
   nat \<Rightarrow> int \<Rightarrow> int \<Rightarrow> momentum_outcome" where
  "momentum_signal i recentMonths baselineMonths comparison history recorded recentValue baselineValue =
     (let conf = computeConfidence recorded (map the (filter (\<lambda>x. x \<noteq> None) comparison))
                   (map the (filter (\<lambda>x. x \<noteq> None) history)) (mi_revisionComparisonWindowChangeRate i)
      in \<lparr>mo_monthlyPackageId = mi_monthlyPackageId i, mo_sourceVintageId = mi_sourceVintageId i,
          mo_reporterIso2 = mi_reporterIso2 i, mo_hs12Code = mi_hs12Code i, mo_cutoffMonth = mi_cutoffMonth i,
          mo_recentMonths = recentMonths, mo_baselineMonths = baselineMonths, mo_coverageState = MC_SUPPORTED,
          mo_signalState = Some (classifySignal recentValue baselineValue), mo_reasonCodes = [],
          mo_recentValueEur = Some (int_dec recentValue), mo_baselineValueEur = Some (int_dec baselineValue),
          mo_growthRateDecimal = Some (to_fixed 12 (growth_rate recentValue baselineValue)),
          mo_growthPercentDisplay = Some (formatGrowthPercent recentValue baselineValue),
          mo_confidence = Some (fst conf), mo_confidenceReasons = snd conf, mo_recordedHistoryMonths = recorded\<rparr>)"

definition computeRecentTradeMomentumV1 :: "momentum_input \<Rightarrow> string + momentum_outcome" where
  "computeRecentTradeMomentumV1 i =
     ebind (validateInput i) (\<lambda>_.
     ebind (previousMonths (mi_cutoffMonth i) 2 0) (\<lambda>recentMonths.
     ebind (previousMonths (mi_cutoffMonth i) 14 12) (\<lambda>baselineMonths.
     ebind (previousMonths (mi_cutoffMonth i) 23 0) (\<lambda>historyMonths.
     let history = map (observation_of (mi_observations i)) historyMonths;
         recorded = length (filter (in_state MO_RECORDED_POSITIVE) history);
         comparison = map (observation_of (mi_observations i)) (baselineMonths @ recentMonths);
         refuse = (\<lambda>c r. Inr (noSignal i recentMonths baselineMonths c r recorded None))
     in if mi_marketStatus i = MARKET_UNSUPPORTED then refuse MC_UNSUPPORTED_MARKET MR_UNSUPPORTED_MARKET
        else if mi_marketStatus i = MARKET_SOURCE_UNAVAILABLE then refuse MC_SOURCE_UNAVAILABLE MR_SOURCE_UNAVAILABLE
        else if mi_productMappingStatus i \<noteq> EXACT_REVIEWED
        then refuse MC_UNSUPPORTED_PRODUCT_MAPPING MR_UNSUPPORTED_PRODUCT_MAPPING
        else if \<not> list_all (\<lambda>m. m \<in> set (mi_eligibleCompleteMonths i)) historyMonths
        then refuse MC_SUPPORTED_NO_SIGNAL INSUFFICIENT_COMPLETE_HISTORY
        else if list_ex (in_state MO_SUPPRESSED_OR_REALLOCATED) comparison
          \<or> list_ex (in_state MO_SUPPRESSED_OR_REALLOCATED) history
        then refuse MC_SUPPORTED_NO_SIGNAL MR_SUPPRESSED_OR_REALLOCATED
        else if list_ex (\<lambda>ob. ob = None \<or> in_state MO_NOT_OBSERVED ob) comparison
        then refuse MC_SUPPORTED_NO_SIGNAL MISSING_COMPARISON_MONTH
        else if list_ex (\<lambda>ob. \<not> in_state MO_RECORDED_POSITIVE ob) comparison
        then refuse MC_SUPPORTED_NO_SIGNAL INSUFFICIENT_RECORDED_MONTHS
        else if recorded < MINIMUM_RECORDED_HISTORY_MONTHS
        then refuse MC_SUPPORTED_NO_SIGNAL INSUFFICIENT_RECORDED_MONTHS
        else
          ebind (valuesForMonths (mi_observations i) baselineMonths) (\<lambda>baselineValues.
          ebind (valuesForMonths (mi_observations i) recentMonths) (\<lambda>recentValues.
          let baselineValue = sum_list baselineValues; recentValue = sum_list recentValues;
              weak = (\<lambda>r. Inr (noSignal i recentMonths baselineMonths MC_SUPPORTED_NO_SIGNAL r recorded
                (Some (recentValue, baselineValue))))
          in if baselineValue < MINIMUM_WINDOW_VALUE_EUR \<or> recentValue < MINIMUM_WINDOW_VALUE_EUR then weak SMALL_BASE
             else if exceedsConcentrationCap baselineValues baselineValue \<or> exceedsConcentrationCap recentValues recentValue
             then weak WINDOW_CONCENTRATION
             else Inr (momentum_signal i recentMonths baselineMonths comparison history recorded recentValue baselineValue)))))))"


subsection \<open>Calendar months\<close>

definition calendar_month :: "string \<Rightarrow> bool" where
  "calendar_month m \<longleftrightarrow> is_month_text m \<and> 1000 \<le> undec (take 4 m) \<and> 1 \<le> undec (drop 5 m) \<and> undec (drop 5 m) \<le> 12"

lemma dec_four: "1000 \<le> n \<Longrightarrow> n < 10000 \<Longrightarrow> length (dec n) = 4"
proof -
  assume n: "1000 \<le> n" "n < 10000"
  have "length (dec n) \<le> 4" using dec_length_bound [of n 3] n by simp
  moreover have "\<not> length (dec n) \<le> 3"
  proof
    assume "length (dec n) \<le> 3"
    then have "(10 :: nat) ^ length (dec n) \<le> 10 ^ 3" by (intro power_increasing) simp_all
    moreover have "n < 10 ^ length (dec n)" using undec_less [of "dec n"] dec_digits by (auto simp: list_all_iff)
    ultimately show False using n by simp
  qed
  ultimately show ?thesis by simp
qed

lemma month_text:
  assumes "12000 \<le> n" "n < 120000"
  shows "calendar_month (month_text n)" "month_number (month_text n) = n"
proof -
  let ?y = "nat (n div 12)" and ?m = "nat (n mod 12 + 1)"
  have y: "1000 \<le> ?y" "?y < 10000" and m: "1 \<le> ?m" "?m \<le> 12" using assms by linarith+
  have t: "month_text n = dec ?y @ ''-'' @ pad_start 2 (dec ?m)"
  proof -
    have "\<not> n mod 12 + 1 < 0" "\<not> n div 12 < 0" using assms by presburger+
    then show ?thesis using assms by (simp add: month_text_def int_dec_def smod_nonneg)
  qed
  have m2: "length (dec ?m) \<le> 2" using dec_length_bound [of ?m 1] m by simp
  have parts: "take 4 (month_text n) = dec ?y" "drop 5 (month_text n) = pad_start 2 (dec ?m)"
    "month_text n ! 4 = CHR ''-''" "length (month_text n) = 7"
    using dec_four [OF y] m2 by (simp_all add: t nth_append length_pad_start)
  have d: "list_all is_digit (dec ?y)" "list_all is_digit (pad_start 2 (dec ?m))"
    using dec_digits pad_start_digits [of "dec ?m"] by (auto simp: list_all_iff)
  have u: "undec (take 4 (month_text n)) = ?y" "undec (drop 5 (month_text n)) = ?m"
    using parts undec_dec undec_pad_start by simp_all
  show "calendar_month (month_text n)" using parts d u y m by (simp add: calendar_month_def is_month_text_def)
  have "int ?y * 12 + (int ?m - 1) = n" using assms by simp
  then show "month_number (month_text n) = n" by (simp add: month_number_def u)
qed

lemma digits_inject:
  assumes "length s = length t" "list_all is_digit s" "list_all is_digit t" "undec s = undec t"
  shows "s = t"
  using assms digits_less_iff [of s t] digits_less_iff [of t s]
  by (metis less_irrefl linorder_neqE list_all_iff)

lemma is_month_text_parts:
  assumes "is_month_text m"
  shows "m = take 4 m @ CHR ''-'' # drop 5 m" "length (take 4 m) = 4" "length (drop 5 m) = 2"
  using assms id_take_nth_drop [of 4 m] by (simp_all add: is_month_text_def)

lemma calendar_month_bounds:
  assumes "calendar_month m"
  shows "12000 \<le> month_number m" "month_number m < 120000"
    "undec (take 4 m) = nat (month_number m div 12)" "undec (drop 5 m) = nat (month_number m mod 12 + 1)"
proof -
  have "undec (take 4 m) < 10 ^ length (take 4 m)"
    using assms by (intro undec_less) (auto simp: calendar_month_def is_month_text_def list_all_iff)
  then have y: "undec (take 4 m) < 10000" using assms is_month_text_parts(2) by (simp add: calendar_month_def)
  then show "12000 \<le> month_number m" "month_number m < 120000"
    "undec (take 4 m) = nat (month_number m div 12)" "undec (drop 5 m) = nat (month_number m mod 12 + 1)"
    using assms by (auto simp: calendar_month_def month_number_def)
qed

lemma calendar_month_text:
  assumes "calendar_month m"
  shows "month_text (month_number m) = m"
proof -
  let ?t = "month_text (month_number m)"
  note b = calendar_month_bounds [OF assms]
  note t = month_text [OF b(1,2)]
  note tb = calendar_month_bounds [OF t(1)]
  have dig: "is_month_text ?t" "is_month_text m" using t(1) assms by (simp_all add: calendar_month_def)
  have "take 4 ?t = take 4 m"
    by (rule digits_inject) (use dig b(3) tb(3) t(2) in \<open>simp_all add: is_month_text_def\<close>)
  moreover have "drop 5 ?t = drop 5 m"
    by (rule digits_inject) (use dig b(4) tb(4) t(2) in \<open>simp_all add: is_month_text_def\<close>)
  ultimately show ?thesis using is_month_text_parts(1) [OF dig(1)] is_month_text_parts(1) [OF dig(2)] by metis
qed

text \<open>Moving a calendar month by any number of months that stays within the years 1000 to 9999 gives the
  text of the calendar month that many months away, moving it back gives the month again.\<close>

lemma months_move_exactly:
  assumes "calendar_month m" "12000 \<le> month_number m + d" "month_number m + d < 120000"
  shows "\<exists>m'. addMonths m d = Inr m' \<and> calendar_month m' \<and> month_number m' = month_number m + d
    \<and> addMonths m' (- d) = Inr m"
proof -
  note t = month_text [OF assms(2,3)]
  have "addMonths m d = Inr (month_text (month_number m + d))"
    using assms(1) by (simp add: addMonths_def calendar_month_def)
  moreover have "addMonths (month_text (month_number m + d)) (- d) = Inr m"
    using t calendar_month_text [OF assms(1)] by (simp add: addMonths_def calendar_month_def)
  ultimately show ?thesis using t by blast
qed

lemma months_move_exactly_witness: "addMonths ''2024-01'' (- 14) = Inr ''2022-11'' \<and> addMonths ''2022-11'' 14 = Inr ''2024-01''"
proof -
  have c: "calendar_month ''2024-01''" "month_number ''2024-01'' = 24288"
    by (simp_all add: calendar_month_def is_month_text_def month_number_def undec_Cons digit_vals is_digits)
  have "dec 2022 = ''2022''" "dec 11 = ''11''" by (simp_all add: dec_numeral dec_one digit_chars)
  then have a: "addMonths ''2024-01'' (- 14) = Inr ''2022-11''"
    using c by (simp add: addMonths_def calendar_month_def month_text_def int_dec_def smod_nonneg pad_start_def)
  with months_move_exactly [OF c(1), of "- 14"] c(2) show ?thesis by auto
qed


subsection \<open>When there is a signal\<close>

text \<open>The specification: \<^theory_text>\<open>month_back i k\<close> is the observation \<^theory_text>\<open>k\<close> months before the cutoff, \<^theory_text>\<open>amount i k\<close> its
  recorded amount, and \<^theory_text>\<open>recent_sum\<close> and \<^theory_text>\<open>baseline_sum\<close> add up the two windows.\<close>

definition month_back :: "momentum_input \<Rightarrow> int \<Rightarrow> month_observation option" where
  "month_back i k = observation_of (mi_observations i) (month_text (month_number (mi_cutoffMonth i) - k))"

definition recorded_at :: "momentum_input \<Rightarrow> int \<Rightarrow> bool" where
  "recorded_at i k = in_state MO_RECORDED_POSITIVE (month_back i k)"

definition amount :: "momentum_input \<Rightarrow> int \<Rightarrow> int" where
  "amount i k = (case month_back i k of None \<Rightarrow> 0
     | Some ob \<Rightarrow> (case ob_valueEur ob of None \<Rightarrow> 0 | Some v \<Rightarrow> big_int v))"

definition recent_sum :: "momentum_input \<Rightarrow> int" where
  "recent_sum i = amount i 0 + amount i 1 + amount i 2"

definition baseline_sum :: "momentum_input \<Rightarrow> int" where
  "baseline_sum i = amount i 12 + amount i 13 + amount i 14"

definition comparable :: "momentum_input \<Rightarrow> bool" where
  "comparable i \<longleftrightarrow> mi_marketStatus i = MARKET_SUPPORTED \<and> mi_productMappingStatus i = EXACT_REVIEWED
     \<and> (\<forall>k \<in> {0..23}. month_text (month_number (mi_cutoffMonth i) - k) \<in> set (mi_eligibleCompleteMonths i)
          \<and> \<not> in_state MO_SUPPRESSED_OR_REALLOCATED (month_back i k))
     \<and> (\<forall>k \<in> {0, 1, 2, 12, 13, 14}. recorded_at i k)
     \<and> 18 \<le> card {k \<in> {0..23}. recorded_at i k}
     \<and> 250000 \<le> recent_sum i \<and> 250000 \<le> baseline_sum i
     \<and> (\<forall>k \<in> {0, 1, 2}. 5 * amount i k \<le> 4 * recent_sum i)
     \<and> (\<forall>k \<in> {12, 13, 14}. 5 * amount i k \<le> 4 * baseline_sum i)"

definition exact_growth :: "momentum_input \<Rightarrow> rat" where
  "exact_growth i = of_int (recent_sum i) / of_int (baseline_sum i) - 1"

lemma previousMonths_Inr:
  assumes "is_month_text c"
  shows "previousMonths c s e = Inr (map (\<lambda>k. month_text (month_number c - k)) (rev [e..s]))"
  using assms by (simp add: previousMonths_def emap_Inr_iff addMonths_def list_all2_conv_all_nth)

lemma upto_windows: "[0..2] = [0, 1, 2 :: int]" "[12..14] = [12, 13, 14 :: int]"
  by code_simp+

lemma valuesForMonths_Inr:
  assumes "valuesForMonths obs ms = Inr vs"
  shows "vs = map (\<lambda>m. case observation_of obs m of None \<Rightarrow> 0
     | Some ob \<Rightarrow> (case ob_valueEur ob of None \<Rightarrow> 0 | Some v \<Rightarrow> big_int v)) ms"
  using assms unfolding valuesForMonths_def emap_Inr_iff
  by (induction rule: list_all2_induct) (auto split: option.splits if_splits)

lemma length_filter_rev_upto: "length (filter P (rev [a..b])) = card {k \<in> {a..b}. P k}"
proof -
  have "length (filter P [a..b]) = card (set (filter P [a..b]))"
    by (rule distinct_card [symmetric]) simp
  moreover have "set (filter P [a..b]) = {k \<in> {a..b}. P k}" by auto
  ultimately show ?thesis by (simp only: rev_filter [symmetric] length_rev)
qed

lemma if_rest: "(if c then Inr a else b) = Inr z \<Longrightarrow> (b = Inr z \<Longrightarrow> b' = z) \<Longrightarrow> (if c then a else b') = z"
  by (cases c) simp_all

lemma if_cases: "(c \<Longrightarrow> P a) \<Longrightarrow> (\<not> c \<Longrightarrow> P b) \<Longrightarrow> P (if c then a else b)"
  by simp

text \<open>The recipe over the months counted back from the cutoff.\<close>

definition recipe_by_months :: "momentum_input \<Rightarrow> string list \<Rightarrow> string list \<Rightarrow> month_observation option list \<Rightarrow>
    month_observation option list \<Rightarrow> nat \<Rightarrow> momentum_outcome" where
  "recipe_by_months i rm bm hist cmp recorded =
     (if mi_marketStatus i = MARKET_UNSUPPORTED
      then noSignal i rm bm MC_UNSUPPORTED_MARKET MR_UNSUPPORTED_MARKET recorded None
      else if mi_marketStatus i = MARKET_SOURCE_UNAVAILABLE
      then noSignal i rm bm MC_SOURCE_UNAVAILABLE MR_SOURCE_UNAVAILABLE recorded None
      else if mi_productMappingStatus i \<noteq> EXACT_REVIEWED
      then noSignal i rm bm MC_UNSUPPORTED_PRODUCT_MAPPING MR_UNSUPPORTED_PRODUCT_MAPPING recorded None
      else if \<not> (\<forall>k \<in> {0..23}. month_text (month_number (mi_cutoffMonth i) - k) \<in> set (mi_eligibleCompleteMonths i))
      then noSignal i rm bm MC_SUPPORTED_NO_SIGNAL INSUFFICIENT_COMPLETE_HISTORY recorded None
      else if \<exists>k \<in> {0..23}. in_state MO_SUPPRESSED_OR_REALLOCATED (month_back i k)
      then noSignal i rm bm MC_SUPPORTED_NO_SIGNAL MR_SUPPRESSED_OR_REALLOCATED recorded None
      else if \<exists>k \<in> {0, 1, 2, 12, 13, 14}. month_back i k = None \<or> in_state MO_NOT_OBSERVED (month_back i k)
      then noSignal i rm bm MC_SUPPORTED_NO_SIGNAL MISSING_COMPARISON_MONTH recorded None
      else if \<not> (\<forall>k \<in> {0, 1, 2, 12, 13, 14}. recorded_at i k)
      then noSignal i rm bm MC_SUPPORTED_NO_SIGNAL INSUFFICIENT_RECORDED_MONTHS recorded None
      else if recorded < 18
      then noSignal i rm bm MC_SUPPORTED_NO_SIGNAL INSUFFICIENT_RECORDED_MONTHS recorded None
      else if baseline_sum i < 250000 \<or> recent_sum i < 250000
      then noSignal i rm bm MC_SUPPORTED_NO_SIGNAL SMALL_BASE recorded (Some (recent_sum i, baseline_sum i))
      else if (\<exists>k \<in> {12, 13, 14}. baseline_sum i * 80 < amount i k * 100)
        \<or> (\<exists>k \<in> {0, 1, 2}. recent_sum i * 80 < amount i k * 100)
      then noSignal i rm bm MC_SUPPORTED_NO_SIGNAL WINDOW_CONCENTRATION recorded (Some (recent_sum i, baseline_sum i))
      else momentum_signal i rm bm cmp hist recorded (recent_sum i) (baseline_sum i))"

lemma compute_months:
  assumes "computeRecentTradeMomentumV1 i = Inr out"
  obtains rm bm hist cmp where "out = recipe_by_months i rm bm hist cmp (card {k \<in> {0..23}. recorded_at i k})"
proof -
  let ?c = "mi_cutoffMonth i" and ?obs = "mi_observations i"
  let ?t = "\<lambda>k. month_text (month_number ?c - k)"
  have c: "is_month_text ?c" using assms
    by (auto simp: computeRecentTradeMomentumV1_def previousMonths_def ebind_Inr_iff addMonths_def upto_windows split: if_splits)
  have v: "validateInput i = Inr ()" using assms by (auto simp: computeRecentTradeMomentumV1_def ebind_Inr_iff)
  let ?rm = "map ?t [2, 1, 0]" and ?bm = "map ?t [14, 13, 12]" and ?hm = "map ?t (rev [0..23])"
  have months: "previousMonths ?c 2 0 = Inr ?rm" "previousMonths ?c 14 12 = Inr ?bm" "previousMonths ?c 23 0 = Inr ?hm"
    using previousMonths_Inr [OF c] by (simp_all add: upto_windows)
  define hist where "hist = map (month_back i) (rev [0..23])"
  define cmp where "cmp = map (month_back i) [14, 13, 12, 2, 1, 0]"
  define recorded where "recorded = card {k \<in> {0..23}. recorded_at i k}"
  have h: "map (observation_of ?obs) ?hm = hist" "map (observation_of ?obs) (?bm @ ?rm) = cmp"
    by (simp_all add: hist_def cmp_def month_back_def cmp_def)
  have r: "length (filter (in_state MO_RECORDED_POSITIVE) hist) = recorded"
    unfolding hist_def recorded_def recorded_at_def filter_map length_map
    using length_filter_rev_upto [of "\<lambda>k. in_state MO_RECORDED_POSITIVE (month_back i k)" 0 23] by (simp only: comp_def)
  have amounts: "valuesForMonths ?obs (map ?t ks) = Inr vs \<Longrightarrow> vs = map (amount i) ks" for ks vs
    using valuesForMonths_Inr [of ?obs "map ?t ks" vs] by (simp add: amount_def month_back_def)
  have sup: "list_ex (in_state MO_SUPPRESSED_OR_REALLOCATED) cmp \<or> list_ex (in_state MO_SUPPRESSED_OR_REALLOCATED) hist
      \<longleftrightarrow> (\<exists>k \<in> {0..23}. in_state MO_SUPPRESSED_OR_REALLOCATED (month_back i k))"
    by (auto simp: cmp_def hist_def list_ex_iff)
  have elig: "list_all (\<lambda>m. m \<in> set (mi_eligibleCompleteMonths i)) ?hm
      \<longleftrightarrow> (\<forall>k \<in> {0..23}. ?t k \<in> set (mi_eligibleCompleteMonths i))"
    by (auto simp: list_all_iff)
  have miss: "list_ex (\<lambda>ob. ob = None \<or> in_state MO_NOT_OBSERVED ob) cmp
      \<longleftrightarrow> (\<exists>k \<in> {0, 1, 2, 12, 13, 14}. month_back i k = None \<or> in_state MO_NOT_OBSERVED (month_back i k))"
    "list_ex (\<lambda>ob. \<not> in_state MO_RECORDED_POSITIVE ob) cmp \<longleftrightarrow> \<not> (\<forall>k \<in> {0, 1, 2, 12, 13, 14}. recorded_at i k)"
    by (auto simp: cmp_def recorded_at_def)
  have rest: "ebind (valuesForMonths ?obs ?bm) (\<lambda>bv. ebind (valuesForMonths ?obs ?rm) (\<lambda>rv. f bv rv)) = Inr out \<Longrightarrow>
      f (map (amount i) [14, 13, 12]) (map (amount i) [2, 1, 0]) = Inr out" for f
    using amounts [of "[14, 13, 12]"] amounts [of "[2, 1, 0]"] by (auto simp: ebind_Inr_iff)
  have sums: "sum_list (map (amount i) [14, 13, 12]) = baseline_sum i" "sum_list (map (amount i) [2, 1, 0]) = recent_sum i"
    by (simp_all add: baseline_sum_def recent_sum_def)
  have conc: "exceedsConcentrationCap (map (amount i) [14, 13, 12]) x \<longleftrightarrow> (\<exists>k \<in> {12, 13, 14}. x * 80 < amount i k * 100)"
    "exceedsConcentrationCap (map (amount i) [2, 1, 0]) x \<longleftrightarrow> (\<exists>k \<in> {0, 1, 2}. x * 80 < amount i k * 100)" for x
    by (auto simp: exceedsConcentrationCap_def)
  note run = assms [unfolded computeRecentTradeMomentumV1_def v months ebind.simps Let_def h r elig sup miss
      MINIMUM_RECORDED_HISTORY_MONTHS_def MINIMUM_WINDOW_VALUE_EUR_def]
  have "recipe_by_months i ?rm ?bm hist cmp recorded = out"
    unfolding recipe_by_months_def
    by (insert run, elim if_rest, drule rest, simp only: sums conc, elim if_rest, simp only: sum.inject)
  then show thesis unfolding recorded_def by (intro that) (rule sym)
qed

lemma noSignal_facts:
  "mo_signalState (noSignal i rm bm c r k v) = None" "mo_coverageState (noSignal i rm bm c r k v) = c"
  "mo_growthRateDecimal (noSignal i rm bm c r k v) = None" "mo_growthPercentDisplay (noSignal i rm bm c r k v) = None"
  "mo_confidence (noSignal i rm bm c r k v) = None"
  by (simp_all add: noSignal_def)

lemma signal_facts:
  "mo_signalState (momentum_signal i rm bm c h k r b) = Some (classifySignal r b)"
  "mo_coverageState (momentum_signal i rm bm c h k r b) = MC_SUPPORTED"
  "mo_growthRateDecimal (momentum_signal i rm bm c h k r b) = Some (to_fixed 12 (growth_rate r b))"
  "mo_growthPercentDisplay (momentum_signal i rm bm c h k r b) = Some (formatGrowthPercent r b)"
  by (simp_all add: momentum_signal_def Let_def)

lemma comparable_guards:
  "comparable i \<longleftrightarrow> \<not> mi_marketStatus i = MARKET_UNSUPPORTED \<and> \<not> mi_marketStatus i = MARKET_SOURCE_UNAVAILABLE
    \<and> \<not> mi_productMappingStatus i \<noteq> EXACT_REVIEWED
    \<and> \<not> \<not> (\<forall>k \<in> {0..23}. month_text (month_number (mi_cutoffMonth i) - k) \<in> set (mi_eligibleCompleteMonths i))
    \<and> \<not> (\<exists>k \<in> {0..23}. in_state MO_SUPPRESSED_OR_REALLOCATED (month_back i k))
    \<and> \<not> (\<exists>k \<in> {0, 1, 2, 12, 13, 14}. month_back i k = None \<or> in_state MO_NOT_OBSERVED (month_back i k))
    \<and> \<not> \<not> (\<forall>k \<in> {0, 1, 2, 12, 13, 14}. recorded_at i k) \<and> \<not> card {k \<in> {0..23}. recorded_at i k} < 18
    \<and> \<not> (baseline_sum i < 250000 \<or> recent_sum i < 250000)
    \<and> \<not> ((\<exists>k \<in> {12, 13, 14}. baseline_sum i * 80 < amount i k * 100)
        \<or> (\<exists>k \<in> {0, 1, 2}. recent_sum i * 80 < amount i k * 100))"
proof -
  have "\<not> recorded_at i k" if "month_back i k = None \<or> in_state MO_NOT_OBSERVED (month_back i k)" for k
    using that by (auto simp: recorded_at_def in_state_def split: option.splits)
  then have missing: "\<not> (\<forall>k \<in> K. recorded_at i k)"
    if "\<exists>k \<in> K. month_back i k = None \<or> in_state MO_NOT_OBSERVED (month_back i k)" for K
    using that by blast
  have market: "mi_marketStatus i = MARKET_SUPPORTED \<longleftrightarrow>
      \<not> mi_marketStatus i = MARKET_UNSUPPORTED \<and> \<not> mi_marketStatus i = MARKET_SOURCE_UNAVAILABLE"
    by (cases "mi_marketStatus i") simp_all
  have conc: "(\<forall>k \<in> K. 5 * amount i k \<le> 4 * x) \<longleftrightarrow> \<not> (\<exists>k \<in> K. x * 80 < amount i k * 100)" for K x
    by (auto simp: not_less)
  have le: "(18 :: nat) \<le> n \<longleftrightarrow> \<not> n < 18" "(250000 :: int) \<le> z \<longleftrightarrow> \<not> z < 250000" for n z by auto
  show ?thesis unfolding comparable_def market conc le using missing [of "{0, 1, 2, 12, 13, 14}"] by blast
qed

lemma compute_cases:
  assumes "computeRecentTradeMomentumV1 i = Inr out"
  shows "(\<not> comparable i \<and> (\<exists>rm bm c r k v. out = noSignal i rm bm c r k v \<and> c \<noteq> MC_SUPPORTED))
    \<or> (comparable i \<and> (\<exists>rm bm cmp hist k. out = momentum_signal i rm bm cmp hist k (recent_sum i) (baseline_sum i)))"
    (is "?P out")
proof -
  obtain rm bm hist cmp where out: "out = recipe_by_months i rm bm hist cmp (card {k \<in> {0..23}. recorded_at i k})"
    by (rule compute_months [OF assms])
  show ?thesis
  proof (cases "comparable i")
    case True
    from iffD1 [OF comparable_guards True]
    have "out = momentum_signal i rm bm cmp hist (card {k \<in> {0..23}. recorded_at i k}) (recent_sum i) (baseline_sum i)"
      unfolding out recipe_by_months_def by (elim conjE) (simp only: if_False not_False_eq_True)
    with True show ?thesis by blast
  next
    case False
    have weak: "?P (noSignal i rm bm c r k v)" if "c \<noteq> MC_SUPPORTED" for c r k v
      using that False by blast
    show ?thesis unfolding out recipe_by_months_def
      by (intro if_cases [where P = ?P] weak) (use False comparable_guards [of i] in \<open>simp; fail | blast\<close>)+
  qed
qed

text \<open>C5: a momentum result is a signal exactly when the market is supported, the mapping exact, all 24 months
  are complete and none is suppressed, the six compared months are recorded among at least 18 recorded
  ones, both windows reach 250,000 EUR and no month makes up more than 80 percent of its window; the
  signal is the class of the exact growth rate, and without one no rate and no confidence is reported.\<close>

theorem momentum_signal_exact:
  assumes "computeRecentTradeMomentumV1 i = Inr out"
  shows "(mo_signalState out \<noteq> None \<longleftrightarrow> comparable i) \<and> (mo_coverageState out = MC_SUPPORTED \<longleftrightarrow> comparable i)
    \<and> (\<not> comparable i \<longrightarrow> mo_growthRateDecimal out = None \<and> mo_confidence out = None)
    \<and> (comparable i \<longrightarrow> mo_signalState out = Some
         (if 1 / 4 \<le> exact_growth i then RISING_FAST else if 1 / 10 \<le> exact_growth i then RISING
          else if exact_growth i \<le> - 1 / 4 then FALLING_FAST else if exact_growth i \<le> - 1 / 10 then FALLING
          else BROADLY_STABLE))"
proof (cases "comparable i")
  case True
  then obtain rm bm cmp hist k where
    out: "out = momentum_signal i rm bm cmp hist k (recent_sum i) (baseline_sum i)"
    using compute_cases [OF assms] by blast
  define r b where "r = (of_int (recent_sum i) :: rat)" and "b = (of_int (baseline_sum i) :: rat)"
  have b: "0 < b" using True by (simp add: comparable_def b_def)
  have scale: "p / q \<le> r / b - 1 \<longleftrightarrow> b * (p + q) \<le> r * q" "r / b - 1 \<le> p / q \<longleftrightarrow> r * q \<le> b * (p + q)"
    if "0 < q" for p q :: rat
    using b that by (auto simp: field_simps)
  have int: "of_int m * b \<le> of_int n * r \<longleftrightarrow> m * baseline_sum i \<le> n * recent_sum i"
    "of_int n * r \<le> of_int m * b \<longleftrightarrow> n * recent_sum i \<le> m * baseline_sum i" for m n
    unfolding r_def b_def of_int_mult [symmetric] of_int_le_iff by simp_all
  have "mo_signalState out = Some (classifySignal (recent_sum i) (baseline_sum i))" by (simp add: out signal_facts)
  also have "classifySignal (recent_sum i) (baseline_sum i) =
      (if 1 / 4 \<le> exact_growth i then RISING_FAST else if 1 / 10 \<le> exact_growth i then RISING
       else if exact_growth i \<le> - 1 / 4 then FALLING_FAST else if exact_growth i \<le> - 1 / 10 then FALLING
       else BROADLY_STABLE)"
    using scale [of 4 1] scale [of 10 1] scale [of 4 "- 1"] scale [of 10 "- 1"] int(1) [of 5 4] int(1) [of 11 10] int(2) [of 4 3] int(2) [of 10 9]
    by (simp add: classifySignal_def exact_growth_def r_def [symmetric] b_def [symmetric] mult.commute)
  finally show ?thesis using True by (simp add: out signal_facts)
next
  case False
  with compute_cases [OF assms] obtain rm bm c r k v where "out = noSignal i rm bm c r k v" "c \<noteq> MC_SUPPORTED" by blast
  with False show ?thesis by (simp add: noSignal_facts)
qed

subsection \<open>How exact the printed rate is\<close>

lemma quotient_close:
  fixes r b :: rat
  assumes "0 < b" "0 \<le> r" "\<bar>R - r\<bar> \<le> r * u" "\<bar>B - b\<bar> \<le> b * u" "0 \<le> u" "u \<le> 1 / 8"
  shows "0 < B" "\<bar>R / B - r / b\<bar> \<le> r / b * (3 * u)"
proof -
  have bu: "b * u \<le> b * (1 / 8)" using assms by (intro mult_left_mono) simp_all
  then show B: "0 < B" using assms by linarith
  have "R * b - r * B = (R - r) * b - r * (B - b)" by (simp add: algebra_simps)
  then have "\<bar>R * b - r * B\<bar> \<le> \<bar>R - r\<bar> * b + r * \<bar>B - b\<bar>"
    using abs_triangle_ineq4 [of "(R - r) * b" "r * (B - b)"] assms by (simp add: abs_mult)
  also have "\<dots> \<le> r * u * b + r * (b * u)" using assms by (intro add_mono mult_mono) simp_all
  finally have n: "\<bar>R * b - r * B\<bar> \<le> 2 * (r * u * b)" by (simp add: mult_ac)
  have "R / B - r / b = (R * b - r * B) / (B * b)" using B assms by (simp add: field_simps)
  then have "\<bar>R / B - r / b\<bar> = \<bar>R * b - r * B\<bar> / (B * b)" using B assms by (simp add: abs_mult)
  also have "\<dots> \<le> 2 * (r * u * b) / (B * b)" using n B assms by (intro divide_right_mono) simp_all
  also have "\<dots> = 2 * (r * u) / B" using assms by simp
  also have "\<dots> \<le> 2 * (r * u) / (b * (7 / 8))"
  proof (rule divide_left_mono)
    show "b * (7 / 8) \<le> B" using bu assms(4) by linarith
  qed (use B assms in simp_all)
  also have "\<dots> = r / b * (16 / 7 * u)" using assms by (simp add: field_simps)
  also have "\<dots> \<le> r / b * (3 * u)" using assms by (intro mult_left_mono) simp_all
  finally show "\<bar>R / B - r / b\<bar> \<le> r / b * (3 * u)" .
qed

text \<open>The rate as the recipe computes it, for windows of a sum of safe integers.\<close>

lemma int_close:
  assumes "0 \<le> n" "n \<le> 2 ^ 60"
  obtains y where "to_number (of_int n) = Finite y" "\<bar>y - of_int n\<bar> \<le> of_int n * (1 / 2 ^ 52)"
proof (cases "n = 0")
  case True
  then show thesis by (intro that [of 0]) (simp_all add: to_number_def nearest_double_def not_le)
next
  case False
  let ?x = "of_int n :: rat"
  have x: "1 \<le> ?x" using False assms(1) by simp
  have "?x \<le> of_int (2 ^ 60)" using assms(2) of_int_le_iff by blast
  then have "\<bar>?x\<bar> \<le> 2 ^ 1000" using x power_increasing [of 60 1000 "2 :: rat"] by simp
  from to_number_close [OF this] obtain y where
    y: "to_number ?x = Finite y" "\<bar>y - ?x\<bar> \<le> \<bar>?x\<bar> / 2 ^ 53 + pow2 (- 1075)" by blast
  have "pow2 (- 1075) \<le> pow2 (- 53)" by (simp only: pow2_le_iff)
  also have "\<dots> = 1 / 2 ^ 53" by (simp add: pow2_def)
  also have "\<dots> \<le> ?x / 2 ^ 53" using x by (rule divide_right_mono) simp
  finally have "\<bar>y - ?x\<bar> \<le> ?x / 2 ^ 53 + ?x / 2 ^ 53" using y(2) x by simp
  then show thesis using y(1) by (intro that) simp_all
qed

lemma growth_rate_close:
  assumes "1 \<le> b" "0 \<le> r" "r \<le> 2 ^ 60" "b \<le> 2 ^ 60"
  obtains x where "growth_rate r b = Finite x"
    "\<bar>x - (of_int r / of_int b - 1)\<bar> \<le> (of_int r / of_int b + 1) / 2 ^ 49"
proof -
  define t :: rat where "t = of_int r / of_int b"
  define e where "e = pow2 (- 1075)"
  have e: "0 \<le> e" "e \<le> 1 / 2 ^ 53"
    using pow2_le_iff [of "- 1075" "- 53"] by (simp_all add: e_def pow2_def [of "- 53"])
  have big: "(2 :: rat) ^ 63 \<le> 2 ^ 1000" by (intro power_increasing) simp_all
  obtain R where R: "to_number (of_int r) = Finite R" "\<bar>R - of_int r\<bar> \<le> of_int r * (1 / 2 ^ 52)"
    by (rule int_close [OF assms(2,3)])
  obtain B where B: "to_number (of_int b) = Finite B" "\<bar>B - of_int b\<bar> \<le> of_int b * (1 / 2 ^ 52)"
    using int_close [of b] assms by auto
  have q: "0 < B" "\<bar>R / B - t\<bar> \<le> t * (3 * (1 / 2 ^ 52))"
    using quotient_close [of "of_int b" "of_int r" R "1 / 2 ^ 52" B] assms R(2) B(2) by (simp_all add: t_def)
  have "t \<le> of_int r / 1" unfolding t_def using assms by (intro divide_left_mono) simp_all
  moreover have "(of_int r :: rat) \<le> of_int (2 ^ 60)" using assms(3) of_int_le_iff by blast
  ultimately have t: "0 \<le> t" "t \<le> 2 ^ 60" using assms by (simp_all add: t_def)
  have tu: "t * (3 * (1 / 2 ^ 52)) \<le> t / 100" using t by simp
  have RB: "\<bar>R / B\<bar> \<le> 2 * t" using q(2) tu t by linarith
  then have "\<bar>R / B\<bar> \<le> 2 ^ 63" using t by simp
  then have "\<bar>R / B\<bar> \<le> 2 ^ 1000" using big by (rule order_trans)
  from to_number_close [OF this] obtain Q where
    Q: "to_number (R / B) = Finite Q" "\<bar>Q - R / B\<bar> \<le> \<bar>R / B\<bar> / 2 ^ 53 + e" unfolding e_def by blast
  have Qd: "\<bar>Q - R / B\<bar> \<le> 2 * t / 2 ^ 53 + e" using Q(2) divide_right_mono [OF RB, of "2 ^ 53"] by simp
  have Qb: "\<bar>Q - 1\<bar> \<le> 4 * t + 2"
  proof -
    have "2 * t / 2 ^ 53 \<le> t" using t by simp
    with Qd RB e have "\<bar>Q\<bar> \<le> 2 * t + t + 1 / 2 ^ 53" by linarith
    then show ?thesis using t by simp
  qed
  then have "\<bar>Q - 1\<bar> \<le> 2 ^ 63" using t by simp
  then have "\<bar>Q - 1\<bar> \<le> 2 ^ 1000" using big by (rule order_trans)
  from to_number_close [OF this] obtain x where
    x: "to_number (Q - 1) = Finite x" "\<bar>x - (Q - 1)\<bar> \<le> \<bar>Q - 1\<bar> / 2 ^ 53 + e" unfolding e_def by blast
  have "\<bar>Q - 1\<bar> / 2 ^ 53 \<le> (4 * t + 2) / 2 ^ 53" by (rule divide_right_mono [OF Qb]) simp
  with x(2) have xd: "\<bar>x - (Q - 1)\<bar> \<le> (4 * t + 2) / 2 ^ 53 + e" by linarith
  have "growth_rate r b = Finite x" using R(1) B(1) Q(1) x(1) q(1) by (simp add: growth_rate_def)
  moreover have "\<bar>x - (t - 1)\<bar> \<le> (t + 1) / 2 ^ 49"
  proof -
    have "\<bar>x - (t - 1)\<bar> \<le> (4 * t + 2) / 2 ^ 53 + e + (2 * t / 2 ^ 53 + e) + t * (3 * (1 / 2 ^ 52))"
      using xd Qd q(2) by linarith
    also have "\<dots> \<le> (16 * t + 16) / 2 ^ 53" using e t by (simp add: field_simps)
    finally show ?thesis by (simp add: field_simps)
  qed
  ultimately show thesis using that by (simp add: t_def)
qed

lemma safe_amount:
  assumes "validateInput i = Inr ()"
  shows "0 \<le> amount i k" "amount i k \<le> 2 ^ 53"
proof -
  have v: "\<forall>ob \<in> set (mi_observations i). validateObservation ob = Inr ()"
    using assms by (auto simp: validateInput_def ebind_Inr_iff emap_Inr_iff list_all2_conv_all_nth in_set_conv_nth split: if_splits)
  have "0 \<le> big_int x \<and> big_int x \<le> 2 ^ 53" if "month_back i k = Some ob" "ob_valueEur ob = Some x" for ob x
  proof -
    have "ob \<in> set (mi_observations i)" using that(1) by (auto simp: month_back_def observation_of_def dest!: find_SomeD)
    with v that(2) have "is_safe_integer x" "\<not> js_less x (Finite 0)"
      by (fastforce simp: validateObservation_def split: if_splits)+
    then show ?thesis by (cases x) (auto simp: floor_le_iff)
  qed
  then show "0 \<le> amount i k" "amount i k \<le> 2 ^ 53" by (auto simp: amount_def split: option.splits)
qed

lemma growth_percent:
  fixes r b :: int
  assumes "0 < b"
  defines "g \<equiv> of_int r / of_int b - 1 :: rat"
  shows "\<exists>n. formatGrowthPercent r b = (if g < 0 then ''-'' else ''+'') @ dec (n div 10) @ ''.'' @ dec (n mod 10)
    \<and> of_nat n \<le> \<bar>g\<bar> * 1000 + 1 / 2 \<and> \<bar>g\<bar> * 1000 + 1 / 2 < of_nat n + 1"
proof -
  define N where "N = (\<bar>r - b\<bar> * 1000 * 2 + b) div (b * 2)"
  have N: "0 \<le> N" using assms by (simp add: N_def pos_imp_zdiv_nonneg_iff)
  have g: "g = of_int (r - b) / of_int b" using assms by (simp add: g_def diff_divide_distrib)
  have sign: "g < 0 \<longleftrightarrow> r - b < 0" using assms by (simp add: g divide_less_0_iff)
  have "\<bar>g\<bar> = of_int \<bar>r - b\<bar> / of_int b" unfolding g abs_divide of_int_abs using assms(1) by simp
  then have "\<bar>g\<bar> * 1000 + 1 / 2 = of_int (\<bar>r - b\<bar> * 1000 * 2 + b) / of_int (b * 2)"
    using assms by (simp add: field_simps)
  then have fl: "\<lfloor>\<bar>g\<bar> * 1000 + 1 / 2\<rfloor> = N" by (simp only: floor_divide_of_int_eq N_def)
  have "formatGrowthPercent r b = (if g < 0 then ''-'' else ''+'') @ dec (nat N div 10) @ ''.'' @ dec (nat N mod 10)"
  proof -
    have "(\<bar>r - b\<bar> * 1000 * 2 + b) sdiv (b * 2) = N" unfolding N_def using assms(1) by (intro sdiv_nonneg) simp_all
    moreover have "N sdiv 10 = N div 10" "N smod 10 = N mod 10" using N by (simp_all add: sdiv_nonneg smod_nonneg)
    moreover have "int_dec (N div 10) = dec (nat N div 10)" "int_dec (N mod 10) = dec (nat N mod 10)"
      using N by (simp_all add: int_dec_def nat_div_distrib nat_mod_distrib not_less pos_imp_zdiv_nonneg_iff)
    ultimately show ?thesis unfolding formatGrowthPercent_def Let_def by (simp only: sign append_assoc)
  qed
  moreover have "of_nat (nat N) \<le> \<bar>g\<bar> * 1000 + 1 / 2 \<and> \<bar>g\<bar> * 1000 + 1 / 2 < of_nat (nat N) + 1"
    using floor_correct [of "\<bar>g\<bar> * 1000 + 1 / 2"] N unfolding fl by simp
  ultimately show ?thesis by blast
qed

text \<open>The printed growth rate of a signal is a decimal with twelve digits that is within half a unit of
  its last digit and a relative error of 2 to the minus 49 of the exact growth, and the printed percentage
  is the exact one rounded to the nearest tenth, halves away from zero.\<close>

theorem momentum_rates_accurate:
  assumes "computeRecentTradeMomentumV1 i = Inr out" "comparable i"
  shows "(\<exists>neg n. mo_growthRateDecimal out = Some ((if neg then ''-'' else []) @ fixed_digits 12 n)
        \<and> \<bar>(if neg then - of_nat n else of_nat n) / 10 ^ 12 - exact_growth i\<bar>
            \<le> 1 / (2 * 10 ^ 12) + (exact_growth i + 2) / 2 ^ 49)
    \<and> (\<exists>n. mo_growthPercentDisplay out = Some ((if exact_growth i < 0 then ''-'' else ''+'') @ dec (n div 10) @ ''.'' @ dec (n mod 10))
        \<and> of_nat n \<le> \<bar>exact_growth i\<bar> * 1000 + 1 / 2 \<and> \<bar>exact_growth i\<bar> * 1000 + 1 / 2 < of_nat n + 1)"
proof -
  obtain rm bm cmp hist k where
    out: "out = momentum_signal i rm bm cmp hist k (recent_sum i) (baseline_sum i)"
    using compute_cases [OF assms(1)] assms(2) by blast
  have v: "validateInput i = Inr ()" using assms(1) by (auto simp: computeRecentTradeMomentumV1_def ebind_Inr_iff)
  have b: "250000 \<le> baseline_sum i" "250000 \<le> recent_sum i" using assms(2) by (simp_all add: comparable_def)
  have "recent_sum i \<le> 2 ^ 60" "baseline_sum i \<le> 2 ^ 60"
    using safe_amount(2) [OF v, of 0] safe_amount(2) [OF v, of 1] safe_amount(2) [OF v, of 2]
      safe_amount(2) [OF v, of 12] safe_amount(2) [OF v, of 13] safe_amount(2) [OF v, of 14]
    by (simp_all add: recent_sum_def baseline_sum_def)
  with b growth_rate_close [of "baseline_sum i" "recent_sum i"] obtain x where
    x: "growth_rate (recent_sum i) (baseline_sum i) = Finite x" "\<bar>x - exact_growth i\<bar> \<le> (exact_growth i + 2) / 2 ^ 49"
    by (auto simp: exact_growth_def algebra_simps)
  obtain n where n: "to_fixed 12 (Finite x) = (if x < 0 then ''-'' else []) @ fixed_digits 12 n"
    "\<bar>(if x < 0 then - of_nat n else of_nat n) / 10 ^ 12 - x\<bar> \<le> 1 / (2 * 10 ^ 12)"
    by (rule to_fixed_close [of 12 x])
  have "\<bar>(if x < 0 then - of_nat n else of_nat n) / 10 ^ 12 - exact_growth i\<bar>
      \<le> 1 / (2 * 10 ^ 12) + (exact_growth i + 2) / 2 ^ 49" using n(2) x(2) by linarith
  moreover have "mo_growthRateDecimal out = Some ((if x < 0 then ''-'' else []) @ fixed_digits 12 n)"
    using n(1) x(1) by (simp add: out signal_facts)
  moreover note growth_percent [of "baseline_sum i" "recent_sum i"]
  ultimately show ?thesis using b x(1) by (auto simp: out signal_facts exact_growth_def)
qed

subsection \<open>The properties applied\<close>

text \<open>24 recorded months up to December 2024: 100,000 EUR a month, 130,000 EUR in the last three.\<close>

definition sample_month :: "int \<Rightarrow> month_observation" where
  "sample_month k = \<lparr>ob_referenceMonth = month_text (24299 - k), ob_observationState = MO_RECORDED_POSITIVE,
     ob_valueEur = Some (Finite (if k < 3 then 130000 else 100000)), ob_updateState = FINAL_BY_SOURCE_SCHEDULE,
     ob_mappingChain = DIRECT_EXACT\<rparr>"

definition sample_momentum :: momentum_input where
  "sample_momentum = \<lparr>mi_recipe = ''recent-trade-momentum-v1'', mi_resultSchemaVersion = ''recent-trade-momentum-result-v1'',
     mi_monthlyPackageId = ''p'', mi_sourceVintageId = ''v'', mi_reporterIso2 = ''NL'', mi_hs12Code = ''080440'',
     mi_cutoffMonth = ''2024-12'', mi_eligibleCompleteMonths = map (\<lambda>k. month_text (24299 - k)) [0..23],
     mi_marketStatus = MARKET_SUPPORTED, mi_productMappingStatus = EXACT_REVIEWED,
     mi_observations = map sample_month [0..23], mi_revisionComparisonWindowChangeRate = Finite 0\<rparr>"

lemma find_only:
  "x \<in> set xs \<Longrightarrow> P x \<Longrightarrow> (\<And>y. y \<in> set xs \<Longrightarrow> P y \<Longrightarrow> y = x) \<Longrightarrow> find P xs = Some x"
  by (metis find_None_iff find_SomeD option.exhaust)

lemma month_text_inject:
  "12000 \<le> m \<Longrightarrow> m < 120000 \<Longrightarrow> 12000 \<le> n \<Longrightarrow> n < 120000 \<Longrightarrow> month_text m = month_text n \<longleftrightarrow> m = n"
  by (metis month_text(2))

lemma sample_cutoff: "is_month_text ''2024-12''" "month_number ''2024-12'' = 24299"
  by (simp_all add: is_month_text_def month_number_def undec_Cons digit_vals is_digits)

lemma sample_back:
  assumes "0 \<le> k" "k \<le> 23"
  shows "month_back sample_momentum k = Some (sample_month k)"
proof -
  have "find (\<lambda>ob. ob_referenceMonth ob = month_text (24299 - k)) (rev (map sample_month [0..23])) = Some (sample_month k)"
  proof (rule find_only)
    show "sample_month k \<in> set (rev (map sample_month [0..23]))" using assms by auto
    show "ob_referenceMonth (sample_month k) = month_text (24299 - k)" by (simp add: sample_month_def)
    show "y = sample_month k" if "y \<in> set (rev (map sample_month [0..23]))" "ob_referenceMonth y = month_text (24299 - k)" for y
      using that assms by (auto simp: sample_month_def month_text_inject)
  qed
  then show ?thesis by (simp add: month_back_def observation_of_def sample_momentum_def sample_cutoff)
qed

lemma sample_amounts:
  assumes "0 \<le> k" "k \<le> 23"
  shows "recorded_at sample_momentum k" "amount sample_momentum k = (if k < 3 then 130000 else 100000)"
  using sample_back [OF assms] by (simp_all add: recorded_at_def amount_def sample_month_def in_state_def)

lemma sample_momentum_comparable: "comparable sample_momentum" "exact_growth sample_momentum = 3 / 10"
proof -
  have "{k \<in> {0..23 :: int}. recorded_at sample_momentum k} = {0..23}" using sample_amounts by auto
  moreover have "recent_sum sample_momentum = 390000" "baseline_sum sample_momentum = 300000"
    by (simp_all add: recent_sum_def baseline_sum_def sample_amounts)
  moreover have "month_text (month_number (mi_cutoffMonth sample_momentum) - k) \<in> set (mi_eligibleCompleteMonths sample_momentum)
      \<and> \<not> in_state MO_SUPPRESSED_OR_REALLOCATED (month_back sample_momentum k)" if "0 \<le> k" "k \<le> 23" for k
    using that sample_back [OF that] by (auto simp: sample_momentum_def sample_cutoff in_state_def sample_month_def)
  ultimately show "comparable sample_momentum" "exact_growth sample_momentum = 3 / 10"
    by (simp_all add: comparable_def sample_amounts exact_growth_def) (simp add: sample_momentum_def)
qed

text \<open>Whenever the input is valid and the compared months have amounts, the recipe has an outcome.\<close>

lemma compute_total:
  assumes "validateInput i = Inr ()" "is_month_text (mi_cutoffMonth i)"
    and "\<And>k. k \<in> {0, 1, 2, 12, 13, 14} \<Longrightarrow> \<exists>ob v. month_back i k = Some ob \<and> ob_observationState ob = MO_RECORDED_POSITIVE \<and> ob_valueEur ob = Some v"
  obtains out where "computeRecentTradeMomentumV1 i = Inr out"
proof -
  let ?t = "\<lambda>k. month_text (month_number (mi_cutoffMonth i) - k)"
  have vals: "\<exists>vs. valuesForMonths (mi_observations i) (map ?t ks) = Inr vs" if "set ks \<subseteq> {0, 1, 2, 12, 13, 14}" for ks
    using that
  proof (induction ks)
    case (Cons k ks)
    from assms(3) [of k] Cons.prems obtain ob v where "month_back i k = Some ob"
      "ob_observationState ob = MO_RECORDED_POSITIVE" "ob_valueEur ob = Some v" by auto
    with Cons show ?case by (auto simp: valuesForMonths_def month_back_def ebind_Inr_iff)
  qed (simp add: valuesForMonths_def)
  obtain vs1 vs2 where "valuesForMonths (mi_observations i) (map ?t [14, 13, 12]) = Inr vs1"
    "valuesForMonths (mi_observations i) (map ?t [2, 1, 0]) = Inr vs2"
    using vals [of "[14, 13, 12]"] vals [of "[2, 1, 0]"] by auto
  then have "\<exists>out. computeRecentTradeMomentumV1 i = Inr out"
    using assms(1) previousMonths_Inr [OF assms(2)]
    by (simp add: computeRecentTradeMomentumV1_def upto_windows Let_def)
  then show thesis using that by blast
qed

lemma sample_momentum_runs: obtains out where "computeRecentTradeMomentumV1 sample_momentum = Inr out"
proof (rule compute_total)
  have "validateObservation (sample_month k) = Inr ()" for k
    by (simp add: validateObservation_def sample_month_def)
  then have "list_all2 (\<lambda>x y. validateObservation x = Inr y) (map sample_month ks) (map (\<lambda>_. ()) ks)" for ks
    by (simp add: list_all2_conv_all_nth)
  then have "\<exists>ys. emap validateObservation (map sample_month [0..23]) = Inr ys" unfolding emap_Inr_iff by blast
  moreover have "list_all is_upper ''NL''" "list_all is_digit ''080440''" by code_simp+
  ultimately show "validateInput sample_momentum = Inr ()"
    by (auto simp: validateInput_def sample_momentum_def)
  show "is_month_text (mi_cutoffMonth sample_momentum)" by (simp add: sample_momentum_def sample_cutoff)
  show "\<exists>ob v. month_back sample_momentum k = Some ob \<and> ob_observationState ob = MO_RECORDED_POSITIVE \<and> ob_valueEur ob = Some v"
    if "k \<in> {0, 1, 2, 12, 13, 14}" for k
    using that sample_back [of k] by (auto simp: sample_month_def)
qed

theorem momentum_signal_exact_witness:
  "\<exists>out. computeRecentTradeMomentumV1 sample_momentum = Inr out \<and> mo_signalState out = Some RISING_FAST"
proof -
  obtain out where "computeRecentTradeMomentumV1 sample_momentum = Inr out" by (rule sample_momentum_runs)
  with momentum_signal_exact [OF this] show ?thesis by (simp add: sample_momentum_comparable)
qed

theorem momentum_rates_accurate_witness:
  "\<exists>out neg n. computeRecentTradeMomentumV1 sample_momentum = Inr out
     \<and> mo_growthRateDecimal out = Some ((if neg then ''-'' else []) @ fixed_digits 12 n)"
proof -
  obtain out where "computeRecentTradeMomentumV1 sample_momentum = Inr out" by (rule sample_momentum_runs)
  with momentum_rates_accurate [OF this sample_momentum_comparable(1)] show ?thesis by blast
qed

end
