(* ===== verification/Watch_Decision.thy ===== *)
theory Watch_Decision
  imports Momentum
begin

text \<open>
  \<^verbatim>\<open>src/operations/watch/watch-alert-decision.ts\<close>: whether the result of a watch's evaluation is worth an
  alert, given the previous one. The state of an evaluation is the text the store keeps.
\<close>

fun signal_text :: "signal_state \<Rightarrow> string" where
  "signal_text RISING_FAST = ''RISING_FAST''"
| "signal_text RISING = ''RISING''"
| "signal_text BROADLY_STABLE = ''BROADLY_STABLE''"
| "signal_text FALLING = ''FALLING''"
| "signal_text FALLING_FAST = ''FALLING_FAST''"

fun coverage_text :: "coverage_state \<Rightarrow> string" where
  "coverage_text MC_SUPPORTED = ''SUPPORTED''"
| "coverage_text MC_SUPPORTED_NO_SIGNAL = ''SUPPORTED_NO_SIGNAL''"
| "coverage_text MC_NOT_OBSERVED = ''NOT_OBSERVED''"
| "coverage_text MC_SUPPRESSED_OR_REALLOCATED = ''SUPPRESSED_OR_REALLOCATED''"
| "coverage_text MC_UNSUPPORTED_MARKET = ''UNSUPPORTED_MARKET''"
| "coverage_text MC_UNSUPPORTED_PRODUCT_MAPPING = ''UNSUPPORTED_PRODUCT_MAPPING''"
| "coverage_text MC_SOURCE_UNAVAILABLE = ''SOURCE_UNAVAILABLE''"

fun confidence_text :: "confidence_level \<Rightarrow> string" where
  "confidence_text HIGH = ''HIGH''" | "confidence_text MEDIUM = ''MEDIUM''" | "confidence_text LOW = ''LOW''"

record evaluation_snapshot =
  es_recipeId :: string
  es_packageId :: string
  es_cutoffMonth :: string
  es_resultDigest :: string
  es_state :: string
  es_growthRateDecimal :: "string option"
  es_confidence :: "string option"
  es_evaluatedAt :: string
  es_alertEventId :: "string option"

datatype alert_reason =
    FIRST_DIRECTIONAL_RESULT | FIRST_STABLE_RESULT | FIRST_UNAVAILABLE_RESULT | DIRECTION_FAMILY_CROSS
  | DIRECTION_FASTNESS_CHANGE | MATERIAL_GROWTH_RATE_CHANGE | DIRECTIONAL_BECAME_UNAVAILABLE
  | UNAVAILABLE_BECAME_DIRECTIONAL | CONFIDENCE_ONLY_CHANGE | PACKAGE_IDENTITY_ONLY_CHANGE
  | LABEL_ONLY_CHANGE | IMMATERIAL_GROWTH_RATE_CHANGE | NO_MATERIAL_CHANGE

record alert_decision =
  ad_alert :: bool
  ad_eventKind :: "string option"
  ad_reason :: alert_reason

record outcome_state =
  os_state :: string
  os_growthRateDecimal :: "string option"
  os_confidence :: "string option"

definition WATCH_ALERT_EVENT_KIND :: string where
  "WATCH_ALERT_EVENT_KIND = ''MOMENTUM_SIGNAL''"

definition stateFromOutcome :: "momentum_outcome \<Rightarrow> outcome_state" where
  "stateFromOutcome r =
     \<lparr>os_state = (case mo_signalState r of Some s \<Rightarrow> signal_text s | None \<Rightarrow> coverage_text (mo_coverageState r)),
      os_growthRateDecimal = mo_growthRateDecimal r,
      os_confidence = map_option confidence_text (mo_confidence r)\<rparr>"

definition alert :: "alert_reason \<Rightarrow> alert_decision" where
  "alert reason = \<lparr>ad_alert = True, ad_eventKind = Some WATCH_ALERT_EVENT_KIND, ad_reason = reason\<rparr>"

definition noAlert :: "alert_reason \<Rightarrow> alert_decision" where
  "noAlert reason = \<lparr>ad_alert = False, ad_eventKind = None, ad_reason = reason\<rparr>"

definition isDirectionalState :: "string \<Rightarrow> bool" where
  "isDirectionalState s = (s = ''RISING'' \<or> s = ''RISING_FAST'' \<or> s = ''FALLING'' \<or> s = ''FALLING_FAST'')"

definition isUnavailableState :: "string \<Rightarrow> bool" where
  "isUnavailableState s =
     (s \<noteq> ''RISING'' \<and> s \<noteq> ''RISING_FAST'' \<and> s \<noteq> ''BROADLY_STABLE'' \<and> s \<noteq> ''FALLING'' \<and> s \<noteq> ''FALLING_FAST'')"

datatype direction = Rising | Stable | Falling

definition directionFamily :: "string \<Rightarrow> direction option" where
  "directionFamily s =
     (if s = ''RISING'' \<or> s = ''RISING_FAST'' then Some Rising
      else if s = ''BROADLY_STABLE'' then Some Stable
      else if s = ''FALLING'' \<or> s = ''FALLING_FAST'' then Some Falling else None)"

text \<open>\<^verbatim>\<open>/^(-?)(\d+)(?:\.(\d+))?$/u\<close>.\<close>

definition match_signed_decimal :: "string \<Rightarrow> (bool \<times> string \<times> string) option" where
  "match_signed_decimal v =
     (let sign = v \<noteq> [] \<and> hd v = CHR ''-''; s = (if sign then tl v else v);
          whole = takeWhile is_digit s; rest = dropWhile is_digit s
      in if whole = [] then None
         else if rest = [] then Some (sign, whole, [])
         else if hd rest = CHR ''.'' \<and> tl rest \<noteq> [] \<and> list_all is_digit (tl rest) then Some (sign, whole, tl rest)
         else None)"

definition parseDecimalToTrillionths :: "string \<Rightarrow> string + int" where
  "parseDecimalToTrillionths v =
     (case match_signed_decimal v of
        None \<Rightarrow> rounded_big_int (js_times (js_Number v) (Finite 1000000000000))
      | Some (sign, whole, fraction) \<Rightarrow>
          Inr ((if sign then -1 else 1) *
               (int (undec whole) * 1000000000000 + int (undec (take 12 (pad_end 12 fraction))))))"

definition absoluteGrowthDelta :: "string option \<Rightarrow> string option \<Rightarrow> string + js_number option" where
  "absoluteGrowthDelta previous current =
     (case (previous, current) of
        (Some p, Some c) \<Rightarrow>
          ebind (parseDecimalToTrillionths c) (\<lambda>y.
          ebind (parseDecimalToTrillionths p) (\<lambda>x.
          let delta = y - x
          in Inr (Some (js_divide (to_number (of_int (if delta < 0 then - delta else delta))) (Finite 1000000000000)))))
      | _ \<Rightarrow> Inr None)"

definition decideWatchAlert ::
  "evaluation_snapshot option \<Rightarrow> momentum_outcome \<Rightarrow> string \<Rightarrow> string + alert_decision" where
  "decideWatchAlert priorEvaluation currentResult recipeId =
     (let current = stateFromOutcome currentResult
      in if (case priorEvaluation of None \<Rightarrow> True | Some p \<Rightarrow> es_recipeId p \<noteq> recipeId)
         then Inr (if isDirectionalState (os_state current) then alert FIRST_DIRECTIONAL_RESULT
                   else if os_state current = ''BROADLY_STABLE'' then noAlert FIRST_STABLE_RESULT
                   else noAlert FIRST_UNAVAILABLE_RESULT)
         else
           let prior = the priorEvaluation;
               priorFamily = directionFamily (es_state prior);
               currentFamily = directionFamily (os_state current)
           in if isDirectionalState (es_state prior) \<and> isUnavailableState (os_state current)
              then Inr (alert DIRECTIONAL_BECAME_UNAVAILABLE)
              else if isUnavailableState (es_state prior) \<and> isDirectionalState (os_state current)
              then Inr (alert UNAVAILABLE_BECAME_DIRECTIONAL)
              else if priorFamily \<noteq> None \<and> currentFamily \<noteq> None \<and> priorFamily \<noteq> currentFamily
              then Inr (alert DIRECTION_FAMILY_CROSS)
              else if priorFamily \<noteq> None \<and> priorFamily = currentFamily
                \<and> (priorFamily = Some Rising \<or> priorFamily = Some Falling) \<and> es_state prior \<noteq> os_state current
              then Inr (alert DIRECTION_FASTNESS_CHANGE)
              else
                ebind (absoluteGrowthDelta (es_growthRateDecimal prior) (os_growthRateDecimal current)) (\<lambda>growthDelta.
                if (case growthDelta of None \<Rightarrow> False | Some d \<Rightarrow> js_ge d (to_number (1 / 10)))
                then Inr (alert MATERIAL_GROWTH_RATE_CHANGE)
                else if es_state prior = os_state current \<and> es_growthRateDecimal prior = os_growthRateDecimal current
                  \<and> es_confidence prior \<noteq> os_confidence current
                then Inr (noAlert CONFIDENCE_ONLY_CHANGE)
                else if es_state prior = os_state current \<and> es_growthRateDecimal prior = os_growthRateDecimal current
                  \<and> es_confidence prior = os_confidence current \<and> es_packageId prior \<noteq> mo_monthlyPackageId currentResult
                then Inr (noAlert PACKAGE_IDENTITY_ONLY_CHANGE)
                else if es_state prior = os_state current \<and> es_growthRateDecimal prior = os_growthRateDecimal current
                then Inr (noAlert LABEL_ONLY_CHANGE)
                else if (case growthDelta of None \<Rightarrow> False | Some d \<Rightarrow> js_less d (to_number (1 / 10)))
                then Inr (noAlert IMMATERIAL_GROWTH_RATE_CHANGE)
                else Inr (noAlert NO_MATERIAL_CHANGE)))"

text \<open>The text \<^verbatim>\<open>computeAlertDedupeKey\<close> hashes.\<close>

definition alert_dedupe_text ::
  "string \<Rightarrow> string \<Rightarrow> string \<Rightarrow> string \<Rightarrow> string \<Rightarrow> string option \<Rightarrow> string" where
  "alert_dedupe_text watchId recipeId cutoffMonth packageId eventKind priorAlertEventId =
     watchId @ recipeId @ cutoffMonth @ packageId @ eventKind
       @ (case priorAlertEventId of None \<Rightarrow> ''null'' | Some e \<Rightarrow> e)"

subsection \<open>The threshold of a material change\<close>

lemma nearest_tenth:
  "(1 / 10 - 1 / 10 / 2 ^ 53 :: rat) \<le> nearest_double (1 / 10)" "0 < nearest_double (1 / 10)"
  "to_number (1 / 10) = Finite (nearest_double (1 / 10))"
proof -
  have t: "pow2 (- 1022) \<le> 1 / 10"
  proof -
    have "pow2 (- 1022) \<le> pow2 (- 4)" by (simp only: pow2_le_iff)
    then show ?thesis by (simp add: pow2_def [of "- 4"])
  qed
  have e: "\<bar>nearest_double (1 / 10) - 1 / 10\<bar> \<le> 1 / 10 / 2 ^ 53" by (rule nearest_double_error [OF t])
  then show lo: "(1 / 10 - 1 / 10 / 2 ^ 53 :: rat) \<le> nearest_double (1 / 10)" by linarith
  then show "0 < nearest_double (1 / 10)" by simp
  have "nearest_double (1 / 10) \<le> 1 / 10 + 1 / 10 / 2 ^ 53" using e by linarith
  also have "(1 / 10 + 1 / 10 / 2 ^ 53 :: rat) \<le> 1" by simp
  finally have "nearest_double (1 / 10) \<le> 1" .
  then have "nearest_double (1 / 10) < pow2 1024" using pow2_less_iff [of 0 1024] by (simp add: pow2_def [of 0])
  then show "to_number (1 / 10) = Finite (nearest_double (1 / 10))" by (simp add: to_number_def not_le)
qed

text \<open>The comparison of two doubles is exact: the distance is material from a tenth on.\<close>

lemma threshold_exact:
  assumes "0 \<le> D"
  shows "js_ge (js_divide (to_number (of_int D)) (Finite 1000000000000)) (to_number (1 / 10)) \<longleftrightarrow> 100000000000 \<le> D"
    (is "js_ge ?q _ \<longleftrightarrow> _")
proof (cases "100000000000 \<le> D")
  case True
  define m where "m = nearest_double (of_int D)"
  have "nearest_double (of_int 100000000000) \<le> m" unfolding m_def using True by (intro nearest_double_mono) simp
  then have m: "100000000000 \<le> m" using nearest_double_int [of 100000000000] by simp
  have n: "to_number (of_int D) = (if pow2 1024 \<le> m then Infinite False else Finite m)"
    using assms by (simp add: to_number_def m_def Let_def)
  show ?thesis
  proof (cases "pow2 1024 \<le> m")
    case True
    then show ?thesis using \<open>100000000000 \<le> D\<close> by (simp add: n nearest_tenth(3))
  next
    case False
    have "nearest_double (1 / 10) \<le> nearest_double (m / 1000000000000)" using m by (intro nearest_double_mono) simp
    then have "js_ge (to_number (m / 1000000000000)) (Finite (nearest_double (1 / 10)))"
      using m by (simp add: to_number_def Let_def)
    then show ?thesis using False \<open>100000000000 \<le> D\<close> by (simp add: n nearest_tenth(3))
  qed
next
  case False
  then have D: "D \<le> 99999999999" by simp
  let ?x = "of_int D / 1000000000000 :: rat"
  have x: "0 \<le> ?x" "?x \<le> 99999999999 / 1000000000000" using assms D by simp_all
  have "to_number (of_int D) = Finite (of_int D)"
    using assms D nearest_double_int [of D] pow2_add [of 984 40] pow2_ge_1 [of 984]
    by (simp add: to_number_def Let_def not_le pow2_def [of 40])
  then have q: "?q = to_number ?x" by simp
  have "nearest_double ?x \<le> ?x + ?x / 2 ^ 53 + pow2 (- 1075)" using nearest_double_error_any [OF x(1)] by linarith
  also have "\<dots> \<le> 99999999999 / 1000000000000 + 1 / 2 ^ 53 + 1 / 2 ^ 53"
  proof -
    have "pow2 (- 1075) \<le> pow2 (- 53)" by (simp only: pow2_le_iff)
    then have "pow2 (- 1075) \<le> 1 / 2 ^ 53" by (simp add: pow2_def [of "- 53"])
    moreover have "?x / 2 ^ 53 \<le> 1 / 2 ^ 53" using x(2) by (intro divide_right_mono) simp_all
    ultimately show ?thesis using x(2) by linarith
  qed
  also have "\<dots> < 1 / 10 - 1 / 10 / 2 ^ 53" by simp
  finally have "nearest_double ?x < nearest_double (1 / 10)" using nearest_tenth(1) by linarith
  moreover have "nearest_double (1 / 10) < pow2 1024" using nearest_tenth(3)
    by (auto simp: to_number_def Let_def split: if_splits)
  ultimately have "to_number ?x = Finite (nearest_double ?x)" using x(1) by (simp add: to_number_def Let_def not_le)
  with q nearest_tenth(3) \<open>nearest_double ?x < nearest_double (1 / 10)\<close> False show ?thesis by simp
qed

subsection \<open>When a watch alerts\<close>

text \<open>A growth rate as \<^verbatim>\<open>toFixed(12)\<close> writes it: its sign and its trillionths.\<close>

definition rate_text :: "bool \<times> nat \<Rightarrow> string" where
  "rate_text r = (if fst r then ''-'' else []) @ fixed_digits 12 (snd r)"

definition trillionths :: "bool \<times> nat \<Rightarrow> int" where
  "trillionths r = (if fst r then - int (snd r) else int (snd r))"

lemma digits_then_dot: "takeWhile is_digit (dec n @ CHR ''.'' # s) = dec n" "dropWhile is_digit (dec n @ CHR ''.'' # s) = CHR ''.'' # s"
proof -
  have "\<not> is_digit CHR ''.''" by (simp add: is_digits)
  moreover have "\<forall>c \<in> set (dec n). is_digit c" using dec_digits by blast
  ultimately show "takeWhile is_digit (dec n @ CHR ''.'' # s) = dec n" "dropWhile is_digit (dec n @ CHR ''.'' # s) = CHR ''.'' # s"
    by (simp_all add: takeWhile_append2 dropWhile_append2)
qed

lemma match_rate_text:
  "match_signed_decimal (rate_text r) = Some (fst r, dec (snd r div 10 ^ 12), pad_start 12 (dec (snd r mod 10 ^ 12)))"
proof -
  let ?w = "dec (snd r div 10 ^ 12)" and ?f = "pad_start 12 (dec (snd r mod 10 ^ 12))"
  have f: "?f \<noteq> []" "list_all is_digit ?f"
    using dec_digits by (auto simp: pad_start_def list_all_iff is_digits)
  have h: "hd ?w \<noteq> CHR ''-''" using dec_digits [of "hd ?w"] by (metis dec_not_Nil hd_in_set is_digits(12))
  have "rate_text r = (if fst r then ''-'' else []) @ ?w @ CHR ''.'' # ?f" by (simp add: rate_text_def fixed_digits_def)
  then show ?thesis using h f by (auto simp: match_signed_decimal_def digits_then_dot Let_def hd_append)
qed

lemma parse_rate_text: "parseDecimalToTrillionths (rate_text r) = Inr (trillionths r)"
proof -
  have "length (dec (snd r mod 10 ^ 12)) \<le> 12" using dec_length_bound [of "snd r mod 10 ^ 12" 11] by simp
  then have "length (pad_start 12 (dec (snd r mod 10 ^ 12))) = 12" by (simp add: pad_start_def)
  then have "take 12 (pad_end 12 (pad_start 12 (dec (snd r mod 10 ^ 12)))) = pad_start 12 (dec (snd r mod 10 ^ 12))"
    by (simp add: pad_end_def)
  moreover have "int (snd r div 10 ^ 12) * 1000000000000 + int (snd r mod 10 ^ 12) = int (snd r)"
  proof -
    have "int (snd r div 1000000000000 * 1000000000000 + snd r mod 1000000000000) = int (snd r)"
      by (simp only: div_mult_mod_eq)
    then show ?thesis by (simp only: of_nat_add of_nat_mult of_nat_numeral) simp
  qed
  ultimately show ?thesis by (simp add: parseDecimalToTrillionths_def match_rate_text trillionths_def)
qed

lemma delta_of_rates:
  "absoluteGrowthDelta (Some (rate_text a)) (Some (rate_text b))
     = Inr (Some (js_divide (to_number (of_int \<bar>trillionths b - trillionths a\<bar>)) (Finite 1000000000000)))"
  by (simp add: absoluteGrowthDelta_def parse_rate_text Let_def abs_if)

lemma alert_flag [simp]: "ad_alert (alert r)" "\<not> ad_alert (noAlert r)"
  by (simp_all add: alert_def noAlert_def)

lemma directional_family: "isDirectionalState s \<longleftrightarrow> directionFamily s = Some Rising \<or> directionFamily s = Some Falling"
  "isUnavailableState s \<longleftrightarrow> directionFamily s = None"
  by (auto simp: isDirectionalState_def isUnavailableState_def directionFamily_def)

lemma no_alert: "\<exists>d. (Inr (noAlert r) :: string + alert_decision) = Inr d \<and> \<not> ad_alert d"
  by simp

lemma no_alert_if:
  "\<exists>d. x = Inr d \<and> \<not> ad_alert d \<Longrightarrow> \<exists>d. y = Inr d \<and> \<not> ad_alert d \<Longrightarrow> \<exists>d. (if c then x else y) = Inr d \<and> \<not> ad_alert d"
  by simp

text \<open>The decision once the states alone give no alert: the distance of the rates decides.\<close>

lemma decide_by_rates:
  assumes "es_recipeId p = recipe"
    and "absoluteGrowthDelta (es_growthRateDecimal p) (mo_growthRateDecimal r) = Inr delta"
    and "\<not> (isDirectionalState (es_state p) \<and> isUnavailableState (os_state (stateFromOutcome r)))"
    and "\<not> (isUnavailableState (es_state p) \<and> isDirectionalState (os_state (stateFromOutcome r)))"
    and "\<not> (directionFamily (es_state p) \<noteq> None \<and> directionFamily (os_state (stateFromOutcome r)) \<noteq> None
      \<and> directionFamily (es_state p) \<noteq> directionFamily (os_state (stateFromOutcome r)))"
    and "\<not> (directionFamily (es_state p) \<noteq> None \<and> directionFamily (es_state p) = directionFamily (os_state (stateFromOutcome r))
      \<and> (directionFamily (es_state p) = Some Rising \<or> directionFamily (es_state p) = Some Falling)
      \<and> es_state p \<noteq> os_state (stateFromOutcome r))"
  shows "\<exists>d. decideWatchAlert (Some p) r recipe = Inr d
    \<and> (ad_alert d \<longleftrightarrow> (case delta of None \<Rightarrow> False | Some x \<Rightarrow> js_ge x (to_number (1 / 10))))"
proof -
  have g: "os_growthRateDecimal (stateFromOutcome r) = mo_growthRateDecimal r" by (simp add: stateFromOutcome_def)
  note skip = if_not_P [OF assms(3)] if_not_P [OF assms(4)] if_not_P [OF assms(5)] if_not_P [OF assms(6)]
  note unfolded = decideWatchAlert_def Let_def option.case option.sel assms(1) g not_True_eq_False simp_thms if_False
      skip assms(2) ebind.simps
  show ?thesis
  proof (cases "case delta of None \<Rightarrow> False | Some x \<Rightarrow> js_ge x (to_number (1 / 10))")
    case True
    then show ?thesis unfolding unfolded by (simp only: if_True) simp
  next
    case False
    then show ?thesis unfolding unfolded by (simp only: if_False simp_thms) (intro no_alert_if no_alert)
  qed
qed

text \<open>The decision after the cases that compare only the states.\<close>

lemma decideWatchAlert_same_recipe:
  assumes "es_recipeId p = recipe"
    and "absoluteGrowthDelta (es_growthRateDecimal p) (mo_growthRateDecimal r) = Inr delta"
  defines "was \<equiv> directionFamily (es_state p)" and "is \<equiv> directionFamily (os_state (stateFromOutcome r))"
  shows "\<exists>d. decideWatchAlert (Some p) r recipe = Inr d
    \<and> (ad_alert d \<longleftrightarrow> (was \<noteq> is \<and> {was, is} \<noteq> {None, Some Stable})
        \<or> (was = is \<and> was \<in> {Some Rising, Some Falling} \<and> es_state p \<noteq> os_state (stateFromOutcome r))
        \<or> (case delta of None \<Rightarrow> False | Some x \<Rightarrow> js_ge x (to_number (1 / 10))))"
proof -
  consider (off) "was = Some Rising \<or> was = Some Falling" "is = None" | (on) "was = None" "is = Some Rising \<or> is = Some Falling"
    | (cross) "was \<noteq> None" "is \<noteq> None" "was \<noteq> is"
    | (fast) "was = is" "was = Some Rising \<or> was = Some Falling" "es_state p \<noteq> os_state (stateFromOutcome r)"
    | (quiet) "was \<noteq> is \<longrightarrow> {was, is} = {None, Some Stable}" "was = is \<and> was \<in> {Some Rising, Some Falling} \<longrightarrow> es_state p = os_state (stateFromOutcome r)"
    by (cases was; cases "is"; (case_tac "the was")?; (case_tac "the is")?; auto)
  then show ?thesis
  proof cases
    case quiet
    then have "\<not> ((was = Some Rising \<or> was = Some Falling) \<and> is = None)" "\<not> (was = None \<and> (is = Some Rising \<or> is = Some Falling))"
      "\<not> (was \<noteq> None \<and> is \<noteq> None \<and> was \<noteq> is)"
      "\<not> (was \<noteq> None \<and> was = is \<and> (was = Some Rising \<or> was = Some Falling) \<and> es_state p \<noteq> os_state (stateFromOutcome r))"
      by (auto simp: doubleton_eq_iff)
    note decided = decide_by_rates [OF assms(1,2), unfolded directional_family, folded was_def is_def, OF this]
    have "(was \<noteq> is \<and> {was, is} \<noteq> {None, Some Stable}) = False"
      "(was = is \<and> was \<in> {Some Rising, Some Falling} \<and> es_state p \<noteq> os_state (stateFromOutcome r)) = False"
      using quiet by blast+
    with decided show ?thesis by (simp only: simp_thms)
  next
    case off
    then have "isDirectionalState (es_state p)" "isUnavailableState (os_state (stateFromOutcome r))"
      by (auto simp: directional_family was_def is_def)
    then have "decideWatchAlert (Some p) r recipe = Inr (alert DIRECTIONAL_BECAME_UNAVAILABLE)"
      unfolding decideWatchAlert_def Let_def using assms(1) by simp
    then show ?thesis using off by (auto simp: doubleton_eq_iff)
  next
    case on
    then have "\<not> isDirectionalState (es_state p)" "isUnavailableState (es_state p)" "isDirectionalState (os_state (stateFromOutcome r))"
      by (auto simp: directional_family was_def is_def)
    then have "decideWatchAlert (Some p) r recipe = Inr (alert UNAVAILABLE_BECAME_DIRECTIONAL)"
      unfolding decideWatchAlert_def Let_def using assms(1) by simp
    then show ?thesis using on by (auto simp: doubleton_eq_iff)
  next
    case cross
    then have "\<not> isUnavailableState (os_state (stateFromOutcome r))" "\<not> isUnavailableState (es_state p)" "directionFamily (es_state p) \<noteq> None" "directionFamily (os_state (stateFromOutcome r)) \<noteq> None" "directionFamily (es_state p) \<noteq> directionFamily (os_state (stateFromOutcome r))"
      by (auto simp: directional_family was_def is_def)
    then have "decideWatchAlert (Some p) r recipe = Inr (alert DIRECTION_FAMILY_CROSS)"
      unfolding decideWatchAlert_def Let_def using assms(1) by simp
    then show ?thesis using cross by (auto simp: doubleton_eq_iff)
  next
    case fast
    then have "\<not> isUnavailableState (os_state (stateFromOutcome r))" "\<not> isUnavailableState (es_state p)" "directionFamily (es_state p) \<noteq> None" "directionFamily (es_state p) = directionFamily (os_state (stateFromOutcome r))" "directionFamily (es_state p) = Some Rising \<or> directionFamily (es_state p) = Some Falling" "es_state p \<noteq> os_state (stateFromOutcome r)"
      by (auto simp: directional_family was_def is_def)
    then have "decideWatchAlert (Some p) r recipe = Inr (alert DIRECTION_FASTNESS_CHANGE)"
      unfolding decideWatchAlert_def Let_def using assms(1) by simp
    then show ?thesis using fast by (auto simp: doubleton_eq_iff)
  qed
qed

text \<open>C18: after a first evaluation by the same recipe, \<^verbatim>\<open>decideWatchAlert\<close> always decides, and it alerts exactly when a
  trend appears or disappears, when the direction crosses, when the pace of a rising or falling trend changes, or when
  both rates are known and differ by a tenth or more. The distance of the rates is computed on doubles; for rates as the
  recipe prints them the comparison is exact.\<close>

theorem alert_decision_exact:
  assumes "es_recipeId p = recipe" "es_growthRateDecimal p = map_option rate_text a" "mo_growthRateDecimal r = map_option rate_text b"
  shows "\<exists>d. decideWatchAlert (Some p) r recipe = Inr d
    \<and> (ad_alert d \<longleftrightarrow>
         (let was = directionFamily (es_state p); is = directionFamily (os_state (stateFromOutcome r))
          in (was \<noteq> is \<and> {was, is} \<noteq> {None, Some Stable})
           \<or> (was = is \<and> was \<in> {Some Rising, Some Falling} \<and> es_state p \<noteq> os_state (stateFromOutcome r))
           \<or> (a \<noteq> None \<and> b \<noteq> None \<and> 100000000000 \<le> \<bar>trillionths (the b) - trillionths (the a)\<bar>)))"
proof (cases "a \<noteq> None \<and> b \<noteq> None")
  case True
  then obtain x y where ab: "a = Some x" "b = Some y" by auto
  have "absoluteGrowthDelta (es_growthRateDecimal p) (mo_growthRateDecimal r)
      = Inr (Some (js_divide (to_number (of_int \<bar>trillionths y - trillionths x\<bar>)) (Finite 1000000000000)))"
    using assms(2,3) ab by (simp add: delta_of_rates)
  from decideWatchAlert_same_recipe [OF assms(1) this] show ?thesis
    using threshold_exact [of "\<bar>trillionths y - trillionths x\<bar>"] ab by (simp add: Let_def)
next
  case False
  then have "absoluteGrowthDelta (es_growthRateDecimal p) (mo_growthRateDecimal r) = Inr None"
    using assms(2,3) by (auto simp: absoluteGrowthDelta_def split: option.splits)
  from decideWatchAlert_same_recipe [OF assms(1) this] show ?thesis using False by (auto simp: Let_def)
qed

definition sample_outcome :: "string option \<Rightarrow> momentum_outcome" where
  "sample_outcome rate = \<lparr>mo_monthlyPackageId = ''p2'', mo_sourceVintageId = ''v'', mo_reporterIso2 = ''NL'',
     mo_hs12Code = ''080440'', mo_cutoffMonth = ''2024-12'', mo_recentMonths = [], mo_baselineMonths = [],
     mo_coverageState = MC_SUPPORTED, mo_signalState = Some RISING_FAST, mo_reasonCodes = [],
     mo_recentValueEur = None, mo_baselineValueEur = None, mo_growthRateDecimal = rate,
     mo_growthPercentDisplay = None, mo_confidence = Some HIGH, mo_confidenceReasons = [], mo_recordedHistoryMonths = 24\<rparr>"

definition sample_prior :: evaluation_snapshot where
  "sample_prior = \<lparr>es_recipeId = ''recent-trade-momentum-v1'', es_packageId = ''p1'', es_cutoffMonth = ''2024-12'',
     es_resultDigest = ''d'', es_state = ''RISING_FAST'', es_growthRateDecimal = Some ''0.200000000000'',
     es_confidence = Some ''HIGH'', es_evaluatedAt = ''t'', es_alertEventId = Some ''e''\<rparr>"

lemma sample_rates: "rate_text (False, 200000000000) = ''0.200000000000''" "rate_text (False, 300000000000) = ''0.300000000000''"
  by (simp_all add: rate_text_def fixed_digits_def decimal_eval)

theorem alert_decision_exact_witness:
  "\<exists>d. decideWatchAlert (Some sample_prior) (sample_outcome (Some ''0.300000000000'')) ''recent-trade-momentum-v1'' = Inr d \<and> ad_alert d"
  using alert_decision_exact [of sample_prior "''recent-trade-momentum-v1''" "Some (False, 200000000000)"
      "sample_outcome (Some ''0.300000000000'')" "Some (False, 300000000000)"]
  by (simp add: sample_prior_def sample_outcome_def sample_rates trillionths_def)

end
