(* ===== verification/Watch_Evaluator.thy ===== *)
theory Watch_Evaluator
  imports Watch_Decision Store_Steps
begin

text \<open>
  \<^verbatim>\<open>src/operations/watch/watch-evaluator.ts\<close>: the run that claims the due watches of a package batch by batch,
  evaluates each, records an alert or a revision event with its deliveries, and completes the lease. The source of
  the momentum outcomes is a parameter of the run; the loop carries fuel, and \<^theory_text>\<open>evaluation_loop_ends\<close>
  gives an amount that is always enough.
\<close>

subsection \<open>Texts\<close>

text \<open>\<^verbatim>\<open>JSON.stringify\<close>.\<close>

definition hex_char :: "nat \<Rightarrow> char" where
  "hex_char n = (if n < 10 then digit_char n else char_of (n + 87))"

definition json_char :: "char \<Rightarrow> string" where
  "json_char c =
     (let n = of_char c :: nat
      in if n = 34 then [CHR 0x5C, CHR 0x22] else if n = 92 then [CHR 0x5C, CHR 0x5C]
         else if n = 8 then [CHR 0x5C, CHR ''b''] else if n = 12 then [CHR 0x5C, CHR ''f'']
         else if n = 10 then [CHR 0x5C, CHR ''n''] else if n = 13 then [CHR 0x5C, CHR ''r'']
         else if n = 9 then [CHR 0x5C, CHR ''t'']
         else if n < 32 then CHR 0x5C # ''u00'' @ [hex_char (n div 16), hex_char (n mod 16)] else [c])"

definition json_quote :: "string \<Rightarrow> string" where
  "json_quote s = CHR 0x22 # concat (map json_char s) @ [CHR 0x22]"

fun joined :: "string \<Rightarrow> string list \<Rightarrow> string" where
  "joined sep [] = []"
| "joined sep [x] = x"
| "joined sep (x # y # xs) = x @ sep @ joined sep (y # xs)"

fun json_text :: "json \<Rightarrow> string" where
  "json_text JNull = ''null''"
| "json_text (JBool b) = (if b then ''true'' else ''false'')"
| "json_text (JNum n) = int_dec n"
| "json_text (JStr s) = json_quote s"
| "json_text (JArr xs) = ''['' @ joined '','' (map json_text xs) @ '']''"
| "json_text (JObj kvs) = CHR 0x7B # joined '','' (map (\<lambda>(k, v). json_quote k @ '':'' @ json_text v) kvs) @ [CHR 0x7D]"

fun reason_text :: "momentum_reason \<Rightarrow> string" where
  "reason_text INSUFFICIENT_COMPLETE_HISTORY = ''INSUFFICIENT_COMPLETE_HISTORY''"
| "reason_text INSUFFICIENT_RECORDED_MONTHS = ''INSUFFICIENT_RECORDED_MONTHS''"
| "reason_text MISSING_COMPARISON_MONTH = ''MISSING_COMPARISON_MONTH''"
| "reason_text SMALL_BASE = ''SMALL_BASE''"
| "reason_text WINDOW_CONCENTRATION = ''WINDOW_CONCENTRATION''"
| "reason_text MR_SUPPRESSED_OR_REALLOCATED = ''SUPPRESSED_OR_REALLOCATED''"
| "reason_text CLASSIFICATION_BREAK = ''CLASSIFICATION_BREAK''"
| "reason_text MR_UNSUPPORTED_PRODUCT_MAPPING = ''UNSUPPORTED_PRODUCT_MAPPING''"
| "reason_text MR_UNSUPPORTED_MARKET = ''UNSUPPORTED_MARKET''"
| "reason_text MR_SOURCE_UNAVAILABLE = ''SOURCE_UNAVAILABLE''"

fun alert_reason_text :: "alert_reason \<Rightarrow> string" where
  "alert_reason_text FIRST_DIRECTIONAL_RESULT = ''FIRST_DIRECTIONAL_RESULT''"
| "alert_reason_text FIRST_STABLE_RESULT = ''FIRST_STABLE_RESULT''"
| "alert_reason_text FIRST_UNAVAILABLE_RESULT = ''FIRST_UNAVAILABLE_RESULT''"
| "alert_reason_text DIRECTION_FAMILY_CROSS = ''DIRECTION_FAMILY_CROSS''"
| "alert_reason_text DIRECTION_FASTNESS_CHANGE = ''DIRECTION_FASTNESS_CHANGE''"
| "alert_reason_text MATERIAL_GROWTH_RATE_CHANGE = ''MATERIAL_GROWTH_RATE_CHANGE''"
| "alert_reason_text DIRECTIONAL_BECAME_UNAVAILABLE = ''DIRECTIONAL_BECAME_UNAVAILABLE''"
| "alert_reason_text UNAVAILABLE_BECAME_DIRECTIONAL = ''UNAVAILABLE_BECAME_DIRECTIONAL''"
| "alert_reason_text CONFIDENCE_ONLY_CHANGE = ''CONFIDENCE_ONLY_CHANGE''"
| "alert_reason_text PACKAGE_IDENTITY_ONLY_CHANGE = ''PACKAGE_IDENTITY_ONLY_CHANGE''"
| "alert_reason_text LABEL_ONLY_CHANGE = ''LABEL_ONLY_CHANGE''"
| "alert_reason_text IMMATERIAL_GROWTH_RATE_CHANGE = ''IMMATERIAL_GROWTH_RATE_CHANGE''"
| "alert_reason_text NO_MATERIAL_CHANGE = ''NO_MATERIAL_CHANGE''"

text \<open>The text \<^verbatim>\<open>computeWatchResultDigest\<close> hashes.\<close>

definition watch_result_text :: "momentum_outcome \<Rightarrow> string" where
  "watch_result_text r = json_text (JObj
     [(''schemaVersion'', JStr ''recent-trade-momentum-result-v1''), (''recipe'', JStr ''recent-trade-momentum-v1''),
      (''monthlyPackageId'', JStr (mo_monthlyPackageId r)), (''sourceVintageId'', JStr (mo_sourceVintageId r)),
      (''reporterIso2'', JStr (mo_reporterIso2 r)), (''hs12Code'', JStr (mo_hs12Code r)),
      (''cutoffMonth'', JStr (mo_cutoffMonth r)), (''coverageState'', JStr (coverage_text (mo_coverageState r))),
      (''signalState'', json_of (map_option signal_text (mo_signalState r))),
      (''reasonCodes'', JArr (map (\<lambda>x. JStr (reason_text x)) (mo_reasonCodes r))),
      (''growthRateDecimal'', json_of (mo_growthRateDecimal r)),
      (''confidence'', json_of (map_option confidence_text (mo_confidence r)))])"

subsection \<open>The decisions of the run\<close>

record evaluate_watches_input =
  ew_packageIdentity :: string
  ew_cutoffMonth :: string
  ew_evaluatorId :: string
  ew_batchSize :: int
  ew_leaseSeconds :: "int option"
  ew_recipeId :: "string option"
  ew_supersedesPackageIdentity :: "string option"
  ew_revisionReportSha256 :: "string option"

record evaluation_request =
  er_packageIdentity :: string
  er_reportingEconomyIso2 :: string
  er_hs12Code :: string

type_synonym evaluation_source = "evaluation_request \<Rightarrow> thrown + momentum_outcome option"

record evaluation_summary =
  em_claimedWatchCount :: nat
  em_evaluatedWatchCount :: nat
  em_skippedWatchCount :: nat
  em_createdEventCount :: nat
  em_claimedBatchSizes :: "nat list"

definition isQuarterEndpoint :: "string \<Rightarrow> bool" where
  "isQuarterEndpoint m \<longleftrightarrow> drop (length m - 3) m \<in> {''-03'', ''-06'', ''-09'', ''-12''}"

definition shouldEvaluateCadence :: "opportunity_watch \<Rightarrow> evaluate_watches_input \<Rightarrow> bool" where
  "shouldEvaluateCadence watch i \<longleftrightarrow>
     ow_cadence watch = MONTHLY \<or> isQuarterEndpoint (ew_cutoffMonth i)
     \<or> (ew_supersedesPackageIdentity i \<noteq> None
        \<and> map_option le_cutoffMonth (ow_lastEvaluation watch) = Some (ew_cutoffMonth i))"

definition toDecisionSnapshot :: "last_evaluation \<Rightarrow> evaluation_snapshot" where
  "toDecisionSnapshot e =
     \<lparr>es_recipeId = le_recipeId e, es_packageId = le_packageId e, es_cutoffMonth = le_cutoffMonth e,
      es_resultDigest = le_resultDigest e, es_state = le_state e, es_growthRateDecimal = le_growthRateDecimal e,
      es_confidence = le_confidence e, es_evaluatedAt = le_evaluatedAt e, es_alertEventId = le_alertEventId e\<rparr>"

definition isDirectional :: "string \<Rightarrow> bool" where
  "isDirectional s = (s = ''RISING'' \<or> s = ''RISING_FAST'' \<or> s = ''FALLING'' \<or> s = ''FALLING_FAST'')"

definition revisionMateriallyChanged :: "last_evaluation \<Rightarrow> momentum_outcome \<Rightarrow> bool" where
  "revisionMateriallyChanged prior current =
     (if le_state prior \<noteq> os_state (stateFromOutcome current) then True
      else case (le_growthRateDecimal prior, mo_growthRateDecimal current) of
             (Some p, Some c) \<Rightarrow> js_ge (js_abs (js_minus (js_Number c) (js_Number p))) (to_number (1 / 10))
           | _ \<Rightarrow> False)"

definition decideRevisionEventKind :: "last_evaluation option \<Rightarrow> momentum_outcome \<Rightarrow> string option \<Rightarrow> string option" where
  "decideRevisionEventKind prior current supersedes =
     (case (supersedes, prior) of
        (Some s, Some p) \<Rightarrow>
          if le_packageId p \<noteq> s \<or> le_cutoffMonth p \<noteq> mo_cutoffMonth current then None
          else
            let currentDirectional = isDirectional (os_state (stateFromOutcome current));
                priorDirectional = isDirectional (le_state p)
            in if le_alertEventId p \<noteq> None \<and> priorDirectional \<and> \<not> currentDirectional then Some ''REVISION_RETRACTION''
               else if le_alertEventId p \<noteq> None \<and> \<not> priorDirectional \<and> currentDirectional then Some ''REVISION_REINSTATEMENT''
               else if le_alertEventId p \<noteq> None \<and> currentDirectional \<and> revisionMateriallyChanged p current
               then Some ''REVISION_UPDATE''
               else None
      | _ \<Rightarrow> None)"

definition revisionPayload ::
  "string \<Rightarrow> last_evaluation option \<Rightarrow> momentum_outcome \<Rightarrow> string \<Rightarrow> evaluate_watches_input \<Rightarrow> json" where
  "revisionPayload kind prior current newState i = JObj
     [(''revisionKind'', JStr kind),
      (''originalAlertEventId'', json_of (Option.bind prior le_alertEventId)),
      (''oldPackageId'', json_of (ew_supersedesPackageIdentity i)),
      (''newPackageId'', JStr (ew_packageIdentity i)),
      (''oldState'', json_of (map_option le_state prior)),
      (''newState'', JStr newState),
      (''oldGrowthRateDecimal'', json_of (Option.bind prior le_growthRateDecimal)),
      (''newGrowthRateDecimal'', json_of (mo_growthRateDecimal current)),
      (''affectedPeriods'', JObj
         [(''recentMonths'', JArr (map JStr (mo_recentMonths current))),
          (''baselineMonths'', JArr (map JStr (mo_baselineMonths current))),
          (''cutoffMonth'', JStr (mo_cutoffMonth current))]),
      (''revisionReportSha256'', json_of (ew_revisionReportSha256 i))]"

subsection \<open>The run\<close>

definition ensure_preferred :: "string \<Rightarrow> delivery_preference \<Rightarrow> unit \<Rightarrow> unit store_op" where
  "ensure_preferred eventId preference done =
     (if wp_enabled preference then andThen (ensureDeliveryState eventId (wp_channel preference)) (\<lambda>_. ret ())
      else ret ())"

definition recordDeliveries :: "opportunity_watch \<Rightarrow> string \<Rightarrow> unit store_op" where
  "recordDeliveries watch eventId = foldOp (ensure_preferred eventId) (ow_deliveryPreferences watch) ()"

definition run_recipe :: "evaluate_watches_input \<Rightarrow> string" where
  "run_recipe i = (case ew_recipeId i of None \<Rightarrow> ''recent-trade-momentum-v1'' | Some r \<Rightarrow> r)"

definition computeWatchResultDigest :: "momentum_outcome \<Rightarrow> string store_op" where
  "computeWatchResultDigest r = reading (\<lambda>w. w_sha256 w (watch_result_text r))"

definition computeAlertDedupeKey :: "string \<Rightarrow> string \<Rightarrow> string \<Rightarrow> string \<Rightarrow> string \<Rightarrow> string option \<Rightarrow> string store_op" where
  "computeAlertDedupeKey watchId recipeId cutoffMonth packageId eventKind priorAlertEventId =
     reading (\<lambda>w. w_sha256 w (alert_dedupe_text watchId recipeId cutoffMonth packageId eventKind priorAlertEventId))"

definition prior_event :: "opportunity_watch \<Rightarrow> string option" where
  "prior_event watch = Option.bind (ow_lastEvaluation watch) le_alertEventId"

text \<open>Recording one event, with its deliveries when it is new: the event and whether it was created.\<close>

definition record_event ::
  "evaluate_watches_input \<Rightarrow> opportunity_watch \<Rightarrow> momentum_outcome \<Rightarrow> string \<Rightarrow> string option \<Rightarrow> json \<Rightarrow> string \<Rightarrow>
   (alert_event \<times> bool) store_op" where
  "record_event i watch result kind superseded detail occurredAt =
     andThen (computeAlertDedupeKey (ow_id watch) (run_recipe i) (mo_cutoffMonth result) (ew_packageIdentity i) kind
       (prior_event watch)) (\<lambda>key.
     andThen (recordAlertEvent
       \<lparr>ri_watchId = ow_id watch, ri_kind = kind, ri_dedupeKey = key, ri_recipeId = Some (run_recipe i),
        ri_packageId = Some (ew_packageIdentity i), ri_supersededPackageId = superseded,
        ri_cutoffMonth = Some (mo_cutoffMonth result), ri_priorEventId = prior_event watch,
        ri_detail = detail, ri_occurredAt = occurredAt\<rparr>) (\<lambda>(event, created).
     andThen (if created then recordDeliveries watch (ae_id event) else ret ()) (\<lambda>_.
     ret (event, created))))"

definition evaluator_detail :: "alert_reason \<Rightarrow> momentum_outcome \<Rightarrow> string \<Rightarrow> json" where
  "evaluator_detail reason result digest =
     JObj [(''reason'', JStr (alert_reason_text reason)),
           (''state'', JStr (os_state (stateFromOutcome result))),
           (''growthRateDecimal'', json_of (mo_growthRateDecimal result)),
           (''confidence'', json_of (map_option confidence_text (mo_confidence result))),
           (''resultDigest'', JStr digest)]"

text \<open>The alert or revision event of one evaluated watch: the event id its evaluation refers to, and whether an event was
  created.\<close>

definition raise_event ::
  "evaluate_watches_input \<Rightarrow> opportunity_watch \<Rightarrow> momentum_outcome \<Rightarrow> string \<Rightarrow> string \<Rightarrow> (string option \<times> bool) store_op" where
  "raise_event i watch result resultDigest occurredAt =
     (case decideRevisionEventKind (ow_lastEvaluation watch) result (ew_supersedesPackageIdentity i) of
        Some kind \<Rightarrow>
          andThen (record_event i watch result kind (ew_supersedesPackageIdentity i)
            (revisionPayload kind (ow_lastEvaluation watch) result (os_state (stateFromOutcome result)) i) occurredAt)
            (\<lambda>(event, created). ret (prior_event watch, created))
      | None \<Rightarrow>
          (case decideWatchAlert (map_option toDecisionSnapshot (ow_lastEvaluation watch)) result (run_recipe i) of
             Inl e \<Rightarrow> raise (OtherError e)
           | Inr decision \<Rightarrow>
               if ad_alert decision
               then andThen (record_event i watch result WATCH_ALERT_EVENT_KIND None
                      (evaluator_detail (ad_reason decision) result resultDigest) occurredAt)
                      (\<lambda>(event, created). ret (Some (ae_id event), created))
               else ret (None, False)))"

definition skip_claim ::
  "evaluate_watches_input \<Rightarrow> claimed_watch \<Rightarrow> evaluation_summary \<times> int \<Rightarrow> (evaluation_summary \<times> int) store_op" where
  "skip_claim i claim = (\<lambda>(s, eventSequence).
     andThen (completeEvaluation (cw_leaseId claim) (ew_packageIdentity i) None) (\<lambda>_.
     ret (s\<lparr>em_skippedWatchCount := em_skippedWatchCount s + 1\<rparr>, eventSequence)))"

definition evaluate_result ::
  "evaluate_watches_input \<Rightarrow> claimed_watch \<Rightarrow> momentum_outcome \<Rightarrow> evaluation_summary \<times> int \<Rightarrow>
   (evaluation_summary \<times> int) store_op" where
  "evaluate_result i claim result = (\<lambda>(s, eventSequence).
     andThen (computeWatchResultDigest result) (\<lambda>resultDigest.
     andThen (raise_event i (cw_watch claim) result resultDigest (to_iso eventSequence)) (\<lambda>(alertEventId, created).
     andThen (completeEvaluation (cw_leaseId claim) (ew_packageIdentity i) (Some
       \<lparr>ce_recipeId = run_recipe i, ce_cutoffMonth = mo_cutoffMonth result, ce_resultDigest = resultDigest,
        ce_state = os_state (stateFromOutcome result), ce_growthRateDecimal = mo_growthRateDecimal result,
        ce_confidence = map_option confidence_text (mo_confidence result),
        ce_alertEventId = alertEventId\<rparr>)) (\<lambda>_.
     ret (s\<lparr>em_evaluatedWatchCount := em_evaluatedWatchCount s + 1,
            em_createdEventCount := em_createdEventCount s + (if created then 1 else 0)\<rparr>, eventSequence + 1)))))"

definition evaluate_claim ::
  "evaluation_source \<Rightarrow> evaluate_watches_input \<Rightarrow> claimed_watch \<Rightarrow> evaluation_summary \<times> int \<Rightarrow>
   (evaluation_summary \<times> int) store_op" where
  "evaluate_claim source i claim st =
     (let watch = cw_watch claim
      in if \<not> shouldEvaluateCadence watch i then skip_claim i claim st
         else
           andThen (check (source \<lparr>er_packageIdentity = ew_packageIdentity i,
             er_reportingEconomyIso2 = ow_reportingEconomyIso2 watch, er_hs12Code = ow_hs12Code watch\<rparr>)) (\<lambda>outcome.
           case outcome of None \<Rightarrow> skip_claim i claim st | Some result \<Rightarrow> evaluate_result i claim result st))"

definition count_batch :: "nat \<Rightarrow> evaluation_summary \<Rightarrow> evaluation_summary" where
  "count_batch n s = s\<lparr>em_claimedBatchSizes := em_claimedBatchSizes s @ [n],
     em_claimedWatchCount := em_claimedWatchCount s + n\<rparr>"

text \<open>The \<^verbatim>\<open>for (;;)\<close> loop with fuel; \<^theory_text>\<open>None\<close> when the fuel is gone.\<close>

fun evaluation_loop ::
  "nat \<Rightarrow> evaluation_source \<Rightarrow> evaluate_watches_input \<Rightarrow> evaluation_summary \<times> int \<Rightarrow> evaluation_summary option store_op" where
  "evaluation_loop 0 source i st = ret None"
| "evaluation_loop (Suc fuel) source i st =
     andThen (claimWatchesForEvaluation (ew_evaluatorId i) (ew_packageIdentity i) (ew_batchSize i)
       (case ew_leaseSeconds i of None \<Rightarrow> 300 | Some s \<Rightarrow> s)) (\<lambda>claims.
     if claims = [] then ret (Some (fst st))
     else andThen (foldOp (evaluate_claim source i) claims (count_batch (length claims) (fst st), snd st))
            (evaluation_loop fuel source i))"

definition empty_summary :: evaluation_summary where
  "empty_summary = \<lparr>em_claimedWatchCount = 0, em_evaluatedWatchCount = 0, em_skippedWatchCount = 0,
     em_createdEventCount = 0, em_claimedBatchSizes = []\<rparr>"

definition evaluateOpportunityWatchesForPackage ::
  "nat \<Rightarrow> evaluation_source \<Rightarrow> evaluate_watches_input \<Rightarrow> evaluation_summary option store_op" where
  "evaluateOpportunityWatchesForPackage fuel source i =
     andThen now (\<lambda>eventSequence. evaluation_loop fuel source i (empty_summary, eventSequence))"

subsection \<open>The threshold of a revision\<close>

text \<open>The revision rule subtracts two doubles, so a rate that moved by exactly a tenth can stay under the threshold,
  while the alert rule counts the same move.\<close>

lemma to_number_value:
  assumes "pow2 e \<le> x" "x < pow2 (e + 1)" "- 1022 \<le> e" "e \<le> 900" "round_even (x / pow2 (e - 52)) = n"
  shows "to_number x = Finite (of_int n * pow2 (e - 52))"
proof -
  have b: "binade x = e" using assms(1,2) by (rule binade_unique)
  have x: "0 < x" using assms(1) pow2_pos [of e] by linarith
  have m: "nearest_double x = of_int n * pow2 (e - 52)" using x b assms(3,5) by (simp add: nearest_double_def spacing_def)
  have "nearest_double x \<le> pow2 (e + 1)" by (rule nearest_le_pow2) (use x assms b in \<open>auto simp: spacing_def\<close>)
  also have "pow2 (e + 1) < pow2 1024" using assms(4) by (simp add: pow2_less_iff)
  finally show ?thesis using x m by (simp add: to_number_def)
qed

lemma three_tenths:
  "js_Number ''0.300000000000'' = Finite (5404319552844595 / 18014398509481984)"
  "js_Number ''0.200000000000'' = Finite (7205759403792794 / 36028797018963968)"
  "to_number (1 / 10) = Finite (7205759403792794 / 72057594037927936)"
  "to_number (900719925474099 / 9007199254740992) = Finite (900719925474099 / 9007199254740992)"
proof -
  have floors: "\<lfloor>27021597764222976 / 5 :: rat\<rfloor> = 5404319552844595" "\<lfloor>36028797018963968 / 5 :: rat\<rfloor> = 7205759403792793"
    by (rule floor_unique; simp)+
  then have "to_number (3 / 10) = Finite (of_int 5404319552844595 * pow2 (- 2 - 52))"
    by (intro to_number_value) (simp_all add: pow2_def round_even_def Let_def floors)
  then show "js_Number ''0.300000000000'' = Finite (5404319552844595 / 18014398509481984)"
    by (simp add: js_Number_def js_unsigned_def js_exponent_def trim_def trim_start_def is_space_def decimal_eval pow10_def pow2_def)
  have "to_number (2 / 10) = Finite (of_int 7205759403792794 * pow2 (- 3 - 52))"
    by (rule to_number_value) (simp_all add: pow2_def round_even_def Let_def floors)
  then show "js_Number ''0.200000000000'' = Finite (7205759403792794 / 36028797018963968)"
    by (simp add: js_Number_def js_unsigned_def js_exponent_def trim_def trim_start_def is_space_def decimal_eval pow10_def pow2_def)
  have "to_number (1 / 10) = Finite (of_int 7205759403792794 * pow2 (- 4 - 52))"
    by (rule to_number_value) (simp_all add: pow2_def round_even_def Let_def floors)
  then show "to_number (1 / 10) = Finite (7205759403792794 / 72057594037927936)" by (simp add: pow2_def)
  have "to_number (900719925474099 / 9007199254740992) = Finite (of_int 7205759403792792 * pow2 (- 4 - 52))"
    by (rule to_number_value) (simp_all add: pow2_def round_even_def Let_def floors)
  then show "to_number (900719925474099 / 9007199254740992) = Finite (900719925474099 / 9007199254740992)"
    by (simp add: pow2_def)
qed

definition prior_evaluation :: last_evaluation where
  "prior_evaluation = \<lparr>le_watchId = ''w'', le_recipeId = ''recent-trade-momentum-v1'', le_packageId = ''p1'',
     le_cutoffMonth = ''2024-12'', le_resultDigest = ''d'', le_state = ''RISING_FAST'',
     le_growthRateDecimal = Some ''0.200000000000'', le_confidence = Some ''HIGH'', le_evaluatedAt = ''t'',
     le_alertEventId = Some ''e''\<rparr>"

theorem revision_misses_a_tenth:
  "\<not> revisionMateriallyChanged prior_evaluation (sample_outcome (Some ''0.300000000000''))
   \<and> toDecisionSnapshot prior_evaluation = sample_prior"
  by (simp add: revisionMateriallyChanged_def prior_evaluation_def sample_outcome_def stateFromOutcome_def three_tenths
      toDecisionSnapshot_def sample_prior_def)

subsection \<open>The run ends\<close>

text \<open>Recording an event touches neither watches nor leases.\<close>

definition same_claims :: "watch_row list \<Rightarrow> evaluation_lease list \<Rightarrow> world \<Rightarrow> bool" where
  "same_claims ws ls w \<longleftrightarrow> watches (w_db w) = ws \<and> evaluation_leases (w_db w) = ls"

lemma same_claims_statement:
  "(\<And>db. watches (f db) = watches db \<and> evaluation_leases (f db) = evaluation_leases db) \<Longrightarrow> keeps (same_claims ws ls) (execute f)"
  "(\<And>db db'. g db = Inr db' \<Longrightarrow> watches db' = watches db \<and> evaluation_leases db' = evaluation_leases db)
    \<Longrightarrow> keeps (same_claims ws ls) (try_execute g)"
  by (auto simp: keeps_def same_claims_def execute_def try_execute_def split: sum.splits)

lemma same_claims_basic [keeps_intros]:
  "keeps (same_claims ws ls) now" "keeps (same_claims ws ls) now_iso" "keeps (same_claims ws ls) randomUUID"
  by (simp_all add: keeps_def same_claims_def now_def now_iso_def randomUUID_def)

lemma same_claims_transaction [keeps_intros]:
  "keeps (same_claims ws ls) m \<Longrightarrow> keeps (same_claims ws ls) (transaction m)"
  by (simp add: keeps_def same_claims_def transaction_def split: prod.splits sum.splits) (metis snd_conv)

lemma same_claims_events [keeps_intros]:
  "keeps (same_claims ws ls) (recordAlertEvent ri)" "keeps (same_claims ws ls) (ensureDeliveryState e c)"
proof -
  have "keeps (same_claims ws ls) (getDeliveryState e c)" for e c unfolding getDeliveryState_def by (intro keeps_intros)
  moreover have "keeps (same_claims ws ls) (require_event e)" for e unfolding require_event_def by (intro keeps_intros)
  ultimately show "keeps (same_claims ws ls) (ensureDeliveryState e c)"
    unfolding ensureDeliveryState_def
    by (intro keeps_intros same_claims_statement) (auto simp: insert_delivery_once_def ebind_Inr_iff split: if_splits sum.splits)
  show "keeps (same_claims ws ls) (recordAlertEvent ri)"
    unfolding recordAlertEvent_def
    by (intro keeps_intros same_claims_statement) (auto simp: insert_event_once_def ebind_Inr_iff split: if_splits sum.splits)
qed

lemma keeps_raise_event:
  assumes [keeps_intros]: "\<And>x. keeps P (recordAlertEvent x)" "\<And>e c. keeps P (ensureDeliveryState e c)"
  shows "keeps P (raise_event i watch result dig ts)"
proof -
  have "keeps P (record_event i watch result kind sup detail ts)" for kind sup detail
    unfolding record_event_def computeAlertDedupeKey_def recordDeliveries_def ensure_preferred_def by (intro keeps_intros assms)
  then show ?thesis unfolding raise_event_def by (intro keeps_intros assms) (auto split: sum.splits intro!: keeps_intros)
qed

text \<open>A claim that is dealt with ends in the completion of its lease.\<close>

lemma evaluate_claim_InrD:
  assumes "evaluate_claim source i c (s, n) w = (Inr (s', n'), t)"
  obtains ce u where "completeEvaluation (cw_leaseId c) (ew_packageIdentity i) ce u = (Inr (), t)"
    "watches (w_db u) = watches (w_db w)" "evaluation_leases (w_db u) = evaluation_leases (w_db w)"
    "em_claimedWatchCount s' = em_claimedWatchCount s" "em_claimedBatchSizes s' = em_claimedBatchSizes s"
    "em_evaluatedWatchCount s' + em_skippedWatchCount s' = Suc (em_evaluatedWatchCount s + em_skippedWatchCount s)"
    "em_createdEventCount s \<le> em_evaluatedWatchCount s \<Longrightarrow> em_createdEventCount s' \<le> em_evaluatedWatchCount s'"
proof -
  note deal = that
  have skip: thesis if "skip_claim i c (s, n) w = (Inr (s', n'), t)"
    using that by (intro deal [of None w]) (auto simp: skip_claim_def run_iffs)
  have result: thesis if r: "evaluate_result i c result (s, n) w = (Inr (s', n'), t)" for result
  proof -
    from r obtain dig ev created u ce where e: "raise_event i (cw_watch c) result dig (to_iso n) w = (Inr (ev, created), u)"
      and c: "completeEvaluation (cw_leaseId c) (ew_packageIdentity i) ce u = (Inr (), t)"
      and s': "s' = s\<lparr>em_evaluatedWatchCount := em_evaluatedWatchCount s + 1,
                   em_createdEventCount := em_createdEventCount s + (if created then 1 else 0)\<rparr>"
      by (auto simp: evaluate_result_def run_iffs computeWatchResultDigest_def reading_def)
    have "same_claims (watches (w_db w)) (evaluation_leases (w_db w)) u"
      by (rule keepsD [OF keeps_raise_event [OF same_claims_events] _ e]) (simp add: same_claims_def)
    then show thesis using c s' by (intro deal [OF c]) (auto simp: same_claims_def)
  qed
  show thesis
    using assms skip result
    by (auto simp: evaluate_claim_def Let_def run_iffs split: if_splits option.splits)
qed

subsubsection \<open>The measure\<close>

definition due :: "string \<Rightarrow> database \<Rightarrow> nat" where
  "due p db = length (filter (\<lambda>r. wr_lastEvaluatedPackageId r \<noteq> Some p) (watches db))"

lemma update_count_le:
  "(\<And>r. Q r \<Longrightarrow> \<not> D (f r)) \<Longrightarrow> length (filter D (update_rows Q f rows)) \<le> length (filter D rows)"
  by (induction rows) (auto simp: update_rows_def)

lemma update_count_less:
  assumes "\<And>r. Q r \<Longrightarrow> \<not> D (f r)"
  shows "r \<in> set rows \<Longrightarrow> Q r \<Longrightarrow> D r \<Longrightarrow> length (filter D (update_rows Q f rows)) < length (filter D rows)"
proof (induction rows)
  case (Cons a rows)
  have "length (filter D (update_rows Q f rows)) \<le> length (filter D rows)" using assms by (rule update_count_le)
  moreover have "r \<in> set rows" if "a \<noteq> r" using Cons.prems(1) that by simp
  ultimately show ?case using Cons.IH Cons.prems(2,3) assms by (cases "a = r") (auto simp: update_rows_def)
qed simp

lemma due_update_le:
  "length (filter (\<lambda>r. wr_lastEvaluatedPackageId r \<noteq> Some p)
     (update_rows Q (\<lambda>r. r\<lparr>wr_lastEvaluatedPackageId := Some p, wr_updatedAt := ts\<rparr>) rows))
   \<le> length (filter (\<lambda>r. wr_lastEvaluatedPackageId r \<noteq> Some p) rows)"
  by (rule update_count_le) simp

lemma due_update_less:
  "r \<in> set rows \<Longrightarrow> Q r \<Longrightarrow> wr_lastEvaluatedPackageId r \<noteq> Some p \<Longrightarrow>
   length (filter (\<lambda>r. wr_lastEvaluatedPackageId r \<noteq> Some p)
     (update_rows Q (\<lambda>r. r\<lparr>wr_lastEvaluatedPackageId := Some p, wr_updatedAt := ts\<rparr>) rows))
   < length (filter (\<lambda>r. wr_lastEvaluatedPackageId r \<noteq> Some p) rows)"
  by (rule update_count_less) simp_all

lemma complete_due:
  assumes "completeEvaluation li p ce w = (Inr (), t)"
  shows "due p (w_db t) \<le> due p (w_db w)"
proof -
  have writable: "\<not> w_maintenance w"
    using assms by (cases "w_maintenance w") (simp_all add: completeEvaluation_def andThen_def assertWritable_def)
  show ?thesis
proof (cases "find (\<lambda>l. el_leaseId l = li) (evaluation_leases (w_db w))")
  case None
  with assms completeEvaluation_stale [OF writable, of li p ce] show ?thesis by simp
next
  case (Some l)
  show ?thesis
  proof (cases "el_packageId l = p")
    case True
    from completeEvaluation_InrD(1) [OF assms Some True] show ?thesis by (simp add: due_def due_update_le)
  next
    case False
    with assms Some completeEvaluation_stale [OF writable, of li p ce] show ?thesis by simp
  qed
qed
qed

lemma evaluate_claim_due:
  assumes "evaluate_claim source i c (s, n) w = (Inr (s', n'), t)"
  shows "due (ew_packageIdentity i) (w_db t) \<le> due (ew_packageIdentity i) (w_db w)"
  using assms
proof (rule evaluate_claim_InrD)
  fix ce u assume "completeEvaluation (cw_leaseId c) (ew_packageIdentity i) ce u = (Inr (), t)" "watches (w_db u) = watches (w_db w)"
  then show ?thesis using complete_due by (fastforce simp: due_def)
qed

text \<open>The first claim of a batch is completed on its own lease, so one watch less is due.\<close>

lemma leased_by_id:
  assumes "database_ok db" "leased p i li x db"
  obtains l where "find (\<lambda>l. el_leaseId l = li) (evaluation_leases db) = Some l" "el_packageId l = p" "el_watchId l = i"
proof -
  from assms(2) obtain l where l: "l \<in> set (evaluation_leases db)" "el_watchId l = i" "el_packageId l = p" "el_leaseId l = li"
    by (auto simp: leased_def dest: find_SomeD)
  have clash: "no_clash lease_clash (evaluation_leases db)" using assms(1) by (simp add: database_ok_def unique_ok_def)
  obtain m where m: "find (\<lambda>l. el_leaseId l = li) (evaluation_leases db) = Some m"
    using l by (cases "find (\<lambda>l. el_leaseId l = li) (evaluation_leases db)") (auto simp: find_None_iff)
  then have "m \<in> set (evaluation_leases db)" "el_leaseId m = li" by (auto dest: find_SomeD)
  then have "m = l" using lease_table.no_clash_unique [OF clash _ l(1)] l(4) by (simp add: lease_clash_def)
  with l m show thesis by (intro that) auto
qed

lemma first_claim_due:
  assumes "evaluate_claim source i c (s, n) w = (Inr (s', n'), t)" "database_ok (w_db w)"
    and "leased (ew_packageIdentity i) (ow_id (cw_watch c)) (cw_leaseId c) x (w_db w)"
    and "r \<in> set (watches (w_db w))" "wr_id r = ow_id (cw_watch c)" "wr_lastEvaluatedPackageId r \<noteq> Some (ew_packageIdentity i)"
  shows "due (ew_packageIdentity i) (w_db t) < due (ew_packageIdentity i) (w_db w)"
  using assms(1)
proof (rule evaluate_claim_InrD)
  fix ce u assume c: "completeEvaluation (cw_leaseId c) (ew_packageIdentity i) ce u = (Inr (), t)"
    and u: "watches (w_db u) = watches (w_db w)" "evaluation_leases (w_db u) = evaluation_leases (w_db w)"
  from leased_by_id [OF assms(2,3)] obtain l where
    l: "find (\<lambda>l. el_leaseId l = cw_leaseId c) (evaluation_leases (w_db w)) = Some l" "el_packageId l = ew_packageIdentity i"
      "el_watchId l = ow_id (cw_watch c)" .
  from completeEvaluation_InrD(1) [OF c _ l(2)] l(1) u
  have "watches (w_db t) = update_rows (\<lambda>r. wr_id r = el_watchId l) (\<lambda>r. r\<lparr>wr_lastEvaluatedPackageId := Some (ew_packageIdentity i),
           wr_updatedAt := to_iso (w_clock u (w_reads u))\<rparr>) (watches (w_db w))" by simp
  then show ?thesis unfolding due_def using due_update_less [OF assms(4), of "\<lambda>r. wr_id r = el_watchId l"] assms(5,6) l(3) by simp
qed

text \<open>A batch: the due watches become fewer, the summary counts every claim.\<close>

definition summary_ok :: "evaluation_summary \<Rightarrow> nat \<Rightarrow> bool" where
  "summary_ok s open_claims \<longleftrightarrow>
     em_claimedWatchCount s = em_evaluatedWatchCount s + em_skippedWatchCount s + open_claims
     \<and> em_createdEventCount s \<le> em_evaluatedWatchCount s \<and> sum_list (em_claimedBatchSizes s) = em_claimedWatchCount s"

lemma batch_rest:
  "foldOp (evaluate_claim source i) cs st w = (Inr (s', n'), t) \<Longrightarrow> summary_ok (fst st) (length cs) \<Longrightarrow>
   due (ew_packageIdentity i) (w_db t) \<le> due (ew_packageIdentity i) (w_db w) \<and> summary_ok s' 0"
proof (induction cs arbitrary: st w)
  case Nil
  then show ?case by (auto simp: ret_def)
next
  case (Cons c cs)
  from Cons.prems(1) obtain s1 n1 u where one: "evaluate_claim source i c (fst st, snd st) w = (Inr (s1, n1), u)"
    and rest: "foldOp (evaluate_claim source i) cs (s1, n1) u = (Inr (s', n'), t)"
    by (auto simp: run_iffs)
  from one have "summary_ok s1 (length cs)"
    by (rule evaluate_claim_InrD) (use Cons.prems(2) in \<open>auto simp: summary_ok_def\<close>)
  with Cons.IH [OF rest] evaluate_claim_due [OF one] show ?case by simp
qed

subsubsection \<open>The loop\<close>

lemma keeps_consistent_claim [keeps_intros]: "keeps consistent (evaluate_claim source i c st)"
proof -
  have r: "keeps consistent (raise_event i watch result dig ts)" for watch result dig ts
    by (intro keeps_raise_event keeps_intros)
  have s: "keeps consistent (skip_claim i c st)" for st
    by (cases st) (simp add: skip_claim_def, intro keeps_intros)
  have "keeps consistent (evaluate_result i c result st)" for result st
    by (cases st) (simp add: evaluate_result_def computeWatchResultDigest_def, intro keeps_intros r)
  then show ?thesis unfolding evaluate_claim_def by (intro keeps_intros s)
qed

lemma claim_nothing:
  assumes "claimWatchesForEvaluation ev p l s w = (Inr [], t)" "database_ok (w_db w)"
  shows "w_db t = w_db w"
    "\<forall>r \<in> set (watches (w_db t)). \<not> eligible_watch p (to_iso (w_clock t (w_reads t - 1))) (evaluation_leases (w_db t)) r"
proof -
  note none = claimWatchesForEvaluation_InrD [OF assms]
  let ?n = "to_iso (w_clock w (w_reads w))"
  have e: "eligible_watches p ?n l (w_db w) = []" using none(1) by simp
  then show "w_db t = w_db w" using assms(1) by (auto simp: claimWatchesForEvaluation_def run_iffs Let_def
    requireNonEmpty_def requirePositiveInt_def ret_def split: if_splits)
  moreover have "filter (eligible_watch p ?n (evaluation_leases (w_db w))) (watches (w_db w)) = []"
    using e none(7) by (simp add: eligible_watches_def) (metis length_0_conv length_sort)
  ultimately show "\<forall>r \<in> set (watches (w_db t)). \<not> eligible_watch p (to_iso (w_clock t (w_reads t - 1))) (evaluation_leases (w_db t)) r"
    by (simp add: filter_empty_conv none(4,5))
qed

lemma batch_due:
  assumes "claimWatchesForEvaluation ev (ew_packageIdentity i) l sec w = (Inr cs, u)" "cs \<noteq> []" "database_ok (w_db w)"
    and "foldOp (evaluate_claim source i) cs (count_batch (length cs) s, n) u = (Inr (s', n'), t)" "summary_ok s 0"
  shows "due (ew_packageIdentity i) (w_db t) < due (ew_packageIdentity i) (w_db w)" "summary_ok s' 0" "database_ok (w_db t)"
proof -
  let ?p = "ew_packageIdentity i"
  note claimed = claimWatchesForEvaluation_InrD [OF assms(1,3)]
  have u: "database_ok (w_db u)" by (rule keepsD [OF watch_operations_keep(7) assms(3,1)])
  have "keeps consistent (foldOp (evaluate_claim source i) cs st)" for st by (intro keeps_intros)
  from keepsD [OF this u assms(4)] show "database_ok (w_db t)" .
  obtain c cs' where cs: "cs = c # cs'" using assms(2) by (cases cs) auto
  from assms(4) cs obtain s1 n1 v where one: "evaluate_claim source i c (count_batch (length cs) s, n) u = (Inr (s1, n1), v)"
    and rest: "foldOp (evaluate_claim source i) cs' (s1, n1) v = (Inr (s', n'), t)" by (auto simp: run_iffs)
  have ok: "summary_ok (count_batch (length cs) s) (length cs)" using assms(5) by (simp add: summary_ok_def count_batch_def)
  from one have "summary_ok s1 (length cs')"
    by (rule evaluate_claim_InrD) (use ok cs in \<open>auto simp: summary_ok_def\<close>)
  with batch_rest [OF rest] have "due ?p (w_db t) \<le> due ?p (w_db v)" "summary_ok s' 0" by simp_all
  then show "summary_ok s' 0" by simp
  have "ow_id (cw_watch c) \<in> wr_id ` set (eligible_watches ?p (to_iso (w_clock w (w_reads w))) l (w_db w))"
    using claimed(1) cs by (metis list.set_intros(1) list.set_map list.simps(9))
  then obtain r where r: "r \<in> set (watches (w_db w))" "wr_id r = ow_id (cw_watch c)" "wr_lastEvaluatedPackageId r \<noteq> Some ?p"
    by (auto dest!: eligible_watches_set simp: eligible_watch_def)
  obtain x where "leased ?p (ow_id (cw_watch c)) (cw_leaseId c) x (w_db u)" using claimed(2) cs by auto
  from first_claim_due [OF one u this _ r(2,3)] have "due ?p (w_db v) < due ?p (w_db u)" using r(1) by (simp add: claimed(3))
  also have "due ?p (w_db u) = due ?p (w_db w)" by (simp add: due_def claimed(3))
  finally show "due ?p (w_db t) < due ?p (w_db w)" using \<open>due ?p (w_db t) \<le> due ?p (w_db v)\<close> by simp
qed

lemma evaluation_loop_ends:
  "database_ok (w_db w) \<Longrightarrow> due (ew_packageIdentity i) (w_db w) < fuel \<Longrightarrow> summary_ok (fst st) 0 \<Longrightarrow>
   (\<exists>e t. evaluation_loop fuel source i st w = (Inl e, t))
   \<or> (\<exists>s t. evaluation_loop fuel source i st w = (Inr (Some s), t) \<and> summary_ok s 0
       \<and> (\<forall>r \<in> set (watches (w_db t)). \<not> eligible_watch (ew_packageIdentity i) (to_iso (w_clock t (w_reads t - 1)))
              (evaluation_leases (w_db t)) r))"
proof (induction fuel arbitrary: st w)
  case (Suc fuel)
  let ?claim = "claimWatchesForEvaluation (ew_evaluatorId i) (ew_packageIdentity i) (ew_batchSize i)
       (case ew_leaseSeconds i of None \<Rightarrow> 300 | Some s \<Rightarrow> s)"
  obtain rc u where claim: "?claim w = (rc, u)" by fastforce
  show ?case
  proof (cases rc)
    case (Inl e)
    with claim show ?thesis by (simp add: andThen_Inl)
  next
    case (Inr cs)
    with claim have claim: "?claim w = (Inr cs, u)" by simp
    show ?thesis
    proof (cases "cs = []")
      case True
      from claim have "evaluation_loop (Suc fuel) source i st w = (Inr (Some (fst st)), u)"
        using True by (simp add: andThen_Inr [where m = ?claim, OF claim] ret_def)
      with claim_nothing(2) [OF claim [unfolded True] Suc.prems(1)] Suc.prems(3) show ?thesis by blast
    next
      case False
      obtain rb v where fold: "foldOp (evaluate_claim source i) cs (count_batch (length cs) (fst st), snd st) u = (rb, v)" by fastforce
      have step: "evaluation_loop (Suc fuel) source i st w
          = andThen (foldOp (evaluate_claim source i) cs (count_batch (length cs) (fst st), snd st)) (evaluation_loop fuel source i) u"
        using False by (simp add: andThen_Inr [where m = ?claim, OF claim])
      show ?thesis
      proof (cases rb)
        case (Inl e)
        then show ?thesis using step fold by (simp add: andThen_Inl)
      next
        case (Inr st')
        obtain s' n' where st': "st' = (s', n')" by fastforce
        with fold Inr have fold: "foldOp (evaluate_claim source i) cs (count_batch (length cs) (fst st), snd st) u = (Inr (s', n'), v)" by simp
        note batch = batch_due [OF claim False Suc.prems(1) fold Suc.prems(3)]
        have "due (ew_packageIdentity i) (w_db v) < fuel" using batch(1) Suc.prems(2) by simp
        from Suc.IH [OF batch(3) this, of "(s', n')"] batch(2) show ?thesis
          by (simp only: step andThen_Inr [where m = "foldOp _ _ _", OF fold] fst_conv)
      qed
    qed
  qed
qed simp

text \<open>C17: \<^verbatim>\<open>evaluateOpportunityWatchesForPackage\<close> always ends: on a store that satisfies its schema, as many rounds as
  there are watches suffice, plus one. Either something threw, or it returns a summary in which every claimed watch was
  evaluated or skipped, and by the time of its last claim every active watch has been evaluated for the package or
  is held by a live lease.\<close>

theorem evaluation_run_ends:
  assumes "database_ok (w_db w)" "length (watches (w_db w)) < fuel"
  shows "(\<exists>e t. evaluateOpportunityWatchesForPackage fuel source i w = (Inl e, t))
    \<or> (\<exists>s t. evaluateOpportunityWatchesForPackage fuel source i w = (Inr (Some s), t)
        \<and> em_claimedWatchCount s = em_evaluatedWatchCount s + em_skippedWatchCount s
        \<and> em_claimedWatchCount s = sum_list (em_claimedBatchSizes s) \<and> em_createdEventCount s \<le> em_evaluatedWatchCount s
        \<and> (\<forall>r \<in> set (watches (w_db t)). wr_status r = ACTIVE \<longrightarrow> wr_deletedAt r = None \<longrightarrow>
              wr_lastEvaluatedPackageId r = Some (ew_packageIdentity i)
              \<or> list_ex (live_lease (wr_id r) (ew_packageIdentity i) (to_iso (w_clock t (w_reads t - 1)))) (evaluation_leases (w_db t))))"
proof -
  let ?w = "w\<lparr>w_reads := w_reads w + 1\<rparr>" and ?st = "(empty_summary, w_clock w (w_reads w))"
  have run: "evaluateOpportunityWatchesForPackage fuel source i w = evaluation_loop fuel source i ?st ?w"
    by (simp add: evaluateOpportunityWatchesForPackage_def andThen_def now_def)
  have "due (ew_packageIdentity i) (w_db ?w) < fuel"
    using assms(2) by (simp add: due_def) (rule le_less_trans [OF length_filter_le])
  moreover have "summary_ok (fst ?st) 0" by (simp add: summary_ok_def empty_summary_def)
  moreover have "database_ok (w_db ?w)" using assms(1) by simp
  ultimately consider e t where "evaluation_loop fuel source i ?st ?w = (Inl e, t)"
    | s t where "evaluation_loop fuel source i ?st ?w = (Inr (Some s), t)" "summary_ok s 0"
        "\<forall>r \<in> set (watches (w_db t)). \<not> eligible_watch (ew_packageIdentity i) (to_iso (w_clock t (w_reads t - 1)))
              (evaluation_leases (w_db t)) r"
    using evaluation_loop_ends by blast
  then show ?thesis
  proof cases
    case 1
    then show ?thesis unfolding run by blast
  next
    case (2 s t)
    then show ?thesis unfolding run
      by (intro disjI2 exI [of _ s] exI [of _ t]) (auto simp: summary_ok_def eligible_watch_def)
  qed
qed

definition quiet_run :: evaluate_watches_input where
  "quiet_run = \<lparr>ew_packageIdentity = ''pkg'', ew_cutoffMonth = ''2024-12'', ew_evaluatorId = ''e'', ew_batchSize = 10,
     ew_leaseSeconds = None, ew_recipeId = None, ew_supersedesPackageIdentity = None, ew_revisionReportSha256 = None\<rparr>"

theorem evaluation_run_ends_witness:
  "fst (evaluateOpportunityWatchesForPackage 2 (\<lambda>_. Inr (Some (sample_outcome None))) quiet_run watch_world) \<noteq> Inr None"
  using evaluation_run_ends [of watch_world 2 "\<lambda>_. Inr (Some (sample_outcome None))" quiet_run] watch_world_ok
  by (auto simp: watch_opened(2))

end
