(* ===== verification/Alert_Message.thy ===== *)
theory Alert_Message
  imports Watch_Evaluator
begin

text \<open>
  \<^verbatim>\<open>src/operations/delivery/alert-message.ts\<close>: the English text of an alert, rendered from the stored
  detail of its event. The Chinese texts are left out; a key counts as a member of a literal table when the table
  lists it.
\<close>

text \<open>A member of a value of unknown shape: \<^verbatim>\<open>detail.key\<close>, absent when the value is no object.\<close>

definition member :: "json \<Rightarrow> string \<Rightarrow> json option" where
  "member v key = (case v of JObj kvs \<Rightarrow> map_of (rev kvs) key | _ \<Rightarrow> None)"

definition stringOrNull :: "json option \<Rightarrow> string option" where
  "stringOrNull v = (case v of Some (JStr s) \<Rightarrow> if s = [] then None else Some s | _ \<Rightarrow> None)"

definition json_string :: "json \<Rightarrow> string option" where
  "json_string v = (case v of JStr s \<Rightarrow> Some s | _ \<Rightarrow> None)"

definition stringArray :: "json option \<Rightarrow> string list" where
  "stringArray v = (case v of
       Some (JArr xs) \<Rightarrow> if list_all (\<lambda>x. json_string x \<noteq> None) xs then map (\<lambda>x. the (json_string x)) xs else []
     | _ \<Rightarrow> [])"

definition numberOrDefault :: "json option \<Rightarrow> int \<Rightarrow> int" where
  "numberOrDefault v fallback = (case v of Some (JNum n) \<Rightarrow> n | _ \<Rightarrow> fallback)"

definition default_to :: "string option \<Rightarrow> string \<Rightarrow> string" where
  "default_to v d = (case v of None \<Rightarrow> d | Some s \<Rightarrow> s)"

definition coverage_copy :: "(string \<times> string) list" where
  "coverage_copy =
     [(''SUPPORTED'', ''Recent momentum available for this Eurostat reporting market and exact HS 2012 mapping.''),
      (''SUPPORTED_NO_SIGNAL'',
       ''Eurostat coverage exists, but the fixed momentum recipe does not have sufficient comparable evidence.''),
      (''NOT_OBSERVED'',
       ''No eligible detailed observation was published for one or more required months. This is unknown, not zero trade.''),
      (''SUPPRESSED_OR_REALLOCATED'',
       ''Some detailed trade was confidential or reallocated by the source, so no HS 2012 product signal is calculated.''),
      (''UNSUPPORTED_PRODUCT_MAPPING'',
       ''This product cannot be mapped exactly and completely from the applicable source classifications to HS 2012.''),
      (''UNSUPPORTED_MARKET'', ''Recent momentum is not available for this reporting market in the Eurostat pilot.''),
      (''SOURCE_UNAVAILABLE'', ''Recent momentum is temporarily unavailable. Annual BACI evidence is unchanged.'')]"

definition signal_labels :: "(string \<times> string) list" where
  "signal_labels = [(''RISING_FAST'', ''Rising fast''), (''RISING'', ''Rising''), (''BROADLY_STABLE'', ''Broadly stable''),
     (''FALLING'', ''Falling''), (''FALLING_FAST'', ''Falling fast'')]"

definition coverageStateFrom :: "json option \<Rightarrow> string" where
  "coverageStateFrom v = (case v of
       Some (JStr s) \<Rightarrow> if s \<in> fst ` set coverage_copy then s else ''SOURCE_UNAVAILABLE''
     | _ \<Rightarrow> ''SOURCE_UNAVAILABLE'')"

definition signalLabel :: "string \<Rightarrow> string" where
  "signalLabel state = default_to (map_of signal_labels state) state"

definition claimSafeDirectionLines :: "string option \<Rightarrow> string list" where
  "claimSafeDirectionLines state =
     (if state = Some ''RISING'' \<or> state = Some ''RISING_FAST''
      then [''Recorded nominal imports rose in this source comparison.'']
      else if state = Some ''FALLING'' \<or> state = Some ''FALLING_FAST''
      then [''Recorded nominal imports fell in this source comparison.'']
      else [])"

definition localizedName :: "json option \<Rightarrow> string \<Rightarrow> string" where
  "localizedName v fallback = (case v of
       Some (JObj kvs) \<Rightarrow> default_to (stringOrNull (member (JObj kvs) ''en'')) fallback
     | _ \<Rightarrow> fallback)"

definition formatMonth :: "string \<Rightarrow> string" where
  "formatMonth month =
     (if is_month_text month
      then let year = take 4 month; n = undec (drop 5 month);
               labels = [''Jan'', ''Feb'', ''Mar'', ''Apr'', ''May'', ''Jun'', ''Jul'', ''Aug'', ''Sep'', ''Oct'', ''Nov'', ''Dec'']
           in (if 1 \<le> n \<and> n \<le> 12 then labels ! (n - 1) else drop 5 month) @ '' '' @ year
      else month)"

definition formatMonthRange :: "string list \<Rightarrow> string" where
  "formatMonthRange months =
     (if months = [] then ''not provided''
      else let first = formatMonth (hd months); final = formatMonth (last months)
           in if first = final then first else first @ ''-'' @ final)"

definition revisionVerb :: "string \<Rightarrow> string" where
  "revisionVerb kind =
     (if kind = ''REVISION_RETRACTION'' then ''Source revision retraction''
      else if kind = ''REVISION_REINSTATEMENT'' then ''Source revision reinstatement''
      else ''Source revision update'')"

definition affectedPeriods :: "json option \<Rightarrow> string" where
  "affectedPeriods v = (case v of
       Some (JObj kvs) \<Rightarrow>
         formatMonthRange (stringArray (member (JObj kvs) ''recentMonths'')) @ '' vs ''
           @ formatMonthRange (stringArray (member (JObj kvs) ''baselineMonths'')) @ ''; cutoff ''
           @ default_to (stringOrNull (member (JObj kvs) ''cutoffMonth'')) ''not provided''
     | _ \<Rightarrow> ''not provided'')"

record rendered_message =
  rm_subject :: string
  rm_body :: string
  rm_metadata :: "(string \<times> string) list"

definition or_first :: "string option \<Rightarrow> string option \<Rightarrow> string \<Rightarrow> string" where
  "or_first a b d = default_to (case a of None \<Rightarrow> b | Some s \<Rightarrow> Some s) d"

definition sourceDetailLines :: "alert_event \<Rightarrow> string list" where
  "sourceDetailLines event =
     (let text = (\<lambda>k. stringOrNull (member (ae_detail event) k)); given = (\<lambda>k. default_to (text k) ''not provided'');
          reporter = localizedName (member (ae_detail event) ''reportingEconomyName'') (given ''reportingEconomyIso2'');
          months = (\<lambda>k. formatMonthRange (stringArray (member (ae_detail event) k)))
      in [''Source: '' @ default_to (text ''source'') ''Eurostat Comext'',
          ''Reporting economy: '' @ reporter @ '' ('' @ default_to (text ''reportingEconomyIso2'') ''n/a'' @ '')'',
          ''Exact comparison months: '' @ months ''recentMonths'' @ '' vs '' @ months ''baselineMonths'',
          ''Source extraction: '' @ given ''sourceExtraction'',
          ''Newest eligible month: '' @ or_first (text ''newestEligibleMonth'') (ae_cutoffMonth event) ''not provided'',
          ''CN editions and mapping status: '' @ given ''cnEditions'' @ ''; '' @ given ''mappingStatus'',
          ''Value/currency/border valuation: '' @ default_to (text ''borderValuation'') ''current EUR imports'',
          ''Update/revision state: '' @ default_to (text ''revisionState'') ''initial package'',
          ''Coverage: '' @ given ''coverage'',
          ''Excluded confidential/special treatment: '' @ given ''excludedTreatment'',
          ''Package/recipe identity: '' @ or_first (text ''packageIdentity'') (ae_packageId event) ''not provided''
            @ '' / '' @ or_first (text ''recipeIdentity'') (ae_recipeId event) ''not provided'',
          ''Attribution: '' @ default_to (text ''attribution'') ''Eurostat Comext'',
          ''Pinned candidate context: '' @ given ''candidateContextUrl'',
          ''Annual BACI context: '' @ given ''annualBaciContextUrl''])"

definition source_line :: string where
  "source_line = ''Source: Eurostat Comext. Total recorded imports from identified partners; ''
     @ ''not specific to the selected exporter and excluded from BACI scores and ranks.''"

definition momentum_lines :: "alert_event \<Rightarrow> string list" where
  "momentum_lines event =
     (let field = member (ae_detail event); text = (\<lambda>k. stringOrNull (field k));
          signalState = text ''signalState'';
          comparison = formatMonthRange (stringArray (field ''recentMonths'')) @ '' vs ''
            @ formatMonthRange (stringArray (field ''baselineMonths''));
          reporter = localizedName (field ''reportingEconomyName'') (default_to (text ''reportingEconomyIso2'') ''Reporting market'');
          coverage = default_to (text ''coverage'') (int_dec (numberOrDefault (field ''recordedHistoryMonths'') 0) @ ''/''
            @ int_dec (numberOrDefault (field ''expectedHistoryMonths'') 24) @ '' months recorded'');
          direction = (case signalState of None \<Rightarrow> ''No directional signal'' | Some s \<Rightarrow> signalLabel s);
          directionWithRate = (case text ''growthPercentDisplay'' of None \<Rightarrow> direction | Some g \<Rightarrow> direction @ '' ('' @ g @ '')'')
      in [''Recent trade momentum - Eurostat coverage'',
          reporter @ '' imports, '' @ default_to (text ''hsRevisionLabel'') ''HS 2012'' @ '' ''
            @ default_to (text ''hs12Code'') ''unknown'',
          comparison @ '': '' @ directionWithRate]
         @ claimSafeDirectionLines signalState
         @ [''Current '' @ default_to (text ''valueCurrency'') ''EUR'' @ '' - ''
              @ default_to (text ''updateState'') ''preliminary'' @ '' - '' @ coverage,
            source_line,
            default_to (map_of coverage_copy (coverageStateFrom (field ''coverageState''))) '''']
         @ sourceDetailLines event)"

definition renderMomentumMessage :: "alert_event \<Rightarrow> rendered_message" where
  "renderMomentumMessage event =
     \<lparr>rm_subject = ''Recent trade momentum - Eurostat coverage'',
      rm_body = joined [CHR 0x0A] (momentum_lines event),
      rm_metadata = [(''eventId'', ae_id event), (''eventKind'', ae_kind event),
        (''packageId'', default_to (ae_packageId event) ''''),
        (''source'', default_to (stringOrNull (member (ae_detail event) ''source'')) ''Eurostat Comext'')]\<rparr>"

definition renderRevisionMessage :: "alert_event \<Rightarrow> rendered_message" where
  "renderRevisionMessage event =
     (let field = member (ae_detail event); text = (\<lambda>k. stringOrNull (field k));
          original = or_first (text ''originalAlertEventId'') (ae_priorEventId event) ''unknown-original-alert'';
          oldPackage = or_first (text ''oldPackageId'') (ae_supersededPackageId event) ''unknown-old-package'';
          newPackage = or_first (text ''newPackageId'') (ae_packageId event) ''unknown-new-package'';
          verb = revisionVerb (ae_kind event)
      in \<lparr>rm_subject = verb @ '' - original alert '' @ original,
          rm_body = joined [CHR 0x0A]
            [verb @ '' for original alert '' @ original @ ''.'',
             ''Original alert: '' @ original @ ''.'',
             ''Previous package identity: '' @ oldPackage @ ''.'',
             ''New package identity: '' @ newPackage @ ''.'',
             ''Previous state/rate: '' @ default_to (text ''oldState'') ''unknown'' @ '' / ''
               @ default_to (text ''oldGrowthRateDecimal'') ''unavailable'' @ ''.'',
             ''New state/rate: '' @ default_to (text ''newState'') ''unknown'' @ '' / ''
               @ default_to (text ''newGrowthRateDecimal'') ''unavailable'' @ ''.'',
             ''Affected periods: '' @ affectedPeriods (field ''affectedPeriods'') @ ''.'',
             ''Revision report: '' @ default_to (text ''revisionReportSha256'') ''not provided'' @ ''.'',
             ''The source revised the underlying data; this does not say the earlier computation was erroneous.''],
          rm_metadata = [(''eventId'', ae_id event), (''eventKind'', ae_kind event), (''packageId'', newPackage),
            (''supersededPackageId'', oldPackage), (''originalAlertId'', original)]\<rparr>)"

definition renderAlertMessage :: "alert_event \<Rightarrow> rendered_message" where
  "renderAlertMessage event =
     (if starts_with ''REVISION_'' (ae_kind event) then renderRevisionMessage event else renderMomentumMessage event)"

subsection \<open>What a recorded alert says\<close>

text \<open>The detail the evaluator stores has none of the members the momentum message reads, so the message of every
  alert it raises reports no signal and an unavailable source, whatever the trend is.\<close>

lemma recorded_alert_reports_no_signal:
  assumes "ae_kind event = WATCH_ALERT_EVENT_KIND" "ae_detail event = evaluator_detail reason result digest"
  shows "take 6 (momentum_lines event) =
     [''Recent trade momentum - Eurostat coverage'', ''Reporting market imports, HS 2012 unknown'',
      ''not provided vs not provided: No directional signal'', ''Current EUR - preliminary - 0/24 months recorded'',
      source_line, ''Recent momentum is temporarily unavailable. Annual BACI evidence is unchanged.'']"
    and "renderAlertMessage event = renderMomentumMessage event"
  using assms
  by (simp_all add: momentum_lines_def evaluator_detail_def member_def stringOrNull_def stringArray_def numberOrDefault_def
      default_to_def coverageStateFrom_def coverage_copy_def claimSafeDirectionLines_def localizedName_def formatMonthRange_def
      int_dec_def decimal_eval Let_def renderAlertMessage_def WATCH_ALERT_EVENT_KIND_def starts_with_def)

lemma keeps_event_present:
  "keeps (\<lambda>w. e \<in> set (alert_events (w_db w))) (recordDeliveries watch i)"
proof -
  have [keeps_intros]: "keeps (\<lambda>w. e \<in> set (alert_events (w_db w))) (ensureDeliveryState ev c)" for ev c
    unfolding ensureDeliveryState_def require_event_def getDeliveryState_def
    by (intro keeps_intros keeps_try_execute [where Q = "\<lambda>db. e \<in> set (alert_events db)"])
      (auto simp: insert_delivery_once_def ebind_Inr_iff split: if_splits sum.splits)
  show ?thesis unfolding recordDeliveries_def ensure_preferred_def by (intro keeps_intros)
qed

lemma record_event_created:
  assumes "record_event i watch result kind superseded detail occurredAt w = (Inr (e, True), t)"
  shows "\<exists>ri u v. recordAlertEvent ri u = (Inr (e, True), v) \<and> recordDeliveries watch (ae_id e) v = (Inr (), t)
    \<and> ri_kind ri = kind \<and> ri_detail ri = detail"
proof -
  from assms obtain key u v where "recordAlertEvent
      \<lparr>ri_watchId = ow_id watch, ri_kind = kind, ri_dedupeKey = key, ri_recipeId = Some (run_recipe i),
        ri_packageId = Some (ew_packageIdentity i), ri_supersededPackageId = superseded,
        ri_cutoffMonth = Some (mo_cutoffMonth result), ri_priorEventId = prior_event watch,
        ri_detail = detail, ri_occurredAt = occurredAt\<rparr> u = (Inr (e, True), v)"
    "recordDeliveries watch (ae_id e) v = (Inr (), t)"
    by (fastforce simp: record_event_def andThen_Inr_iff basic_iffs)
  then show ?thesis by (metis record_alert_event_input.select_convs(2,9))
qed

text \<open>C36: an alert that the evaluator creates (not a revision) is rendered as if there were no signal: its stored detail has
  none of the members the momentum message reads, so the message names no market, product or months, says
  ``No directional signal'' and that recent momentum is unavailable, whatever trend raised the alert.\<close>

theorem created_alert_reports_no_signal:
  assumes "raise_event i watch result digest occurredAt w = (Inr (Some eventId, True), t)"
    and "decideRevisionEventKind (ow_lastEvaluation watch) result (ew_supersedesPackageIdentity i) = None"
  shows "\<exists>e \<in> set (alert_events (w_db t)). ae_id e = eventId
    \<and> rm_body (renderAlertMessage e) = joined [CHR 0x0A]
        ([''Recent trade momentum - Eurostat coverage'', ''Reporting market imports, HS 2012 unknown'',
          ''not provided vs not provided: No directional signal'', ''Current EUR - preliminary - 0/24 months recorded'',
          source_line, ''Recent momentum is temporarily unavailable. Annual BACI evidence is unchanged.'']
         @ sourceDetailLines e)"
proof -
  let ?decide = "decideWatchAlert (map_option toDecisionSnapshot (ow_lastEvaluation watch)) result (run_recipe i)"
  obtain decision where d: "?decide = Inr decision" using assms by (cases ?decide) (simp_all add: raise_event_def raise_def)
  with assms have "ad_alert decision" by (cases "ad_alert decision") (simp_all add: raise_event_def ret_def)
  with assms d have "andThen (record_event i watch result WATCH_ALERT_EVENT_KIND None
      (evaluator_detail (ad_reason decision) result digest) occurredAt) (\<lambda>(event, created). ret (Some (ae_id event), created)) w
    = (Inr (Some eventId, True), t)"
    by (simp add: raise_event_def)
  then obtain e where
    one: "record_event i watch result WATCH_ALERT_EVENT_KIND None (evaluator_detail (ad_reason decision) result digest)
      occurredAt w = (Inr (e, True), t)" and id: "ae_id e = eventId"
    by (rule andThen_InrE) (auto simp: basic_iffs split: prod.splits)
  from record_event_created [OF one] obtain ri u w' where
    rec: "recordAlertEvent ri u = (Inr (e, True), w')" and del: "recordDeliveries watch (ae_id e) w' = (Inr (), t)"
    and ri: "ri_kind ri = WATCH_ALERT_EVENT_KIND" "ri_detail ri = evaluator_detail (ad_reason decision) result digest" by blast
  from recordAlertEvent_InrD [OF rec] have e: "e \<in> set (alert_events (w_db w'))" "ae_kind e = WATCH_ALERT_EVENT_KIND"
    "ae_detail e = evaluator_detail (ad_reason decision) result digest" by (auto simp: ri)
  have "e \<in> set (alert_events (w_db t))" using keepsD [OF keeps_event_present e(1) del] .
  moreover have "momentum_lines e = take 6 (momentum_lines e) @ sourceDetailLines e"
    using e(3) by (simp add: momentum_lines_def evaluator_detail_def member_def stringOrNull_def claimSafeDirectionLines_def Let_def)
  ultimately show ?thesis
    using id recorded_alert_reports_no_signal [OF e(2,3)] by (intro bexI [of _ e]) (simp_all add: renderMomentumMessage_def)
qed

lemma alert_created:
  "\<exists>eventId t. raise_event quiet_run (mapWatch sample_watch None) (sample_outcome None) ''d'' ''2025'' watch_world
     = (Inr (Some eventId, True), t)"
proof -
  have first: "decideWatchAlert None (sample_outcome None) r = Inr (alert FIRST_DIRECTIONAL_RESULT)" for r
    by (simp add: decideWatchAlert_def sample_outcome_def stateFromOutcome_def isDirectionalState_def)
  have watch: "ow_lastEvaluation (mapWatch sample_watch None) = None" "ow_id (mapWatch sample_watch None) = ''id-2''"
    "ow_deliveryPreferences (mapWatch sample_watch None) = []"
    by (simp_all add: mapWatch_def sample_watch_def)
  have texts: "trim (CHR ''s'' # s) \<noteq> []" "trim ''id-2'' \<noteq> []" "trim ''2025'' \<noteq> []" "trim ''MOMENTUM_SIGNAL'' \<noteq> []"
    "trim ''recent-trade-momentum-v1'' \<noteq> []" "trim ''pkg'' \<noteq> []" "trim ''2024-12'' \<noteq> []" for s
    by (simp_all add: trim_eq_Nil is_space_def)
  have quiet: "ew_supersedesPackageIdentity quiet_run = None" by (simp add: quiet_run_def)
  have raised: "raise_event quiet_run (mapWatch sample_watch None) (sample_outcome None) ''d'' ''2025'' w
     = andThen (record_event quiet_run (mapWatch sample_watch None) (sample_outcome None) WATCH_ALERT_EVENT_KIND None
         (evaluator_detail FIRST_DIRECTIONAL_RESULT (sample_outcome None) ''d'') ''2025'')
         (\<lambda>(event, created). ret (Some (ae_id event), created)) w" for w
    using quiet by (simp add: raise_event_def decideRevisionEventKind_def watch first alert_def)
  have sha: "w_sha256 watch_world = (\<lambda>s. CHR ''s'' # ''ha:'' @ s)"
    by (simp add: watch_world_def openWatch_def sample_input_def product_a_def run_defs or_else_def
        watch_texts registered_world_facts registered_world_rest registered_world_empty
        computeWatchContextIdentity_def requireAccount_def findAccount_def sample_account_def
        insert_watch_once_def upsert_nothing_def insert_row_def account_ids_def watch_context_def
        mapWatchWithLastEvaluation_def latest_evaluation_def sample_watch_def sample_world_def normalize_samples)
  have fields: "ew_recipeId quiet_run = None" "ew_packageIdentity quiet_run = ''pkg''" "wr_id sample_watch = ''id-2''"
    "wr_accountId sample_watch = ''id-0''" "mo_cutoffMonth (sample_outcome None) = ''2024-12''"
    by (simp_all add: quiet_run_def sample_watch_def sample_outcome_def)
  show ?thesis unfolding raised
    by (simp add: record_event_def computeAlertDedupeKey_def watch fields sha
        reading_def recordAlertEvent_def run_defs run_recipe_def prior_event_def
        WATCH_ALERT_EVENT_KIND_def nonEmptyWhenTruthy_def nonEmptyWhenPresent_def texts watch_opened
        insert_event_once_def upsert_nothing_def insert_row_def watch_ids_def account_ids_def sample_account_def
        recordDeliveries_def sample_world_def)
qed

theorem created_alert_reports_no_signal_witness:
  "\<exists>eventId t e. raise_event quiet_run (mapWatch sample_watch None) (sample_outcome None) ''d'' ''2025'' watch_world
     = (Inr (Some eventId, True), t) \<and> e \<in> set (alert_events (w_db t)) \<and> ae_id e = eventId"
proof -
  obtain eventId t where r: "raise_event quiet_run (mapWatch sample_watch None) (sample_outcome None) ''d'' ''2025'' watch_world
     = (Inr (Some eventId, True), t)" using alert_created by blast
  have "decideRevisionEventKind (ow_lastEvaluation (mapWatch sample_watch None)) (sample_outcome None)
      (ew_supersedesPackageIdentity quiet_run) = None" by (simp add: decideRevisionEventKind_def quiet_run_def)
  from created_alert_reports_no_signal [OF r this] r show ?thesis by blast
qed

end
