(* ===== verification/Delivery_Worker.thy ===== *)
theory Delivery_Worker
  imports Alert_Message
begin

text \<open>
  \<^verbatim>\<open>src/operations/delivery/alert-delivery-worker.ts\<close>: sending the alerts of an account or of a list of
  events. The mail provider is a parameter: what it answers to a message and an idempotency key, on each of its
  calls. The state of a run is the store and the log of what was handed to the provider; an entry also keeps the
  store as it was at that moment, which no operation reads.
\<close>

record provider_result =
  pr_accepted :: bool
  pr_providerReceipt :: "string option"
  pr_outcome :: delivery_outcome

record provider =
  pv_supportsIdempotency :: bool
  pv_send :: "rendered_message \<Rightarrow> string \<Rightarrow> nat \<Rightarrow> thrown + provider_result"

record sent_message =
  sm_message :: rendered_message
  sm_key :: string
  sm_store :: world

record post =
  po_store :: world
  po_sent :: "sent_message list"

type_synonym 'a post_op = "(post, thrown, 'a) op"

definition store :: "'a store_op \<Rightarrow> 'a post_op" where
  "store m = (\<lambda>s. case m (po_store s) of (r, w) \<Rightarrow> (r, s\<lparr>po_store := w\<rparr>))"

definition send :: "provider \<Rightarrow> rendered_message \<Rightarrow> string \<Rightarrow> provider_result post_op" where
  "send pv message key = (\<lambda>s. (pv_send pv message key (length (po_sent s)),
     s\<lparr>po_sent := po_sent s @ [\<lparr>sm_message = message, sm_key = key, sm_store = po_store s\<rparr>]\<rparr>))"

record delivery_policy =
  dp_monthlyCapabilityEnabled :: bool
  dp_sourceRefreshDelayedSince :: "string option"
  dp_asOf :: string

datatype suppression_cause =
    CAUSE_unsubscribe | CAUSE_accountDeleted | CAUSE_bounce | CAUSE_complaint | CAUSE_pausedWatch | CAUSE_sourceDelayed
  | CAUSE_monthlyCapabilityDisabled | CAUSE_unverifiedConsent

record delivery_summary =
  dm_considered :: nat
  dm_sent :: nat
  dm_failed :: nat
  dm_deadLettered :: nat
  dm_suppressedByCause :: "suppression_cause \<Rightarrow> nat"

definition mutableSummary :: delivery_summary where
  "mutableSummary = \<lparr>dm_considered = 0, dm_sent = 0, dm_failed = 0, dm_deadLettered = 0, dm_suppressedByCause = (\<lambda>_. 0)\<rparr>"

definition sourceDelayedSevenDays :: "delivery_policy \<Rightarrow> bool" where
  "sourceDelayedSevenDays policy =
     (case dp_sourceRefreshDelayedSince policy of
        None \<Rightarrow> False
      | Some since \<Rightarrow>
          since \<noteq> [] \<and>
          (case (date_parse since, date_parse (dp_asOf policy)) of
             (Some delayedSince, Some asOf) \<Rightarrow> 7 * 24 * 60 * 60 * 1000 \<le> asOf - delayedSince
           | _ \<Rightarrow> False))"

text \<open>The part of \<^verbatim>\<open>suppressionCause\<close> about the target.\<close>

definition consent_cause :: "alert_event \<Rightarrow> delivery_preference \<Rightarrow> string \<Rightarrow> suppression_cause option store_op" where
  "consent_cause event preference target =
     andThen (findDeliveryConsent (ae_accountId event) (wp_channel preference) target) (\<lambda>consent.
     if (case consent of None \<Rightarrow> True | Some c \<Rightarrow> dc_verifiedAt c = None) then ret (Some CAUSE_unverifiedConsent)
     else if dc_unsubscribedAt (the consent) \<noteq> None then ret (Some CAUSE_unsubscribe)
     else
       andThen (getDeliverySuppression (ae_accountId event) (wp_channel preference) target) (\<lambda>suppression.
       ret (case map_option sp_reason suppression of
              None \<Rightarrow> None
            | Some REASON_UNSUBSCRIBE \<Rightarrow> Some CAUSE_unsubscribe
            | Some REASON_BOUNCE \<Rightarrow> Some CAUSE_bounce
            | Some REASON_COMPLAINT \<Rightarrow> Some CAUSE_complaint)))"

definition suppressionCause ::
  "alert_event \<Rightarrow> opportunity_watch option \<Rightarrow> delivery_preference \<Rightarrow> delivery_policy \<Rightarrow> string list \<Rightarrow>
   suppression_cause option store_op" where
  "suppressionCause event watch preference policy deletedAccountIds =
     (if ae_accountId event \<in> set deletedAccountIds then ret (Some CAUSE_accountDeleted)
      else
        andThen (findAccount (ae_accountId event)) (\<lambda>account.
        if account = None then ret (Some CAUSE_accountDeleted)
        else if \<not> dp_monthlyCapabilityEnabled policy then ret (Some CAUSE_monthlyCapabilityDisabled)
        else if sourceDelayedSevenDays policy then ret (Some CAUSE_sourceDelayed)
        else if (case watch of None \<Rightarrow> True | Some x \<Rightarrow> ow_status x = PAUSED) then ret (Some CAUSE_pausedWatch)
        else
          case wp_target preference of
            None \<Rightarrow> ret (Some CAUSE_unverifiedConsent)
          | Some target \<Rightarrow> consent_cause event preference target))"

definition outcome_text :: "delivery_outcome \<Rightarrow> string" where
  "outcome_text d = (case d of
       ACCEPTED \<Rightarrow> ''ACCEPTED'' | TRANSIENT_FAILURE \<Rightarrow> ''TRANSIENT_FAILURE'' | PERMANENT_FAILURE \<Rightarrow> ''PERMANENT_FAILURE''
     | BOUNCE \<Rightarrow> ''BOUNCE'' | COMPLAINT \<Rightarrow> ''COMPLAINT'' | OUTCOME_SUPPRESSED \<Rightarrow> ''SUPPRESSED''
     | DUPLICATE_SUPPRESSED \<Rightarrow> ''DUPLICATE_SUPPRESSED'')"

definition mapProviderOutcome :: "delivery_outcome \<Rightarrow> delivery_status \<times> string option" where
  "mapProviderOutcome d =
     (if d = ACCEPTED then (SENT, None)
      else if d = TRANSIENT_FAILURE then (FAILED, Some ''Provider reported a transient delivery failure.'')
      else if d = PERMANENT_FAILURE then (DEAD_LETTER, Some ''Provider reported a permanent delivery failure.'')
      else if d = BOUNCE \<or> d = COMPLAINT then (DEAD_LETTER, Some (''Provider reported '' @ outcome_text d @ ''.''))
      else (SUPPRESSED, Some ''Delivery suppressed.''))"

subsection \<open>One alert, one preference\<close>

definition recordSuppressedIfPossible :: "alert_event \<Rightarrow> string \<Rightarrow> unit post_op" where
  "recordSuppressedIfPossible event channel =
     catching (andThen (store (recordDeliveryAttempt
         \<lparr>di_eventId = ae_id event, di_channel = channel, di_status = SUPPRESSED, di_outcome = OUTCOME_SUPPRESSED,
          di_providerReceipt = None, di_failureReason = Some ''Delivery suppressed before provider send.''\<rparr>)) (\<lambda>_. ret ()))
       (\<lambda>_. ret ())"

definition record_rejection :: "alert_event \<Rightarrow> delivery_preference \<Rightarrow> provider_result \<Rightarrow> unit post_op" where
  "record_rejection event preference result =
     (if pr_outcome result = BOUNCE \<or> pr_outcome result = COMPLAINT
      then case wp_target preference of
             None \<Rightarrow> ret ()
           | Some target \<Rightarrow> andThen (store (recordDeliverySuppression (ae_accountId event) (wp_channel preference) target
               (if pr_outcome result = BOUNCE then REASON_BOUNCE else REASON_COMPLAINT) (pr_providerReceipt result))) (\<lambda>_. ret ())
      else ret ())"

text \<open>One turn of the retry loop. The attempts it reads first are overwritten by those of the recorded attempt.\<close>

definition attempt_once :: "provider \<Rightarrow> alert_event \<Rightarrow> delivery_preference \<Rightarrow> string \<Rightarrow> delivery_state post_op" where
  "attempt_once pv event preference idempotencyKey =
     andThen (store (getDeliveryState (ae_id event) (wp_channel preference))) (\<lambda>current.
     andThen (send pv (renderAlertMessage event) idempotencyKey) (\<lambda>result.
     andThen (store (recordDeliveryAttempt
       \<lparr>di_eventId = ae_id event, di_channel = wp_channel preference,
        di_status = fst (mapProviderOutcome (pr_outcome result)), di_outcome = pr_outcome result,
        di_providerReceipt = pr_providerReceipt result,
        di_failureReason = snd (mapProviderOutcome (pr_outcome result))\<rparr>)) (\<lambda>recorded.
     andThen (record_rejection event preference result) (\<lambda>_. ret recorded))))"

text \<open>\<^theory_text>\<open>Unfinished\<close> is no result of the code: the fuel of the loop was gone.\<close>

datatype delivery_result = Delivered | Failed | Dead_lettered | Skipped | Unfinished

fun send_loop :: "nat \<Rightarrow> provider \<Rightarrow> alert_event \<Rightarrow> delivery_preference \<Rightarrow> int \<Rightarrow> string \<Rightarrow> int \<Rightarrow> delivery_result post_op" where
  "send_loop 0 pv event preference maxAttempts key attempts = ret Unfinished"
| "send_loop (Suc fuel) pv event preference maxAttempts key attempts =
     (if attempts < maxAttempts
      then andThen (attempt_once pv event preference key) (\<lambda>recorded.
           if ds_status recorded = SENT then ret Delivered
           else if ds_status recorded = DEAD_LETTER then ret Dead_lettered
           else send_loop fuel pv event preference maxAttempts key (ds_attempts recorded))
      else ret Failed)"

definition deliverOne :: "nat \<Rightarrow> provider \<Rightarrow> alert_event \<Rightarrow> delivery_preference \<Rightarrow> int \<Rightarrow> delivery_result post_op" where
  "deliverOne fuel pv event preference maxAttempts =
     andThen (store (ensureDeliveryState (ae_id event) (wp_channel preference))) (\<lambda>state.
     if ds_status state = DEAD_LETTER then ret Skipped
     else if ds_status state = SENT \<and> \<not> pv_supportsIdempotency pv
     then andThen (store (recordDeliveryAttempt
            \<lparr>di_eventId = ae_id event, di_channel = wp_channel preference, di_status = SENT,
             di_outcome = DUPLICATE_SUPPRESSED, di_providerReceipt = ds_providerReceipt state,
             di_failureReason = None\<rparr>)) (\<lambda>_. ret Delivered)
     else send_loop fuel pv event preference maxAttempts (ds_idempotencyKey state) (ds_attempts state))"

subsection \<open>The worker\<close>

definition count_result :: "delivery_result \<Rightarrow> delivery_summary \<Rightarrow> delivery_summary" where
  "count_result r m =
     (case r of Delivered \<Rightarrow> m\<lparr>dm_sent := dm_sent m + 1\<rparr>
      | Dead_lettered \<Rightarrow> m\<lparr>dm_deadLettered := dm_deadLettered m + 1\<rparr>
      | Failed \<Rightarrow> m\<lparr>dm_failed := dm_failed m + 1\<rparr> | _ \<Rightarrow> m)"

definition count_cause :: "suppression_cause \<Rightarrow> delivery_summary \<Rightarrow> delivery_summary" where
  "count_cause c m = m\<lparr>dm_suppressedByCause := (dm_suppressedByCause m)(c := dm_suppressedByCause m c + 1)\<rparr>"

definition count_considered :: "delivery_summary \<Rightarrow> delivery_summary" where
  "count_considered m = m\<lparr>dm_considered := dm_considered m + 1\<rparr>"

definition deliver_preference ::
  "nat \<Rightarrow> provider \<Rightarrow> delivery_policy \<Rightarrow> int \<Rightarrow> string list \<Rightarrow> alert_event \<Rightarrow> opportunity_watch option \<Rightarrow>
   delivery_preference \<Rightarrow> delivery_summary \<Rightarrow> delivery_summary post_op" where
  "deliver_preference fuel pv policy maxAttempts deleted event watch preference m =
     andThen (store (suppressionCause event watch preference policy deleted)) (\<lambda>cause.
     case cause of
       Some c \<Rightarrow> andThen (recordSuppressedIfPossible event (wp_channel preference)) (\<lambda>_.
                   ret (count_cause c (count_considered m)))
     | None \<Rightarrow> andThen (deliverOne fuel pv event preference maxAttempts) (\<lambda>r.
                   ret (count_result r (count_considered m))))"

definition watch_of :: "opportunity_watch list \<Rightarrow> string \<Rightarrow> opportunity_watch option" where
  "watch_of ws i = find (\<lambda>x. ow_id x = i) (rev ws)"

definition deliverable :: "opportunity_watch option \<Rightarrow> delivery_preference list" where
  "deliverable watch = filter (\<lambda>p. wp_enabled p \<and> wp_target p \<noteq> None)
     (case watch of None \<Rightarrow> [] | Some x \<Rightarrow> ow_deliveryPreferences x)"

definition deliver_event ::
  "nat \<Rightarrow> provider \<Rightarrow> delivery_policy \<Rightarrow> int \<Rightarrow> opportunity_watch list \<Rightarrow> string list \<Rightarrow> alert_event \<Rightarrow> delivery_summary \<Rightarrow>
   delivery_summary post_op" where
  "deliver_event fuel pv policy maxAttempts ws deleted event m =
     (let watch = watch_of ws (ae_watchId event); preferences = deliverable watch
      in if preferences = []
         then ret (if ae_accountId event \<in> set deleted then count_cause CAUSE_accountDeleted (count_considered m) else m)
         else foldOp (deliver_preference fuel pv policy maxAttempts deleted event watch) preferences m)"

definition deliverEventsWithWatches ::
  "nat \<Rightarrow> provider \<Rightarrow> delivery_policy \<Rightarrow> int option \<Rightarrow> opportunity_watch list \<Rightarrow> string list \<Rightarrow> alert_event list \<Rightarrow>
   delivery_summary post_op" where
  "deliverEventsWithWatches fuel pv policy maxAttempts ws deleted events =
     foldOp (deliver_event fuel pv policy (case maxAttempts of None \<Rightarrow> 3 | Some n \<Rightarrow> n) ws deleted) events mutableSummary"

definition deliverOpportunityWatchAlerts ::
  "nat \<Rightarrow> provider \<Rightarrow> delivery_policy \<Rightarrow> int option \<Rightarrow> string \<Rightarrow> delivery_summary post_op" where
  "deliverOpportunityWatchAlerts fuel pv policy maxAttempts accountId =
     andThen (store (findAccount accountId)) (\<lambda>account.
     if account = None then ret mutableSummary
     else andThen (store (listAlertEvents accountId)) (\<lambda>events.
          andThen (store (listWatches accountId)) (\<lambda>ws.
          deliverEventsWithWatches fuel pv policy maxAttempts ws [] events)))"

definition gather_watches ::
  "string \<Rightarrow> opportunity_watch list \<times> string list \<Rightarrow> (opportunity_watch list \<times> string list) post_op" where
  "gather_watches accountId acc =
     andThen (store (findAccount accountId)) (\<lambda>account.
     if account = None then ret (fst acc, snd acc @ [accountId])
     else andThen (store (listWatches accountId)) (\<lambda>ws. ret (fst acc @ ws, snd acc)))"

definition deliverAlertEvents ::
  "nat \<Rightarrow> provider \<Rightarrow> delivery_policy \<Rightarrow> int option \<Rightarrow> alert_event list \<Rightarrow> delivery_summary post_op" where
  "deliverAlertEvents fuel pv policy maxAttempts events =
     andThen (foldOp gather_watches (rev (remdups (rev (map ae_accountId events)))) ([], [])) (\<lambda>(ws, deleted).
     deliverEventsWithWatches fuel pv policy maxAttempts ws deleted events)"

subsection \<open>How the steps run\<close>

lemma store_iffs [run_iffs]:
  "store m s = (Inr x, t) \<longleftrightarrow> (\<exists>w. m (po_store s) = (Inr x, w) \<and> t = s\<lparr>po_store := w\<rparr>)"
  "store m s = (Inl e, t) \<longleftrightarrow> (\<exists>w. m (po_store s) = (Inl e, w) \<and> t = s\<lparr>po_store := w\<rparr>)"
  by (auto simp: store_def split: prod.splits)

lemma send_iffs [run_iffs]:
  "send pv message key s = (r, t) \<longleftrightarrow> r = pv_send pv message key (length (po_sent s))
     \<and> t = s\<lparr>po_sent := po_sent s @ [\<lparr>sm_message = message, sm_key = key, sm_store = po_store s\<rparr>]\<rparr>"
  by (auto simp: send_def)

text \<open>Who may receive alerts: what no step before a delivery's last attempt changes.\<close>

definition recipients :: "account list \<Rightarrow> delivery_consent list \<Rightarrow> delivery_suppression list \<Rightarrow> world \<Rightarrow> bool" where
  "recipients as cs ss w \<longleftrightarrow> accounts (w_db w) = as \<and> consents (w_db w) = cs \<and> suppressions (w_db w) = ss"

lemma recipients_basic [keeps_intros]:
  "keeps (recipients as cs ss) now" "keeps (recipients as cs ss) now_iso" "keeps (recipients as cs ss) randomUUID"
  by (simp_all add: keeps_def recipients_def now_def now_iso_def randomUUID_def)

lemma recipients_transaction [keeps_intros]:
  "keeps (recipients as cs ss) m \<Longrightarrow> keeps (recipients as cs ss) (transaction m)"
  by (simp add: keeps_def recipients_def transaction_def split: prod.splits sum.splits) (metis snd_conv)

lemma recipients_statement:
  "(\<And>db db'. g db = Inr db' \<Longrightarrow> accounts db' = accounts db \<and> consents db' = consents db \<and> suppressions db' = suppressions db)
    \<Longrightarrow> keeps (recipients as cs ss) (try_execute g)"
  by (auto simp: keeps_def recipients_def try_execute_def split: sum.splits)

lemma recipients_deliveries [keeps_intros]:
  "keeps (recipients as cs ss) (getDeliveryState e c)" "keeps (recipients as cs ss) (ensureDeliveryState e c)"
  "keeps (recipients as cs ss) (recordDeliveryAttempt di)"
proof -
  show g: "keeps (recipients as cs ss) (getDeliveryState e c)" for e c unfolding getDeliveryState_def by (intro keeps_intros)
  have r: "keeps (recipients as cs ss) (require_event e)" for e unfolding require_event_def by (intro keeps_intros)
  show "keeps (recipients as cs ss) (ensureDeliveryState e c)" unfolding ensureDeliveryState_def
    by (intro keeps_intros r g recipients_statement) (auto simp: insert_delivery_once_def ebind_Inr_iff split: if_splits sum.splits)
  show "keeps (recipients as cs ss) (recordDeliveryAttempt di)" unfolding recordDeliveryAttempt_def
    by (intro keeps_intros r g recipients_statement) (auto simp: upsert_delivery_def ebind_Inr_iff split: if_splits sum.splits)
qed

lemma recipients_same:
  "m w = (r, t) \<Longrightarrow> (\<And>as cs ss. keeps (recipients as cs ss) m) \<Longrightarrow>
   accounts (w_db t) = accounts (w_db w) \<and> consents (w_db t) = consents (w_db w) \<and> suppressions (w_db t) = suppressions (w_db w)"
  using keepsD [of "recipients (accounts (w_db w)) (consents (w_db w)) (suppressions (w_db w))" m w r t]
  by (simp add: recipients_def)

lemma deliveries_keep_recipients:
  "recordDeliveryAttempt i w = (r, t) \<Longrightarrow>
   accounts (w_db t) = accounts (w_db w) \<and> consents (w_db t) = consents (w_db w) \<and> suppressions (w_db t) = suppressions (w_db w)"
  "ensureDeliveryState e c w = (q, t) \<Longrightarrow>
   accounts (w_db t) = accounts (w_db w) \<and> consents (w_db t) = consents (w_db w) \<and> suppressions (w_db t) = suppressions (w_db w)"
  by (rule recipients_same [of "recordDeliveryAttempt i"] recipients_same [of "ensureDeliveryState e c"], assumption,
      rule recipients_deliveries)+

definition state_row :: "string \<Rightarrow> string \<Rightarrow> world \<Rightarrow> delivery_state option" where
  "state_row e c w = find (\<lambda>d. ds_eventId d = e \<and> ds_channel d = c) (delivery_states (w_db w))"

lemma ensureDeliveryState_InrD:
  assumes "ensureDeliveryState e c w = (Inr d, t)"
  shows "state_row e c t = Some d"
    and "case state_row e c w of Some p \<Rightarrow> d = p
         | None \<Rightarrow> ds_status d = PENDING \<and> ds_attempts d = 0 \<and> ds_idempotencyKey d = deliveryIdempotencyKey e c"
proof -
  from assms obtain r where
    ins: "insert_delivery_once r (w_db w) = Inr (w_db t)" and d: "d = the (state_row e c t)"
    and r: "ds_eventId r = e" "ds_channel r = c" "ds_status r = PENDING" "ds_attempts r = 0"
      "ds_idempotencyKey r = deliveryIdempotencyKey e c"
    by (fastforce simp: ensureDeliveryState_def run_iffs Let_def requireNonEmpty_def require_event_def
        getDeliveryState_def state_row_def split: if_splits)
  have Q: "delivery_target r = (\<lambda>d. ds_eventId d = e \<and> ds_channel d = c)"
    using r by (intro ext) (auto simp: delivery_target_def)
  from ins obtain rows where up: "upsert_nothing delivery_target delivery_clash ''operational_delivery_state.delivery_id'' r
      (delivery_states (w_db w)) = Inr rows" and t: "delivery_states (w_db t) = rows"
    by (auto simp: insert_delivery_once_def ebind_Inr_iff)
  have "state_row e c t = Some (case state_row e c w of None \<Rightarrow> r | Some p \<Rightarrow> p)"
  proof (cases "state_row e c w")
    case None
    then have "\<not> list_ex (delivery_target r) (delivery_states (w_db w))"
      by (auto simp: state_row_def Q list_ex_iff find_None_iff)
    with up None show ?thesis by (auto simp: t state_row_def upsert_nothing_def insert_row_Inr find_append r Q)
  next
    case (Some p)
    then have "list_ex (delivery_target r) (delivery_states (w_db w))"
      by (auto simp: state_row_def Q list_ex_iff dest: find_SomeD)
    with up Some show ?thesis by (auto simp: t state_row_def upsert_nothing_def Q)
  qed
  with d r show "state_row e c t = Some d"
    and "case state_row e c w of Some p \<Rightarrow> d = p
         | None \<Rightarrow> ds_status d = PENDING \<and> ds_attempts d = 0 \<and> ds_idempotencyKey d = deliveryIdempotencyKey e c"
    by (auto split: option.splits)
qed

text \<open>Recording a rejection leaves the delivery states alone, and touches nothing unless the provider bounced.\<close>

lemma rejection_run:
  assumes "record_rejection e p result s = (r, t)"
  shows "po_sent t = po_sent s" "delivery_states (w_db (po_store t)) = delivery_states (w_db (po_store s))"
    and "pr_outcome result \<notin> {BOUNCE, COMPLAINT} \<Longrightarrow> r = Inr () \<and> t = s"
proof -
  have "keeps (\<lambda>w. delivery_states (w_db w) = ds) (recordDeliverySuppression a c g x y)" for ds a c g x y
  proof -
    have "keeps (\<lambda>w. delivery_states (w_db w) = ds) (requireAccount a)" for a
      unfolding requireAccount_def findAccount_def by (intro keeps_intros)
    moreover have "keeps (\<lambda>w. delivery_states (w_db w) = ds) (getDeliverySuppression a c g)" for a c g
      unfolding getDeliverySuppression_def by (intro keeps_intros)
    ultimately show ?thesis unfolding recordDeliverySuppression_def
      by (intro keeps_intros keeps_sources [where Q = "\<lambda>db. delivery_states db = ds"]
        keeps_transaction [where Q = "\<lambda>db. delivery_states db = ds"] keeps_try_execute [where Q = "\<lambda>db. delivery_states db = ds"])
        (auto simp: upsert_suppression_def ebind_Inr_iff split: if_splits sum.splits)
  qed
  then have k: "recordDeliverySuppression a c g x y w = (q, w') \<Longrightarrow> delivery_states (w_db w') = delivery_states (w_db w)"
    for a c g x y w q w' by (metis (mono_tags, lifting) keepsD)
  show "pr_outcome result \<notin> {BOUNCE, COMPLAINT} \<Longrightarrow> r = Inr () \<and> t = s"
    using assms by (auto simp: record_rejection_def ret_def)
  show "po_sent t = po_sent s" "delivery_states (w_db (po_store t)) = delivery_states (w_db (po_store s))"
    using assms k by (cases r; auto simp: record_rejection_def run_iffs split: if_splits option.splits)+
qed

text \<open>One attempt: what it sends, what it leaves.\<close>

lemma attempt_once_run:
  assumes "attempt_once pv e p key s = (r, t)"
  shows "po_sent t = po_sent s @ [\<lparr>sm_message = renderAlertMessage e, sm_key = key, sm_store = po_store s\<rparr>]"
    and "r = Inr d \<Longrightarrow> state_row (ae_id e) (wp_channel p) (po_store s) = Some q \<Longrightarrow>
      state_row (ae_id e) (wp_channel p) (po_store t) = Some d \<and> ds_attempts d = ds_attempts q + 1"
    and "r = Inr d \<Longrightarrow> ds_status d \<noteq> DEAD_LETTER \<Longrightarrow> accounts (w_db (po_store t)) = accounts (w_db (po_store s))
      \<and> consents (w_db (po_store t)) = consents (w_db (po_store s)) \<and> suppressions (w_db (po_store t)) = suppressions (w_db (po_store s))"
proof -
  let ?u = "s\<lparr>po_sent := po_sent s @ [\<lparr>sm_message = renderAlertMessage e, sm_key = key, sm_store = po_store s\<rparr>]\<rparr>"
  let ?rest = "\<lambda>result. andThen (store (recordDeliveryAttempt
       \<lparr>di_eventId = ae_id e, di_channel = wp_channel p,
        di_status = fst (mapProviderOutcome (pr_outcome result)), di_outcome = pr_outcome result,
        di_providerReceipt = pr_providerReceipt result,
        di_failureReason = snd (mapProviderOutcome (pr_outcome result))\<rparr>)) (\<lambda>recorded.
     andThen (record_rejection e p result) (\<lambda>_. ret recorded))"
  have run: "attempt_once pv e p key s = (case pv_send pv (renderAlertMessage e) key (length (po_sent s)) of
      Inl x \<Rightarrow> (Inl x, ?u) | Inr result \<Rightarrow> ?rest result ?u)"
    by (simp add: attempt_once_def andThen_def store_def getDeliveryState_def query_def send_def split: sum.splits)
  have kept: "po_sent v = po_sent u" if "?rest result u = (q, v)" for result u q v
    using that rejection_run(1) by (cases q) (fastforce simp: run_iffs)+
  show "po_sent t = po_sent s @ [\<lparr>sm_message = renderAlertMessage e, sm_key = key, sm_store = po_store s\<rparr>]"
    using assms kept by (fastforce simp: run split: sum.splits)
  assume r: "r = Inr d"
  with assms obtain result u where rec: "recordDeliveryAttempt
       \<lparr>di_eventId = ae_id e, di_channel = wp_channel p,
        di_status = fst (mapProviderOutcome (pr_outcome result)), di_outcome = pr_outcome result,
        di_providerReceipt = pr_providerReceipt result,
        di_failureReason = snd (mapProviderOutcome (pr_outcome result))\<rparr> (po_store s) = (Inr d, u)"
    and rej: "record_rejection e p result (?u\<lparr>po_store := u\<rparr>) = (Inr (), t)"
    by (auto simp: run run_iffs split: sum.splits)
  show "state_row (ae_id e) (wp_channel p) (po_store s) = Some q \<Longrightarrow>
      state_row (ae_id e) (wp_channel p) (po_store t) = Some d \<and> ds_attempts d = ds_attempts q + 1"
    using recordDeliveryAttempt_InrD(1,6) [OF rec] rejection_run(2) [OF rej] by (simp add: state_row_def)
  assume "ds_status d \<noteq> DEAD_LETTER"
  with recordDeliveryAttempt_InrD(4) [OF rec] have "pr_outcome result \<notin> {BOUNCE, COMPLAINT}"
    by (auto simp: mapProviderOutcome_def)
  with rejection_run(3) [OF rej] have "t = ?u\<lparr>po_store := u\<rparr>" by simp
  with deliveries_keep_recipients(1) [OF rec] show "accounts (w_db (po_store t)) = accounts (w_db (po_store s))
      \<and> consents (w_db (po_store t)) = consents (w_db (po_store s)) \<and> suppressions (w_db (po_store t)) = suppressions (w_db (po_store s))"
    by simp
qed

subsection \<open>The retry loop\<close>

lemma send_loop_run:
  assumes "state_row (ae_id e) (wp_channel p) (po_store s) = Some q"
    and "send_loop fuel pv e p maxAttempts key (ds_attempts q) s = (r, t)"
  shows "(nat (maxAttempts - ds_attempts q) < fuel \<longrightarrow> r \<noteq> Inr Unfinished)
    \<and> (\<exists>sent. po_sent t = po_sent s @ sent \<and> length sent \<le> nat (maxAttempts - ds_attempts q)
        \<and> (\<forall>m \<in> set sent. sm_message m = renderAlertMessage e \<and> sm_key m = key
             \<and> accounts (w_db (sm_store m)) = accounts (w_db (po_store s)) \<and> consents (w_db (sm_store m)) = consents (w_db (po_store s))
             \<and> suppressions (w_db (sm_store m)) = suppressions (w_db (po_store s))))"
  using assms
proof (induction fuel arbitrary: s q)
  case (Suc fuel)
  show ?case
  proof (cases "ds_attempts q < maxAttempts")
    case False
    with Suc.prems(2) show ?thesis by (auto simp: ret_def)
  next
    case True
    then have pos: "Suc (nat (maxAttempts - (ds_attempts q + 1))) = nat (maxAttempts - ds_attempts q)" by simp
    obtain x u where one: "attempt_once pv e p key s = (x, u)" by fastforce
    note a = attempt_once_run [OF one]
    show ?thesis
    proof (cases x)
      case (Inl err)
      with Suc.prems(2) True one have "r = Inl err" "t = u" by (simp_all add: andThen_def)
      with a(1) pos show ?thesis by auto
    next
      case (Inr d)
      with Suc.prems(2) True one have rest: "(if ds_status d = SENT then ret Delivered
           else if ds_status d = DEAD_LETTER then ret Dead_lettered
           else send_loop fuel pv e p maxAttempts key (ds_attempts d)) u = (r, t)" by (simp add: andThen_def)
      show ?thesis
      proof (cases "ds_status d = SENT \<or> ds_status d = DEAD_LETTER")
        case True
        with rest have "r \<in> {Inr Delivered, Inr Dead_lettered}" "t = u" by (auto simp: ret_def split: if_splits)
        with a(1) pos show ?thesis by auto
      next
        case False
        note row = a(2) [OF Inr Suc.prems(1)]
        from Suc.IH [OF conjunct1 [OF row]] rest False obtain sent where
          "nat (maxAttempts - ds_attempts d) < fuel \<longrightarrow> r \<noteq> Inr Unfinished" and sent: "po_sent t = po_sent u @ sent" "length sent \<le> nat (maxAttempts - ds_attempts d)"
          "\<forall>m \<in> set sent. sm_message m = renderAlertMessage e \<and> sm_key m = key
             \<and> accounts (w_db (sm_store m)) = accounts (w_db (po_store u)) \<and> consents (w_db (sm_store m)) = consents (w_db (po_store u))
             \<and> suppressions (w_db (sm_store m)) = suppressions (w_db (po_store u))" by auto
        then show ?thesis using a(1) a(3) [OF Inr] False row pos
          by (intro conjI exI [of _ "\<lparr>sm_message = renderAlertMessage e, sm_key = key, sm_store = po_store s\<rparr> # sent"]) auto
      qed
    qed
  qed
qed (simp add: ret_def)

definition attempts_so_far :: "string \<Rightarrow> string \<Rightarrow> world \<Rightarrow> int" where
  "attempts_so_far e c w = (case state_row e c w of None \<Rightarrow> 0 | Some d \<Rightarrow> ds_attempts d)"

lemma deliverOne_run:
  assumes "deliverOne fuel pv e p maxAttempts s = (r, t)"
  shows "(nat (maxAttempts - attempts_so_far (ae_id e) (wp_channel p) (po_store s)) < fuel \<longrightarrow> r \<noteq> Inr Unfinished)
    \<and> (\<exists>sent key. po_sent t = po_sent s @ sent
        \<and> length sent \<le> nat (maxAttempts - attempts_so_far (ae_id e) (wp_channel p) (po_store s))
        \<and> (\<forall>m \<in> set sent. sm_message m = renderAlertMessage e \<and> sm_key m = key
             \<and> accounts (w_db (sm_store m)) = accounts (w_db (po_store s)) \<and> consents (w_db (sm_store m)) = consents (w_db (po_store s))
             \<and> suppressions (w_db (sm_store m)) = suppressions (w_db (po_store s))))"
proof -
  obtain x u where ens: "store (ensureDeliveryState (ae_id e) (wp_channel p)) s = (x, u)" by fastforce
  then obtain w where w: "ensureDeliveryState (ae_id e) (wp_channel p) (po_store s) = (x, w)" "u = s\<lparr>po_store := w\<rparr>"
    by (auto simp: store_def split: prod.splits)
  show ?thesis
  proof (cases x)
    case (Inl err)
    with assms ens w(2) show ?thesis by (auto simp: deliverOne_def andThen_def)
  next
    case (Inr d)
    note e = ensureDeliveryState_InrD [OF w(1) [unfolded Inr]]
    have att: "ds_attempts d = attempts_so_far (ae_id e) (wp_channel p) (po_store s)"
      using e(2) by (auto simp: attempts_so_far_def split: option.splits)
    note same = deliveries_keep_recipients(2) [OF w(1)]
    from assms ens Inr have run: "(if ds_status d = DEAD_LETTER then ret Skipped
     else if ds_status d = SENT \<and> \<not> pv_supportsIdempotency pv
     then andThen (store (recordDeliveryAttempt
            \<lparr>di_eventId = ae_id e, di_channel = wp_channel p, di_status = SENT,
             di_outcome = DUPLICATE_SUPPRESSED, di_providerReceipt = ds_providerReceipt d,
             di_failureReason = None\<rparr>)) (\<lambda>_. ret Delivered)
     else send_loop fuel pv e p maxAttempts (ds_idempotencyKey d) (ds_attempts d)) u = (r, t)"
      by (simp add: deliverOne_def andThen_def)
    consider (skip) "ds_status d = DEAD_LETTER" | (dup) "ds_status d = SENT \<and> \<not> pv_supportsIdempotency pv"
      | (loop) "send_loop fuel pv e p maxAttempts (ds_idempotencyKey d) (ds_attempts d) u = (r, t)"
      using run by (auto split: if_splits)
    then show ?thesis
    proof cases
      case skip
      with run w(2) show ?thesis by (auto simp: ret_def)
    next
      case dup
      with run w(2) show ?thesis by (cases r) (auto simp: run_iffs)
    next
      case loop
      have "state_row (ae_id e) (wp_channel p) (po_store u) = Some d" using e(1) w(2) by simp
      from send_loop_run [OF this loop] att w(2) same show ?thesis by auto
    qed
  qed
qed

subsection \<open>Whom the worker writes to\<close>

text \<open>The address of a preference may receive alerts of an account: its consent is verified and not withdrawn, and
  nothing suppresses it.\<close>

definition may_receive :: "world \<Rightarrow> string \<Rightarrow> string \<Rightarrow> string \<Rightarrow> bool" where
  "may_receive w account channel target \<longleftrightarrow>
     account \<in> account_ids (w_db w) \<and>
     (case (normalizeDeliveryChannel channel, normalizeDeliveryTarget target) of
        (Inr c, Inr g) \<Rightarrow>
          list_ex (\<lambda>r. consent_key account c g r \<and> dc_verifiedAt r \<noteq> None \<and> dc_unsubscribedAt r = None) (consents (w_db w))
          \<and> \<not> list_ex (\<lambda>r. sp_accountId r = account \<and> sp_channel r = c \<and> sp_target r = g) (suppressions (w_db w))
      | _ \<Rightarrow> False)"

lemma may_receive_cong:
  "accounts (w_db v) = accounts (w_db w) \<Longrightarrow> consents (w_db v) = consents (w_db w) \<Longrightarrow> suppressions (w_db v) = suppressions (w_db w)
   \<Longrightarrow> may_receive v a c g = may_receive w a c g"
  by (simp add: may_receive_def account_ids_def split: sum.splits)

lemma consent_cause_None:
  assumes "consent_cause e p g w = (Inr None, w')" "ae_accountId e \<in> account_ids (w_db w)"
  shows "w' = w" "may_receive w (ae_accountId e) (wp_channel p) g"
proof -
  from assms(1) obtain q w1 where q1: "findDeliveryConsent (ae_accountId e) (wp_channel p) g w = (Inr q, w1)"
    and r: "(if (case q of None \<Rightarrow> True | Some c \<Rightarrow> dc_verifiedAt c = None) then ret (Some CAUSE_unverifiedConsent)
      else if dc_unsubscribedAt (the q) \<noteq> None then ret (Some CAUSE_unsubscribe)
      else
        andThen (getDeliverySuppression (ae_accountId e) (wp_channel p) g) (\<lambda>suppression.
        ret (case map_option sp_reason suppression of
               None \<Rightarrow> None
             | Some REASON_UNSUBSCRIBE \<Rightarrow> Some CAUSE_unsubscribe
             | Some REASON_BOUNCE \<Rightarrow> Some CAUSE_bounce
             | Some REASON_COMPLAINT \<Rightarrow> Some CAUSE_complaint))) w1 = (Inr None, w')"
    unfolding consent_cause_def by (rule andThen_InrE)
  have q: "findDeliveryConsent (ae_accountId e) (wp_channel p) g w = (Inr q, w)" "w1 = w"
    using q1 by (auto simp: findDeliveryConsent_Inr_iff)
  from r q(2) have c: "q \<noteq> None" "dc_verifiedAt (the q) \<noteq> None" "dc_unsubscribedAt (the q) = None"
    and r: "andThen (getDeliverySuppression (ae_accountId e) (wp_channel p) g) (\<lambda>suppression.
        ret (case map_option sp_reason suppression of
               None \<Rightarrow> None
             | Some REASON_UNSUBSCRIBE \<Rightarrow> Some CAUSE_unsubscribe
             | Some REASON_BOUNCE \<Rightarrow> Some CAUSE_bounce
             | Some REASON_COMPLAINT \<Rightarrow> Some CAUSE_complaint)) w = (Inr None, w')"
    by (cases q; simp add: ret_def split: if_splits)+
  from r obtain sq where sq: "getDeliverySuppression (ae_accountId e) (wp_channel p) g w = (Inr sq, w')" "sq = None"
    by (rule andThen_InrE) (auto simp: ret_def split: option.splits suppression_reason.splits)
  from sq show w': "w' = w" by (auto simp: getDeliverySuppression_def run_iffs)
  from q(1) c obtain c' g' where n: "normalizeDeliveryChannel (wp_channel p) = Inr c'" "normalizeDeliveryTarget g = Inr g'"
    and t: "trim (ae_accountId e) \<noteq> []" and f: "find (consent_key (ae_accountId e) c' g') (consents (w_db w)) = Some (the q)"
    by (auto simp: findDeliveryConsent_Inr_iff)
  have "the q \<in> set (consents (w_db w)) \<and> consent_key (ae_accountId e) c' g' (the q)" using find_SomeD [OF f] .
  moreover have "filter (\<lambda>r. sp_accountId r = ae_accountId e \<and> sp_channel r = c' \<and> sp_target r = g') (suppressions (w_db w)) = []"
    using sq getDeliverySuppression_run [OF t n, of w] by auto
  ultimately show "may_receive w (ae_accountId e) (wp_channel p) g"
    using assms(2) c by (auto simp: may_receive_def n list_ex_iff filter_empty_conv)
qed

lemma suppressionCause_None:
  assumes "suppressionCause e watch p policy deleted w = (Inr None, w')"
  shows "w' = w" "dp_monthlyCapabilityEnabled policy" "\<not> sourceDelayedSevenDays policy"
    "\<exists>x g. watch = Some x \<and> ow_status x = ACTIVE \<and> wp_target p = Some g \<and> may_receive w (ae_accountId e) (wp_channel p) g"
proof -
  have found: "andThen (findAccount i) k v = k (find (\<lambda>r. ac_id r = i) (accounts (w_db v))) v" for i v
    and k :: "account option \<Rightarrow> suppression_cause option store_op"
    by (simp add: andThen_def findAccount_def query_def)
  have act: "s \<noteq> PAUSED \<Longrightarrow> s = ACTIVE" for s by (cases s) auto
  from assms obtain x g where x: "watch = Some x" "ow_status x \<noteq> PAUSED" and g: "wp_target p = Some g"
    and c: "consent_cause e p g w = (Inr None, w')" and a: "find (\<lambda>r. ac_id r = ae_accountId e) (accounts (w_db w)) \<noteq> None"
    and pol: "dp_monthlyCapabilityEnabled policy" "\<not> sourceDelayedSevenDays policy"
    by (auto simp: suppressionCause_def found ret_def split: if_splits option.splits)
  from a have "ae_accountId e \<in> account_ids (w_db w)" by (auto simp: account_ids_def dest!: find_SomeD intro!: rev_image_eqI)
  from consent_cause_None [OF c this] x g act pol
  show "w' = w" "dp_monthlyCapabilityEnabled policy" "\<not> sourceDelayedSevenDays policy"
    "\<exists>x g. watch = Some x \<and> ow_status x = ACTIVE \<and> wp_target p = Some g \<and> may_receive w (ae_accountId e) (wp_channel p) g"
    by auto
qed

text \<open>A message the worker may have sent for the events and watches it was given.\<close>

definition lawful :: "delivery_policy \<Rightarrow> opportunity_watch list \<Rightarrow> alert_event list \<Rightarrow> sent_message \<Rightarrow> bool" where
  "lawful policy ws events m \<longleftrightarrow>
     dp_monthlyCapabilityEnabled policy \<and> \<not> sourceDelayedSevenDays policy \<and>
     (\<exists>e \<in> set events. \<exists>x \<in> set ws. \<exists>p \<in> set (ow_deliveryPreferences x). \<exists>g.
        ow_id x = ae_watchId e \<and> ow_status x = ACTIVE \<and> wp_enabled p \<and> wp_target p = Some g
        \<and> sm_message m = renderAlertMessage e \<and> may_receive (sm_store m) (ae_accountId e) (wp_channel p) g)"

definition sends_only :: "(sent_message \<Rightarrow> bool) \<Rightarrow> 'a post_op \<Rightarrow> bool" where
  "sends_only Q m \<longleftrightarrow> (\<forall>s r t. m s = (r, t) \<longrightarrow> (\<exists>sent. po_sent t = po_sent s @ sent \<and> (\<forall>x \<in> set sent. Q x)))"

lemma sends_only_basic: "sends_only Q (ret x)" "sends_only Q (store m')"
  by (auto simp: sends_only_def ret_def store_def split: prod.splits)

lemma sends_only_then:
  assumes "sends_only Q m" "m s = (x, u)" "\<exists>sent. po_sent t = po_sent u @ sent \<and> (\<forall>y \<in> set sent. Q y)"
  shows "\<exists>sent. po_sent t = po_sent s @ sent \<and> (\<forall>y \<in> set sent. Q y)"
proof -
  obtain a where "po_sent u = po_sent s @ a" "\<forall>y \<in> set a. Q y" using assms(1,2) unfolding sends_only_def by blast
  moreover obtain b where "po_sent t = po_sent u @ b" "\<forall>y \<in> set b. Q y" using assms(3) by blast
  ultimately show ?thesis by (intro exI [of _ "a @ b"]) auto
qed

lemma sends_only_andThen:
  assumes "sends_only Q m" "\<And>x. sends_only Q (k x)"
  shows "sends_only Q (andThen m k)"
  unfolding sends_only_def
proof (intro allI impI)
  fix s r t assume run: "andThen m k s = (r, t)"
  obtain x u where m: "m s = (x, u)" by fastforce
  have "\<exists>sent. po_sent t = po_sent u @ sent \<and> (\<forall>y \<in> set sent. Q y)"
  proof (cases x)
    case (Inr y)
    with run m have "k y u = (r, t)" by (simp add: andThen_def)
    then show ?thesis using assms(2) unfolding sends_only_def by blast
  qed (use run m in \<open>simp add: andThen_def\<close>)
  then show "\<exists>sent. po_sent t = po_sent s @ sent \<and> (\<forall>y \<in> set sent. Q y)" by (rule sends_only_then [OF assms(1) m])
qed

lemma sends_only_catching:
  assumes "sends_only Q m" "\<And>e. sends_only Q (h e)"
  shows "sends_only Q (catching m h)"
  unfolding sends_only_def
proof (intro allI impI)
  fix s r t assume run: "catching m h s = (r, t)"
  obtain x u where m: "m s = (x, u)" by fastforce
  have "\<exists>sent. po_sent t = po_sent u @ sent \<and> (\<forall>y \<in> set sent. Q y)"
  proof (cases x)
    case (Inl e)
    with run m have "h e u = (r, t)" by (simp add: catching_def)
    then show ?thesis using assms(2) unfolding sends_only_def by blast
  qed (use run m in \<open>simp add: catching_def\<close>)
  then show "\<exists>sent. po_sent t = po_sent s @ sent \<and> (\<forall>y \<in> set sent. Q y)" by (rule sends_only_then [OF assms(1) m])
qed

lemma sends_only_foldOp: "(\<And>x acc. x \<in> set xs \<Longrightarrow> sends_only Q (f x acc)) \<Longrightarrow> sends_only Q (foldOp f xs acc)"
  by (induction xs arbitrary: acc) (auto intro: sends_only_basic sends_only_andThen)

lemma deliver_preference_lawful:
  assumes "e \<in> set events" "p \<in> set (deliverable (watch_of ws (ae_watchId e)))"
  shows "sends_only (lawful policy ws events) (deliver_preference fuel pv policy n deleted e (watch_of ws (ae_watchId e)) p m)"
  unfolding sends_only_def
proof (intro allI impI)
  let ?watch = "watch_of ws (ae_watchId e)"
  fix s r t
  assume run: "deliver_preference fuel pv policy n deleted e ?watch p m s = (r, t)"
  obtain c u where cause: "store (suppressionCause e ?watch p policy deleted) s = (c, u)" by fastforce
  then have sent: "po_sent u = po_sent s" by (auto simp: store_def split: prod.splits)
  show "\<exists>sent. po_sent t = po_sent s @ sent \<and> (\<forall>x \<in> set sent. lawful policy ws events x)"
  proof (cases "c = Inr None")
    case False
    have "sends_only (\<lambda>_. False) (recordSuppressedIfPossible e (wp_channel p))"
      unfolding recordSuppressedIfPossible_def by (intro sends_only_catching sends_only_andThen sends_only_basic)
    then have "sends_only (\<lambda>_. False) (andThen (recordSuppressedIfPossible e (wp_channel p)) (\<lambda>_. ret x))" for x :: delivery_summary
      by (intro sends_only_andThen sends_only_basic)
    with run cause False have "\<exists>sent. po_sent t = po_sent u @ sent \<and> (\<forall>x \<in> set sent. False)"
      unfolding sends_only_def deliver_preference_def andThen_def [of "store _"] by (cases c) (auto split: option.splits)
    with sent show ?thesis by fastforce
  next
    case True
    then obtain w' where "suppressionCause e ?watch p policy deleted (po_store s) = (Inr None, w')" "u = s\<lparr>po_store := w'\<rparr>"
      using cause by (auto simp: store_def split: prod.splits)
    with suppressionCause_None [OF this(1)] obtain x g where pol: "dp_monthlyCapabilityEnabled policy" "\<not> sourceDelayedSevenDays policy"
      and x: "?watch = Some x" "ow_status x = ACTIVE" "wp_target p = Some g" "may_receive (po_store s) (ae_accountId e) (wp_channel p) g"
      and u: "u = s" by auto
    from run cause True u have "\<exists>y. deliverOne fuel pv e p n s = (y, t)"
      unfolding deliver_preference_def andThen_def [of "store _"]
      by (auto simp: andThen_def ret_def split: prod.splits sum.splits)
    then obtain y where "deliverOne fuel pv e p n s = (y, t)" by blast
    from deliverOne_run [OF this] obtain sent key where sent: "po_sent t = po_sent s @ sent"
      "\<forall>m \<in> set sent. sm_message m = renderAlertMessage e
             \<and> accounts (w_db (sm_store m)) = accounts (w_db (po_store s)) \<and> consents (w_db (sm_store m)) = consents (w_db (po_store s))
             \<and> suppressions (w_db (sm_store m)) = suppressions (w_db (po_store s))" by blast
    have p: "p \<in> set (ow_deliveryPreferences x)" "wp_enabled p" using assms(2) x(1) by (auto simp: deliverable_def)
    have "x \<in> set ws" "ow_id x = ae_watchId e" using x(1) by (auto simp: watch_of_def dest: find_SomeD)
    then have "lawful policy ws events m" if "m \<in> set sent" for m
      unfolding lawful_def using pol x assms(1) p sent(2) that may_receive_cong [of "sm_store m" "po_store s"] by blast
    with sent(1) show ?thesis by blast
  qed
qed

lemma deliverEvents_lawful: "sends_only (lawful policy ws events) (deliverEventsWithWatches fuel pv policy n ws deleted events)"
  unfolding deliverEventsWithWatches_def deliver_event_def Let_def
  by (intro sends_only_foldOp) (auto intro!: sends_only_basic sends_only_foldOp deliver_preference_lawful)

lemma deliverAlertEvents_lawful:
  assumes "deliverAlertEvents fuel pv policy n events s = (r, t)"
  shows "\<exists>ws sent. po_sent t = po_sent s @ sent \<and> (\<forall>m \<in> set sent. lawful policy ws events m)"
proof -
  let ?gather = "foldOp gather_watches (rev (remdups (rev (map ae_accountId events)))) ([], [])"
  have g: "sends_only (\<lambda>_. False) ?gather"
    unfolding gather_watches_def by (intro sends_only_foldOp sends_only_andThen sends_only_basic) (auto intro: sends_only_andThen sends_only_basic)
  obtain x u where gather: "?gather s = (x, u)" by fastforce
  with g have sent: "po_sent u = po_sent s" unfolding sends_only_def by fastforce
  show ?thesis
  proof (cases x)
    case (Inl err)
    with assms gather sent show ?thesis by (auto simp: deliverAlertEvents_def andThen_def)
  next
    case (Inr wd)
    obtain ws deleted where wd: "wd = (ws, deleted)" by fastforce
    with assms gather Inr have "deliverEventsWithWatches fuel pv policy n ws deleted events u = (r, t)"
      by (simp add: deliverAlertEvents_def andThen_def)
    with deliverEvents_lawful [of policy ws events fuel pv n deleted] sent show ?thesis unfolding sends_only_def by metis
  qed
qed

text \<open>C1: \<^verbatim>\<open>deliverOpportunityWatchAlerts\<close> hands a message to the provider only for an alert of the account whose watch is
  active and not deleted and has an enabled preference with an address, while the monthly capability is on and the source
  is not delayed; and at that very moment the account exists, the consent of the address is verified and not
  withdrawn, and no bounce, complaint or unsubscription suppresses the address.\<close>

theorem alerts_reach_only_consenting_addresses:
  assumes "deliverOpportunityWatchAlerts fuel pv policy n a s = (r, t)"
  shows "\<exists>sent. po_sent t = po_sent s @ sent \<and>
    (\<forall>m \<in> set sent. dp_monthlyCapabilityEnabled policy \<and> \<not> sourceDelayedSevenDays policy \<and>
       (\<exists>e \<in> set (alert_events (w_db (po_store s))). \<exists>row \<in> set (watches (w_db (po_store s))).
        \<exists>p \<in> set (wr_deliveryPreferences row). \<exists>g.
          sm_message m = renderAlertMessage e \<and> ae_accountId e = a \<and> wr_id row = ae_watchId e \<and> wr_accountId row = a
          \<and> wr_status row = ACTIVE \<and> wr_deletedAt row = None \<and> wp_enabled p \<and> wp_target p = Some g
          \<and> may_receive (sm_store m) a (wp_channel p) g))"
proof (cases "find (\<lambda>r. ac_id r = a) (accounts (w_db (po_store s))) = None")
  case True
  with assms show ?thesis
    by (auto simp: deliverOpportunityWatchAlerts_def andThen_def store_def findAccount_def query_def ret_def)
next
  case False
  let ?db = "w_db (po_store s)"
  define events where "events = sort_key (\<lambda>r. (ae_occurredAt r, ae_createdAt r, ae_id r)) (filter (\<lambda>r. ae_accountId r = a) (alert_events ?db))"
  define ws where "ws = map (\<lambda>r. mapWatchWithLastEvaluation r ?db) (sort_key (\<lambda>r. (wr_createdAt r, wr_id r))
        (filter (\<lambda>r. wr_accountId r = a \<and> wr_deletedAt r = None) (watches ?db)))"
  from assms False have "deliverEventsWithWatches fuel pv policy n ws [] events s = (r, t)"
    by (simp add: deliverOpportunityWatchAlerts_def andThen_def store_def findAccount_def query_def listAlertEvents_def
        listWatches_def events_def ws_def)
  then obtain sent where sent: "po_sent t = po_sent s @ sent" "\<forall>m \<in> set sent. lawful policy ws events m"
    using deliverEvents_lawful [of policy ws events fuel pv n "[]"] unfolding sends_only_def by blast
  have ev: "e \<in> set (alert_events ?db) \<and> ae_accountId e = a" if "e \<in> set events" for e using that by (auto simp: events_def)
  have wa: "\<exists>row \<in> set (watches ?db). wr_accountId row = a \<and> wr_deletedAt row = None \<and> ow_id x = wr_id row
      \<and> ow_status x = wr_status row \<and> ow_deliveryPreferences x = wr_deliveryPreferences row" if "x \<in> set ws" for x
    using that by (auto simp: ws_def mapWatchWithLastEvaluation_def mapWatch_def)
  have "dp_monthlyCapabilityEnabled policy \<and> \<not> sourceDelayedSevenDays policy \<and>
       (\<exists>e \<in> set (alert_events ?db). \<exists>row \<in> set (watches ?db). \<exists>p \<in> set (wr_deliveryPreferences row). \<exists>g.
          sm_message m = renderAlertMessage e \<and> ae_accountId e = a \<and> wr_id row = ae_watchId e \<and> wr_accountId row = a
          \<and> wr_status row = ACTIVE \<and> wr_deletedAt row = None \<and> wp_enabled p \<and> wp_target p = Some g
          \<and> may_receive (sm_store m) a (wp_channel p) g)" if m: "m \<in> set sent" for m
  proof -
    from sent(2) m have l: "lawful policy ws events m" by blast
    then obtain e x p g where *: "e \<in> set events" "x \<in> set ws" "p \<in> set (ow_deliveryPreferences x)" "ow_id x = ae_watchId e"
      "ow_status x = ACTIVE" "wp_enabled p" "wp_target p = Some g" "sm_message m = renderAlertMessage e"
      "may_receive (sm_store m) (ae_accountId e) (wp_channel p) g" unfolding lawful_def by blast
    from wa [OF *(2)] obtain row where "row \<in> set (watches ?db)" "wr_accountId row = a" "wr_deletedAt row = None"
      "ow_id x = wr_id row" "ow_status x = wr_status row" "ow_deliveryPreferences x = wr_deliveryPreferences row" by blast
    with * ev [OF *(1)] l show ?thesis unfolding lawful_def by (metis (no_types))
  qed
  with sent(1) show ?thesis by blast
qed

text \<open>C26: delivering one alert to one address always ends: with more fuel than the attempts that are left the retry loop
  reaches a result, and it hands at most that many messages to the provider, all of them the rendered alert under one
  idempotency key.\<close>

theorem delivery_attempts_are_bounded:
  assumes "deliverOne fuel pv e p maxAttempts s = (r, t)"
    and "nat (maxAttempts - attempts_so_far (ae_id e) (wp_channel p) (po_store s)) < fuel"
  shows "r \<noteq> Inr Unfinished \<and> (\<exists>sent key. po_sent t = po_sent s @ sent
    \<and> length sent \<le> nat (maxAttempts - attempts_so_far (ae_id e) (wp_channel p) (po_store s))
    \<and> (\<forall>m \<in> set sent. sm_message m = renderAlertMessage e \<and> sm_key m = key))"
  using deliverOne_run [OF assms(1)] assms(2) by blast

lemma deliverOne_sends:
  assumes "state_row (ae_id e) (wp_channel p) (po_store s) = Some d" "ds_status d \<noteq> DEAD_LETTER" "ds_attempts d < maxAttempts"
    and "ds_status d \<noteq> SENT \<or> pv_supportsIdempotency pv" "0 < fuel"
    and "ensureDeliveryState (ae_id e) (wp_channel p) (po_store s) = (Inr d', w)" "deliverOne fuel pv e p maxAttempts s = (r, t)"
  shows "length (po_sent s) < length (po_sent t)"
proof -
  note e = ensureDeliveryState_InrD [OF assms(6)]
  have d': "d' = d" using e(2) assms(1) by simp
  obtain k where k: "fuel = Suc k" using assms(5) by (cases fuel) auto
  let ?u = "s\<lparr>po_store := w\<rparr>"
  have ens: "store (ensureDeliveryState (ae_id e) (wp_channel p)) s = (Inr d, ?u)" by (simp add: store_def assms(6) d')
  obtain x v where one: "attempt_once pv e p (ds_idempotencyKey d) ?u = (x, v)" by fastforce
  note a = attempt_once_run [OF one]
  from assms(7) have run: "andThen (attempt_once pv e p (ds_idempotencyKey d)) (\<lambda>recorded.
           if ds_status recorded = SENT then ret Delivered
           else if ds_status recorded = DEAD_LETTER then ret Dead_lettered
           else send_loop k pv e p maxAttempts (ds_idempotencyKey d) (ds_attempts recorded)) ?u = (r, t)"
    using assms(2-4) by (auto simp: deliverOne_def andThen_Inr [where m = "store _", OF ens] k)
  have "sends_only (\<lambda>_. True) (send_loop k pv e p maxAttempts key n)" for n key
  proof (induction k arbitrary: n)
    case 0
    then show ?case by (simp add: sends_only_basic)
  next
    case (Suc k)
    have "sends_only (\<lambda>_. True) (attempt_once pv e p key)"
      unfolding sends_only_def using attempt_once_run(1) by blast
    with Suc show ?case by (auto intro!: sends_only_andThen sends_only_basic)
  qed
  then have "sends_only (\<lambda>_. True) (if ds_status q = SENT then ret Delivered
           else if ds_status q = DEAD_LETTER then ret Dead_lettered
           else send_loop k pv e p maxAttempts (ds_idempotencyKey d) (ds_attempts q))" for q
    by (auto intro: sends_only_basic)
  note rest = this
  have "\<exists>sent. po_sent t = po_sent v @ sent"
  proof (cases x)
    case (Inr q)
    with run one have "(if ds_status q = SENT then ret Delivered
           else if ds_status q = DEAD_LETTER then ret Dead_lettered
           else send_loop k pv e p maxAttempts (ds_idempotencyKey d) (ds_attempts q)) v = (r, t)" by (simp add: andThen_def)
    with rest [of q] show ?thesis unfolding sends_only_def by blast
  qed (use run one in \<open>simp add: andThen_def\<close>)
  then show ?thesis using a(1) by auto
qed

lemma ensureDeliveryState_again:
  assumes "database_ok (w_db w)" "\<not> w_maintenance w" "trim c \<noteq> []" "state_row e c w = Some d"
  shows "\<exists>t. ensureDeliveryState e c w = (Inr d, t)"
proof -
  have d: "d \<in> set (delivery_states (w_db w))" "ds_eventId d = e" "ds_channel d = c"
    using assms(4) by (auto simp: state_row_def dest: find_SomeD)
  have "e \<in> event_ids (w_db w)" using database_ok_refs(10) [OF assms(1)] d by blast
  then have ev: "has_event e (w_db w)" by (auto simp: has_event_def event_ids_def list_ex_iff)
  have "list_ex (delivery_target r) (delivery_states (w_db w))" if "ds_eventId r = e" "ds_channel r = c" for r
    using d that by (auto simp: list_ex_iff delivery_target_def)
  then show ?thesis using assms ev
    by (auto simp: ensureDeliveryState_def run_defs require_event_def insert_delivery_once_def upsert_nothing_def
        getDeliveryState_def state_row_def require_ref_def)
qed

lemma recordDeliveryAttempt_again:
  assumes "database_ok (w_db w)" "\<not> w_maintenance w" "state_row (di_eventId i) (di_channel i) w = Some d"
    and "trim (di_eventId i) \<noteq> []" "trim (di_channel i) \<noteq> []" "di_status i \<noteq> PENDING"
    and "di_failureReason i = Some f" "trim f \<noteq> []"
  shows "\<exists>d' t. recordDeliveryAttempt i w = (Inr d', t) \<and> \<not> w_maintenance t"
proof -
  have d: "d \<in> set (delivery_states (w_db w))" "ds_eventId d = di_eventId i" "ds_channel d = di_channel i"
    using assms(3) by (auto simp: state_row_def dest: find_SomeD)
  have "di_eventId i \<in> event_ids (w_db w)" using database_ok_refs(10) [OF assms(1)] d by metis
  then have ev: "has_event (di_eventId i) (w_db w)" by (auto simp: has_event_def event_ids_def list_ex_iff)
  have clash: "no_clash delivery_clash (delivery_states (w_db w))" using assms(1) by (simp add: database_ok_def unique_ok_def)
  have up: "upsert_delivery r (w_db w) \<noteq> Inl x" if r: "ds_eventId r = di_eventId i" "ds_channel r = di_channel i" for r x
  proof -
    have tgt: "delivery_target r = (\<lambda>d. ds_eventId d = di_eventId i \<and> ds_channel d = di_channel i)"
      using r by (intro ext) (auto simp: delivery_target_def)
    then have "find (delivery_target r) (delivery_states (w_db w)) = Some d" using assms(3) by (simp add: state_row_def)
    moreover have "delivery_target r x" if "x \<in> set (delivery_states (w_db w))" "delivery_clash d x" for x
      using delivery_table.no_clash_unique [OF clash d(1) that] d by (simp add: tgt)
    ultimately show ?thesis using ev r
      by (auto simp: upsert_delivery_def upsert_update_def list_ex_iff require_ref_def delivery_clash_def delivery_target_def)
  qed
  show ?thesis
  proof (cases "recordDeliveryAttempt i w")
    case (Pair r t)
    have "(\<exists>d'. r = Inr d') \<and> \<not> w_maintenance t"
      using Pair assms ev up
      by (auto simp: recordDeliveryAttempt_def run_defs normalizeDeliveryStatus_def nonEmptyWhenPresent_def require_event_def
          getDeliveryState_def split: sum.splits if_splits)
    with Pair show ?thesis by auto
  qed
qed

text \<open>C37: a suppressed run forgets that an alert was delivered. A delivered alert is not handed again to a provider that
  cannot recognise duplicates; but once the worker has recorded a suppression for it (say, because the watch was
  paused), the next delivery sends the same alert a second time, as long as attempts are left.\<close>

theorem suppression_resends_a_delivered_alert:
  assumes "state_row (ae_id e) (wp_channel p) (po_store s) = Some d" "ds_status d = SENT" "ds_attempts d + 1 < maxAttempts"
    and "database_ok (w_db (po_store s))" "\<not> w_maintenance (po_store s)" "trim (ae_id e) \<noteq> []" "trim (wp_channel p) \<noteq> []"
    and "0 < fuel" "\<not> pv_supportsIdempotency pv"
  shows "po_sent (snd (deliverOne fuel pv e p maxAttempts s)) = po_sent s
    \<and> length (po_sent s) < length (po_sent (snd (andThen (recordSuppressedIfPossible e (wp_channel p))
        (\<lambda>_. deliverOne fuel pv e p maxAttempts) s)))"
proof
  obtain w where "ensureDeliveryState (ae_id e) (wp_channel p) (po_store s) = (Inr d, w)"
    using ensureDeliveryState_again [OF assms(4,5,7,1)] by blast
  then show "po_sent (snd (deliverOne fuel pv e p maxAttempts s)) = po_sent s"
    using assms(2,9) by (simp add: deliverOne_def andThen_def store_def ret_def split: prod.splits sum.splits)
next
  let ?i = "\<lparr>di_eventId = ae_id e, di_channel = wp_channel p, di_status = SUPPRESSED, di_outcome = OUTCOME_SUPPRESSED,
          di_providerReceipt = None, di_failureReason = Some ''Delivery suppressed before provider send.''\<rparr>"
  have "trim ''Delivery suppressed before provider send.'' \<noteq> []" by (simp add: trim_eq_Nil is_space_def)
  then obtain d' w where rec: "recordDeliveryAttempt ?i (po_store s) = (Inr d', w)" "\<not> w_maintenance w"
    using recordDeliveryAttempt_again [of "po_store s" ?i d] assms by auto
  let ?u = "s\<lparr>po_store := w\<rparr>"
  have sup: "recordSuppressedIfPossible e (wp_channel p) s = (Inr (), ?u)"
    by (simp add: recordSuppressedIfPossible_def catching_def andThen_def store_def rec(1) ret_def)
  note f = recordDeliveryAttempt_InrD [OF rec(1)]
  have row: "state_row (ae_id e) (wp_channel p) (po_store ?u) = Some d'" "ds_status d' = SUPPRESSED" "ds_attempts d' = ds_attempts d + 1"
    using f(1,4,6) assms(1) by (simp_all add: state_row_def)
  have ok: "database_ok (w_db w)" by (rule keepsD [OF watch_operations_keep(13) assms(4) rec(1)])
  obtain v where ens: "ensureDeliveryState (ae_id e) (wp_channel p) (po_store ?u) = (Inr d', v)"
    using ensureDeliveryState_again [OF _ _ assms(7) row(1)] ok rec(2) by auto
  obtain r t where run: "deliverOne fuel pv e p maxAttempts ?u = (r, t)" by fastforce
  have "length (po_sent ?u) < length (po_sent t)"
    using deliverOne_sends [OF row(1) _ _ _ assms(8) ens run] row(2,3) assms(3) by simp
  then show "length (po_sent s) < length (po_sent (snd (andThen (recordSuppressedIfPossible e (wp_channel p))
        (\<lambda>_. deliverOne fuel pv e p maxAttempts) s)))"
    using run by (simp add: andThen_Inr [where m = "recordSuppressedIfPossible e (wp_channel p)", OF sup])
qed

subsection \<open>A small mailbox\<close>

definition mail_preference :: delivery_preference where
  "mail_preference = \<lparr>wp_channel = ''email'', wp_target = Some ''ada@example.org'', wp_enabled = True\<rparr>"

definition mail_event :: alert_event where
  "mail_event = \<lparr>ae_id = ''e-1'', ae_watchId = ''id-2'', ae_accountId = ''id-0'', ae_kind = ''MOMENTUM_SIGNAL'',
     ae_dedupeKey = ''k'', ae_recipeId = None, ae_packageId = None, ae_supersededPackageId = None, ae_cutoffMonth = None,
     ae_priorEventId = None, ae_detail = JObj [], ae_occurredAt = ''2025'', ae_createdAt = ''2025''\<rparr>"

definition mail_consent :: delivery_consent where
  "mail_consent = \<lparr>dc_accountId = ''id-0'', dc_channel = ''email'', dc_target = ''ada@example.org'', dc_consentedAt = ''2025'',
     dc_verifiedAt = Some ''2025'', dc_unsubscribedAt = None, dc_verificationToken = ''t'', dc_unsubscribeToken = ''u'',
     dc_createdAt = ''2025'', dc_updatedAt = ''2025''\<rparr>"

definition mail_world :: "delivery_state list \<Rightarrow> post" where
  "mail_world ds = \<lparr>po_store = sample_world\<lparr>w_db := empty_database\<lparr>accounts := [sample_account],
      consents := [mail_consent], watches := [sample_watch\<lparr>wr_deliveryPreferences := [mail_preference]\<rparr>],
      alert_events := [mail_event], delivery_states := ds\<rparr>\<rparr>, po_sent = []\<rparr>"

definition mail_policy :: delivery_policy where
  "mail_policy = \<lparr>dp_monthlyCapabilityEnabled = True, dp_sourceRefreshDelayedSince = None, dp_asOf = ''2025''\<rparr>"

definition mail_provider :: "bool \<Rightarrow> provider" where
  "mail_provider i = \<lparr>pv_supportsIdempotency = i,
     pv_send = (\<lambda>m k n. Inr \<lparr>pr_accepted = True, pr_providerReceipt = Some k, pr_outcome = ACCEPTED\<rparr>)\<rparr>"

lemma mail_texts: "trim ''id-0'' = ''id-0''" "normalizeDeliveryChannel ''email'' = Inr ''email''"
  "normalizeDeliveryTarget ''ada@example.org'' = Inr ''ada@example.org''" "trim ''e-1'' = ''e-1''" "trim ''email'' = ''email''"
  by code_simp+

lemma mail_runs: "length (po_sent (snd (deliverOpportunityWatchAlerts 4 (mail_provider True) mail_policy None ''id-0'' (mail_world [])))) = 1"
  by (simp add: deliverOpportunityWatchAlerts_def run_defs store_def findAccount_def mail_world_def sample_account_def
      listAlertEvents_def listWatches_def sample_watch_def empty_database_def sample_world_def mail_event_def
      deliverEventsWithWatches_def deliver_event_def watch_of_def deliverable_def mapWatchWithLastEvaluation_def
      mapWatch_def latest_evaluation_def mail_preference_def deliver_preference_def suppressionCause_def mail_policy_def
      sourceDelayedSevenDays_def consent_cause_def findDeliveryConsent_def getDeliverySuppression_def mail_texts
      mail_consent_def first_row_def deliverOne_def ensureDeliveryState_def require_event_def event_ids_def
      insert_delivery_once_def upsert_nothing_def insert_row_def require_ref_def has_event_def getDeliveryState_def
      attempt_once_def send_def mail_provider_def recordDeliveryAttempt_def mapProviderOutcome_def normalizeDeliveryStatus_def
      nonEmptyWhenPresent_def upsert_delivery_def upsert_update_def delivery_target_def update_rows_def record_rejection_def
      numeral_eq_Suc)

theorem alerts_reach_only_consenting_addresses_witness:
  "\<exists>m. po_sent (snd (deliverOpportunityWatchAlerts 4 (mail_provider True) mail_policy None ''id-0'' (mail_world []))) = [m]
     \<and> sm_message m = renderAlertMessage mail_event \<and> may_receive (sm_store m) ''id-0'' ''email'' ''ada@example.org''"
proof -
  let ?run = "deliverOpportunityWatchAlerts 4 (mail_provider True) mail_policy None ''id-0'' (mail_world [])"
  obtain r t where run: "?run = (r, t)" by fastforce
  obtain m where m: "po_sent t = [m]" using mail_runs run by (auto simp: length_Suc_conv)
  have "po_sent (mail_world []) = []" "watches (w_db (po_store (mail_world []))) = [sample_watch\<lparr>wr_deliveryPreferences := [mail_preference]\<rparr>]"
    "alert_events (w_db (po_store (mail_world []))) = [mail_event]" by (simp_all add: mail_world_def)
  with alerts_reach_only_consenting_addresses [OF run] m run show ?thesis by (auto simp: mail_preference_def)
qed

theorem delivery_attempts_are_bounded_witness:
  "length (po_sent (snd (deliverOne 4 (mail_provider True) mail_event mail_preference 3 (mail_world [])))) \<le> 3
     \<and> fst (deliverOne 4 (mail_provider True) mail_event mail_preference 3 (mail_world [])) \<noteq> Inr Unfinished"
proof -
  have "attempts_so_far (ae_id mail_event) (wp_channel mail_preference) (po_store (mail_world [])) = 0" "po_sent (mail_world []) = []"
    by (simp_all add: attempts_so_far_def state_row_def mail_world_def)
  then show ?thesis
    using delivery_attempts_are_bounded [of 4 "mail_provider True" mail_event mail_preference 3 "mail_world []"]
    by (cases "deliverOne 4 (mail_provider True) mail_event mail_preference 3 (mail_world [])") fastforce
qed

definition delivered_state :: delivery_state where
  "delivered_state = \<lparr>ds_deliveryId = ''d'', ds_eventId = ''e-1'', ds_channel = ''email'', ds_idempotencyKey = ''e-1:email'',
     ds_status = SENT, ds_attempts = 1, ds_lastAttemptAt = ''2025'', ds_providerReceipt = None, ds_lastOutcome = Some ACCEPTED,
     ds_failureReason = None, ds_updatedAt = ''2025''\<rparr>"

lemma delivered_ok: "database_ok (w_db (po_store (mail_world [delivered_state])))"
  by (simp add: database_ok_def unique_ok_def references_ok_def mail_world_def empty_database_def delivered_state_def ids_defs
      mail_event_def mail_consent_def sample_watch_def sample_account_def)

theorem suppression_resends_a_delivered_alert_witness:
  "0 < length (po_sent (snd (andThen (recordSuppressedIfPossible mail_event (wp_channel mail_preference))
      (\<lambda>_. deliverOne 4 (mail_provider False) mail_event mail_preference 3) (mail_world [delivered_state]))))
   \<and> po_sent (snd (deliverOne 4 (mail_provider False) mail_event mail_preference 3 (mail_world [delivered_state]))) = []"
proof -
  let ?s = "mail_world [delivered_state]"
  have "state_row (ae_id mail_event) (wp_channel mail_preference) (po_store ?s) = Some delivered_state" "ds_status delivered_state = SENT"
    "ds_attempts delivered_state + 1 < 3" "\<not> w_maintenance (po_store ?s)" "trim (ae_id mail_event) \<noteq> []"
    "trim (wp_channel mail_preference) \<noteq> []" "(0 :: nat) < 4" "\<not> pv_supportsIdempotency (mail_provider False)" "po_sent ?s = []"
    by (simp_all add: state_row_def mail_world_def delivered_state_def mail_event_def mail_preference_def sample_world_def
        mail_texts mail_provider_def)
  with suppression_resends_a_delivered_alert [of mail_event mail_preference ?s delivered_state 3 4 "mail_provider False"] delivered_ok
  show ?thesis by simp
qed

end
