(* ===== verification/Js_Sort.thy ===== *)
theory Js_Sort
  imports Js_Number "HOL-Library.Multiset" "HOL-Library.Product_Lexorder"
begin

text \<open>
  \<^verbatim>\<open>Array.prototype.sort\<close> with a comparator function. The standard fixes the result for a consistent
  comparator only: the stable order in which an element precedes another when the comparator's number is not
  positive. \<^theory_text>\<open>sort_by\<close> is that order as a stable insertion sort, with a comparator that may throw; a
  comparator that yields \<^verbatim>\<open>NaN\<close> counts as zero. The locale \<^theory_text>\<open>key_comparator\<close> states what the recipes rely
  on, that on the elements at hand the comparator never throws and orders them by a key, and gives them the
  library's \<^theory_text>\<open>sort_key\<close>.
\<close>

fun insert_by :: "('a \<Rightarrow> 'a \<Rightarrow> 'e + js_number) \<Rightarrow> 'a \<Rightarrow> 'a list \<Rightarrow> 'e + 'a list" where
  "insert_by cmp x [] = Inr [x]"
| "insert_by cmp x (y # ys) =
     ebind (cmp x y) (\<lambda>c.
       if js_less (Finite 0) c then ebind (insert_by cmp x ys) (\<lambda>zs. Inr (y # zs))
       else Inr (x # y # ys))"

fun sort_by :: "('a \<Rightarrow> 'a \<Rightarrow> 'e + js_number) \<Rightarrow> 'a list \<Rightarrow> 'e + 'a list" where
  "sort_by cmp [] = Inr []"
| "sort_by cmp (x # xs) = ebind (sort_by cmp xs) (insert_by cmp x)"

text \<open>Whatever the comparator, a sort that does not throw permutes its input.\<close>

lemma insert_by_mset: "insert_by cmp x xs = Inr ys \<Longrightarrow> mset ys = add_mset x (mset xs)"
  by (induction xs arbitrary: ys) (auto simp: ebind_Inr_iff split: if_splits)

lemma sort_by_mset: "sort_by cmp xs = Inr ys \<Longrightarrow> mset ys = mset xs"
  by (induction xs arbitrary: ys) (auto simp: ebind_Inr_iff dest: insert_by_mset)

lemma sort_by_set: "sort_by cmp xs = Inr ys \<Longrightarrow> set ys = set xs"
  by (metis sort_by_mset set_mset_mset)

lemma sort_by_length: "sort_by cmp xs = Inr ys \<Longrightarrow> length ys = length xs"
  by (metis sort_by_mset size_mset)

lemma insert_by_total:
  "\<forall>y \<in> set xs. \<exists>c. cmp x y = Inr c \<Longrightarrow> \<exists>ys. insert_by cmp x xs = Inr ys"
  by (induction xs) auto

lemma sort_by_total:
  "\<forall>x \<in> set xs. \<forall>y \<in> set xs. \<exists>c. cmp x y = Inr c \<Longrightarrow> \<exists>ys. sort_by cmp xs = Inr ys"
proof (induction xs)
  case (Cons x xs)
  then obtain ys where "sort_by cmp xs = Inr ys" by auto
  with Cons.prems show ?case by (auto simp: sort_by_set intro: insert_by_total)
qed simp

text \<open>A key that tells the elements apart makes the sorted list a function of the multiset.\<close>

lemma sort_key_mset:
  assumes "mset xs = mset ys" "inj_on key (set xs)"
  shows "sort_key key xs = sort_key key ys"
proof (rule properties_for_sort_key)
  show "mset (sort_key key ys) = mset xs" using assms(1) by simp
  have set: "set xs = set ys" using assms(1) by (rule mset_eq_setD)
  have pick: "filter (\<lambda>z. k = z) zs = replicate (count (mset zs) k) k" for k and zs :: "'a list"
    by (induction zs) auto
  fix k assume k: "k \<in> set (sort_key key ys)"
  have same: "filter (\<lambda>z. key k = key z) zs = filter (\<lambda>z. k = z) zs" if "set zs = set ys" for zs
    using that k assms(2) set by (auto intro!: filter_cong dest: inj_onD)
  show "filter (\<lambda>z. key k = key z) (sort_key key ys) = filter (\<lambda>z. key k = key z) xs"
    using assms(1) set by (simp add: same pick)
qed simp

lemma sum_list_mset_eq:
  assumes "mset xs' = mset xs"
  shows "(\<Sum>x\<leftarrow>xs'. f x) = ((\<Sum>x\<leftarrow>xs. f x) :: 'b::comm_monoid_add)"
  unfolding sum_mset_sum_list [symmetric] mset_map assms ..

lemma emap_mset:
  assumes "emap f xs = Inr ys" "mset xs' = mset xs"
  shows "\<exists>ys'. emap f xs' = Inr ys' \<and> mset ys' = mset ys"
proof -
  define g where "g = (\<lambda>x. case f x of Inr y \<Rightarrow> y)"
  have "list_all2 (\<lambda>x y. f x = Inr y) xs ys" using assms(1) by (simp add: emap_Inr_iff)
  then have ys: "ys = map g xs" and ok: "list_all (\<lambda>x. f x = Inr (g x)) xs"
    by (induction rule: list_all2_induct) (simp_all add: g_def)
  have "list_all (\<lambda>x. f x = Inr (g x)) xs'" using ok assms(2) by (metis list_all_iff mset_eq_setD)
  then have "emap f xs' = Inr (map g xs')" by (induction xs') simp_all
  with ys assms(2) show ?thesis by auto
qed

locale key_comparator =
  fixes cmp :: "'a \<Rightarrow> 'a \<Rightarrow> 'e + js_number"
    and key :: "'a \<Rightarrow> 'k::linorder"
    and admissible :: "'a \<Rightarrow> bool"
  assumes compares: "admissible x \<Longrightarrow> admissible y \<Longrightarrow>
    \<exists>c. cmp x y = Inr c \<and> (js_less (Finite 0) c \<longleftrightarrow> key y < key x)"
begin

lemma insert_by_key:
  "admissible x \<Longrightarrow> list_all admissible ys \<Longrightarrow> insert_by cmp x ys = Inr (insort_key key x ys)"
proof (induction ys)
  case (Cons y ys)
  obtain c where "cmp x y = Inr c" "js_less (Finite 0) c \<longleftrightarrow> key y < key x"
    using compares [of x y] Cons.prems by auto
  with Cons show ?case by auto
qed simp

lemma sort_by_key: "list_all admissible xs \<Longrightarrow> sort_by cmp xs = Inr (sort_key key xs)"
proof (induction xs)
  case (Cons x xs)
  then have "list_all admissible (sort_key key xs)" by (simp add: list_all_iff)
  with Cons show ?case by (simp add: insert_by_key)
qed simp

lemma sort_by_sorted: "list_all admissible xs \<Longrightarrow> sort_by cmp xs = Inr ys \<Longrightarrow> sorted (map key ys)"
  by (simp add: sort_by_key) (metis sorted_sort_key)

lemma sort_by_order_independent:
  assumes "mset xs = mset ys" "inj_on key (set xs)" "list_all admissible xs"
  shows "sort_by cmp ys = sort_by cmp xs"
proof -
  have "list_all admissible ys" using assms(1,3) by (metis list_all_iff mset_eq_setD)
  with assms show ?thesis by (simp add: sort_by_key sort_key_mset)
qed

end

subsection \<open>Codes as numbers\<close>

text \<open>A code of at most fifteen digits is a safe integer, and the difference of two is exact.\<close>

lemma to_number_int:
  assumes "\<bar>n\<bar> \<le> 2 ^ 53"
  shows "to_number (of_int n) = Finite (of_int n)"
proof -
  have "nearest_double \<bar>of_int n :: rat\<bar> = \<bar>of_int n\<bar>"
    using nearest_double_int [of "\<bar>n\<bar>"] assms by simp
  moreover have "\<bar>of_int n :: rat\<bar> < pow2 1024"
  proof -
    have "\<bar>of_int n :: rat\<bar> = of_int \<bar>n\<bar>" by simp
    also have "\<dots> \<le> of_int (2 ^ 53)" using assms by (simp only: of_int_le_iff)
    also have "\<dots> = pow2 53" by (simp add: pow2_def)
    also have "\<dots> < pow2 1024" by (simp add: pow2_less_iff)
    finally show ?thesis .
  qed
  ultimately show ?thesis by (auto simp: to_number_def Let_def)
qed

definition numeric_code :: "string \<Rightarrow> bool" where
  "numeric_code c \<longleftrightarrow> c \<noteq> [] \<and> list_all is_digit c \<and> length c \<le> 15"

lemma is_digit_not_space: "is_digit c \<Longrightarrow> \<not> is_space c"
  by (auto simp: is_digit_def is_space_def Let_def)

lemma trim_no_space:
  assumes "\<forall>c \<in> set s. \<not> is_space c"
  shows "trim s = s"
proof -
  have "dropWhile is_space t = t" if "\<forall>c \<in> set t. \<not> is_space c" for t
    using that by (cases t) auto
  from this [OF assms] this [of "rev s"] assms show ?thesis by (simp add: trim_def trim_start_def)
qed

lemma trim_digits: "list_all is_digit s \<Longrightarrow> trim s = s"
  by (rule trim_no_space) (auto simp: list_all_iff is_digit_not_space)

lemma not_digits:
  "\<not> is_digit CHR ''x''" "\<not> is_digit CHR ''X''" "\<not> is_digit CHR ''o''" "\<not> is_digit CHR ''O''"
  "\<not> is_digit CHR ''b''" "\<not> is_digit CHR ''B''" "\<not> is_digit CHR ''-''" "\<not> is_digit CHR ''+''"
  "\<not> is_digit CHR ''I''"
  by code_simp+

lemma js_Number_code:
  assumes "numeric_code c"
  shows "js_Number c = Finite (of_nat (undec c))"
proof -
  have d: "c \<noteq> []" "list_all is_digit c" and l: "length c \<le> 15" using assms by (auto simp: numeric_code_def)
  have hd: "is_digit (hd c)" using d by (cases c) auto
  have two: "take 2 c \<noteq> [CHR ''0'', a]" if "\<not> is_digit a" for a
    using d that by (cases c; cases "tl c") auto
  have inf: "c \<noteq> ''Infinity''" using hd not_digits by (cases c) auto
  have n: "undec c \<le> 2 ^ 53"
  proof -
    have "undec c < 10 ^ length c" using d by (intro undec_less) (simp add: list_all_iff)
    also have "(10::nat) ^ length c \<le> 10 ^ 15" using l by (rule power_increasing) simp
    finally show ?thesis by simp
  qed
  have w: "takeWhile is_digit c = c" and r: "dropWhile is_digit c = []"
    using d by (simp_all add: list_all_iff takeWhile_eq_all_conv dropWhile_eq_Nil_conv)
  have "js_unsigned c = to_number (of_nat (undec c))"
    unfolding js_unsigned_def w r using d inf by (simp add: js_exponent_def pow10_def)
  also have "\<dots> = Finite (of_nat (undec c))"
    using to_number_int [of "int (undec c)"] n by simp
  finally have "js_unsigned c = Finite (of_nat (undec c))" .
  moreover have "hd c \<noteq> CHR ''-''" "hd c \<noteq> CHR ''+''" using hd not_digits by metis+
  ultimately show ?thesis
    using d two not_digits by (simp add: js_Number_def trim_digits Let_def)
qed

lemma js_Number_code_minus:
  assumes "numeric_code c" "numeric_code e"
  shows "js_minus (js_Number c) (js_Number e) = Finite (of_int (int (undec c) - int (undec e)))"
proof -
  have n: "undec s < 10 ^ 15" if "numeric_code s" for s
  proof -
    have "undec s < 10 ^ length s" using that by (intro undec_less) (simp add: numeric_code_def list_all_iff)
    also have "(10::nat) ^ length s \<le> 10 ^ 15"
      using that by (intro power_increasing) (auto simp: numeric_code_def)
    finally show ?thesis .
  qed
  have "\<bar>int (undec c) - int (undec e)\<bar> \<le> 2 ^ 53"
    using n [OF assms(1)] n [OF assms(2)] by simp
  from to_number_int [OF this] show ?thesis by (simp add: js_Number_code assms)
qed

end
