(* ===== verification/Supplier_Competition.thy ===== *)
theory Supplier_Competition
  imports Trade_Trend Js_Sort
begin

text \<open>
  \<^verbatim>\<open>src/domain/supplier-competition\<close>: the finalized shares of the supplier economies of one importing
  market, its concentration and the provisional snapshot beside them, in exact bigint arithmetic. A finalized
  observation has the shape of a Trade Trend observation. A thrown \<^theory_text>\<open>TypeError\<close> is \<^theory_text>\<open>Thrown\<close> and the typed
  failure of an oversized cohort is an \<^theory_text>\<open>AnalysisError\<close>. The properties are about the printed figures: the
  shares are the exact pooled percentages, they are ordered and add up, the index lies between its bounds, and
  neither the order of the evidence nor the provisional rows change them.
\<close>

datatype supplier_error_code =
  INVALID_ANALYSIS_QUERY | UNKNOWN_IMPORTER | UNKNOWN_PRODUCT | ANALYSIS_BUILD_RETIRED
  | ANALYSIS_UNAVAILABLE | SUPPLIER_COHORT_BUDGET_EXCEEDED

record supplier_analysis_error =
  se_code :: supplier_error_code
  se_status :: nat
  se_message :: string
  se_publicMessage :: string

datatype supplier_error = Thrown js_error | AnalysisError supplier_analysis_error

definition supplierCohortBudgetExceeded :: "nat \<Rightarrow> supplier_analysis_error" where
  "supplierCohortBudgetExceeded cohortSize =
     \<lparr>se_code = SUPPLIER_COHORT_BUDGET_EXCEEDED, se_status = 413,
      se_message = ''Supplier Competition evidence declared '' @ dec cohortSize @
        '' supplier economies, exceeding its complete-cohort budget.'',
      se_publicMessage = ''The complete Supplier Competition result exceeds its serving budget.''\<rparr>"

definition SUPPLIER_COMPETITION_FINALIZED_YEAR_COUNT :: int where
  "SUPPLIER_COMPETITION_FINALIZED_YEAR_COUNT = 5"

definition SUPPLIER_COMPETITION_MAX_COHORT_SIZE :: nat where
  "SUPPLIER_COMPETITION_MAX_COHORT_SIZE = 250"

definition SHARE_PERCENTAGE_DIGITS :: nat where "SHARE_PERCENTAGE_DIGITS = 6"
definition HHI_DIGITS :: nat where "HHI_DIGITS = 6"
definition QUANTITY_COVERAGE_DIGITS :: nat where "QUANTITY_COVERAGE_DIGITS = 6"
definition HHI_SCALE :: int where "HHI_SCALE = 10000"

definition SUPPLIER_COMPETITION_DISCLAIMER :: string where
  "SUPPLIER_COMPETITION_DISCLAIMER =
     ''Supplier Competition evidence is economy-level public trade data. It does not identify companies, buyers, shipments, Party Roles, or Commercial Relationship Assertions.''"

record supplier_evidence =
  sp_economy :: economy_identity
  sp_annualObservations :: "trend_observation list"
  sp_sourceFlowCount :: int
  sp_quantityPresentCount :: int

datatype bilateral = RecordedPositive string | NoRecordedPositiveFlow

record provisional_evidence =
  pe_economy :: economy_identity
  pe_bilateral :: bilateral

datatype market_state = RECORDED | MARKET_NO_RECORDED_POSITIVE_FLOW | MARKET_MISSING_OBSERVATION

record supplier_inputs =
  si_analysisBuildId :: string
  si_releaseCatalogSha256 :: string
  si_artifact :: artifact_ref
  si_release :: release_ref
  si_importer :: economy_identity
  si_product :: product_identity
  si_suppliers :: "supplier_evidence list"
  si_provisionalMarketState :: market_state
  si_provisionalSuppliers :: "provisional_evidence list"

record supplier_share =
  ss_economy :: economy_identity
  ss_pooledValueCurrentUsd :: string
  ss_sharePercent :: string
  ss_recordedYears :: "int list"
  ss_noRecordedFlowYears :: "int list"
  ss_missingYears :: "int list"
  ss_quantityCoverageRate :: "string option"

datatype concentration = Computed string int | ConcentrationUnavailable

datatype supplier_warning =
  SPARSE_FINALIZED_PERIODS | INCOMPLETE_SUPPLIER_STRUCTURE | CONCENTRATION_UNAVAILABLE

datatype bilateral_state = ROW_RECORDED_POSITIVE | ROW_NO_RECORDED_POSITIVE_FLOW | NOT_APPLICABLE

record provisional_share =
  ps_economy :: economy_identity
  ps_bilateralState :: bilateral_state
  ps_valueCurrentUsd :: "string option"

record supplier_result =
  sr_schemaVersion :: string
  sr_analysisId :: string
  sr_analysisBuildId :: string
  sr_releaseCatalogSha256 :: string
  sr_query :: "economy_identity \<times> product_identity"
  sr_provenance :: provenance
  sr_cohortBudget :: nat
  sr_cohortSize :: nat
  sr_emptyReason :: "string option"
  sr_finalizedPooledValueCurrentUsd :: string
  sr_supplierShares :: "supplier_share list"
  sr_concentration :: concentration
  sr_qualityWarnings :: "supplier_warning list"
  sr_provisionalMarketState :: market_state
  sr_provisionalSupplierShares :: "provisional_share list"
  sr_discoveryDisclaimer :: string

subsection \<open>Guards\<close>

definition supplier_assertReleaseConsistency :: "supplier_inputs \<Rightarrow> js_error + unit" where
  "supplier_assertReleaseConsistency inp =
     (if art_baciRelease (si_artifact inp) \<noteq> rel_baciRelease (si_release inp)
      then Inl (TypeError ''Supplier Competition cannot mix BACI Releases.'')
      else if pr_hsRevision (si_product inp) \<noteq> ''HS12'' \<or> rel_hsRevision (si_release inp) \<noteq> ''HS12''
      then Inl (TypeError ''Supplier Competition v1 requires an HS12 product.'')
      else Inr ())"

definition assertUniqueEconomies :: "string list \<Rightarrow> string \<Rightarrow> js_error + unit" where
  "assertUniqueEconomies codes field =
     (if length (remdups codes) \<noteq> length codes
      then Inl (TypeError (field @ '' must be unique supplier economies.'')) else Inr ())"

subsection \<open>Fixed decimals of the recipe\<close>

text \<open>\<^theory_text>\<open>scaleUnitsTo\<close> is only ever called with a scale that is at least that of the value.\<close>

definition scaleUnitsTo :: "fixed_decimal \<Rightarrow> nat \<Rightarrow> int" where
  "scaleUnitsTo v k = units v * tenTo (k - scale v)"

definition addFixed :: "fixed_decimal \<Rightarrow> fixed_decimal \<Rightarrow> fixed_decimal" where
  "addFixed l r =
     (let k = max (scale l) (scale r)
      in normalizeFixedDecimal \<lparr>units = scaleUnitsTo l k + scaleUnitsTo r k, scale = k\<rparr>)"

definition divideExact :: "int \<Rightarrow> int \<Rightarrow> nat \<Rightarrow> js_error + fixed_decimal" where
  "divideExact numerator denominator digits =
     ebind (divideHalfUp (numerator * tenTo digits) denominator) (\<lambda>u. Inr \<lparr>units = u, scale = digits\<rparr>)"

definition parseFixedString :: "string \<Rightarrow> js_error + fixed_decimal" where
  "parseFixedString value =
     (let negative = value \<noteq> [] \<and> hd value = CHR ''-''
      in case match_decimal (if negative then tl value else value) of
           None \<Rightarrow> Inl (TypeError (value @ '' is not a decimal string.''))
         | Some (whole, fraction) \<Rightarrow>
             Inr (normalizeFixedDecimal
               \<lparr>units = (if negative then - 1 else 1) * int (undec (whole @ fraction)),
                scale = length fraction\<rparr>))"

definition compareDecimalStrings :: "string \<Rightarrow> string \<Rightarrow> js_error + int" where
  "compareDecimalStrings left right =
     ebind (parseFixedString left) (\<lambda>l.
     ebind (parseFixedString right) (\<lambda>r.
     let k = max (scale l) (scale r); lu = scaleUnitsTo l k; ru = scaleUnitsTo r k
     in Inr (if lu = ru then 0 else if lu < ru then - 1 else 1)))"

subsection \<open>Pooling one supplier\<close>

record pooled_supplier =
  po_economy :: economy_identity
  po_pooledValue :: fixed_decimal
  po_recordedYears :: "int list"
  po_noRecordedFlowYears :: "int list"
  po_missingYears :: "int list"
  po_quantityCoverageRate :: "fixed_decimal option"

definition put_year ::
  "string \<Rightarrow> int \<Rightarrow> int \<Rightarrow> trend_observation \<Rightarrow> (int \<rightharpoonup> trend_observation) \<Rightarrow>
   js_error + (int \<rightharpoonup> trend_observation)" where
  "put_year code windowStart windowEnd ob byYear =
     (if \<not> is_safe_integer (ob_year ob) \<or> ob_year ob < windowStart \<or> ob_year ob > windowEnd
         \<or> byYear (ob_year ob) \<noteq> None
      then Inl (TypeError (''Supplier Competition finalized observations for economy '' @ code @
        '' must be unique members of the five-year finalized window.''))
      else Inr (byYear(ob_year ob \<mapsto> ob)))"

definition year_range :: "int \<Rightarrow> int \<Rightarrow> int list" where
  "year_range windowStart windowEnd =
     map (\<lambda>index. windowStart + int index) [0..<nat (windowEnd - windowStart + 1)]"

definition pool_observation ::
  "string \<Rightarrow> trend_observation \<Rightarrow> int list \<times> int list \<times> int list \<times> fixed_decimal \<Rightarrow>
   js_error + int list \<times> int list \<times> int list \<times> fixed_decimal" where
  "pool_observation code ob acc =
     (case acc of (recorded, noFlow, missing, pooled) \<Rightarrow>
        if ob_state ob = RECORDED_POSITIVE
        then ebind (parsePositiveFixedDecimal (ob_value ob)
               (''Supplier Competition recorded value for economy '' @ code)) (\<lambda>v.
             Inr (recorded @ [ob_year ob], noFlow, missing, addFixed pooled v))
        else if ob_state ob = NO_RECORDED_POSITIVE_FLOW
        then Inr (recorded, noFlow @ [ob_year ob], missing, pooled)
        else Inr (recorded, noFlow, missing @ [ob_year ob], pooled))"

definition poolSupplier :: "supplier_evidence \<Rightarrow> int \<Rightarrow> int \<Rightarrow> js_error + pooled_supplier" where
  "poolSupplier supplier windowStart windowEnd =
     (let code = ec_code (sp_economy supplier) in
      ebind (efold (put_year code windowStart windowEnd) (sp_annualObservations supplier) Map.empty) (\<lambda>byYear.
      let observations = map byYear (year_range windowStart windowEnd) in
      if None \<in> set observations
      then Inl (TypeError (''Supplier Competition requires every member of the five-year finalized window for economy ''
                 @ code @ ''.''))
      else
        ebind (efold (pool_observation code) (map the observations) ([], [], [], \<lparr>units = 0, scale = 0\<rparr>))
          (\<lambda>(recorded, noFlow, missing, pooled).
        if \<not> is_safe_integer (sp_sourceFlowCount supplier) \<or> sp_sourceFlowCount supplier < 0
        then Inl (TypeError (''sourceFlowCount for economy '' @ code @ '' must be a nonnegative safe integer.''))
        else if \<not> is_safe_integer (sp_quantityPresentCount supplier) \<or> sp_quantityPresentCount supplier < 0
                \<or> sp_quantityPresentCount supplier > sp_sourceFlowCount supplier
        then Inl (TypeError (''quantityPresentCount for economy '' @ code @
               '' must be a nonnegative safe integer no greater than sourceFlowCount.''))
        else
          ebind (if sp_sourceFlowCount supplier = 0 then Inr None
                 else ebind (divideExact (sp_quantityPresentCount supplier) (sp_sourceFlowCount supplier)
                               QUANTITY_COVERAGE_DIGITS) (\<lambda>r. Inr (Some r))) (\<lambda>rate.
          Inr \<lparr>po_economy = sp_economy supplier, po_pooledValue = pooled, po_recordedYears = recorded,
               po_noRecordedFlowYears = noFlow, po_missingYears = missing,
               po_quantityCoverageRate = rate\<rparr>))))"

subsection \<open>Shares and concentration\<close>

definition format_rate :: "fixed_decimal option \<Rightarrow> js_error + string option" where
  "format_rate rate =
     (case rate of None \<Rightarrow> Inr None
      | Some r \<Rightarrow> ebind (formatFixedDecimalScale r QUANTITY_COVERAGE_DIGITS) (\<lambda>s. Inr (Some s)))"

definition shareFor :: "int \<Rightarrow> nat \<Rightarrow> pooled_supplier \<Rightarrow> js_error + supplier_share" where
  "shareFor totalUnits totalScale entry =
     ebind (divideExact (scaleUnitsTo (po_pooledValue entry) totalScale * 100) totalUnits
              SHARE_PERCENTAGE_DIGITS) (\<lambda>sharePercent.
     ebind (formatFixedDecimal (po_pooledValue entry)) (\<lambda>pooledText.
     ebind (formatFixedDecimalScale sharePercent SHARE_PERCENTAGE_DIGITS) (\<lambda>shareText.
     ebind (format_rate (po_quantityCoverageRate entry)) (\<lambda>rateText.
     Inr \<lparr>ss_economy = po_economy entry, ss_pooledValueCurrentUsd = pooledText,
          ss_sharePercent = shareText, ss_recordedYears = po_recordedYears entry,
          ss_noRecordedFlowYears = po_noRecordedFlowYears entry,
          ss_missingYears = po_missingYears entry, ss_quantityCoverageRate = rateText\<rparr>))))"

definition code_difference :: "economy_identity \<Rightarrow> economy_identity \<Rightarrow> js_number" where
  "code_difference left right = js_minus (js_Number (ec_code left)) (js_Number (ec_code right))"

definition compareShares :: "supplier_share \<Rightarrow> supplier_share \<Rightarrow> js_error + js_number" where
  "compareShares left right =
     ebind (compareDecimalStrings (ss_sharePercent right) (ss_sharePercent left)) (\<lambda>shareComparison.
     if shareComparison \<noteq> 0 then Inr (Finite (of_int shareComparison))
     else
       ebind (compareDecimalStrings (ss_pooledValueCurrentUsd right) (ss_pooledValueCurrentUsd left))
         (\<lambda>valueComparison.
       if valueComparison \<noteq> 0 then Inr (Finite (of_int valueComparison))
       else Inr (code_difference (ss_economy left) (ss_economy right))))"

definition concentrationFor :: "pooled_supplier list \<Rightarrow> int \<Rightarrow> nat \<Rightarrow> js_error + concentration" where
  "concentrationFor eligible totalUnits totalScale =
     (if totalUnits = 0 then Inr ConcentrationUnavailable
      else
        let squareSum = foldl (\<lambda>sum entry. sum + scaleUnitsTo (po_pooledValue entry) totalScale
                                                  * scaleUnitsTo (po_pooledValue entry) totalScale) 0 eligible
        in ebind (divideHalfUp (squareSum * HHI_SCALE * tenTo HHI_DIGITS) (totalUnits * totalUnits)) (\<lambda>hhi.
           ebind (formatFixedDecimalScale \<lparr>units = hhi, scale = HHI_DIGITS\<rparr> HHI_DIGITS) (\<lambda>text.
           Inr (Computed text HHI_SCALE))))"

definition qualityWarningsFor ::
  "pooled_supplier list \<Rightarrow> concentration \<Rightarrow> int \<Rightarrow> int \<Rightarrow> supplier_warning list" where
  "qualityWarningsFor eligible conc windowStart windowEnd =
     (let yearsWithAnyRecordedSupplier = remdups (concat (map po_recordedYears eligible));
          incompleteSupplierStructure = list_ex (\<lambda>entry. po_missingYears entry \<noteq> []) eligible;
          windowYearCount = windowEnd - windowStart + 1
      in (if int (length yearsWithAnyRecordedSupplier) < windowYearCount then [SPARSE_FINALIZED_PERIODS] else [])
         @ (if incompleteSupplierStructure then [INCOMPLETE_SUPPLIER_STRUCTURE] else [])
         @ (if conc = ConcentrationUnavailable then [CONCENTRATION_UNAVAILABLE] else []))"

subsection \<open>The provisional snapshot\<close>

definition provisionalRowFor ::
  "economy_identity \<Rightarrow> market_state \<Rightarrow> provisional_evidence option \<Rightarrow> js_error + provisional_share" where
  "provisionalRowFor economy marketState evidence =
     (if marketState \<noteq> RECORDED
      then Inr \<lparr>ps_economy = economy, ps_bilateralState = NOT_APPLICABLE, ps_valueCurrentUsd = None\<rparr>
      else case evidence of
             None \<Rightarrow> Inr \<lparr>ps_economy = economy, ps_bilateralState = ROW_NO_RECORDED_POSITIVE_FLOW,
                          ps_valueCurrentUsd = None\<rparr>
           | Some e \<Rightarrow>
               (case pe_bilateral e of
                  NoRecordedPositiveFlow \<Rightarrow>
                    Inr \<lparr>ps_economy = economy, ps_bilateralState = ROW_NO_RECORDED_POSITIVE_FLOW,
                         ps_valueCurrentUsd = None\<rparr>
                | RecordedPositive value \<Rightarrow>
                    ebind (parsePositiveFixedDecimal value
                      (''Supplier Competition provisional value for economy '' @ ec_code economy)) (\<lambda>v.
                    ebind (formatFixedDecimal v) (\<lambda>text.
                    Inr \<lparr>ps_economy = economy, ps_bilateralState = ROW_RECORDED_POSITIVE,
                         ps_valueCurrentUsd = Some text\<rparr>))))"

definition provisionalStateRank :: "bilateral_state \<Rightarrow> int" where
  "provisionalStateRank st =
     (if st = ROW_RECORDED_POSITIVE then 0 else if st = ROW_NO_RECORDED_POSITIVE_FLOW then 1 else 2)"

definition compareProvisionalShares :: "provisional_share \<Rightarrow> provisional_share \<Rightarrow> js_error + js_number" where
  "compareProvisionalShares left right =
     (let rankComparison = provisionalStateRank (ps_bilateralState left)
                             - provisionalStateRank (ps_bilateralState right);
          by_code = Inr (code_difference (ps_economy left) (ps_economy right))
      in if rankComparison \<noteq> 0 then Inr (Finite (of_int rankComparison))
         else case (ps_valueCurrentUsd left, ps_valueCurrentUsd right) of
                (Some l, Some r) \<Rightarrow>
                  ebind (compareDecimalStrings r l) (\<lambda>valueComparison.
                  if valueComparison \<noteq> 0 then Inr (Finite (of_int valueComparison)) else by_code)
              | _ \<Rightarrow> by_code)"

definition provisionalSharesFor ::
  "supplier_inputs \<Rightarrow> pooled_supplier list \<Rightarrow> js_error + provisional_share list" where
  "provisionalSharesFor inp eligible =
     (let provisionalByCode =
            map_of (rev (map (\<lambda>e. (ec_code (pe_economy e), e)) (si_provisionalSuppliers inp)));
          finalizedCodes = map (\<lambda>entry. ec_code (po_economy entry)) eligible
      in ebind (emap (\<lambda>entry. provisionalRowFor (po_economy entry) (si_provisionalMarketState inp)
                        (provisionalByCode (ec_code (po_economy entry)))) eligible) (\<lambda>finalizedRows.
         ebind (if si_provisionalMarketState inp \<noteq> RECORDED then Inr []
                else emap (\<lambda>e. provisionalRowFor (pe_economy e) RECORDED (Some e))
                       (filter (\<lambda>e. ec_code (pe_economy e) \<notin> set finalizedCodes)
                          (si_provisionalSuppliers inp))) (\<lambda>newEntrantRows.
         sort_by compareProvisionalShares (finalizedRows @ newEntrantRows))))"

subsection \<open>The recipe\<close>

definition thrown :: "js_error + 'a \<Rightarrow> supplier_error + 'a" where
  "thrown m = (case m of Inl e \<Rightarrow> Inl (Thrown e) | Inr x \<Rightarrow> Inr x)"

definition finalized_window :: "supplier_inputs \<Rightarrow> int \<times> int" where
  "finalized_window inp =
     (let cutoff = rel_finalizedCutoffYear (si_release inp)
      in (cutoff - (SUPPLIER_COMPETITION_FINALIZED_YEAR_COUNT - 1), cutoff))"

definition eligible_of :: "pooled_supplier list \<Rightarrow> pooled_supplier list" where
  "eligible_of pooled = filter (\<lambda>entry. units (po_pooledValue entry) > 0) pooled"

definition total_scale :: "pooled_supplier list \<Rightarrow> nat" where
  "total_scale eligible = fold max (map (\<lambda>entry. scale (po_pooledValue entry)) eligible) 0"

definition total_units :: "pooled_supplier list \<Rightarrow> int" where
  "total_units eligible =
     foldl (\<lambda>sum entry. sum + scaleUnitsTo (po_pooledValue entry) (total_scale eligible)) 0 eligible"

definition check_inputs :: "supplier_inputs \<Rightarrow> supplier_error + unit" where
  "check_inputs inp =
     ebind (thrown (supplier_assertReleaseConsistency inp)) (\<lambda>_.
     if length (si_suppliers inp) > SUPPLIER_COMPETITION_MAX_COHORT_SIZE
     then Inl (AnalysisError (supplierCohortBudgetExceeded (length (si_suppliers inp))))
     else
       ebind (thrown (assertUniqueEconomies (map (\<lambda>s. ec_code (sp_economy s)) (si_suppliers inp))
                        ''Supplier Competition finalized suppliers'')) (\<lambda>_.
       ebind (thrown (assertUniqueEconomies (map (\<lambda>s. ec_code (pe_economy s)) (si_provisionalSuppliers inp))
                        ''Supplier Competition provisional suppliers'')) (\<lambda>_.
       if si_provisionalMarketState inp \<noteq> RECORDED \<and> si_provisionalSuppliers inp \<noteq> []
       then Inl (Thrown (TypeError ''Supplier Competition provisional suppliers require a RECORDED provisional market state.''))
       else Inr ())))"

definition sharesFor :: "pooled_supplier list \<Rightarrow> js_error + supplier_share list" where
  "sharesFor eligible =
     (if total_units eligible = 0 then Inr []
      else ebind (emap (shareFor (total_units eligible) (total_scale eligible)) eligible) (\<lambda>rows.
           sort_by compareShares rows))"

definition computeSupplierCompetitionV1 :: "supplier_inputs \<Rightarrow> supplier_error + supplier_result" where
  "computeSupplierCompetitionV1 inp =
     ebind (check_inputs inp) (\<lambda>_.
     let (windowStart, windowEnd) = finalized_window inp in
     ebind (thrown (emap (\<lambda>supplier. poolSupplier supplier windowStart windowEnd) (si_suppliers inp))) (\<lambda>pooled.
     let eligible = eligible_of pooled in
     ebind (thrown (sharesFor eligible)) (\<lambda>supplierShares.
     ebind (thrown (concentrationFor eligible (total_units eligible) (total_scale eligible))) (\<lambda>conc.
     ebind (thrown (provisionalSharesFor inp eligible)) (\<lambda>provisionalRows.
     ebind (thrown (formatFixedDecimal \<lparr>units = total_units eligible, scale = total_scale eligible\<rparr>)) (\<lambda>totalText.
     Inr
       \<lparr>sr_schemaVersion = ''supplier-competition-result-v1'',
        sr_analysisId = ''supplier-competition:'' @ si_analysisBuildId inp @ '':'' @ ec_code (si_importer inp)
                          @ '':'' @ pr_code (si_product inp),
        sr_analysisBuildId = si_analysisBuildId inp,
        sr_releaseCatalogSha256 = si_releaseCatalogSha256 inp,
        sr_query = (si_importer inp, si_product inp),
        sr_provenance = provenance_of (si_release inp) (si_artifact inp) (windowStart, windowEnd),
        sr_cohortBudget = SUPPLIER_COMPETITION_MAX_COHORT_SIZE,
        sr_cohortSize = length supplierShares,
        sr_emptyReason = (if length supplierShares = 0
                          then Some ''NO_ELIGIBLE_SUPPLIERS_IN_FINALIZED_WINDOW'' else None),
        sr_finalizedPooledValueCurrentUsd = totalText,
        sr_supplierShares = supplierShares,
        sr_concentration = conc,
        sr_qualityWarnings = qualityWarningsFor eligible conc windowStart windowEnd,
        sr_provisionalMarketState = si_provisionalMarketState inp,
        sr_provisionalSupplierShares = provisionalRows,
        sr_discoveryDisclaimer = SUPPLIER_COMPETITION_DISCLAIMER\<rparr>))))))"

subsection \<open>Decimal texts\<close>

lemma scaleUnitsTo_value:
  "scale v \<le> k \<Longrightarrow> (of_int (scaleUnitsTo v k) :: rat) = fixed_value v * 10 ^ k"
  using scale_up_value [of v k] by (simp add: scaleUnitsTo_def field_simps)

lemma addFixed_value [simp]: "fixed_value (addFixed l r) = fixed_value l + fixed_value r"
proof -
  let ?k = "max (scale l) (scale r)"
  have "fixed_value (addFixed l r) = of_int (scaleUnitsTo l ?k) / 10 ^ ?k + of_int (scaleUnitsTo r ?k) / 10 ^ ?k"
    by (simp add: addFixed_def Let_def add_divide_distrib) (simp add: fixed_value_def add_divide_distrib)
  then show ?thesis by (simp add: scaleUnitsTo_value)
qed

lemma parseFixedString_of_match:
  assumes "match_decimal s = Some (w, f)"
  shows "parseFixedString s = Inr (normalizeFixedDecimal \<lparr>units = int (undec (w @ f)), scale = length f\<rparr>)"
proof -
  have "hd s \<noteq> CHR ''-''" if "s \<noteq> []"
  proof
    assume "hd s = CHR ''-''"
    with that have "takeWhile is_digit s = []" using not_digits by (cases s) auto
    with assms show False by (simp add: match_decimal_def whole_part_ok_def)
  qed
  with assms show ?thesis by (cases s) (auto simp: parseFixedString_def)
qed

text \<open>The number a text stands for, and what the printed figures are.\<close>

definition text_value :: "string \<Rightarrow> rat" where
  "text_value s = (case parseFixedString s of Inl e \<Rightarrow> 0 | Inr v \<Rightarrow> fixed_value v)"

lemma parse_positive_text_value:
  assumes "parsePositiveFixedDecimal s field = Inr v"
  shows "text_value s = fixed_value v"
  using assms
  by (auto simp: parsePositiveFixedDecimal_def text_value_def parseFixedString_of_match Let_def
      split: option.splits if_splits)

lemma format_scale_text:
  assumes "0 \<le> units v" "scale v \<le> k"
  obtains s where "formatFixedDecimalScale v k = Inr s" "parseFixedString s = Inr (normalizeFixedDecimal v)"
    "text_value s = fixed_value v"
proof -
  obtain s w f where s: "formatFixedDecimalScale v k = Inr s" "match_decimal s = Some (w, f)"
    "length f = k" "int (undec (w @ f)) = units v * 10 ^ (k - scale v)"
    using format_scale_match [OF assms] .
  let ?n = "\<lparr>units = int (undec (w @ f)), scale = length f\<rparr>"
  have "fixed_value ?n = of_int (scaleUnitsTo v k) / 10 ^ k"
    unfolding fixed_value_def scaleUnitsTo_def tenTo_def s(3) by (simp only: s(4) fixed_decimal.select_convs s(3))
  then have "fixed_value ?n = fixed_value v" using assms(2) by (simp add: scaleUnitsTo_value)
  then have "normalizeFixedDecimal ?n = normalizeFixedDecimal v"
    by (intro normal_unique) (simp_all add: normalize_is_normal)
  with parseFixedString_of_match [OF s(2)]
  have p: "parseFixedString s = Inr (normalizeFixedDecimal v)" by metis
  then have "text_value s = fixed_value v" by (simp add: text_value_def)
  with s(1) p show ?thesis by (rule that)
qed

lemma normalize_nonneg: "0 \<le> units v \<Longrightarrow> 0 \<le> units (normalizeFixedDecimal v)"
  using normalize_pos [of v] by (cases "units v = 0") (simp_all add: normalizeFixedDecimal_def)

lemma format_text:
  assumes "0 \<le> units v"
  obtains s where "formatFixedDecimal v = Inr s" "parseFixedString s = Inr (normalizeFixedDecimal v)"
    "text_value s = fixed_value v"
proof -
  have "0 \<le> units (normalizeFixedDecimal v)"
    using assms by (rule normalize_nonneg)
  then obtain s where "formatFixedDecimal v = Inr s" "parseFixedString s = Inr (normalizeFixedDecimal v)"
    "text_value s = fixed_value v"
    using format_scale_text [OF _ order_refl, of "normalizeFixedDecimal v"]
    by (auto simp: formatFixedDecimal_def Let_def normalize_is_normal normalize_idem)
  then show ?thesis by (rule that)
qed

lemma compareDecimalStrings_value:
  assumes "parseFixedString s = Inr v" "parseFixedString t = Inr w"
  shows "compareDecimalStrings s t = Inr (if fixed_value v = fixed_value w then 0
           else if fixed_value v < fixed_value w then - 1 else 1)"
proof -
  let ?k = "max (scale v) (scale w)"
  have "(scaleUnitsTo v ?k = scaleUnitsTo w ?k) = (fixed_value v = fixed_value w)"
  proof -
    have "(scaleUnitsTo v ?k = scaleUnitsTo w ?k) = ((of_int (scaleUnitsTo v ?k) :: rat) = of_int (scaleUnitsTo w ?k))"
      by (simp only: of_int_eq_iff)
    then show ?thesis by (simp add: scaleUnitsTo_value)
  qed
  moreover have "(scaleUnitsTo v ?k < scaleUnitsTo w ?k) = (fixed_value v < fixed_value w)"
  proof -
    have "(scaleUnitsTo v ?k < scaleUnitsTo w ?k) = ((of_int (scaleUnitsTo v ?k) :: rat) < of_int (scaleUnitsTo w ?k))"
      by (simp only: of_int_less_iff)
    then show ?thesis by (simp add: scaleUnitsTo_value mult_less_cancel_right_pos)
  qed
  ultimately show ?thesis using assms by (simp add: compareDecimalStrings_def Let_def)
qed

subsection \<open>What pooling accepts and returns\<close>

definition is_positive_decimal :: "string \<Rightarrow> bool" where
  "is_positive_decimal s =
     (case match_decimal s of None \<Rightarrow> False | Some (w, f) \<Rightarrow> undec (w @ f) \<noteq> 0)"

lemma parse_positive_iff:
  "(\<exists>v. parsePositiveFixedDecimal s field = Inr v) \<longleftrightarrow> is_positive_decimal s"
  by (auto simp: parsePositiveFixedDecimal_def is_positive_decimal_def Let_def split: option.splits)

definition recorded :: "trend_observation \<Rightarrow> bool" where
  "recorded ob \<longleftrightarrow> ob_state ob = RECORDED_POSITIVE"

definition observed_value :: "trend_observation \<Rightarrow> rat" where
  "observed_value ob = (if recorded ob then text_value (ob_value ob) else 0)"

definition supplier_value :: "supplier_evidence \<Rightarrow> rat" where
  "supplier_value s = (\<Sum>ob\<leftarrow>sp_annualObservations s. observed_value ob)"

definition valid_supplier :: "int \<Rightarrow> int \<Rightarrow> supplier_evidence \<Rightarrow> bool" where
  "valid_supplier a b s \<longleftrightarrow>
     distinct (map ob_year (sp_annualObservations s)) \<and>
     set (map ob_year (sp_annualObservations s)) = {a..b} \<and>
     list_all (\<lambda>ob. is_safe_integer (ob_year ob)) (sp_annualObservations s) \<and>
     list_all (\<lambda>ob. recorded ob \<longrightarrow> is_positive_decimal (ob_value ob)) (sp_annualObservations s) \<and>
     is_safe_integer (sp_sourceFlowCount s) \<and> 0 \<le> sp_quantityPresentCount s \<and>
     sp_quantityPresentCount s \<le> sp_sourceFlowCount s"

lemma put_year_Inr_iff:
  "put_year code a b ob m = Inr m' \<longleftrightarrow>
     placeable a b ob \<and> ob_year ob \<notin> dom m \<and> m' = m(ob_year ob \<mapsto> ob)"
  by (auto simp: put_year_def placeable_def dom_def)

lemma put_years_Inr_iff:
  "efold (put_year code a b) obs m = Inr m' \<longleftrightarrow>
     list_all (placeable a b) obs \<and> distinct (map ob_year obs) \<and>
     set (map ob_year obs) \<inter> dom m = {} \<and> m' = m ++ map_of (map (\<lambda>ob. (ob_year ob, ob)) obs)"
proof (induction obs arbitrary: m)
  case (Cons ob obs)
  have "m(k \<mapsto> c) ++ map_of (map (\<lambda>ob. (ob_year ob, ob)) obs) =
      m ++ (map_of (map (\<lambda>ob. (ob_year ob, ob)) obs))(k \<mapsto> c)"
    if "k \<notin> ob_year ` set obs" for k c
  proof -
    have "k \<notin> dom (map_of (map (\<lambda>ob. (ob_year ob, ob)) obs))"
      using that by (auto simp: dom_map_of_conv_image_fst)
    then show ?thesis by (auto simp: map_add_def fun_eq_iff split: option.splits)
  qed
  then show ?case
    by (auto simp: ebind_Inr_iff put_year_Inr_iff Cons.IH simp del: map_add_upd) (simp_all add: fun_upd_def)
qed auto

lemma set_year_range: "set (year_range a b) = {a..b}"
proof -
  have "y \<in> set (year_range a b)" if "a \<le> y" "y \<le> b" for y
    using that by (auto simp: year_range_def image_iff intro!: bexI [of _ "nat (y - a)"])
  then show ?thesis by (auto simp: year_range_def)
qed

lemma sorted_year_range: "sorted_wrt (<) (year_range a b)"
  by (simp add: year_range_def sorted_wrt_map)

lemma distinct_year_range: "distinct (year_range a b)"
  using sorted_year_range strict_sorted_iff by blast

lemma window_observations:
  assumes "distinct (map ob_year obs)"
  defines "byYear \<equiv> map_of (map (\<lambda>ob. (ob_year ob, ob)) obs)"
  shows "None \<notin> set (map byYear (year_range a b)) \<longleftrightarrow> {a..b} \<subseteq> set (map ob_year obs)"
    and "set (map ob_year obs) = {a..b} \<Longrightarrow> mset (map the (map byYear (year_range a b))) = mset obs"
    and "set (map ob_year obs) = {a..b} \<Longrightarrow> map ob_year (map the (map byYear (year_range a b))) = year_range a b"
proof -
  have lookup: "byYear y = Some ob \<longleftrightarrow> ob \<in> set obs \<and> ob_year ob = y" for y ob
    unfolding byYear_def using assms(1) by (subst map_of_eq_Some_iff) (auto simp: comp_def)
  have dom: "byYear y \<noteq> None \<longleftrightarrow> y \<in> set (map ob_year obs)" for y
    using lookup by auto
  show "None \<notin> set (map byYear (year_range a b)) \<longleftrightarrow> {a..b} \<subseteq> set (map ob_year obs)"
  proof -
    have "None \<notin> set (map byYear (year_range a b)) \<longleftrightarrow> (\<forall>y \<in> {a..b}. byYear y \<noteq> None)"
      unfolding set_map set_year_range image_iff eq_commute [of None] by (simp del: not_None_eq)
    then show ?thesis using dom by blast
  qed
  assume all: "set (map ob_year obs) = {a..b}"
  have the: "the (byYear y) \<in> set obs \<and> ob_year (the (byYear y)) = y" if y: "y \<in> {a..b}" for y
  proof -
    obtain ob where "byYear y = Some ob" using y dom [of y] unfolding all by blast
    with lookup [of y ob] show ?thesis by (metis option.sel)
  qed
  then show years: "map ob_year (map the (map byYear (year_range a b))) = year_range a b"
    by (auto simp: set_year_range intro!: map_idI)
  have "set (map the (map byYear (year_range a b))) = set obs"
  proof
    show "set (map the (map byYear (year_range a b))) \<subseteq> set obs"
      using the by (auto simp: set_year_range)
    have "byYear (ob_year ob) = Some ob \<and> ob_year ob \<in> {a..b}" if "ob \<in> set obs" for ob
    proof -
      have "ob_year ob \<in> set (map ob_year obs)" using that by simp
      with that lookup show ?thesis unfolding all by simp
    qed
    then show "set obs \<subseteq> set (map the (map byYear (year_range a b)))"
      by (force simp: set_year_range image_iff)
  qed
  moreover have "distinct (map the (map byYear (year_range a b)))"
    by (rule distinct_map [where f = ob_year, THEN iffD1, THEN conjunct1])
       (simp only: years distinct_year_range)
  moreover have "distinct obs" using assms(1) unfolding distinct_map by blast
  ultimately show "mset (map the (map byYear (year_range a b))) = mset obs"
    using set_eq_iff_mset_eq_distinct by blast
qed

lemma pool_observation_Inr_iff:
  "(\<exists>acc'. pool_observation code ob acc = Inr acc') \<longleftrightarrow> (recorded ob \<longrightarrow> is_positive_decimal (ob_value ob))"
proof -
  define field where "field = ''Supplier Competition recorded value for economy '' @ code"
  show ?thesis
    unfolding pool_observation_def field_def [symmetric]
    using parse_positive_iff [of "ob_value ob" field] by (auto simp: recorded_def ebind_Inr_iff split: prod.split)
qed

lemma pool_observations_Inr_iff:
  "(\<exists>acc'. efold (pool_observation code) obs acc = Inr acc') \<longleftrightarrow>
     list_all (\<lambda>ob. recorded ob \<longrightarrow> is_positive_decimal (ob_value ob)) obs"
  by (rule efold_succeeds_iff) (rule pool_observation_Inr_iff)

lemma addFixed_facts:
  assumes "0 \<le> units l" "0 \<le> units r"
  shows "0 \<le> units (addFixed l r)" "is_normal (addFixed l r)"
proof -
  show "0 \<le> units (addFixed l r)"
    using assms by (simp add: addFixed_def Let_def normalize_nonneg scaleUnitsTo_def tenTo_def)
  show "is_normal (addFixed l r)" by (simp add: addFixed_def Let_def normalize_is_normal)
qed

definition years_of :: "(trend_observation \<Rightarrow> bool) \<Rightarrow> trend_observation list \<Rightarrow> int list" where
  "years_of P obs = map ob_year (filter P obs)"

lemma pool_observation_result:
  assumes "pool_observation code ob (rs, ns, ms, p) = Inr (rs', ns', ms', p')" "0 \<le> units p" "is_normal p"
  shows "rs' = rs @ years_of recorded [ob]" "ms' = ms @ years_of (\<lambda>ob. ob_state ob = MISSING_OBSERVATION) [ob]"
    and "fixed_value p' = fixed_value p + observed_value ob" "0 \<le> units p'" "is_normal p'"
proof -
  have "rs' = rs @ years_of recorded [ob] \<and> ms' = ms @ years_of (\<lambda>ob. ob_state ob = MISSING_OBSERVATION) [ob]
    \<and> fixed_value p' = fixed_value p + observed_value ob \<and> 0 \<le> units p' \<and> is_normal p'"
  proof (cases "ob_state ob = RECORDED_POSITIVE")
    case True
    define field where "field = ''Supplier Competition recorded value for economy '' @ code"
    obtain v where v: "parsePositiveFixedDecimal (ob_value ob) field = Inr v"
      and r: "rs' = rs @ [ob_year ob]" "ms' = ms" "p' = addFixed p v"
      using assms(1) True unfolding pool_observation_def field_def [symmetric] by (auto simp: ebind_Inr_iff)
    have "0 < units v" using v by (rule parse_ok_facts)
    with v r True assms(2) show ?thesis
      by (simp add: years_of_def recorded_def observed_value_def addFixed_facts parse_positive_text_value)
  next
    case False
    with assms show ?thesis
      unfolding pool_observation_def
      by (cases "ob_state ob") (auto simp: years_of_def recorded_def observed_value_def)
  qed
  then show "rs' = rs @ years_of recorded [ob]" "ms' = ms @ years_of (\<lambda>ob. ob_state ob = MISSING_OBSERVATION) [ob]"
    "fixed_value p' = fixed_value p + observed_value ob" "0 \<le> units p'" "is_normal p'" by auto
qed

lemma pool_observations_result:
  assumes "efold (pool_observation code) obs (rs, ns, ms, p) = Inr (rs', ns', ms', p')"
    and "0 \<le> units p" "is_normal p"
  shows "rs' = rs @ years_of recorded obs
    \<and> ms' = ms @ years_of (\<lambda>ob. ob_state ob = MISSING_OBSERVATION) obs
    \<and> fixed_value p' = fixed_value p + (\<Sum>ob\<leftarrow>obs. observed_value ob) \<and> 0 \<le> units p' \<and> is_normal p'"
  using assms
proof (induction obs arbitrary: rs ns ms p)
  case (Cons ob obs)
  from Cons.prems(1) obtain rs2 ns2 ms2 p2 where s: "pool_observation code ob (rs, ns, ms, p) = Inr (rs2, ns2, ms2, p2)"
    and rest: "efold (pool_observation code) obs (rs2, ns2, ms2, p2) = Inr (rs', ns', ms', p')"
    by (auto simp: ebind_Inr_iff)
  note r = pool_observation_result [OF s Cons.prems(2,3)]
  from Cons.IH [OF rest r(4,5)] r show ?case by (simp add: years_of_def)
qed (simp add: years_of_def)

lemma divideExact_value:
  assumes "0 \<le> n" "0 < d"
  shows "divideExact n d k = Inr \<lparr>units = \<lfloor>of_int n / of_int d * (10::rat) ^ k + 1 / 2\<rfloor>, scale = k\<rparr>"
proof -
  have "of_int (n * tenTo k) / of_int d = of_int n / of_int d * (10::rat) ^ k" by (simp add: tenTo_def)
  moreover have "0 \<le> n * tenTo k" using assms by (simp add: tenTo_def)
  ultimately show ?thesis
    using divideHalfUp_rat [OF assms(2), of "n * tenTo k"] by (simp only: divideExact_def if_True ebind.simps)
qed

definition valid_rate :: "fixed_decimal option \<Rightarrow> bool" where
  "valid_rate rate = (case rate of None \<Rightarrow> True | Some r \<Rightarrow> 0 \<le> units r \<and> scale r = QUANTITY_COVERAGE_DIGITS)"

lemma poolSupplier_total:
  "(\<exists>p. poolSupplier s a b = Inr p) \<longleftrightarrow> valid_supplier a b s"
proof -
  let ?obs = "sp_annualObservations s" and ?code = "ec_code (sp_economy s)"
  define byYear where "byYear = map_of (map (\<lambda>ob. (ob_year ob, ob)) ?obs)"
  define full where "full = map the (map byYear (year_range a b))"
  have rate: "\<exists>r. (if sp_sourceFlowCount s = 0 then Inr None
      else ebind (divideExact (sp_quantityPresentCount s) (sp_sourceFlowCount s) QUANTITY_COVERAGE_DIGITS)
             (\<lambda>r. Inr (Some r))) = Inr r"
    if "0 \<le> sp_quantityPresentCount s" "sp_quantityPresentCount s \<le> sp_sourceFlowCount s"
    using that by (simp add: divideExact_value)
  have "(\<exists>p. poolSupplier s a b = Inr p) \<longleftrightarrow>
      list_all (placeable a b) ?obs \<and> distinct (map ob_year ?obs) \<and>
      None \<notin> set (map byYear (year_range a b)) \<and>
      (\<exists>acc. efold (pool_observation ?code) full ([], [], [], \<lparr>units = 0, scale = 0\<rparr>) = Inr acc) \<and>
      is_safe_integer (sp_sourceFlowCount s) \<and> 0 \<le> sp_sourceFlowCount s \<and>
      is_safe_integer (sp_quantityPresentCount s) \<and> 0 \<le> sp_quantityPresentCount s \<and>
      sp_quantityPresentCount s \<le> sp_sourceFlowCount s"
    using rate
    by (auto simp: poolSupplier_def Let_def ebind_Inr_iff put_years_Inr_iff byYear_def full_def not_less not_le
        split: prod.splits)
  also have "\<dots> \<longleftrightarrow> valid_supplier a b s"
  proof (cases "distinct (map ob_year ?obs)")
    case d: True
    note w = window_observations [OF d, of a b, folded byYear_def full_def]
    have pl: "list_all (placeable a b) ?obs \<longleftrightarrow>
        list_all (\<lambda>ob. is_safe_integer (ob_year ob)) ?obs \<and> set (map ob_year ?obs) \<subseteq> {a..b}"
      by (auto simp: placeable_def list_all_iff)
    have set: "set full = set ?obs" if "set (map ob_year ?obs) = {a..b}"
      using w(2) [OF that] by (rule mset_eq_setD)
    have safe: "is_safe_integer (sp_quantityPresentCount s) \<and> 0 \<le> sp_sourceFlowCount s"
      if "is_safe_integer (sp_sourceFlowCount s)" "0 \<le> sp_quantityPresentCount s"
        "sp_quantityPresentCount s \<le> sp_sourceFlowCount s"
      using that by (auto simp: is_safe_integer_def)
    show ?thesis
      using d set safe unfolding pl w(1) valid_supplier_def pool_observations_Inr_iff
      by (auto simp: list_all_iff)
  qed (simp add: valid_supplier_def)
  finally show ?thesis .
qed

lemma poolSupplier_result:
  assumes "poolSupplier s a b = Inr p"
  shows "po_economy p = sp_economy s" "fixed_value (po_pooledValue p) = supplier_value s"
    "0 \<le> units (po_pooledValue p)" "is_normal (po_pooledValue p)" "valid_rate (po_quantityCoverageRate p)"
    "0 < units (po_pooledValue p) \<longleftrightarrow> 0 < supplier_value s"
proof -
  let ?obs = "sp_annualObservations s" and ?code = "ec_code (sp_economy s)"
  define byYear where "byYear = map_of (map (\<lambda>ob. (ob_year ob, ob)) ?obs)"
  define full where "full = map the (map byYear (year_range a b))"
  have v: "valid_supplier a b s" using assms poolSupplier_total by blast
  then have "mset full = mset ?obs"
    unfolding full_def byYear_def by (intro window_observations(2)) (simp_all add: valid_supplier_def)
  then have sum: "(\<Sum>ob\<leftarrow>full. observed_value ob) = supplier_value s"
    unfolding supplier_value_def by (metis mset_map sum_mset_sum_list)
  obtain rs ns ms pv rate where
    fold: "efold (pool_observation ?code) full ([], [], [], \<lparr>units = 0, scale = 0\<rparr>) = Inr (rs, ns, ms, pv)"
    and rate: "(if sp_sourceFlowCount s = 0 then Inr None
      else ebind (divideExact (sp_quantityPresentCount s) (sp_sourceFlowCount s) QUANTITY_COVERAGE_DIGITS)
             (\<lambda>r. Inr (Some r))) = Inr rate"
    and p: "p = \<lparr>po_economy = sp_economy s, po_pooledValue = pv, po_recordedYears = rs,
               po_noRecordedFlowYears = ns, po_missingYears = ms, po_quantityCoverageRate = rate\<rparr>"
    using assms
    by (auto simp: poolSupplier_def Let_def ebind_Inr_iff put_years_Inr_iff byYear_def full_def
        split: prod.splits if_splits)
  have r: "fixed_value pv = supplier_value s" "0 \<le> units pv" "is_normal pv"
    using pool_observations_result [OF fold] sum by (simp_all add: is_normal_def fixed_value_def)
  show "po_economy p = sp_economy s" "fixed_value (po_pooledValue p) = supplier_value s"
    "0 \<le> units (po_pooledValue p)" "is_normal (po_pooledValue p)" using p r by simp_all
  show "0 < units (po_pooledValue p) \<longleftrightarrow> 0 < supplier_value s"
    using p by (simp add: r(1) [symmetric]) (simp add: fixed_value_def zero_less_divide_iff)
  show "valid_rate (po_quantityCoverageRate p)"
  proof (cases "sp_sourceFlowCount s = 0")
    case False
    have q: "0 \<le> sp_quantityPresentCount s" "0 < sp_sourceFlowCount s" using v False by (auto simp: valid_supplier_def)
    then have "0 \<le> \<lfloor>of_int (sp_quantityPresentCount s) / of_int (sp_sourceFlowCount s) * (10::rat) ^ QUANTITY_COVERAGE_DIGITS + 1 / 2\<rfloor>"
      by simp
    with rate False q p show ?thesis by (auto simp: divideExact_value valid_rate_def)
  qed (use rate p in \<open>simp add: valid_rate_def\<close>)
qed

subsection \<open>The order of the rows\<close>

definition printed :: "string \<Rightarrow> bool" where
  "printed s \<longleftrightarrow> (\<exists>v. parseFixedString s = Inr v)"

lemma format_printed:
  assumes "0 \<le> units v"
  shows "\<exists>s. formatFixedDecimal v = Inr s \<and> printed s \<and> text_value s = fixed_value v"
    and "scale v \<le> k \<Longrightarrow> \<exists>s. formatFixedDecimalScale v k = Inr s \<and> printed s \<and> text_value s = fixed_value v"
  using format_text [OF assms] format_scale_text [OF assms] unfolding printed_def by metis+

lemma compareDecimalStrings_printed:
  assumes "printed s" "printed t"
  shows "compareDecimalStrings s t = Inr (if text_value s = text_value t then 0
           else if text_value s < text_value t then - 1 else 1)"
  using assms compareDecimalStrings_value by (auto simp: printed_def text_value_def)

definition printed_share :: "supplier_share \<Rightarrow> bool" where
  "printed_share r \<longleftrightarrow> printed (ss_sharePercent r) \<and> printed (ss_pooledValueCurrentUsd r)"

definition share_key :: "supplier_share \<Rightarrow> rat \<times> rat \<times> nat" where
  "share_key r = (- text_value (ss_sharePercent r), - text_value (ss_pooledValueCurrentUsd r),
     undec (ec_code (ss_economy r)))"

lemma compareShares_total: "printed_share l \<Longrightarrow> printed_share r \<Longrightarrow> \<exists>c. compareShares l r = Inr c"
  by (simp add: printed_share_def compareShares_def compareDecimalStrings_printed Let_def)

interpretation share_order: key_comparator compareShares share_key
  "\<lambda>r. printed_share r \<and> numeric_code (ec_code (ss_economy r))"
proof
  fix l r :: supplier_share
  assume l: "printed_share l \<and> numeric_code (ec_code (ss_economy l))"
    and r: "printed_share r \<and> numeric_code (ec_code (ss_economy r))"
  then have code: "code_difference (ss_economy l) (ss_economy r) =
      Finite (of_int (int (undec (ec_code (ss_economy l))) - int (undec (ec_code (ss_economy r)))))"
    by (simp only: code_difference_def js_Number_code_minus)
  have "(0::rat) < of_int (int n - int m) \<longleftrightarrow> m < n" for m n by simp
  with l r show "\<exists>c. compareShares l r = Inr c \<and> (js_less (Finite 0) c \<longleftrightarrow> share_key r < share_key l)"
    unfolding compareShares_def code share_key_def
    by (simp add: printed_share_def compareDecimalStrings_printed less_prod_simp)
qed

definition printed_row :: "provisional_share \<Rightarrow> bool" where
  "printed_row r \<longleftrightarrow> (case ps_valueCurrentUsd r of
       None \<Rightarrow> ps_bilateralState r \<noteq> ROW_RECORDED_POSITIVE
     | Some t \<Rightarrow> ps_bilateralState r = ROW_RECORDED_POSITIVE \<and> printed t)"

definition row_key :: "provisional_share \<Rightarrow> int \<times> rat \<times> nat" where
  "row_key r = (provisionalStateRank (ps_bilateralState r),
     (case ps_valueCurrentUsd r of None \<Rightarrow> 0 | Some t \<Rightarrow> - text_value t), undec (ec_code (ps_economy r)))"

lemma compareProvisionalShares_total:
  "printed_row l \<Longrightarrow> printed_row r \<Longrightarrow> \<exists>c. compareProvisionalShares l r = Inr c"
  by (auto simp: printed_row_def compareProvisionalShares_def compareDecimalStrings_printed Let_def
      split: option.splits)

interpretation row_order: key_comparator compareProvisionalShares row_key
  "\<lambda>r. printed_row r \<and> numeric_code (ec_code (ps_economy r))"
proof
  fix l r :: provisional_share
  assume l: "printed_row l \<and> numeric_code (ec_code (ps_economy l))"
    and r: "printed_row r \<and> numeric_code (ec_code (ps_economy r))"
  then have code: "code_difference (ps_economy l) (ps_economy r) =
      Finite (of_int (int (undec (ec_code (ps_economy l))) - int (undec (ec_code (ps_economy r)))))"
    by (simp only: code_difference_def js_Number_code_minus)
  have rank: "provisionalStateRank x = provisionalStateRank y \<longleftrightarrow> x = y" for x y
    by (cases x; cases y) (simp_all add: provisionalStateRank_def)
  show "\<exists>c. compareProvisionalShares l r = Inr c \<and> (js_less (Finite 0) c \<longleftrightarrow> row_key r < row_key l)"
  proof (cases "ps_bilateralState l = ps_bilateralState r")
    case True
    with l r show ?thesis
      unfolding compareProvisionalShares_def code row_key_def
      by (auto simp: printed_row_def compareDecimalStrings_printed less_prod_simp Let_def split: option.splits)
  next
    case False
    then have "provisionalStateRank (ps_bilateralState l) \<noteq> provisionalStateRank (ps_bilateralState r)"
      by (simp add: rank)
    then show ?thesis
      unfolding compareProvisionalShares_def row_key_def by (auto simp: less_prod_simp Let_def)
  qed
qed

subsection \<open>The shares of the pooled suppliers\<close>

definition pooled_ok :: "pooled_supplier \<Rightarrow> bool" where
  "pooled_ok p \<longleftrightarrow> 0 \<le> units (po_pooledValue p) \<and> is_normal (po_pooledValue p) \<and> valid_rate (po_quantityCoverageRate p)"

definition pooled_worth :: "pooled_supplier \<Rightarrow> rat" where
  "pooled_worth p = fixed_value (po_pooledValue p)"

lemma le_fold_max: "(k::nat) \<le> fold max xs k"
  by (induction xs arbitrary: k) (simp_all, metis max.bounded_iff)

lemma mem_le_fold_max: "x \<in> set xs \<Longrightarrow> (x::nat) \<le> fold max xs k"
proof (induction xs arbitrary: k)
  case (Cons y ys)
  then show ?case using le_fold_max [of "max y k" ys] by auto
qed simp

lemma le_total_scale: "p \<in> set ps \<Longrightarrow> scale (po_pooledValue p) \<le> total_scale ps"
  by (simp add: total_scale_def mem_le_fold_max)

lemma foldl_sum: "foldl (\<lambda>sum x. sum + f x) a xs = (a::int) + (\<Sum>x\<leftarrow>xs. f x)"
  by (induction xs arbitrary: a) auto

lemma sum_list_scaled:
  fixes xs :: "'a list"
  assumes "\<And>x. x \<in> set xs \<Longrightarrow> (of_int (f x) :: rat) = g x * c"
  shows "(of_int (\<Sum>x\<leftarrow>xs. f x) :: rat) = (\<Sum>x\<leftarrow>xs. g x) * c"
  using assms by (induction xs) (auto simp: algebra_simps)

lemma total_units_value:
  "(of_int (total_units ps) :: rat) = (\<Sum>p\<leftarrow>ps. pooled_worth p) * 10 ^ total_scale ps"
  unfolding total_units_def foldl_sum
  by (simp only: add_0, rule sum_list_scaled) (simp add: scaleUnitsTo_value le_total_scale pooled_worth_def)

lemma pooled_worth_pos: "0 < units (po_pooledValue p) \<longleftrightarrow> 0 < pooled_worth p"
  by (simp add: pooled_worth_def fixed_value_def zero_less_divide_iff)

lemma sum_worth_pos:
  assumes "list_all (\<lambda>p. 0 < pooled_worth p) ps"
  shows "0 \<le> (\<Sum>p\<leftarrow>ps. pooled_worth p)" "ps \<noteq> [] \<Longrightarrow> 0 < (\<Sum>p\<leftarrow>ps. pooled_worth p)"
proof -
  have "0 \<le> (\<Sum>p\<leftarrow>qs. pooled_worth p)" if "list_all (\<lambda>p. 0 < pooled_worth p) qs" for qs
    using that by (induction qs) auto
  moreover have "0 < (\<Sum>p\<leftarrow>p # qs. pooled_worth p)" if "list_all (\<lambda>p. 0 < pooled_worth p) (p # qs)" for p qs
    using that calculation [of qs] by simp
  ultimately show "0 \<le> (\<Sum>p\<leftarrow>ps. pooled_worth p)" "ps \<noteq> [] \<Longrightarrow> 0 < (\<Sum>p\<leftarrow>ps. pooled_worth p)"
    using assms by (blast, cases ps) auto
qed

lemma total_units_zero:
  assumes "list_all (\<lambda>p. 0 < pooled_worth p) ps"
  shows "0 \<le> total_units ps" "total_units ps = 0 \<longleftrightarrow> ps = []"
proof -
  have "(0::rat) \<le> of_int (total_units ps)"
    unfolding total_units_value using sum_worth_pos(1) [OF assms] by simp
  then show "0 \<le> total_units ps" by simp
  have "ps \<noteq> [] \<Longrightarrow> (of_int (total_units ps) :: rat) \<noteq> 0"
    unfolding total_units_value using sum_worth_pos(2) [OF assms] by simp
  then show "total_units ps = 0 \<longleftrightarrow> ps = []" by (auto simp: total_units_def)
qed

definition percent_units :: "rat \<Rightarrow> rat \<Rightarrow> int" where
  "percent_units v whole = \<lfloor>100 * v / whole * 10 ^ 6 + 1 / 2\<rfloor>"

definition share_row :: "rat \<Rightarrow> pooled_supplier \<Rightarrow> supplier_share \<Rightarrow> bool" where
  "share_row whole p row \<longleftrightarrow>
     ss_economy row = po_economy p \<and> text_value (ss_pooledValueCurrentUsd row) = pooled_worth p \<and>
     formatFixedDecimalScale \<lparr>units = percent_units (pooled_worth p) whole, scale = 6\<rparr> 6 = Inr (ss_sharePercent row) \<and>
     text_value (ss_sharePercent row) = of_int (percent_units (pooled_worth p) whole) / 10 ^ 6 \<and>
     printed_share row"

lemma format_rate_total: "valid_rate rate \<Longrightarrow> \<exists>t. format_rate rate = Inr t"
  using format_printed(2) [of "the rate" QUANTITY_COVERAGE_DIGITS]
  by (auto simp: valid_rate_def format_rate_def split: option.splits)

lemma shareFor_row:
  assumes "p \<in> set ps" "pooled_ok p" "list_all (\<lambda>p. 0 < pooled_worth p) ps"
  shows "\<exists>row. shareFor (total_units ps) (total_scale ps) p = Inr row \<and>
           share_row (\<Sum>p\<leftarrow>ps. pooled_worth p) p row"
proof -
  let ?T = "\<Sum>p\<leftarrow>ps. pooled_worth p" and ?k = "total_scale ps"
  have T: "0 < ?T" using assms(1,3) sum_worth_pos(2) by force
  have tot: "0 < total_units ps" using total_units_zero [OF assms(3)] assms(1) by force
  have v: "0 < pooled_worth p" using assms(1,3) by (simp add: list_all_iff)
  have u: "(of_int (scaleUnitsTo (po_pooledValue p) ?k) :: rat) = pooled_worth p * 10 ^ ?k"
    using le_total_scale [OF assms(1)] by (simp add: scaleUnitsTo_value pooled_worth_def)
  then have "(0::rat) \<le> of_int (scaleUnitsTo (po_pooledValue p) ?k)" using v by simp
  then have u0: "0 \<le> scaleUnitsTo (po_pooledValue p) ?k * 100" by simp
  have q: "of_int (scaleUnitsTo (po_pooledValue p) ?k * 100) / of_int (total_units ps) * (10::rat) ^ 6 + 1 / 2
      = 100 * pooled_worth p / ?T * 10 ^ 6 + 1 / 2"
    unfolding total_units_value of_int_mult u using T by (simp add: field_simps)
  have quotient: "divideExact (scaleUnitsTo (po_pooledValue p) ?k * 100) (total_units ps) 6
      = Inr \<lparr>units = percent_units (pooled_worth p) ?T, scale = 6\<rparr>"
    unfolding divideExact_value [OF u0 tot] q percent_units_def ..
  have pu: "0 \<le> percent_units (pooled_worth p) ?T" using v T by (simp add: percent_units_def)
  define share where "share = \<lparr>units = percent_units (pooled_worth p) ?T, scale = 6\<rparr>"
  have sc: "0 \<le> units share" "scale share \<le> 6" using pu by (simp_all add: share_def)
  obtain s where s: "formatFixedDecimalScale share 6 = Inr s" "printed s" "text_value s = fixed_value share"
    using format_printed(2) [OF sc] by blast
  obtain t where t: "formatFixedDecimal (po_pooledValue p) = Inr t" "printed t" "text_value t = pooled_worth p"
    using format_printed(1) [of "po_pooledValue p"] assms(2) by (auto simp: pooled_ok_def pooled_worth_def)
  obtain r where "format_rate (po_quantityCoverageRate p) = Inr r"
    using assms(2) format_rate_total by (auto simp: pooled_ok_def)
  with quotient s t show ?thesis
    by (simp add: shareFor_def SHARE_PERCENTAGE_DIGITS_def share_row_def printed_share_def share_def
        fixed_value_def [of "\<lparr>units = u, scale = k\<rparr>" for u k])
qed

lemma sharesFor_rows:
  assumes "list_all pooled_ok ps" "list_all (\<lambda>p. 0 < pooled_worth p) ps"
  obtains rows shares where "list_all2 (share_row (\<Sum>p\<leftarrow>ps. pooled_worth p)) ps rows"
    "sharesFor ps = Inr shares" "sort_by compareShares rows = Inr shares"
proof -
  have "\<exists>rows. emap (shareFor (total_units ps) (total_scale ps)) ps = Inr rows \<and>
      list_all2 (share_row (\<Sum>p\<leftarrow>ps. pooled_worth p)) ps rows"
    using assms by (intro emap_total shareFor_row) (auto simp: list_all_iff)
  then obtain rows where rows: "emap (shareFor (total_units ps) (total_scale ps)) ps = Inr rows"
    "list_all2 (share_row (\<Sum>p\<leftarrow>ps. pooled_worth p)) ps rows" by blast
  have "\<forall>r \<in> set rows. printed_share r"
    using rows(2) by (auto simp: list_all2_conv_all_nth in_set_conv_nth share_row_def)
  then obtain shares where "sort_by compareShares rows = Inr shares"
    using sort_by_total [of rows compareShares] compareShares_total by blast
  moreover have "sharesFor ps = Inr shares"
  proof (cases "ps = []")
    case True
    with rows(1) \<open>sort_by compareShares rows = Inr shares\<close> show ?thesis
      by (simp add: sharesFor_def total_units_def)
  next
    case False
    with rows(1) \<open>sort_by compareShares rows = Inr shares\<close> show ?thesis
      by (simp add: sharesFor_def total_units_zero [OF assms(2)])
  qed
  ultimately show ?thesis using that rows(2) by blast
qed

subsection \<open>What a result consists of\<close>

definition exporters :: "supplier_inputs \<Rightarrow> supplier_evidence list" where
  "exporters inp = filter (\<lambda>s. 0 < supplier_value s) (si_suppliers inp)"

definition market_value :: "supplier_inputs \<Rightarrow> rat" where
  "market_value inp = (\<Sum>s\<leftarrow>exporters inp. supplier_value s)"

definition pooled_from :: "supplier_evidence \<Rightarrow> pooled_supplier \<Rightarrow> bool" where
  "pooled_from s p \<longleftrightarrow> po_economy p = sp_economy s \<and> pooled_worth p = supplier_value s \<and> pooled_ok p"

lemma poolSupplier_from: "poolSupplier s a b = Inr p \<Longrightarrow> pooled_from s p"
  using poolSupplier_result [of s a b p] by (simp add: pooled_from_def pooled_worth_def pooled_ok_def)

lemma thrown_Inr_iff: "thrown m = Inr x \<longleftrightarrow> m = Inr x"
  by (cases m) (simp_all add: thrown_def)

lemma eligible_from:
  assumes "emap (\<lambda>s. poolSupplier s a b) (si_suppliers inp) = Inr ps"
  shows "list_all2 pooled_from (exporters inp) (eligible_of ps)"
    "list_all pooled_ok (eligible_of ps)" "list_all (\<lambda>p. 0 < pooled_worth p) (eligible_of ps)"
    "(\<Sum>p\<leftarrow>eligible_of ps. pooled_worth p) = market_value inp"
    "map (\<lambda>p. ec_code (po_economy p)) (eligible_of ps) = map (\<lambda>s. ec_code (sp_economy s)) (exporters inp)"
proof -
  have "list_all2 pooled_from (si_suppliers inp) ps"
    using assms poolSupplier_from by (auto simp: emap_Inr_iff elim: list_all2_mono)
  then show l: "list_all2 pooled_from (exporters inp) (eligible_of ps)"
    unfolding exporters_def eligible_of_def
    by (rule list_all2_filter) (simp add: pooled_from_def pooled_worth_pos)
  show "list_all (\<lambda>p. 0 < pooled_worth p) (eligible_of ps)"
    by (simp add: eligible_of_def list_all_iff pooled_worth_pos)
  show "list_all pooled_ok (eligible_of ps)"
    using l by (auto simp: list_all_length list_all2_conv_all_nth pooled_from_def)
  show "(\<Sum>p\<leftarrow>eligible_of ps. pooled_worth p) = market_value inp"
    using list_all2_map_eq [OF l, of supplier_value pooled_worth]
    by (simp add: market_value_def pooled_from_def)
  show "map (\<lambda>p. ec_code (po_economy p)) (eligible_of ps) = map (\<lambda>s. ec_code (sp_economy s)) (exporters inp)"
    using list_all2_map_eq [OF l, of "\<lambda>s. ec_code (sp_economy s)" "\<lambda>p. ec_code (po_economy p)"]
    by (simp add: pooled_from_def)
qed

lemma computeSupplierCompetition_facts:
  assumes "computeSupplierCompetitionV1 inp = Inr res"
  obtains ps where
    "check_inputs inp = Inr ()"
    "emap (\<lambda>s. poolSupplier s (fst (finalized_window inp)) (snd (finalized_window inp))) (si_suppliers inp) = Inr ps"
    "sharesFor (eligible_of ps) = Inr (sr_supplierShares res)"
    "concentrationFor (eligible_of ps) (total_units (eligible_of ps)) (total_scale (eligible_of ps))
       = Inr (sr_concentration res)"
    "provisionalSharesFor inp (eligible_of ps) = Inr (sr_provisionalSupplierShares res)"
    "formatFixedDecimal \<lparr>units = total_units (eligible_of ps), scale = total_scale (eligible_of ps)\<rparr>
       = Inr (sr_finalizedPooledValueCurrentUsd res)"
    "sr_qualityWarnings res = qualityWarningsFor (eligible_of ps) (sr_concentration res)
       (fst (finalized_window inp)) (snd (finalized_window inp))"
    "sr_cohortSize res = length (sr_supplierShares res)"
    "sr_provisionalMarketState res = si_provisionalMarketState inp"
  using assms
  by (auto simp: computeSupplierCompetitionV1_def ebind_Inr_iff thrown_Inr_iff Let_def
      split: prod.splits)

lemma share_rows:
  assumes "list_all pooled_ok ps" "list_all (\<lambda>p. 0 < pooled_worth p) ps" "sharesFor ps = Inr shares"
  obtains rows where "list_all2 (share_row (\<Sum>p\<leftarrow>ps. pooled_worth p)) ps rows"
    "sort_by compareShares rows = Inr shares" "mset shares = mset rows"
proof -
  obtain rows shares' where "list_all2 (share_row (\<Sum>p\<leftarrow>ps. pooled_worth p)) ps rows"
    "sharesFor ps = Inr shares'" "sort_by compareShares rows = Inr shares'"
    using sharesFor_rows [OF assms(1,2)] by metis
  with assms(3) that sort_by_mset show ?thesis by fastforce
qed

definition hhi_units :: "rat list \<Rightarrow> int" where
  "hhi_units vs = \<lfloor>10000 * (\<Sum>v\<leftarrow>vs. (v / sum_list vs)\<^sup>2) * 10 ^ 6 + 1 / 2\<rfloor>"

lemma sum_list_squares_scaled:
  "(\<Sum>x\<leftarrow>xs. (f x / (c::rat))\<^sup>2) = (\<Sum>x\<leftarrow>xs. (f x)\<^sup>2) / c\<^sup>2"
  by (induction xs) (simp_all add: power_divide add_divide_distrib)

lemma concentrationFor_value:
  assumes "list_all (\<lambda>p. 0 < pooled_worth p) ps"
  shows "\<exists>c. concentrationFor ps (total_units ps) (total_scale ps) = Inr c \<and>
    (case c of ConcentrationUnavailable \<Rightarrow> ps = []
     | Computed t k \<Rightarrow> ps \<noteq> [] \<and> k = 10000 \<and>
         formatFixedDecimalScale \<lparr>units = hhi_units (map pooled_worth ps), scale = 6\<rparr> 6 = Inr t \<and>
         text_value t = of_int (hhi_units (map pooled_worth ps)) / 10 ^ 6)"
proof (cases "ps = []")
  case True
  then show ?thesis by (simp add: concentrationFor_def total_units_def)
next
  case False
  let ?k = "total_scale ps" and ?T = "\<Sum>p\<leftarrow>ps. pooled_worth p"
  define sq where "sq = (\<Sum>p\<leftarrow>ps. scaleUnitsTo (po_pooledValue p) ?k * scaleUnitsTo (po_pooledValue p) ?k)"
  have tot: "total_units ps \<noteq> 0" "0 < total_units ps * total_units ps"
    using False total_units_zero [OF assms] by auto
  have "(of_int sq :: rat) = (\<Sum>p\<leftarrow>ps. (pooled_worth p)\<^sup>2) * (10 ^ ?k)\<^sup>2"
    unfolding sq_def
    by (rule sum_list_scaled) (simp add: scaleUnitsTo_value le_total_scale pooled_worth_def power2_eq_square)
  moreover have "0 \<le> sq" unfolding sq_def by (rule sum_list_nonneg) auto
  ultimately have q: "(of_int (sq * HHI_SCALE * tenTo HHI_DIGITS) :: rat) / of_int (total_units ps * total_units ps)
      = 10000 * (\<Sum>v\<leftarrow>map pooled_worth ps. (v / sum_list (map pooled_worth ps))\<^sup>2) * 10 ^ 6"
    and nn: "0 \<le> sq * HHI_SCALE * tenTo HHI_DIGITS"
    using sum_list_squares_scaled [of "\<lambda>v. v" ?T "map pooled_worth ps"]
    by (simp_all add: total_units_value HHI_SCALE_def HHI_DIGITS_def tenTo_def power2_eq_square comp_def)
  have d: "divideHalfUp (sq * HHI_SCALE * tenTo HHI_DIGITS) (total_units ps * total_units ps)
      = Inr (hhi_units (map pooled_worth ps))"
    using divideHalfUp_rat [OF tot(2), of "sq * HHI_SCALE * tenTo HHI_DIGITS"] nn
    unfolding q hhi_units_def by simp
  have "0 \<le> (\<Sum>v\<leftarrow>map pooled_worth ps. (v / sum_list (map pooled_worth ps))\<^sup>2)"
    by (rule sum_list_nonneg) auto
  then have "0 \<le> hhi_units (map pooled_worth ps)" by (simp add: hhi_units_def)
  then obtain t where "formatFixedDecimalScale \<lparr>units = hhi_units (map pooled_worth ps), scale = 6\<rparr> 6 = Inr t"
    "text_value t = of_int (hhi_units (map pooled_worth ps)) / 10 ^ 6"
    using format_printed(2) [of "\<lparr>units = hhi_units (map pooled_worth ps), scale = 6\<rparr>" 6]
    by (auto simp: fixed_value_def)
  with False tot d show ?thesis
    by (simp add: concentrationFor_def foldl_sum sq_def HHI_SCALE_def HHI_DIGITS_def)
qed

subsection \<open>Bounds of the figures\<close>

lemma sum_weights:
  assumes "list_all (\<lambda>v. 0 < (v::rat)) vs" "vs \<noteq> []"
  shows "0 < sum_list vs" "(\<Sum>v\<leftarrow>vs. v / sum_list vs) = 1" "\<forall>v \<in> set vs. 0 < v / sum_list vs \<and> v / sum_list vs \<le> 1"
proof -
  have nn: "0 \<le> sum_list xs" if "list_all (\<lambda>v. 0 < (v::rat)) xs" for xs
    using that by (induction xs) auto
  show pos: "0 < sum_list vs"
    using assms nn [of "tl vs"] by (cases vs) auto
  have "(\<Sum>v\<leftarrow>xs. v / c) = sum_list xs / c" for xs and c :: rat
    by (induction xs) (simp_all add: add_divide_distrib)
  with pos show "(\<Sum>v\<leftarrow>vs. v / sum_list vs) = 1" by simp
  have "v \<le> sum_list xs" if "list_all (\<lambda>v. 0 < (v::rat)) xs" "v \<in> set xs" for v xs
    using that nn by (induction xs) force+
  with pos assms show "\<forall>v \<in> set vs. 0 < v / sum_list vs \<and> v / sum_list vs \<le> 1"
    by (auto simp: list_all_iff)
qed

lemma sum_squares_bounds:
  assumes "\<forall>w \<in> set ws. 0 < w \<and> w \<le> (1::rat)" "sum_list ws = 1"
  shows "1 / of_nat (length ws) \<le> (\<Sum>w\<leftarrow>ws. w\<^sup>2)" "(\<Sum>w\<leftarrow>ws. w\<^sup>2) \<le> 1"
proof -
  let ?n = "of_nat (length ws) :: rat"
  have n: "0 < ?n" using assms(2) by (cases ws) auto
  have "(\<Sum>w\<leftarrow>xs. (w - c)\<^sup>2) = (\<Sum>w\<leftarrow>xs. w\<^sup>2) - 2 * c * sum_list xs + of_nat (length xs) * c\<^sup>2" for xs and c :: rat
    by (induction xs) (simp_all add: power2_eq_square algebra_simps)
  from this [of "1 / ?n" ws] have "(\<Sum>w\<leftarrow>ws. (w - 1 / ?n)\<^sup>2) = (\<Sum>w\<leftarrow>ws. w\<^sup>2) - 1 / ?n"
    using n assms(2) by (simp add: power2_eq_square)
  moreover have "0 \<le> (\<Sum>w\<leftarrow>ws. (w - 1 / ?n)\<^sup>2)" by (rule sum_list_nonneg) auto
  ultimately show "1 / ?n \<le> (\<Sum>w\<leftarrow>ws. w\<^sup>2)" by simp
  have "(\<Sum>w\<leftarrow>ws. w\<^sup>2) \<le> (\<Sum>w\<leftarrow>ws. w)"
    using assms(1) by (intro sum_list_mono) (auto simp: power2_eq_square mult_left_le)
  with assms(2) show "(\<Sum>w\<leftarrow>ws. w\<^sup>2) \<le> 1" by simp
qed

lemma floor_half_bounds: "x - 1 / 2 < of_int \<lfloor>x + 1 / 2 :: rat\<rfloor>" "of_int \<lfloor>x + 1 / 2 :: rat\<rfloor> \<le> x + 1 / 2"
  using floor_correct [of "x + 1 / 2"] by linarith+

lemma hhi_units_bounds:
  assumes "list_all (\<lambda>v. 0 < v) vs" "vs \<noteq> []"
  shows "10000 / of_nat (length vs) - 1 / (2 * 10 ^ 6) < (of_int (hhi_units vs) / 10 ^ 6 :: rat)"
    "of_int (hhi_units vs) / (10::rat) ^ 6 \<le> 10000"
proof -
  let ?ws = "map (\<lambda>v. v / sum_list vs) vs"
  note w = sum_weights [OF assms]
  have "1 / of_nat (length ?ws) \<le> (\<Sum>w\<leftarrow>?ws. w\<^sup>2)" "(\<Sum>w\<leftarrow>?ws. w\<^sup>2) \<le> 1"
    using w by (intro sum_squares_bounds; auto)+
  then have b: "1 / of_nat (length vs) \<le> (\<Sum>v\<leftarrow>vs. (v / sum_list vs)\<^sup>2)" "(\<Sum>v\<leftarrow>vs. (v / sum_list vs)\<^sup>2) \<le> 1"
    by (simp_all add: comp_def)
  define q where "q = 10000 * (\<Sum>v\<leftarrow>vs. (v / sum_list vs)\<^sup>2) * 10 ^ 6"
  have h: "hhi_units vs = \<lfloor>q + 1 / 2\<rfloor>" by (simp add: hhi_units_def q_def)
  have "q - 1 / 2 < of_int (hhi_units vs)" unfolding h by (rule floor_half_bounds)
  moreover have "10000 / of_nat (length vs) * 10 ^ 6 \<le> q" using b(1) by (simp add: q_def)
  ultimately show "10000 / of_nat (length vs) - 1 / (2 * 10 ^ 6) < (of_int (hhi_units vs) / 10 ^ 6 :: rat)" by simp
  have "q \<le> 10 ^ 10" using b(2) by (simp add: q_def)
  then have "hhi_units vs \<le> 10 ^ 10" unfolding h by (simp add: floor_le_iff)
  then have "(of_int (hhi_units vs) :: rat) \<le> of_int (10 ^ 10)" by (simp only: of_int_le_iff)
  then show "of_int (hhi_units vs) / (10::rat) ^ 6 \<le> 10000" by simp
qed

lemma shares_add_up:
  assumes "list_all (\<lambda>v. 0 < v) vs" "vs \<noteq> []"
  shows "\<bar>(\<Sum>v\<leftarrow>vs. of_int (percent_units v (sum_list vs)) / (10::rat) ^ 6) - 100\<bar> \<le> of_nat (length vs) / (2 * 10 ^ 6)"
proof -
  let ?u = "\<lambda>v. of_int (percent_units v (sum_list vs)) / (10::rat) ^ 6"
  let ?x = "\<lambda>v. 100 * (v / sum_list vs)"
  have each: "\<bar>?u v - ?x v\<bar> \<le> 1 / (2 * 10 ^ 6)" for v
  proof -
    define q where "q = 100 * v / sum_list vs * 10 ^ 6"
    have "?u v - ?x v = (of_int \<lfloor>q + 1 / 2\<rfloor> - q) / 10 ^ 6"
      by (simp add: percent_units_def q_def diff_divide_distrib)
    then have "\<bar>?u v - ?x v\<bar> = \<bar>of_int \<lfloor>q + 1 / 2\<rfloor> - q\<bar> / 10 ^ 6" by (simp only:) simp
    moreover have "\<bar>of_int \<lfloor>q + 1 / 2\<rfloor> - q\<bar> \<le> 1 / 2" using floor_half_bounds [of q] by linarith
    ultimately show ?thesis by simp
  qed
  have "\<bar>(\<Sum>v\<leftarrow>xs. ?u v) - (\<Sum>v\<leftarrow>xs. ?x v)\<bar> \<le> of_nat (length xs) * (1 / (2 * 10 ^ 6))" for xs
  proof (induction xs)
    case (Cons v xs)
    have "\<bar>(\<Sum>v\<leftarrow>v # xs. ?u v) - (\<Sum>v\<leftarrow>v # xs. ?x v)\<bar>
        \<le> \<bar>?u v - ?x v\<bar> + \<bar>(\<Sum>v\<leftarrow>xs. ?u v) - (\<Sum>v\<leftarrow>xs. ?x v)\<bar>" by simp
    also have "\<dots> \<le> 1 / (2 * 10 ^ 6) + of_nat (length xs) * (1 / (2 * 10 ^ 6))"
      by (rule add_mono [OF each Cons.IH])
    finally show ?case by (simp add: algebra_simps add_divide_distrib)
  qed simp
  moreover have "(\<Sum>v\<leftarrow>vs. ?x v) = 100"
    by (simp only: sum_list_const_mult sum_weights(2) [OF assms] mult_1_right)
  ultimately show ?thesis by (metis (no_types, lifting) mult.right_neutral times_divide_eq_right)
qed

subsection \<open>Provisional rows\<close>

definition valid_provisional :: "provisional_evidence \<Rightarrow> bool" where
  "valid_provisional e \<longleftrightarrow>
     (case pe_bilateral e of NoRecordedPositiveFlow \<Rightarrow> True | RecordedPositive t \<Rightarrow> is_positive_decimal t)"

lemma provisionalRow_total:
  "(\<exists>row. provisionalRowFor ec m ev = Inr row) \<longleftrightarrow>
     m \<noteq> RECORDED \<or> (case ev of None \<Rightarrow> True | Some e \<Rightarrow> valid_provisional e)"
proof -
  define field where "field = ''Supplier Competition provisional value for economy '' @ ec_code ec"
  have "(\<exists>u. formatFixedDecimal v = Inr u)" if "parsePositiveFixedDecimal t field = Inr v" for t v
    using that fixed_text.reprint by blast
  then have "(\<exists>row. ebind (parsePositiveFixedDecimal t field) (\<lambda>v. ebind (formatFixedDecimal v) (\<lambda>u. Inr (F u))) = Inr row)
      \<longleftrightarrow> is_positive_decimal t" for t and F :: "string \<Rightarrow> provisional_share"
    unfolding ebind_Inr_iff parse_positive_iff [of t field, symmetric] by blast
  then show ?thesis
    unfolding provisionalRowFor_def field_def [symmetric]
    by (auto simp: valid_provisional_def split: option.split bilateral.split)
qed

lemma provisionalRow_facts:
  assumes "provisionalRowFor ec m ev = Inr row"
  shows "ps_economy row = ec \<and> printed_row row"
proof -
  define field where "field = ''Supplier Competition provisional value for economy '' @ ec_code ec"
  have "printed u" if "parsePositiveFixedDecimal t field = Inr v" "formatFixedDecimal v = Inr u" for t v u
    using that format_printed(1) [of v] parse_ok_facts(1) [OF that(1)] by auto
  with assms show ?thesis
    unfolding provisionalRowFor_def field_def [symmetric]
    by (auto simp: ebind_Inr_iff printed_row_def split: option.splits bilateral.splits if_splits)
qed

definition code_of :: "provisional_evidence \<Rightarrow> string" where
  "code_of e = ec_code (pe_economy e)"

definition evidence_by_code :: "supplier_inputs \<Rightarrow> string \<Rightarrow> provisional_evidence option" where
  "evidence_by_code inp = map_of (rev (map (\<lambda>e. (code_of e, e)) (si_provisionalSuppliers inp)))"

definition new_entrants :: "supplier_inputs \<Rightarrow> string list \<Rightarrow> provisional_evidence list" where
  "new_entrants inp codes = (if si_provisionalMarketState inp \<noteq> RECORDED then []
     else filter (\<lambda>e. code_of e \<notin> set codes) (si_provisionalSuppliers inp))"

lemma evidence_by_code_Some:
  assumes "distinct (map code_of (si_provisionalSuppliers inp))"
  shows "evidence_by_code inp c = Some e \<longleftrightarrow> e \<in> set (si_provisionalSuppliers inp) \<and> code_of e = c"
proof -
  have "distinct (map fst (rev (map (\<lambda>e. (code_of e, e)) (si_provisionalSuppliers inp))))"
    using assms by (simp add: rev_map [symmetric] comp_def)
  then show ?thesis
    unfolding evidence_by_code_def by (subst map_of_eq_Some_iff) auto
qed

text \<open>The unsorted rows: one for each eligible supplier, then one for each new entrant.\<close>

definition unsorted_rows ::
  "supplier_inputs \<Rightarrow> economy_identity list \<Rightarrow> js_error + provisional_share list" where
  "unsorted_rows inp economies =
     ebind (emap (\<lambda>ec. provisionalRowFor ec (si_provisionalMarketState inp) (evidence_by_code inp (ec_code ec)))
              economies) (\<lambda>rows.
     ebind (emap (\<lambda>e. provisionalRowFor (pe_economy e) RECORDED (Some e))
              (new_entrants inp (map ec_code economies))) (\<lambda>new. Inr (rows @ new)))"

lemma provisionalSharesFor_unsorted:
  "provisionalSharesFor inp ps =
     ebind (unsorted_rows inp (map po_economy ps)) (sort_by compareProvisionalShares)"
proof -
  have "(\<lambda>e. ec_code (pe_economy e)) = code_of" by (simp add: code_of_def fun_eq_iff)
  then show ?thesis
    by (simp add: provisionalSharesFor_def unsorted_rows_def emap_map evidence_by_code_def new_entrants_def
        code_of_def Let_def comp_def ebind_assoc)
qed

lemma unsorted_rows_facts:
  assumes "unsorted_rows inp ecs = Inr rows"
  shows "map ps_economy rows = ecs @ map pe_economy (new_entrants inp (map ec_code ecs))"
    "list_all printed_row rows"
proof -
  obtain rs ns where r: "list_all2 (\<lambda>ec row. provisionalRowFor ec (si_provisionalMarketState inp)
        (evidence_by_code inp (ec_code ec)) = Inr row) ecs rs"
    and n: "list_all2 (\<lambda>e row. provisionalRowFor (pe_economy e) RECORDED (Some e) = Inr row)
        (new_entrants inp (map ec_code ecs)) ns" and rows: "rows = rs @ ns"
    using assms by (auto simp: unsorted_rows_def ebind_Inr_iff emap_Inr_iff)
  have "ecs = map ps_economy rs" using list_all2_map_eq [OF r, of "\<lambda>x. x" ps_economy] provisionalRow_facts by auto
  moreover have "map pe_economy (new_entrants inp (map ec_code ecs)) = map ps_economy ns"
    using list_all2_map_eq [OF n, of pe_economy ps_economy] provisionalRow_facts by auto
  ultimately show "map ps_economy rows = ecs @ map pe_economy (new_entrants inp (map ec_code ecs))"
    by (simp add: rows)
  show "list_all printed_row rows"
    unfolding rows using list_all2_right [OF r, of printed_row] list_all2_right [OF n, of printed_row]
      provisionalRow_facts by auto
qed

lemma unsorted_rows_total:
  assumes "distinct (map code_of (si_provisionalSuppliers inp))"
    and "si_provisionalMarketState inp = RECORDED \<or> si_provisionalSuppliers inp = []"
  shows "(\<exists>rows. unsorted_rows inp ecs = Inr rows) \<longleftrightarrow> list_all valid_provisional (si_provisionalSuppliers inp)"
proof -
  let ?m = "si_provisionalMarketState inp" and ?es = "si_provisionalSuppliers inp"
  have ev: "(case evidence_by_code inp c of None \<Rightarrow> True | Some e \<Rightarrow> valid_provisional e) \<longleftrightarrow>
      (\<forall>e \<in> set ?es. code_of e = c \<longrightarrow> valid_provisional e)" for c
  proof (cases "evidence_by_code inp c")
    case None
    then have "\<not> (e \<in> set ?es \<and> code_of e = c)" for e using evidence_by_code_Some [OF assms(1), of c e] by simp
    with None show ?thesis by auto
  next
    case (Some a)
    then have "e \<in> set ?es \<and> code_of e = c \<longleftrightarrow> e = a" for e
      using evidence_by_code_Some [OF assms(1), of c e] by auto
    then have "valid_provisional a \<longleftrightarrow> (\<forall>e \<in> set ?es. code_of e = c \<longrightarrow> valid_provisional e)" by metis
    with Some show ?thesis by simp
  qed
  have "(\<exists>rows. unsorted_rows inp ecs = Inr rows) \<longleftrightarrow>
      list_all (\<lambda>ec. ?m \<noteq> RECORDED \<or> (\<forall>e \<in> set ?es. code_of e = ec_code ec \<longrightarrow> valid_provisional e)) ecs \<and>
      list_all valid_provisional (new_entrants inp (map ec_code ecs))"
  proof -
    have "(\<exists>rows. unsorted_rows inp ecs = Inr rows) \<longleftrightarrow>
       (\<exists>rs. emap (\<lambda>ec. provisionalRowFor ec ?m (evidence_by_code inp (ec_code ec))) ecs = Inr rs) \<and>
       (\<exists>ns. emap (\<lambda>e. provisionalRowFor (pe_economy e) RECORDED (Some e)) (new_entrants inp (map ec_code ecs)) = Inr ns)"
      by (auto simp: unsorted_rows_def ebind_Inr_iff)
    then show ?thesis unfolding emap_succeeds_iff provisionalRow_total ev by simp
  qed
  also have "\<dots> \<longleftrightarrow> list_all valid_provisional ?es"
    using assms(2) by (auto simp: list_all_iff new_entrants_def)
  finally show ?thesis .
qed

subsection \<open>What the recipe accepts\<close>

definition accepted_inputs :: "supplier_inputs \<Rightarrow> bool" where
  "accepted_inputs inp \<longleftrightarrow>
     art_baciRelease (si_artifact inp) = rel_baciRelease (si_release inp) \<and>
     pr_hsRevision (si_product inp) = ''HS12'' \<and> rel_hsRevision (si_release inp) = ''HS12'' \<and>
     length (si_suppliers inp) \<le> 250 \<and>
     distinct (map (\<lambda>s. ec_code (sp_economy s)) (si_suppliers inp)) \<and>
     distinct (map code_of (si_provisionalSuppliers inp)) \<and>
     (si_provisionalMarketState inp = RECORDED \<or> si_provisionalSuppliers inp = []) \<and>
     list_all (valid_supplier (rel_finalizedCutoffYear (si_release inp) - 4)
                              (rel_finalizedCutoffYear (si_release inp))) (si_suppliers inp) \<and>
     list_all valid_provisional (si_provisionalSuppliers inp)"

lemma assertUnique_iff: "assertUniqueEconomies codes field = Inr u \<longleftrightarrow> distinct codes"
  by (simp add: assertUniqueEconomies_def)

lemma check_inputs_iff:
  "check_inputs inp = Inr u \<longleftrightarrow>
     art_baciRelease (si_artifact inp) = rel_baciRelease (si_release inp) \<and>
     pr_hsRevision (si_product inp) = ''HS12'' \<and> rel_hsRevision (si_release inp) = ''HS12'' \<and>
     length (si_suppliers inp) \<le> 250 \<and>
     distinct (map (\<lambda>s. ec_code (sp_economy s)) (si_suppliers inp)) \<and>
     distinct (map code_of (si_provisionalSuppliers inp)) \<and>
     (si_provisionalMarketState inp = RECORDED \<or> si_provisionalSuppliers inp = [])"
proof -
  have "(\<lambda>e. ec_code (pe_economy e)) = code_of" by (simp add: code_of_def fun_eq_iff)
  then show ?thesis
    by (auto simp: check_inputs_def ebind_Inr_iff thrown_Inr_iff assertUnique_iff
        supplier_assertReleaseConsistency_def SUPPLIER_COMPETITION_MAX_COHORT_SIZE_def)
qed

lemma unsorted_rows_sorted:
  assumes "unsorted_rows inp ecs = Inr rows"
  shows "\<exists>sorted_rows. sort_by compareProvisionalShares rows = Inr sorted_rows"
  using unsorted_rows_facts(2) [OF assms] compareProvisionalShares_total
  by (intro sort_by_total) (auto simp: list_all_iff)

lemma compute_accepts:
  "(\<exists>res. computeSupplierCompetitionV1 inp = Inr res) \<longleftrightarrow> accepted_inputs inp"
proof
  assume "\<exists>res. computeSupplierCompetitionV1 inp = Inr res"
  then obtain res where "computeSupplierCompetitionV1 inp = Inr res" ..
  then obtain ps where c: "check_inputs inp = Inr ()"
    and ps: "emap (\<lambda>s. poolSupplier s (fst (finalized_window inp)) (snd (finalized_window inp))) (si_suppliers inp) = Inr ps"
    and prov: "provisionalSharesFor inp (eligible_of ps) = Inr (sr_provisionalSupplierShares res)"
    by (rule computeSupplierCompetition_facts)
  have "list_all (valid_supplier (fst (finalized_window inp)) (snd (finalized_window inp))) (si_suppliers inp)"
    using ps emap_succeeds_iff [of "\<lambda>s. poolSupplier s (fst (finalized_window inp)) (snd (finalized_window inp))"]
    unfolding poolSupplier_total by blast
  moreover have "\<exists>rows. unsorted_rows inp (map po_economy (eligible_of ps)) = Inr rows"
    using prov by (auto simp: provisionalSharesFor_unsorted ebind_Inr_iff)
  then have "list_all valid_provisional (si_provisionalSuppliers inp)"
    using c by (subst (asm) unsorted_rows_total) (auto simp: check_inputs_iff)
  ultimately show "accepted_inputs inp"
    using c by (simp add: accepted_inputs_def check_inputs_iff finalized_window_def Let_def
        SUPPLIER_COMPETITION_FINALIZED_YEAR_COUNT_def)
next
  let ?a = "fst (finalized_window inp)" and ?b = "snd (finalized_window inp)"
  assume acc: "accepted_inputs inp"
  then have c: "check_inputs inp = Inr ()" by (simp add: check_inputs_iff accepted_inputs_def)
  have "list_all (valid_supplier ?a ?b) (si_suppliers inp)"
    using acc by (simp add: accepted_inputs_def finalized_window_def Let_def
        SUPPLIER_COMPETITION_FINALIZED_YEAR_COUNT_def)
  then obtain ps where ps: "emap (\<lambda>s. poolSupplier s ?a ?b) (si_suppliers inp) = Inr ps"
    using emap_succeeds_iff [of "\<lambda>s. poolSupplier s ?a ?b" "si_suppliers inp"]
    unfolding poolSupplier_total by blast
  let ?el = "eligible_of ps"
  note el = eligible_from [OF ps]
  obtain shares where "sharesFor ?el = Inr shares" using sharesFor_rows [OF el(2,3)] by metis
  moreover obtain conc where "concentrationFor ?el (total_units ?el) (total_scale ?el) = Inr conc"
    using concentrationFor_value [OF el(3)] by blast
  moreover obtain rows where rows: "unsorted_rows inp (map po_economy ?el) = Inr rows"
    using acc unsorted_rows_total [of inp "map po_economy ?el"] by (auto simp: accepted_inputs_def)
  moreover obtain prov where "sort_by compareProvisionalShares rows = Inr prov"
    using unsorted_rows_sorted [OF rows] ..
  moreover obtain t where "formatFixedDecimal \<lparr>units = total_units ?el, scale = total_scale ?el\<rparr> = Inr t"
    using format_printed(1) [of "\<lparr>units = total_units ?el, scale = total_scale ?el\<rparr>"]
      total_units_zero(1) [OF el(3)] by auto
  ultimately show "\<exists>res. computeSupplierCompetitionV1 inp = Inr res"
    using c ps by (auto simp: computeSupplierCompetitionV1_def provisionalSharesFor_unsorted thrown_def
        split: prod.split)
qed

subsection \<open>Independence of the order of the evidence\<close>

lemma total_scale_Max: "total_scale ps = Max (insert 0 (scale ` po_pooledValue ` set ps))"
proof -
  have "fold max ks 0 = Max (set (0 # ks))" for ks :: "nat list" by (simp only: Max.set_eq_fold)
  then show ?thesis by (simp add: total_scale_def image_image)
qed

lemma total_scale_mset: "mset ps' = mset ps \<Longrightarrow> total_scale ps' = total_scale ps"
  unfolding total_scale_Max by (drule mset_eq_setD) simp

lemma total_units_mset:
  assumes "mset ps' = mset ps"
  shows "total_units ps' = total_units ps"
  unfolding total_units_def foldl_sum total_scale_mset [OF assms] sum_list_mset_eq [OF assms] ..

lemma concentrationFor_mset:
  assumes "mset ps' = mset ps"
  shows "concentrationFor ps' t k = concentrationFor ps t k"
  unfolding concentrationFor_def foldl_sum sum_list_mset_eq [OF assms] ..

lemma qualityWarningsFor_mset:
  assumes "mset ps' = mset ps"
  shows "qualityWarningsFor ps' c a b = qualityWarningsFor ps c a b"
proof -
  have "set ps' = set ps" using assms by (rule mset_eq_setD)
  moreover have "length (remdups ys) = card (set ys)" for ys :: "int list"
    by (simp add: length_remdups_card_conv)
  ultimately show ?thesis by (simp add: qualityWarningsFor_def list_ex_iff)
qed

lemma emap_inj_code:
  assumes "list_all2 (\<lambda>x y. c x = d y) xs ys" "distinct (map c xs)"
  shows "inj_on d (set ys)"
proof -
  have "map c xs = map d ys" using list_all2_map_eq [OF assms(1), of c d] by simp
  with assms(2) have "distinct (map d ys)" by simp
  then show ?thesis by (simp add: distinct_map)
qed

definition distinct_codes :: "economy_identity list \<Rightarrow> bool" where
  "distinct_codes ecs \<longleftrightarrow> list_all (\<lambda>ec. numeric_code (ec_code ec)) ecs \<and> distinct (map (\<lambda>ec. undec (ec_code ec)) ecs)"

lemma sharesFor_mset:
  assumes "sharesFor ps = Inr shares" "mset ps' = mset ps" "list_all pooled_ok ps"
    and "list_all (\<lambda>p. 0 < pooled_worth p) ps" "distinct_codes (map po_economy ps)"
  shows "sharesFor ps' = Inr shares"
proof (cases "total_units ps = 0")
  case True
  with assms(1) show ?thesis by (simp add: sharesFor_def total_units_mset [OF assms(2)])
next
  case False
  let ?f = "shareFor (total_units ps) (total_scale ps)"
  from assms(1) False obtain rows where rows: "emap ?f ps = Inr rows" and srt: "sort_by compareShares rows = Inr shares"
    by (auto simp: sharesFor_def ebind_Inr_iff)
  obtain rows' where rows': "emap ?f ps' = Inr rows'" "mset rows' = mset rows"
    using emap_mset [OF rows assms(2)] by blast
  have R: "list_all2 (share_row (\<Sum>p\<leftarrow>ps. pooled_worth p)) ps rows"
  proof -
    have "\<exists>rows. emap ?f ps = Inr rows \<and> list_all2 (share_row (\<Sum>p\<leftarrow>ps. pooled_worth p)) ps rows"
      using assms(3,4) by (intro emap_total shareFor_row) (auto simp: list_all_iff)
    with rows show ?thesis by auto
  qed
  have same: "list_all2 (\<lambda>p r. undec (ec_code (po_economy p)) = undec (ec_code (ss_economy r))) ps rows"
    using R by (rule list_all2_mono) (simp add: share_row_def)
  have num: "list_all (\<lambda>r. numeric_code (ec_code (ss_economy r))) rows"
    using R assms(5) by (induction rule: list_all2_induct) (auto simp: share_row_def distinct_codes_def)
  have "inj_on (\<lambda>r. undec (ec_code (ss_economy r))) (set rows)"
    using emap_inj_code [OF same] assms(5) by (simp add: distinct_codes_def comp_def)
  then have "inj_on share_key (set rows)" by (auto simp: inj_on_def share_key_def)
  moreover have "list_all (\<lambda>r. printed_share r \<and> numeric_code (ec_code (ss_economy r))) rows"
    using list_all2_right [OF R, of printed_share] num by (auto simp: share_row_def list_all_iff)
  ultimately have "sort_by compareShares rows' = sort_by compareShares rows"
    using rows'(2) by (intro share_order.sort_by_order_independent) simp_all
  with rows' srt False show ?thesis
    by (simp add: sharesFor_def total_units_mset [OF assms(2)] total_scale_mset [OF assms(2)])
qed

lemma evidence_by_code_mset:
  assumes "mset (si_provisionalSuppliers inp') = mset (si_provisionalSuppliers inp)"
    and "distinct (map code_of (si_provisionalSuppliers inp))"
  shows "evidence_by_code inp' = evidence_by_code inp"
proof
  fix c
  have "mset (map code_of (si_provisionalSuppliers inp')) = mset (map code_of (si_provisionalSuppliers inp))"
    using assms(1) by simp
  then have d: "distinct (map code_of (si_provisionalSuppliers inp'))"
    using assms(2) by (metis mset_eq_imp_distinct_iff)
  have "evidence_by_code inp' c = Some e \<longleftrightarrow> evidence_by_code inp c = Some e" for e
    using assms mset_eq_setD [OF assms(1)] by (simp add: evidence_by_code_Some d)
  then show "evidence_by_code inp' c = evidence_by_code inp c"
    by (metis not_None_eq)
qed

lemma provisionalSharesFor_mset:
  assumes "provisionalSharesFor inp ps = Inr rows" "mset ps' = mset ps"
    and "mset (si_provisionalSuppliers inp') = mset (si_provisionalSuppliers inp)"
    and "si_provisionalMarketState inp' = si_provisionalMarketState inp"
    and "distinct (map code_of (si_provisionalSuppliers inp))"
    and "distinct_codes (map po_economy ps @ map pe_economy (new_entrants inp (map (ec_code \<circ> po_economy) ps)))"
  shows "provisionalSharesFor inp' ps' = Inr rows"
proof -
  let ?c = "map (ec_code \<circ> po_economy)"
  obtain us where us: "unsorted_rows inp (map po_economy ps) = Inr us"
    and srt: "sort_by compareProvisionalShares us = Inr rows"
    using assms(1) by (auto simp: provisionalSharesFor_unsorted ebind_Inr_iff)
  have ev: "evidence_by_code inp' = evidence_by_code inp" using assms(3,5) by (rule evidence_by_code_mset)
  have "set ps' = set ps" using assms(2) by (rule mset_eq_setD)
  then have new: "mset (new_entrants inp' (?c ps')) = mset (new_entrants inp (?c ps))"
    using assms(3,4) by (simp add: new_entrants_def)
  from us obtain rs ns where rs: "emap (\<lambda>ec. provisionalRowFor ec (si_provisionalMarketState inp)
        (evidence_by_code inp (ec_code ec))) (map po_economy ps) = Inr rs"
    and ns: "emap (\<lambda>e. provisionalRowFor (pe_economy e) RECORDED (Some e)) (new_entrants inp (?c ps)) = Inr ns"
    and u: "us = rs @ ns"
    by (auto simp: unsorted_rows_def ebind_Inr_iff)
  have "mset (map po_economy ps') = mset (map po_economy ps)" using assms(2) by simp
  from emap_mset [OF rs this] obtain rs' where rs': "emap (\<lambda>ec. provisionalRowFor ec (si_provisionalMarketState inp)
        (evidence_by_code inp (ec_code ec))) (map po_economy ps') = Inr rs'" "mset rs' = mset rs" by blast
  from emap_mset [OF ns new] obtain ns' where
    ns': "emap (\<lambda>e. provisionalRowFor (pe_economy e) RECORDED (Some e)) (new_entrants inp' (?c ps')) = Inr ns'"
    "mset ns' = mset ns" by blast
  have us': "unsorted_rows inp' (map po_economy ps') = Inr (rs' @ ns')"
    using rs'(1) ns'(1) by (simp add: unsorted_rows_def assms(4) ev)
  note f = unsorted_rows_facts [OF us]
  have ecs: "map ps_economy us = map po_economy ps @ map pe_economy (new_entrants inp (?c ps))"
    using f(1) by simp
  then have d: "distinct_codes (map ps_economy us)" using assms(6) by simp
  then have "inj_on (\<lambda>r. undec (ec_code (ps_economy r))) (set us)"
    by (simp add: distinct_codes_def distinct_map comp_def)
  then have "inj_on row_key (set us)" by (auto simp: inj_on_def row_key_def)
  moreover have "list_all (\<lambda>r. printed_row r \<and> numeric_code (ec_code (ps_economy r))) us"
    using f(2) d by (auto simp: distinct_codes_def list_all_iff)
  ultimately have "sort_by compareProvisionalShares (rs' @ ns') = sort_by compareProvisionalShares us"
    using rs'(2) ns'(2) by (intro row_order.sort_by_order_independent) (simp_all add: u)
  with us' srt show ?thesis by (simp add: provisionalSharesFor_unsorted)
qed

subsection \<open>Properties\<close>

definition sample_supplier :: "string \<Rightarrow> string \<Rightarrow> supplier_evidence" where
  "sample_supplier code value =
     \<lparr>sp_economy = sample_economy code code,
      sp_annualObservations =
        [no_flow 2020 MISSING_OBSERVATION, no_flow 2019 NO_RECORDED_POSITIVE_FLOW,
         \<lparr>ob_year = 2022, ob_state = RECORDED_POSITIVE, ob_value = value\<rparr>,
         no_flow 2021 NO_RECORDED_POSITIVE_FLOW,
         \<lparr>ob_year = 2023, ob_state = RECORDED_POSITIVE, ob_value = ''1''\<rparr>],
      sp_sourceFlowCount = 3, sp_quantityPresentCount = 2\<rparr>"

definition sample_provisional :: "provisional_evidence list" where
  "sample_provisional =
     [\<lparr>pe_economy = sample_economy ''170'' ''Colombia'', pe_bilateral = RecordedPositive ''3''\<rparr>]"

definition sample_supplier_inputs :: supplier_inputs where
  "sample_supplier_inputs =
     \<lparr>si_analysisBuildId = ''a1'', si_releaseCatalogSha256 = ''cc'', si_artifact = sample_artifact,
      si_release = sample_release, si_importer = sample_economy ''528'' ''Netherlands'',
      si_product = sample_product, si_suppliers = [sample_supplier ''604'' ''1'', sample_supplier ''484'' ''3.0''],
      si_provisionalMarketState = RECORDED, si_provisionalSuppliers = sample_provisional\<rparr>"

lemmas sample_supplier_defs = sample_supplier_inputs_def sample_supplier_def sample_provisional_def
  sample_release_def sample_artifact_def sample_product_def sample_economy_def no_flow_def

lemma sample_texts: "is_positive_decimal ''1''" "is_positive_decimal ''3''" "is_positive_decimal ''3.0''"
  by code_simp+

lemma sample_text_values: "text_value ''1'' = 1" "text_value ''3.0'' = 3"
  using parse_positive_text_value [OF sample_values(3)] parse_positive_text_value [OF sample_values(1)]
  by (simp_all add: fixed_value_def)

lemma sample_window: "{2019..2023} = {2019, 2020, 2021, 2022, 2023 :: int}"
  by auto

lemma sample_accepted: "accepted_inputs sample_supplier_inputs"
  by (auto simp: accepted_inputs_def sample_supplier_defs valid_supplier_def valid_provisional_def recorded_def
      is_safe_integer_def sample_texts sample_window code_of_def)

lemma sample_supplier_values:
  "map supplier_value (si_suppliers sample_supplier_inputs) = [2, 4]"
  "exporters sample_supplier_inputs = si_suppliers sample_supplier_inputs" "market_value sample_supplier_inputs = 6"
  by (simp_all add: market_value_def exporters_def sample_supplier_defs supplier_value_def observed_value_def
      recorded_def sample_text_values)

text \<open>C20: the recipe accepts exactly the well-formed evidence: one release, an HS12 product, at most 250
  suppliers with distinct economies, each with one observation for each of the five finalized years, positive
  decimals where a value is recorded and consistent counts, and provisional evidence that is unique per
  economy and only present in a recorded market year. On such evidence it never throws.\<close>

theorem supplier_evidence_accepted:
  "(\<exists>res. computeSupplierCompetitionV1 inp = Inr res) \<longleftrightarrow> accepted_inputs inp"
  by (rule compute_accepts)

text \<open>C6: the shares of a result are exact: there is one row for every supplier with a recorded value in the
  window and for no other, its pooled value is the exact sum of the recorded values, its share is the exact
  percentage of the market total rounded to the nearest millionth of a percent with ties upwards, and the
  printed total is the exact sum.\<close>

lemma cohort_size:
  assumes "computeSupplierCompetitionV1 inp = Inr res"
  shows "sr_cohortSize res = length (exporters inp)" "length (sr_supplierShares res) = length (exporters inp)"
proof -
  obtain ps where
    ps: "emap (\<lambda>s. poolSupplier s (fst (finalized_window inp)) (snd (finalized_window inp))) (si_suppliers inp) = Inr ps"
    and shares: "sharesFor (eligible_of ps) = Inr (sr_supplierShares res)"
    and size: "sr_cohortSize res = length (sr_supplierShares res)"
    using assms by (rule computeSupplierCompetition_facts)
  note el = eligible_from [OF ps]
  obtain rows where "list_all2 (share_row (\<Sum>p\<leftarrow>eligible_of ps. pooled_worth p)) (eligible_of ps) rows"
    "mset (sr_supplierShares res) = mset rows"
    using share_rows [OF el(2,3) shares] by metis
  then show "length (sr_supplierShares res) = length (exporters inp)"
    using list_all2_lengthD [OF el(1)] by (metis list_all2_lengthD size_mset)
  with size show "sr_cohortSize res = length (exporters inp)" by simp
qed

theorem supplier_shares_exact:
  assumes "computeSupplierCompetitionV1 inp = Inr res"
  shows "mset (map ss_economy (sr_supplierShares res)) = mset (map sp_economy (exporters inp))
    \<and> sr_cohortSize res = length (exporters inp)
    \<and> text_value (sr_finalizedPooledValueCurrentUsd res) = market_value inp
    \<and> (\<forall>row \<in> set (sr_supplierShares res). \<exists>s \<in> set (exporters inp).
          ss_economy row = sp_economy s \<and> text_value (ss_pooledValueCurrentUsd row) = supplier_value s
          \<and> formatFixedDecimalScale
              \<lparr>units = \<lfloor>100 * supplier_value s / market_value inp * 10 ^ 6 + 1 / 2\<rfloor>, scale = 6\<rparr> 6
            = Inr (ss_sharePercent row))"
proof -
  obtain ps where
    ps: "emap (\<lambda>s. poolSupplier s (fst (finalized_window inp)) (snd (finalized_window inp))) (si_suppliers inp) = Inr ps"
    and shares: "sharesFor (eligible_of ps) = Inr (sr_supplierShares res)"
    and tot: "formatFixedDecimal \<lparr>units = total_units (eligible_of ps), scale = total_scale (eligible_of ps)\<rparr>
       = Inr (sr_finalizedPooledValueCurrentUsd res)"
    and size: "sr_cohortSize res = length (sr_supplierShares res)"
    using assms by (rule computeSupplierCompetition_facts)
  note el = eligible_from [OF ps]
  obtain rows where rows: "list_all2 (share_row (market_value inp)) (eligible_of ps) rows"
    and perm: "mset (sr_supplierShares res) = mset rows"
    using share_rows [OF el(2,3) shares] unfolding el(4) by metis
  have R: "list_all2 (\<lambda>s row. ss_economy row = sp_economy s \<and> text_value (ss_pooledValueCurrentUsd row) = supplier_value s
      \<and> formatFixedDecimalScale \<lparr>units = percent_units (supplier_value s) (market_value inp), scale = 6\<rparr> 6
        = Inr (ss_sharePercent row)) (exporters inp) rows"
    using list_all2_trans [OF _ el(1) rows] by (auto simp: pooled_from_def share_row_def)
  have "map sp_economy (exporters inp) = map ss_economy rows"
    using list_all2_map_eq [OF R, of sp_economy ss_economy] by simp
  then have "mset (map ss_economy (sr_supplierShares res)) = mset (map sp_economy (exporters inp))"
    using perm by simp
  moreover from this have "length (sr_supplierShares res) = length (exporters inp)"
    by (metis length_map size_mset)
  moreover have "text_value (sr_finalizedPooledValueCurrentUsd res) = market_value inp"
    using tot format_printed(1) [of "\<lparr>units = total_units (eligible_of ps), scale = total_scale (eligible_of ps)\<rparr>"]
      total_units_zero(1) [OF el(3)] total_units_value [of "eligible_of ps"] el(4)
    by (auto simp: fixed_value_def)
  moreover have "set (sr_supplierShares res) = set rows" using perm by (rule mset_eq_setD)
  then have "\<forall>row \<in> set (sr_supplierShares res). \<exists>s \<in> set (exporters inp).
      ss_economy row = sp_economy s \<and> text_value (ss_pooledValueCurrentUsd row) = supplier_value s
      \<and> formatFixedDecimalScale \<lparr>units = percent_units (supplier_value s) (market_value inp), scale = 6\<rparr> 6
        = Inr (ss_sharePercent row)"
    using list_all2_right_source [OF R] by simp
  ultimately show ?thesis using size by (simp add: percent_units_def)
qed

theorem supplier_shares_exact_witness:
  "\<exists>res. computeSupplierCompetitionV1 sample_supplier_inputs = Inr res \<and> sr_cohortSize res = 2
    \<and> text_value (sr_finalizedPooledValueCurrentUsd res) = 6"
  using compute_accepts [of sample_supplier_inputs] sample_accepted
    supplier_shares_exact [of sample_supplier_inputs] sample_supplier_values
  by (auto simp: sample_supplier_inputs_def)

lemma exporters_positive: "list_all (\<lambda>v. 0 < v) (map supplier_value (exporters inp))"
  by (auto simp: exporters_def list_all_iff)

text \<open>The concentration of a result is the exact Herfindahl-Hirschman index of the suppliers' shares on
  the scale of 10000, rounded to six digits with ties upwards; it lies between 10000 divided by the number of
  suppliers and 10000, and it is unavailable exactly when there is no supplier.\<close>

theorem supplier_concentration_bounds:
  assumes "computeSupplierCompetitionV1 inp = Inr res"
  shows "case sr_concentration res of
      ConcentrationUnavailable \<Rightarrow> exporters inp = []
    | Computed index k \<Rightarrow>
        exporters inp \<noteq> [] \<and> k = 10000
        \<and> formatFixedDecimalScale
            \<lparr>units = \<lfloor>10000 * (\<Sum>s\<leftarrow>exporters inp. (supplier_value s / market_value inp)\<^sup>2) * 10 ^ 6 + 1 / 2\<rfloor>,
             scale = 6\<rparr> 6 = Inr index
        \<and> 10000 / of_nat (sr_cohortSize res) - 1 / (2 * 10 ^ 6) < text_value index
        \<and> text_value index \<le> 10000"
proof -
  obtain ps where
    ps: "emap (\<lambda>s. poolSupplier s (fst (finalized_window inp)) (snd (finalized_window inp))) (si_suppliers inp) = Inr ps"
    and c: "concentrationFor (eligible_of ps) (total_units (eligible_of ps)) (total_scale (eligible_of ps))
       = Inr (sr_concentration res)"
    using assms by (rule computeSupplierCompetition_facts)
  note el = eligible_from [OF ps]
  have vs: "map pooled_worth (eligible_of ps) = map supplier_value (exporters inp)"
    using list_all2_map_eq [OF el(1), of supplier_value pooled_worth] by (simp add: pooled_from_def)
  then have len: "length (eligible_of ps) = length (exporters inp)" by (metis length_map)
  have n: "sr_cohortSize res = length (map supplier_value (exporters inp))"
    using cohort_size [OF assms] by simp
  have "hhi_units (map supplier_value (exporters inp)) =
      \<lfloor>10000 * (\<Sum>s\<leftarrow>exporters inp. (supplier_value s / market_value inp)\<^sup>2) * 10 ^ 6 + 1 / 2\<rfloor>"
    by (simp add: hhi_units_def market_value_def comp_def)
  note index = this
  have v: "case sr_concentration res of ConcentrationUnavailable \<Rightarrow> eligible_of ps = []
     | Computed t k \<Rightarrow> eligible_of ps \<noteq> [] \<and> k = 10000 \<and>
         formatFixedDecimalScale \<lparr>units = hhi_units (map supplier_value (exporters inp)), scale = 6\<rparr> 6 = Inr t \<and>
         text_value t = of_int (hhi_units (map supplier_value (exporters inp))) / 10 ^ 6"
    using concentrationFor_value [OF el(3)] c unfolding vs by simp
  show ?thesis
  proof (cases "sr_concentration res")
    case ConcentrationUnavailable
    with v len show ?thesis by simp
  next
    case (Computed t k)
    with v len have ne: "exporters inp \<noteq> []" by auto
    then have "map supplier_value (exporters inp) \<noteq> []" by simp
    note b = hhi_units_bounds [OF exporters_positive this, folded n]
    from v Computed have t: "k = 10000" "text_value t = of_int (hhi_units (map supplier_value (exporters inp))) / 10 ^ 6"
      "formatFixedDecimalScale \<lparr>units = hhi_units (map supplier_value (exporters inp)), scale = 6\<rparr> 6 = Inr t"
      by auto
    have "text_value t \<le> 10000" "10000 / of_nat (sr_cohortSize res) - 1 / (2 * 10 ^ 6) < text_value t"
      using b unfolding t(2) by auto
    with t(1,3) ne Computed show ?thesis unfolding index by simp
  qed
qed

theorem supplier_concentration_bounds_witness:
  "\<exists>res index k. computeSupplierCompetitionV1 sample_supplier_inputs = Inr res
    \<and> sr_concentration res = Computed index k \<and> text_value index \<le> 10000"
proof -
  obtain res where res: "computeSupplierCompetitionV1 sample_supplier_inputs = Inr res"
    using compute_accepts sample_accepted by blast
  from supplier_concentration_bounds [OF res] show ?thesis
    unfolding sample_supplier_values(2) using res
    by (cases "sr_concentration res") (auto simp: sample_supplier_inputs_def)
qed

text \<open>The printed shares of the suppliers add up to one hundred percent, up to half a millionth of a
  percent for each supplier.\<close>

theorem supplier_shares_add_up:
  assumes "computeSupplierCompetitionV1 inp = Inr res" "sr_supplierShares res \<noteq> []"
  shows "\<bar>(\<Sum>row\<leftarrow>sr_supplierShares res. text_value (ss_sharePercent row)) - 100\<bar>
    \<le> of_nat (sr_cohortSize res) / (2 * 10 ^ 6)"
proof -
  obtain ps where
    ps: "emap (\<lambda>s. poolSupplier s (fst (finalized_window inp)) (snd (finalized_window inp))) (si_suppliers inp) = Inr ps"
    and shares: "sharesFor (eligible_of ps) = Inr (sr_supplierShares res)"
    and size: "sr_cohortSize res = length (sr_supplierShares res)"
    using assms(1) by (rule computeSupplierCompetition_facts)
  note el = eligible_from [OF ps]
  let ?vs = "map pooled_worth (eligible_of ps)"
  obtain rows where rows: "list_all2 (share_row (sum_list ?vs)) (eligible_of ps) rows"
    and perm: "mset (sr_supplierShares res) = mset rows"
    using share_rows [OF el(2,3) shares] by metis
  have "map (\<lambda>v. of_int (percent_units v (sum_list ?vs)) / 10 ^ 6) ?vs = map (\<lambda>r. text_value (ss_sharePercent r)) rows"
    unfolding map_map by (rule list_all2_map_eq [OF rows]) (simp add: share_row_def)
  then have sum: "(\<Sum>row\<leftarrow>sr_supplierShares res. text_value (ss_sharePercent row))
      = (\<Sum>v\<leftarrow>?vs. of_int (percent_units v (sum_list ?vs)) / 10 ^ 6)"
    using sum_list_mset_eq [OF perm] by metis
  have l: "length (sr_supplierShares res) = length ?vs"
    using rows perm by (metis length_map list_all2_lengthD size_mset)
  with assms(2) have ne: "?vs \<noteq> []" by (cases ?vs) auto
  have pos: "list_all (\<lambda>v. 0 < v) ?vs" using el(3) by (simp add: list_all_iff)
  show ?thesis using shares_add_up [OF pos ne] unfolding sum size l .
qed

theorem supplier_shares_add_up_witness:
  "\<exists>res. computeSupplierCompetitionV1 sample_supplier_inputs = Inr res
    \<and> \<bar>(\<Sum>row\<leftarrow>sr_supplierShares res. text_value (ss_sharePercent row)) - 100\<bar> \<le> 1 / 10 ^ 6"
proof -
  obtain res where res: "computeSupplierCompetitionV1 sample_supplier_inputs = Inr res"
    using compute_accepts sample_accepted by blast
  have n: "sr_cohortSize res = 2" "sr_supplierShares res \<noteq> []"
    using cohort_size [OF res] unfolding sample_supplier_values(2) by (auto simp: sample_supplier_inputs_def)
  from supplier_shares_add_up [OF res n(2)] res show ?thesis by (auto simp: n(1))
qed

definition evidence_codes :: "supplier_inputs \<Rightarrow> string set" where
  "evidence_codes inp = (\<lambda>s. ec_code (sp_economy s)) ` set (si_suppliers inp) \<union> code_of ` set (si_provisionalSuppliers inp)"

definition numbered_codes :: "supplier_inputs \<Rightarrow> bool" where
  "numbered_codes inp \<longleftrightarrow> (\<forall>c \<in> evidence_codes inp. numeric_code c) \<and> inj_on undec (evidence_codes inp)"

lemma distinct_codes_of_inj:
  assumes "distinct (map ec_code ecs)" "ec_code ` set ecs \<subseteq> C" "\<forall>c \<in> C. numeric_code c" "inj_on undec C"
  shows "distinct_codes ecs"
proof -
  have "inj_on undec (set (map ec_code ecs))" using assms(2,4) by (auto intro: inj_on_subset)
  then have "distinct (map undec (map ec_code ecs))" using assms(1) unfolding distinct_map by blast
  then show ?thesis using assms(2,3) by (auto simp: distinct_codes_def list_all_iff comp_def)
qed

lemma numbered_codes_distinct:
  assumes "numbered_codes inp" "check_inputs inp = Inr ()"
    and "emap (\<lambda>s. poolSupplier s a b) (si_suppliers inp) = Inr ps"
  shows "distinct_codes (map po_economy (eligible_of ps) @
      map pe_economy (new_entrants inp (map (ec_code \<circ> po_economy) (eligible_of ps))))"
proof (rule distinct_codes_of_inj [where C = "evidence_codes inp"])
  let ?el = "map (ec_code \<circ> po_economy) (eligible_of ps)"
  have el: "?el = map (\<lambda>s. ec_code (sp_economy s)) (exporters inp)"
    using eligible_from(5) [OF assms(3)] by (simp add: comp_def)
  have dist: "distinct (map (\<lambda>s. ec_code (sp_economy s)) (si_suppliers inp))"
    "distinct (map code_of (si_provisionalSuppliers inp))"
    using assms(2) by (simp_all add: check_inputs_iff)
  have c: "map ec_code (map pe_economy (new_entrants inp ?el)) = map code_of (new_entrants inp ?el)"
    by (simp add: code_of_def)
  have "distinct ?el" unfolding el exporters_def using dist(1) by (rule distinct_map_filter)
  moreover have "distinct (map code_of (new_entrants inp ?el))"
    using dist(2) by (simp add: new_entrants_def distinct_map_filter)
  moreover have "set ?el \<inter> code_of ` set (new_entrants inp ?el) = {}" by (force simp: new_entrants_def)
  ultimately show "distinct (map ec_code (map po_economy (eligible_of ps) @ map pe_economy (new_entrants inp ?el)))"
    unfolding map_append c by simp
  have "set ?el \<subseteq> evidence_codes inp" unfolding el by (auto simp: exporters_def evidence_codes_def)
  moreover have "code_of ` set (new_entrants inp ?el) \<subseteq> evidence_codes inp"
    by (auto simp: new_entrants_def evidence_codes_def)
  ultimately show "ec_code ` set (map po_economy (eligible_of ps) @ map pe_economy (new_entrants inp ?el))
      \<subseteq> evidence_codes inp"
    by (auto simp: code_of_def)
qed (use assms(1) in \<open>auto simp: numbered_codes_def\<close>)

lemma shares_sorted:
  assumes "list_all pooled_ok ps" "list_all (\<lambda>p. 0 < pooled_worth p) ps" "sharesFor ps = Inr shares"
    and "distinct_codes (map po_economy ps)"
  shows "sorted (map share_key shares)"
proof -
  obtain rows where R: "list_all2 (share_row (\<Sum>p\<leftarrow>ps. pooled_worth p)) ps rows"
    and srt: "sort_by compareShares rows = Inr shares"
    using share_rows [OF assms(1-3)] by metis
  have "list_all (\<lambda>r. numeric_code (ec_code (ss_economy r))) rows"
    using R assms(4) by (induction rule: list_all2_induct) (auto simp: share_row_def distinct_codes_def)
  then have "list_all (\<lambda>r. printed_share r \<and> numeric_code (ec_code (ss_economy r))) rows"
    using list_all2_right [OF R, of printed_share] by (auto simp: share_row_def list_all_iff)
  then show ?thesis using srt by (rule share_order.sort_by_sorted)
qed

lemma check_inputs_mset:
  assumes "mset suppliers = mset (si_suppliers inp)" "mset provisional = mset (si_provisionalSuppliers inp)"
  shows "check_inputs (inp\<lparr>si_suppliers := suppliers, si_provisionalSuppliers := provisional\<rparr>) = Inr ()
    \<longleftrightarrow> check_inputs inp = Inr ()"
proof -
  have d: "distinct (map f xs) \<longleftrightarrow> distinct (map f ys)" if "mset xs = mset ys" for f :: "'x \<Rightarrow> string" and xs ys
    using that by (metis mset_eq_imp_distinct_iff mset_map)
  have "length suppliers = length (si_suppliers inp)" using assms(1) by (metis size_mset)
  moreover have "provisional = [] \<longleftrightarrow> si_provisionalSuppliers inp = []" using assms(2) by auto
  ultimately show ?thesis
    by (simp add: check_inputs_iff d [OF assms(1)] mset_eq_imp_distinct_iff
        [of "map code_of provisional" "map code_of (si_provisionalSuppliers inp)"] assms(2))
qed

text \<open>C28: when the economy codes are distinct numbers, the shares are sorted by share, then pooled value, both
  descending, then by code, and neither the order of the suppliers nor that of the provisional evidence changes
  any part of the result.\<close>

theorem supplier_order_independent:
  assumes "computeSupplierCompetitionV1 inp = Inr res"
    and "mset suppliers = mset (si_suppliers inp)" "mset provisional = mset (si_provisionalSuppliers inp)"
    and "numbered_codes inp"
  shows "sorted (map share_key (sr_supplierShares res))
    \<and> computeSupplierCompetitionV1 (inp\<lparr>si_suppliers := suppliers, si_provisionalSuppliers := provisional\<rparr>) = Inr res"
proof
  let ?inp = "inp\<lparr>si_suppliers := suppliers, si_provisionalSuppliers := provisional\<rparr>"
  let ?w = "finalized_window inp"
  obtain ps where c: "check_inputs inp = Inr ()"
    and ps: "emap (\<lambda>s. poolSupplier s (fst ?w) (snd ?w)) (si_suppliers inp) = Inr ps"
    and shares: "sharesFor (eligible_of ps) = Inr (sr_supplierShares res)"
    and conc: "concentrationFor (eligible_of ps) (total_units (eligible_of ps)) (total_scale (eligible_of ps))
       = Inr (sr_concentration res)"
    and prov: "provisionalSharesFor inp (eligible_of ps) = Inr (sr_provisionalSupplierShares res)"
    using assms(1) by (rule computeSupplierCompetition_facts)
  note el = eligible_from [OF ps]
  have codes: "distinct_codes (map po_economy (eligible_of ps) @
      map pe_economy (new_entrants inp (map (ec_code \<circ> po_economy) (eligible_of ps))))"
    using numbered_codes_distinct [OF assms(4) c ps] .
  then have own: "distinct_codes (map po_economy (eligible_of ps))" by (simp add: distinct_codes_def)
  show "sorted (map share_key (sr_supplierShares res))"
    using shares_sorted [OF el(2,3) shares own] .
  obtain ps' where ps': "emap (\<lambda>s. poolSupplier s (fst ?w) (snd ?w)) suppliers = Inr ps'" "mset ps' = mset ps"
    using emap_mset [OF ps assms(2)] by blast
  then have m: "mset (eligible_of ps') = mset (eligible_of ps)" by (simp add: eligible_of_def)
  have "distinct (map code_of (si_provisionalSuppliers inp))" using c by (simp add: check_inputs_iff)
  then have "provisionalSharesFor ?inp (eligible_of ps') = Inr (sr_provisionalSupplierShares res)"
    using assms(3) by (intro provisionalSharesFor_mset [OF prov m _ _ _ codes]) simp_all
  moreover have "check_inputs ?inp = Inr ()"
    using c check_inputs_mset [OF assms(2,3)] by simp
  ultimately show "computeSupplierCompetitionV1 ?inp = Inr res"
    using assms(1) c ps ps' shares conc prov sharesFor_mset [OF shares m el(2,3) own]
    by (simp add: computeSupplierCompetitionV1_def thrown_def finalized_window_def Let_def
        total_units_mset [OF m] total_scale_mset [OF m] concentrationFor_mset [OF m]
        qualityWarningsFor_mset [OF m])
qed

theorem supplier_order_independent_witness:
  "\<exists>res. computeSupplierCompetitionV1 (sample_supplier_inputs\<lparr>si_suppliers :=
       rev (si_suppliers sample_supplier_inputs), si_provisionalSuppliers := sample_provisional\<rparr>) = Inr res
     \<and> sorted (map share_key (sr_supplierShares res))"
proof -
  obtain res where res: "computeSupplierCompetitionV1 sample_supplier_inputs = Inr res"
    using compute_accepts sample_accepted by blast
  have "numeric_code ''604''" "numeric_code ''484''" "numeric_code ''170''"
    "undec ''604'' = 604" "undec ''484'' = 484" "undec ''170'' = 170" by code_simp+
  then have "numbered_codes sample_supplier_inputs"
    by (auto simp: numbered_codes_def evidence_codes_def sample_supplier_defs code_of_def inj_on_def)
  from supplier_order_independent [OF res, of "rev (si_suppliers sample_supplier_inputs)" sample_provisional, OF _ _ this]
  show ?thesis by (auto simp: sample_supplier_inputs_def [THEN arg_cong [where f = si_provisionalSuppliers]])
qed

text \<open>C29: the provisional year never feeds back: replacing the provisional evidence changes nothing of a
  result but its provisional part, which has exactly one row for each finalized supplier and, in a recorded
  market year, one for each economy that is not among them.\<close>

theorem provisional_never_feeds_back:
  assumes "computeSupplierCompetitionV1 inp = Inr res"
    and "computeSupplierCompetitionV1 (inp\<lparr>si_provisionalMarketState := m, si_provisionalSuppliers := es\<rparr>) = Inr res'"
  shows "res' = res\<lparr>sr_provisionalMarketState := m, sr_provisionalSupplierShares := sr_provisionalSupplierShares res'\<rparr>
    \<and> mset (map ps_economy (sr_provisionalSupplierShares res')) = mset (map sp_economy (exporters inp)) +
        mset (map pe_economy (if m \<noteq> RECORDED then []
          else filter (\<lambda>e. code_of e \<notin> (\<lambda>s. ec_code (sp_economy s)) ` set (exporters inp)) es))"
proof
  let ?inp = "inp\<lparr>si_provisionalMarketState := m, si_provisionalSuppliers := es\<rparr>"
  have w: "finalized_window ?inp = finalized_window inp" by (simp add: finalized_window_def)
  show "res' = res\<lparr>sr_provisionalMarketState := m, sr_provisionalSupplierShares := sr_provisionalSupplierShares res'\<rparr>"
    using assms unfolding computeSupplierCompetitionV1_def w
    by (auto simp: ebind_Inr_iff thrown_Inr_iff Let_def split: prod.splits)
  obtain ps where
    ps: "emap (\<lambda>s. poolSupplier s (fst (finalized_window ?inp)) (snd (finalized_window ?inp))) (si_suppliers ?inp) = Inr ps"
    and prov: "provisionalSharesFor ?inp (eligible_of ps) = Inr (sr_provisionalSupplierShares res')"
    using assms(2) by (rule computeSupplierCompetition_facts)
  obtain rows where rows: "unsorted_rows ?inp (map po_economy (eligible_of ps)) = Inr rows"
    and srt: "sort_by compareProvisionalShares rows = Inr (sr_provisionalSupplierShares res')"
    using prov by (auto simp: provisionalSharesFor_unsorted ebind_Inr_iff)
  have ex: "exporters ?inp = exporters inp" by (simp add: exporters_def)
  have e: "map po_economy (eligible_of ps) = map sp_economy (exporters inp)"
    using list_all2_map_eq [OF eligible_from(1) [OF ps], of sp_economy po_economy] by (simp add: pooled_from_def ex)
  have "map ps_economy rows = map sp_economy (exporters inp)
      @ map pe_economy (new_entrants ?inp (map ec_code (map sp_economy (exporters inp))))"
    using unsorted_rows_facts(1) [OF rows] unfolding e .
  moreover have "mset (map ps_economy (sr_provisionalSupplierShares res')) = mset (map ps_economy rows)"
    using sort_by_mset [OF srt] by simp
  ultimately show "mset (map ps_economy (sr_provisionalSupplierShares res')) = mset (map sp_economy (exporters inp)) +
      mset (map pe_economy (if m \<noteq> RECORDED then []
        else filter (\<lambda>e. code_of e \<notin> (\<lambda>s. ec_code (sp_economy s)) ` set (exporters inp)) es))"
    by (simp add: new_entrants_def image_image)
qed

theorem provisional_never_feeds_back_witness:
  "\<exists>res res'. computeSupplierCompetitionV1 sample_supplier_inputs = Inr res
    \<and> computeSupplierCompetitionV1 (sample_supplier_inputs\<lparr>si_provisionalMarketState := MARKET_MISSING_OBSERVATION,
        si_provisionalSuppliers := []\<rparr>) = Inr res'
    \<and> sr_supplierShares res' = sr_supplierShares res"
proof -
  let ?inp = "sample_supplier_inputs\<lparr>si_provisionalMarketState := MARKET_MISSING_OBSERVATION, si_provisionalSuppliers := []\<rparr>"
  have "accepted_inputs ?inp" using sample_accepted by (simp add: accepted_inputs_def)
  then obtain res res' where res: "computeSupplierCompetitionV1 sample_supplier_inputs = Inr res"
    and res': "computeSupplierCompetitionV1 ?inp = Inr res'"
    using compute_accepts sample_accepted by blast
  from arg_cong [where f = sr_supplierShares, OF conjunct1 [OF provisional_never_feeds_back [OF res res']]]
  have "sr_supplierShares res' = sr_supplierShares res" by simp
  with res res' show ?thesis by blast
qed

end
