(* ===== verification/Js_Math.thy ===== *)
theory Js_Math
  imports Js_Sort
begin

text \<open>
  The rest of the arithmetic of the recipes that compute with numbers: addition, \<^verbatim>\<open>Math.floor\<close>,
  \<^verbatim>\<open>Math.min\<close>, \<^verbatim>\<open>Math.max\<close>, strict equality, the operator \<^verbatim>\<open>||\<close> of the comparators, and the printing of a
  number by \<^verbatim>\<open>String\<close> and \<^verbatim>\<open>toFixed\<close>. \<^verbatim>\<open>Math.log\<close>, \<^verbatim>\<open>Math.exp\<close> and \<^verbatim>\<open>Math.sqrt\<close> are approximations that the
  standard leaves to the implementation, so they are a parameter of the model. The lemmas say that rounding
  keeps integer bounds and that the difference of two doubles has the sign of the exact difference.
\<close>

record math_library =
  math_log :: "js_number \<Rightarrow> js_number"
  math_exp :: "js_number \<Rightarrow> js_number"
  math_sqrt :: "js_number \<Rightarrow> js_number"

fun js_plus :: "js_number \<Rightarrow> js_number \<Rightarrow> js_number" where
  "js_plus (Finite x) (Finite y) = to_number (x + y)"
| "js_plus (Infinite s) (Finite y) = Infinite s"
| "js_plus (Finite x) (Infinite s) = Infinite s"
| "js_plus (Infinite s) (Infinite t) = (if s = t then Infinite s else NaN)"
| "js_plus _ _ = NaN"

fun js_floor :: "js_number \<Rightarrow> js_number" where
  "js_floor (Finite x) = Finite (of_int \<lfloor>x\<rfloor>)"
| "js_floor n = n"

definition js_min :: "js_number \<Rightarrow> js_number \<Rightarrow> js_number" where
  "js_min a b = (if a = NaN \<or> b = NaN then NaN else if js_less b a then b else a)"

definition js_max :: "js_number \<Rightarrow> js_number \<Rightarrow> js_number" where
  "js_max a b = (if a = NaN \<or> b = NaN then NaN else if js_less a b then b else a)"

definition js_equal :: "js_number \<Rightarrow> js_number \<Rightarrow> bool" where
  "js_equal a b \<longleftrightarrow> a \<noteq> NaN \<and> a = b"

definition js_or :: "js_number \<Rightarrow> js_number \<Rightarrow> js_number" where
  "js_or a b = (if a = NaN \<or> a = Finite 0 then b else a)"

definition js_int :: "int \<Rightarrow> js_number" where
  "js_int n = to_number (of_int n)"

definition js_is_finite :: "js_number \<Rightarrow> bool" where
  "js_is_finite a = (case a of Finite x \<Rightarrow> True | _ \<Rightarrow> False)"

definition js_is_integer :: "js_number \<Rightarrow> bool" where
  "js_is_integer a = (case a of Finite x \<Rightarrow> x = of_int \<lfloor>x\<rfloor> | _ \<Rightarrow> False)"

text \<open>\<^verbatim>\<open>localeCompare\<close>, which the host's collation decides.\<close>

type_synonym collation = "string \<Rightarrow> string \<Rightarrow> js_number"

text \<open>A sort with a comparator that does not throw.\<close>

definition js_sort :: "('a \<Rightarrow> 'a \<Rightarrow> js_number) \<Rightarrow> 'a list \<Rightarrow> 'a list" where
  "js_sort cmp xs = projr (sort_by (\<lambda>x y. Inr (cmp x y) :: unit + js_number) xs)"

subsection \<open>Printing\<close>

text \<open>The shortest digits: the least number \<^theory_text>\<open>k\<close> of digits such that some \<^theory_text>\<open>k\<close>-digit decimal rounds to
  the number, and of those the closest one. \<^theory_text>\<open>decimal_exponent\<close> is the \<^theory_text>\<open>e\<close> with \<^theory_text>\<open>10 ^ (e - 1) \<le> x < 10 ^ e\<close>.\<close>

definition decimal_exponent :: "rat \<Rightarrow> int" where
  "decimal_exponent x =
     (if 1 \<le> x then int (length (dec (nat \<lfloor>x\<rfloor>))) else 1 - int (length (dec (nat (\<lceil>1 / x\<rceil> - 1)))))"

definition digits_at :: "rat \<Rightarrow> nat \<Rightarrow> (int \<times> int) option" where
  "digits_at x k =
     (let p = decimal_exponent x - int k; low = \<lfloor>x / pow10 p\<rfloor>; high = low + 1;
          fits = (\<lambda>s. nearest_double (of_int s * pow10 p) = x);
          closer = (if x - of_int low * pow10 p \<le> of_int high * pow10 p - x then [low, high] else [high, low])
      in map_option (\<lambda>s. if s = 10 ^ k then (10 ^ (k - 1), p + 1) else (s, p)) (find fits closer))"

definition shortest_digits :: "rat \<Rightarrow> int \<times> int" where
  "shortest_digits x = hd (List.map_filter (digits_at x) [1..<18])"

definition unsigned_to_string :: "rat \<Rightarrow> string" where
  "unsigned_to_string x =
     (let (s, p) = shortest_digits x; ds = dec (nat s); k = int (length ds); n = k + p
      in if k \<le> n \<and> n \<le> 21 then ds @ replicate (nat (n - k)) CHR ''0''
         else if 0 < n \<and> n \<le> 21 then take (nat n) ds @ ''.'' @ drop (nat n) ds
         else if - 6 < n \<and> n \<le> 0 then ''0.'' @ replicate (nat (- n)) CHR ''0'' @ ds
         else let e = n - 1; mark = (if e < 0 then ''e-'' else ''e+'') @ dec (nat \<bar>e\<bar>)
              in if k = 1 then ds @ mark else take 1 ds @ ''.'' @ drop 1 ds @ mark)"

fun js_to_string :: "js_number \<Rightarrow> string" where
  "js_to_string NaN = ''NaN''"
| "js_to_string (Infinite s) = (if s then ''-Infinity'' else ''Infinity'')"
| "js_to_string (Finite x) =
     (if x = 0 then ''0'' else if x < 0 then ''-'' @ unsigned_to_string (- x) else unsigned_to_string x)"

definition js_to_fixed :: "nat \<Rightarrow> js_number \<Rightarrow> string" where
  "js_to_fixed d a =
     (case a of Finite x \<Rightarrow> if 10 ^ 21 \<le> \<bar>x\<bar> then js_to_string a else to_fixed d a | _ \<Rightarrow> js_to_string a)"

subsection \<open>Rounding keeps integer bounds\<close>

lemma nearest_double_between:
  assumes "0 \<le> a" "of_int a \<le> x" "x \<le> of_int b" "b \<le> 2 ^ 53"
  shows "of_int a \<le> nearest_double x" "nearest_double x \<le> of_int b"
proof -
  have "(of_int a :: rat) \<le> of_int b" using assms(2,3) by linarith
  then have ab: "a \<le> b" by simp
  show "of_int a \<le> nearest_double x"
    using nearest_double_mono [OF assms(2)] nearest_double_int [of a] assms(1,4) ab by simp
  show "nearest_double x \<le> of_int b"
    using nearest_double_mono [OF assms(3)] nearest_double_int [of b] assms(1,4) ab by simp
qed

lemma to_number_between:
  assumes "of_int a \<le> x" "x \<le> of_int b" "- (2 ^ 53) \<le> a" "b \<le> 2 ^ 53"
  obtains y where "to_number x = Finite y" "of_int a \<le> y" "y \<le> of_int b"
proof -
  let ?m = "nearest_double \<bar>x\<bar>"
  define c where "c = max \<bar>a\<bar> \<bar>b\<bar>"
  have c: "c \<le> 2 ^ 53" using assms(3,4) order_trans [OF assms(1,2)] by (auto simp: c_def)
  have "\<bar>x\<bar> \<le> of_int c" using assms(1,2) by (auto simp: c_def abs_le_iff max_def)
  then have "?m \<le> of_int c" using nearest_double_between(2) [of 0 "\<bar>x\<bar>" c] c by simp
  also have "\<dots> \<le> of_int (2 ^ 53)" using c by (simp only: of_int_le_iff)
  also have "\<dots> < pow2 1024" using pow2_less_iff [of 53 1024] by (simp add: pow2_def)
  finally have f: "to_number x = Finite (if x < 0 then - ?m else ?m)"
    by (simp add: to_number_def Let_def)
  show thesis
  proof (cases "x < 0")
    case True
    have "of_int (max 0 (- b)) \<le> \<bar>x\<bar>" "\<bar>x\<bar> \<le> of_int (- a)" using assms(1,2) True by (auto simp: max_def)
    from nearest_double_between [OF _ this] assms(3)
    have "of_int (max 0 (- b)) \<le> ?m" "?m \<le> of_int (- a)" by auto
    moreover have "(of_int (- b) :: rat) \<le> of_int (max 0 (- b))" by (simp only: of_int_le_iff)
    ultimately show thesis using that f True by simp
  next
    case False
    have "of_int (max 0 a) \<le> \<bar>x\<bar>" "\<bar>x\<bar> \<le> of_int b" using assms(1,2) False by (auto simp: max_def)
    from nearest_double_between [OF _ this] assms(4)
    have "of_int (max 0 a) \<le> ?m" "?m \<le> of_int b" by auto
    moreover have "(of_int a :: rat) \<le> of_int (max 0 a)" by (simp only: of_int_le_iff)
    ultimately show thesis using that f False by simp
  qed
qed

lemma js_int_small: "\<bar>n\<bar> \<le> 2 ^ 53 \<Longrightarrow> js_int n = Finite (of_int n)"
  by (simp add: js_int_def to_number_int)

subsection \<open>Differences of doubles\<close>

definition is_double :: "js_number \<Rightarrow> bool" where
  "is_double a = (case a of Finite x \<Rightarrow> x / pow2 (- 1074) = of_int \<lfloor>x / pow2 (- 1074)\<rfloor> | _ \<Rightarrow> True)"

lemma is_double_multiple: "is_double (Finite (of_int n * pow2 (- 1074)))"
  by (simp add: is_double_def)

lemma nearest_double_multiple: "\<exists>n. nearest_double x = of_int n * pow2 (- 1074)"
proof (cases "0 < x")
  case True
  have "- 1074 \<le> spacing x" by (simp add: spacing_def)
  then have "pow2 (spacing x) = of_int (2 ^ nat (spacing x + 1074)) * pow2 (- 1074)"
    using pow2_add [of "spacing x + 1074" "- 1074"] by (simp add: pow2_is_int)
  then have "nearest_double x = of_int (round_even (x / pow2 (spacing x)) * 2 ^ nat (spacing x + 1074)) * pow2 (- 1074)"
    using True by (simp add: nearest_double_def)
  then show ?thesis ..
next
  case False
  then have "nearest_double x = of_int 0 * pow2 (- 1074)" by (simp add: nearest_double_def)
  then show ?thesis ..
qed

lemma is_double_to_number: "is_double (to_number x)"
proof -
  obtain n where n: "nearest_double \<bar>x\<bar> = of_int n * pow2 (- 1074)" using nearest_double_multiple by blast
  have "is_double (Finite (of_int n * pow2 (- 1074)))" "is_double (Finite (of_int (- n) * pow2 (- 1074)))"
    by (rule is_double_multiple)+
  moreover have "is_double (Infinite s)" for s by (simp add: is_double_def)
  ultimately show ?thesis unfolding to_number_def n Let_def by simp
qed

lemma nearest_double_pos: "pow2 (- 1074) \<le> x \<Longrightarrow> 0 < nearest_double x"
proof -
  assume x: "pow2 (- 1074) \<le> x"
  have "binade (pow2 (- 1074)) = - 1074"
    by (rule binade_unique) (simp_all add: pow2_less_iff)
  then have "pow2 (- 1074) \<le> nearest_double (pow2 (- 1074))"
    by (intro nearest_ge_pow2) (simp_all add: spacing_def)
  also have "\<dots> \<le> nearest_double x" using x by (rule nearest_double_mono)
  finally show ?thesis using pow2_pos [of "- 1074"] by linarith
qed

lemma js_minus_sign:
  assumes "is_double (Finite x)" "is_double (Finite y)"
  shows "js_less (Finite 0) (js_minus (Finite x) (Finite y)) \<longleftrightarrow> y < x"
    "js_minus (Finite x) (Finite y) = Finite 0 \<longleftrightarrow> x = y" "js_minus (Finite x) (Finite y) \<noteq> NaN"
proof -
  obtain m n where "x / pow2 (- 1074) = of_int m" "y / pow2 (- 1074) = of_int n"
    using assms by (auto simp: is_double_def)
  then have xy: "x = of_int m * pow2 (- 1074)" "y = of_int n * pow2 (- 1074)"
    by (metis nonzero_divide_eq_eq pow2_nonzero)+
  have big: "pow2 (- 1074) \<le> \<bar>x - y\<bar>" if "x \<noteq> y"
  proof -
    have "\<bar>x - y\<bar> = of_int \<bar>m - n\<bar> * pow2 (- 1074)"
      by (simp add: xy abs_mult flip: left_diff_distrib)
    moreover have "(1::rat) \<le> of_int \<bar>m - n\<bar>" using that xy by (simp only: of_int_1_le_iff) auto
    ultimately show ?thesis using mult_right_mono [of 1 "of_int \<bar>m - n\<bar>" "pow2 (- 1074)"] by simp
  qed
  have zero: "nearest_double 0 = 0" "\<not> pow2 1024 \<le> 0" by (simp_all add: nearest_double_def not_le)
  have pos: "0 < nearest_double \<bar>x - y\<bar>" if "x \<noteq> y" using nearest_double_pos [OF big [OF that]] .
  show "js_less (Finite 0) (js_minus (Finite x) (Finite y)) \<longleftrightarrow> y < x"
    using pos zero by (cases "x = y") (auto simp: to_number_def Let_def)
  show "js_minus (Finite x) (Finite y) = Finite 0 \<longleftrightarrow> x = y"
    using pos zero by (cases "x = y") (auto simp: to_number_def Let_def)
  show "js_minus (Finite x) (Finite y) \<noteq> NaN" by (simp add: to_number_def Let_def)
qed

lemma to_number_le_double:
  assumes "0 \<le> x" "x \<le> y" "nearest_double y = y" "y < pow2 1024"
  obtains z where "to_number x = Finite z" "0 \<le> z" "z \<le> y"
proof -
  have "nearest_double x \<le> y" using nearest_double_mono [OF assms(2)] assms(3) by simp
  moreover have "0 \<le> nearest_double x" by (rule nearest_double_nonneg)
  ultimately show thesis
    using assms by (intro that [of "nearest_double x"]) (simp_all add: to_number_def Let_def not_le)
qed

lemma round_evenI:
  assumes "\<bar>x - of_int n\<bar> < 1 / 2"
  shows "round_even x = n"
proof -
  have "of_int \<bar>round_even x - n\<bar> = \<bar>(of_int (round_even x) - x) + (x - of_int n)\<bar>" by simp
  also have "\<dots> < (1::rat)" using round_even_error [of x] assms by linarith
  finally have "\<bar>round_even x - n\<bar> < 1" by (simp only: of_int_less_1_iff)
  then show ?thesis by simp
qed

lemma nearest_double_in:
  assumes "pow2 e \<le> x" "x < pow2 (e + 1)" "- 1022 \<le> e" "\<bar>x / pow2 (e - 52) - of_int n\<bar> < 1 / 2"
  shows "nearest_double x = of_int n * pow2 (e - 52)"
proof -
  have "binade x = e" using assms(1,2) by (rule binade_unique)
  moreover have "0 < x" using assms(1) pow2_pos [of e] by linarith
  ultimately show ?thesis
    using round_evenI [OF assms(4)] assms(3) by (simp add: nearest_double_def spacing_def)
qed

subsection \<open>Sorting\<close>

lemma js_sort_Inr: "sort_by (\<lambda>x y. Inr (cmp x y) :: unit + js_number) xs = Inr (js_sort cmp xs)"
proof -
  obtain ys where "sort_by (\<lambda>x y. Inr (cmp x y) :: unit + js_number) xs = Inr ys"
    using sort_by_total [of xs "\<lambda>x y. Inr (cmp x y)"] by auto
  then show ?thesis by (simp add: js_sort_def)
qed

lemma js_sort_mset [simp]: "mset (js_sort cmp xs) = mset xs"
  using js_sort_Inr by (rule sort_by_mset)

lemma js_sort_set [simp]: "set (js_sort cmp xs) = set xs"
  using js_sort_Inr by (rule sort_by_set)

lemma js_sort_length [simp]: "length (js_sort cmp xs) = length xs"
  using js_sort_Inr by (rule sort_by_length)

lemma js_sort_Nil [simp]: "js_sort cmp [] = []"
  by (simp add: js_sort_def)

lemma js_sort_Cons: "insert_by (\<lambda>x y. Inr (cmp x y) :: unit + js_number) x (js_sort cmp xs) = Inr (js_sort cmp (x # xs))"
  using js_sort_Inr [of cmp "x # xs"] js_sort_Inr [of cmp xs] by simp

text \<open>A comparator that never contradicts a key sorts by it, whatever it does with equal keys.\<close>

lemma js_sort_sorted:
  fixes key :: "'a \<Rightarrow> 'k::linorder"
  assumes "\<And>x y. x \<in> set xs \<Longrightarrow> y \<in> set xs \<Longrightarrow> if js_less (Finite 0) (cmp x y) then key y \<le> key x else key x \<le> key y"
  shows "sorted (map key (js_sort cmp xs))"
  using assms
proof (induction xs)
  case (Cons x xs)
  note consistent = Cons.prems
  have ins: "sorted (map key zs) \<and> set zs = insert x (set ys)"
    if "insert_by (\<lambda>x y. Inr (cmp x y) :: unit + js_number) x ys = Inr zs" "sorted (map key ys)" "set ys \<subseteq> set xs" for ys zs
    using that
  proof (induction ys arbitrary: zs)
    case (Cons y ys)
    have c: "if js_less (Finite 0) (cmp x y) then key y \<le> key x else key x \<le> key y"
      using Cons.prems(3) by (intro consistent) auto
    show ?case
    proof (cases "js_less (Finite 0) (cmp x y)")
      case True
      with Cons.prems obtain ws where w: "insert_by (\<lambda>x y. Inr (cmp x y) :: unit + js_number) x ys = Inr ws" "zs = y # ws"
        by (auto simp: ebind_Inr_iff)
      with Cons.IH [OF w(1)] Cons.prems c True show ?thesis by auto
    next
      case False
      then have zs: "zs = x # y # ys" and xy: "key x \<le> key y" using Cons.prems(1) c by auto
      have "\<forall>k \<in> key ` set ys. key y \<le> k" using Cons.prems(2) by auto
      with xy have "\<forall>k \<in> key ` set ys. key x \<le> k" using order_trans by blast
      with zs xy Cons.prems(2) show ?thesis by simp
    qed
  qed simp
  show ?case using ins [OF js_sort_Cons] Cons by simp
qed simp

subsection \<open>Numbers of decimal texts\<close>

lemma pow10_minus: "pow10 (- int k) = 1 / 10 ^ k"
  by (cases "k = 0") (simp_all add: pow10_def)

lemma js_Number_dotted:
  assumes "list_all is_digit w" "w \<noteq> []" "list_all is_digit f"
  shows "js_Number (w @ CHR ''.'' # f) = to_number (of_nat (undec (w @ f)) / 10 ^ length f)"
proof -
  have dot: "\<not> is_space CHR ''.''" "\<not> is_digit CHR ''.''" by code_simp+
  have sp: "\<not> is_space c" if "c \<in> set (w @ CHR ''.'' # f)" for c
    using that assms dot by (auto simp: list_all_iff is_digit_not_space)
  have trim: "trim (w @ CHR ''.'' # f) = w @ CHR ''.'' # f" using sp by (intro trim_no_space) blast
  have hd: "is_digit (hd (w @ CHR ''.'' # f))" using assms by (cases w) auto
  have two: "take 2 (w @ CHR ''.'' # f) \<noteq> [CHR ''0'', a]" if "\<not> is_digit a" "a \<noteq> CHR ''.''" for a
    using assms that by (cases w; cases "tl w") auto
  have inf: "w @ CHR ''.'' # f \<noteq> ''Infinity''"
  proof
    assume "w @ CHR ''.'' # f = ''Infinity''"
    with hd have "is_digit (hd ''Infinity'')" by (simp only:)
    then show False using not_digits by simp
  qed
  have split: "takeWhile is_digit (w @ CHR ''.'' # f) = w" "dropWhile is_digit (w @ CHR ''.'' # f) = CHR ''.'' # f"
    "takeWhile is_digit f = f" "dropWhile is_digit f = []"
    using assms dot by (auto simp: list_all_iff takeWhile_append dropWhile_append)
  have "js_unsigned (w @ CHR ''.'' # f) = to_number (of_nat (undec (w @ f)) / 10 ^ length f)"
    unfolding js_unsigned_def if_not_P [OF inf] split Let_def using assms(2)
    by (simp add: split js_exponent_def pow10_minus)
  moreover have "hd (w @ CHR ''.'' # f) \<noteq> CHR ''-''" "hd (w @ CHR ''.'' # f) \<noteq> CHR ''+''"
    using hd not_digits by metis+
  ultimately show ?thesis
    unfolding js_Number_def trim Let_def using two not_digits assms(2) by simp
qed

lemma js_Number_digits:
  assumes "list_all is_digit w" "w \<noteq> []"
  shows "js_Number w = to_number (of_nat (undec w))"
proof -
  have hd: "is_digit (hd w)" using assms by (cases w) auto
  have two: "take 2 w \<noteq> [CHR ''0'', a]" if "\<not> is_digit a" for a
    using assms that by (cases w; cases "tl w") auto
  have inf: "w \<noteq> ''Infinity''" using hd not_digits by (cases w) auto
  have split: "takeWhile is_digit w = w" "dropWhile is_digit w = []"
    using assms by (simp_all add: list_all_iff takeWhile_eq_all_conv dropWhile_eq_Nil_conv)
  have "js_unsigned w = to_number (of_nat (undec w))"
    unfolding js_unsigned_def split using assms inf by (simp add: js_exponent_def pow10_def)
  moreover have "hd w \<noteq> CHR ''-''" "hd w \<noteq> CHR ''+''" using hd not_digits by metis+
  ultimately show ?thesis
    using assms two not_digits by (simp add: js_Number_def trim_digits Let_def)
qed

subsection \<open>Halves\<close>

lemma js_int_nat: "int k \<le> 2 ^ 53 \<Longrightarrow> js_int (int k) = Finite (of_nat k)"
  by (simp add: js_int_small)

text \<open>Half of a small natural number is a double.\<close>

lemma nearest_double_half:
  assumes "k \<le> 2 ^ 40"
  shows "to_number (of_nat k / 2) = Finite (of_nat k / 2)"
proof (cases "k = 0")
  case True
  then show ?thesis using to_number_int [of 0] by simp
next
  case False
  let ?x = "of_nat k / 2 :: rat"
  have x: "0 < ?x" using False by simp
  have kb: "(of_nat k :: rat) \<le> of_nat (2 ^ 40)" using assms by (simp only: of_nat_le_iff)
  have lo: "pow2 (- 1) \<le> ?x" using False by (simp add: pow2_def)
  have hi: "?x < pow2 41" using kb by (simp add: pow2_def)
  define e where "e = binade ?x"
  have b: "pow2 e \<le> ?x" "?x < pow2 (e + 1)" using binade [OF x] by (simp_all add: e_def)
  have e: "- 1 \<le> e" "e \<le> 41"
    using b lo hi pow2_less_iff [of "- 1" "e + 1"] pow2_less_iff [of e 41] by linarith+
  have "?x / pow2 (e - 52) = of_int (int k * 2 ^ nat (51 - e))"
  proof -
    have "pow2 (51 - e) * pow2 (e - 52) = pow2 (- 1)" by (simp add: pow2_add [symmetric])
    also have "\<dots> = 1 / 2" by (simp add: pow2_def)
    finally have "pow2 (51 - e) * pow2 (e - 52) = 1 / 2" .
    then have "of_nat k * (pow2 (51 - e) * pow2 (e - 52)) = ?x" by (simp only: times_divide_eq_right mult_1_right)
    then have "?x = of_nat k * pow2 (51 - e) * pow2 (e - 52)" by (simp only: mult.assoc)
    moreover have "pow2 (51 - e) = of_int (2 ^ nat (51 - e))" using e(2) by (simp add: pow2_is_int)
    ultimately show ?thesis by (simp add: divide_eq_eq ac_simps)
  qed
  then have "nearest_double ?x = of_int (int k * 2 ^ nat (51 - e)) * pow2 (e - 52)"
    using nearest_double_in [OF b, of "int k * 2 ^ nat (51 - e)"] e by simp
  also have "\<dots> = ?x" using \<open>?x / pow2 (e - 52) = _\<close> by (metis nonzero_divide_eq_eq pow2_nonzero)
  finally have "nearest_double ?x = ?x" .
  moreover have "?x < pow2 1024"
    using hi pow2_less_iff [of 41 1024] by simp
  ultimately show ?thesis using x by (simp add: to_number_def not_le)
qed

end
