(* ===== verification/Release_Revision.thy ===== *)
theory Release_Revision
  imports Js_Math
begin

text \<open>
  \<^verbatim>\<open>src/domain/release/release-revision.ts\<close>: how the score and the rank of each candidate market changed
  since the previous release. A rank percentile is a number in the current release and the printed text in a
  recomputed previous one, so the type keeps both. The record of revisions that the code builds with
  \<^verbatim>\<open>Object.fromEntries\<close> is a map, in which a later entry of the same code wins.
\<close>

datatype not_compared_reason =
  NO_PREVIOUS_ARTIFACT | NO_COMPATIBLE_PREVIOUS_ARTIFACT | PREVIOUS_ARTIFACT_MISSING_SCORE_WINDOW

datatype revision_state = NOT_COMPARED | BELOW_THRESHOLD | MATERIAL_CHANGE | NEWLY_ELIGIBLE

record candidate_revision =
  rv_state :: revision_state
  rv_previousReleaseRecomputedScore :: "js_number option"
  rv_scoreChange :: "js_number option"
  rv_previousReleaseRecomputedRankPercentile :: "string option"
  rv_rankPercentileChange :: "string option"
  rv_materialChange :: "bool option"

datatype rank_percentile = RankNumber js_number | RankText string

record candidate_snapshot =
  cs_code :: string
  cs_score :: js_number
  cs_rankPercentile :: rank_percentile

record previous_artifact =
  pa_baciRelease :: string
  pa_artifactSha256 :: string
  pa_hsRevision :: string
  pa_scoreVersion :: string
  pa_availableYears :: "int list"
  pa_scoreWindowUsed :: "int \<times> int"
  pa_recomputedCandidates :: "candidate_snapshot list"

record current_release =
  cr_baciRelease :: string
  cr_hsRevision :: string
  cr_scoreVersion :: string
  cr_scoreWindow :: "int \<times> int"
  cr_candidates :: "candidate_snapshot list"

record comparison_identity =
  ci_comparisonRelease :: "string option"
  ci_previousArtifactSha256 :: "string option"
  ci_notComparedReason :: "not_compared_reason option"

record revision_comparison = comparison_identity +
  rc_noLongerEligibleCount :: "nat option"
  rc_candidates :: "string \<rightharpoonup> candidate_revision"

definition yearsBetween :: "int \<Rightarrow> int \<Rightarrow> int list" where
  "yearsBetween start stop = map (\<lambda>index. start + int index) [0..<nat (stop - start + 1)]"

definition resolveReleaseRevisionComparisonIdentity ::
  "current_release \<Rightarrow> previous_artifact option \<Rightarrow> comparison_identity" where
  "resolveReleaseRevisionComparisonIdentity current previous =
     (case previous of
        None \<Rightarrow> \<lparr>ci_comparisonRelease = None, ci_previousArtifactSha256 = None,
                  ci_notComparedReason = Some NO_PREVIOUS_ARTIFACT\<rparr>
      | Some p \<Rightarrow>
          if pa_baciRelease p = cr_baciRelease current \<or> pa_hsRevision p \<noteq> cr_hsRevision current
             \<or> pa_scoreVersion p \<noteq> cr_scoreVersion current
             \<or> fst (pa_scoreWindowUsed p) \<noteq> fst (cr_scoreWindow current)
             \<or> snd (pa_scoreWindowUsed p) \<noteq> snd (cr_scoreWindow current)
          then \<lparr>ci_comparisonRelease = None, ci_previousArtifactSha256 = None,
                 ci_notComparedReason = Some NO_COMPATIBLE_PREVIOUS_ARTIFACT\<rparr>
          else
            let requiredYears = yearsBetween (fst (cr_scoreWindow current)) (snd (cr_scoreWindow current))
            in \<lparr>ci_comparisonRelease = Some (pa_baciRelease p),
                ci_previousArtifactSha256 = Some (pa_artifactSha256 p),
                ci_notComparedReason =
                  (if list_all (\<lambda>year. year \<in> set (pa_availableYears p)) requiredYears then None
                   else Some PREVIOUS_ARTIFACT_MISSING_SCORE_WINDOW)\<rparr>)"

definition emptyRevision :: "revision_state \<Rightarrow> candidate_revision" where
  "emptyRevision st =
     \<lparr>rv_state = st, rv_previousReleaseRecomputedScore = None, rv_scoreChange = None,
      rv_previousReleaseRecomputedRankPercentile = None, rv_rankPercentileChange = None,
      rv_materialChange = None\<rparr>"

definition newlyEligible :: candidate_revision where
  "newlyEligible = emptyRevision NEWLY_ELIGIBLE"

definition from_entries :: "(string \<times> 'a) list \<Rightarrow> string \<rightharpoonup> 'a" where
  "from_entries entries = map_of (rev entries)"

definition notCompared :: "candidate_snapshot list \<Rightarrow> comparison_identity \<Rightarrow> revision_comparison" where
  "notCompared currentCandidates identity =
     \<lparr>ci_comparisonRelease = ci_comparisonRelease identity,
      ci_previousArtifactSha256 = ci_previousArtifactSha256 identity,
      ci_notComparedReason = ci_notComparedReason identity,
      rc_noLongerEligibleCount = None,
      rc_candidates = from_entries (map (\<lambda>c. (cs_code c, emptyRevision NOT_COMPARED)) currentCandidates)\<rparr>"

text \<open>\<^verbatim>\<open>Number(value)\<close> of a number is the number.\<close>

definition rank_number :: "rank_percentile \<Rightarrow> js_number" where
  "rank_number p = (case p of RankNumber n \<Rightarrow> n | RankText t \<Rightarrow> js_Number t)"

text \<open>The model has one zero, which \<^verbatim>\<open>toFixed\<close> prints without a sign like the code's test for \<^verbatim>\<open>-0\<close> does.\<close>

definition formatDelta :: "js_number \<Rightarrow> string" where
  "formatDelta value = js_to_fixed 3 value"

definition formatRankPercentile :: "rank_percentile \<Rightarrow> string" where
  "formatRankPercentile value = js_to_fixed 3 (rank_number value)"

definition revision_of :: "candidate_snapshot \<Rightarrow> candidate_snapshot \<Rightarrow> candidate_revision" where
  "revision_of current previous =
     (let scoreChange = js_minus (cs_score current) (cs_score previous);
          rankPercentileChange =
            js_minus (rank_number (cs_rankPercentile current)) (rank_number (cs_rankPercentile previous));
          materialChange = js_ge (js_abs scoreChange) (Finite 10) \<or> js_ge (js_abs rankPercentileChange) (Finite 15)
      in \<lparr>rv_state = (if materialChange then MATERIAL_CHANGE else BELOW_THRESHOLD),
          rv_previousReleaseRecomputedScore = Some (cs_score previous),
          rv_scoreChange = Some scoreChange,
          rv_previousReleaseRecomputedRankPercentile = Some (formatRankPercentile (cs_rankPercentile previous)),
          rv_rankPercentileChange = Some (formatDelta rankPercentileChange),
          rv_materialChange = Some materialChange\<rparr>)"

definition compareReleaseRevisions :: "current_release \<Rightarrow> previous_artifact option \<Rightarrow> revision_comparison" where
  "compareReleaseRevisions current previous =
     (let identity = resolveReleaseRevisionComparisonIdentity current previous
      in case previous of
           None \<Rightarrow> notCompared (cr_candidates current) identity
         | Some p \<Rightarrow>
             if ci_notComparedReason identity \<noteq> None then notCompared (cr_candidates current) identity
             else
               let previousByCode = from_entries (map (\<lambda>c. (cs_code c, c)) (pa_recomputedCandidates p));
                   currentCodes = map cs_code (cr_candidates current)
               in \<lparr>ci_comparisonRelease = Some (pa_baciRelease p),
                   ci_previousArtifactSha256 = Some (pa_artifactSha256 p),
                   ci_notComparedReason = None,
                   rc_noLongerEligibleCount =
                     Some (length (filter (\<lambda>c. cs_code c \<notin> set currentCodes) (pa_recomputedCandidates p))),
                   rc_candidates = from_entries (map (\<lambda>c. (cs_code c,
                     case previousByCode (cs_code c) of None \<Rightarrow> newlyEligible | Some q \<Rightarrow> revision_of c q))
                       (cr_candidates current))\<rparr>)"

subsection \<open>Printed percentiles\<close>

lemma to_number_small:
  assumes "\<bar>x\<bar> \<le> 2 ^ 53"
  shows "to_number x = Finite (if x < 0 then - nearest_double \<bar>x\<bar> else nearest_double \<bar>x\<bar>)"
proof -
  have "nearest_double \<bar>x\<bar> \<le> of_int (2 ^ 53)" using nearest_double_between(2) [of 0 "\<bar>x\<bar>" "2 ^ 53"] assms by simp
  also have "\<dots> < pow2 1024" using pow2_less_iff [of 53 1024] by (simp add: pow2_def)
  finally show ?thesis by (simp add: to_number_def Let_def)
qed

lemma fixed_text_number: "js_Number (fixed_digits 3 n) = to_number (of_nat n / 1000)"
proof -
  let ?w = "dec (n div 1000)" and ?f = "pad_start 3 (dec (n mod 1000))"
  have t: "fixed_digits 3 n = ?w @ CHR ''.'' # ?f" by (simp add: fixed_digits_def)
  have w: "list_all is_digit ?w" "?w \<noteq> []" by (auto simp: list_all_iff dec_digits)
  have f: "list_all is_digit ?f" by (auto simp: list_all_iff intro: pad_start_digits dec_digits)
  have len: "length ?f = 3"
  proof -
    have "length (dec (n mod 1000)) \<le> 3" using dec_length_bound [of "n mod 1000" 2] by simp
    then show ?thesis by (simp add: pad_start_def)
  qed
  have "undec (?w @ ?f) = n" unfolding undec_append len by simp
  then show ?thesis unfolding t using js_Number_dotted [OF w f] len by simp
qed

text \<open>A percentile between 0 and 100 and the number that its printed text stands for.\<close>

lemma printed_percentile_close:
  assumes "0 \<le> q" "q \<le> 100"
  obtains P where "rank_number (RankText (js_to_fixed 3 (Finite q))) = Finite P"
    "\<bar>P - q\<bar> \<le> 6 / 10000" "0 \<le> P" "P \<le> 101"
proof -
  have f: "js_to_fixed 3 (Finite q) = to_fixed 3 (Finite q)" using assms by (simp add: js_to_fixed_def)
  obtain n where n: "to_fixed 3 (Finite q) = (if q < 0 then ''-'' else []) @ fixed_digits 3 n"
    "\<bar>(if q < 0 then - of_nat n else of_nat n) / 10 ^ 3 - q\<bar> \<le> 1 / (2 * 10 ^ 3)"
    by (rule to_fixed_close)
  let ?x = "of_nat n / 1000 :: rat"
  have x: "\<bar>?x - q\<bar> \<le> 1 / 2000" using n(2) assms by simp
  have r: "rank_number (RankText (js_to_fixed 3 (Finite q))) = to_number ?x"
    using n(1) assms by (simp add: rank_number_def f fixed_text_number del: to_fixed.simps)
  have "?x \<le> 101" "0 \<le> ?x" using x assms by linarith+
  then obtain P where P: "to_number ?x = Finite P" "of_int 0 \<le> P" "P \<le> of_int 101"
    using to_number_between [of 0 ?x 101] by auto
  have "\<bar>?x\<bar> \<le> 2 ^ 1000" using \<open>?x \<le> 101\<close> \<open>0 \<le> ?x\<close> by (simp add: abs_if)
  from to_number_close [OF this] P(1) have "\<bar>P - ?x\<bar> \<le> \<bar>?x\<bar> / 2 ^ 53 + pow2 (- 1075)" by auto
  moreover have "pow2 (- 1075) \<le> 1 / 100000"
    using pow2_le_iff [of "- 1075" "- 17"] by (simp add: pow2_def)
  moreover have "\<bar>?x\<bar> / 2 ^ 53 \<le> 1 / 100000" using \<open>?x \<le> 101\<close> \<open>0 \<le> ?x\<close> by simp
  ultimately have "\<bar>P - ?x\<bar> \<le> 2 / 100000" by linarith
  with x have "\<bar>P - q\<bar> \<le> 6 / 10000" by linarith
  with r P show thesis by (intro that) simp_all
qed

lemma js_minus_close:
  assumes "\<bar>x\<bar> \<le> 200" "\<bar>y\<bar> \<le> 200"
  obtains d where "js_minus (Finite x) (Finite y) = Finite d" "\<bar>d - (x - y)\<bar> \<le> 2 / 100000"
proof -
  have xy: "\<bar>x - y\<bar> \<le> 400" using assms by linarith
  then have "\<bar>x - y\<bar> \<le> 2 ^ 1000" by (rule order_trans) simp
  from to_number_close [OF this] obtain d where
    d: "to_number (x - y) = Finite d" "\<bar>d - (x - y)\<bar> \<le> \<bar>x - y\<bar> / 2 ^ 53 + pow2 (- 1075)" by blast
  have "pow2 (- 1075) \<le> 1 / 100000"
    using pow2_le_iff [of "- 1075" "- 17"] by (simp add: pow2_def)
  moreover have "\<bar>x - y\<bar> / 2 ^ 53 \<le> 1 / 100000" using xy by simp
  ultimately have "\<bar>d - (x - y)\<bar> \<le> 2 / 100000" using d(2) by linarith
  with d(1) show thesis by (intro that) simp_all
qed

text \<open>When both scores are whole numbers from 0 to 100 and the previous rank percentile is the printed one,
  as the recipe passes it, a candidate is flagged as materially changed if its score moved by ten or more or
  its exact percentile by at least 15.001, and is not flagged if the score moved by less than ten and the
  percentile by at most 14.999.\<close>

theorem revision_flag_within_print_precision:
  assumes "cs_score current = Finite (of_int a)" "cs_score previous = Finite (of_int b)"
    and "0 \<le> a" "a \<le> 100" "0 \<le> b" "b \<le> 100"
    and "cs_rankPercentile current = RankNumber (Finite p)" "0 \<le> p" "p \<le> 100"
    and "cs_rankPercentile previous = RankText (js_to_fixed 3 (Finite q))" "0 \<le> q" "q \<le> 100"
  shows "(10 \<le> \<bar>a - b\<bar> \<or> 15 + 1 / 1000 \<le> \<bar>p - q\<bar> \<longrightarrow> rv_state (revision_of current previous) = MATERIAL_CHANGE)
    \<and> (\<bar>a - b\<bar> < 10 \<and> \<bar>p - q\<bar> \<le> 15 - 1 / 1000 \<longrightarrow> rv_state (revision_of current previous) = BELOW_THRESHOLD)"
proof -
  obtain P where P: "rank_number (RankText (js_to_fixed 3 (Finite q))) = Finite P" "\<bar>P - q\<bar> \<le> 6 / 10000" "0 \<le> P" "P \<le> 101"
    using printed_percentile_close [OF assms(11,12)] .
  have "\<bar>p\<bar> \<le> 200" "\<bar>P\<bar> \<le> 200" using assms(8,9) P(3,4) by linarith+
  from js_minus_close [OF this] obtain d where
    d: "js_minus (Finite p) (Finite P) = Finite d" "\<bar>d - (p - P)\<bar> \<le> 2 / 100000" .
  have "(of_int a :: rat) - of_int b = of_int (a - b)" by simp
  moreover have "to_number (of_int (a - b)) = Finite (of_int (a - b))"
    using assms(3-6) by (intro to_number_int) (simp add: abs_le_iff)
  ultimately have s: "js_minus (cs_score current) (cs_score previous) = Finite (of_int (a - b))"
    using assms(1,2) by simp
  have "(10::rat) \<le> \<bar>of_int (a - b)\<bar> \<longleftrightarrow> 10 \<le> \<bar>a - b\<bar>"
  proof -
    have "(of_int 10 :: rat) \<le> of_int \<bar>a - b\<bar> \<longleftrightarrow> 10 \<le> \<bar>a - b\<bar>" by (simp only: of_int_le_iff)
    then show ?thesis by simp
  qed
  then have flag: "rv_state (revision_of current previous) = (if 10 \<le> \<bar>a - b\<bar> \<or> 15 \<le> \<bar>d\<bar> then MATERIAL_CHANGE else BELOW_THRESHOLD)"
    using d(1) P(1) unfolding revision_of_def s assms(7,10)
    by (simp add: Let_def rank_number_def del: js_minus.simps of_int_diff)
  have "15 \<le> \<bar>d\<bar>" if "15 + 1 / 1000 \<le> \<bar>p - q\<bar>" using that d(2) P(2) by linarith
  moreover have "\<not> 15 \<le> \<bar>d\<bar>" if "\<bar>p - q\<bar> \<le> 15 - 1 / 1000" using that d(2) P(2) by linarith
  ultimately show ?thesis unfolding flag by auto
qed

lemma sixtieths:
  "nearest_double (100 / 3) = 4691249611844267 / 140737488355328"
  "nearest_double (145 / 3) = 6802311937174187 / 140737488355328"
  "nearest_double (48333 / 1000) = 6802265024678068 / 140737488355328"
  "nearest_double (2111015412833801 / 140737488355328) = 2111015412833801 / 140737488355328"
  using nearest_double_in [of 5 "100 / 3" 4691249611844267] nearest_double_in [of 5 "145 / 3" 6802311937174187]
    nearest_double_in [of 5 "48333 / 1000" 6802265024678068]
    nearest_double_in [of 3 "2111015412833801 / 140737488355328" "2111015412833801 * 4"]
  by (simp_all add: pow2_def)

lemma thirty_three: "js_divide (Finite 2000) (Finite 60) = Finite (4691249611844267 / 140737488355328)"
  using sixtieths(1) by (simp add: to_number_small)

lemma forty_eight: "js_divide (Finite 2900) (Finite 60) = Finite (6802311937174187 / 140737488355328)"
  using sixtieths(2) by (simp add: to_number_small)

lemma forty_eight_text: "js_to_fixed 3 (js_divide (Finite 2900) (Finite 60)) = ''48.333''"
proof -
  have "\<lfloor>6802311937174187 / 140737488355328 * 10 ^ 3 + 1 / 2 :: rat\<rfloor> = 48333" by (rule floor_unique) simp_all
  then show ?thesis
    unfolding forty_eight js_to_fixed_def to_fixed.simps fixed_digits_def by (simp add: decimal_eval)
qed

lemma forty_eight_number: "rank_number (RankText ''48.333'') = Finite (1700566256169517 / 35184372088832)"
proof -
  have "fixed_digits 3 48333 = ''48.333''" by (simp add: fixed_digits_def decimal_eval)
  then have "rank_number (RankText ''48.333'') = to_number (48333 / 1000)"
    using fixed_text_number [of 48333] by (simp add: rank_number_def)
  then show ?thesis using sixtieths(3) by (simp add: to_number_small)
qed

lemma printed_difference:
  "js_minus (Finite (4691249611844267 / 140737488355328)) (Finite (1700566256169517 / 35184372088832))
     = Finite (- 2111015412833801 / 140737488355328)"
  using sixtieths(4) by (simp add: to_number_small)

text \<open>An example in the gap: the threshold is compared with the difference of an unrounded and a printed percentile.
  A candidate of a cohort of 61 whose rank percentile fell by exactly fifteen points, from 29 to 20 sixtieths, is reported
  with a change of -15.000 and is not flagged, although a change of fifteen counts as material.\<close>

theorem revision_misses_fifteen_points:
  "revision_of
     \<lparr>cs_code = code, cs_score = Finite 50, cs_rankPercentile = RankNumber (js_divide (Finite (100 * 20)) (Finite 60))\<rparr>
     \<lparr>cs_code = code, cs_score = Finite 50,
      cs_rankPercentile = RankText (js_to_fixed 3 (js_divide (Finite (100 * 29)) (Finite 60)))\<rparr>
   = \<lparr>rv_state = BELOW_THRESHOLD, rv_previousReleaseRecomputedScore = Some (Finite 50),
      rv_scoreChange = Some (Finite 0), rv_previousReleaseRecomputedRankPercentile = Some ''48.333'',
      rv_rankPercentileChange = Some ''-15.000'', rv_materialChange = Some False\<rparr>"
proof -
  have z: "js_minus (Finite 50) (Finite 50) = Finite 0" using to_number_int [of 0] by simp
  have "\<lfloor>2111015412833801 / 140737488355328 * 10 ^ 3 + 1 / 2 :: rat\<rfloor> = 15000" by (rule floor_unique) simp_all
  then have d: "js_to_fixed 3 (Finite (- 2111015412833801 / 140737488355328)) = ''-15.000''"
    unfolding js_to_fixed_def to_fixed.simps fixed_digits_def
    by (simp add: decimal_eval) (simp add: numeral_2_eq_2)
  have p: "formatRankPercentile (RankText ''48.333'') = ''48.333''"
  proof -
    have "\<lfloor>1700566256169517 / 35184372088832 * 10 ^ 3 + 1 / 2 :: rat\<rfloor> = 48333" by (rule floor_unique) simp_all
    then show ?thesis
      unfolding formatRankPercentile_def forty_eight_number js_to_fixed_def to_fixed.simps fixed_digits_def
      by (simp add: decimal_eval)
  qed
  have n: "Finite (100 * 20) = Finite 2000" "Finite (100 * 29) = Finite 2900" by simp_all
  show ?thesis
    unfolding revision_of_def candidate_snapshot.select_convs n forty_eight_text thirty_three z p forty_eight_number
      printed_difference formatDelta_def d
    by (simp add: rank_number_def printed_difference [simplified] d [simplified])
qed

subsection \<open>The whole comparison\<close>

lemma from_entries_at:
  assumes "distinct (map cs_code cs)" "c \<in> set cs"
  shows "from_entries (map (\<lambda>c. (cs_code c, g c)) cs) (cs_code c) = Some (g c)"
  unfolding from_entries_def using assms
  by (intro map_of_is_SomeI) (auto simp: rev_map [symmetric] comp_def)

lemma from_entries_dom: "dom (from_entries (map (\<lambda>c. (cs_code c, g c)) cs)) = cs_code ` set cs"
  unfolding from_entries_def dom_map_of_conv_image_fst by force

text \<open>Two releases can be compared when they are different ones of the same revision, score version and
  window, and the previous one covers every year of the window.\<close>

definition comparable :: "current_release \<Rightarrow> previous_artifact \<Rightarrow> bool" where
  "comparable current art \<longleftrightarrow> pa_baciRelease art \<noteq> cr_baciRelease current
     \<and> pa_hsRevision art = cr_hsRevision current \<and> pa_scoreVersion art = cr_scoreVersion current
     \<and> pa_scoreWindowUsed art = cr_scoreWindow current
     \<and> {fst (cr_scoreWindow current)..snd (cr_scoreWindow current)} \<subseteq> set (pa_availableYears art)"

lemma release_years_set: "set (yearsBetween a b) = {a..b}"
proof -
  have "y \<in> (\<lambda>index. a + int index) ` {0..<nat (b - a + 1)}" if "a \<le> y" "y \<le> b" for y
    using that by (intro image_eqI [of _ _ "nat (y - a)"]) auto
  then show ?thesis by (auto simp: yearsBetween_def)
qed

lemma comparable_iff:
  "ci_notComparedReason (resolveReleaseRevisionComparisonIdentity current (Some art)) = None \<longleftrightarrow> comparable current art"
  by (auto simp: resolveReleaseRevisionComparisonIdentity_def comparable_def Let_def list_all_iff
      release_years_set prod_eq_iff)

text \<open>A candidate as the recipe passes it: a whole score, and the percentile as a number in the current
  release and as printed text in the recomputed previous one.\<close>

definition current_snapshot :: "candidate_snapshot \<Rightarrow> int \<Rightarrow> rat \<Rightarrow> bool" where
  "current_snapshot c a p \<longleftrightarrow> cs_score c = Finite (of_int a) \<and> 0 \<le> a \<and> a \<le> 100
     \<and> cs_rankPercentile c = RankNumber (Finite p) \<and> 0 \<le> p \<and> p \<le> 100"

definition previous_snapshot :: "candidate_snapshot \<Rightarrow> int \<Rightarrow> rat \<Rightarrow> bool" where
  "previous_snapshot d b q \<longleftrightarrow> cs_score d = Finite (of_int b) \<and> 0 \<le> b \<and> b \<le> 100
     \<and> cs_rankPercentile d = RankText (js_to_fixed 3 (Finite q)) \<and> 0 \<le> q \<and> q \<le> 100"

lemma revision_of_fields:
  assumes "current_snapshot c a p" "previous_snapshot d b q"
  shows "rv_previousReleaseRecomputedScore (revision_of c d) = Some (Finite (of_int b))"
    "rv_scoreChange (revision_of c d) = Some (Finite (of_int (a - b)))"
    "rv_materialChange (revision_of c d) = Some (rv_state (revision_of c d) = MATERIAL_CHANGE)"
proof -
  have "to_number (of_int (a - b)) = Finite (of_int (a - b))"
    using assms by (intro to_number_int) (auto simp: abs_le_iff current_snapshot_def previous_snapshot_def)
  then have "js_minus (cs_score c) (cs_score d) = Finite (of_int (a - b))"
    using assms by (simp add: current_snapshot_def previous_snapshot_def)
  then show "rv_scoreChange (revision_of c d) = Some (Finite (of_int (a - b)))"
    by (simp add: revision_of_def Let_def)
  show "rv_previousReleaseRecomputedScore (revision_of c d) = Some (Finite (of_int b))"
    using assms(2) by (simp add: revision_of_def Let_def previous_snapshot_def)
  show "rv_materialChange (revision_of c d) = Some (rv_state (revision_of c d) = MATERIAL_CHANGE)"
    by (simp add: revision_of_def Let_def)
qed

lemma compareReleaseRevisions_at:
  assumes "comparable current art"
  shows "rc_noLongerEligibleCount (compareReleaseRevisions current (Some art)) =
      Some (length (filter (\<lambda>d. cs_code d \<notin> cs_code ` set (cr_candidates current)) (pa_recomputedCandidates art)))"
    and "rc_candidates (compareReleaseRevisions current (Some art)) =
      from_entries (map (\<lambda>c. (cs_code c,
        case from_entries (map (\<lambda>d. (cs_code d, d)) (pa_recomputedCandidates art)) (cs_code c) of
          None \<Rightarrow> newlyEligible | Some d \<Rightarrow> revision_of c d)) (cr_candidates current))"
  using comparable_iff [of current art] assms by (simp_all add: compareReleaseRevisions_def Let_def)

text \<open>C38: two releases of the same revision, score version and window, the previous covering the window, are compared
  candidate by candidate: exactly the current candidates get an entry, the lost ones are counted, one
  without a previous entry is newly eligible, and any other one reports the previous score and the exact
  change of the score. It is flagged as materially changed if its score moved by ten or more or its exact
  percentile by at least 15.001, and not flagged if the score moved by less than ten and the
  percentile by at most 14.999; in between the printed text of the previous percentile decides.\<close>

theorem comparable_releases_are_compared:
  assumes "comparable current art"
    and "distinct (map cs_code (cr_candidates current))" "distinct (map cs_code (pa_recomputedCandidates art))"
  defines "result \<equiv> compareReleaseRevisions current (Some art)"
  shows "dom (rc_candidates result) = cs_code ` set (cr_candidates current)
    \<and> rc_noLongerEligibleCount result =
        Some (card (cs_code ` set (pa_recomputedCandidates art) - cs_code ` set (cr_candidates current)))
    \<and> (\<forall>c \<in> set (cr_candidates current). cs_code c \<notin> cs_code ` set (pa_recomputedCandidates art) \<longrightarrow>
        (\<exists>r. rc_candidates result (cs_code c) = Some r \<and> rv_state r = NEWLY_ELIGIBLE))
    \<and> (\<forall>c \<in> set (cr_candidates current). \<forall>d \<in> set (pa_recomputedCandidates art). \<forall>a p b q.
        cs_code d = cs_code c \<and> current_snapshot c a p \<and> previous_snapshot d b q \<longrightarrow>
        (\<exists>r. rc_candidates result (cs_code c) = Some r
          \<and> rv_previousReleaseRecomputedScore r = Some (Finite (of_int b))
          \<and> rv_scoreChange r = Some (Finite (of_int (a - b)))
          \<and> rv_materialChange r = Some (rv_state r = MATERIAL_CHANGE)
          \<and> (10 \<le> \<bar>a - b\<bar> \<or> 15 + 1 / 1000 \<le> \<bar>p - q\<bar> \<longrightarrow> rv_state r = MATERIAL_CHANGE)
          \<and> (\<bar>a - b\<bar> < 10 \<and> \<bar>p - q\<bar> \<le> 15 - 1 / 1000 \<longrightarrow> rv_state r = BELOW_THRESHOLD)))"
proof -
  let ?prev = "from_entries (map (\<lambda>d. (cs_code d, d)) (pa_recomputedCandidates art))"
  let ?g = "\<lambda>c. case ?prev (cs_code c) of None \<Rightarrow> newlyEligible | Some d \<Rightarrow> revision_of c d"
  note at = compareReleaseRevisions_at [OF assms(1)]
  have "dom (rc_candidates result) = cs_code ` set (cr_candidates current)"
    unfolding result_def at(2) by (rule from_entries_dom)
  moreover have "rc_noLongerEligibleCount result =
      Some (card (cs_code ` set (pa_recomputedCandidates art) - cs_code ` set (cr_candidates current)))"
  proof -
    let ?lost = "filter (\<lambda>d. cs_code d \<notin> cs_code ` set (cr_candidates current)) (pa_recomputedCandidates art)"
    have "distinct (map cs_code ?lost)" using assms(3) by (rule distinct_map_filter)
    then have "length ?lost = card (set (map cs_code ?lost))" by (metis distinct_card length_map)
    moreover have "set (map cs_code ?lost)
        = cs_code ` set (pa_recomputedCandidates art) - cs_code ` set (cr_candidates current)"
      by auto
    ultimately show ?thesis unfolding result_def at(1) by simp
  qed
  moreover have entry: "rc_candidates result (cs_code c) = Some (?g c)" if "c \<in> set (cr_candidates current)" for c
    unfolding result_def at(2) using from_entries_at [OF assms(2) that, of ?g] .
  moreover have "\<exists>r. rc_candidates result (cs_code c) = Some r \<and> rv_state r = NEWLY_ELIGIBLE"
    if c: "c \<in> set (cr_candidates current)" "cs_code c \<notin> cs_code ` set (pa_recomputedCandidates art)" for c
  proof -
    have "?prev (cs_code c) = None"
      using c(2) from_entries_dom [of "\<lambda>d. d" "pa_recomputedCandidates art"] by blast
    with entry [OF c(1)] show ?thesis by (simp add: newlyEligible_def emptyRevision_def)
  qed
  moreover have "\<exists>r. rc_candidates result (cs_code c) = Some r
          \<and> rv_previousReleaseRecomputedScore r = Some (Finite (of_int b))
          \<and> rv_scoreChange r = Some (Finite (of_int (a - b)))
          \<and> rv_materialChange r = Some (rv_state r = MATERIAL_CHANGE)
          \<and> (10 \<le> \<bar>a - b\<bar> \<or> 15 + 1 / 1000 \<le> \<bar>p - q\<bar> \<longrightarrow> rv_state r = MATERIAL_CHANGE)
          \<and> (\<bar>a - b\<bar> < 10 \<and> \<bar>p - q\<bar> \<le> 15 - 1 / 1000 \<longrightarrow> rv_state r = BELOW_THRESHOLD)"
    if c: "c \<in> set (cr_candidates current)" and d: "d \<in> set (pa_recomputedCandidates art)" "cs_code d = cs_code c"
      and s: "current_snapshot c a p" "previous_snapshot d b q" for c d a p b q
  proof -
    have "?prev (cs_code d) = Some d" using from_entries_at [OF assms(3) d(1), of "\<lambda>d. d"] .
    with d(2) entry [OF c] have "rc_candidates result (cs_code c) = Some (revision_of c d)" by simp
    moreover have "(10 \<le> \<bar>a - b\<bar> \<or> 15 + 1 / 1000 \<le> \<bar>p - q\<bar> \<longrightarrow> rv_state (revision_of c d) = MATERIAL_CHANGE)
        \<and> (\<bar>a - b\<bar> < 10 \<and> \<bar>p - q\<bar> \<le> 15 - 1 / 1000 \<longrightarrow> rv_state (revision_of c d) = BELOW_THRESHOLD)"
      using s by (intro revision_flag_within_print_precision) (simp_all add: current_snapshot_def previous_snapshot_def)
    ultimately show ?thesis using revision_of_fields [OF s] by blast
  qed
  ultimately show ?thesis by blast
qed

definition sample_release :: current_release where
  "sample_release = \<lparr>cr_baciRelease = ''202501'', cr_hsRevision = ''HS12'', cr_scoreVersion = ''v1'',
     cr_scoreWindow = (2019, 2023), cr_candidates =
       [\<lparr>cs_code = ''1'', cs_score = Finite (of_int 50), cs_rankPercentile = RankNumber (Finite 35)\<rparr>,
        \<lparr>cs_code = ''2'', cs_score = Finite (of_int 60), cs_rankPercentile = RankNumber (Finite 80)\<rparr>]\<rparr>"

definition sample_artifact :: previous_artifact where
  "sample_artifact = \<lparr>pa_baciRelease = ''202401'', pa_artifactSha256 = ''a'', pa_hsRevision = ''HS12'',
     pa_scoreVersion = ''v1'', pa_availableYears = [2018, 2019, 2020, 2021, 2022, 2023],
     pa_scoreWindowUsed = (2019, 2023), pa_recomputedCandidates =
       [\<lparr>cs_code = ''1'', cs_score = Finite (of_int 52), cs_rankPercentile = RankText (js_to_fixed 3 (Finite (105 / 2)))\<rparr>,
        \<lparr>cs_code = ''3'', cs_score = Finite (of_int 10), cs_rankPercentile = RankText (js_to_fixed 3 (Finite 10))\<rparr>]\<rparr>"

lemma sample_comparable: "comparable sample_release sample_artifact"
proof -
  have "{2019..2023 :: int} \<subseteq> {2018, 2019, 2020, 2021, 2022, 2023}"
  proof
    fix y :: int assume "y \<in> {2019..2023}"
    then have "y = 2019 \<or> y = 2020 \<or> y = 2021 \<or> y = 2022 \<or> y = 2023" by (simp only: atLeastAtMost_iff) presburger
    then show "y \<in> {2018, 2019, 2020, 2021, 2022, 2023}" by simp
  qed
  then show ?thesis by (simp add: comparable_def sample_release_def sample_artifact_def)
qed

theorem comparable_releases_are_compared_witness:
  "\<exists>r. rc_candidates (compareReleaseRevisions sample_release (Some sample_artifact)) ''1'' = Some r
     \<and> rv_state r = MATERIAL_CHANGE
     \<and> rc_noLongerEligibleCount (compareReleaseRevisions sample_release (Some sample_artifact)) = Some 1"
proof -
  let ?c = "\<lparr>cs_code = ''1'', cs_score = Finite (of_int 50), cs_rankPercentile = RankNumber (Finite 35)\<rparr>"
  let ?d = "\<lparr>cs_code = ''1'', cs_score = Finite (of_int 52), cs_rankPercentile = RankText (js_to_fixed 3 (Finite (105 / 2)))\<rparr>"
  have cs: "?c \<in> set (cr_candidates sample_release)" "?d \<in> set (pa_recomputedCandidates sample_artifact)"
    by (simp_all add: sample_release_def sample_artifact_def)
  have "distinct (map cs_code (cr_candidates sample_release))"
    "distinct (map cs_code (pa_recomputedCandidates sample_artifact))"
    by (simp_all add: sample_release_def sample_artifact_def)
  note all = comparable_releases_are_compared [OF sample_comparable this]
  have "current_snapshot ?c 50 35" "previous_snapshot ?d 52 (105 / 2)"
    by (simp_all add: current_snapshot_def previous_snapshot_def)
  moreover have "15 + 1 / 1000 \<le> \<bar>35 - 105 / 2 :: rat\<bar>" by simp
  ultimately obtain r where
    "rc_candidates (compareReleaseRevisions sample_release (Some sample_artifact)) (cs_code ?c) = Some r"
    "rv_state r = MATERIAL_CHANGE"
    using all cs by (metis candidate_snapshot.select_convs(1))
  moreover have "cs_code ` set (pa_recomputedCandidates sample_artifact) - cs_code ` set (cr_candidates sample_release) = {''3''}"
    by (auto simp: sample_release_def sample_artifact_def)
  with all have "rc_noLongerEligibleCount (compareReleaseRevisions sample_release (Some sample_artifact)) = Some 1"
    by simp
  ultimately show ?thesis by simp
qed

theorem revision_flag_within_print_precision_witness:
  "rv_state (revision_of
     \<lparr>cs_code = ''1'', cs_score = Finite (of_int 50), cs_rankPercentile = RankNumber (Finite 20)\<rparr>
     \<lparr>cs_code = ''1'', cs_score = Finite (of_int 50), cs_rankPercentile = RankText (js_to_fixed 3 (Finite (75 / 2)))\<rparr>)
   = MATERIAL_CHANGE"
  using revision_flag_within_print_precision [of
      "\<lparr>cs_code = ''1'', cs_score = Finite (of_int 50), cs_rankPercentile = RankNumber (Finite 20)\<rparr>" 50
      "\<lparr>cs_code = ''1'', cs_score = Finite (of_int 50), cs_rankPercentile = RankText (js_to_fixed 3 (Finite (75 / 2)))\<rparr>"
      50 20 "75 / 2"]
  by simp

end
