(* ===== verification/Candidate_Market.thy ===== *)
theory Candidate_Market
  imports Evidence_Model Release_Revision
begin

text \<open>
  \<^verbatim>\<open>src/domain/candidate-market/cms-v1.ts\<close>: the Candidate Market Score. The recipe computes with numbers, so
  every quantity is a \<^theory_text>\<open>js_number\<close> and every operation the rounded one of \<^theory_text>\<open>Js_Number\<close> and \<^theory_text>\<open>Js_Math\<close>;
  years and counts are \<^theory_text>\<open>int\<close>. The candidates of a window, which the code updates through references, are
  a list that each pass returns updated; the computed values that a pass sorts carry the position of their
  candidate as the reference. A thrown \<^theory_text>\<open>Error\<close> or \<^theory_text>\<open>TypeError\<close> is \<^theory_text>\<open>Inl\<close>.
\<close>

datatype candidate_error = CmsTypeError string | CmsError string

datatype selected_exporter = ExporterRecorded string | ExporterNoRecordedPositiveFlow

record alternative_suppliers =
  as_count :: int
  as_valueKusd :: string
  as_valueSquareSumKusdSquared :: string

record market_year =
  my_year :: int
  my_candidateMarket :: economy_identity
  my_worldValueKusd :: string
  my_selectedExporter :: selected_exporter
  my_alternativeSuppliers :: alternative_suppliers
  my_sourceFlowCount :: int
  my_quantityPresentCount :: int

record cms_inputs =
  ki_analysisBuildId :: string
  ki_releaseCatalogSha256 :: string
  ki_artifact :: artifact_ref
  ki_release :: release_ref
  ki_exporter :: economy_identity
  ki_product :: product_identity
  ki_marketYears :: "market_year list"
  ki_provisionalMarketYears :: "market_year list"
  ki_productYearTotals :: "(int \<times> string) list"

datatype growth_reason = INSUFFICIENT_OBSERVED_YEARS | BELOW_MATERIALITY_THRESHOLD

datatype flow_state = FLOW_RECORDED | FLOW_NO_RECORDED_POSITIVE | FLOW_NOT_APPLICABLE

record percentiles =
  pc_size :: js_number
  pc_growth :: js_number
  pc_foothold :: js_number
  pc_diversity :: js_number

record raw_candidate =
  rw_economy :: economy_identity
  rw_rows :: "market_year list"
  rw_observedYears :: "int list"
  rw_sizeKusd :: js_number
  rw_growth :: "js_number option"
  rw_growthReasonCodes :: "growth_reason list"
  rw_foothold :: js_number
  rw_bilateralFlowState :: flow_state
  rw_diversity :: "js_number option"
  rw_diversityYears :: "int list"
  rw_quantityCoverage :: "js_number option"
  rw_percentiles :: percentiles
  rw_score :: js_number
  rw_rank :: nat
  rw_rankTieSize :: nat
  rw_rankPercentile :: js_number

record window_result =
  wn_candidates :: "raw_candidate list"
  wn_ranksByCode :: "(string \<times> nat) list"

definition WEIGHTS :: "js_number \<times> js_number \<times> js_number \<times> js_number" where
  "WEIGHTS = (Finite 30, Finite 25, Finite 25, Finite 20)"

definition IDENTITY_PROXY_ECONOMY_CODE :: string where
  "IDENTITY_PROXY_ECONOMY_CODE = ''490''"

subsection \<open>Numbers\<close>

definition parseNonnegativeDecimal :: "string \<Rightarrow> string \<Rightarrow> candidate_error + js_number" where
  "parseNonnegativeDecimal value field =
     (if match_decimal value = None
      then Inl (CmsError (field @ '' must be a nonnegative decimal string.''))
      else let parsed = js_Number value
           in if \<not> js_is_finite parsed
              then Inl (CmsError (field @ '' is outside the supported numeric range.''))
              else Inr parsed)"

definition parsePositiveDecimal :: "string \<Rightarrow> string \<Rightarrow> candidate_error + js_number" where
  "parsePositiveDecimal value field =
     ebind (parseNonnegativeDecimal value field) (\<lambda>parsed.
     if js_equal parsed (Finite 0) then Inl (CmsError (field @ '' must be positive.'')) else Inr parsed)"

definition nearlyEqual :: "js_number \<Rightarrow> js_number \<Rightarrow> bool" where
  "nearlyEqual left right = js_ge (to_number (1 / 10 ^ 12)) (js_abs (js_minus left right))"

definition clamp :: "js_number \<Rightarrow> js_number \<Rightarrow> js_number \<Rightarrow> js_number" where
  "clamp value minimum maximum = js_min maximum (js_max minimum value)"

definition js_sum :: "js_number list \<Rightarrow> js_number" where
  "js_sum values = foldl js_plus (Finite 0) values"

definition mean :: "js_number list \<Rightarrow> js_number" where
  "mean values = js_divide (js_sum values) (js_int (int (length values)))"

text \<open>The median is only taken of lists with a member.\<close>

definition median :: "js_number list \<Rightarrow> js_number" where
  "median values =
     (let srt = js_sort js_minus values; middle = length srt div 2
      in if even (length srt) then js_divide (js_plus (srt ! (middle - 1)) (srt ! middle)) (Finite 2)
         else srt ! middle)"

definition roundHalfUp :: "js_number \<Rightarrow> js_number" where
  "roundHalfUp value = js_floor (js_plus (js_plus value (Finite (1 / 2))) (Finite (1 / 2 ^ 52)))"

definition strip_fraction :: "string \<Rightarrow> string" where
  "strip_fraction s =
     (let t = rev (dropWhile (\<lambda>c. c = CHR ''0'') (rev s))
      in if t \<noteq> [] \<and> last t = CHR ''.'' then butlast t else t)"

definition formatDecimal :: "js_number \<Rightarrow> string" where
  "formatDecimal value =
     (if js_is_integer value then js_to_string value else strip_fraction (js_to_fixed 3 value))"

definition validateAndClampRecordedValue ::
  "js_number \<Rightarrow> js_number \<Rightarrow> string \<Rightarrow> string \<Rightarrow> candidate_error + js_number" where
  "validateAndClampRecordedValue value worldValue field worldField =
     (if js_less worldValue value \<and> \<not> nearlyEqual value worldValue
      then Inl (CmsError (field @ '' cannot exceed '' @ worldField @ ''.''))
      else Inr (js_min value worldValue))"

text \<open>The exact decimals that guard the supplier aggregates; the texts were checked before.\<close>

definition parseFixedDecimal :: "string \<Rightarrow> fixed_decimal" where
  "parseFixedDecimal value =
     (let integer = takeWhile (\<lambda>c. c \<noteq> CHR ''.'') value;
          rest = dropWhile (\<lambda>c. c \<noteq> CHR ''.'') value;
          fraction = (if rest = [] then [] else takeWhile (\<lambda>c. c \<noteq> CHR ''.'') (tl rest))
      in \<lparr>units = int (undec (integer @ fraction)), scale = length fraction\<rparr>)"

definition compareFixedDecimals :: "fixed_decimal \<Rightarrow> fixed_decimal \<Rightarrow> int" where
  "compareFixedDecimals left right =
     (let k = max (scale left) (scale right);
          leftUnits = units left * 10 ^ (k - scale left);
          rightUnits = units right * 10 ^ (k - scale right)
      in if leftUnits < rightUnits then - 1 else if rightUnits < leftUnits then 1 else 0)"

subsection \<open>One candidate\<close>

definition calculateLogLinearGrowth :: "math_library \<Rightarrow> market_year list \<Rightarrow> candidate_error + js_number" where
  "calculateLogLinearGrowth M rows =
     (let meanYear = mean (map (\<lambda>row. js_int (my_year row)) rows)
      in ebind (emap (\<lambda>row. ebind (parsePositiveDecimal (my_worldValueKusd row) ''worldValueKusd'')
                              (\<lambda>v. Inr (math_log M v))) rows) (\<lambda>logValues.
         let meanLogValue = mean logValues;
             numerator = foldl (\<lambda>acc (row, l). js_plus acc
               (js_times (js_minus (js_int (my_year row)) meanYear) (js_minus l meanLogValue)))
               (Finite 0) (zip rows logValues);
             denominator = foldl (\<lambda>acc row.
               (let d = js_minus (js_int (my_year row)) meanYear in js_plus acc (js_times d d)))
               (Finite 0) rows
         in Inr (js_minus (math_exp M (js_divide numerator denominator)) (Finite 1))))"

definition calculateAnnualDiversity :: "alternative_suppliers \<Rightarrow> candidate_error + js_number option" where
  "calculateAnnualDiversity suppliers =
     (if \<not> is_safe_integer (as_count suppliers) \<or> as_count suppliers < 0
      then Inl (CmsError ''alternativeSuppliers.count must be a nonnegative safe integer.'')
      else if as_count suppliers = 0
      then ebind (parseNonnegativeDecimal (as_valueKusd suppliers) ''alternativeSuppliers.valueKusd'') (\<lambda>valueKusd.
           ebind (parseNonnegativeDecimal (as_valueSquareSumKusdSquared suppliers)
                    ''alternativeSuppliers.valueSquareSumKusdSquared'') (\<lambda>squareSum.
           if \<not> js_equal valueKusd (Finite 0) \<or> \<not> js_equal squareSum (Finite 0)
           then Inl (CmsError ''Empty alternative supplier evidence must have zero values.'')
           else Inr None))
      else
        ebind (parsePositiveDecimal (as_valueKusd suppliers) ''alternativeSuppliers.valueKusd'') (\<lambda>valueKusd.
        ebind (parsePositiveDecimal (as_valueSquareSumKusdSquared suppliers)
                 ''alternativeSuppliers.valueSquareSumKusdSquared'') (\<lambda>squareSum.
        let exactValue = parseFixedDecimal (as_valueKusd suppliers);
            exactSquareSum = parseFixedDecimal (as_valueSquareSumKusdSquared suppliers);
            exactValueSquared = \<lparr>units = units exactValue * units exactValue, scale = scale exactValue * 2\<rparr>;
            lowerBoundComparison = compareFixedDecimals
              \<lparr>units = units exactSquareSum * as_count suppliers, scale = scale exactSquareSum\<rparr> exactValueSquared;
            upperBoundComparison = compareFixedDecimals exactSquareSum exactValueSquared
        in if lowerBoundComparison < 0 \<or> upperBoundComparison > 0
              \<or> as_count suppliers > 1 \<and> upperBoundComparison = 0
           then Inl (CmsError ''Alternative supplier aggregates are inconsistent.'')
           else
             let rawHhi = js_divide squareSum (js_times valueKusd valueKusd);
                 minimumHhi = js_divide (Finite 1) (js_int (as_count suppliers))
             in if as_count suppliers = 1 then Inr (Some (Finite 0))
                else let normalizedHhi = js_divide (js_minus (clamp rawHhi minimumHhi (Finite 1)) minimumHhi)
                                           (js_minus (Finite 1) minimumHhi)
                     in Inr (Some (js_minus (Finite 1) normalizedHhi)))))"

definition count_row :: "market_year \<Rightarrow> js_number \<times> js_number \<Rightarrow> candidate_error + js_number \<times> js_number" where
  "count_row row counts =
     (if \<not> is_safe_integer (my_sourceFlowCount row) \<or> my_sourceFlowCount row < 0
      then Inl (CmsError ''sourceFlowCount must be a nonnegative safe integer.'')
      else if \<not> is_safe_integer (my_quantityPresentCount row) \<or> my_quantityPresentCount row < 0
              \<or> my_quantityPresentCount row > my_sourceFlowCount row
      then Inl (CmsError ''quantityPresentCount must be a nonnegative safe integer no greater than sourceFlowCount.'')
      else Inr (js_plus (fst counts) (js_int (my_sourceFlowCount row)),
                js_plus (snd counts) (js_int (my_quantityPresentCount row))))"

definition calculateQuantityCoverage :: "market_year list \<Rightarrow> candidate_error + js_number option" where
  "calculateQuantityCoverage rows =
     ebind (efold count_row rows (Finite 0, Finite 0)) (\<lambda>(sourceFlowCount, quantityPresentCount).
     Inr (if js_equal sourceFlowCount (Finite 0) then None
          else Some (js_divide quantityPresentCount sourceFlowCount)))"

definition add_recorded :: "market_year \<times> js_number \<Rightarrow> js_number \<Rightarrow> candidate_error + js_number" where
  "add_recorded rv acc =
     (case my_selectedExporter (fst rv) of
        ExporterNoRecordedPositiveFlow \<Rightarrow> Inr acc
      | ExporterRecorded valueKusd \<Rightarrow>
          ebind (parsePositiveDecimal valueKusd ''selectedExporter.valueKusd'') (\<lambda>recordedValue.
          ebind (validateAndClampRecordedValue recordedValue (snd rv) ''selectedExporter.valueKusd'' ''worldValueKusd'')
            (\<lambda>v. Inr (js_plus acc v))))"

text \<open>\<^verbatim>\<open>sort\<close> by the difference of two years is the stable sort by the year.\<close>

definition computeRawCandidate :: "math_library \<Rightarrow> market_year list \<Rightarrow> candidate_error + raw_candidate" where
  "computeRawCandidate M rows =
     (let sortedRows = sort_key my_year rows in
      ebind (emap (\<lambda>row. parsePositiveDecimal (my_worldValueKusd row) ''worldValueKusd'') sortedRows) (\<lambda>values.
      let sizeKusd = mean values;
          observedYears = map my_year sortedRows;
          growthReasonCodes = (if length sortedRows < 3 then [INSUFFICIENT_OBSERVED_YEARS] else [])
            @ (if js_less sizeKusd (Finite 500) then [BELOW_MATERIALITY_THRESHOLD] else [])
      in ebind (if growthReasonCodes = []
                then ebind (calculateLogLinearGrowth M sortedRows) (\<lambda>g. Inr (Some g)) else Inr None) (\<lambda>growth.
         ebind (efold add_recorded (zip sortedRows values) (Finite 0)) (\<lambda>recordedValueKusd.
         let worldValueKusd = js_sum values in
         ebind (emap (\<lambda>row. calculateAnnualDiversity (my_alternativeSuppliers row)) sortedRows) (\<lambda>diversities.
         let diversityByYear = List.map_filter (\<lambda>(row, d). map_option (Pair (my_year row)) d)
                                 (zip sortedRows diversities) in
         ebind (calculateQuantityCoverage sortedRows) (\<lambda>quantityCoverage.
         Inr \<lparr>rw_economy = my_candidateMarket (hd sortedRows), rw_rows = sortedRows,
              rw_observedYears = observedYears, rw_sizeKusd = sizeKusd, rw_growth = growth,
              rw_growthReasonCodes = growthReasonCodes,
              rw_foothold = clamp (js_divide recordedValueKusd worldValueKusd) (Finite 0) (Finite 1),
              rw_bilateralFlowState =
                (if js_less (Finite 0) recordedValueKusd then FLOW_RECORDED else FLOW_NO_RECORDED_POSITIVE),
              rw_diversity = (if diversityByYear = [] then None else Some (mean (map snd diversityByYear))),
              rw_diversityYears = map fst diversityByYear,
              rw_quantityCoverage = quantityCoverage,
              rw_percentiles = \<lparr>pc_size = Finite 0, pc_growth = Finite 0, pc_foothold = Finite 0,
                                pc_diversity = Finite 0\<rparr>,
              rw_score = Finite 0, rw_rank = 0, rw_rankTieSize = 0, rw_rankPercentile = Finite 0\<rparr>))))))"

subsection \<open>Percentiles, scores and ranks of a window\<close>

text \<open>The computed values in ascending order, ties by the number of the code; a value is kept with the
  position of its candidate.\<close>

definition compare_values ::
  "raw_candidate list \<Rightarrow> nat \<times> js_number \<Rightarrow> nat \<times> js_number \<Rightarrow> js_number" where
  "compare_values candidates left right =
     js_or (js_minus (snd left) (snd right))
       (js_minus (js_Number (ec_code (rw_economy (candidates ! fst left))))
                 (js_Number (ec_code (rw_economy (candidates ! fst right)))))"

definition computed_values :: "(raw_candidate \<Rightarrow> js_number option) \<Rightarrow> raw_candidate list \<Rightarrow> (nat \<times> js_number) list" where
  "computed_values rawKey candidates =
     js_sort (compare_values candidates)
       (List.map_filter (\<lambda>(i, c). map_option (Pair i) (rawKey c)) (enumerate 0 candidates))"

text \<open>The loop over the groups of nearly equal values, which gives every member the mid-rank percentile
  of its group: \<^theory_text>\<open>index\<close> is the position of the first value of the rest, \<^theory_text>\<open>n\<close> the number of values.\<close>

definition group_percentile :: "nat \<Rightarrow> nat \<Rightarrow> nat \<Rightarrow> js_number" where
  "group_percentile index groupEnd n =
     (let averageRank = js_divide (js_int (int (index + 1 + groupEnd))) (Finite 2)
      in js_divide (js_times (Finite 100) (js_minus averageRank (Finite (1 / 2)))) (js_int (int n)))"

function percentile_loop :: "nat \<Rightarrow> nat \<Rightarrow> (nat \<times> js_number) list \<Rightarrow> (nat \<times> js_number) list" where
  "percentile_loop index n [] = []"
| "percentile_loop index n (x # xs) =
     (let tied = takeWhile (\<lambda>y. nearlyEqual (snd y) (snd x)) xs;
          groupEnd = index + 1 + length tied;
          percentile = group_percentile index groupEnd n
      in map (\<lambda>y. (fst y, percentile)) (x # tied) @ percentile_loop groupEnd n (drop (length tied) xs))"
  by pat_completeness auto
termination by (relation "measure (\<lambda>(index, n, xs). length xs)") auto

definition applyPercentiles ::
  "(raw_candidate \<Rightarrow> js_number option) \<Rightarrow> (js_number \<Rightarrow> percentiles \<Rightarrow> percentiles) \<Rightarrow>
   raw_candidate list \<Rightarrow> raw_candidate list" where
  "applyPercentiles rawKey setPercentile candidates =
     (let computed = computed_values rawKey candidates;
          given = map_of (percentile_loop 0 (length computed) computed);
          assigned = map (\<lambda>(i, c). case given i of
              None \<Rightarrow> c
            | Some p \<Rightarrow> c\<lparr>rw_percentiles := setPercentile p (rw_percentiles c)\<rparr>) (enumerate 0 candidates)
      in map (\<lambda>c. if rawKey c = None then c\<lparr>rw_percentiles := setPercentile (Finite 50) (rw_percentiles c)\<rparr>
                  else c) assigned)"

definition raw_score :: "percentiles \<Rightarrow> js_number" where
  "raw_score p =
     (case WEIGHTS of (marketSize, marketGrowth, recordedFoothold, supplierDiversity) \<Rightarrow>
        js_divide
          (js_plus (js_plus (js_plus
             (js_times marketSize (pc_size p)) (js_times marketGrowth (pc_growth p)))
             (js_times recordedFoothold (pc_foothold p))) (js_times supplierDiversity (pc_diversity p)))
          (Finite 100))"

definition score_candidate :: "raw_candidate \<Rightarrow> raw_candidate" where
  "score_candidate c = c\<lparr>rw_score := roundHalfUp (raw_score (rw_percentiles c))\<rparr>"

definition compare_scores :: "raw_candidate \<Rightarrow> raw_candidate \<Rightarrow> js_number" where
  "compare_scores left right =
     js_or (js_minus (rw_score right) (rw_score left))
       (js_minus (js_Number (ec_code (rw_economy left))) (js_Number (ec_code (rw_economy right))))"

definition rank_percentile_of :: "nat \<Rightarrow> nat \<Rightarrow> nat \<Rightarrow> js_number" where
  "rank_percentile_of rank groupEnd n =
     (let averagePosition = js_divide (js_int (int (rank + groupEnd))) (Finite 2)
      in if n = 1 then Finite 50
         else js_divide (js_times (Finite 100) (js_minus (js_int (int n)) averagePosition)) (js_int (int n - 1)))"

function rank_loop :: "nat \<Rightarrow> nat \<Rightarrow> raw_candidate list \<Rightarrow> raw_candidate list" where
  "rank_loop groupStart n [] = []"
| "rank_loop groupStart n (x # xs) =
     (let tied = takeWhile (\<lambda>y. js_equal (rw_score y) (rw_score x)) xs;
          groupEnd = groupStart + 1 + length tied;
          rank = groupStart + 1;
          percentile = rank_percentile_of rank groupEnd n
      in map (\<lambda>c. c\<lparr>rw_rank := rank, rw_rankTieSize := groupEnd - groupStart, rw_rankPercentile := percentile\<rparr>)
           (x # tied) @ rank_loop groupEnd n (drop (length tied) xs))"
  by pat_completeness auto
termination by (relation "measure (\<lambda>(groupStart, n, xs). length xs)") auto

definition assignRanks :: "raw_candidate list \<Rightarrow> raw_candidate list" where
  "assignRanks candidates = rank_loop 0 (length candidates) candidates"

text \<open>The rows of each economy, in the order in which the economies first occur.\<close>

fun add_to_group :: "market_year \<Rightarrow> (string \<times> market_year list) list \<Rightarrow> (string \<times> market_year list) list" where
  "add_to_group row [] = [(ec_code (my_candidateMarket row), [row])]"
| "add_to_group row ((code, rows) # groups) =
     (if code = ec_code (my_candidateMarket row) then (code, rows @ [row]) # groups
      else (code, rows) # add_to_group row groups)"

definition group_rows :: "market_year list \<Rightarrow> (string \<times> market_year list) list" where
  "group_rows rows = foldl (\<lambda>groups row. add_to_group row groups) [] rows"

definition score_candidates :: "raw_candidate list \<Rightarrow> raw_candidate list" where
  "score_candidates candidates =
     (let c1 = applyPercentiles (\<lambda>c. Some (rw_sizeKusd c)) (\<lambda>p v. v\<lparr>pc_size := p\<rparr>) candidates;
          c2 = applyPercentiles rw_growth (\<lambda>p v. v\<lparr>pc_growth := p\<rparr>) c1;
          c3 = applyPercentiles (\<lambda>c. Some (rw_foothold c)) (\<lambda>p v. v\<lparr>pc_foothold := p\<rparr>) c2;
          c4 = applyPercentiles rw_diversity (\<lambda>p v. v\<lparr>pc_diversity := p\<rparr>) c3
      in assignRanks (js_sort compare_scores (map score_candidate c4)))"

definition computeWindow :: "math_library \<Rightarrow> market_year list \<Rightarrow> int \<times> int \<Rightarrow> candidate_error + window_result" where
  "computeWindow M rows window =
     (let inWindow = filter (\<lambda>row. \<not> (my_year row < fst window \<or> my_year row > snd window)) rows in
      ebind (emap (\<lambda>g. computeRawCandidate M (snd g)) (group_rows inWindow)) (\<lambda>raw.
      let candidates = score_candidates raw
      in Inr \<lparr>wn_candidates = candidates,
              wn_ranksByCode = map (\<lambda>c. (ec_code (rw_economy c), rw_rank c)) candidates\<rparr>))"

subsection \<open>Stability and the dominant market\<close>

datatype stability_state = NOT_FLAGGED | STABILITY_LOW | NOT_ESTIMATED_SMALL_COMMON_COHORT

record stability_evidence =
  sy_window :: "int \<times> int"
  sy_commonCandidateCount :: nat
  sy_state :: stability_state
  sy_rankCorrelation :: "string option"

definition pearsonCorrelation :: "math_library \<Rightarrow> js_number list \<Rightarrow> js_number list \<Rightarrow> js_number" where
  "pearsonCorrelation M left right =
     (let leftMean = mean left; rightMean = mean right;
          numerator = foldl (\<lambda>acc (l, r). js_plus acc (js_times (js_minus l leftMean) (js_minus r rightMean)))
                        (Finite 0) (zip left right);
          squares = (\<lambda>values m. foldl (\<lambda>acc v. let d = js_minus v m in js_plus acc (js_times d d)) (Finite 0) values);
          leftMagnitude = math_sqrt M (squares left leftMean);
          rightMagnitude = math_sqrt M (squares right rightMean)
      in if js_equal leftMagnitude (Finite 0) \<or> js_equal rightMagnitude (Finite 0) then Finite 1
         else js_divide numerator (js_times leftMagnitude rightMagnitude))"

definition compareWindowRanks ::
  "math_library \<Rightarrow> window_result \<Rightarrow> window_result \<Rightarrow> int \<times> int \<Rightarrow> stability_evidence" where
  "compareWindowRanks M primary alternate window =
     (let commonCodes = js_sort (\<lambda>l r. js_minus (js_Number l) (js_Number r))
            (filter (\<lambda>code. code \<in> set (map fst (wn_ranksByCode alternate))) (map fst (wn_ranksByCode primary)))
      in if length commonCodes < 10
         then \<lparr>sy_window = window, sy_commonCandidateCount = length commonCodes,
               sy_state = NOT_ESTIMATED_SMALL_COMMON_COHORT, sy_rankCorrelation = None\<rparr>
         else
           let ranks = (\<lambda>w. map (\<lambda>code. js_int (int (the (map_of (wn_ranksByCode w) code)))) commonCodes);
               correlation = pearsonCorrelation M (ranks primary) (ranks alternate)
           in \<lparr>sy_window = window, sy_commonCandidateCount = length commonCodes,
               sy_state = (if js_less correlation (to_number (7 / 10)) \<and> \<not> nearlyEqual correlation (to_number (7 / 10))
                           then STABILITY_LOW else NOT_FLAGGED),
               sy_rankCorrelation = Some (js_to_fixed 6 correlation)\<rparr>)"

definition findDominantCandidate :: "raw_candidate list \<Rightarrow> string option" where
  "findDominantCandidate candidates =
     (if candidates = [] then None
      else
        let totalSize = foldl (\<lambda>acc c. js_plus acc (rw_sizeKusd c)) (Finite 0) candidates;
            largest = hd (js_sort (\<lambda>left right. js_minus (rw_sizeKusd right) (rw_sizeKusd left)) candidates)
        in if js_less (Finite (1 / 2)) (js_divide (rw_sizeKusd largest) totalSize)
           then Some (ec_code (rw_economy largest)) else None)"

definition yearly_change ::
  "math_library \<Rightarrow> (int \<times> string) \<times> (int \<times> string) \<Rightarrow> candidate_error + int \<times> js_number" where
  "yearly_change M pair =
     (case pair of (previous, entry) \<Rightarrow>
        if fst entry \<noteq> fst previous + 1 then Inl (CmsError ''Product-year totals must be contiguous.'')
        else
          ebind (parsePositiveDecimal (snd entry) ''productYearTotals.worldValueKusd'') (\<lambda>currentValue.
          ebind (parsePositiveDecimal (snd previous) ''productYearTotals.worldValueKusd'') (\<lambda>previousValue.
          Inr (fst entry, math_log M (js_divide currentValue previousValue)))))"

definition findDiscontinuityYears :: "math_library \<Rightarrow> (int \<times> string) list \<Rightarrow> candidate_error + int list" where
  "findDiscontinuityYears M totals =
     (let sortedTotals = sort_key fst totals
      in if length sortedTotals < 2 then Inr []
         else ebind (emap (yearly_change M) (zip sortedTotals (tl sortedTotals))) (\<lambda>changes.
           let center = median (map snd changes);
               mad = median (map (\<lambda>c. js_abs (js_minus (snd c) center)) changes);
               threshold = js_max (js_times (Finite 4) mad) (math_log M (Finite 3))
           in Inr (map fst (filter (\<lambda>c. js_less threshold (js_abs (js_minus (snd c) center))) changes))))"

subsection \<open>The published candidate\<close>

datatype deduction_code =
  MISSING_SCORE_WINDOW_YEARS | MISSING_CUTOFF_YEAR_EVIDENCE | SMALL_BASE
  | UNKNOWN_ALTERNATIVE_SUPPLIER_STRUCTURE | POSSIBLE_SERIES_DISCONTINUITY | LOW_STABILITY
  | SMALL_CANDIDATE_COHORT | NO_EXPORTER_PRODUCT_HISTORY | PROXY_IDENTITY

datatype confidence_label = CONFIDENCE_HIGH | CONFIDENCE_MEDIUM | CONFIDENCE_LOW

record candidate_confidence =
  cf_score :: int
  cf_label :: confidence_label
  cf_deductions :: "(deduction_code \<times> int) list"
  cf_sparseEvidenceCapApplied :: bool

datatype caveat_code =
  CAVEAT_NO_RECORDED_POSITIVE_FLOW | CAVEAT_IDENTITY_PROXY | EXTREME_NOMINAL_GROWTH | DOMINANT_SIZE_OUTLIER
  | CAVEAT_POSSIBLE_PRODUCT_SERIES_DISCONTINUITY | CAVEAT_LOW_WINDOW_STABILITY
  | STABILITY_NOT_ESTIMATED_SMALL_COMMON_COHORT

record provisional_market =
  pm_year :: int
  pm_marketState :: flow_state
  pm_marketImportCurrentUsd :: "string option"
  pm_bilateralState :: flow_state
  pm_bilateralCurrentUsd :: "string option"
  pm_recordedBilateralShare :: "string option"
  pm_quantityCoverageRate :: "string option"

datatype component_state = COMPUTED | NEUTRAL

record market_size_component =
  ms_state :: component_state
  ms_meanCurrentUsd :: string
  ms_percentile :: js_number
  ms_yearsUsed :: "int list"

record market_growth_component =
  mg_state :: component_state
  mg_annualRate :: "string option"
  mg_percentile :: js_number
  mg_yearsUsed :: "int list"
  mg_reasonCodes :: "growth_reason list"

record foothold_component =
  fh_state :: component_state
  fh_share :: string
  fh_percentile :: js_number
  fh_bilateralFlowState :: flow_state
  fh_wording :: "string option"

record diversity_component =
  dv_state :: component_state
  dv_index :: "string option"
  dv_percentile :: js_number
  dv_yearsUsed :: "int list"
  dv_reasonCode :: "string option"

record candidate_market =
  cm_economy :: economy_identity
  cm_score :: js_number
  cm_rank :: nat
  cm_rankTieSize :: nat
  cm_rankPercentile :: string
  cm_observedScoreYears :: "int list"
  cm_missingScoreYears :: "int list"
  cm_latestFinalizedObservedYear :: int
  cm_marketSize :: market_size_component
  cm_marketGrowth :: market_growth_component
  cm_recordedFoothold :: foothold_component
  cm_supplierDiversity :: diversity_component
  cm_confidence :: candidate_confidence
  cm_quantityCoverageRate :: "string option"
  cm_provisionalEvidence :: provisional_market
  cm_caveatCodes :: "caveat_code list"
  cm_releaseRevision :: "candidate_revision option"

record window_stability =
  wy_threeYear :: stability_evidence
  wy_tenYear :: stability_evidence

definition addDeduction :: "deduction_code \<Rightarrow> int \<Rightarrow> (deduction_code \<times> int) list \<Rightarrow> (deduction_code \<times> int) list" where
  "addDeduction code points deductions = (if points > 0 then deductions @ [(code, points)] else deductions)"

definition low_stability :: "window_stability \<Rightarrow> bool" where
  "low_stability stability \<longleftrightarrow>
     sy_state (wy_threeYear stability) = STABILITY_LOW \<or> sy_state (wy_tenYear stability) = STABILITY_LOW"

definition calculateConfidence ::
  "raw_candidate \<Rightarrow> int list \<Rightarrow> int \<Rightarrow> int list \<Rightarrow> window_stability \<Rightarrow> bool \<Rightarrow> nat \<Rightarrow> candidate_confidence" where
  "calculateConfidence candidate missingScoreYears cutoffYear discontinuityYears stability exporterHasHistory cohortSize =
     (let d1 = addDeduction MISSING_SCORE_WINDOW_YEARS (min 40 (int (length missingScoreYears) * 10)) [];
          d2 = addDeduction MISSING_CUTOFF_YEAR_EVIDENCE (if cutoffYear \<in> set (rw_observedYears candidate) then 0 else 15) d1;
          d3 = addDeduction SMALL_BASE (if js_less (rw_sizeKusd candidate) (Finite 500) then 15 else 0) d2;
          d4 = addDeduction UNKNOWN_ALTERNATIVE_SUPPLIER_STRUCTURE (if rw_diversity candidate = None then 10 else 0) d3;
          d5 = addDeduction POSSIBLE_SERIES_DISCONTINUITY (if length discontinuityYears > 0 then 15 else 0) d4;
          d6 = addDeduction LOW_STABILITY (if low_stability stability then 10 else 0) d5;
          d7 = addDeduction SMALL_CANDIDATE_COHORT (if cohortSize < 10 then 10 else 0) d6;
          d8 = addDeduction NO_EXPORTER_PRODUCT_HISTORY (if exporterHasHistory then 0 else 10) d7;
          deductions = addDeduction PROXY_IDENTITY
            (if ec_code (rw_economy candidate) = IDENTITY_PROXY_ECONOMY_CODE then 10 else 0) d8;
          afterDeductions = max 0 (100 - foldl (\<lambda>total deduction. total + snd deduction) 0 deductions);
          cappedScore = (if length (rw_observedYears candidate) \<le> 2 then min afterDeductions 40 else afterDeductions)
      in \<lparr>cf_score = cappedScore,
          cf_label = (if cappedScore \<ge> 80 then CONFIDENCE_HIGH else if cappedScore \<ge> 50 then CONFIDENCE_MEDIUM
                      else CONFIDENCE_LOW),
          cf_deductions = deductions,
          cf_sparseEvidenceCapApplied = (cappedScore < afterDeductions)\<rparr>)"

definition buildCaveatCodes ::
  "raw_candidate \<Rightarrow> window_stability \<Rightarrow> int list \<Rightarrow> string option \<Rightarrow> caveat_code list" where
  "buildCaveatCodes candidate stability discontinuityYears dominantCandidateCode =
     (if rw_bilateralFlowState candidate = FLOW_NO_RECORDED_POSITIVE then [CAVEAT_NO_RECORDED_POSITIVE_FLOW] else [])
     @ (if ec_code (rw_economy candidate) = IDENTITY_PROXY_ECONOMY_CODE then [CAVEAT_IDENTITY_PROXY] else [])
     @ (case rw_growth candidate of
          None \<Rightarrow> []
        | Some g \<Rightarrow> if js_less (Finite (3 / 4)) (js_abs g) then [EXTREME_NOMINAL_GROWTH] else [])
     @ (if Some (ec_code (rw_economy candidate)) = dominantCandidateCode then [DOMINANT_SIZE_OUTLIER] else [])
     @ (if length discontinuityYears > 0 then [CAVEAT_POSSIBLE_PRODUCT_SERIES_DISCONTINUITY] else [])
     @ (if low_stability stability then [CAVEAT_LOW_WINDOW_STABILITY]
        else if sy_state (wy_threeYear stability) = NOT_ESTIMATED_SMALL_COMMON_COHORT
                \<or> sy_state (wy_tenYear stability) = NOT_ESTIMATED_SMALL_COMMON_COHORT
        then [STABILITY_NOT_ESTIMATED_SMALL_COMMON_COHORT] else [])"

definition buildProvisionalEvidence :: "market_year option \<Rightarrow> int \<Rightarrow> candidate_error + provisional_market" where
  "buildProvisionalEvidence row provisionalYear =
     (case row of
        None \<Rightarrow> Inr \<lparr>pm_year = provisionalYear, pm_marketState = FLOW_NO_RECORDED_POSITIVE,
                     pm_marketImportCurrentUsd = None, pm_bilateralState = FLOW_NOT_APPLICABLE,
                     pm_bilateralCurrentUsd = None, pm_recordedBilateralShare = None,
                     pm_quantityCoverageRate = None\<rparr>
      | Some r \<Rightarrow>
          ebind (parsePositiveDecimal (my_worldValueKusd r) ''provisional.worldValueKusd'') (\<lambda>marketValueKusd.
          ebind (case my_selectedExporter r of
                   ExporterNoRecordedPositiveFlow \<Rightarrow> Inr None
                 | ExporterRecorded valueKusd \<Rightarrow>
                     ebind (parsePositiveDecimal valueKusd ''provisional.selectedExporter.valueKusd'') (\<lambda>v.
                     ebind (validateAndClampRecordedValue v marketValueKusd
                              ''provisional.selectedExporter.valueKusd'' ''provisional.worldValueKusd'') (\<lambda>w.
                     Inr (Some w)))) (\<lambda>bilateralValueKusd.
          ebind (calculateQuantityCoverage [r]) (\<lambda>quantityCoverage.
          Inr \<lparr>pm_year = provisionalYear, pm_marketState = FLOW_RECORDED,
               pm_marketImportCurrentUsd = Some (formatDecimal (js_times marketValueKusd (Finite 1000))),
               pm_bilateralState = (if bilateralValueKusd = None then FLOW_NO_RECORDED_POSITIVE else FLOW_RECORDED),
               pm_bilateralCurrentUsd = map_option (\<lambda>b. formatDecimal (js_times b (Finite 1000))) bilateralValueKusd,
               pm_recordedBilateralShare =
                 map_option (\<lambda>b. js_to_fixed 6 (js_divide b marketValueKusd)) bilateralValueKusd,
               pm_quantityCoverageRate = map_option (js_to_fixed 6) quantityCoverage\<rparr>))))"

definition toPublicCandidate ::
  "cms_inputs \<Rightarrow> int \<times> int \<Rightarrow> window_stability \<Rightarrow> int list \<Rightarrow> bool \<Rightarrow> string option \<Rightarrow> nat \<Rightarrow>
   candidate_revision option \<Rightarrow> raw_candidate \<Rightarrow> candidate_error + candidate_market" where
  "toPublicCandidate inp primaryWindow stability discontinuityYears exporterHasHistory dominantCandidateCode
       cohortSize releaseRevision candidate =
     (let missingScoreYears = filter (\<lambda>year. year \<notin> set (rw_observedYears candidate))
                                (yearsBetween (fst primaryWindow) (snd primaryWindow));
          confidence = calculateConfidence candidate missingScoreYears (snd primaryWindow) discontinuityYears
                         stability exporterHasHistory cohortSize;
          caveatCodes = buildCaveatCodes candidate stability discontinuityYears dominantCandidateCode;
          provisional = find (\<lambda>row. ec_code (my_candidateMarket row) = ec_code (rw_economy candidate)
                                    \<and> my_year row = rel_provisionalYear (ki_release inp)) (ki_provisionalMarketYears inp)
      in ebind (buildProvisionalEvidence provisional (rel_provisionalYear (ki_release inp))) (\<lambda>provisionalEvidence.
         Inr \<lparr>cm_economy = rw_economy candidate, cm_score = rw_score candidate, cm_rank = rw_rank candidate,
              cm_rankTieSize = rw_rankTieSize candidate,
              cm_rankPercentile = js_to_fixed 3 (rw_rankPercentile candidate),
              cm_observedScoreYears = rw_observedYears candidate, cm_missingScoreYears = missingScoreYears,
              cm_latestFinalizedObservedYear = last (rw_observedYears candidate),
              cm_marketSize =
                \<lparr>ms_state = COMPUTED,
                 ms_meanCurrentUsd = formatDecimal (js_times (rw_sizeKusd candidate) (Finite 1000)),
                 ms_percentile = roundHalfUp (pc_size (rw_percentiles candidate)),
                 ms_yearsUsed = rw_observedYears candidate\<rparr>,
              cm_marketGrowth =
                \<lparr>mg_state = (if rw_growth candidate = None then NEUTRAL else COMPUTED),
                 mg_annualRate = map_option (js_to_fixed 6) (rw_growth candidate),
                 mg_percentile = roundHalfUp (pc_growth (rw_percentiles candidate)),
                 mg_yearsUsed = (if rw_growth candidate = None then [] else rw_observedYears candidate),
                 mg_reasonCodes = rw_growthReasonCodes candidate\<rparr>,
              cm_recordedFoothold =
                \<lparr>fh_state = COMPUTED, fh_share = js_to_fixed 6 (rw_foothold candidate),
                 fh_percentile = roundHalfUp (pc_foothold (rw_percentiles candidate)),
                 fh_bilateralFlowState = rw_bilateralFlowState candidate,
                 fh_wording = (if rw_bilateralFlowState candidate = FLOW_NO_RECORDED_POSITIVE
                               then Some ''No recorded bilateral flow in the score window'' else None)\<rparr>,
              cm_supplierDiversity =
                \<lparr>dv_state = (if rw_diversity candidate = None then NEUTRAL else COMPUTED),
                 dv_index = map_option (js_to_fixed 6) (rw_diversity candidate),
                 dv_percentile = roundHalfUp (pc_diversity (rw_percentiles candidate)),
                 dv_yearsUsed = rw_diversityYears candidate,
                 dv_reasonCode = (if rw_diversity candidate = None
                                  then Some ''NO_COMPUTABLE_ALTERNATIVE_SUPPLIER_YEAR'' else None)\<rparr>,
              cm_confidence = confidence,
              cm_quantityCoverageRate = map_option (js_to_fixed 6) (rw_quantityCoverage candidate),
              cm_provisionalEvidence = provisionalEvidence,
              cm_caveatCodes = caveatCodes,
              cm_releaseRevision = releaseRevision\<rparr>))"

subsection \<open>The recipe\<close>

record cms_result =
  kr_schemaVersion :: string
  kr_analysisId :: string
  kr_analysisBuildId :: string
  kr_releaseCatalogSha256 :: string
  kr_query :: "economy_identity \<times> product_identity"
  kr_provenance :: provenance
  kr_finalizedCutoffYear :: int
  kr_scoreVersion :: string
  kr_weights :: "js_number \<times> js_number \<times> js_number \<times> js_number"
  kr_cohortSize :: nat
  kr_emptyReason :: "string option"
  kr_stability :: window_stability
  kr_productSeriesDiscontinuityYears :: "int list"
  kr_releaseRevisionSummary :: "comparison_identity \<times> nat option"
  kr_candidates :: "candidate_market list"
  kr_discoveryDisclaimer :: string

definition DISCOVERY_DISCLAIMER :: string where
  "DISCOVERY_DISCLAIMER =
     ''Candidate Market evidence is a discovery aid for further investigation, not a recommendation or prediction of commercial success.''"

definition snapshot_of :: "raw_candidate \<Rightarrow> candidate_snapshot" where
  "snapshot_of c = \<lparr>cs_code = ec_code (rw_economy c), cs_score = rw_score c,
                    cs_rankPercentile = RankNumber (rw_rankPercentile c)\<rparr>"

definition computeCmsV1 ::
  "math_library \<Rightarrow> cms_inputs \<Rightarrow> previous_artifact option \<Rightarrow> candidate_error + cms_result" where
  "computeCmsV1 M inp previousArtifact =
     (if art_baciRelease (ki_artifact inp) \<noteq> rel_baciRelease (ki_release inp)
      then Inl (CmsTypeError ''A Candidate Market Score cannot mix BACI Releases.'')
      else
        let cutoffYear = rel_finalizedCutoffYear (ki_release inp);
            primaryWindow = (cutoffYear - 4, cutoffYear);
            threeYearWindow = (cutoffYear - 2, cutoffYear);
            tenYearWindow = (cutoffYear - 9, cutoffYear) in
        ebind (computeWindow M (ki_marketYears inp) primaryWindow) (\<lambda>primary.
        ebind (computeWindow M (ki_marketYears inp) threeYearWindow) (\<lambda>threeYear.
        ebind (computeWindow M (ki_marketYears inp) tenYearWindow) (\<lambda>tenYear.
        let stability = \<lparr>wy_threeYear = compareWindowRanks M primary threeYear threeYearWindow,
                         wy_tenYear = compareWindowRanks M primary tenYear tenYearWindow\<rparr> in
        ebind (findDiscontinuityYears M (ki_productYearTotals inp)) (\<lambda>discontinuityYears.
        let exporterHasHistory = list_ex (\<lambda>c. rw_bilateralFlowState c = FLOW_RECORDED) (wn_candidates primary);
            dominantCandidateCode = findDominantCandidate (wn_candidates primary);
            releaseRevision = compareReleaseRevisions
              \<lparr>cr_baciRelease = rel_baciRelease (ki_release inp), cr_hsRevision = rel_hsRevision (ki_release inp),
               cr_scoreVersion = ''cms-v1'', cr_scoreWindow = primaryWindow,
               cr_candidates = map snapshot_of (wn_candidates primary)\<rparr> previousArtifact in
        ebind (emap (\<lambda>candidate. toPublicCandidate inp primaryWindow stability discontinuityYears exporterHasHistory
                  dominantCandidateCode (length (wn_candidates primary))
                  (rc_candidates releaseRevision (ec_code (rw_economy candidate))) candidate)
                (wn_candidates primary)) (\<lambda>candidates.
        Inr \<lparr>kr_schemaVersion = ''candidate-market-result-v1'',
             kr_analysisId = ''analysis:'' @ ki_analysisBuildId inp @ '':'' @ ec_code (ki_exporter inp) @ '':''
                               @ pr_code (ki_product inp),
             kr_analysisBuildId = ki_analysisBuildId inp,
             kr_releaseCatalogSha256 = ki_releaseCatalogSha256 inp,
             kr_query = (ki_exporter inp, ki_product inp),
             kr_provenance = provenance_of (ki_release inp) (ki_artifact inp) primaryWindow,
             kr_finalizedCutoffYear = cutoffYear,
             kr_scoreVersion = ''cms-v1'',
             kr_weights = WEIGHTS,
             kr_cohortSize = length candidates,
             kr_emptyReason = (if length candidates = 0
                               then Some ''NO_ELIGIBLE_CANDIDATES_IN_SCORE_WINDOW'' else None),
             kr_stability = stability,
             kr_productSeriesDiscontinuityYears = discontinuityYears,
             kr_releaseRevisionSummary =
               (comparison_identity.truncate releaseRevision, rc_noLongerEligibleCount releaseRevision),
             kr_candidates = candidates,
             kr_discoveryDisclaimer = DISCOVERY_DISCLAIMER\<rparr>))))))"

end
