(* ===== verification/Tie_Ranking.thy ===== *)
theory Tie_Ranking
  imports Candidate_Market
begin

text \<open>
  The competition ranking that the recipes share: a loop over a list, sorted by falling score, that gives every
  group of equal scores one rank, its size and its percentile. The locale \<^theory_text>\<open>tie_ranking\<close> states the loop by its
  equations; its lemmas say that the ranks count the higher scores and the equal ones.
\<close>

fun score_value :: "js_number \<Rightarrow> rat" where
  "score_value (Finite x) = x"
| "score_value _ = 0"

definition higher_scores :: "('a \<Rightarrow> js_number) \<Rightarrow> 'a list \<Rightarrow> js_number \<Rightarrow> nat" where
  "higher_scores score cs s = length (filter (\<lambda>d. js_less s (score d)) cs)"

definition equal_scores :: "('a \<Rightarrow> js_number) \<Rightarrow> 'a list \<Rightarrow> js_number \<Rightarrow> nat" where
  "equal_scores score cs s = length (filter (\<lambda>d. score d = s) cs)"

definition lower_scores :: "('a \<Rightarrow> js_number) \<Rightarrow> 'a list \<Rightarrow> js_number \<Rightarrow> nat" where
  "lower_scores score cs s = length (filter (\<lambda>d. js_less (score d) s) cs)"

lemmas score_counts = higher_scores_def equal_scores_def lower_scores_def

lemma score_counts_map:
  assumes "map score xs = map score' ys"
  shows "higher_scores score xs s = higher_scores score' ys s" "equal_scores score xs s = equal_scores score' ys s"
    "lower_scores score xs s = lower_scores score' ys s"
proof -
  have "length (filter (\<lambda>d. P (sc d)) zs) = length (filter P (map sc zs))" for P zs and sc :: "'c \<Rightarrow> js_number"
    by (simp add: filter_map comp_def)
  then have cnt: "length (filter (\<lambda>d. P (score d)) xs) = length (filter (\<lambda>d. P (score' d)) ys)" for P
    using assms by metis
  then show "higher_scores score xs s = higher_scores score' ys s" "equal_scores score xs s = equal_scores score' ys s"
    "lower_scores score xs s = lower_scores score' ys s"
    using cnt [of "js_less s"] cnt [of "\<lambda>t. t = s"] cnt [of "\<lambda>t. js_less t s"] by (simp_all add: score_counts)
qed

lemma score_counts_partition:
  assumes "\<forall>d \<in> set cs. \<exists>x. score d = Finite x"
  shows "higher_scores score cs (Finite y) + equal_scores score cs (Finite y) + lower_scores score cs (Finite y) = length cs"
  using assms by (induction cs) (auto simp: score_counts)

lemma sorted_falling_iff: "sorted (map (\<lambda>c. - score_value (score c)) (x # xs)) \<longleftrightarrow>
    (\<forall>y \<in> set xs. score_value (score y) \<le> score_value (score x)) \<and> sorted (map (\<lambda>c. - score_value (score c)) xs)"
  by auto

lemma js_int_minus_half:
  assumes "m \<le> 2 * n" "n \<le> 2 ^ 38"
  shows "js_minus (js_int (int n)) (js_divide (js_int (int m)) (Finite 2)) = Finite (of_nat (2 * n - m) / 2)"
proof -
  have "js_int (int n) = Finite (of_nat n)" "js_int (int m) = Finite (of_nat m)" using assms by (intro js_int_nat; simp)+
  moreover have "js_divide (Finite (of_nat m)) (Finite 2) = Finite (of_nat m / 2)"
    using nearest_double_half [of m] assms by simp
  moreover have "(of_nat n - of_nat m / 2 :: rat) = of_nat (2 * n - m) / 2" using assms by (simp add: of_nat_diff diff_divide_distrib)
  moreover have "2 * n - m \<le> 2 ^ 40" using assms(2) by simp
  from nearest_double_half [OF this] have "to_number (of_nat (2 * n - m) / 2) = Finite (of_nat (2 * n - m) / 2)" .
  ultimately show ?thesis by (simp only: js_minus.simps)
qed

lemma rank_percentile_value:
  assumes "rank + groupEnd \<le> 2 * n" "n \<le> 2 ^ 38" "1 < n"
  shows "rank_percentile_of rank groupEnd n = to_number (50 * of_nat (2 * n - (rank + groupEnd)) / of_nat (n - 1))"
proof -
  let ?d = "2 * n - (rank + groupEnd)"
  have "(100::rat) * (of_nat ?d / 2) = of_int (50 * int ?d)" by simp
  then have prod: "js_times (Finite 100) (Finite (of_nat ?d / 2)) = Finite (of_int (50 * int ?d))"
    using to_number_int [of "50 * int ?d"] assms by (simp only: js_times.simps) simp
  have "js_int (int n - 1) = Finite (of_nat (n - 1))" using js_int_nat [of "n - 1"] assms by (simp add: of_nat_diff)
  with assms show ?thesis
    unfolding rank_percentile_of_def Let_def js_int_minus_half [OF assms(1,2)] prod by simp
qed

locale tie_ranking =
  fixes score :: "'a \<Rightarrow> js_number"
    and put :: "nat \<Rightarrow> nat \<Rightarrow> js_number \<Rightarrow> 'a \<Rightarrow> 'a"
    and rank_of :: "'a \<Rightarrow> nat" and tie_of :: "'a \<Rightarrow> nat" and percentile_of :: "'a \<Rightarrow> js_number"
    and loop :: "nat \<Rightarrow> nat \<Rightarrow> 'a list \<Rightarrow> 'a list"
  assumes loop_Nil: "loop g n [] = []"
    and loop_Cons: "loop g n (x # xs) =
      (let tied = takeWhile (\<lambda>y. js_equal (score y) (score x)) xs; groupEnd = g + 1 + length tied
       in map (put (g + 1) (groupEnd - g) (rank_percentile_of (g + 1) groupEnd n)) (x # tied)
          @ loop groupEnd n (drop (length tied) xs))"
    and put_fields: "score (put r t q c) = score c" "rank_of (put r t q c) = r" "tie_of (put r t q c) = t"
      "percentile_of (put r t q c) = q"
begin

lemma loop_keeps:
  assumes "\<And>c r t q. h (put r t q c) = h c"
  shows "map h (loop g n xs) = map h xs"
proof (induction xs arbitrary: g rule: length_induct)
  case (1 xs)
  show ?case
  proof (cases xs)
    case (Cons x ys)
    define tied where "tied = takeWhile (\<lambda>y. js_equal (score y) (score x)) ys"
    have "tied @ drop (length tied) ys = ys" by (metis append_eq_conv_conj takeWhile_dropWhile_id tied_def)
    then have "map h tied @ map h (drop (length tied) ys) = map h ys" by (metis map_append)
    moreover have "map h (loop (g + 1 + length tied) n (drop (length tied) ys)) = map h (drop (length tied) ys)"
      using 1 Cons by simp
    ultimately show ?thesis
      unfolding Cons loop_Cons Let_def tied_def [symmetric] by (simp add: comp_def assms)
  qed (simp add: loop_Nil)
qed

lemma loop_scores: "map score (loop g n xs) = map score xs"
  by (rule loop_keeps) (rule put_fields)

lemma loop_ranked:
  assumes "\<forall>c \<in> set xs. \<exists>k. score c = Finite k" "sorted (map (\<lambda>c. - score_value (score c)) xs)" "c \<in> set (loop g n xs)"
  shows "rank_of c = g + 1 + higher_scores score xs (score c) \<and> tie_of c = equal_scores score xs (score c) \<and>
    percentile_of c = rank_percentile_of (rank_of c) (rank_of c + tie_of c - 1) n"
  using assms
proof (induction xs arbitrary: g rule: length_induct)
  case (1 zs)
  obtain x xs where zs: "zs = x # xs" using 1(4) by (cases zs) (auto simp: loop_Nil)
  define tied where "tied = takeWhile (\<lambda>y. js_equal (score y) (score x)) xs"
  define rest where "rest = drop (length tied) xs"
  have xs: "xs = tied @ rest" unfolding rest_def tied_def by (metis append_eq_conv_conj takeWhile_dropWhile_id)
  obtain s where s: "score x = Finite s" using 1(2) zs by auto
  have t: "\<forall>y \<in> set tied. score y = Finite s"
    using s by (auto simp: tied_def js_equal_def dest: set_takeWhileD)
  have below: "\<exists>r. score y = Finite r \<and> r < s" if y: "y \<in> set rest" for y
  proof -
    obtain z zs' where rest: "rest = z # zs'" using y by (cases rest) auto
    then have "dropWhile (\<lambda>y. js_equal (score y) (score x)) xs = z # zs'"
      unfolding rest_def tied_def by (metis dropWhile_eq_drop)
    then have "\<not> js_equal (score z) (score x)" by (metis hd_dropWhile list.distinct(1) list.sel(1))
    moreover obtain q where q: "score z = Finite q" using 1(2) xs rest zs by auto
    ultimately have "q \<noteq> s" using s by (simp add: js_equal_def)
    moreover have "q \<le> s" using 1(3) xs rest q s zs by simp
    moreover obtain r where r: "score y = Finite r" using 1(2) xs y zs by auto
    moreover have "r \<le> q" using 1(3) xs rest q r y zs by (auto simp: sorted_append)
    ultimately show ?thesis by auto
  qed
  have fil: "filter (\<lambda>d. score d = Finite s) (x # xs) = x # tied" "filter (\<lambda>d. js_less (Finite s) (score d)) (x # xs) = []"
    using s t below by (fastforce simp: xs filter_id_conv filter_empty_conv)+
  have loop: "loop g n zs = map (put (g + 1) (1 + length tied) (rank_percentile_of (g + 1) (g + 1 + length tied) n)) (x # tied)
      @ loop (g + 1 + length tied) n rest"
    unfolding zs loop_Cons Let_def tied_def [symmetric] rest_def by simp
  show ?case
  proof (cases "c \<in> set (loop (g + 1 + length tied) n rest)")
    case True
    have "length rest < length zs" using zs xs by simp
    moreover have "\<forall>c \<in> set rest. \<exists>k. score c = Finite k" "sorted (map (\<lambda>c. - score_value (score c)) rest)"
      using 1(2,3) zs xs by (auto simp: sorted_append)
    ultimately have IH: "rank_of c = g + 1 + length tied + 1 + higher_scores score rest (score c) \<and>
        tie_of c = equal_scores score rest (score c) \<and>
        percentile_of c = rank_percentile_of (rank_of c) (rank_of c + tie_of c - 1) n"
      using 1(1) True by blast
    have "score c \<in> set (map score (loop (g + 1 + length tied) n rest))" using True by simp
    then have "score c \<in> set (map score rest)" by (simp only: loop_scores)
    then obtain d where "d \<in> set rest" "score c = score d" by auto
    then obtain r where r: "score c = Finite r" "r < s" using below by metis
    have "filter (\<lambda>d. score d = Finite r) (x # tied) = []"
      "filter (\<lambda>d. js_less (Finite r) (score d)) (x # tied) = x # tied"
      using s t r(2) by (auto simp: filter_id_conv filter_empty_conv)
    then have "equal_scores score zs (score c) = equal_scores score rest (score c)"
      "higher_scores score zs (score c) = 1 + length tied + higher_scores score rest (score c)"
      unfolding equal_scores_def higher_scores_def r(1) zs xs append_Cons [symmetric] filter_append by simp_all
    with IH show ?thesis by simp
  next
    case False
    then obtain d where d: "d \<in> set (x # tied)"
        "c = put (g + 1) (1 + length tied) (rank_percentile_of (g + 1) (g + 1 + length tied) n) d"
      using 1(4) unfolding loop set_append set_map by blast
    then have "score c = Finite s" using s t put_fields(1) by auto
    with d(2) fil show ?thesis unfolding zs by (simp add: put_fields score_counts del: filter.simps)
  qed
qed

text \<open>The ranks of a whole list.\<close>

lemma ranking:
  assumes "\<forall>c \<in> set xs. \<exists>k. score c = Finite k" "sorted (map (\<lambda>c. - score_value (score c)) xs)" "c \<in> set (loop 0 n xs)"
  shows "rank_of c = 1 + higher_scores score (loop 0 n xs) (score c)"
    "tie_of c = equal_scores score (loop 0 n xs) (score c)"
    "percentile_of c = rank_percentile_of (rank_of c) (rank_of c + tie_of c - 1) n"
  using loop_ranked [OF assms] score_counts_map [OF loop_scores, of 0 n xs] by simp_all

lemma ranking_percentile:
  assumes "\<forall>c \<in> set xs. \<exists>k. score c = Finite k" "sorted (map (\<lambda>c. - score_value (score c)) xs)"
    "c \<in> set (loop 0 (length xs) xs)" "length xs \<le> 2 ^ 38"
  shows "percentile_of c = (if length xs = 1 then Finite 50
    else to_number (100 * (of_nat (lower_scores score (loop 0 (length xs) xs) (score c)) + of_nat (tie_of c - 1) / 2) /
                    of_nat (length xs - 1)))"
proof -
  let ?loop = "loop 0 (length xs) xs"
  let ?h = "higher_scores score ?loop (score c)" and ?t = "equal_scores score ?loop (score c)"
    and ?l = "lower_scores score ?loop (score c)"
  note rank = ranking [OF assms(1-3)]
  have len: "length ?loop = length xs" using loop_scores by (metis length_map)
  have fin: "\<forall>d \<in> set ?loop. \<exists>x. score d = Finite x"
  proof
    fix d assume "d \<in> set ?loop"
    then have "score d \<in> set (map score xs)" by (metis image_eqI loop_scores set_map)
    then show "\<exists>x. score d = Finite x" using assms(1) by auto
  qed
  then obtain y where "score c = Finite y" using assms(3) by blast
  then have part: "?h + ?t + ?l = length xs" using score_counts_partition [OF fin, of y] len by simp
  have "c \<in> set (filter (\<lambda>d. score d = score c) ?loop)" using assms(3) by simp
  then have t: "1 \<le> ?t" unfolding equal_scores_def by (metis One_nat_def Suc_leI length_pos_if_in_set)
  have eq: "percentile_of c = rank_percentile_of (1 + ?h) (?h + ?t) (length xs)" using rank t by simp
  show ?thesis
  proof (cases "length xs = 1")
    case True
    then show ?thesis by (simp add: eq rank_percentile_of_def)
  next
    case False
    have "1 < length xs" using False part t by linarith
    moreover have "2 * length xs - (1 + ?h + (?h + ?t)) = 2 * ?l + (?t - 1)" using part t by linarith
    moreover have "(100 * (of_nat ?l + of_nat (?t - 1) / 2) :: rat) = 50 * of_nat (2 * ?l + (?t - 1))" by simp
    moreover have "1 + ?h + (?h + ?t) \<le> 2 * length xs" using part t by linarith
    ultimately show ?thesis
      using rank_percentile_value [of "1 + ?h" "?h + ?t" "length xs"] assms(4) rank(2) by (simp add: eq)
  qed
qed

end

interpretation candidate_ranks: tie_ranking rw_score
  "\<lambda>r t q c. c\<lparr>rw_rank := r, rw_rankTieSize := t, rw_rankPercentile := q\<rparr>" rw_rank rw_rankTieSize rw_rankPercentile rank_loop
  by unfold_locales (simp_all add: Let_def)

end
