(* ===== verification/Candidate_Scores.thy ===== *)
theory Candidate_Scores
  imports Tie_Ranking
begin

text \<open>
  What the Candidate Market Score promises: scores and percentiles are whole numbers between 0 and 100, ranks
  count the higher scores, the cohort is exactly the economies with a row in the window, percentiles are
  mid-ranks, and the diversity of a year lies between 0 and 1.
\<close>

subsection \<open>Percentages stay between 0 and 100\<close>

definition in_range :: "rat \<Rightarrow> rat \<Rightarrow> js_number \<Rightarrow> bool" where
  "in_range lo hi n \<longleftrightarrow> (\<exists>x. n = Finite x \<and> lo \<le> x \<and> x \<le> hi)"

abbreviation "percentage \<equiv> in_range 0 100"

lemma in_range_to_number:
  assumes "of_int a \<le> x" "x \<le> of_int b" "- (2 ^ 53) \<le> a" "b \<le> 2 ^ 53"
  shows "in_range (of_int a) (of_int b) (to_number x)"
  using to_number_between [OF assms] by (auto simp: in_range_def)

lemma in_range_plus:
  assumes "in_range (of_int a) (of_int b) m" "in_range (of_int c) (of_int d) n" "- (2 ^ 53) \<le> a + c" "b + d \<le> 2 ^ 53"
  shows "in_range (of_int (a + c)) (of_int (b + d)) (js_plus m n)"
proof -
  obtain x y where xy: "m = Finite x" "n = Finite y" "of_int a \<le> x" "x \<le> of_int b" "of_int c \<le> y" "y \<le> of_int d"
    using assms(1,2) by (auto simp: in_range_def)
  then have "of_int (a + c) \<le> x + y" "x + y \<le> of_int (b + d)" by simp_all
  from in_range_to_number [OF this assms(3,4)] xy(1,2) show ?thesis by simp
qed

lemma in_range_times_weight:
  assumes "in_range 0 (of_int b) n" "0 \<le> w" "w * b \<le> 2 ^ 53"
  shows "in_range 0 (of_int (w * b)) (js_times (Finite (of_int w)) n)"
proof -
  obtain y where y: "n = Finite y" "0 \<le> y" "y \<le> of_int b" using assms(1) by (auto simp: in_range_def)
  have "of_int w * y \<le> of_int (w * b)" using y(3) assms(2) by (simp add: mult_left_mono)
  moreover have "of_int 0 \<le> of_int w * y" using y(2) assms(2) by simp
  ultimately show ?thesis using in_range_to_number [of 0 "of_int w * y" "w * b"] y(1) assms(3) by simp
qed

lemma raw_score_range:
  assumes "percentage (pc_size p)" "percentage (pc_growth p)" "percentage (pc_foothold p)" "percentage (pc_diversity p)"
  shows "percentage (raw_score p)"
proof -
  have w: "in_range 0 (of_int (w * 100)) (js_times (Finite (of_int w)) n)"
    if "percentage n" "0 \<le> w" "w \<le> 100" for n and w :: int
    using in_range_times_weight [of 100 n w] that by simp
  have "in_range (of_int 0) (of_int 3000) (js_times (Finite 30) (pc_size p))"
    "in_range (of_int 0) (of_int 2500) (js_times (Finite 25) (pc_growth p))"
    "in_range (of_int 0) (of_int 2500) (js_times (Finite 25) (pc_foothold p))"
    "in_range (of_int 0) (of_int 2000) (js_times (Finite 20) (pc_diversity p))"
    using w [OF assms(1), of 30] w [OF assms(2), of 25] w [OF assms(3), of 25] w [OF assms(4), of 20] by simp_all
  note in_range_plus [OF in_range_plus [OF in_range_plus [OF this(1,2)] this(3)] this(4)]
  then obtain x where x: "js_plus (js_plus (js_plus (js_times (Finite 30) (pc_size p)) (js_times (Finite 25) (pc_growth p)))
      (js_times (Finite 25) (pc_foothold p))) (js_times (Finite 20) (pc_diversity p)) = Finite x" "0 \<le> x" "x \<le> 10000"
    by (auto simp: in_range_def)
  then have "of_int 0 \<le> x / 100" "x / 100 \<le> of_int 100" by simp_all
  from in_range_to_number [OF this] x(1) show ?thesis by (simp add: raw_score_def WEIGHTS_def)
qed

lemma roundHalfUp_range:
  assumes "percentage n"
  shows "\<exists>k::nat. roundHalfUp n = Finite (of_nat k) \<and> k \<le> 100"
proof -
  obtain x where x: "n = Finite x" "0 \<le> x" "x \<le> 100" using assms by (auto simp: in_range_def)
  have half: "nearest_double (201 / 2) = 201 / 2" "nearest_double (403 / 4) = 403 / 4"
    using nearest_double_in [of 6 "201 / 2" "201 * 2 ^ 45"] nearest_double_in [of 6 "403 / 4" "403 * 2 ^ 44"]
    by (simp_all add: pow2_def)
  have big: "403 / 4 < pow2 1024"
  proof -
    have "403 / 4 < pow2 7" by (simp add: pow2_def)
    also have "\<dots> < pow2 1024" by (simp add: pow2_less_iff)
    finally show ?thesis .
  qed
  obtain y where y: "to_number (x + 1 / 2) = Finite y" "0 \<le> y" "y \<le> 201 / 2"
    using to_number_le_double [of "x + 1 / 2" "201 / 2"] x half big by auto
  obtain z where z: "to_number (y + 1 / 2 ^ 52) = Finite z" "0 \<le> z" "z \<le> 403 / 4"
    using to_number_le_double [of "y + 1 / 2 ^ 52" "403 / 4"] y half big by auto
  have "roundHalfUp n = Finite (of_int \<lfloor>z\<rfloor>)" using x y z by (simp add: roundHalfUp_def)
  moreover have f: "0 \<le> \<lfloor>z\<rfloor>" "\<lfloor>z\<rfloor> \<le> 100" using z(2,3) by (simp_all add: floor_le_iff)
  moreover have "nat \<lfloor>z\<rfloor> \<le> 100" using f by linarith
  ultimately show ?thesis by (intro exI [of _ "nat \<lfloor>z\<rfloor>"]) simp
qed

lemma group_percentile_value:
  assumes "index < groupEnd" "groupEnd \<le> n" "n \<le> 2 ^ 38"
  shows "group_percentile index groupEnd n = to_number (50 * of_nat (index + groupEnd) / of_nat n)"
proof -
  have sum: "js_int (int (index + 1 + groupEnd)) = Finite (of_nat (index + 1 + groupEnd))"
    using assms by (intro js_int_nat) simp
  have half: "js_divide (Finite (of_nat (index + 1 + groupEnd))) (Finite 2) = Finite (of_nat (index + 1 + groupEnd) / 2)"
    using nearest_double_half [of "index + 1 + groupEnd"] assms by simp
  have avg: "js_minus (Finite (of_nat (index + 1 + groupEnd) / 2)) (Finite (1 / 2)) = Finite (of_nat (index + groupEnd) / 2)"
    using nearest_double_half [of "index + groupEnd"] assms by (simp add: diff_divide_distrib [symmetric])
  have "(100::rat) * (of_nat (index + groupEnd) / 2) = of_int (50 * int (index + groupEnd))" by simp
  then have prod: "js_times (Finite 100) (Finite (of_nat (index + groupEnd) / 2)) = Finite (of_int (50 * int (index + groupEnd)))"
    using to_number_int [of "50 * int (index + groupEnd)"] assms by (simp only: js_times.simps) simp
  have "js_int (int n) = Finite (of_nat n)" using assms by (intro js_int_nat) simp
  with assms show ?thesis unfolding group_percentile_def sum Let_def half avg prod by simp
qed

lemma group_percentile_range:
  assumes "index < groupEnd" "groupEnd \<le> n" "n \<le> 2 ^ 38"
  shows "percentage (group_percentile index groupEnd n)"
proof -
  have "(of_nat (index + groupEnd) :: rat) \<le> of_nat (2 * n)" using assms by (simp only: of_nat_le_iff)
  then have "50 * of_nat (index + groupEnd) / of_nat n \<le> (of_int 100 :: rat)"
    using assms by (simp add: divide_le_eq)
  moreover have "of_int 0 \<le> 50 * of_nat (index + groupEnd) / (of_nat n :: rat)" by simp
  ultimately show ?thesis
    using in_range_to_number [of 0 "50 * of_nat (index + groupEnd) / of_nat n" 100]
    by (simp add: group_percentile_value [OF assms])
qed

lemma percentile_loop_range:
  assumes "index + length xs = n" "n \<le> 2 ^ 38" "y \<in> set (percentile_loop index n xs)"
  shows "percentage (snd y)"
  using assms
proof (induction index n xs rule: percentile_loop.induct)
  case (2 index n x xs)
  define tied where "tied = takeWhile (\<lambda>y. nearlyEqual (snd y) (snd x)) xs"
  have len: "length tied \<le> length xs" by (simp add: tied_def length_takeWhile_le)
  from 2(4) consider "snd y = group_percentile index (index + 1 + length tied) n"
    | "y \<in> set (percentile_loop (index + 1 + length tied) n (drop (length tied) xs))"
    by (auto simp: Let_def tied_def)
  then show ?case
  proof cases
    case 1
    then show ?thesis using 2(2,3) len by (auto intro: group_percentile_range)
  next
    case second: 2
    then show ?thesis using 2(1) [OF tied_def refl refl] 2(2,3) len by simp
  qed
qed simp

definition percentages :: "percentiles \<Rightarrow> bool" where
  "percentages p \<longleftrightarrow> percentage (pc_size p) \<and> percentage (pc_growth p) \<and> percentage (pc_foothold p) \<and> percentage (pc_diversity p)"

lemma length_map_filter_le: "length (List.map_filter h xs) \<le> length xs"
  by (induction xs) (auto simp: List.map_filter_simps split: option.split)

lemma computed_values_length: "length (computed_values f cs) \<le> length cs"
  using length_map_filter_le [of _ "enumerate 0 cs"] by (simp add: computed_values_def)

lemma applyPercentiles_length [simp]: "length (applyPercentiles f g cs) = length cs"
  by (simp add: applyPercentiles_def Let_def)

lemma percentile_loop_fst: "map fst (percentile_loop index n xs) = map fst xs"
proof (induction index n xs rule: percentile_loop.induct)
  case (2 index n x xs)
  define tied where "tied = takeWhile (\<lambda>y. nearlyEqual (snd y) (snd x)) xs"
  have "tied @ drop (length tied) xs = xs"
    by (metis append_eq_conv_conj takeWhile_dropWhile_id tied_def)
  then have "map fst tied @ map fst (drop (length tied) xs) = map fst xs" by (metis map_append)
  with 2 [OF tied_def refl refl] show ?case by (simp add: Let_def comp_def flip: tied_def)
qed simp

lemma mem_map_filter: "y \<in> set (List.map_filter h xs) \<longleftrightarrow> (\<exists>x \<in> set xs. h x = Some y)"
  by (force simp: List.map_filter_def)

lemma computed_values_mem:
  "(i, v) \<in> set (computed_values f cs) \<longleftrightarrow> i < length cs \<and> f (cs ! i) = Some v"
  by (force simp: computed_values_def mem_map_filter in_set_enumerate_eq intro: bexI [of _ "(i, cs ! i)"])

text \<open>What a pass does to the candidate at one position.\<close>

lemma applyPercentiles_nth:
  assumes "i < length cs" and frame: "\<And>c p. f (c\<lparr>rw_percentiles := p\<rparr>) = f c"
  shows "f (cs ! i) = None \<Longrightarrow>
      applyPercentiles f g cs ! i = (cs ! i)\<lparr>rw_percentiles := g (Finite 50) (rw_percentiles (cs ! i))\<rparr>"
    and "f (cs ! i) = Some v \<Longrightarrow>
      \<exists>p. (i, p) \<in> set (percentile_loop 0 (length (computed_values f cs)) (computed_values f cs)) \<and>
          applyPercentiles f g cs ! i = (cs ! i)\<lparr>rw_percentiles := g p (rw_percentiles (cs ! i))\<rparr>"
proof -
  let ?loop = "percentile_loop 0 (length (computed_values f cs)) (computed_values f cs)"
  have dom: "fst ` set ?loop = fst ` set (computed_values f cs)"
    using percentile_loop_fst by (metis set_map)
  have result: "applyPercentiles f g cs ! i = (let c = (case map_of ?loop i of None \<Rightarrow> cs ! i
      | Some p \<Rightarrow> (cs ! i)\<lparr>rw_percentiles := g p (rw_percentiles (cs ! i))\<rparr>)
      in if f (cs ! i) = None then c\<lparr>rw_percentiles := g (Finite 50) (rw_percentiles c)\<rparr> else c)"
    using assms(1) by (auto simp: applyPercentiles_def Let_def nth_enumerate_eq frame split: option.split)
  show "applyPercentiles f g cs ! i = (cs ! i)\<lparr>rw_percentiles := g (Finite 50) (rw_percentiles (cs ! i))\<rparr>"
    if "f (cs ! i) = None"
  proof -
    have "map_of ?loop i = None"
      unfolding map_of_eq_None_iff dom using that computed_values_mem [of i _ f cs] by force
    with that result show ?thesis by (simp add: Let_def)
  qed
  show "\<exists>p. (i, p) \<in> set ?loop \<and> applyPercentiles f g cs ! i = (cs ! i)\<lparr>rw_percentiles := g p (rw_percentiles (cs ! i))\<rparr>"
    if "f (cs ! i) = Some v"
  proof -
    have "i \<in> fst ` set ?loop" unfolding dom using that assms(1) computed_values_mem [of i v f cs] by force
    then obtain p where "map_of ?loop i = Some p" by (metis map_of_eq_None_iff not_None_eq)
    with that result show ?thesis by (auto dest: map_of_SomeD)
  qed
qed

lemma applyPercentiles_mem:
  assumes "c \<in> set (applyPercentiles f g cs)" "length cs \<le> 2 ^ 38"
    and frame: "\<And>c p. f (c\<lparr>rw_percentiles := p\<rparr>) = f c"
  obtains c0 p where "c0 \<in> set cs" "percentage p" "c = c0\<lparr>rw_percentiles := g p (rw_percentiles c0)\<rparr>"
proof -
  obtain i where i: "i < length cs" "c = applyPercentiles f g cs ! i" using assms(1) by (auto simp: in_set_conv_nth)
  have n: "length (computed_values f cs) \<le> 2 ^ 38" using computed_values_length [of f cs] assms(2) by linarith
  show thesis
  proof (cases "f (cs ! i)")
    case None
    have "percentage (Finite 50)" by (simp add: in_range_def)
    with that [of "cs ! i" "Finite 50"] i applyPercentiles_nth(1) [OF i(1) frame None] show thesis by simp
  next
    case (Some v)
    obtain p where p: "(i, p) \<in> set (percentile_loop 0 (length (computed_values f cs)) (computed_values f cs))"
      "applyPercentiles f g cs ! i = (cs ! i)\<lparr>rw_percentiles := g p (rw_percentiles (cs ! i))\<rparr>"
      using applyPercentiles_nth(2) [OF i(1) frame Some] by blast
    have "percentage p" using percentile_loop_range [OF _ n p(1)] by simp
    with that [of "cs ! i" p] i p(2) show thesis by simp
  qed
qed

text \<open>The candidate without the fields that the passes over the window write.\<close>

definition evidence_of :: "raw_candidate \<Rightarrow> raw_candidate" where
  "evidence_of c = c\<lparr>rw_percentiles := \<lparr>pc_size = Finite 0, pc_growth = Finite 0, pc_foothold = Finite 0,
     pc_diversity = Finite 0\<rparr>, rw_score := Finite 0, rw_rank := 0, rw_rankTieSize := 0, rw_rankPercentile := Finite 0\<rparr>"

lemma evidence_of_update [simp]:
  "evidence_of (c\<lparr>rw_percentiles := p\<rparr>) = evidence_of c"
  "evidence_of (score_candidate c) = evidence_of c"
  "evidence_of (c\<lparr>rw_rank := r, rw_rankTieSize := t, rw_rankPercentile := q\<rparr>) = evidence_of c"
  by (simp_all add: evidence_of_def score_candidate_def)

lemma evidence_of_fields [simp]:
  "rw_economy (evidence_of c) = rw_economy c" "rw_observedYears (evidence_of c) = rw_observedYears c"
  "rw_rows (evidence_of c) = rw_rows c" "rw_sizeKusd (evidence_of c) = rw_sizeKusd c"
  "rw_growth (evidence_of c) = rw_growth c" "rw_foothold (evidence_of c) = rw_foothold c"
  "rw_diversity (evidence_of c) = rw_diversity c"
  by (simp_all add: evidence_of_def)

lemma map_evidence_applyPercentiles [simp]: "map evidence_of (applyPercentiles f g cs) = map evidence_of cs"
  by (rule nth_equalityI)
     (simp_all add: applyPercentiles_def Let_def nth_enumerate_eq split: option.split)

lemma mset_score_candidates: "mset (map evidence_of (score_candidates cs)) = mset (map evidence_of cs)"
proof -
  have "mset (map evidence_of (assignRanks xs)) = mset (map evidence_of xs)" for xs
    using candidate_ranks.loop_keeps [of evidence_of] by (simp add: assignRanks_def)
  moreover have "mset (map evidence_of (js_sort compare_scores xs)) = mset (map evidence_of xs)" for xs
    by (simp only: mset_map js_sort_mset)
  moreover have "map evidence_of (map score_candidate xs) = map evidence_of xs" for xs by simp
  ultimately show ?thesis by (simp add: score_candidates_def Let_def del: mset_map map_map)
qed

lemma score_candidates_length [simp]: "length (score_candidates cs) = length cs"
  using arg_cong [OF mset_score_candidates, of size] by simp

lemma score_candidates_range:
  assumes "length cs \<le> 2 ^ 38" "c \<in> set (score_candidates cs)"
  shows "percentages (rw_percentiles c)" "rw_score c = roundHalfUp (raw_score (rw_percentiles c))"
proof -
  define c1 where "c1 = applyPercentiles (\<lambda>c. Some (rw_sizeKusd c)) (\<lambda>p v. v\<lparr>pc_size := p\<rparr>) cs"
  define c2 where "c2 = applyPercentiles rw_growth (\<lambda>p v. v\<lparr>pc_growth := p\<rparr>) c1"
  define c3 where "c3 = applyPercentiles (\<lambda>c. Some (rw_foothold c)) (\<lambda>p v. v\<lparr>pc_foothold := p\<rparr>) c2"
  define c4 where "c4 = applyPercentiles rw_diversity (\<lambda>p v. v\<lparr>pc_diversity := p\<rparr>) c3"
  have len: "length c1 \<le> 2 ^ 38" "length c2 \<le> 2 ^ 38" "length c3 \<le> 2 ^ 38"
    using assms(1) by (simp_all add: c1_def c2_def c3_def)
  have r1: "percentage (pc_size (rw_percentiles c))" if "c \<in> set c1" for c
    using that assms(1) by (auto simp: c1_def elim!: applyPercentiles_mem)
  have r2: "percentage (pc_size (rw_percentiles c)) \<and> percentage (pc_growth (rw_percentiles c))" if "c \<in> set c2" for c
    using that len(1) r1 by (auto simp: c2_def elim!: applyPercentiles_mem)
  have r3: "percentage (pc_size (rw_percentiles c)) \<and> percentage (pc_growth (rw_percentiles c))
      \<and> percentage (pc_foothold (rw_percentiles c))" if "c \<in> set c3" for c
    using that len(2) r2 by (auto simp: c3_def elim!: applyPercentiles_mem)
  have r4: "percentages (rw_percentiles c)" if "c \<in> set c4" for c
    using that len(3) r3 by (auto simp: c4_def percentages_def elim!: applyPercentiles_mem)
  let ?h = "\<lambda>c. (rw_percentiles c, rw_score c)"
  have "map ?h (score_candidates cs) = map ?h (js_sort compare_scores (map score_candidate c4))"
    unfolding score_candidates_def Let_def c1_def c2_def c3_def c4_def assignRanks_def
    by (rule candidate_ranks.loop_keeps) simp
  from arg_cong [OF this, of set]
  have "?h ` set (score_candidates cs) = ?h ` set (map score_candidate c4)" by (simp only: set_map js_sort_set)
  moreover have "?h c \<in> ?h ` set (score_candidates cs)" using assms(2) by blast
  ultimately have "?h c \<in> ?h ` score_candidate ` set c4" by (simp only: set_map)
  then obtain d where "d \<in> set c4" "?h c = ?h (score_candidate d)" by blast
  with r4 [of d] show "percentages (rw_percentiles c)" "rw_score c = roundHalfUp (raw_score (rw_percentiles c))"
    by (simp_all add: score_candidate_def)
qed

lemma score_candidates_score:
  assumes "length cs \<le> 2 ^ 38" "c \<in> set (score_candidates cs)"
  obtains k :: nat where "rw_score c = Finite (of_nat k)" "k \<le> 100"
  using score_candidates_range [OF assms] raw_score_range roundHalfUp_range by (metis percentages_def)

subsection \<open>Ranks\<close>

lemma js_minus_scores: "k \<le> 100 \<Longrightarrow> l \<le> 100 \<Longrightarrow> js_minus (Finite (of_nat k)) (Finite (of_nat l)) = Finite (of_int (int k - int l))"
  using to_number_int [of "int k - int l"] by simp

lemma sorted_by_score:
  assumes "\<And>c. c \<in> set cs \<Longrightarrow> \<exists>k::nat. rw_score c = Finite (of_nat k) \<and> k \<le> 100"
  shows "sorted (map (\<lambda>c. - score_value (rw_score c)) (js_sort compare_scores cs))"
proof (rule js_sort_sorted)
  fix x y assume "x \<in> set cs" "y \<in> set cs"
  then obtain k l :: nat where s: "rw_score x = Finite (of_nat k)" "k \<le> 100" "rw_score y = Finite (of_nat l)" "l \<le> 100"
    using assms by metis
  have "l = k \<or> (l < k \<longrightarrow> compare_scores x y = Finite (of_int (int l - int k)))
      \<and> (k < l \<longrightarrow> compare_scores x y = Finite (of_int (int l - int k)))"
    using s js_minus_scores [of l k] by (auto simp: compare_scores_def js_or_def)
  then show "if js_less (Finite 0) (compare_scores x y) then - score_value (rw_score y) \<le> - score_value (rw_score x)
      else - score_value (rw_score x) \<le> - score_value (rw_score y)"
    using s by (cases l k rule: linorder_cases) auto
qed

lemma score_candidates_ranked:
  assumes "length cs \<le> 2 ^ 38"
  shows "sorted (map (\<lambda>c. - score_value (rw_score c)) (score_candidates cs))"
    and "c \<in> set (score_candidates cs) \<Longrightarrow> rw_rank c = 1 + higher_scores rw_score (score_candidates cs) (rw_score c)"
    and "c \<in> set (score_candidates cs) \<Longrightarrow> rw_rankTieSize c = equal_scores rw_score (score_candidates cs) (rw_score c)"
    and "c \<in> set (score_candidates cs) \<Longrightarrow> rw_rankPercentile c = (if length cs = 1 then Finite 50
      else to_number (100 * (of_nat (lower_scores rw_score (score_candidates cs) (rw_score c)) + of_nat (rw_rankTieSize c - 1) / 2) /
                      of_nat (length cs - 1)))"
proof -
  obtain xs where xs: "score_candidates cs = assignRanks (js_sort compare_scores xs)"
    by (auto simp: score_candidates_def Let_def)
  define ys where "ys = js_sort compare_scores xs"
  have loop: "score_candidates cs = rank_loop 0 (length ys) ys" by (simp add: xs assignRanks_def ys_def)
  have scores: "map rw_score (score_candidates cs) = map rw_score ys" unfolding loop by (rule candidate_ranks.loop_scores)
  have len: "length ys = length cs" using arg_cong [OF scores, of length] by simp
  have small: "\<exists>k::nat. rw_score d = Finite (of_nat k) \<and> k \<le> 100" if "d \<in> set xs" for d
  proof -
    have "rw_score d \<in> set (map rw_score ys)" using that by (simp add: ys_def)
    then have "rw_score d \<in> set (map rw_score (score_candidates cs))" by (simp only: scores)
    then obtain e where "e \<in> set (score_candidates cs)" "rw_score d = rw_score e" by auto
    then show ?thesis using score_candidates_score [OF assms] by metis
  qed
  have sorted: "sorted (map (\<lambda>c. - score_value (rw_score c)) ys)" unfolding ys_def using small by (rule sorted_by_score)
  have fin: "\<forall>c \<in> set ys. \<exists>k. rw_score c = Finite k" using small by (auto simp: ys_def)
  show "sorted (map (\<lambda>c. - score_value (rw_score c)) (score_candidates cs))"
    using sorted arg_cong [OF scores, of "map (\<lambda>s. - score_value s)"] by (simp add: comp_def)
  note ranks = candidate_ranks.ranking [OF fin sorted, of c "length ys"]
    candidate_ranks.ranking_percentile [OF fin sorted, of c]
  show "c \<in> set (score_candidates cs) \<Longrightarrow> rw_rank c = 1 + higher_scores rw_score (score_candidates cs) (rw_score c)"
    "c \<in> set (score_candidates cs) \<Longrightarrow> rw_rankTieSize c = equal_scores rw_score (score_candidates cs) (rw_score c)"
    "c \<in> set (score_candidates cs) \<Longrightarrow> rw_rankPercentile c = (if length cs = 1 then Finite 50
      else to_number (100 * (of_nat (lower_scores rw_score (score_candidates cs) (rw_score c)) + of_nat (rw_rankTieSize c - 1) / 2) /
                      of_nat (length cs - 1)))"
    using ranks assms unfolding loop len by simp_all
qed

end
