(* ===== verification/Candidate_Evidence.thy ===== *)
theory Candidate_Evidence
  imports Candidate_Scores
begin

text \<open>
  Which evidence the Candidate Market Score accepts. The lemmas relate the numbers that the recipe parses to the
  exact decimals of the texts, and show step by step when each computation returns instead of throwing.
\<close>

subsection \<open>Decimal texts\<close>

text \<open>The exact number of a decimal text.\<close>

definition decimal_value :: "string \<Rightarrow> rat" where
  "decimal_value s = fixed_value (parseFixedDecimal s)"

lemma match_decimal_parts:
  assumes "match_decimal s = Some (w, f)"
  shows "list_all is_digit w" "w \<noteq> []" "list_all is_digit f" "s = (if f = [] then w else w @ CHR ''.'' # f)"
proof -
  have w: "w = takeWhile is_digit s" using assms by (auto simp: match_decimal_def Let_def split: if_splits list.splits)
  show "list_all is_digit w" by (auto simp: w list_all_iff dest: set_takeWhileD)
  show "w \<noteq> []" using assms w by (auto simp: match_decimal_def whole_part_ok_def Let_def split: if_splits)
  show "list_all is_digit f" using assms by (auto simp: match_decimal_def Let_def split: if_splits list.splits)
  have "dropWhile is_digit s = (if f = [] then [] else CHR ''.'' # f)"
    using assms by (auto simp: match_decimal_def Let_def simp del: dropWhile_eq_Nil_conv split: if_splits list.splits)
  then show "s = (if f = [] then w else w @ CHR ''.'' # f)"
    using takeWhile_dropWhile_id [of is_digit s] by (metis append_Nil2 w)
qed

lemma parseFixedDecimal_match:
  assumes "match_decimal s = Some (w, f)"
  shows "parseFixedDecimal s = \<lparr>units = int (undec (w @ f)), scale = length f\<rparr>"
proof -
  note p = match_decimal_parts [OF assms]
  have dot: "\<not> is_digit CHR ''.''" by code_simp
  have no: "\<forall>c \<in> set w. c \<noteq> CHR ''.''" "\<forall>c \<in> set f. c \<noteq> CHR ''.''" using p(1,3) dot by (auto simp: list_all_iff)
  then have t: "takeWhile (\<lambda>c. c \<noteq> CHR ''.'') w = w" "takeWhile (\<lambda>c. c \<noteq> CHR ''.'') f = f"
    "dropWhile (\<lambda>c. c \<noteq> CHR ''.'') w = []"
    by (auto simp: takeWhile_eq_all_conv dropWhile_eq_Nil_conv)
  show ?thesis
  proof (cases "f = []")
    case True
    with p(4) have s: "s = w" by simp
    show ?thesis by (simp add: s True t parseFixedDecimal_def Let_def)
  next
    case False
    with p(4) have s: "s = w @ CHR ''.'' # f" by simp
    have "takeWhile (\<lambda>c. c \<noteq> CHR ''.'') s = w" "dropWhile (\<lambda>c. c \<noteq> CHR ''.'') s = CHR ''.'' # f"
      unfolding s using no(1) by (auto simp: takeWhile_append dropWhile_append)
    with t(2) False show ?thesis unfolding parseFixedDecimal_def Let_def by (simp only: list.sel list.distinct if_False)
  qed
qed

lemma js_Number_decimal:
  assumes "match_decimal s \<noteq> None"
  shows "js_Number s = to_number (decimal_value s)"
proof -
  obtain w f where m: "match_decimal s = Some (w, f)" using assms by auto
  note p = match_decimal_parts [OF m]
  have v: "decimal_value s = of_nat (undec (w @ f)) / 10 ^ length f"
    by (simp add: decimal_value_def parseFixedDecimal_match [OF m] fixed_value_def)
  show ?thesis unfolding v
    using p(4) js_Number_dotted [OF p(1-3)] js_Number_digits [OF p(1,2)] by (cases "f = []") simp_all
qed

lemma decimal_value_nonneg: "0 \<le> decimal_value s"
  by (simp add: decimal_value_def fixed_value_def parseFixedDecimal_def Let_def)

text \<open>The texts that the recipe reads as a number, and as a positive number.\<close>

definition readable :: "string \<Rightarrow> bool" where
  "readable s \<longleftrightarrow> match_decimal s \<noteq> None \<and> js_is_finite (to_number (decimal_value s))"

definition readable_positive :: "string \<Rightarrow> bool" where
  "readable_positive s \<longleftrightarrow> readable s \<and> to_number (decimal_value s) \<noteq> Finite 0"

lemma parseNonnegativeDecimal_Inr_iff:
  "parseNonnegativeDecimal s field = Inr n \<longleftrightarrow> readable s \<and> n = to_number (decimal_value s)"
  using js_Number_decimal [of s] by (auto simp: parseNonnegativeDecimal_def readable_def Let_def)

lemma parsePositiveDecimal_Inr_iff:
  "parsePositiveDecimal s field = Inr n \<longleftrightarrow> readable_positive s \<and> n = to_number (decimal_value s)"
proof -
  have "js_equal m (Finite 0) \<longleftrightarrow> m = Finite 0" for m by (auto simp: js_equal_def)
  then show ?thesis
    by (auto simp: parsePositiveDecimal_def readable_positive_def ebind_Inr_iff parseNonnegativeDecimal_Inr_iff)
qed

lemma readable_number:
  assumes "readable s"
  obtains x where "to_number (decimal_value s) = Finite x" "0 \<le> x"
proof -
  obtain x where x: "to_number (decimal_value s) = Finite x"
    using assms by (auto simp: readable_def js_is_finite_def split: js_number.splits)
  then have "0 \<le> x" using decimal_value_nonneg [of s] nearest_double_nonneg [of "\<bar>decimal_value s\<bar>"]
    by (auto simp: to_number_def Let_def split: if_splits)
  with x show thesis by (rule that)
qed

lemma readable_positive_number:
  assumes "readable_positive s"
  obtains x where "to_number (decimal_value s) = Finite x" "0 < x"
proof -
  obtain x where x: "to_number (decimal_value s) = Finite x" "0 \<le> x"
    using assms readable_number [of s] by (auto simp: readable_positive_def)
  with assms have "x \<noteq> 0" by (auto simp: readable_positive_def)
  with x show thesis by (intro that [of x]) simp_all
qed

lemma compareFixedDecimals_sign:
  "compareFixedDecimals l r < 0 \<longleftrightarrow> fixed_value l < fixed_value r"
  "compareFixedDecimals l r > 0 \<longleftrightarrow> fixed_value r < fixed_value l"
  "compareFixedDecimals l r = 0 \<longleftrightarrow> fixed_value l = fixed_value r"
proof -
  define k where "k = max (scale l) (scale r)"
  have v: "fixed_value v = of_int (units v * 10 ^ (k - scale v)) / 10 ^ k" if "scale v \<le> k" for v
  proof -
    have "(10::rat) ^ k = 10 ^ scale v * 10 ^ (k - scale v)" using that by (simp flip: power_add)
    then show ?thesis by (simp add: fixed_value_def)
  qed
  have "scale l \<le> k" "scale r \<le> k" by (simp_all add: k_def)
  then have vl: "fixed_value l = of_int (units l * 10 ^ (k - scale l)) / 10 ^ k"
    and vr: "fixed_value r = of_int (units r * 10 ^ (k - scale r)) / 10 ^ k" by (simp_all only: v)
  have c: "(of_int a / 10 ^ k < (of_int b / 10 ^ k :: rat)) = (a < b)" for a b by (simp add: divide_less_cancel)
  have "fixed_value l < fixed_value r \<longleftrightarrow> units l * 10 ^ (k - scale l) < units r * 10 ^ (k - scale r)"
    "fixed_value r < fixed_value l \<longleftrightarrow> units r * 10 ^ (k - scale r) < units l * 10 ^ (k - scale l)"
    unfolding vl vr c by (rule refl)+
  then show "compareFixedDecimals l r < 0 \<longleftrightarrow> fixed_value l < fixed_value r"
    "compareFixedDecimals l r > 0 \<longleftrightarrow> fixed_value r < fixed_value l"
    "compareFixedDecimals l r = 0 \<longleftrightarrow> fixed_value l = fixed_value r"
    unfolding compareFixedDecimals_def Let_def k_def [symmetric] by auto
qed

subsection \<open>The groups of a window\<close>

definition code_of_row :: "market_year \<Rightarrow> string" where
  "code_of_row row = ec_code (my_candidateMarket row)"

lemma add_to_group_codes:
  "map fst (add_to_group row groups) =
     (if code_of_row row \<in> set (map fst groups) then map fst groups else map fst groups @ [code_of_row row])"
  by (induction row groups rule: add_to_group.induct) (auto simp: code_of_row_def)

lemma add_to_group_rows:
  "distinct (map fst groups) \<Longrightarrow> map_of (add_to_group row groups) =
     (map_of groups)(code_of_row row \<mapsto> (case map_of groups (code_of_row row) of None \<Rightarrow> [] | Some rs \<Rightarrow> rs) @ [row])"
  by (induction row groups rule: add_to_group.induct) (auto simp: code_of_row_def fun_eq_iff)

lemma group_rows_snoc: "group_rows (rows @ [row]) = add_to_group row (group_rows rows)"
  by (simp add: group_rows_def)

lemma group_rows_facts:
  "distinct (map fst (group_rows rows)) \<and> set (map fst (group_rows rows)) = code_of_row ` set rows \<and>
   (\<forall>code. map_of (group_rows rows) code =
      (if code \<in> code_of_row ` set rows then Some (filter (\<lambda>r. code_of_row r = code) rows) else None))"
proof (induction rows rule: rev_induct)
  case (snoc row rows)
  then have d: "distinct (map fst (group_rows rows))" by simp
  have none: "filter (\<lambda>r. code_of_row r = code) rows = []" if "code \<notin> code_of_row ` set rows" for code
    using that by (auto simp: filter_empty_conv)
  show ?case
    using snoc d none by (auto simp: group_rows_snoc add_to_group_codes add_to_group_rows)
qed (simp add: group_rows_def)

lemma group_rows_member:
  "(code, rs) \<in> set (group_rows rows) \<longleftrightarrow> code \<in> code_of_row ` set rows \<and> rs = filter (\<lambda>r. code_of_row r = code) rows"
proof -
  have "(code, rs) \<in> set (group_rows rows) \<longleftrightarrow> map_of (group_rows rows) code = Some rs"
    using group_rows_facts [of rows, THEN conjunct1] by simp
  then show ?thesis using group_rows_facts [of rows, THEN conjunct2, THEN conjunct2, rule_format, of code] by auto
qed

lemma group_rows_length: "length (group_rows rows) \<le> length rows"
proof -
  have "length (group_rows rows) = card (set (map fst (group_rows rows)))"
    using group_rows_facts [of rows] by (metis distinct_card length_map)
  also have "\<dots> = card (code_of_row ` set rows)" using group_rows_facts [of rows] by simp
  also have "\<dots> \<le> length rows" by (metis card_image_le card_length finite_set order_trans)
  finally show ?thesis .
qed

subsection \<open>When the computations return\<close>

definition returns :: "'e + 'a \<Rightarrow> bool" where
  "returns m \<longleftrightarrow> (\<exists>x. m = Inr x)"

lemma returns_simps [simp]: "returns (Inr x)" "\<not> returns (Inl e)"
  by (simp_all add: returns_def)

lemma returns_if: "returns (if b then m else n) \<longleftrightarrow> (if b then returns m else returns n)"
  by simp

lemma returns_ebind: "returns (ebind m k) \<longleftrightarrow> (\<exists>x. m = Inr x \<and> returns (k x))"
  by (cases m) auto

lemma returns_ebind_total: "(\<And>x. m = Inr x \<Longrightarrow> returns (k x)) \<Longrightarrow> returns (ebind m k) \<longleftrightarrow> returns m"
  by (cases m) auto

lemma returns_emap: "returns (emap f xs) \<longleftrightarrow> list_all (\<lambda>x. returns (f x)) xs"
  using emap_succeeds_iff [of f xs] by (simp add: returns_def)

definition suppliers_accepted :: "alternative_suppliers \<Rightarrow> bool" where
  "suppliers_accepted s \<longleftrightarrow>
     is_safe_integer (as_count s) \<and> 0 \<le> as_count s \<and>
     (let v = decimal_value (as_valueKusd s); q = decimal_value (as_valueSquareSumKusdSquared s)
      in if as_count s = 0
         then readable (as_valueKusd s) \<and> readable (as_valueSquareSumKusdSquared s) \<and>
              to_number v = Finite 0 \<and> to_number q = Finite 0
         else readable_positive (as_valueKusd s) \<and> readable_positive (as_valueSquareSumKusdSquared s) \<and>
              v\<^sup>2 \<le> of_int (as_count s) * q \<and> q \<le> v\<^sup>2 \<and> (1 < as_count s \<longrightarrow> q \<noteq> v\<^sup>2))"

lemma fixed_value_times_int: "fixed_value \<lparr>units = units v * n, scale = scale v\<rparr> = of_int n * fixed_value v"
  by (simp add: fixed_value_def)

lemma fixed_value_square: "fixed_value \<lparr>units = units v * units v, scale = scale v * 2\<rparr> = (fixed_value v)\<^sup>2"
  by (simp add: fixed_value_def power2_eq_square power_mult_distrib power_mult [symmetric] power_add [symmetric] mult_2_right)

lemma calculateAnnualDiversity_returns: "returns (calculateAnnualDiversity s) \<longleftrightarrow> suppliers_accepted s"
proof -
  have eq: "js_equal m (Finite 0) \<longleftrightarrow> m = Finite 0" for m by (auto simp: js_equal_def)
  show ?thesis
  proof (cases "\<not> is_safe_integer (as_count s) \<or> as_count s < 0")
    case True
    then show ?thesis by (auto simp: calculateAnnualDiversity_def suppliers_accepted_def)
  next
    case False
    show ?thesis
    proof (cases "as_count s = 0")
      case True
      with False show ?thesis
        by (auto simp: calculateAnnualDiversity_def suppliers_accepted_def returns_ebind
            parseNonnegativeDecimal_Inr_iff eq Let_def)
    next
      case pos: False
      let ?v = "parseFixedDecimal (as_valueKusd s)" and ?q = "parseFixedDecimal (as_valueSquareSumKusdSquared s)"
      have v: "fixed_value ?v = decimal_value (as_valueKusd s)" "fixed_value ?q = decimal_value (as_valueSquareSumKusdSquared s)"
        by (simp_all add: decimal_value_def)
      from False pos show ?thesis
        unfolding calculateAnnualDiversity_def suppliers_accepted_def
        by (simp add: returns_ebind parsePositiveDecimal_Inr_iff Let_def compareFixedDecimals_sign
            fixed_value_times_int fixed_value_square v not_less)
    qed
  qed
qed

definition counts_accepted :: "market_year \<Rightarrow> bool" where
  "counts_accepted row \<longleftrightarrow> is_safe_integer (my_sourceFlowCount row) \<and> is_safe_integer (my_quantityPresentCount row) \<and>
     0 \<le> my_quantityPresentCount row \<and> my_quantityPresentCount row \<le> my_sourceFlowCount row"

lemma calculateQuantityCoverage_returns: "returns (calculateQuantityCoverage rows) \<longleftrightarrow> list_all counts_accepted rows"
proof -
  have "(\<exists>b. count_row row acc = Inr b) \<longleftrightarrow> counts_accepted row" for row acc
    by (auto simp: count_row_def counts_accepted_def not_less)
  from efold_succeeds_iff [where f = count_row and P = counts_accepted, OF this]
  show ?thesis unfolding calculateQuantityCoverage_def
    by (subst returns_ebind_total) (auto simp: returns_def split: prod.splits)
qed

definition recorded_accepted :: "selected_exporter \<Rightarrow> js_number \<Rightarrow> bool" where
  "recorded_accepted e world \<longleftrightarrow>
     (case e of
        ExporterNoRecordedPositiveFlow \<Rightarrow> True
      | ExporterRecorded v \<Rightarrow> readable_positive v \<and>
          (js_less world (to_number (decimal_value v)) \<longrightarrow> nearlyEqual (to_number (decimal_value v)) world))"

definition row_accepted :: "market_year \<Rightarrow> bool" where
  "row_accepted row \<longleftrightarrow>
     readable_positive (my_worldValueKusd row) \<and> suppliers_accepted (my_alternativeSuppliers row) \<and> counts_accepted row \<and>
     recorded_accepted (my_selectedExporter row) (to_number (decimal_value (my_worldValueKusd row)))"

lemma add_recorded_returns: "returns (add_recorded (row, world) acc) \<longleftrightarrow> recorded_accepted (my_selectedExporter row) world"
  by (auto simp: add_recorded_def recorded_accepted_def returns_ebind parsePositiveDecimal_Inr_iff
      validateAndClampRecordedValue_def split: selected_exporter.split)

lemma efold_returns: "(\<And>x acc. returns (f x acc) \<longleftrightarrow> P x) \<Longrightarrow> returns (efold f xs acc) \<longleftrightarrow> list_all P xs"
  using efold_succeeds_iff [of f P xs acc] by (simp add: returns_def)

lemma world_values:
  "emap (\<lambda>row. parsePositiveDecimal (my_worldValueKusd row) field) rows = Inr vs \<longleftrightarrow>
     list_all (\<lambda>row. readable_positive (my_worldValueKusd row)) rows \<and>
     vs = map (\<lambda>row. to_number (decimal_value (my_worldValueKusd row))) rows"
  by (induction rows arbitrary: vs) (auto simp: ebind_Inr_iff parsePositiveDecimal_Inr_iff)

lemma calculateLogLinearGrowth_returns:
  "list_all (\<lambda>row. readable_positive (my_worldValueKusd row)) rows \<Longrightarrow> returns (calculateLogLinearGrowth M rows)"
proof -
  assume h: "list_all (\<lambda>row. readable_positive (my_worldValueKusd row)) rows"
  have "returns (emap (\<lambda>row. ebind (parsePositiveDecimal (my_worldValueKusd row) ''worldValueKusd'') (\<lambda>v. Inr (math_log M v))) rows)"
    using h by (auto simp: returns_emap list_all_iff returns_ebind parsePositiveDecimal_Inr_iff)
  then show ?thesis unfolding calculateLogLinearGrowth_def Let_def by (subst returns_ebind_total) simp_all
qed

lemma computeRawCandidate_returns: "returns (computeRawCandidate M rows) \<longleftrightarrow> list_all row_accepted rows"
proof (cases "list_all (\<lambda>row. readable_positive (my_worldValueKusd row)) rows")
  case False
  then have "\<not> list_all row_accepted rows" by (auto simp: list_all_iff row_accepted_def)
  moreover have "\<not> returns (computeRawCandidate M rows)"
    using False by (auto simp: computeRawCandidate_def Let_def returns_ebind world_values list_all_iff)
  ultimately show ?thesis by simp
next
  case True
  let ?rows = "sort_key my_year rows"
  let ?world = "\<lambda>row. to_number (decimal_value (my_worldValueKusd row))"
  have srt: "list_all P ?rows \<longleftrightarrow> list_all P rows" for P by (simp add: list_all_iff)
  have world: "emap (\<lambda>row. parsePositiveDecimal (my_worldValueKusd row) ''worldValueKusd'') ?rows = Inr (map ?world ?rows)"
    using True by (simp add: world_values srt)
  have growth: "returns (calculateLogLinearGrowth M ?rows)" using True by (intro calculateLogLinearGrowth_returns) (simp add: srt)
  have recorded: "returns (efold add_recorded (zip ?rows (map ?world ?rows)) acc) \<longleftrightarrow>
      list_all (\<lambda>row. recorded_accepted (my_selectedExporter row) (?world row)) rows" for acc
  proof -
    have "returns (efold add_recorded (zip ?rows (map ?world ?rows)) acc) \<longleftrightarrow>
        list_all (\<lambda>(row, w). recorded_accepted (my_selectedExporter row) w) (zip ?rows (map ?world ?rows))"
      by (rule efold_returns) (auto simp: add_recorded_returns)
    moreover have zipped: "zip ?rows (map ?world ?rows) = map (\<lambda>row. (row, ?world row)) ?rows"
      by (simp add: zip_map2 zip_same_conv_map)
    ultimately show ?thesis unfolding zipped by (simp add: list_all_iff)
  qed
  have diversity: "returns (emap (\<lambda>row. calculateAnnualDiversity (my_alternativeSuppliers row)) ?rows) \<longleftrightarrow>
      list_all (\<lambda>row. suppliers_accepted (my_alternativeSuppliers row)) rows"
    by (simp add: returns_emap calculateAnnualDiversity_returns list_all_iff)
  have coverage: "returns (calculateQuantityCoverage ?rows) \<longleftrightarrow> list_all counts_accepted rows"
    by (simp add: calculateQuantityCoverage_returns list_all_iff)
  obtain g where g: "calculateLogLinearGrowth M ?rows = Inr g" using growth by (auto simp: returns_def)
  have "returns (computeRawCandidate M rows) \<longleftrightarrow>
      returns (efold add_recorded (zip ?rows (map ?world ?rows)) (Finite 0)) \<and>
      returns (emap (\<lambda>row. calculateAnnualDiversity (my_alternativeSuppliers row)) ?rows) \<and>
      returns (calculateQuantityCoverage ?rows)"
    unfolding computeRawCandidate_def Let_def world ebind.simps g
    by (simp only: returns_ebind returns_simps) (auto simp: returns_def)
  also have "\<dots> \<longleftrightarrow> list_all row_accepted rows"
    using True unfolding recorded diversity coverage by (auto simp: list_all_iff row_accepted_def)
  finally show ?thesis .
qed

subsection \<open>The whole recipe\<close>

definition window_rows :: "int \<Rightarrow> int \<Rightarrow> market_year list \<Rightarrow> market_year list" where
  "window_rows start end_year rows = filter (\<lambda>row. start \<le> my_year row \<and> my_year row \<le> end_year) rows"

lemma computeWindow_unfold:
  "computeWindow M rows (a, b) =
     ebind (emap (\<lambda>g. computeRawCandidate M (snd g)) (group_rows (window_rows a b rows))) (\<lambda>raw.
       Inr \<lparr>wn_candidates = score_candidates raw,
            wn_ranksByCode = map (\<lambda>c. (ec_code (rw_economy c), rw_rank c)) (score_candidates raw)\<rparr>)"
proof -
  have "filter (\<lambda>row. \<not> (my_year row < fst (a, b) \<or> my_year row > snd (a, b))) rows = window_rows a b rows"
    unfolding window_rows_def by (rule filter_cong) auto
  then show ?thesis unfolding computeWindow_def Let_def by (simp only:)
qed

lemma computeWindow_returns: "returns (computeWindow M rows (a, b)) \<longleftrightarrow> list_all row_accepted (window_rows a b rows)"
proof -
  have "returns (computeWindow M rows (a, b)) \<longleftrightarrow>
      (\<forall>(code, rs) \<in> set (group_rows (window_rows a b rows)). list_all row_accepted rs)"
    unfolding computeWindow_unfold
    by (subst returns_ebind_total) (auto simp: returns_emap computeRawCandidate_returns list_all_iff)
  also have "\<dots> \<longleftrightarrow> list_all row_accepted (window_rows a b rows)"
  proof
    assume h: "\<forall>(code, rs) \<in> set (group_rows (window_rows a b rows)). list_all row_accepted rs"
    have "row_accepted r" if "r \<in> set (window_rows a b rows)" for r
    proof -
      have "(code_of_row r, filter (\<lambda>q. code_of_row q = code_of_row r) (window_rows a b rows))
          \<in> set (group_rows (window_rows a b rows))"
        using that by (simp add: group_rows_member)
      with h that show ?thesis by (auto simp: list_all_iff)
    qed
    then show "list_all row_accepted (window_rows a b rows)" by (simp add: list_all_iff)
  qed (auto simp: group_rows_member list_all_iff)
  finally show ?thesis .
qed

definition totals_accepted :: "(int \<times> string) list \<Rightarrow> bool" where
  "totals_accepted totals \<longleftrightarrow>
     (let s = sort_key fst totals
      in list_all (\<lambda>(p, e). fst e = fst p + 1 \<and> readable_positive (snd p) \<and> readable_positive (snd e)) (zip s (tl s)))"

lemma findDiscontinuityYears_returns: "returns (findDiscontinuityYears M totals) \<longleftrightarrow> totals_accepted totals"
proof -
  let ?s = "sort_key fst totals"
  have short: "zip ?s (tl ?s) = []" if "length ?s < 2" using that by (cases ?s; cases "tl ?s") (simp_all del: length_sort)
  have one: "returns (yearly_change M pe) \<longleftrightarrow>
      (case pe of (p, e) \<Rightarrow> fst e = fst p + 1 \<and> readable_positive (snd p) \<and> readable_positive (snd e))" for pe
    by (cases pe) (auto simp: yearly_change_def returns_ebind parsePositiveDecimal_Inr_iff)
  have "returns (emap (yearly_change M) (zip ?s (tl ?s))) \<longleftrightarrow> totals_accepted totals"
    by (simp add: returns_emap totals_accepted_def Let_def one)
  moreover have "returns (ebind (emap (yearly_change M) (zip ?s (tl ?s))) k) \<longleftrightarrow> returns (emap (yearly_change M) (zip ?s (tl ?s)))"
    if "\<And>x. returns (k x)" for k :: "_ \<Rightarrow> candidate_error + int list"
    using that by (rule returns_ebind_total)
  ultimately show ?thesis using short unfolding findDiscontinuityYears_def Let_def
    by (auto simp: returns_if totals_accepted_def Let_def)
qed

definition provisional_accepted :: "market_year \<Rightarrow> bool" where
  "provisional_accepted row \<longleftrightarrow>
     readable_positive (my_worldValueKusd row) \<and> counts_accepted row \<and>
     recorded_accepted (my_selectedExporter row) (to_number (decimal_value (my_worldValueKusd row)))"

lemma buildProvisionalEvidence_returns:
  "returns (buildProvisionalEvidence row y) \<longleftrightarrow> (case row of None \<Rightarrow> True | Some r \<Rightarrow> provisional_accepted r)"
proof (cases row)
  case (Some r)
  have "returns (calculateQuantityCoverage [r]) \<longleftrightarrow> counts_accepted r" by (simp add: calculateQuantityCoverage_returns)
  then have c: "(\<exists>x. calculateQuantityCoverage [r] = Inr x) \<longleftrightarrow> counts_accepted r" by (simp add: returns_def)
  show ?thesis unfolding buildProvisionalEvidence_def Some option.case
    by (cases "my_selectedExporter r")
       (auto simp: returns_ebind parsePositiveDecimal_Inr_iff c provisional_accepted_def recorded_accepted_def
          validateAndClampRecordedValue_def ebind_Inr_iff)
qed (simp add: buildProvisionalEvidence_def)

text \<open>The evidence that the recipe accepts: one release; every row of the ten-year window well formed; the
  product totals consecutive years of positive values; and the provisional row of every candidate well formed.\<close>

definition provisional_row :: "cms_inputs \<Rightarrow> string \<Rightarrow> market_year option" where
  "provisional_row inp code =
     find (\<lambda>row. code_of_row row = code \<and> my_year row = rel_provisionalYear (ki_release inp)) (ki_provisionalMarketYears inp)"

definition cms_accepted :: "cms_inputs \<Rightarrow> bool" where
  "cms_accepted inp \<longleftrightarrow>
     (let cutoff = rel_finalizedCutoffYear (ki_release inp); rows = ki_marketYears inp
      in art_baciRelease (ki_artifact inp) = rel_baciRelease (ki_release inp) \<and>
         list_all row_accepted (window_rows (cutoff - 9) cutoff rows) \<and>
         totals_accepted (ki_productYearTotals inp) \<and>
         list_all (\<lambda>row. case provisional_row inp (code_of_row row) of None \<Rightarrow> True | Some p \<Rightarrow> provisional_accepted p)
           (window_rows (cutoff - 4) cutoff rows))"

lemma toPublicCandidate_returns:
  "returns (toPublicCandidate inp w st dy h d n rv c) \<longleftrightarrow>
     (case provisional_row inp (ec_code (rw_economy c)) of None \<Rightarrow> True | Some p \<Rightarrow> provisional_accepted p)"
  unfolding toPublicCandidate_def Let_def
  by (subst returns_ebind_total) (simp_all add: buildProvisionalEvidence_returns provisional_row_def code_of_row_def)

text \<open>The economies of the candidates of a window.\<close>

lemma computeRawCandidate_facts:
  assumes "computeRawCandidate M rows = Inr c"
  shows "rw_economy c = my_candidateMarket (hd (sort_key my_year rows))" "rw_observedYears c = sort (map my_year rows)"
    "rw_rows c = sort_key my_year rows"
proof -
  have "map my_year (sort_key my_year rows) = sort (map my_year rows)"
    by (rule properties_for_sort [symmetric]) simp_all
  with assms show "rw_economy c = my_candidateMarket (hd (sort_key my_year rows))" "rw_observedYears c = sort (map my_year rows)"
    "rw_rows c = sort_key my_year rows"
    by (auto simp: computeRawCandidate_def Let_def ebind_Inr_iff split: prod.splits)
qed

lemma group_economy:
  assumes "(code, rs) \<in> set (group_rows rows)" "computeRawCandidate M rs = Inr c"
  shows "ec_code (rw_economy c) = code"
proof -
  have rs: "rs \<noteq> []" "\<forall>r \<in> set rs. code_of_row r = code"
    using assms(1) by (auto simp: group_rows_member filter_empty_conv)
  then have "hd (sort_key my_year rs) \<in> set rs" by (metis hd_in_set set_empty set_sort)
  with rs computeRawCandidate_facts(1) [OF assms(2)] show ?thesis by (simp add: code_of_row_def)
qed

lemma mset_scored: "(\<And>c. h (evidence_of c) = h c) \<Longrightarrow> mset (map h (score_candidates cs)) = mset (map h cs)"
  using arg_cong [OF mset_score_candidates [of cs], of "image_mset h"] by (simp add: multiset.map_comp comp_def)

lemma raw_codes:
  assumes "emap (\<lambda>g. computeRawCandidate M (snd g)) (group_rows rows) = Inr raw"
  shows "map (\<lambda>c. ec_code (rw_economy c)) raw = map fst (group_rows rows)"
proof (rule nth_equalityI)
  have all2: "list_all2 (\<lambda>g c. computeRawCandidate M (snd g) = Inr c) (group_rows rows) raw"
    using assms by (simp add: emap_Inr_iff)
  then show "length (map (\<lambda>c. ec_code (rw_economy c)) raw) = length (map fst (group_rows rows))"
    by (simp add: list_all2_lengthD)
  fix i assume "i < length (map (\<lambda>c. ec_code (rw_economy c)) raw)"
  then have i: "i < length raw" "i < length (group_rows rows)" using list_all2_lengthD [OF all2] by simp_all
  obtain code rs where g: "group_rows rows ! i = (code, rs)" by fastforce
  have "(code, rs) \<in> set (group_rows rows)" using i(2) g by (metis nth_mem)
  moreover have "computeRawCandidate M rs = Inr (raw ! i)" using list_all2_nthD [OF all2 i(2)] g by simp
  ultimately show "map (\<lambda>c. ec_code (rw_economy c)) raw ! i = map fst (group_rows rows) ! i"
    using group_economy i g by simp
qed

lemma scored_codes:
  assumes "emap (\<lambda>g. computeRawCandidate M (snd g)) (group_rows rows) = Inr raw"
  shows "mset (map (\<lambda>c. ec_code (rw_economy c)) (score_candidates raw)) = mset (map fst (group_rows rows))"
    and "(\<lambda>c. ec_code (rw_economy c)) ` set (score_candidates raw) = code_of_row ` set rows"
proof -
  show m: "mset (map (\<lambda>c. ec_code (rw_economy c)) (score_candidates raw)) = mset (map fst (group_rows rows))"
    using mset_scored [of "\<lambda>c. ec_code (rw_economy c)" raw] raw_codes [OF assms] by simp
  show "(\<lambda>c. ec_code (rw_economy c)) ` set (score_candidates raw) = code_of_row ` set rows"
    using mset_eq_setD [OF m] group_rows_facts [of rows] by simp
qed

text \<open>The steps of a run that returns: the candidates of the window and their published form.\<close>

definition published_from :: "cms_inputs \<Rightarrow> raw_candidate list \<Rightarrow> cms_result \<Rightarrow> bool" where
  "published_from inp raw r \<longleftrightarrow>
     (let cutoff = rel_finalizedCutoffYear (ki_release inp)
      in \<exists>discontinuityYears history dominant revision.
           list_all2 (\<lambda>candidate c. toPublicCandidate inp (cutoff - 4, cutoff) (kr_stability r) discontinuityYears history
               dominant (length raw) (revision candidate) candidate = Inr c) (score_candidates raw) (kr_candidates r))"

lemma computeCms_facts:
  assumes "computeCmsV1 M inp prev = Inr r" "cutoff = rel_finalizedCutoffYear (ki_release inp)"
  obtains raw where
    "emap (\<lambda>g. computeRawCandidate M (snd g)) (group_rows (window_rows (cutoff - 4) cutoff (ki_marketYears inp))) = Inr raw"
    "published_from inp raw r" "kr_cohortSize r = length (kr_candidates r)"
    "kr_emptyReason r = None \<longleftrightarrow> kr_candidates r \<noteq> []"
proof -
  from assms obtain primary threeYear tenYear stability discontinuityYears history dominant revision candidates where
    p: "computeWindow M (ki_marketYears inp) (cutoff - 4, cutoff) = Inr primary"
    and c: "emap (\<lambda>candidate. toPublicCandidate inp (cutoff - 4, cutoff) stability discontinuityYears history dominant
        (length (wn_candidates primary)) (revision candidate) candidate) (wn_candidates primary) = Inr candidates"
    and r: "kr_candidates r = candidates" "kr_stability r = stability" "kr_cohortSize r = length candidates"
      "kr_emptyReason r = None \<longleftrightarrow> candidates \<noteq> []"
    by (auto simp: computeCmsV1_def Let_def ebind_Inr_iff split: if_splits)
  from p obtain raw where raw:
    "emap (\<lambda>g. computeRawCandidate M (snd g)) (group_rows (window_rows (cutoff - 4) cutoff (ki_marketYears inp))) = Inr raw"
    "wn_candidates primary = score_candidates raw"
    by (auto simp: computeWindow_unfold ebind_Inr_iff)
  have "length (score_candidates raw) = length raw" by simp
  with c r raw(2) assms(2) have "published_from inp raw r"
    unfolding published_from_def Let_def emap_Inr_iff by (simp only:) blast
  with raw(1) r show thesis by (intro that [of raw]) simp_all
qed

lemma cms_accepted_iff: "returns (computeCmsV1 M inp prev) \<longleftrightarrow> cms_accepted inp"
proof -
  define cutoff where "cutoff = rel_finalizedCutoffYear (ki_release inp)"
  let ?rows = "ki_marketYears inp"
  show ?thesis
  proof (cases "art_baciRelease (ki_artifact inp) = rel_baciRelease (ki_release inp) \<and>
      list_all row_accepted (window_rows (cutoff - 9) cutoff ?rows) \<and> totals_accepted (ki_productYearTotals inp)")
    case False
    then consider "art_baciRelease (ki_artifact inp) \<noteq> rel_baciRelease (ki_release inp)"
      | "\<not> returns (computeWindow M ?rows (cutoff - 9, cutoff))"
      | "\<not> returns (findDiscontinuityYears M (ki_productYearTotals inp))"
      by (auto simp: computeWindow_returns findDiscontinuityYears_returns)
    then have "\<not> returns (computeCmsV1 M inp prev)"
      by cases (auto simp: computeCmsV1_def Let_def returns_def ebind_Inr_iff cutoff_def [symmetric])
    with False show ?thesis by (auto simp: cms_accepted_def Let_def cutoff_def)
  next
    case True
    have sub: "list_all row_accepted (window_rows a cutoff ?rows)" if "cutoff - 9 \<le> a" for a
      using True that by (auto simp: window_rows_def list_all_iff)
    obtain primary threeYear tenYear where w: "computeWindow M ?rows (cutoff - 4, cutoff) = Inr primary"
      "computeWindow M ?rows (cutoff - 2, cutoff) = Inr threeYear" "computeWindow M ?rows (cutoff - 9, cutoff) = Inr tenYear"
      using sub [of "cutoff - 4"] sub [of "cutoff - 2"] sub [of "cutoff - 9"]
      by (auto simp: returns_def simp flip: computeWindow_returns [of M])
    obtain dy where dy: "findDiscontinuityYears M (ki_productYearTotals inp) = Inr dy"
      using True by (auto simp: returns_def simp flip: findDiscontinuityYears_returns [of M])
    have "returns (computeCmsV1 M inp prev) \<longleftrightarrow>
        (\<forall>c \<in> set (wn_candidates primary). case provisional_row inp (ec_code (rw_economy c)) of
           None \<Rightarrow> True | Some p \<Rightarrow> provisional_accepted p)"
      using True unfolding computeCmsV1_def Let_def cutoff_def [symmetric] w dy ebind.simps if_not_P
      by (simp add: returns_if) (subst returns_ebind_total, simp_all add: returns_emap toPublicCandidate_returns list_all_iff)
    also have "\<dots> \<longleftrightarrow> (\<forall>code \<in> code_of_row ` set (window_rows (cutoff - 4) cutoff ?rows).
        case provisional_row inp code of None \<Rightarrow> True | Some p \<Rightarrow> provisional_accepted p)"
    proof -
      obtain raw where raw: "emap (\<lambda>g. computeRawCandidate M (snd g)) (group_rows (window_rows (cutoff - 4) cutoff ?rows)) = Inr raw"
        "wn_candidates primary = score_candidates raw"
        using w(1) by (auto simp: computeWindow_unfold ebind_Inr_iff)
      show ?thesis unfolding raw(2) scored_codes(2) [OF raw(1), symmetric] by simp
    qed
    finally show ?thesis using True by (simp add: cms_accepted_def Let_def cutoff_def list_all_iff)
  qed
qed

subsection \<open>What a published candidate holds\<close>

lemma toPublicCandidate_facts:
  assumes "toPublicCandidate inp w stability dy history dominant n rv cand = Inr c"
  shows "cm_economy c = rw_economy cand" "cm_score c = rw_score cand" "cm_rank c = rw_rank cand"
    "cm_rankTieSize c = rw_rankTieSize cand" "cm_rankPercentile c = js_to_fixed 3 (rw_rankPercentile cand)"
    "cm_observedScoreYears c = rw_observedYears cand" "cm_latestFinalizedObservedYear c = last (rw_observedYears cand)"
    "cm_missingScoreYears c = filter (\<lambda>y. y \<notin> set (rw_observedYears cand)) (yearsBetween (fst w) (snd w))"
    "ms_percentile (cm_marketSize c) = roundHalfUp (pc_size (rw_percentiles cand))"
    "mg_percentile (cm_marketGrowth c) = roundHalfUp (pc_growth (rw_percentiles cand))"
    "fh_percentile (cm_recordedFoothold c) = roundHalfUp (pc_foothold (rw_percentiles cand))"
    "dv_percentile (cm_supplierDiversity c) = roundHalfUp (pc_diversity (rw_percentiles cand))"
    "cm_confidence c = calculateConfidence cand (cm_missingScoreYears c) (snd w) dy stability history n"
  using assms by (auto simp: toPublicCandidate_def Let_def ebind_Inr_iff)

definition deducted :: "(deduction_code \<times> int) list \<Rightarrow> int" where
  "deducted ds = foldl (\<lambda>t d. t + snd d) 0 ds"

lemma deducted_nonneg: "0 \<le> deducted []" "0 \<le> deducted ds \<Longrightarrow> 0 \<le> deducted (addDeduction code points ds)"
  by (simp_all add: deducted_def addDeduction_def)

lemma capped_bounds:
  assumes "0 \<le> S"
  shows "0 \<le> (if b then min (max 0 (100 - S)) 40 else max 0 (100 - S))"
    "(if b then min (max 0 (100 - S)) 40 else max 0 (100 - S)) \<le> (if b then 40 else (100::int))"
  using assms by simp_all

lemma confidence_bounds:
  "0 \<le> cf_score (calculateConfidence cand missing cutoff dy stability history n)"
  "cf_score (calculateConfidence cand missing cutoff dy stability history n) \<le> (if length (rw_observedYears cand) \<le> 2 then 40 else 100)"
  unfolding calculateConfidence_def Let_def candidate_confidence.select_convs deducted_def [symmetric]
  by (rule capped_bounds; intro deducted_nonneg)+

definition whole_percentage :: "js_number \<Rightarrow> bool" where
  "whole_percentage n \<longleftrightarrow> (\<exists>k::nat. k \<le> 100 \<and> n = Finite (of_nat k))"

lemma published_raw:
  assumes "published_from inp raw r" "cutoff = rel_finalizedCutoffYear (ki_release inp)" "c \<in> set (kr_candidates r)"
  obtains cand dy history dominant rv where "cand \<in> set (score_candidates raw)"
    "toPublicCandidate inp (cutoff - 4, cutoff) (kr_stability r) dy history dominant (length raw) rv cand = Inr c"
  using assms by (auto simp: published_from_def Let_def dest!: list_all2_right_source)

lemma raw_length:
  assumes "emap (\<lambda>g. computeRawCandidate M (snd g)) (group_rows (window_rows a b rows)) = Inr raw" "length rows < 2 ^ 32"
  shows "length raw \<le> 2 ^ 38"
proof -
  have "length raw \<le> length (window_rows a b rows)" using emap_length [OF assms(1)] group_rows_length by metis
  also have "\<dots> \<le> length rows" by (simp add: window_rows_def)
  finally show ?thesis using assms(2) by simp
qed

text \<open>C8: every published score is a whole number between 0 and 100, and so is the percentile of each of its four
  components. The confidence of a candidate is an integer between 0 and 100, and at most 40 when the candidate was
  observed in at most two years. A JavaScript array has fewer than \<^theory_text>\<open>2 ^ 32\<close> members, which keeps every
  intermediate count exact.\<close>

theorem cms_scores_bounded:
  assumes "computeCmsV1 M inp prev = Inr r" "length (ki_marketYears inp) < 2 ^ 32" "c \<in> set (kr_candidates r)"
  shows "whole_percentage (cm_score c) \<and>
    whole_percentage (ms_percentile (cm_marketSize c)) \<and> whole_percentage (mg_percentile (cm_marketGrowth c)) \<and>
    whole_percentage (fh_percentile (cm_recordedFoothold c)) \<and> whole_percentage (dv_percentile (cm_supplierDiversity c)) \<and>
    0 \<le> cf_score (cm_confidence c) \<and>
    cf_score (cm_confidence c) \<le> (if length (cm_observedScoreYears c) \<le> 2 then 40 else 100)"
proof -
  obtain raw where raw: "emap (\<lambda>g. computeRawCandidate M (snd g)) (group_rows (window_rows
      (rel_finalizedCutoffYear (ki_release inp) - 4) (rel_finalizedCutoffYear (ki_release inp)) (ki_marketYears inp))) = Inr raw"
    "published_from inp raw r"
    using computeCms_facts [OF assms(1) refl] .
  obtain cand dy history dominant rv where cand: "cand \<in> set (score_candidates raw)"
    "toPublicCandidate inp (rel_finalizedCutoffYear (ki_release inp) - 4, rel_finalizedCutoffYear (ki_release inp))
       (kr_stability r) dy history dominant (length raw) rv cand = Inr c"
    using published_raw [OF raw(2) refl assms(3)] .
  note n = raw_length [OF raw(1) assms(2)]
  have p: "percentages (rw_percentiles cand)" using score_candidates_range [OF n cand(1)] by blast
  have whole: "whole_percentage (roundHalfUp q)" if "percentage q" for q
    using roundHalfUp_range [OF that] by (auto simp: whole_percentage_def)
  have "whole_percentage (rw_score cand)"
    using score_candidates_score [OF n cand(1)] unfolding whole_percentage_def by metis
  with p show ?thesis
    using confidence_bounds unfolding toPublicCandidate_facts [OF cand(2)] percentages_def by (intro conjI whole) auto
qed

text \<open>C7: the recipe returns a result exactly for the well-formed evidence, and throws on any other: the artifact and
  the release name the same BACI release; every row of the ten-year window has a positive value, counts that fit,
  a recorded value that does not exceed the value of the market and supplier aggregates that some suppliers could
  have; the product totals are consecutive years; and the provisional row of every candidate is well formed. The
  aggregates are judged on the exact decimals, not on their rounded numbers.\<close>

theorem cms_evidence_accepted: "(\<exists>r. computeCmsV1 M inp prev = Inr r) \<longleftrightarrow> cms_accepted inp"
  using cms_accepted_iff [of M inp prev] by (simp add: returns_def)

subsection \<open>Ranks and cohort\<close>

lemma published_scores:
  assumes "published_from inp raw r"
  shows "map cm_score (kr_candidates r) = map rw_score (score_candidates raw)" "length (kr_candidates r) = length raw"
proof -
  obtain dy history dominant rv where "list_all2 (\<lambda>candidate c. toPublicCandidate inp
      (rel_finalizedCutoffYear (ki_release inp) - 4, rel_finalizedCutoffYear (ki_release inp)) (kr_stability r) dy history
      dominant (length raw) (rv candidate) candidate = Inr c) (score_candidates raw) (kr_candidates r)"
    using assms by (auto simp: published_from_def Let_def)
  then show "map cm_score (kr_candidates r) = map rw_score (score_candidates raw)" "length (kr_candidates r) = length raw"
    by (auto simp: toPublicCandidate_facts dest: list_all2_lengthD intro: list_all2_map_eq [symmetric])
qed

text \<open>C4: the candidates are listed by falling score; the rank of a candidate is one more than the number of
  candidates that score higher, its tie size the number that score the same, itself included, and its rank
  percentile prints the percentage of the other candidates that score lower, each tied one counted by half; a
  single candidate stands at 50.\<close>

theorem cms_ranking:
  assumes "computeCmsV1 M inp prev = Inr r" "length (ki_marketYears inp) < 2 ^ 32"
  shows "sorted (map (\<lambda>c. - score_value (cm_score c)) (kr_candidates r)) \<and>
    (\<forall>c \<in> set (kr_candidates r).
       cm_rank c = 1 + higher_scores cm_score (kr_candidates r) (cm_score c) \<and>
       cm_rankTieSize c = equal_scores cm_score (kr_candidates r) (cm_score c) \<and>
       cm_rankPercentile c = js_to_fixed 3
         (if length (kr_candidates r) = 1 then Finite 50
          else to_number (100 * (of_nat (lower_scores cm_score (kr_candidates r) (cm_score c)) + of_nat (cm_rankTieSize c - 1) / 2) /
                          of_nat (length (kr_candidates r) - 1))))"
proof -
  obtain raw where raw: "emap (\<lambda>g. computeRawCandidate M (snd g)) (group_rows (window_rows
      (rel_finalizedCutoffYear (ki_release inp) - 4) (rel_finalizedCutoffYear (ki_release inp)) (ki_marketYears inp))) = Inr raw"
    "published_from inp raw r"
    using computeCms_facts [OF assms(1) refl] .
  note n = raw_length [OF raw(1) assms(2)]
  note published = published_scores [OF raw(2)]
  note ranked = score_candidates_ranked [OF n]
  have "sorted (map (\<lambda>c. - score_value (cm_score c)) (kr_candidates r))"
    using arg_cong [OF published(1), of "map (\<lambda>s. - score_value s)"] ranked(1) by (simp add: comp_def)
  moreover have "cm_rank c = 1 + higher_scores cm_score (kr_candidates r) (cm_score c) \<and>
      cm_rankTieSize c = equal_scores cm_score (kr_candidates r) (cm_score c) \<and>
      cm_rankPercentile c = js_to_fixed 3 (if length (kr_candidates r) = 1 then Finite 50
         else to_number (100 * (of_nat (lower_scores cm_score (kr_candidates r) (cm_score c)) + of_nat (cm_rankTieSize c - 1) / 2) /
                         of_nat (length (kr_candidates r) - 1)))" if c: "c \<in> set (kr_candidates r)" for c
  proof -
    obtain cand dy history dominant rv where cand: "cand \<in> set (score_candidates raw)"
      "toPublicCandidate inp (rel_finalizedCutoffYear (ki_release inp) - 4, rel_finalizedCutoffYear (ki_release inp))
         (kr_stability r) dy history dominant (length raw) rv cand = Inr c"
      using published_raw [OF raw(2) refl c] .
    note facts = toPublicCandidate_facts [OF cand(2)]
    show ?thesis using ranked(2-4) [OF cand(1)] published(2)
      unfolding score_counts_map [OF published(1)] facts by simp
  qed
  ultimately show ?thesis by blast
qed

lemma published_economies:
  assumes "published_from inp raw r"
  shows "map (\<lambda>c. ec_code (cm_economy c)) (kr_candidates r) = map (\<lambda>c. ec_code (rw_economy c)) (score_candidates raw)"
  using assms by (auto simp: published_from_def Let_def toPublicCandidate_facts intro!: list_all2_map_eq [symmetric])

lemma scored_years:
  assumes "emap (\<lambda>g. computeRawCandidate M (snd g)) (group_rows rows) = Inr raw" "cand \<in> set (score_candidates raw)"
  shows "rw_observedYears cand = sort (map my_year (filter (\<lambda>row. code_of_row row = ec_code (rw_economy cand)) rows))"
proof -
  let ?h = "\<lambda>c. (ec_code (rw_economy c), rw_observedYears c)"
  have "?h cand \<in> set (map ?h (score_candidates raw))" using assms(2) by auto
  then have "?h cand \<in> set (map ?h raw)" using mset_eq_setD [OF mset_scored [of ?h raw]] by simp
  then obtain c where c: "c \<in> set raw" "?h cand = ?h c" by auto
  obtain g where g: "g \<in> set (group_rows rows)" "computeRawCandidate M (snd g) = Inr c"
    using list_all2_right_source [OF assms(1) [unfolded emap_Inr_iff]] c(1) by blast
  have "(fst g, snd g) \<in> set (group_rows rows)" using g(1) by simp
  then have "snd g = filter (\<lambda>row. code_of_row row = fst g) rows" "ec_code (rw_economy c) = fst g"
    using group_economy [OF _ g(2)] unfolding group_rows_member by blast+
  with c(2) computeRawCandidate_facts(2) [OF g(2)] show ?thesis by simp
qed

lemma last_sorted_Max:
  assumes "sorted xs" "xs \<noteq> []"
  shows "last xs = Max (set xs)"
proof (rule Max_eqI [symmetric])
  define ys z where "ys = butlast xs" and "z = last xs"
  have xs: "xs = ys @ [z]" using assms(2) by (simp add: ys_def z_def)
  show "y \<le> last xs" if "y \<in> set xs" for y using that assms(1) unfolding xs by (auto simp: sorted_append)
qed (use assms in simp_all)

lemma yearsBetween_set: "set (yearsBetween a b) = {a..b}"
proof (rule set_eqI, rule iffI)
  fix y assume "y \<in> {a..b}"
  then show "y \<in> set (yearsBetween a b)"
    using image_eqI [of y "\<lambda>i. a + int i" "nat (y - a)" "{0..<nat (b - a + 1)}"] by (simp add: yearsBetween_def)
qed (auto simp: yearsBetween_def)

text \<open>C9: the candidates are exactly the economies that have a row in the five-year window, each once. The observed
  years of a candidate are the years of its rows in order, the missing ones the rest of the window, and the latest
  observed year is the last of them; the result is marked as empty exactly when there is no candidate.\<close>

theorem cms_cohort_complete:
  assumes "computeCmsV1 M inp prev = Inr r" "cutoff = rel_finalizedCutoffYear (ki_release inp)"
    "window = window_rows (cutoff - 4) cutoff (ki_marketYears inp)"
  shows "distinct (map (\<lambda>c. ec_code (cm_economy c)) (kr_candidates r)) \<and>
    (\<lambda>c. ec_code (cm_economy c)) ` set (kr_candidates r) = code_of_row ` set window \<and>
    kr_cohortSize r = length (kr_candidates r) \<and> (kr_emptyReason r = None \<longleftrightarrow> window \<noteq> []) \<and>
    (\<forall>c \<in> set (kr_candidates r).
       cm_observedScoreYears c = sort (map my_year (filter (\<lambda>row. code_of_row row = ec_code (cm_economy c)) window)) \<and>
       set (cm_missingScoreYears c) = {cutoff - 4..cutoff} - set (cm_observedScoreYears c) \<and>
       cm_latestFinalizedObservedYear c = Max (set (cm_observedScoreYears c)))"
proof -
  obtain raw where raw: "emap (\<lambda>g. computeRawCandidate M (snd g)) (group_rows window) = Inr raw"
    "published_from inp raw r" "kr_cohortSize r = length (kr_candidates r)"
    "kr_emptyReason r = None \<longleftrightarrow> kr_candidates r \<noteq> []"
    using computeCms_facts [OF assms(1,2)] unfolding assms(3) .
  have codes: "map (\<lambda>c. ec_code (cm_economy c)) (kr_candidates r) = map (\<lambda>c. ec_code (rw_economy c)) (score_candidates raw)"
    using published_economies [OF raw(2)] .
  have "mset (map (\<lambda>c. ec_code (cm_economy c)) (kr_candidates r)) = mset (map fst (group_rows window))"
    unfolding codes by (rule scored_codes(1) [OF raw(1)])
  then have "distinct (map (\<lambda>c. ec_code (cm_economy c)) (kr_candidates r))"
    using group_rows_facts [of window] by (metis mset_eq_imp_distinct_iff)
  moreover have img: "(\<lambda>c. ec_code (cm_economy c)) ` set (kr_candidates r) = code_of_row ` set window"
    using scored_codes(2) [OF raw(1)] arg_cong [OF codes, of set] by simp
  moreover have "kr_candidates r = [] \<longleftrightarrow> window = []"
    using img by (metis image_is_empty set_empty)
  moreover have "cm_observedScoreYears c = sort (map my_year (filter (\<lambda>row. code_of_row row = ec_code (cm_economy c)) window)) \<and>
       set (cm_missingScoreYears c) = {cutoff - 4..cutoff} - set (cm_observedScoreYears c) \<and>
       cm_latestFinalizedObservedYear c = Max (set (cm_observedScoreYears c))" if c: "c \<in> set (kr_candidates r)" for c
  proof -
    obtain cand dy history dominant rv where cand: "cand \<in> set (score_candidates raw)"
      "toPublicCandidate inp (cutoff - 4, cutoff) (kr_stability r) dy history dominant (length raw) rv cand = Inr c"
      using published_raw [OF raw(2) assms(2) c] .
    note facts = toPublicCandidate_facts [OF cand(2)]
    have obs: "rw_observedYears cand = sort (map my_year (filter (\<lambda>row. code_of_row row = ec_code (rw_economy cand)) window))"
      using scored_years [OF raw(1) cand(1)] .
    have "ec_code (rw_economy cand) \<in> code_of_row ` set window" using scored_codes(2) [OF raw(1)] cand(1) by auto
    then obtain row where "row \<in> set window" "code_of_row row = ec_code (rw_economy cand)" by auto
    then have "my_year row \<in> set (rw_observedYears cand)" by (simp add: obs)
    then have ne: "rw_observedYears cand \<noteq> []" by auto
    have "sorted (rw_observedYears cand)" by (simp add: obs)
    then have "last (rw_observedYears cand) = Max (set (rw_observedYears cand))" using ne by (rule last_sorted_Max)
    with obs show ?thesis unfolding facts by (auto simp: yearsBetween_set)
  qed
  ultimately show ?thesis using raw(3,4) by blast
qed

subsection \<open>A sample\<close>

definition sample_math :: math_library where
  "sample_math = \<lparr>math_log = (\<lambda>x. js_minus x (Finite 1)), math_exp = (\<lambda>x. js_plus x (Finite 1)),
                  math_sqrt = (\<lambda>x. js_divide (js_plus x (Finite 1)) (Finite 2))\<rparr>"

definition sample_market_year :: "string \<Rightarrow> int \<Rightarrow> string \<Rightarrow> market_year" where
  "sample_market_year code year value =
     \<lparr>my_year = year, my_candidateMarket = \<lparr>ec_code = code, ec_name = ''Economy'', ec_iso3 = None, ec_note = None\<rparr>,
      my_worldValueKusd = value, my_selectedExporter = ExporterNoRecordedPositiveFlow,
      my_alternativeSuppliers = \<lparr>as_count = 2, as_valueKusd = ''1.5'', as_valueSquareSumKusdSquared = ''1.25''\<rparr>,
      my_sourceFlowCount = 4, my_quantityPresentCount = 3\<rparr>"

definition sample_cms_inputs :: cms_inputs where
  "sample_cms_inputs =
     \<lparr>ki_analysisBuildId = ''build'', ki_releaseCatalogSha256 = ''sha'',
      ki_artifact = \<lparr>art_baciRelease = ''V202501'', art_buildId = ''b'', art_schemaVersion = ''s'', art_sha256 = ''a''\<rparr>,
      ki_release = \<lparr>rel_baciRelease = ''V202501'', rel_sourceUpdateDate = ''2025-01-30'', rel_hsRevision = ''HS12'',
         rel_ingestedYears = (2012, 2023), rel_finalizedCutoffYear = 2022, rel_provisionalYear = 2023\<rparr>,
      ki_exporter = \<lparr>ec_code = ''156'', ec_name = ''China'', ec_iso3 = None, ec_note = None\<rparr>,
      ki_product = \<lparr>pr_hsRevision = ''HS12'', pr_code = ''080440'', pr_descriptionEn = ''Avocados''\<rparr>,
      ki_marketYears = [sample_market_year ''8'' 2022 ''1000'', sample_market_year ''4'' 2020 ''20'',
         sample_market_year ''8'' 2021 ''900'', sample_market_year ''4'' 2015 ''7''],
      ki_provisionalMarketYears = [sample_market_year ''4'' 2023 ''30''],
      ki_productYearTotals = [(2021, ''5000''), (2022, ''6000'')]\<rparr>"

lemma readable_positive_small:
  assumes "match_decimal s \<noteq> None" "1 \<le> decimal_value s" "decimal_value s \<le> 2 ^ 53"
  shows "readable_positive s"
proof -
  have "of_int 1 \<le> decimal_value s" "decimal_value s \<le> of_int (2 ^ 53)" using assms(2,3) by simp_all
  from to_number_between [OF this] obtain y where "to_number (decimal_value s) = Finite y" "1 \<le> y" by auto
  with assms(1) show ?thesis by (auto simp: readable_positive_def readable_def js_is_finite_def)
qed

lemmas decimal_text_eval = decimal_ops_eval decimal_eval decimal_value_def parseFixedDecimal_def fixed_value_def

lemma sample_texts_readable:
  "readable_positive ''1000''" "readable_positive ''20''" "readable_positive ''900''" "readable_positive ''7''"
  "readable_positive ''30''" "readable_positive ''5000''" "readable_positive ''6000''" "readable_positive ''1.5''"
  "readable_positive ''1.25''" "decimal_value ''1.5'' = 3 / 2" "decimal_value ''1.25'' = 5 / 4"
  by ((rule readable_positive_small, simp add: decimal_text_eval Let_def, simp add: decimal_text_eval Let_def,
       simp add: decimal_text_eval Let_def)+, simp_all add: decimal_text_eval Let_def)

lemma sample_rows_accepted:
  assumes "readable_positive v"
  shows "row_accepted (sample_market_year c y v)" "provisional_accepted (sample_market_year c y v)"
  using assms by (simp_all add: row_accepted_def provisional_accepted_def sample_market_year_def suppliers_accepted_def
      counts_accepted_def recorded_accepted_def is_safe_integer_def sample_texts_readable Let_def power2_eq_square)

lemma sample_cms_window:
  "window_rows 2018 2022 (ki_marketYears sample_cms_inputs) =
     [sample_market_year ''8'' 2022 ''1000'', sample_market_year ''4'' 2020 ''20'', sample_market_year ''8'' 2021 ''900'']"
  "rel_finalizedCutoffYear (ki_release sample_cms_inputs) = 2022"
  by (simp_all add: sample_cms_inputs_def window_rows_def sample_market_year_def)

lemma sample_cms_accepted: "cms_accepted sample_cms_inputs"
proof -
  have "list_all row_accepted (window_rows 2013 2022 (ki_marketYears sample_cms_inputs))"
    by (simp add: sample_cms_inputs_def window_rows_def sample_rows_accepted sample_texts_readable)
  moreover have "totals_accepted (ki_productYearTotals sample_cms_inputs)"
    by (simp add: sample_cms_inputs_def totals_accepted_def sample_texts_readable)
  moreover have "provisional_row sample_cms_inputs ''8'' = None"
    "provisional_row sample_cms_inputs ''4'' = Some (sample_market_year ''4'' 2023 ''30'')"
    by (simp_all add: provisional_row_def sample_cms_inputs_def code_of_row_def sample_market_year_def)
  moreover have "code_of_row (sample_market_year c y v) = c" for c y v by (simp add: code_of_row_def sample_market_year_def)
  moreover have "art_baciRelease (ki_artifact sample_cms_inputs) = rel_baciRelease (ki_release sample_cms_inputs)"
    by (simp add: sample_cms_inputs_def)
  ultimately show ?thesis
    by (simp add: cms_accepted_def Let_def sample_cms_window sample_rows_accepted sample_texts_readable)
qed

lemma sample_cms_run:
  obtains r where "computeCmsV1 sample_math sample_cms_inputs None = Inr r"
  using cms_accepted_iff [of sample_math sample_cms_inputs None] sample_cms_accepted by (auto simp: returns_def)

theorem cms_cohort_complete_witness:
  "\<exists>r. computeCmsV1 sample_math sample_cms_inputs None = Inr r \<and>
     (\<lambda>c. ec_code (cm_economy c)) ` set (kr_candidates r) = {''4'', ''8''} \<and> kr_cohortSize r = length (kr_candidates r)"
proof -
  obtain r where r: "computeCmsV1 sample_math sample_cms_inputs None = Inr r" by (rule sample_cms_run)
  have "code_of_row ` set (window_rows 2018 2022 (ki_marketYears sample_cms_inputs)) = {''4'', ''8''}"
    unfolding sample_cms_window by (auto simp: code_of_row_def sample_market_year_def)
  then show ?thesis using cms_cohort_complete [OF r refl refl] r by (auto simp: sample_cms_window)
qed

theorem cms_ranking_witness:
  "\<exists>r. computeCmsV1 sample_math sample_cms_inputs None = Inr r \<and>
     sorted (map (\<lambda>c. - score_value (cm_score c)) (kr_candidates r))"
proof -
  obtain r where r: "computeCmsV1 sample_math sample_cms_inputs None = Inr r" by (rule sample_cms_run)
  have "length (ki_marketYears sample_cms_inputs) < 2 ^ 32" by (simp add: sample_cms_inputs_def)
  with cms_ranking [OF r] r show ?thesis by blast
qed

lemma sample_has_candidate:
  assumes "computeCmsV1 sample_math sample_cms_inputs None = Inr r"
  obtains c where "c \<in> set (kr_candidates r)"
proof -
  obtain raw where raw: "emap (\<lambda>g. computeRawCandidate sample_math (snd g))
      (group_rows (window_rows 2018 2022 (ki_marketYears sample_cms_inputs))) = Inr raw" "published_from sample_cms_inputs raw r"
    using computeCms_facts [OF assms refl] by (auto simp: sample_cms_window)
  have "(\<lambda>c. ec_code (rw_economy c)) ` set (score_candidates raw) \<noteq> {}"
    using scored_codes(2) [OF raw(1)] by (simp add: sample_cms_window)
  then have "length (kr_candidates r) \<noteq> 0" using published_scores(2) [OF raw(2)] by (metis image_empty length_0_conv list.set(1) score_candidates_length)
  then show thesis using that by (metis length_0_conv list.set_intros(1) neq_Nil_conv)
qed

theorem cms_scores_bounded_witness:
  "\<exists>r c. computeCmsV1 sample_math sample_cms_inputs None = Inr r \<and> c \<in> set (kr_candidates r) \<and> whole_percentage (cm_score c)"
proof -
  obtain r where r: "computeCmsV1 sample_math sample_cms_inputs None = Inr r" by (rule sample_cms_run)
  obtain c where c: "c \<in> set (kr_candidates r)" by (rule sample_has_candidate [OF r])
  have "length (ki_marketYears sample_cms_inputs) < 2 ^ 32" by (simp add: sample_cms_inputs_def)
  with cms_scores_bounded [OF r _ c] r c show ?thesis by blast
qed

end
