(* ===== verification/Candidate_Percentiles.thy ===== *)
theory Candidate_Percentiles
  imports Candidate_Evidence
begin

text \<open>
  The percentiles of a window are mid-ranks, and the diversity of the suppliers of a year lies between 0 and 1.
\<close>

subsection \<open>Mid-ranks\<close>

definition values_below :: "(nat \<times> js_number) list \<Rightarrow> js_number \<Rightarrow> nat" where
  "values_below xs v = length (filter (\<lambda>y. js_less (snd y) v) xs)"

definition values_equal :: "(nat \<times> js_number) list \<Rightarrow> js_number \<Rightarrow> nat" where
  "values_equal xs v = length (filter (\<lambda>y. snd y = v) xs)"

text \<open>Finite values that are equal or more than the tolerance apart.\<close>

definition separated :: "(nat \<times> js_number) list \<Rightarrow> bool" where
  "separated xs \<longleftrightarrow> (\<forall>y \<in> set xs. \<exists>r. snd y = Finite r) \<and>
     (\<forall>y \<in> set xs. \<forall>z \<in> set xs. nearlyEqual (snd y) (snd z) \<longrightarrow> snd y = snd z)"

lemma nearlyEqual_refl: "nearlyEqual (Finite x) (Finite x)"
proof -
  have "to_number 0 = Finite 0" using to_number_int [of 0] by simp
  moreover obtain y where "to_number (1 / 10 ^ 12) = Finite y" "0 \<le> y"
    using to_number_between [of 0 "1 / 10 ^ 12" 1] by auto
  ultimately show ?thesis by (simp add: nearlyEqual_def)
qed

lemma percentile_loop_midrank:
  assumes "separated xs" "sorted (map (\<lambda>y. score_value (snd y)) xs)" "(i, p) \<in> set (percentile_loop index n xs)"
  shows "\<exists>v. (i, v) \<in> set xs \<and>
    p = group_percentile (index + values_below xs v) (index + values_below xs v + values_equal xs v) n"
  using assms
proof (induction index n xs rule: percentile_loop.induct)
  case (2 index n x xs)
  define tied where "tied = takeWhile (\<lambda>y. nearlyEqual (snd y) (snd x)) xs"
  define rest where "rest = drop (length tied) xs"
  have xs: "xs = tied @ rest" unfolding rest_def tied_def by (metis append_eq_conv_conj takeWhile_dropWhile_id)
  obtain s where s: "snd x = Finite s" using 2(2) by (auto simp: separated_def)
  have t: "snd y = Finite s" if "y \<in> set (x # tied)" for y
  proof (cases "y = x")
    case False
    then have "nearlyEqual (snd y) (snd x)" "y \<in> set xs" using that by (auto simp: tied_def dest: set_takeWhileD)
    then show ?thesis using 2(2) s by (auto simp: separated_def)
  qed (simp add: s)
  have above: "\<exists>r. snd y = Finite r \<and> s < r" if y: "y \<in> set rest" for y
  proof -
    obtain z zs where rest: "rest = z # zs" using y by (cases rest) auto
    then have "dropWhile (\<lambda>y. nearlyEqual (snd y) (snd x)) xs = z # zs"
      unfolding rest_def tied_def by (metis dropWhile_eq_drop)
    then have "\<not> nearlyEqual (snd z) (snd x)" by (metis hd_dropWhile list.distinct(1) list.sel(1))
    moreover obtain q where q: "snd z = Finite q" using 2(2) xs rest by (auto simp: separated_def)
    ultimately have "q \<noteq> s" using s nearlyEqual_refl by auto
    moreover have "s \<le> q" using 2(3) xs rest q s by simp
    moreover have "y \<in> set (x # xs)" using xs y by simp
    then obtain r where r: "snd y = Finite r" using 2(2) unfolding separated_def by blast
    moreover have "q \<le> r" using 2(3) xs rest q r y by (auto simp: sorted_append)
    ultimately have "s < r" by linarith
    with r show ?thesis by blast
  qed
  have split: "values_below (x # xs) v = values_below (x # tied) v + values_below rest v"
    "values_equal (x # xs) v = values_equal (x # tied) v + values_equal rest v" for v
    by (simp_all add: values_below_def values_equal_def xs)
  have "(i, p) \<in> set (map (\<lambda>y. (fst y, group_percentile index (index + 1 + length tied) n)) (x # tied))
      \<or> (i, p) \<in> set (percentile_loop (index + 1 + length tied) n rest)"
    using 2(4) by (auto simp: Let_def rest_def tied_def)
  then show ?case
  proof
    assume "(i, p) \<in> set (map (\<lambda>y. (fst y, group_percentile index (index + 1 + length tied) n)) (x # tied))"
    then obtain y where "y \<in> set (x # tied)" "(i, p) = (fst y, group_percentile index (index + 1 + length tied) n)"
      unfolding set_map by blast
    then have y: "y \<in> set (x # tied)" "i = fst y" "p = group_percentile index (index + 1 + length tied) n" by simp_all
    have "values_below (x # tied) (Finite s) = 0" "values_equal (x # tied) (Finite s) = 1 + length tied"
      using t by (simp_all add: values_below_def values_equal_def)
    moreover have "values_below rest (Finite s) = 0" "values_equal rest (Finite s) = 0"
      using above by (fastforce simp: values_below_def values_equal_def filter_empty_conv)+
    moreover have "(i, Finite s) = y" using y(2) t [OF y(1)] by (cases y) simp
    then have "(i, Finite s) \<in> set (x # xs)" using y(1) xs by auto
    ultimately show ?thesis using y(3) split by (intro exI [of _ "Finite s"]) simp
  next
    assume r: "(i, p) \<in> set (percentile_loop (index + 1 + length tied) n rest)"
    have "separated rest" "sorted (map (\<lambda>y. score_value (snd y)) rest)"
      using 2(2,3) xs by (auto simp: separated_def sorted_append)
    then obtain v where v: "(i, v) \<in> set rest" "p = group_percentile (index + 1 + length tied + values_below rest v)
        (index + 1 + length tied + values_below rest v + values_equal rest v) n"
      using 2(1) [OF tied_def refl refl] r by (auto simp: rest_def)
    obtain q where q: "v = Finite q" "s < q" using above [OF v(1)] by auto
    have "values_below (x # tied) v = 1 + length tied" "values_equal (x # tied) v = 0"
      using t q by (simp_all add: values_below_def values_equal_def filter_empty_conv)
    then show ?thesis using v xs split [of v] by (intro exI [of _ v]) (simp add: ac_simps)
  qed
qed simp

text \<open>How many candidates have a value of a kind.\<close>

definition having :: "(js_number \<Rightarrow> bool) \<Rightarrow> (raw_candidate \<Rightarrow> js_number option) \<Rightarrow> raw_candidate list \<Rightarrow> nat" where
  "having P rawKey cs = length (filter (\<lambda>c. case rawKey c of None \<Rightarrow> False | Some v \<Rightarrow> P v) cs)"

lemma having_enumerate:
  "length (filter (\<lambda>y. P (snd y)) (List.map_filter (\<lambda>(i, c). map_option (Pair i) (f c)) (enumerate k cs))) = having P f cs"
  by (induction cs arbitrary: k) (auto simp: having_def List.map_filter_simps split: option.split)

lemma having_computed: "length (filter (\<lambda>y. P (snd y)) (computed_values f cs)) = having P f cs"
proof -
  have "mset (filter (\<lambda>y. P (snd y)) (computed_values f cs)) =
      mset (filter (\<lambda>y. P (snd y)) (List.map_filter (\<lambda>(i, c). map_option (Pair i) (f c)) (enumerate 0 cs)))"
    by (simp add: computed_values_def)
  then show ?thesis using having_enumerate by (metis size_mset)
qed

lemma having_all: "length (computed_values f cs) = having (\<lambda>v. True) f cs"
  using having_computed [of "\<lambda>v. True" f cs] by simp

lemma computed_values_sorted:
  assumes "\<And>c v. c \<in> set cs \<Longrightarrow> f c = Some v \<Longrightarrow> is_double v \<and> js_is_finite v"
  shows "sorted (map (\<lambda>y. score_value (snd y)) (computed_values f cs))"
  unfolding computed_values_def
proof (rule js_sort_sorted)
  let ?pool = "List.map_filter (\<lambda>(i, c). map_option (Pair i) (f c)) (enumerate 0 cs)"
  have finite_double: "\<exists>r. snd y = Finite r \<and> is_double (Finite r)" if "y \<in> set ?pool" for y
  proof -
    have "(fst y, snd y) \<in> set (computed_values f cs)" using that by (simp add: computed_values_def)
    then have "fst y < length cs" "f (cs ! fst y) = Some (snd y)" unfolding computed_values_mem by simp_all
    then have "is_double (snd y)" "js_is_finite (snd y)" using assms by (metis nth_mem)+
    then show ?thesis by (auto simp: js_is_finite_def split: js_number.splits)
  qed
  fix x y assume "x \<in> set ?pool" "y \<in> set ?pool"
  then obtain r q where d: "snd x = Finite r" "is_double (Finite r)" "snd y = Finite q" "is_double (Finite q)"
    using finite_double by metis
  note sign = js_minus_sign [OF d(2,4)]
  show "if js_less (Finite 0) (compare_values cs x y) then score_value (snd y) \<le> score_value (snd x)
      else score_value (snd x) \<le> score_value (snd y)"
  proof (cases "r = q")
    case False
    then have "compare_values cs x y = js_minus (Finite r) (Finite q)"
      using sign by (simp add: compare_values_def js_or_def d)
    then show ?thesis using sign(1) False d by auto
  qed (simp add: d)
qed

text \<open>The mid-rank of a value as a percentage: the values below it and half of those equal to it, itself included,
  of all values; without a value the neutral 50.\<close>

definition midrank :: "(raw_candidate \<Rightarrow> js_number option) \<Rightarrow> raw_candidate list \<Rightarrow> js_number option \<Rightarrow> js_number" where
  "midrank rawKey cs value =
     (case value of
        None \<Rightarrow> Finite 50
      | Some v \<Rightarrow> to_number (100 * (of_nat (having (\<lambda>w. js_less w v) rawKey cs) + of_nat (having (\<lambda>w. w = v) rawKey cs) / 2) /
          of_nat (having (\<lambda>w. True) rawKey cs)))"

text \<open>C39: a percentile pass gives every candidate the mid-rank of its value among the values of the window, correctly
  rounded, or 50 when it has none, and changes nothing else of the candidates. The hypotheses: the pass does not feed
  back into the values, the values are finite doubles, and two different values are more than the tolerance of
  \<^theory_text>\<open>nearlyEqual\<close> apart.\<close>

theorem percentiles_are_mid_ranks:
  assumes "length cs < 2 ^ 32" "i < length cs"
    and frame: "\<And>c p. rawKey (c\<lparr>rw_percentiles := p\<rparr>) = rawKey c"
    and doubles: "\<And>c v. c \<in> set cs \<Longrightarrow> rawKey c = Some v \<Longrightarrow> is_double v \<and> js_is_finite v"
    and apart: "\<And>c d v w. c \<in> set cs \<Longrightarrow> d \<in> set cs \<Longrightarrow> rawKey c = Some v \<Longrightarrow> rawKey d = Some w \<Longrightarrow> nearlyEqual v w \<Longrightarrow> v = w"
  shows "applyPercentiles rawKey set_percentile cs ! i =
    (cs ! i)\<lparr>rw_percentiles := set_percentile (midrank rawKey cs (rawKey (cs ! i))) (rw_percentiles (cs ! i))\<rparr>"
proof (cases "rawKey (cs ! i)")
  case None
  then show ?thesis using applyPercentiles_nth(1) [OF assms(2) frame None] by (simp add: midrank_def)
next
  case (Some v)
  let ?xs = "computed_values rawKey cs"
  obtain p where p: "(i, p) \<in> set (percentile_loop 0 (length ?xs) ?xs)"
    "applyPercentiles rawKey set_percentile cs ! i = (cs ! i)\<lparr>rw_percentiles := set_percentile p (rw_percentiles (cs ! i))\<rparr>"
    using applyPercentiles_nth(2) [OF assms(2) frame Some] by blast
  have mem: "\<exists>c \<in> set cs. rawKey c = Some (snd y)" if "y \<in> set ?xs" for y
    using that computed_values_mem [of "fst y" "snd y" rawKey cs] nth_mem by fastforce
  have "separated ?xs" unfolding separated_def
  proof (intro conjI ballI impI)
    fix y assume "y \<in> set ?xs"
    then obtain c where "c \<in> set cs" "rawKey c = Some (snd y)" using mem by blast
    then have "js_is_finite (snd y)" using doubles by blast
    then show "\<exists>r. snd y = Finite r" by (auto simp: js_is_finite_def split: js_number.splits)
    fix z assume "z \<in> set ?xs" "nearlyEqual (snd y) (snd z)"
    with \<open>y \<in> set ?xs\<close> show "snd y = snd z" using mem apart by metis
  qed
  moreover have "sorted (map (\<lambda>y. score_value (snd y)) ?xs)" using doubles by (rule computed_values_sorted)
  ultimately obtain w where w: "(i, w) \<in> set ?xs"
    "p = group_percentile (values_below ?xs w) (values_below ?xs w + values_equal ?xs w) (length ?xs)"
    using percentile_loop_midrank [OF _ _ p(1)] by auto
  have wv: "w = v" using w(1) Some by (simp add: computed_values_mem)
  have count: "values_below ?xs v = having (\<lambda>u. js_less u v) rawKey cs" "values_equal ?xs v = having (\<lambda>u. u = v) rawKey cs"
    unfolding values_below_def values_equal_def by (rule having_computed)+
  have "0 < values_equal ?xs v" using w(1) wv by (force simp: values_equal_def filter_empty_conv)
  moreover have "values_below ?xs v + values_equal ?xs v \<le> length ?xs"
  proof -
    have "values_below xs v + values_equal xs v \<le> length xs" for xs
      by (induction xs) (auto simp: values_below_def values_equal_def, (cases v; auto)+)
    then show ?thesis .
  qed
  moreover have "length ?xs \<le> 2 ^ 38" using computed_values_length [of rawKey cs] assms(1) by simp
  ultimately have "p = to_number (50 * of_nat (values_below ?xs v + (values_below ?xs v + values_equal ?xs v)) / of_nat (length ?xs))"
    unfolding w(2) wv by (intro group_percentile_value) simp_all
  moreover have "(50 * of_nat (values_below ?xs v + (values_below ?xs v + values_equal ?xs v)) :: rat) =
      100 * (of_nat (values_below ?xs v) + of_nat (values_equal ?xs v) / 2)" by simp
  ultimately show ?thesis using p(2) by (simp only: midrank_def Some option.case count having_all)
qed

subsection \<open>The diversity of suppliers\<close>

lemma js_divide_unit:
  assumes "0 \<le> a" "a \<le> b" "0 < b"
  obtains y where "js_divide (Finite a) (Finite b) = Finite y" "0 \<le> y" "y \<le> 1"
proof -
  have "of_int 0 \<le> a / b" "a / b \<le> of_int 1" using assms by simp_all
  from to_number_between [OF this] obtain y where "to_number (a / b) = Finite y" "0 \<le> y" "y \<le> 1" by auto
  with assms that show thesis by simp
qed

lemma one_minus_unit:
  assumes "0 \<le> x" "x \<le> 1"
  obtains y where "js_minus (Finite 1) (Finite x) = Finite y" "0 \<le> y" "y \<le> 1"
proof -
  have "of_int 0 \<le> 1 - x" "1 - x \<le> of_int 1" using assms by simp_all
  from to_number_between [OF this] obtain y where "to_number (1 - x) = Finite y" "0 \<le> y" "y \<le> 1" by auto
  with that show thesis by simp
qed

lemma to_number_mono:
  assumes "x \<le> y" "to_number x = Finite a" "to_number y = Finite b" "0 \<le> x"
  shows "a \<le> b"
  using assms nearest_double_mono [OF assms(1)] by (auto simp: to_number_def Let_def split: if_splits)

lemma clamp_unit:
  assumes "0 \<le> m" "m \<le> 1" "r \<noteq> NaN"
  obtains x where "clamp r (Finite m) (Finite 1) = Finite x" "m \<le> x" "x \<le> 1"
proof (cases r)
  case (Finite q)
  have "clamp r (Finite m) (Finite 1) = Finite (min 1 (max m q))"
    using Finite by (auto simp: clamp_def js_min_def js_max_def min_def max_def)
  with assms that show thesis by simp
next
  case (Infinite s)
  have "clamp r (Finite m) (Finite 1) = Finite (if s then m else 1)"
    using Infinite assms(1,2) by (auto simp: clamp_def js_min_def js_max_def)
  with assms that show thesis by (simp split: if_splits)
qed (use assms in simp)

text \<open>Two suppliers or more: the reciprocal of their number is at most a half, so the normalisation divides by a
  number that is not zero.\<close>

lemma reciprocal_of_count:
  assumes "is_safe_integer n" "1 < n"
  obtains m d where "js_divide (Finite 1) (js_int n) = Finite m" "0 \<le> m" "m \<le> 1 / 2"
    "js_minus (Finite 1) (Finite m) = Finite d" "0 < d"
proof -
  have n: "js_int n = Finite (of_int n)" using to_number_int [of n] assms by (simp add: js_int_def is_safe_integer_def)
  have half: "nearest_double (1 / 2) = 1 / 2"
    using nearest_double_in [of "- 1" "1 / 2" "2 ^ 52"] by (simp add: pow2_def)
  have "(1::rat) / of_int n \<le> 1 / 2"
  proof -
    have "(2::rat) \<le> of_int n" using assms(2) by simp
    then show ?thesis by (simp add: divide_le_eq)
  qed
  moreover have "(0::rat) \<le> 1 / of_int n" using assms(2) by simp
  moreover have "(1 / 2 :: rat) < pow2 1024"
  proof -
    have "(1 / 2 :: rat) < pow2 0" by (simp add: pow2_def)
    also have "\<dots> < pow2 1024" by (simp add: pow2_less_iff)
    finally show ?thesis .
  qed
  ultimately obtain m where m: "to_number (1 / of_int n) = Finite m" "0 \<le> m" "m \<le> 1 / 2"
    using to_number_le_double [OF _ _ half] by metis
  obtain d where d: "js_minus (Finite 1) (Finite m) = Finite d" "0 \<le> d" "d \<le> 1"
    using one_minus_unit [of m] m by auto
  have "to_number (1 / 2) = Finite (1 / 2)" using half \<open>(1 / 2 :: rat) < pow2 1024\<close> by (simp add: to_number_def not_le)
  then have "1 / 2 \<le> d" using to_number_mono [of "1 / 2" "1 - m" "1 / 2" d] m d(1) by simp
  then show thesis using that [of m d] m d n assms(2) by simp
qed

text \<open>The diversity of a year is computed exactly for the accepted aggregates, and is then nothing when there are no
  alternative suppliers, 0 for a single one, and otherwise a number between 0 and 1, whatever over- or underflow the
  squares and quotients run into.\<close>

theorem annual_diversity_unit:
  "(case calculateAnnualDiversity s of
      Inl e \<Rightarrow> \<not> suppliers_accepted s
    | Inr None \<Rightarrow> suppliers_accepted s \<and> as_count s = 0
    | Inr (Some d) \<Rightarrow> suppliers_accepted s \<and> 1 \<le> as_count s \<and>
        (if as_count s = 1 then d = Finite 0 else \<exists>x. d = Finite x \<and> 0 \<le> x \<and> x \<le> 1))"
proof (cases "calculateAnnualDiversity s")
  case (Inl e)
  then show ?thesis using calculateAnnualDiversity_returns [of s] by (simp add: returns_def)
next
  case (Inr r)
  then have acc: "suppliers_accepted s" using calculateAnnualDiversity_returns [of s] by (simp add: returns_def)
  then have c: "is_safe_integer (as_count s)" "0 \<le> as_count s" by (simp_all add: suppliers_accepted_def)
  consider "as_count s = 0" | "as_count s = 1" | "1 < as_count s" using c(2) by linarith
  then show ?thesis
  proof cases
    case 1
    with Inr c have "r = None" by (auto simp: calculateAnnualDiversity_def ebind_Inr_iff split: if_splits)
    with Inr acc 1 show ?thesis by simp
  next
    case 2
    with Inr c have "r = Some (Finite 0)" by (auto simp: calculateAnnualDiversity_def ebind_Inr_iff Let_def split: if_splits)
    with Inr acc 2 show ?thesis by simp
  next
    case 3
    obtain m d where md: "js_divide (Finite 1) (js_int (as_count s)) = Finite m" "0 \<le> m" "m \<le> 1 / 2"
      "js_minus (Finite 1) (Finite m) = Finite d" "0 < d" using reciprocal_of_count [OF c(1) 3] .
    have pos: "readable_positive (as_valueKusd s)" "readable_positive (as_valueSquareSumKusdSquared s)"
      using acc 3 by (auto simp: suppliers_accepted_def Let_def)
    obtain v where v: "to_number (decimal_value (as_valueKusd s)) = Finite v" "0 < v" using readable_positive_number [OF pos(1)] .
    obtain q where q: "to_number (decimal_value (as_valueSquareSumKusdSquared s)) = Finite q" "0 < q"
      using readable_positive_number [OF pos(2)] .
    define hhi where "hhi = js_divide (Finite q) (js_times (Finite v) (Finite v))"
    have "hhi \<noteq> NaN" using q(2) v(2) by (auto simp: hhi_def to_number_def Let_def)
    then obtain x where x: "clamp hhi (Finite m) (Finite 1) = Finite x" "m \<le> x" "x \<le> 1"
      using clamp_unit [of m hhi] md(2,3) by auto
    obtain y where y: "js_minus (Finite x) (Finite m) = Finite y" "0 \<le> y" "y \<le> d"
    proof -
      have "of_int 0 \<le> x - m" "x - m \<le> of_int 1" using x md(2) by simp_all
      from to_number_between [OF this] obtain y where y: "to_number (x - m) = Finite y" "0 \<le> y" by auto
      moreover have "y \<le> d" using to_number_mono [of "x - m" "1 - m" y d] x y(1) md(4) by simp
      ultimately show thesis using that by simp
    qed
    obtain z where z: "js_divide (Finite y) (Finite d) = Finite z" "0 \<le> z" "z \<le> 1" using js_divide_unit [OF y(2,3) md(5)] .
    obtain w where w: "js_minus (Finite 1) (Finite z) = Finite w" "0 \<le> w" "w \<le> 1" using one_minus_unit [OF z(2,3)] .
    have "r = Some (Finite w)"
      using Inr 3 c unfolding calculateAnnualDiversity_def
      by (auto simp: ebind_Inr_iff parsePositiveDecimal_Inr_iff Let_def v(1) q(1) md(1) hhi_def [symmetric] x(1) y(1) md(4) z(1) w(1)
          simp del: js_divide.simps js_times.simps js_minus.simps split: if_splits)
    with Inr acc 3 w show ?thesis by simp
  qed
qed

definition sample_candidate :: "js_number option \<Rightarrow> raw_candidate" where
  "sample_candidate growth =
     \<lparr>rw_economy = \<lparr>ec_code = ''8'', ec_name = ''Economy'', ec_iso3 = None, ec_note = None\<rparr>, rw_rows = [],
      rw_observedYears = [], rw_sizeKusd = Finite 1, rw_growth = growth, rw_growthReasonCodes = [],
      rw_foothold = Finite 0, rw_bilateralFlowState = FLOW_NO_RECORDED_POSITIVE, rw_diversity = None,
      rw_diversityYears = [], rw_quantityCoverage = None,
      rw_percentiles = \<lparr>pc_size = Finite 0, pc_growth = Finite 0, pc_foothold = Finite 0, pc_diversity = Finite 0\<rparr>,
      rw_score = Finite 0, rw_rank = 0, rw_rankTieSize = 0, rw_rankPercentile = Finite 0\<rparr>"

lemma js_number_integers:
  "\<bar>n\<bar> \<le> 2 ^ 53 \<Longrightarrow> is_double (Finite (of_int n))"
  using is_double_to_number [of "of_int n"] to_number_int [of n] by simp

text \<open>Four candidates, of which one has no growth and two have the same: the percentiles of the others are
  one and two thirds.\<close>

theorem percentiles_are_mid_ranks_witness:
  "let cs = [sample_candidate (Some (Finite 3)), sample_candidate None, sample_candidate (Some (Finite 1)),
             sample_candidate (Some (Finite 3))];
       ds = applyPercentiles rw_growth (\<lambda>p v. v\<lparr>pc_growth := p\<rparr>) cs
   in pc_growth (rw_percentiles (ds ! 0)) = to_number (200 / 3) \<and> pc_growth (rw_percentiles (ds ! 1)) = Finite 50 \<and>
      pc_growth (rw_percentiles (ds ! 2)) = to_number (50 / 3)"
proof -
  define cs where "cs = [sample_candidate (Some (Finite 3)), sample_candidate None, sample_candidate (Some (Finite 1)),
             sample_candidate (Some (Finite 3))]"
  have growth: "rw_growth (sample_candidate g) = g" for g by (simp add: sample_candidate_def)
  have tiny: "\<exists>y. to_number (1 / 10 ^ 12) = Finite y \<and> y \<le> 1"
  proof -
    have "of_int 0 \<le> (1 / 10 ^ 12 :: rat)" "(1 / 10 ^ 12 :: rat) \<le> of_int 1" by simp_all
    from to_number_between [OF this] show ?thesis by auto
  qed
  have two: "to_number 2 = Finite 2" "to_number (- 2) = Finite (- 2)"
    using to_number_int [of 2] to_number_int [of "- 2"] by simp_all
  have apart: "\<not> nearlyEqual (Finite 1) (Finite 3)" "\<not> nearlyEqual (Finite 3) (Finite 1)"
    using tiny two by (auto simp: nearlyEqual_def)
  have doubles: "is_double (Finite 1)" "is_double (Finite 3)"
    using js_number_integers [of 1] js_number_integers [of 3] by simp_all
  have pass: "applyPercentiles rw_growth (\<lambda>p v. v\<lparr>pc_growth := p\<rparr>) cs ! i =
      (cs ! i)\<lparr>rw_percentiles := (rw_percentiles (cs ! i))\<lparr>pc_growth := midrank rw_growth cs (rw_growth (cs ! i))\<rparr>\<rparr>"
    if "i < length cs" for i
    using that apart doubles
    by (intro percentiles_are_mid_ranks) (auto simp: cs_def growth js_is_finite_def)
  have rank: "midrank rw_growth cs (Some (Finite 3)) = to_number (200 / 3)" "midrank rw_growth cs None = Finite 50"
    "midrank rw_growth cs (Some (Finite 1)) = to_number (50 / 3)"
    by (simp_all add: midrank_def having_def cs_def growth)
  show ?thesis using pass [of 0] pass [of 1] pass [of 2] rank unfolding cs_def [symmetric] Let_def
    by (simp add: cs_def growth nth_Cons')
qed

end
