(* ===== verification/Opportunity_Discovery.thy ===== *)
theory Opportunity_Discovery
  imports Candidate_Market
begin

text \<open>
  \<^verbatim>\<open>src/domain/opportunity-discovery/opportunity-discovery-v1.ts\<close>: the cohort of market investigation candidates of an
  exporter, normalised across all products. The numeric helpers that the file repeats from \<^verbatim>\<open>cms-v1.ts\<close> are those
  of \<^theory_text>\<open>Candidate_Market\<close>. A \<^verbatim>\<open>Map\<close> that the code only reads by key is a map. \<^verbatim>\<open>localeCompare\<close>, the
  collation of the host, is the parameter \<^theory_text>\<open>collate\<close>. The copy text of a type, which is a constant of the type and not
  Latin-1, is left out of the candidate.
\<close>

subsection \<open>Evidence and results\<close>

record opportunity_market_year =
  oy_year :: int
  oy_worldValueKusd :: string
  oy_bilateralValueKusd :: "string option"

record opportunity_market =
  om_product :: product_identity
  om_market :: economy_identity
  om_marketYears :: "opportunity_market_year list"

record opportunity_product =
  op_product :: product_identity
  op_worldYearTotals :: "(int \<times> string) list"
  op_exporterExportTotals :: "(int \<times> string) list"

record release_comparison =
  oc_finalizedCutoffYear :: int
  oc_products :: "opportunity_product list"
  oc_markets :: "opportunity_market list"

record cohort_inputs =
  oi_analysisBuildId :: string
  oi_artifact :: artifact_ref
  oi_release :: release_ref
  oi_exporter :: economy_identity
  oi_products :: "opportunity_product list"
  oi_markets :: "opportunity_market list"
  oi_previousRelease :: "release_comparison option"

datatype opportunity_type = UNVALIDATED_MARKET_GAP | EXPANSION_EVIDENCE | GENERAL_INVESTIGATION_EVIDENCE

datatype neutral_reason = TOO_FEW_OBSERVED_YEARS | SMALL_MARKET_BASE

datatype opportunity_deduction_code =
  MISSING_FINALIZED_MARKET_YEARS | MISSING_CUTOFF_YEAR_MARKET_EVIDENCE | NEUTRAL_MARKET_GROWTH
  | DEDUCT_NO_EXPORTER_PRODUCT_HISTORY | DEDUCT_SERIES_DISCONTINUITY | DEDUCT_LOW_ALTERNATE_WINDOW_STABILITY
  | DEDUCT_MATERIAL_RELEASE_REVISION | DEDUCT_IDENTITY_PROXY

datatype evidence_flag =
  FLAG_NO_RECORDED_BILATERAL_FLOW | FLAG_NO_RECORDED_PRODUCT_EXPORT | FLAG_EXTREME_NOMINAL_GROWTH | FLAG_IDENTITY_PROXY

datatype evidence_tag = TAG_NO_RECORDED_PRODUCT_EXPORT | TAG_NO_RECORDED_POSITIVE_FLOW

record opportunity_component =
  on_state :: component_state
  on_rawValue :: "string option"
  on_percentileUnrounded :: string
  on_percentileBasisPoints :: js_number
  on_percentileDisplay :: js_number
  on_neutralReasonCodes :: "neutral_reason list option"
  on_evidenceTag :: "evidence_tag option"

record opportunity_axis =
  ax_rawUnrounded :: string
  ax_display :: js_number

record opportunity_confidence =
  of_score :: int
  of_label :: confidence_label
  of_deductions :: "(opportunity_deduction_code \<times> int) list"
  of_sparseEvidenceCapApplied :: bool

datatype alternate_state = ALTERNATE_NOT_FLAGGED | LOW_ALTERNATE_WINDOW_STABILITY | COHORT_ENTRY | COHORT_EXIT

record alternate_stability =
  al_window :: "int \<times> int"
  al_state :: alternate_state
  al_priorityDelta :: "string option"

datatype release_state = RELEASE_NOT_COMPARED | RELEASE_NOT_FLAGGED | MATERIAL_RELEASE_REVISION

datatype cohort_transition = TRANSITION_COMMON | TRANSITION_COHORT_ENTRY | TRANSITION_COHORT_EXIT

record opportunity_revision =
  or_state :: release_state
  or_priorityDelta :: "string option"
  or_rankPercentileDelta :: "string option"
  or_cohortTransition :: "cohort_transition option"

record investigation_candidate =
  ic_product :: product_identity
  ic_market :: economy_identity
  ic_investigationPriority :: opportunity_axis
  ic_marketAttractiveness :: opportunity_axis
  ic_exporterFit :: opportunity_axis
  ic_marketSize :: opportunity_component
  ic_marketGrowth :: opportunity_component
  ic_exporterProductPresence :: opportunity_component
  ic_recordedFoothold :: opportunity_component
  ic_opportunityType :: opportunity_type
  ic_bilateralFlowState :: flow_state
  ic_bilateralWording :: "string option"
  ic_observedMarketYears :: "int list"
  ic_missingMarketYears :: "int list"
  ic_confidence :: opportunity_confidence
  ic_threeYear :: alternate_stability
  ic_tenYear :: alternate_stability
  ic_releaseRevision :: opportunity_revision
  ic_evidenceFlags :: "evidence_flag list"
  ic_competitionRank :: nat
  ic_competitionRankTieSize :: nat
  ic_drillDownExporterCode :: string

record opportunity_cohort =
  co_analysisBuildId :: string
  co_exporter :: economy_identity
  co_provenance :: provenance
  co_candidates :: "investigation_candidate list"

subsection \<open>Rows\<close>

record product_aggregate =
  pa_product :: product_identity
  pa_worldTotalByYear :: "int \<rightharpoonup> js_number"
  pa_exporterTotalByYear :: "int \<rightharpoonup> js_number"
  pa_discontinuityYears :: "int list"

record row_evidence =
  re_rowKey :: string
  re_product :: product_identity
  re_market :: economy_identity
  re_yearValues :: "int \<rightharpoonup> js_number \<times> js_number option"

record window_base =
  wr_rowKey :: string
  wr_product :: product_identity
  wr_market :: economy_identity
  wr_observedYears :: "int list"
  wr_sizeKusd :: js_number
  wr_growth :: "js_number option"
  wr_growthReasons :: "neutral_reason list"
  wr_presence :: js_number
  wr_presenceNoExport :: bool
  wr_foothold :: js_number
  wr_bilateralFlowState :: flow_state
  wr_discontinuityYears :: "int list"

record window_row = window_base +
  wr_sizePct :: js_number
  wr_growthPct :: js_number
  wr_presencePct :: js_number
  wr_footholdPct :: js_number
  wr_attractivenessRaw :: js_number
  wr_fitRaw :: js_number
  wr_priorityRaw :: js_number

record ranked_row = window_row +
  kd_priorityDisplay :: js_number
  kd_attractivenessDisplay :: js_number
  kd_fitDisplay :: js_number
  kd_competitionRank :: nat
  kd_competitionRankTieSize :: nat
  kd_rankPercentile :: js_number

definition SIZE_WEIGHT :: js_number where "SIZE_WEIGHT = to_number (65 / 100)"
definition GROWTH_WEIGHT :: js_number where "GROWTH_WEIGHT = to_number (35 / 100)"
definition PRESENCE_WEIGHT :: js_number where "PRESENCE_WEIGHT = to_number (6 / 10)"
definition FOOTHOLD_WEIGHT :: js_number where "FOOTHOLD_WEIGHT = to_number (4 / 10)"
definition ATTRACTIVENESS_WEIGHT :: js_number where "ATTRACTIVENESS_WEIGHT = to_number (55 / 100)"
definition FIT_WEIGHT :: js_number where "FIT_WEIGHT = to_number (45 / 100)"

definition NO_RECORDED_BILATERAL_FLOW_WORDING :: string where
  "NO_RECORDED_BILATERAL_FLOW_WORDING = ''No recorded bilateral flow from this exporter in the five-year score window''"

definition opportunity_yearly_change ::
  "math_library \<Rightarrow> (int \<times> string) \<times> (int \<times> string) \<Rightarrow> candidate_error + int \<times> js_number" where
  "opportunity_yearly_change M pair =
     (case pair of (previous, entry) \<Rightarrow>
        ebind (parsePositiveDecimal (snd entry) ''worldYearTotals.worldValueKusd'') (\<lambda>currentValue.
        ebind (parsePositiveDecimal (snd previous) ''worldYearTotals.worldValueKusd'') (\<lambda>previousValue.
        Inr (fst entry, math_log M (js_divide currentValue previousValue)))))"

definition opportunity_findDiscontinuityYears ::
  "math_library \<Rightarrow> (int \<times> string) list \<Rightarrow> candidate_error + int list" where
  "opportunity_findDiscontinuityYears M totals =
     (let srt = sort_key fst totals
      in if length srt < 2 then Inr []
         else ebind (emap (opportunity_yearly_change M) (zip srt (tl srt))) (\<lambda>changes.
           let center = median (map snd changes);
               mad = median (map (\<lambda>c. js_abs (js_minus (snd c) center)) changes);
               threshold = js_max (js_times (Finite 4) mad) (math_log M (Finite 3))
           in Inr (map fst (filter (\<lambda>c. js_less threshold (js_abs (js_minus (snd c) center))) changes))))"

definition put_total :: "string \<Rightarrow> int \<times> string \<Rightarrow> (int \<rightharpoonup> js_number) \<Rightarrow> candidate_error + (int \<rightharpoonup> js_number)" where
  "put_total field entry byYear =
     ebind (parsePositiveDecimal (snd entry) field) (\<lambda>v. Inr (byYear(fst entry \<mapsto> v)))"

definition put_product ::
  "math_library \<Rightarrow> opportunity_product \<Rightarrow> (string \<rightharpoonup> product_aggregate) \<Rightarrow> candidate_error + (string \<rightharpoonup> product_aggregate)" where
  "put_product M entry byCode =
     ebind (efold (put_total ''worldYearTotals.worldValueKusd'') (op_worldYearTotals entry) Map.empty) (\<lambda>worldTotalByYear.
     ebind (efold (put_total ''exporterExportTotals.valueKusd'') (op_exporterExportTotals entry) Map.empty) (\<lambda>exporterTotalByYear.
     ebind (opportunity_findDiscontinuityYears M (op_worldYearTotals entry)) (\<lambda>discontinuityYears.
     Inr (byCode(pr_code (op_product entry) \<mapsto>
       \<lparr>pa_product = op_product entry, pa_worldTotalByYear = worldTotalByYear,
        pa_exporterTotalByYear = exporterTotalByYear, pa_discontinuityYears = discontinuityYears\<rparr>)))))"

definition buildProductAggregates ::
  "math_library \<Rightarrow> opportunity_product list \<Rightarrow> candidate_error + (string \<rightharpoonup> product_aggregate)" where
  "buildProductAggregates M products = efold (put_product M) products Map.empty"

definition put_market_year ::
  "opportunity_market_year \<Rightarrow> (int \<rightharpoonup> js_number \<times> js_number option) \<Rightarrow>
   candidate_error + (int \<rightharpoonup> js_number \<times> js_number option)" where
  "put_market_year row yearValues =
     ebind (parsePositiveDecimal (oy_worldValueKusd row) ''worldValueKusd'') (\<lambda>worldKusd.
     ebind (case oy_bilateralValueKusd row of
              None \<Rightarrow> Inr None
            | Some v \<Rightarrow> ebind (parsePositiveDecimal v ''bilateralValueKusd'') (\<lambda>b. Inr (Some b))) (\<lambda>bilateralKusd.
     Inr (yearValues(oy_year row \<mapsto> (worldKusd, bilateralKusd)))))"

definition opportunity_row_key :: "product_identity \<Rightarrow> economy_identity \<Rightarrow> string" where
  "opportunity_row_key product market = pr_code product @ ''|'' @ ec_code market"

definition row_of_market :: "opportunity_market \<Rightarrow> candidate_error + row_evidence" where
  "row_of_market market =
     ebind (efold put_market_year (om_marketYears market) Map.empty) (\<lambda>yearValues.
     Inr \<lparr>re_rowKey = opportunity_row_key (om_product market) (om_market market), re_product = om_product market,
          re_market = om_market market, re_yearValues = yearValues\<rparr>)"

definition buildRows ::
  "opportunity_market list \<Rightarrow> economy_identity \<Rightarrow> (string \<rightharpoonup> product_aggregate) \<Rightarrow> candidate_error + row_evidence list" where
  "buildRows markets exporter productsByCode =
     emap row_of_market
       (filter (\<lambda>market. productsByCode (pr_code (om_product market)) \<noteq> None \<and> ec_code (om_market market) \<noteq> ec_code exporter)
         markets)"

definition buildRowsForComparison ::
  "opportunity_market list \<Rightarrow> (string \<rightharpoonup> product_aggregate) \<Rightarrow> candidate_error + row_evidence list" where
  "buildRowsForComparison markets productsByCode =
     emap row_of_market (filter (\<lambda>market. productsByCode (pr_code (om_product market)) \<noteq> None) markets)"

subsection \<open>Windows\<close>

definition opportunity_growth :: "math_library \<Rightarrow> int list \<Rightarrow> js_number list \<Rightarrow> js_number" where
  "opportunity_growth M years vals =
     (let meanYear = mean (map js_int years);
          logValues = map (math_log M) vals;
          meanLogValue = mean logValues;
          numerator = foldl (\<lambda>acc (year, l). js_plus acc
            (js_times (js_minus (js_int year) meanYear) (js_minus l meanLogValue))) (Finite 0) (zip years logValues);
          denominator = foldl (\<lambda>acc year. let d = js_minus (js_int year) meanYear in js_plus acc (js_times d d))
            (Finite 0) years
      in js_minus (math_exp M (js_divide numerator denominator)) (Finite 1))"

definition sum_years :: "(int \<rightharpoonup> js_number) \<Rightarrow> int list \<Rightarrow> js_number" where
  "sum_years byYear years =
     foldl (\<lambda>acc year. js_plus acc (case byYear year of None \<Rightarrow> Finite 0 | Some v \<Rightarrow> v)) (Finite 0) years"

definition js_positive :: "js_number \<Rightarrow> bool" where
  "js_positive n = js_less (Finite 0) n"

definition window_row_of ::
  "math_library \<Rightarrow> (string \<rightharpoonup> product_aggregate) \<Rightarrow> int \<times> int \<Rightarrow> row_evidence \<Rightarrow> window_base option" where
  "window_row_of M productsByCode window row =
     (let years = yearsBetween (fst window) (snd window);
          observedYears = filter (\<lambda>year. re_yearValues row year \<noteq> None) years;
          worldValues = map (\<lambda>year. fst (the (re_yearValues row year))) observedYears;
          sumWorld = js_sum worldValues;
          sumBilateral = js_sum (map (\<lambda>year. case snd (the (re_yearValues row year)) of None \<Rightarrow> Finite 0 | Some b \<Rightarrow> b)
                                   observedYears)
      in if observedYears = [] then None
         else
           let aggregate = the (productsByCode (pr_code (re_product row)));
               sizeKusd = mean worldValues;
               growthReasons = (if length observedYears < 3 then [TOO_FEW_OBSERVED_YEARS] else [])
                 @ (if js_less sizeKusd (Finite 500) then [SMALL_MARKET_BASE] else []);
               growth = (if growthReasons = [] then Some (opportunity_growth M observedYears worldValues) else None);
               sumExporter = sum_years (pa_exporterTotalByYear aggregate) years;
               sumWorldProduct = sum_years (pa_worldTotalByYear aggregate) years
           in Some
             \<lparr>wr_rowKey = re_rowKey row, wr_product = re_product row, wr_market = re_market row,
              wr_observedYears = observedYears, wr_sizeKusd = sizeKusd, wr_growth = growth,
              wr_growthReasons = growthReasons,
              wr_presence = (if js_positive sumWorldProduct
                             then clamp (js_divide sumExporter sumWorldProduct) (Finite 0) (Finite 1) else Finite 0),
              wr_presenceNoExport = js_equal sumExporter (Finite 0),
              wr_foothold = (if js_positive sumWorld
                             then clamp (js_divide sumBilateral sumWorld) (Finite 0) (Finite 1) else Finite 0),
              wr_bilateralFlowState = (if js_positive sumBilateral then FLOW_RECORDED else FLOW_NO_RECORDED_POSITIVE),
              wr_discontinuityYears = pa_discontinuityYears aggregate\<rparr>)"

text \<open>The pool is sorted by value alone, with the position of each value.\<close>

definition midrankPercentiles :: "js_number option list \<Rightarrow> js_number list" where
  "midrankPercentiles vals =
     (let pool = js_sort (\<lambda>left right. js_minus (snd left) (snd right))
                   (List.map_filter (\<lambda>(i, v). map_option (Pair i) v) (enumerate 0 vals));
          given = map_of (percentile_loop 0 (length pool) pool)
      in map (\<lambda>i. case given i of None \<Rightarrow> Finite 50 | Some p \<Rightarrow> p) [0..<length vals])"

definition scored_row :: "window_base \<Rightarrow> js_number \<Rightarrow> js_number \<Rightarrow> js_number \<Rightarrow> js_number \<Rightarrow> window_row" where
  "scored_row row sizePct growthPct presencePct footholdPct =
     (let attractivenessRaw = js_plus (js_times SIZE_WEIGHT sizePct) (js_times GROWTH_WEIGHT growthPct);
          fitRaw = js_plus (js_times PRESENCE_WEIGHT presencePct) (js_times FOOTHOLD_WEIGHT footholdPct);
          priorityRaw = js_plus (js_times ATTRACTIVENESS_WEIGHT attractivenessRaw) (js_times FIT_WEIGHT fitRaw)
      in window_base.extend row
           \<lparr>wr_sizePct = sizePct, wr_growthPct = growthPct, wr_presencePct = presencePct, wr_footholdPct = footholdPct,
            wr_attractivenessRaw = attractivenessRaw, wr_fitRaw = fitRaw, wr_priorityRaw = priorityRaw\<rparr>)"

definition computeWindowRows ::
  "math_library \<Rightarrow> row_evidence list \<Rightarrow> (string \<rightharpoonup> product_aggregate) \<Rightarrow> int \<times> int \<Rightarrow> window_row list" where
  "computeWindowRows M rows productsByCode window =
     (let windowRows = List.map_filter (window_row_of M productsByCode window) rows;
          sizePct = midrankPercentiles (map (\<lambda>row. Some (wr_sizeKusd row)) windowRows);
          growthPct = midrankPercentiles (map wr_growth windowRows);
          presencePct = midrankPercentiles (map (\<lambda>row. Some (wr_presence row)) windowRows);
          footholdPct = midrankPercentiles (map (\<lambda>row. Some (wr_foothold row)) windowRows)
      in map (\<lambda>i. scored_row (windowRows ! i) (sizePct ! i) (growthPct ! i) (presencePct ! i) (footholdPct ! i))
           [0..<length windowRows])"

subsection \<open>Ranks\<close>

definition display_row :: "window_row \<Rightarrow> ranked_row" where
  "display_row row = window_row.extend row
     \<lparr>kd_priorityDisplay = roundHalfUp (wr_priorityRaw row),
      kd_attractivenessDisplay = roundHalfUp (wr_attractivenessRaw row),
      kd_fitDisplay = roundHalfUp (wr_fitRaw row),
      kd_competitionRank = 0, kd_competitionRankTieSize = 0, kd_rankPercentile = Finite 0\<rparr>"

definition compareCanonical :: "collation \<Rightarrow> ranked_row \<Rightarrow> ranked_row \<Rightarrow> js_number" where
  "compareCanonical collate left right =
     js_or (js_minus (kd_priorityDisplay right) (kd_priorityDisplay left))
     (js_or (js_minus (kd_attractivenessDisplay right) (kd_attractivenessDisplay left))
     (js_or (js_minus (kd_fitDisplay right) (kd_fitDisplay left))
     (js_or (collate (pr_code (wr_product left)) (pr_code (wr_product right)))
        (js_minus (js_Number (ec_code (wr_market left))) (js_Number (ec_code (wr_market right)))))))"

function competition_loop :: "nat \<Rightarrow> nat \<Rightarrow> ranked_row list \<Rightarrow> ranked_row list" where
  "competition_loop groupStart n [] = []"
| "competition_loop groupStart n (x # xs) =
     (let tied = takeWhile (\<lambda>y. js_equal (kd_priorityDisplay y) (kd_priorityDisplay x)) xs;
          groupEnd = groupStart + 1 + length tied;
          rank = groupStart + 1;
          percentile = rank_percentile_of rank groupEnd n
      in map (\<lambda>c. c\<lparr>kd_competitionRank := rank, kd_competitionRankTieSize := groupEnd - groupStart,
                     kd_rankPercentile := percentile\<rparr>)
           (x # tied) @ competition_loop groupEnd n (drop (length tied) xs))"
  by pat_completeness auto
termination by (relation "measure (\<lambda>(groupStart, n, xs). length xs)") auto

definition rankRows :: "collation \<Rightarrow> window_row list \<Rightarrow> ranked_row list" where
  "rankRows collate windowRows =
     competition_loop 0 (length windowRows) (js_sort (compareCanonical collate) (map display_row windowRows))"

definition priorityByRowKey :: "window_row list \<Rightarrow> string \<rightharpoonup> js_number" where
  "priorityByRowKey windowRows = from_entries (map (\<lambda>row. (wr_rowKey row, wr_priorityRaw row)) windowRows)"

definition buildPreviousReleaseRanking ::
  "math_library \<Rightarrow> collation \<Rightarrow> release_comparison option \<Rightarrow>
   candidate_error + (string \<rightharpoonup> js_number \<times> js_number) option" where
  "buildPreviousReleaseRanking M collate previousRelease =
     (case previousRelease of
        None \<Rightarrow> Inr None
      | Some previous \<Rightarrow>
          ebind (buildProductAggregates M (oc_products previous)) (\<lambda>productsByCode.
          ebind (buildRowsForComparison (oc_markets previous) productsByCode) (\<lambda>rows.
          let window = (oc_finalizedCutoffYear previous - 4, oc_finalizedCutoffYear previous);
              ranked = rankRows collate (computeWindowRows M rows productsByCode window)
          in Inr (Some (from_entries (map (\<lambda>row. (wr_rowKey row, (wr_priorityRaw row, kd_rankPercentile row))) ranked))))))"

subsection \<open>Candidates\<close>

definition alternateStability :: "ranked_row \<Rightarrow> int \<times> int \<Rightarrow> (string \<rightharpoonup> js_number) \<Rightarrow> alternate_stability" where
  "alternateStability row window priorityByKey =
     (case priorityByKey (wr_rowKey row) of
        None \<Rightarrow> \<lparr>al_window = window, al_state = COHORT_EXIT, al_priorityDelta = None\<rparr>
      | Some alternate \<Rightarrow>
          let delta = js_abs (js_minus (wr_priorityRaw row) alternate)
          in \<lparr>al_window = window,
              al_state = (if js_ge delta (Finite 15) then LOW_ALTERNATE_WINDOW_STABILITY else ALTERNATE_NOT_FLAGGED),
              al_priorityDelta = Some (js_to_fixed 6 delta)\<rparr>)"

definition buildReleaseRevision :: "ranked_row \<Rightarrow> (string \<rightharpoonup> js_number \<times> js_number) option \<Rightarrow> opportunity_revision" where
  "buildReleaseRevision row previousReleaseRows =
     (case previousReleaseRows of
        None \<Rightarrow> \<lparr>or_state = RELEASE_NOT_COMPARED, or_priorityDelta = None, or_rankPercentileDelta = None,
                 or_cohortTransition = None\<rparr>
      | Some previousRows \<Rightarrow>
          (case previousRows (wr_rowKey row) of
             None \<Rightarrow> \<lparr>or_state = RELEASE_NOT_FLAGGED, or_priorityDelta = None, or_rankPercentileDelta = None,
                      or_cohortTransition = Some TRANSITION_COHORT_ENTRY\<rparr>
           | Some (priorityRaw, rankPercentile) \<Rightarrow>
               let priorityDelta = js_abs (js_minus (wr_priorityRaw row) priorityRaw);
                   rankPercentileDelta = js_abs (js_minus (kd_rankPercentile row) rankPercentile)
               in \<lparr>or_state = (if js_ge priorityDelta (Finite 10) \<or> js_ge rankPercentileDelta (Finite 15)
                              then MATERIAL_RELEASE_REVISION else RELEASE_NOT_FLAGGED),
                   or_priorityDelta = Some (js_to_fixed 6 priorityDelta),
                   or_rankPercentileDelta = Some (js_to_fixed 6 rankPercentileDelta),
                   or_cohortTransition = Some TRANSITION_COMMON\<rparr>))"

definition classifyOpportunity :: "ranked_row \<Rightarrow> opportunity_type" where
  "classifyOpportunity row =
     (if js_ge (wr_attractivenessRaw row) (Finite 70) \<and>
         (js_ge (Finite 20) (wr_footholdPct row) \<or> wr_bilateralFlowState row = FLOW_NO_RECORDED_POSITIVE)
      then UNVALIDATED_MARKET_GAP
      else if wr_bilateralFlowState row = FLOW_RECORDED \<and> js_ge (wr_attractivenessRaw row) (Finite 60) \<and>
              js_ge (wr_fitRaw row) (Finite 60)
      then EXPANSION_EVIDENCE
      else GENERAL_INVESTIGATION_EVIDENCE)"

definition buildEvidenceFlags :: "ranked_row \<Rightarrow> bool \<Rightarrow> evidence_flag list" where
  "buildEvidenceFlags row isIdentityProxy =
     (if wr_bilateralFlowState row = FLOW_NO_RECORDED_POSITIVE then [FLAG_NO_RECORDED_BILATERAL_FLOW] else [])
     @ (if wr_presenceNoExport row then [FLAG_NO_RECORDED_PRODUCT_EXPORT] else [])
     @ (case wr_growth row of
          None \<Rightarrow> []
        | Some g \<Rightarrow> if js_less (Finite (3 / 4)) (js_abs g) then [FLAG_EXTREME_NOMINAL_GROWTH] else [])
     @ (if isIdentityProxy then [FLAG_IDENTITY_PROXY] else [])"

definition opportunity_addDeduction ::
  "opportunity_deduction_code \<Rightarrow> int \<Rightarrow> (opportunity_deduction_code \<times> int) list \<Rightarrow> (opportunity_deduction_code \<times> int) list" where
  "opportunity_addDeduction code points deductions = (if points > 0 then deductions @ [(code, points)] else deductions)"

definition opportunity_computeConfidence ::
  "int list \<Rightarrow> int list \<Rightarrow> int \<Rightarrow> bool \<Rightarrow> bool \<Rightarrow> bool \<Rightarrow> bool \<Rightarrow> bool \<Rightarrow> bool \<Rightarrow> opportunity_confidence" where
  "opportunity_computeConfidence missingMarketYears observedYears cutoffYear growthNeutral presenceNoExport discontinuity
       lowStability materialRevision identityProxy =
     (let d1 = opportunity_addDeduction MISSING_FINALIZED_MARKET_YEARS (min 40 (int (length missingMarketYears) * 10)) [];
          d2 = opportunity_addDeduction MISSING_CUTOFF_YEAR_MARKET_EVIDENCE (if cutoffYear \<in> set observedYears then 0 else 15) d1;
          d3 = opportunity_addDeduction NEUTRAL_MARKET_GROWTH (if growthNeutral then 10 else 0) d2;
          d4 = opportunity_addDeduction DEDUCT_NO_EXPORTER_PRODUCT_HISTORY (if presenceNoExport then 20 else 0) d3;
          d5 = opportunity_addDeduction DEDUCT_SERIES_DISCONTINUITY (if discontinuity then 15 else 0) d4;
          d6 = opportunity_addDeduction DEDUCT_LOW_ALTERNATE_WINDOW_STABILITY (if lowStability then 10 else 0) d5;
          d7 = opportunity_addDeduction DEDUCT_MATERIAL_RELEASE_REVISION (if materialRevision then 10 else 0) d6;
          deductions = opportunity_addDeduction DEDUCT_IDENTITY_PROXY (if identityProxy then 10 else 0) d7;
          afterDeductions = max 0 (100 - foldl (\<lambda>total deduction. total + snd deduction) 0 deductions);
          cappedScore = (if length observedYears \<le> 2 then min afterDeductions 40 else afterDeductions)
      in \<lparr>of_score = cappedScore,
          of_label = (if cappedScore \<ge> 80 then CONFIDENCE_HIGH else if cappedScore \<ge> 50 then CONFIDENCE_MEDIUM
                      else CONFIDENCE_LOW),
          of_deductions = deductions, of_sparseEvidenceCapApplied = (cappedScore < afterDeductions)\<rparr>)"

definition component_of ::
  "component_state \<Rightarrow> string option \<Rightarrow> js_number \<Rightarrow> neutral_reason list option \<Rightarrow> evidence_tag option \<Rightarrow> opportunity_component" where
  "component_of state rawValue pct neutralReasonCodes evidenceTag =
     \<lparr>on_state = state, on_rawValue = rawValue, on_percentileUnrounded = js_to_fixed 6 pct,
      on_percentileBasisPoints = roundHalfUp (js_times pct (Finite 100)), on_percentileDisplay = roundHalfUp pct,
      on_neutralReasonCodes = neutralReasonCodes, on_evidenceTag = evidenceTag\<rparr>"

definition toCandidate ::
  "economy_identity \<Rightarrow> int \<times> int \<Rightarrow> int \<times> int \<Rightarrow> int \<times> int \<Rightarrow> (string \<rightharpoonup> js_number) \<Rightarrow> (string \<rightharpoonup> js_number) \<Rightarrow>
   (string \<rightharpoonup> js_number \<times> js_number) option \<Rightarrow> ranked_row \<Rightarrow> investigation_candidate" where
  "toCandidate exporter scoreWindow threeYearWindow tenYearWindow threeYearPriority tenYearPriority previousReleaseRows row =
     (let missingMarketYears = filter (\<lambda>year. year \<notin> set (wr_observedYears row)) (yearsBetween (fst scoreWindow) (snd scoreWindow));
          threeYear = alternateStability row threeYearWindow threeYearPriority;
          tenYear = alternateStability row tenYearWindow tenYearPriority;
          releaseRevision = buildReleaseRevision row previousReleaseRows;
          isIdentityProxy = (ec_code (wr_market row) = IDENTITY_PROXY_ECONOMY_CODE);
          confidence = opportunity_computeConfidence missingMarketYears (wr_observedYears row) (snd scoreWindow)
            (wr_growth row = None) (wr_presenceNoExport row) (length (wr_discontinuityYears row) > 0)
            (al_state threeYear = LOW_ALTERNATE_WINDOW_STABILITY \<or> al_state tenYear = LOW_ALTERNATE_WINDOW_STABILITY)
            (or_state releaseRevision = MATERIAL_RELEASE_REVISION) isIdentityProxy
      in \<lparr>ic_product = wr_product row, ic_market = wr_market row,
          ic_investigationPriority = \<lparr>ax_rawUnrounded = js_to_fixed 6 (wr_priorityRaw row), ax_display = kd_priorityDisplay row\<rparr>,
          ic_marketAttractiveness =
            \<lparr>ax_rawUnrounded = js_to_fixed 6 (wr_attractivenessRaw row), ax_display = kd_attractivenessDisplay row\<rparr>,
          ic_exporterFit = \<lparr>ax_rawUnrounded = js_to_fixed 6 (wr_fitRaw row), ax_display = kd_fitDisplay row\<rparr>,
          ic_marketSize = component_of COMPUTED (Some (formatDecimal (js_times (wr_sizeKusd row) (Finite 1000))))
            (wr_sizePct row) None None,
          ic_marketGrowth = component_of (if wr_growth row = None then NEUTRAL else COMPUTED)
            (map_option (js_to_fixed 6) (wr_growth row)) (wr_growthPct row)
            (if wr_growth row = None then Some (wr_growthReasons row) else None) None,
          ic_exporterProductPresence = component_of COMPUTED (Some (js_to_fixed 6 (wr_presence row))) (wr_presencePct row)
            None (if wr_presenceNoExport row then Some TAG_NO_RECORDED_PRODUCT_EXPORT else None),
          ic_recordedFoothold = component_of COMPUTED (Some (js_to_fixed 6 (wr_foothold row))) (wr_footholdPct row)
            None (if wr_bilateralFlowState row = FLOW_NO_RECORDED_POSITIVE then Some TAG_NO_RECORDED_POSITIVE_FLOW else None),
          ic_opportunityType = classifyOpportunity row,
          ic_bilateralFlowState = wr_bilateralFlowState row,
          ic_bilateralWording = (if wr_bilateralFlowState row = FLOW_NO_RECORDED_POSITIVE
                                 then Some NO_RECORDED_BILATERAL_FLOW_WORDING else None),
          ic_observedMarketYears = wr_observedYears row, ic_missingMarketYears = missingMarketYears,
          ic_confidence = confidence, ic_threeYear = threeYear, ic_tenYear = tenYear,
          ic_releaseRevision = releaseRevision, ic_evidenceFlags = buildEvidenceFlags row isIdentityProxy,
          ic_competitionRank = kd_competitionRank row, ic_competitionRankTieSize = kd_competitionRankTieSize row,
          ic_drillDownExporterCode = ec_code exporter\<rparr>)"

definition computeOpportunityCohort ::
  "math_library \<Rightarrow> collation \<Rightarrow> cohort_inputs \<Rightarrow> candidate_error + opportunity_cohort" where
  "computeOpportunityCohort M collate inputs =
     (let cutoffYear = rel_finalizedCutoffYear (oi_release inputs);
          scoreWindow = (cutoffYear - 4, cutoffYear);
          threeYearWindow = (cutoffYear - 2, cutoffYear);
          tenYearWindow = (cutoffYear - 9, cutoffYear)
      in ebind (buildProductAggregates M (oi_products inputs)) (\<lambda>productsByCode.
         ebind (buildRows (oi_markets inputs) (oi_exporter inputs) productsByCode) (\<lambda>rows.
         let rankedPrimary = rankRows collate (computeWindowRows M rows productsByCode scoreWindow);
             threeYearPriority = priorityByRowKey (computeWindowRows M rows productsByCode threeYearWindow);
             tenYearPriority = priorityByRowKey (computeWindowRows M rows productsByCode tenYearWindow)
         in ebind (buildPreviousReleaseRanking M collate (oi_previousRelease inputs)) (\<lambda>previousReleaseRows.
            Inr \<lparr>co_analysisBuildId = oi_analysisBuildId inputs, co_exporter = oi_exporter inputs,
                 co_provenance = provenance_of (oi_release inputs) (oi_artifact inputs) scoreWindow,
                 co_candidates = map (toCandidate (oi_exporter inputs) scoreWindow threeYearWindow tenYearWindow
                   threeYearPriority tenYearPriority previousReleaseRows) rankedPrimary\<rparr>))))"

end
