(* ===== verification/Opportunity_Scores.thy ===== *)
theory Opportunity_Scores
  imports Opportunity_Discovery Candidate_Percentiles "HOL-Library.Product_Lexorder"
begin

text \<open>
  What the cohort of market investigation candidates promises: it holds exactly the eligible pairs of product and
  market, its displayed scores are whole numbers between 0 and 100, it is listed in the canonical order and its
  ranks count the higher priorities. The ranking is the interpretation of \<^theory_text>\<open>tie_ranking\<close> for its loop.
\<close>

interpretation competition: tie_ranking kd_priorityDisplay
  "\<lambda>r t q c. c\<lparr>kd_competitionRank := r, kd_competitionRankTieSize := t, kd_rankPercentile := q\<rparr>"
  kd_competitionRank kd_competitionRankTieSize kd_rankPercentile competition_loop
  by unfold_locales (simp_all add: Let_def)

subsection \<open>Which evidence is accepted\<close>

definition readable_totals :: "(int \<times> string) list \<Rightarrow> bool" where
  "readable_totals totals \<longleftrightarrow> list_all (\<lambda>t. readable_positive (snd t)) totals"

definition product_accepted :: "opportunity_product \<Rightarrow> bool" where
  "product_accepted p \<longleftrightarrow> readable_totals (op_worldYearTotals p) \<and> readable_totals (op_exporterExportTotals p)"

definition market_accepted :: "opportunity_market \<Rightarrow> bool" where
  "market_accepted m \<longleftrightarrow> list_all (\<lambda>row. readable_positive (oy_worldValueKusd row) \<and>
     (case oy_bilateralValueKusd row of None \<Rightarrow> True | Some b \<Rightarrow> readable_positive b)) (om_marketYears m)"

definition product_codes :: "opportunity_product list \<Rightarrow> string set" where
  "product_codes products = (\<lambda>p. pr_code (op_product p)) ` set products"

lemma put_totals_returns: "returns (efold (put_total field) totals acc) \<longleftrightarrow> readable_totals totals"
  unfolding readable_totals_def
  by (rule efold_returns) (simp add: put_total_def returns_ebind parsePositiveDecimal_Inr_iff)

lemma opportunity_discontinuity_returns:
  assumes "readable_totals totals"
  shows "returns (opportunity_findDiscontinuityYears M totals)"
proof -
  let ?s = "sort_key fst totals"
  have "readable_positive (snd t)" if "t \<in> set ?s" for t using that assms by (auto simp: readable_totals_def list_all_iff)
  moreover have "a \<in> set ?s" "b \<in> set ?s" if "(a, b) \<in> set (zip ?s (tl ?s))" for a b
  proof -
    have tl: "set (tl xs) \<subseteq> set xs" for xs :: "(int \<times> string) list" by (cases xs) auto
    show "a \<in> set ?s" using set_zip_leftD [OF that] .
    show "b \<in> set ?s" using tl [of ?s] set_zip_rightD [OF that] by (rule subsetD)
  qed
  ultimately have ok: "readable_positive (snd a)" "readable_positive (snd b)" if "(a, b) \<in> set (zip ?s (tl ?s))" for a b
    using that by metis+
  have "returns (opportunity_yearly_change M ab)" if "ab \<in> set (zip ?s (tl ?s))" for ab
  proof -
    obtain a b where ab: "ab = (a, b)" by (rule prod.exhaust)
    with ok [of a b] that show ?thesis
      by (simp add: opportunity_yearly_change_def returns_ebind parsePositiveDecimal_Inr_iff)
  qed
  then have "returns (emap (opportunity_yearly_change M) (zip ?s (tl ?s)))" by (simp add: returns_emap list_all_iff)
  then show ?thesis unfolding opportunity_findDiscontinuityYears_def Let_def
    by (auto simp: returns_if intro: returns_ebind_total [THEN iffD2])
qed

lemma put_product_returns: "returns (put_product M p acc) \<longleftrightarrow> product_accepted p"
  using put_totals_returns opportunity_discontinuity_returns
  unfolding put_product_def product_accepted_def
  by (simp add: returns_ebind) (auto simp: returns_def)

lemma buildProductAggregates_returns: "returns (buildProductAggregates M ps) \<longleftrightarrow> list_all product_accepted ps"
  unfolding buildProductAggregates_def by (rule efold_returns) (rule put_product_returns)

lemma put_products_dom:
  "efold (put_product M) ps acc = Inr byCode \<Longrightarrow> dom byCode = dom acc \<union> product_codes ps"
proof (induction ps arbitrary: acc)
  case (Cons p ps)
  then obtain acc' where a: "put_product M p acc = Inr acc'" "efold (put_product M) ps acc' = Inr byCode"
    by (auto simp: ebind_Inr_iff)
  have "dom acc' = insert (pr_code (op_product p)) (dom acc)" using a(1) by (auto simp: put_product_def ebind_Inr_iff)
  with Cons.IH [OF a(2)] show ?case by (simp add: product_codes_def)
qed (simp add: product_codes_def)

lemma buildProductAggregates_dom: "buildProductAggregates M ps = Inr byCode \<Longrightarrow> dom byCode = product_codes ps"
  unfolding buildProductAggregates_def by (drule put_products_dom) simp

lemma row_of_market_returns: "returns (row_of_market m) \<longleftrightarrow> market_accepted m"
proof -
  have "returns (put_market_year row acc) \<longleftrightarrow> readable_positive (oy_worldValueKusd row) \<and>
     (case oy_bilateralValueKusd row of None \<Rightarrow> True | Some b \<Rightarrow> readable_positive b)" for row acc
    by (auto simp: put_market_year_def returns_ebind parsePositiveDecimal_Inr_iff ebind_Inr_iff split: option.splits)
  from efold_returns [where f = put_market_year, OF this]
  show ?thesis unfolding row_of_market_def market_accepted_def by (subst returns_ebind_total) simp_all
qed

definition eligible_markets :: "cohort_inputs \<Rightarrow> opportunity_market list" where
  "eligible_markets inp = filter (\<lambda>m. pr_code (om_product m) \<in> product_codes (oi_products inp) \<and>
     ec_code (om_market m) \<noteq> ec_code (oi_exporter inp)) (oi_markets inp)"

definition previous_accepted :: "release_comparison \<Rightarrow> bool" where
  "previous_accepted p \<longleftrightarrow> list_all product_accepted (oc_products p) \<and>
     list_all market_accepted (filter (\<lambda>m. pr_code (om_product m) \<in> product_codes (oc_products p)) (oc_markets p))"

definition cohort_accepted :: "cohort_inputs \<Rightarrow> bool" where
  "cohort_accepted inp \<longleftrightarrow> list_all product_accepted (oi_products inp) \<and> list_all market_accepted (eligible_markets inp) \<and>
     (case oi_previousRelease inp of None \<Rightarrow> True | Some p \<Rightarrow> previous_accepted p)"

lemma buildRows_eligible:
  assumes "dom byCode = product_codes (oi_products inp)"
  shows "buildRows (oi_markets inp) (oi_exporter inp) byCode = emap row_of_market (eligible_markets inp)"
proof -
  have "byCode c \<noteq> None \<longleftrightarrow> c \<in> product_codes (oi_products inp)" for c using assms by (metis domIff)
  then show ?thesis unfolding buildRows_def eligible_markets_def by (simp only:)
qed

lemma buildRowsForComparison_known:
  assumes "dom byCode = product_codes ps"
  shows "buildRowsForComparison markets byCode =
    emap row_of_market (filter (\<lambda>m. pr_code (om_product m) \<in> product_codes ps) markets)"
proof -
  have "byCode c \<noteq> None \<longleftrightarrow> c \<in> product_codes ps" for c using assms by (metis domIff)
  then show ?thesis unfolding buildRowsForComparison_def by (simp only:)
qed

lemma dom_from_entries: "dom (from_entries es) = fst ` set es"
  by (simp add: from_entries_def dom_map_of_conv_image_fst)

lemma previous_returns:
  "returns (buildPreviousReleaseRanking M collate previous) \<longleftrightarrow>
     (case previous of None \<Rightarrow> True | Some p \<Rightarrow> previous_accepted p)"
proof (cases previous)
  case (Some p)
  show ?thesis
  proof (cases "list_all product_accepted (oc_products p)")
    case True
    then obtain byCode where b: "buildProductAggregates M (oc_products p) = Inr byCode"
      using buildProductAggregates_returns [of M "oc_products p"] by (auto simp: returns_def)
    show ?thesis
      unfolding buildPreviousReleaseRanking_def Some option.case b ebind.simps Let_def
        buildRowsForComparison_known [OF buildProductAggregates_dom [OF b]]
      by (subst returns_ebind_total) (simp_all add: returns_emap row_of_market_returns previous_accepted_def True)
  next
    case False
    then have "\<not> returns (buildProductAggregates M (oc_products p))" by (simp add: buildProductAggregates_returns)
    then show ?thesis using False
      by (auto simp: buildPreviousReleaseRanking_def Some ebind_Inr_iff returns_def previous_accepted_def)
  qed
qed (simp add: buildPreviousReleaseRanking_def)

text \<open>The steps of a run that returns.\<close>

lemma computeCohort_facts:
  assumes "computeOpportunityCohort M collate inp = Inr co"
  obtains byCode rows previous where
    "buildProductAggregates M (oi_products inp) = Inr byCode"
    "emap row_of_market (eligible_markets inp) = Inr rows"
    "buildPreviousReleaseRanking M collate (oi_previousRelease inp) = Inr previous"
    "co_candidates co = map (toCandidate (oi_exporter inp)
       (rel_finalizedCutoffYear (oi_release inp) - 4, rel_finalizedCutoffYear (oi_release inp))
       (rel_finalizedCutoffYear (oi_release inp) - 2, rel_finalizedCutoffYear (oi_release inp))
       (rel_finalizedCutoffYear (oi_release inp) - 9, rel_finalizedCutoffYear (oi_release inp))
       (priorityByRowKey (computeWindowRows M rows byCode
          (rel_finalizedCutoffYear (oi_release inp) - 2, rel_finalizedCutoffYear (oi_release inp))))
       (priorityByRowKey (computeWindowRows M rows byCode
          (rel_finalizedCutoffYear (oi_release inp) - 9, rel_finalizedCutoffYear (oi_release inp)))) previous)
       (rankRows collate (computeWindowRows M rows byCode
          (rel_finalizedCutoffYear (oi_release inp) - 4, rel_finalizedCutoffYear (oi_release inp))))"
proof -
  from assms obtain byCode rows previous where
    b: "buildProductAggregates M (oi_products inp) = Inr byCode"
    and r: "buildRows (oi_markets inp) (oi_exporter inp) byCode = Inr rows"
    and p: "buildPreviousReleaseRanking M collate (oi_previousRelease inp) = Inr previous"
    unfolding computeOpportunityCohort_def Let_def ebind_Inr_iff by blast
  have "emap row_of_market (eligible_markets inp) = Inr rows"
    using r unfolding buildRows_eligible [OF buildProductAggregates_dom [OF b]] .
  then show thesis using that [OF b _ p] assms b r p
    unfolding computeOpportunityCohort_def Let_def by auto
qed

lemma cohort_returns: "returns (computeOpportunityCohort M collate inp) \<longleftrightarrow> cohort_accepted inp"
proof (cases "list_all product_accepted (oi_products inp)")
  case True
  then obtain byCode where b: "buildProductAggregates M (oi_products inp) = Inr byCode"
    using buildProductAggregates_returns [of M "oi_products inp"] by (auto simp: returns_def)
  have rows: "returns (buildRows (oi_markets inp) (oi_exporter inp) byCode) \<longleftrightarrow> list_all market_accepted (eligible_markets inp)"
    unfolding buildRows_eligible [OF buildProductAggregates_dom [OF b]] by (simp add: returns_emap row_of_market_returns)
  have "returns (computeOpportunityCohort M collate inp) \<longleftrightarrow>
      returns (buildRows (oi_markets inp) (oi_exporter inp) byCode) \<and>
      returns (buildPreviousReleaseRanking M collate (oi_previousRelease inp))"
    unfolding computeOpportunityCohort_def Let_def b ebind.simps by (simp only: returns_ebind returns_simps) (auto simp: returns_def)
  then show ?thesis unfolding rows previous_returns by (simp add: cohort_accepted_def True)
next
  case False
  then have "\<not> returns (buildProductAggregates M (oi_products inp))" by (simp add: buildProductAggregates_returns)
  then show ?thesis using False
    by (auto simp: computeOpportunityCohort_def Let_def returns_def ebind_Inr_iff cohort_accepted_def)
qed

text \<open>C12: the cohort is computed exactly for the evidence whose decimal texts can be read as positive numbers: those of
  every product, of every eligible market, and of the products and known markets of the previous release. Any other
  evidence throws, and no gap between the years does.\<close>

theorem cohort_evidence_accepted: "(\<exists>co. computeOpportunityCohort M collate inp = Inr co) \<longleftrightarrow> cohort_accepted inp"
  using cohort_returns by (simp add: returns_def)

subsection \<open>Displayed scores\<close>

lemma round_up:
  assumes "0 \<le> x" "x \<le> 2 ^ 20"
  obtains y where "to_number x = Finite y" "0 \<le> y" "y \<le> x + 1 / 10 ^ 6"
proof -
  have "(2::rat) ^ 20 \<le> 2 ^ 1000" by (rule power_increasing) simp_all
  then obtain y where y: "to_number x = Finite y" "\<bar>y - x\<bar> \<le> \<bar>x\<bar> / 2 ^ 53 + pow2 (- 1075)" "0 \<le> y"
    using to_number_close [of x] assms by (metis abs_of_nonneg order_trans)
  have "pow2 (- 1075) \<le> pow2 (- 40)" by (simp add: pow2_le_iff)
  also have "\<dots> = 1 / 2 ^ 40" by (simp add: pow2_def)
  finally have "pow2 (- 1075) \<le> 1 / 2 ^ 40" .
  moreover have "\<bar>x\<bar> / 2 ^ 53 \<le> 1 / 2 ^ 33" using assms by simp
  ultimately have "\<bar>y - x\<bar> \<le> 1 / 2 ^ 33 + 1 / 2 ^ 40" using y(2) by linarith
  also have "(1 / 2 ^ 33 + 1 / 2 ^ 40 :: rat) \<le> 1 / 10 ^ 6" by simp
  finally have "y \<le> x + 1 / 10 ^ 6" by linarith
  with y show thesis by (intro that)
qed

lemma in_range_weighted:
  assumes "in_range 0 B n" "0 \<le> w" "w \<le> 1" "0 \<le> B" "B \<le> 1000"
  shows "in_range 0 (w * B + 2 / 1000) (js_times (to_number w) n)"
proof -
  obtain x where x: "n = Finite x" "0 \<le> x" "x \<le> B" using assms(1) by (auto simp: in_range_def)
  obtain v where v: "to_number w = Finite v" "0 \<le> v" "v \<le> w + 1 / 10 ^ 6" using round_up [of w] assms(2,3) by auto
  have vx: "v * x \<le> (w + 1 / 10 ^ 6) * B" "0 \<le> v * x" using v x assms(2,4) by (auto intro: mult_mono)
  have "w * B \<le> 1 * 1000" using assms by (intro mult_mono) simp_all
  then have "v * x \<le> 2 ^ 20" using vx(1) assms(5) by (simp add: distrib_right)
  then obtain y where "to_number (v * x) = Finite y" "0 \<le> y" "y \<le> v * x + 1 / 10 ^ 6" using round_up [OF vx(2)] by metis
  moreover have "(w + 1 / 10 ^ 6) * B \<le> w * B + 1 / 1000" using assms(5) by (simp add: distrib_right)
  ultimately show ?thesis using vx(1) by (simp add: in_range_def x(1) v(1))
qed

lemma in_range_sum:
  assumes "in_range 0 A m" "in_range 0 B n" "A + B \<le> 1000"
  shows "in_range 0 (A + B + 1 / 1000) (js_plus m n)"
proof -
  obtain x y where xy: "m = Finite x" "0 \<le> x" "x \<le> A" "n = Finite y" "0 \<le> y" "y \<le> B"
    using assms(1,2) by (auto simp: in_range_def)
  then obtain z where "to_number (x + y) = Finite z" "0 \<le> z" "z \<le> x + y + 1 / 10 ^ 6"
    using round_up [of "x + y"] assms(3) by auto
  with xy show ?thesis by (simp add: in_range_def)
qed

lemma weighted_sum_range:
  assumes "in_range 0 (100 + d) m" "in_range 0 (100 + d) n" "0 \<le> d" "d \<le> 1" "0 \<le> w" "w \<le> 1" "v = 1 - w"
  shows "in_range 0 (100 + d + 5 / 1000) (js_plus (js_times (to_number w) m) (js_times (to_number v) n))"
proof -
  have "in_range 0 (w * (100 + d) + 2 / 1000) (js_times (to_number w) m)"
    "in_range 0 (v * (100 + d) + 2 / 1000) (js_times (to_number v) n)"
    using in_range_weighted [OF assms(1), of w] in_range_weighted [OF assms(2), of v] assms(3-7) by simp_all
  moreover have "w * (100 + d) + 2 / 1000 + (v * (100 + d) + 2 / 1000) = 100 + d + 4 / 1000"
    by (simp add: assms(7) field_simps)
  ultimately have "in_range 0 (100 + d + 4 / 1000 + 1 / 1000) (js_plus (js_times (to_number w) m) (js_times (to_number v) n))"
    using in_range_sum [of "w * (100 + d) + 2 / 1000" _ "v * (100 + d) + 2 / 1000"] assms(4) by simp
  then show ?thesis by simp
qed

definition displayed_upto :: "nat \<Rightarrow> js_number \<Rightarrow> bool" where
  "displayed_upto b n \<longleftrightarrow> (\<exists>k::nat. k \<le> b \<and> n = Finite (of_nat k))"

lemma roundHalfUp_displayed:
  assumes "in_range 0 (of_nat b + 1 / 10) n" "b \<le> 10000"
  shows "displayed_upto b (roundHalfUp n)"
proof -
  obtain x where x: "n = Finite x" "0 \<le> x" "x \<le> of_nat b + 1 / 10" using assms(1) by (auto simp: in_range_def)
  have b: "(of_nat b :: rat) \<le> 10000" using assms(2) by simp
  obtain y where y: "to_number (x + 1 / 2) = Finite y" "0 \<le> y" "y \<le> x + 1 / 2 + 1 / 10 ^ 6"
    using round_up [of "x + 1 / 2"] x b by auto
  obtain z where z: "to_number (y + 1 / 2 ^ 52) = Finite z" "0 \<le> z" "z \<le> y + 1 / 2 ^ 52 + 1 / 10 ^ 6"
    using round_up [of "y + 1 / 2 ^ 52"] x y b by auto
  have e: "(1 / 2 ^ 52 :: rat) \<le> 1 / 100" "(1 / 10 ^ 6 :: rat) \<le> 1 / 100" by simp_all
  have "y \<le> x + 1 / 2 + 1 / 100" using y(3) add_left_mono [OF e(2)] by (rule order_trans)
  moreover have "z \<le> y + 1 / 100 + 1 / 100" using z(3) add_mono [OF add_left_mono [OF e(1)] e(2)] by (rule order_trans)
  ultimately have "z < of_nat b + 1" using x(3) by linarith
  then have "z < of_int (int b + 1)" by simp
  then have "\<lfloor>z\<rfloor> \<le> int b" by (simp only: floor_less_iff [symmetric])
  moreover have "0 \<le> \<lfloor>z\<rfloor>" using z(2) by simp
  ultimately have "nat \<lfloor>z\<rfloor> \<le> b" "of_int \<lfloor>z\<rfloor> = (of_nat (nat \<lfloor>z\<rfloor>) :: rat)" by simp_all
  moreover have "roundHalfUp n = Finite (of_int \<lfloor>z\<rfloor>)" using x y z by (simp add: roundHalfUp_def)
  ultimately show ?thesis by (auto simp: displayed_upto_def)
qed

lemma midrankPercentiles_length [simp]: "length (midrankPercentiles vals) = length vals"
  by (simp add: midrankPercentiles_def Let_def)

lemma midrankPercentiles_range:
  assumes "i < length vals" "length vals \<le> 2 ^ 38"
  shows "percentage (midrankPercentiles vals ! i)"
proof -
  define pool where "pool = js_sort (\<lambda>left right. js_minus (snd left) (snd right))
    (List.map_filter (\<lambda>(i, v). map_option (Pair i) v) (enumerate 0 vals))"
  have "length pool \<le> length vals"
    using length_map_filter_le [of _ "enumerate 0 vals"] by (simp add: pool_def)
  then have n: "length pool \<le> 2 ^ 38" using assms(2) by linarith
  have "midrankPercentiles vals ! i = (case map_of (percentile_loop 0 (length pool) pool) i of None \<Rightarrow> Finite 50 | Some p \<Rightarrow> p)"
    using assms(1) by (simp add: midrankPercentiles_def Let_def pool_def)
  moreover have "percentage (Finite 50)" by (simp add: in_range_def)
  moreover have "percentage p" if "map_of (percentile_loop 0 (length pool) pool) i = Some p" for p
    using percentile_loop_range [OF _ n map_of_SomeD [OF that]] by simp
  ultimately show ?thesis by (simp split: option.split)
qed

text \<open>The percentages and scores of a row.\<close>

definition row_in_bounds :: "'a window_row_scheme \<Rightarrow> bool" where
  "row_in_bounds row \<longleftrightarrow> percentage (wr_sizePct row) \<and> percentage (wr_growthPct row) \<and> percentage (wr_presencePct row) \<and>
     percentage (wr_footholdPct row) \<and> in_range 0 (100 + 1 / 10) (wr_attractivenessRaw row) \<and>
     in_range 0 (100 + 1 / 10) (wr_fitRaw row) \<and> in_range 0 (100 + 1 / 10) (wr_priorityRaw row)"

lemma in_range_weaken: "in_range a b n \<Longrightarrow> b \<le> c \<Longrightarrow> in_range a c n"
  by (auto simp: in_range_def)

lemma scored_row_in_bounds:
  assumes "percentage s" "percentage g" "percentage p" "percentage f"
  shows "row_in_bounds (scored_row row s g p f)"
proof -
  have a: "in_range 0 (100 + 5 / 1000) (js_plus (js_times SIZE_WEIGHT s) (js_times GROWTH_WEIGHT g))"
    using weighted_sum_range [of 0 s g "65 / 100" "35 / 100"] assms by (simp add: SIZE_WEIGHT_def GROWTH_WEIGHT_def)
  have b: "in_range 0 (100 + 5 / 1000) (js_plus (js_times PRESENCE_WEIGHT p) (js_times FOOTHOLD_WEIGHT f))"
    using weighted_sum_range [of 0 p f "6 / 10" "4 / 10"] assms by (simp add: PRESENCE_WEIGHT_def FOOTHOLD_WEIGHT_def)
  have c: "in_range 0 (100 + 5 / 1000 + 5 / 1000) (js_plus
      (js_times ATTRACTIVENESS_WEIGHT (js_plus (js_times SIZE_WEIGHT s) (js_times GROWTH_WEIGHT g)))
      (js_times FIT_WEIGHT (js_plus (js_times PRESENCE_WEIGHT p) (js_times FOOTHOLD_WEIGHT f))))"
    unfolding ATTRACTIVENESS_WEIGHT_def FIT_WEIGHT_def using a b by (rule weighted_sum_range) simp_all
  show ?thesis
    using assms in_range_weaken [OF a, of "100 + 1 / 10"] in_range_weaken [OF b, of "100 + 1 / 10"]
      in_range_weaken [OF c, of "100 + 1 / 10"]
    by (simp add: row_in_bounds_def scored_row_def Let_def window_base.defs)
qed

lemma computeWindowRows_length:
  "length (computeWindowRows M rows byCode w) = length (List.map_filter (window_row_of M byCode w) rows)"
  by (simp add: computeWindowRows_def Let_def)

lemma computeWindowRows_small: "length (computeWindowRows M rows byCode w) \<le> length rows"
  unfolding computeWindowRows_length by (rule length_map_filter_le)

lemma computeWindowRows_nth:
  assumes "i < length (computeWindowRows M rows byCode w)"
  obtains s g p f where "computeWindowRows M rows byCode w ! i = scored_row (List.map_filter (window_row_of M byCode w) rows ! i) s g p f"
    "length rows \<le> 2 ^ 38 \<Longrightarrow> percentage s \<and> percentage g \<and> percentage p \<and> percentage f"
proof -
  define base where "base = List.map_filter (window_row_of M byCode w) rows"
  have i: "i < length base" using assms by (simp add: computeWindowRows_length base_def)
  have len: "length base \<le> length rows" unfolding base_def by (rule length_map_filter_le)
  show thesis
    by (rule that [of "midrankPercentiles (map (\<lambda>row. Some (wr_sizeKusd row)) base) ! i" "midrankPercentiles (map wr_growth base) ! i"
          "midrankPercentiles (map (\<lambda>row. Some (wr_presence row)) base) ! i"
          "midrankPercentiles (map (\<lambda>row. Some (wr_foothold row)) base) ! i"])
       (use i len in \<open>auto simp: computeWindowRows_def Let_def base_def [symmetric] intro!: midrankPercentiles_range\<close>)
qed

lemma computeWindowRows_in_bounds:
  assumes "row \<in> set (computeWindowRows M rows byCode w)" "length rows \<le> 2 ^ 38"
  shows "row_in_bounds row"
proof -
  obtain i where i: "i < length (computeWindowRows M rows byCode w)" "row = computeWindowRows M rows byCode w ! i"
    using assms(1) by (auto simp: in_set_conv_nth)
  obtain s g p f where "row = scored_row (List.map_filter (window_row_of M byCode w) rows ! i) s g p f"
    "percentage s" "percentage g" "percentage p" "percentage f"
    using computeWindowRows_nth [OF i(1)] assms(2) i(2) by metis
  then show ?thesis using scored_row_in_bounds by metis
qed

lemma computeWindowRows_map:
  assumes "\<And>b s g p f. h (scored_row b s g p f) = h' b"
  shows "map h (computeWindowRows M rows byCode w) = map h' (List.map_filter (window_row_of M byCode w) rows)"
proof (rule nth_equalityI)
  show "length (map h (computeWindowRows M rows byCode w)) = length (map h' (List.map_filter (window_row_of M byCode w) rows))"
    by (simp add: computeWindowRows_length)
  fix i assume "i < length (map h (computeWindowRows M rows byCode w))"
  then have i: "i < length (computeWindowRows M rows byCode w)" by simp
  from computeWindowRows_nth [OF i] obtain s g p f where
    "computeWindowRows M rows byCode w ! i = scored_row (List.map_filter (window_row_of M byCode w) rows ! i) s g p f" by metis
  with i show "map h (computeWindowRows M rows byCode w) ! i = map h' (List.map_filter (window_row_of M byCode w) rows) ! i"
    by (simp add: assms computeWindowRows_length)
qed

subsection \<open>Ranked rows\<close>

lemma display_row_fields [simp]:
  "wr_product (display_row r) = wr_product r" "wr_market (display_row r) = wr_market r"
  "wr_observedYears (display_row r) = wr_observedYears r" "wr_rowKey (display_row r) = wr_rowKey r"
  "wr_priorityRaw (display_row r) = wr_priorityRaw r" "wr_attractivenessRaw (display_row r) = wr_attractivenessRaw r"
  "wr_fitRaw (display_row r) = wr_fitRaw r" "wr_sizePct (display_row r) = wr_sizePct r"
  "wr_growthPct (display_row r) = wr_growthPct r" "wr_presencePct (display_row r) = wr_presencePct r"
  "wr_footholdPct (display_row r) = wr_footholdPct r"
  "kd_priorityDisplay (display_row r) = roundHalfUp (wr_priorityRaw r)"
  "kd_attractivenessDisplay (display_row r) = roundHalfUp (wr_attractivenessRaw r)"
  "kd_fitDisplay (display_row r) = roundHalfUp (wr_fitRaw r)"
  by (simp_all add: display_row_def window_row.defs)

lemma rankRows_map:
  assumes "\<And>c r t q. h (c\<lparr>kd_competitionRank := r, kd_competitionRankTieSize := t, kd_rankPercentile := q\<rparr>) = h c"
  shows "map h (rankRows collate rows) = map h (js_sort (compareCanonical collate) (map display_row rows))"
  unfolding rankRows_def using assms by (rule competition.loop_keeps)

lemma rankRows_mset:
  assumes "\<And>c r t q. h (c\<lparr>kd_competitionRank := r, kd_competitionRankTieSize := t, kd_rankPercentile := q\<rparr>) = h c"
  shows "mset (map h (rankRows collate rows)) = mset (map (\<lambda>r. h (display_row r)) rows)"
  unfolding rankRows_map [OF assms] by (simp add: multiset.map_comp comp_def)

definition displays :: "'a ranked_row_scheme \<Rightarrow> bool" where
  "displays row \<longleftrightarrow> displayed_upto 100 (kd_priorityDisplay row) \<and> displayed_upto 100 (kd_attractivenessDisplay row) \<and>
     displayed_upto 100 (kd_fitDisplay row) \<and> row_in_bounds row"

lemma display_row_displays: "row_in_bounds r \<Longrightarrow> displays (display_row r)"
  using roundHalfUp_displayed [of 100] by (auto simp: displays_def row_in_bounds_def)

lemma rankRows_displays:
  assumes "\<forall>r \<in> set rows. row_in_bounds r" "c \<in> set (rankRows collate rows)"
  shows "displays c"
proof -
  let ?h = "\<lambda>c::ranked_row. displays c"
  have "?h c \<in> set (map ?h (rankRows collate rows))" using assms(2) by simp
  also have "set (map ?h (rankRows collate rows)) = set (map (\<lambda>r. ?h (display_row r)) rows)"
    by (rule mset_eq_setD, rule rankRows_mset) (simp add: displays_def row_in_bounds_def)
  finally show ?thesis using assms(1) display_row_displays by auto
qed

subsection \<open>The eligible rows\<close>

definition observed_in :: "int \<Rightarrow> int \<Rightarrow> opportunity_market \<Rightarrow> int list" where
  "observed_in start stop m = filter (\<lambda>y. y \<in> oy_year ` set (om_marketYears m)) (yearsBetween start stop)"

definition observed_markets :: "int \<Rightarrow> int \<Rightarrow> opportunity_market list \<Rightarrow> opportunity_market list" where
  "observed_markets start stop ms = filter (\<lambda>m. observed_in start stop m \<noteq> []) ms"

lemma put_market_years_dom:
  "efold put_market_year rows acc = Inr byYear \<Longrightarrow> dom byYear = dom acc \<union> oy_year ` set rows"
proof (induction rows arbitrary: acc)
  case (Cons row rows)
  then obtain acc' where a: "put_market_year row acc = Inr acc'" "efold put_market_year rows acc' = Inr byYear"
    by (auto simp: ebind_Inr_iff)
  have "dom acc' = insert (oy_year row) (dom acc)" using a(1) by (auto simp: put_market_year_def ebind_Inr_iff)
  with Cons.IH [OF a(2)] show ?case by simp
qed simp

lemma row_of_market_facts:
  assumes "row_of_market m = Inr row"
  shows "re_product row = om_product m" "re_market row = om_market m"
    "re_rowKey row = opportunity_row_key (om_product m) (om_market m)"
    "re_yearValues row y \<noteq> None \<longleftrightarrow> y \<in> oy_year ` set (om_marketYears m)"
proof -
  obtain byYear where b: "efold put_market_year (om_marketYears m) Map.empty = Inr byYear"
    and r: "row = \<lparr>re_rowKey = opportunity_row_key (om_product m) (om_market m), re_product = om_product m,
          re_market = om_market m, re_yearValues = byYear\<rparr>"
    using assms by (auto simp: row_of_market_def ebind_Inr_iff)
  show "re_product row = om_product m" "re_market row = om_market m"
    "re_rowKey row = opportunity_row_key (om_product m) (om_market m)" by (simp_all add: r)
  show "re_yearValues row y \<noteq> None \<longleftrightarrow> y \<in> oy_year ` set (om_marketYears m)"
    using put_market_years_dom [OF b] by (simp add: r domIff [symmetric] del: not_None_eq)
qed

lemma window_row_of_market:
  assumes "row_of_market m = Inr row"
  shows "map_option (\<lambda>b. (wr_rowKey b, wr_product b, wr_market b, wr_observedYears b)) (window_row_of M byCode (start, stop) row) =
    (if observed_in start stop m = [] then None
     else Some (opportunity_row_key (om_product m) (om_market m), om_product m, om_market m, observed_in start stop m))"
proof -
  have "filter (\<lambda>year. re_yearValues row year \<noteq> None) (yearsBetween start stop) = observed_in start stop m"
    unfolding observed_in_def by (rule filter_cong [OF refl]) (rule row_of_market_facts(4) [OF assms])
  then show ?thesis
    by (simp add: window_row_of_def Let_def row_of_market_facts(1-3) [OF assms] del: not_None_eq)
qed

lemma window_rows_of_markets:
  assumes "emap row_of_market ms = Inr rows"
  shows "map (\<lambda>b. (wr_rowKey b, wr_product b, wr_market b, wr_observedYears b))
      (List.map_filter (window_row_of M byCode (start, stop)) rows) =
    map (\<lambda>m. (opportunity_row_key (om_product m) (om_market m), om_product m, om_market m, observed_in start stop m))
      (observed_markets start stop ms)"
  using assms
proof (induction ms arbitrary: rows)
  case (Cons m ms)
  then obtain row rows' where r: "row_of_market m = Inr row" "emap row_of_market ms = Inr rows'" "rows = row # rows'"
    by (auto simp: ebind_Inr_iff)
  from window_row_of_market [OF r(1), of M byCode start stop] Cons.IH [OF r(2)]
  show ?case by (auto simp: r(3) observed_markets_def List.map_filter_simps split: if_splits option.splits)
qed (simp add: observed_markets_def List.map_filter_simps)

lemma scored_row_fields:
  "wr_rowKey (scored_row b s g p f) = wr_rowKey b" "wr_product (scored_row b s g p f) = wr_product b"
  "wr_market (scored_row b s g p f) = wr_market b" "wr_observedYears (scored_row b s g p f) = wr_observedYears b"
  by (simp_all add: scored_row_def Let_def window_base.defs)

lemma ranked_rows_of_markets:
  assumes "emap row_of_market ms = Inr rows"
  shows "mset (map (\<lambda>r. (wr_rowKey r, wr_product r, wr_market r, wr_observedYears r))
      (rankRows collate (computeWindowRows M rows byCode (start, stop)))) =
    mset (map (\<lambda>m. (opportunity_row_key (om_product m) (om_market m), om_product m, om_market m, observed_in start stop m))
      (observed_markets start stop ms))"
proof -
  let ?h = "\<lambda>r::ranked_row. (wr_rowKey r, wr_product r, wr_market r, wr_observedYears r)"
  have "mset (map ?h (rankRows collate (computeWindowRows M rows byCode (start, stop)))) =
      mset (map (\<lambda>r. ?h (display_row r)) (computeWindowRows M rows byCode (start, stop)))"
    by (rule rankRows_mset) simp
  also have "map (\<lambda>r. ?h (display_row r)) (computeWindowRows M rows byCode (start, stop)) =
      map (\<lambda>b. (wr_rowKey b, wr_product b, wr_market b, wr_observedYears b))
        (List.map_filter (window_row_of M byCode (start, stop)) rows)"
    by (rule computeWindowRows_map) (simp add: scored_row_fields)
  also note window_rows_of_markets [OF assms]
  finally show ?thesis .
qed

lemma toCandidate_fields:
  "ic_product (toCandidate e w w3 w10 p3 p10 pr r) = wr_product r" "ic_market (toCandidate e w w3 w10 p3 p10 pr r) = wr_market r"
  "ic_observedMarketYears (toCandidate e w w3 w10 p3 p10 pr r) = wr_observedYears r"
  "ic_missingMarketYears (toCandidate e w w3 w10 p3 p10 pr r) =
     filter (\<lambda>year. year \<notin> set (wr_observedYears r)) (yearsBetween (fst w) (snd w))"
  "ax_display (ic_investigationPriority (toCandidate e w w3 w10 p3 p10 pr r)) = kd_priorityDisplay r"
  "ax_display (ic_marketAttractiveness (toCandidate e w w3 w10 p3 p10 pr r)) = kd_attractivenessDisplay r"
  "ax_display (ic_exporterFit (toCandidate e w w3 w10 p3 p10 pr r)) = kd_fitDisplay r"
  "ic_competitionRank (toCandidate e w w3 w10 p3 p10 pr r) = kd_competitionRank r"
  "ic_competitionRankTieSize (toCandidate e w w3 w10 p3 p10 pr r) = kd_competitionRankTieSize r"
  "on_percentileDisplay (ic_marketSize (toCandidate e w w3 w10 p3 p10 pr r)) = roundHalfUp (wr_sizePct r)"
  "on_percentileDisplay (ic_marketGrowth (toCandidate e w w3 w10 p3 p10 pr r)) = roundHalfUp (wr_growthPct r)"
  "on_percentileDisplay (ic_exporterProductPresence (toCandidate e w w3 w10 p3 p10 pr r)) = roundHalfUp (wr_presencePct r)"
  "on_percentileDisplay (ic_recordedFoothold (toCandidate e w w3 w10 p3 p10 pr r)) = roundHalfUp (wr_footholdPct r)"
  "on_percentileBasisPoints (ic_marketSize (toCandidate e w w3 w10 p3 p10 pr r)) = roundHalfUp (js_times (wr_sizePct r) (Finite 100))"
  "on_percentileBasisPoints (ic_marketGrowth (toCandidate e w w3 w10 p3 p10 pr r)) = roundHalfUp (js_times (wr_growthPct r) (Finite 100))"
  "on_percentileBasisPoints (ic_exporterProductPresence (toCandidate e w w3 w10 p3 p10 pr r)) =
     roundHalfUp (js_times (wr_presencePct r) (Finite 100))"
  "on_percentileBasisPoints (ic_recordedFoothold (toCandidate e w w3 w10 p3 p10 pr r)) =
     roundHalfUp (js_times (wr_footholdPct r) (Finite 100))"
  "ic_releaseRevision (toCandidate e w w3 w10 p3 p10 pr r) = buildReleaseRevision r pr"
  unfolding toCandidate_def Let_def investigation_candidate.select_convs component_of_def opportunity_component.select_convs
    opportunity_axis.select_convs by (rule refl)+

text \<open>C11: the cohort holds exactly the eligible pairs: every known product with every market other than the exporter
  that has a row in the five-year window, as often as the evidence delivers it, with its observed years in order and
  the rest of the window as its missing years.\<close>

theorem cohort_complete:
  assumes "computeOpportunityCohort M collate inp = Inr co" "cutoff = rel_finalizedCutoffYear (oi_release inp)"
  shows "mset (map (\<lambda>c. (ic_product c, ic_market c, ic_observedMarketYears c)) (co_candidates co)) =
      mset (map (\<lambda>m. (om_product m, om_market m, observed_in (cutoff - 4) cutoff m))
        (observed_markets (cutoff - 4) cutoff (eligible_markets inp))) \<and>
    (\<forall>c \<in> set (co_candidates co). set (ic_missingMarketYears c) = {cutoff - 4..cutoff} - set (ic_observedMarketYears c))"
proof -
  obtain byCode rows previous p3 p10 where rows: "emap row_of_market (eligible_markets inp) = Inr rows"
    and co: "co_candidates co = map (toCandidate (oi_exporter inp) (cutoff - 4, cutoff) (cutoff - 2, cutoff) (cutoff - 9, cutoff)
       p3 p10 previous) (rankRows collate (computeWindowRows M rows byCode (cutoff - 4, cutoff)))"
    using computeCohort_facts [OF assms(1)] unfolding assms(2) [symmetric] by metis
  have "map (\<lambda>c. (ic_product c, ic_market c, ic_observedMarketYears c)) (co_candidates co) =
      map snd (map (\<lambda>r. (wr_rowKey r, wr_product r, wr_market r, wr_observedYears r))
        (rankRows collate (computeWindowRows M rows byCode (cutoff - 4, cutoff))))"
    by (simp add: co toCandidate_fields)
  moreover note arg_cong [OF ranked_rows_of_markets [OF rows, of collate M byCode "cutoff - 4" cutoff], of "image_mset snd"]
  ultimately have "mset (map (\<lambda>c. (ic_product c, ic_market c, ic_observedMarketYears c)) (co_candidates co)) =
      mset (map (\<lambda>m. (om_product m, om_market m, observed_in (cutoff - 4) cutoff m))
        (observed_markets (cutoff - 4) cutoff (eligible_markets inp)))"
    by (simp add: multiset.map_comp comp_def)
  moreover have "set (ic_missingMarketYears c) = {cutoff - 4..cutoff} - set (ic_observedMarketYears c)"
    if "c \<in> set (co_candidates co)" for c
    using that by (auto simp: co toCandidate_fields yearsBetween_set)
  ultimately show ?thesis by blast
qed

subsection \<open>Bounds, ranks and order\<close>

definition component_in_bounds :: "opportunity_component \<Rightarrow> bool" where
  "component_in_bounds n \<longleftrightarrow> displayed_upto 100 (on_percentileDisplay n) \<and> displayed_upto 10000 (on_percentileBasisPoints n)"

lemma percentage_display:
  assumes "percentage p"
  shows "displayed_upto 100 (roundHalfUp p)" "displayed_upto 10000 (roundHalfUp (js_times p (Finite 100)))"
proof -
  show "displayed_upto 100 (roundHalfUp p)"
    using roundHalfUp_displayed [of 100 p] in_range_weaken [OF assms] by simp
  obtain x where x: "p = Finite x" "0 \<le> x" "x \<le> 100" using assms by (auto simp: in_range_def)
  then have "of_int 0 \<le> x * 100" "x * 100 \<le> of_int 10000" by simp_all
  from in_range_to_number [OF this] have "in_range 0 10000 (js_times p (Finite 100))" by (simp add: x(1))
  then show "displayed_upto 10000 (roundHalfUp (js_times p (Finite 100)))"
    using roundHalfUp_displayed [of 10000] in_range_weaken by simp
qed

lemma opportunity_deducted_nonneg:
  "0 \<le> foldl (\<lambda>t d. t + snd d) (0::int) []"
  "0 \<le> foldl (\<lambda>t d. t + snd d) (0::int) ds \<Longrightarrow> 0 \<le> foldl (\<lambda>t d. t + snd d) 0 (opportunity_addDeduction code points ds)"
  by (simp_all add: opportunity_addDeduction_def)

lemma opportunity_confidence_bounds:
  "0 \<le> of_score (opportunity_computeConfidence missing obs cutoff a b c d e f)"
  "of_score (opportunity_computeConfidence missing obs cutoff a b c d e f) \<le> (if length obs \<le> 2 then 40 else 100)"
  unfolding opportunity_computeConfidence_def Let_def opportunity_confidence.select_convs
  by (rule capped_bounds; intro opportunity_deducted_nonneg)+

lemma toCandidate_confidence:
  "\<exists>a b c d e' f. ic_confidence (toCandidate e w w3 w10 p3 p10 pr r) =
     opportunity_computeConfidence (ic_missingMarketYears (toCandidate e w w3 w10 p3 p10 pr r)) (wr_observedYears r) (snd w) a b c d e' f"
  unfolding toCandidate_def Let_def investigation_candidate.select_convs by blast

text \<open>C13: every displayed priority, attractiveness, fit and component percentile is a whole number between 0 and 100,
  every percentile in basis points one between 0 and 10000, although the weights are rounded and the weighted sums
  can exceed 100 before rounding; the confidence is an integer between 0 and 100, at most 40 after at most two observed
  years.\<close>

theorem cohort_scores_bounded:
  assumes "computeOpportunityCohort M collate inp = Inr co" "length (oi_markets inp) < 2 ^ 32" "c \<in> set (co_candidates co)"
  shows "displayed_upto 100 (ax_display (ic_investigationPriority c)) \<and>
    displayed_upto 100 (ax_display (ic_marketAttractiveness c)) \<and> displayed_upto 100 (ax_display (ic_exporterFit c)) \<and>
    component_in_bounds (ic_marketSize c) \<and> component_in_bounds (ic_marketGrowth c) \<and>
    component_in_bounds (ic_exporterProductPresence c) \<and> component_in_bounds (ic_recordedFoothold c) \<and>
    0 \<le> of_score (ic_confidence c) \<and> of_score (ic_confidence c) \<le> (if length (ic_observedMarketYears c) \<le> 2 then 40 else 100)"
proof -
  obtain byCode rows w w3 w10 previous p3 p10 where rows: "emap row_of_market (eligible_markets inp) = Inr rows"
    and co: "co_candidates co = map (toCandidate (oi_exporter inp) w w3 w10 p3 p10 previous)
      (rankRows collate (computeWindowRows M rows byCode w))"
    using computeCohort_facts [OF assms(1)] by metis
  obtain r where r: "r \<in> set (rankRows collate (computeWindowRows M rows byCode w))"
    "c = toCandidate (oi_exporter inp) w w3 w10 p3 p10 previous r" using assms(3) co by auto
  have "length rows \<le> length (oi_markets inp)"
    using emap_length [OF rows] by (simp add: eligible_markets_def)
  then have "length rows \<le> 2 ^ 38" using assms(2) by simp
  then have d: "displays r" using rankRows_displays [OF _ r(1)] computeWindowRows_in_bounds by blast
  obtain a b x y e f where conf: "ic_confidence c =
      opportunity_computeConfidence (ic_missingMarketYears c) (wr_observedYears r) (snd w) a b x y e f"
    using toCandidate_confidence r(2) by metis
  have obs: "ic_observedMarketYears c = wr_observedYears r" by (simp only: r(2) toCandidate_fields)
  show ?thesis
    using d opportunity_confidence_bounds unfolding conf obs
    unfolding r(2) toCandidate_fields component_in_bounds_def displays_def row_in_bounds_def
    by (intro conjI percentage_display) auto
qed

text \<open>The canonical order: falling priority, attractiveness and fit, then the code of the product and the number of
  the market. The collation is only used on codes of six digits, which it orders by their digits.\<close>

definition hs_code :: "string \<Rightarrow> bool" where
  "hs_code c \<longleftrightarrow> list_all is_digit c \<and> length c = 6"

definition collates_codes :: "collation \<Rightarrow> bool" where
  "collates_codes collate \<longleftrightarrow> (\<forall>a b. hs_code a \<and> hs_code b \<longrightarrow>
     collate a b \<noteq> NaN \<and> (js_less (Finite 0) (collate a b) \<longleftrightarrow> undec b < undec a) \<and> (collate a b = Finite 0 \<longleftrightarrow> undec a = undec b))"

type_synonym order_key = "nat \<times> nat \<times> nat \<times> nat \<times> nat"

definition whole :: "js_number \<Rightarrow> nat" where
  "whole n = nat \<lfloor>score_value n\<rfloor>"

definition key_of :: "js_number \<Rightarrow> js_number \<Rightarrow> js_number \<Rightarrow> string \<Rightarrow> string \<Rightarrow> order_key" where
  "key_of priority attractiveness fit product market =
     (100 - whole priority, 100 - whole attractiveness, 100 - whole fit, undec product, undec market)"

definition row_order :: "'a ranked_row_scheme \<Rightarrow> order_key" where
  "row_order r = key_of (kd_priorityDisplay r) (kd_attractivenessDisplay r) (kd_fitDisplay r)
     (pr_code (wr_product r)) (ec_code (wr_market r))"

definition candidate_order :: "investigation_candidate \<Rightarrow> order_key" where
  "candidate_order c = key_of (ax_display (ic_investigationPriority c)) (ax_display (ic_marketAttractiveness c))
     (ax_display (ic_exporterFit c)) (pr_code (ic_product c)) (ec_code (ic_market c))"

lemma displayed_whole: "displayed_upto b n \<Longrightarrow> n = Finite (of_nat (whole n)) \<and> whole n \<le> b"
  by (auto simp: displayed_upto_def whole_def)

lemma displayed_value: "displayed_upto b n \<Longrightarrow> score_value n = of_nat (whole n) \<and> whole n \<le> b"
  by (auto simp: displayed_upto_def whole_def)

lemma js_or_step:
  assumes "displayed_upto 100 m" "displayed_upto 100 n"
  shows "js_less (Finite 0) (js_or (js_minus n m) rest) \<longleftrightarrow>
    100 - whole n < 100 - whole m \<or> (100 - whole n = 100 - whole m \<and> js_less (Finite 0) rest)"
proof -
  obtain k l where k: "m = Finite (of_nat k)" "k \<le> 100" "n = Finite (of_nat l)" "l \<le> 100"
    using assms by (auto simp: displayed_upto_def)
  have "whole m = k" "whole n = l" by (simp_all add: k whole_def)
  moreover have "js_minus n m = Finite (of_int (int l - int k))" using js_minus_scores [OF k(4,2)] by (simp add: k)
  ultimately show ?thesis using k(2,4) by (auto simp: js_or_def)
qed

lemma order_keys_less:
  assumes "displayed_upto 100 p" "displayed_upto 100 a" "displayed_upto 100 f"
    "displayed_upto 100 p'" "displayed_upto 100 a'" "displayed_upto 100 f'"
    and codes: "hs_code c" "hs_code c'" "numeric_code e" "numeric_code e'" and collate: "collates_codes collate"
  shows "js_less (Finite 0) (js_or (js_minus p' p) (js_or (js_minus a' a) (js_or (js_minus f' f)
      (js_or (collate c c') (js_minus (js_Number e) (js_Number e')))))) \<longleftrightarrow>
    key_of p' a' f' c' e' < key_of p a f c e"
proof -
  have "js_less (Finite 0) (js_minus (js_Number e) (js_Number e')) \<longleftrightarrow> undec e' < undec e"
    by (simp add: js_Number_code_minus codes)
  moreover have "collate c c' \<noteq> NaN" "js_less (Finite 0) (collate c c') \<longleftrightarrow> undec c' < undec c"
    "collate c c' = Finite 0 \<longleftrightarrow> undec c = undec c'" using collate codes by (auto simp: collates_codes_def)
  ultimately have last: "js_less (Finite 0) (js_or (collate c c') (js_minus (js_Number e) (js_Number e'))) \<longleftrightarrow>
      undec c' < undec c \<or> undec c' = undec c \<and> undec e' < undec e"
    by (auto simp: js_or_def)
  show ?thesis
    unfolding js_or_step [OF assms(1,4)] js_or_step [OF assms(2,5)] js_or_step [OF assms(3,6)] last key_of_def
    by (auto simp: less_prod_def')
qed

definition coded_markets :: "opportunity_market list \<Rightarrow> bool" where
  "coded_markets ms \<longleftrightarrow> list_all (\<lambda>m. hs_code (pr_code (om_product m)) \<and> numeric_code (ec_code (om_market m))) ms"

lemma rankRows_sorted:
  assumes "\<forall>r \<in> set rows. row_in_bounds r \<and> hs_code (pr_code (wr_product r)) \<and> numeric_code (ec_code (wr_market r))"
    "collates_codes collate"
  shows "sorted (map row_order (rankRows collate rows))"
proof -
  have "sorted (map row_order (js_sort (compareCanonical collate) (map display_row rows)))"
  proof (rule js_sort_sorted)
    fix x y assume "x \<in> set (map display_row rows)" "y \<in> set (map display_row rows)"
    then have "displays x" "displays y" "hs_code (pr_code (wr_product x))" "hs_code (pr_code (wr_product y))"
      "numeric_code (ec_code (wr_market x))" "numeric_code (ec_code (wr_market y))"
      using assms(1) display_row_displays by auto
    then have "js_less (Finite 0) (compareCanonical collate x y) \<longleftrightarrow> row_order y < row_order x"
      unfolding compareCanonical_def row_order_def displays_def using assms(2) by (intro order_keys_less) auto
    then show "if js_less (Finite 0) (compareCanonical collate x y) then row_order y \<le> row_order x else row_order x \<le> row_order y"
      by (simp add: not_less less_imp_le)
  qed
  moreover have "map row_order (rankRows collate rows) = map row_order (js_sort (compareCanonical collate) (map display_row rows))"
    by (rule rankRows_map) (simp add: row_order_def)
  ultimately show ?thesis by simp
qed

text \<open>The displayed priorities alone decide the ranks, whatever the collation.\<close>

lemma rankRows_falling:
  assumes "\<forall>r \<in> set rows. row_in_bounds r"
  shows "sorted (map (\<lambda>c. - score_value (kd_priorityDisplay c)) (js_sort (compareCanonical collate) (map display_row rows)))"
proof (rule js_sort_sorted)
  fix x y assume "x \<in> set (map display_row rows)" "y \<in> set (map display_row rows)"
  then have "displays x" "displays y" using assms display_row_displays by auto
  then have d: "displayed_upto 100 (kd_priorityDisplay x)" "displayed_upto 100 (kd_priorityDisplay y)" by (simp_all add: displays_def)
  have v: "score_value (kd_priorityDisplay z) = of_nat (whole (kd_priorityDisplay z))" "whole (kd_priorityDisplay z) \<le> 100"
    if "displayed_upto 100 (kd_priorityDisplay z)" for z :: ranked_row
    using displayed_value [OF that] by simp_all
  let ?k = "whole (kd_priorityDisplay x)" and ?l = "whole (kd_priorityDisplay y)"
  have less: "js_less (Finite 0) (compareCanonical collate x y) \<Longrightarrow> ?k \<le> ?l" "\<not> js_less (Finite 0) (compareCanonical collate x y) \<Longrightarrow> ?l \<le> ?k"
    using v(2) [OF d(1)] v(2) [OF d(2)] unfolding compareCanonical_def js_or_step [OF d] by linarith+
  show "if js_less (Finite 0) (compareCanonical collate x y) then - score_value (kd_priorityDisplay y) \<le> - score_value (kd_priorityDisplay x)
      else - score_value (kd_priorityDisplay x) \<le> - score_value (kd_priorityDisplay y)"
    unfolding v(1) [OF d(1)] v(1) [OF d(2)] using less by (simp only: neg_le_iff_le of_nat_le_iff split: if_split) blast
qed

lemma rankRows_ranks:
  assumes "\<forall>r \<in> set rows. row_in_bounds r" "c \<in> set (rankRows collate rows)"
  shows "kd_competitionRank c = 1 + higher_scores kd_priorityDisplay (rankRows collate rows) (kd_priorityDisplay c)"
    "kd_competitionRankTieSize c = equal_scores kd_priorityDisplay (rankRows collate rows) (kd_priorityDisplay c)"
proof -
  let ?xs = "js_sort (compareCanonical collate) (map display_row rows)"
  have fin: "\<forall>x \<in> set ?xs. \<exists>k. kd_priorityDisplay x = Finite k"
  proof
    fix x assume "x \<in> set ?xs"
    then have "displays x" using assms(1) display_row_displays by auto
    then show "\<exists>k. kd_priorityDisplay x = Finite k" unfolding displays_def displayed_upto_def by blast
  qed
  note competition.ranking [OF fin rankRows_falling [OF assms(1)], of c "length rows"]
  with assms(2) show "kd_competitionRank c = 1 + higher_scores kd_priorityDisplay (rankRows collate rows) (kd_priorityDisplay c)"
    "kd_competitionRankTieSize c = equal_scores kd_priorityDisplay (rankRows collate rows) (kd_priorityDisplay c)"
    by (simp_all add: rankRows_def)
qed

lemma cohort_rows:
  assumes "computeOpportunityCohort M collate inp = Inr co" "cutoff = rel_finalizedCutoffYear (oi_release inp)"
    "length (oi_markets inp) < 2 ^ 32"
  obtains rows p3 p10 previous where
    "co_candidates co = map (toCandidate (oi_exporter inp) (cutoff - 4, cutoff) (cutoff - 2, cutoff) (cutoff - 9, cutoff) p3 p10 previous)
       (rankRows collate rows)"
    "\<forall>r \<in> set rows. row_in_bounds r"
    "mset (map (\<lambda>r. (wr_product r, wr_market r)) (rankRows collate rows)) =
       mset (map (\<lambda>m. (om_product m, om_market m)) (observed_markets (cutoff - 4) cutoff (eligible_markets inp)))"
    "(\<lambda>r. (wr_product r, wr_market r)) ` set rows =
       (\<lambda>m. (om_product m, om_market m)) ` set (observed_markets (cutoff - 4) cutoff (eligible_markets inp))"
    "buildPreviousReleaseRanking M collate (oi_previousRelease inp) = Inr previous"
proof -
  obtain byCode ev previous p3 p10 where ev: "emap row_of_market (eligible_markets inp) = Inr ev"
    "buildPreviousReleaseRanking M collate (oi_previousRelease inp) = Inr previous"
    and co: "co_candidates co = map (toCandidate (oi_exporter inp) (cutoff - 4, cutoff) (cutoff - 2, cutoff) (cutoff - 9, cutoff)
       p3 p10 previous) (rankRows collate (computeWindowRows M ev byCode (cutoff - 4, cutoff)))"
    using computeCohort_facts [OF assms(1)] unfolding assms(2) [symmetric] by metis
  let ?rows = "computeWindowRows M ev byCode (cutoff - 4, cutoff)"
  have "length ev \<le> length (oi_markets inp)" using emap_length [OF ev(1)] by (simp add: eligible_markets_def)
  then have "length ev \<le> 2 ^ 38" using assms(3) by simp
  then have bounds: "\<forall>r \<in> set ?rows. row_in_bounds r" using computeWindowRows_in_bounds by blast
  have m: "mset (map (\<lambda>r. (wr_product r, wr_market r)) (rankRows collate ?rows)) =
      mset (map (\<lambda>m. (om_product m, om_market m)) (observed_markets (cutoff - 4) cutoff (eligible_markets inp)))"
    using arg_cong [OF ranked_rows_of_markets [OF ev(1), of collate M byCode "cutoff - 4" cutoff],
        of "image_mset (\<lambda>(k, p, e, y). (p, e))"] by (simp add: multiset.map_comp comp_def)
  have same: "mset (map (\<lambda>r. (wr_product r, wr_market r)) (rankRows collate ?rows)) = mset (map (\<lambda>r. (wr_product r, wr_market r)) ?rows)"
    by (subst rankRows_mset) simp_all
  have known: "(\<lambda>r. (wr_product r, wr_market r)) ` set ?rows =
      (\<lambda>m. (om_product m, om_market m)) ` set (observed_markets (cutoff - 4) cutoff (eligible_markets inp))"
    using mset_eq_setD [OF trans [OF same [symmetric] m]] unfolding set_map .
  show thesis by (rule that [OF co bounds m known ev(2)])
qed

lemma distinct_mapD: "distinct (map f xs) \<Longrightarrow> distinct xs"
  by (simp add: distinct_map)

definition pair_numbers :: "opportunity_market \<Rightarrow> nat \<times> nat" where
  "pair_numbers m = (undec (pr_code (om_product m)), undec (ec_code (om_market m)))"

text \<open>C10: the candidates are listed strictly in the canonical order: falling displayed priority, attractiveness and fit,
  then rising product code and market number. The rank of a candidate is one more than the number of candidates with
  a higher displayed priority, its tie size the number with the same. The hypotheses: product codes of six digits,
  numeric economy codes, each pair delivered once, and a collation that orders digits.\<close>

theorem cohort_in_canonical_order:
  assumes "computeOpportunityCohort M collate inp = Inr co" "length (oi_markets inp) < 2 ^ 32"
    and "coded_markets (eligible_markets inp)" "distinct (map pair_numbers (eligible_markets inp))" "collates_codes collate"
  shows "sorted_wrt (<) (map candidate_order (co_candidates co)) \<and>
    (\<forall>c \<in> set (co_candidates co). let p = (\<lambda>d. ax_display (ic_investigationPriority d)) in
       ic_competitionRank c = 1 + higher_scores p (co_candidates co) (p c) \<and>
       ic_competitionRankTieSize c = equal_scores p (co_candidates co) (p c))"
proof -
  define cutoff where "cutoff = rel_finalizedCutoffYear (oi_release inp)"
  obtain rows p3 p10 previous where co: "co_candidates co =
      map (toCandidate (oi_exporter inp) (cutoff - 4, cutoff) (cutoff - 2, cutoff) (cutoff - 9, cutoff) p3 p10 previous)
        (rankRows collate rows)"
    and bounds: "\<forall>r \<in> set rows. row_in_bounds r"
    and pairs: "mset (map (\<lambda>r. (wr_product r, wr_market r)) (rankRows collate rows)) =
       mset (map (\<lambda>m. (om_product m, om_market m)) (observed_markets (cutoff - 4) cutoff (eligible_markets inp)))"
    and known: "(\<lambda>r. (wr_product r, wr_market r)) ` set rows =
       (\<lambda>m. (om_product m, om_market m)) ` set (observed_markets (cutoff - 4) cutoff (eligible_markets inp))"
    by (rule cohort_rows [OF assms(1) cutoff_def assms(2)])
  have "hs_code (pr_code (wr_product r)) \<and> numeric_code (ec_code (wr_market r))" if "r \<in> set rows" for r
  proof -
    have "(wr_product r, wr_market r) \<in> (\<lambda>m. (om_product m, om_market m)) ` set (eligible_markets inp)"
      using that known by (force simp: observed_markets_def)
    then show ?thesis using assms(3) by (auto simp: coded_markets_def list_all_iff)
  qed
  then have "sorted (map row_order (rankRows collate rows))" using bounds assms(5) by (intro rankRows_sorted) auto
  moreover have same: "map candidate_order (co_candidates co) = map row_order (rankRows collate rows)"
    by (simp add: co candidate_order_def row_order_def toCandidate_fields)
  moreover have "distinct (map candidate_order (co_candidates co))"
  proof -
    let ?n = "\<lambda>(p, e). (undec (pr_code p), undec (ec_code e))"
    have pairs_once: "distinct (map pair_numbers (observed_markets (cutoff - 4) cutoff (eligible_markets inp)))"
      unfolding observed_markets_def using assms(4) by (rule distinct_map_filter)
    have numbers: "mset (map (\<lambda>r. ?n (wr_product r, wr_market r)) (rankRows collate rows)) =
        mset (map pair_numbers (observed_markets (cutoff - 4) cutoff (eligible_markets inp)))"
      using arg_cong [OF pairs, of "image_mset ?n"] by (simp add: multiset.map_comp comp_def pair_numbers_def [abs_def])
    have "distinct (map (\<lambda>r. ?n (wr_product r, wr_market r)) (rankRows collate rows))"
      using pairs_once mset_eq_imp_distinct_iff [OF numbers] by (simp only:)
    moreover have "map (\<lambda>r. ?n (wr_product r, wr_market r)) (rankRows collate rows) =
        map (\<lambda>k. (fst (snd (snd (snd k))), snd (snd (snd (snd k))))) (map row_order (rankRows collate rows))"
      by (simp add: row_order_def key_of_def)
    ultimately have "distinct (map row_order (rankRows collate rows))" using distinct_mapD by (simp only:)
    then show ?thesis by (simp only: same)
  qed
  ultimately have "sorted_wrt (<) (map candidate_order (co_candidates co))" by (simp add: strict_sorted_iff)
  moreover have "let p = (\<lambda>d. ax_display (ic_investigationPriority d)) in
       ic_competitionRank c = 1 + higher_scores p (co_candidates co) (p c) \<and>
       ic_competitionRankTieSize c = equal_scores p (co_candidates co) (p c)" if "c \<in> set (co_candidates co)" for c
  proof -
    have "c \<in> toCandidate (oi_exporter inp) (cutoff - 4, cutoff) (cutoff - 2, cutoff) (cutoff - 9, cutoff) p3 p10 previous `
        set (rankRows collate rows)" using that co by simp
    then obtain r where r: "r \<in> set (rankRows collate rows)"
      "c = toCandidate (oi_exporter inp) (cutoff - 4, cutoff) (cutoff - 2, cutoff) (cutoff - 9, cutoff) p3 p10 previous r"
      by blast
    have "map (\<lambda>d. ax_display (ic_investigationPriority d)) (co_candidates co) = map kd_priorityDisplay (rankRows collate rows)"
      by (simp add: co toCandidate_fields)
    from score_counts_map [OF this] rankRows_ranks [OF bounds r(1)] show ?thesis
      by (simp add: r(2) toCandidate_fields Let_def)
  qed
  ultimately show ?thesis by blast
qed

text \<open>C40: the ranking of the previous release holds every pair of its known products that has a row in its own five-year
  window. It is a function of that release alone: the exporter's own market is ranked with the others, although the
  current cohort leaves it out.\<close>

theorem previous_ranking_complete:
  assumes "buildPreviousReleaseRanking M collate (Some p) = Inr previous" "cutoff = oc_finalizedCutoffYear p"
  shows "\<exists>ranking. previous = Some ranking \<and>
    dom ranking = (\<lambda>m. opportunity_row_key (om_product m) (om_market m)) ` set (observed_markets (cutoff - 4) cutoff
      (filter (\<lambda>m. pr_code (om_product m) \<in> product_codes (oc_products p)) (oc_markets p)))"
proof -
  obtain byCode rows where b: "buildProductAggregates M (oc_products p) = Inr byCode"
    "buildRowsForComparison (oc_markets p) byCode = Inr rows"
    and previous: "previous = Some (from_entries (map (\<lambda>row. (wr_rowKey row, (wr_priorityRaw row, kd_rankPercentile row)))
      (rankRows collate (computeWindowRows M rows byCode (cutoff - 4, cutoff)))))"
    using assms(1) by (auto simp: buildPreviousReleaseRanking_def ebind_Inr_iff Let_def assms(2))
  have rows: "emap row_of_market (filter (\<lambda>m. pr_code (om_product m) \<in> product_codes (oc_products p)) (oc_markets p)) = Inr rows"
    using b(2) unfolding buildRowsForComparison_known [OF buildProductAggregates_dom [OF b(1)]] .
  let ?r = "rankRows collate (computeWindowRows M rows byCode (cutoff - 4, cutoff))"
  have "mset (map wr_rowKey ?r) = mset (map (\<lambda>m. opportunity_row_key (om_product m) (om_market m)) (observed_markets (cutoff - 4) cutoff
      (filter (\<lambda>m. pr_code (om_product m) \<in> product_codes (oc_products p)) (oc_markets p))))"
    using arg_cong [OF ranked_rows_of_markets [OF rows, of collate M byCode "cutoff - 4" cutoff], of "image_mset fst"]
    by (simp add: multiset.map_comp comp_def)
  from mset_eq_setD [OF this] show ?thesis
    by (simp add: previous dom_from_entries image_image)
qed

subsection \<open>A sample\<close>

definition sample_product :: "string \<Rightarrow> product_identity" where
  "sample_product code = \<lparr>pr_hsRevision = ''HS12'', pr_code = code, pr_descriptionEn = ''Product''\<rparr>"

definition sample_economy :: "string \<Rightarrow> economy_identity" where
  "sample_economy code = \<lparr>ec_code = code, ec_name = ''Economy'', ec_iso3 = None, ec_note = None\<rparr>"

definition sample_pair :: "string \<Rightarrow> string \<Rightarrow> (int \<times> string \<times> string option) list \<Rightarrow> opportunity_market" where
  "sample_pair product economy rows =
     \<lparr>om_product = sample_product product, om_market = sample_economy economy,
      om_marketYears = map (\<lambda>(y, v, b). \<lparr>oy_year = y, oy_worldValueKusd = v, oy_bilateralValueKusd = b\<rparr>) rows\<rparr>"

definition sample_release :: release_comparison where
  "sample_release =
     \<lparr>oc_finalizedCutoffYear = 2021,
      oc_products = [\<lparr>op_product = sample_product ''080440'', op_worldYearTotals = [(2021, ''5000'')],
                      op_exporterExportTotals = []\<rparr>],
      oc_markets = [sample_pair ''080440'' ''8'' [(2021, ''900'', None)], sample_pair ''080440'' ''156'' [(2021, ''7'', None)],
                    sample_pair ''220421'' ''8'' [(2021, ''7'', None)]]\<rparr>"

definition sample_cohort_inputs :: cohort_inputs where
  "sample_cohort_inputs =
     \<lparr>oi_analysisBuildId = ''build'', oi_artifact = ki_artifact sample_cms_inputs, oi_release = ki_release sample_cms_inputs,
      oi_exporter = sample_economy ''156'',
      oi_products =
        [\<lparr>op_product = sample_product ''080440'', op_worldYearTotals = [(2021, ''5000''), (2022, ''6000'')],
          op_exporterExportTotals = [(2022, ''900'')]\<rparr>,
         \<lparr>op_product = sample_product ''220421'', op_worldYearTotals = [], op_exporterExportTotals = []\<rparr>],
      oi_markets =
        [sample_pair ''220421'' ''8'' [(2020, ''20'', None)],
         sample_pair ''080440'' ''8'' [(2021, ''900'', Some ''30''), (2022, ''1000'', None)],
         sample_pair ''080440'' ''4'' [(2015, ''7'', None)],
         sample_pair ''080440'' ''156'' [(2022, ''1000'', None)],
         sample_pair ''999999'' ''8'' [(2022, ''0'', None)]],
      oi_previousRelease = Some sample_release\<rparr>"

definition sample_collation :: collation where
  "sample_collation a b = (if undec b < undec a then Finite 1 else if undec a < undec b then Finite (-1) else Finite 0)"

lemma sample_codes:
  "product_codes (oi_products sample_cohort_inputs) = {''080440'', ''220421''}"
  "product_codes (oc_products sample_release) = {''080440''}"
  by (simp_all add: product_codes_def sample_cohort_inputs_def sample_release_def sample_product_def)

lemma sample_eligible:
  "eligible_markets sample_cohort_inputs =
     [sample_pair ''220421'' ''8'' [(2020, ''20'', None)],
      sample_pair ''080440'' ''8'' [(2021, ''900'', Some ''30''), (2022, ''1000'', None)],
      sample_pair ''080440'' ''4'' [(2015, ''7'', None)]]"
  unfolding eligible_markets_def sample_codes
  by (simp add: sample_cohort_inputs_def sample_pair_def sample_product_def sample_economy_def)

lemma sample_cohort_accepted: "cohort_accepted sample_cohort_inputs"
proof -
  have "previous_accepted sample_release"
    unfolding previous_accepted_def sample_codes
    by (simp add: sample_release_def product_accepted_def readable_totals_def market_accepted_def sample_pair_def
        sample_product_def sample_texts_readable)
  moreover have "list_all product_accepted (oi_products sample_cohort_inputs)"
    by (simp add: sample_cohort_inputs_def product_accepted_def readable_totals_def sample_texts_readable)
  moreover have "oi_previousRelease sample_cohort_inputs = Some sample_release" by (simp add: sample_cohort_inputs_def)
  ultimately show ?thesis
    by (simp add: cohort_accepted_def sample_eligible market_accepted_def sample_pair_def sample_texts_readable)
qed

lemma sample_cohort_run:
  obtains co where "computeOpportunityCohort sample_math sample_collation sample_cohort_inputs = Inr co"
  using cohort_returns [of sample_math sample_collation sample_cohort_inputs] sample_cohort_accepted by (auto simp: returns_def)

lemma sample_cohort_size: "length (oi_markets sample_cohort_inputs) < 2 ^ 32"
  by (simp add: sample_cohort_inputs_def)

lemma sample_cohort_cutoff: "rel_finalizedCutoffYear (oi_release sample_cohort_inputs) = 2022"
  by (simp add: sample_cohort_inputs_def sample_cms_inputs_def)

lemma sample_observed:
  "observed_markets (2022 - 4) 2022 (eligible_markets sample_cohort_inputs) =
     [sample_pair ''220421'' ''8'' [(2020, ''20'', None)],
      sample_pair ''080440'' ''8'' [(2021, ''900'', Some ''30''), (2022, ''1000'', None)]]"
  by (simp add: sample_eligible observed_markets_def observed_in_def sample_pair_def yearsBetween_def upt_rec)

theorem cohort_complete_witness:
  "\<exists>co. computeOpportunityCohort sample_math sample_collation sample_cohort_inputs = Inr co \<and>
     mset (map (\<lambda>c. (pr_code (ic_product c), ec_code (ic_market c))) (co_candidates co)) =
       {#(''220421'', ''8''), (''080440'', ''8'')#}"
proof -
  obtain co where co: "computeOpportunityCohort sample_math sample_collation sample_cohort_inputs = Inr co"
    by (rule sample_cohort_run)
  from cohort_complete [OF co sample_cohort_cutoff [symmetric]] have
    "mset (map (\<lambda>c. (ic_product c, ic_market c, ic_observedMarketYears c)) (co_candidates co)) =
      mset (map (\<lambda>m. (om_product m, om_market m, observed_in (2022 - 4) 2022 m))
        (observed_markets (2022 - 4) 2022 (eligible_markets sample_cohort_inputs)))" by (rule conjunct1)
  from arg_cong [OF this, of "image_mset (\<lambda>(p, e, y). (pr_code p, ec_code e))"] co show ?thesis
    unfolding sample_observed by (auto simp: multiset.map_comp comp_def sample_pair_def sample_product_def sample_economy_def)
qed

lemma sample_candidate:
  assumes "computeOpportunityCohort sample_math sample_collation sample_cohort_inputs = Inr co"
  obtains c where "c \<in> set (co_candidates co)"
proof -
  obtain rows p3 p10 previous where co: "co_candidates co =
      map (toCandidate (oi_exporter sample_cohort_inputs) (2022 - 4, 2022) (2022 - 2, 2022) (2022 - 9, 2022) p3 p10 previous)
        (rankRows sample_collation rows)"
    and pairs: "mset (map (\<lambda>r. (wr_product r, wr_market r)) (rankRows sample_collation rows)) =
       mset (map (\<lambda>m. (om_product m, om_market m)) (observed_markets (2022 - 4) 2022 (eligible_markets sample_cohort_inputs)))"
    by (rule cohort_rows [OF assms sample_cohort_cutoff [symmetric] sample_cohort_size])
  have "size (mset (map (\<lambda>r. (wr_product r, wr_market r)) (rankRows sample_collation rows))) = 2"
    unfolding pairs sample_observed by simp
  then have "co_candidates co \<noteq> []" using co by auto
  then show thesis using that [of "hd (co_candidates co)"] by simp
qed

theorem cohort_scores_bounded_witness:
  "\<exists>co c. computeOpportunityCohort sample_math sample_collation sample_cohort_inputs = Inr co \<and> c \<in> set (co_candidates co) \<and>
     displayed_upto 100 (ax_display (ic_investigationPriority c))"
proof -
  obtain co where co: "computeOpportunityCohort sample_math sample_collation sample_cohort_inputs = Inr co"
    by (rule sample_cohort_run)
  obtain c where c: "c \<in> set (co_candidates co)" by (rule sample_candidate [OF co])
  from cohort_scores_bounded [OF co sample_cohort_size c] co c show ?thesis by blast
qed

theorem cohort_in_canonical_order_witness:
  "\<exists>co. computeOpportunityCohort sample_math sample_collation sample_cohort_inputs = Inr co \<and>
     sorted_wrt (<) (map candidate_order (co_candidates co))"
proof -
  obtain co where co: "computeOpportunityCohort sample_math sample_collation sample_cohort_inputs = Inr co"
    by (rule sample_cohort_run)
  have codes: "coded_markets (eligible_markets sample_cohort_inputs)"
    by (simp add: sample_eligible coded_markets_def sample_pair_def sample_product_def sample_economy_def hs_code_def
        numeric_code_def is_digit_def)
  have once: "distinct (map pair_numbers (eligible_markets sample_cohort_inputs))"
    by (simp add: sample_eligible pair_numbers_def sample_pair_def sample_product_def sample_economy_def undec_def digit_val_def)
  have "collates_codes sample_collation" by (simp add: collates_codes_def sample_collation_def)
  from cohort_in_canonical_order [OF co sample_cohort_size codes once this] co show ?thesis by blast
qed

theorem previous_ranking_complete_witness:
  "\<exists>ranking. buildPreviousReleaseRanking sample_math sample_collation (Some sample_release) = Inr (Some ranking) \<and>
     dom ranking = {''080440|8'', ''080440|156''}"
proof -
  have "returns (buildPreviousReleaseRanking sample_math sample_collation (Some sample_release))"
    using sample_cohort_accepted unfolding previous_returns by (simp add: cohort_accepted_def sample_cohort_inputs_def)
  then obtain previous where p: "buildPreviousReleaseRanking sample_math sample_collation (Some sample_release) = Inr previous"
    by (auto simp: returns_def)
  have cutoff: "2021 = oc_finalizedCutoffYear sample_release" by (simp add: sample_release_def)
  have "(\<lambda>m. opportunity_row_key (om_product m) (om_market m)) ` set (observed_markets (2021 - 4) 2021
      (filter (\<lambda>m. pr_code (om_product m) \<in> product_codes (oc_products sample_release)) (oc_markets sample_release))) =
      {''080440|8'', ''080440|156''}"
    unfolding sample_codes by (simp add: sample_release_def observed_markets_def observed_in_def sample_pair_def
        sample_product_def sample_economy_def yearsBetween_def upt_rec opportunity_row_key_def)
  with previous_ranking_complete [OF p cutoff] p show ?thesis by auto
qed

end
