(* ===== verification/Cn_Mapping.thy ===== *)
theory Cn_Mapping
  imports Evidence_Model Js_Math Unicode_Text
begin

text \<open>
  \<^verbatim>\<open>src/domain/recent-trade-momentum/cn-to-hs12-mapping.ts\<close> and \<^verbatim>\<open>eurostat-cn-hs12-evidence.ts\<close>: which products of the
  HS 2012 nomenclature can be observed in the monthly data of Eurostat, which is coded in eight-digit CN codes. The
  evidence is built from the pinned texts of an edition; the report keeps a product only if its complete preimage maps
  to it exactly. An edition year is an integer; \<^verbatim>\<open>localeCompare\<close> and SHA-256 are the parameters \<^theory_text>\<open>collate\<close> and
  \<^theory_text>\<open>sha256\<close>.
\<close>

subsection \<open>Evidence and report\<close>

datatype cn8_kind = ORDINARY | SPECIAL | CONFIDENTIAL | RESIDUAL | TOTAL

datatype correspondence_status =
  EXACT_REVIEWED | AMBIGUOUS | SPLIT | MERGED | QUALIFIED | UNMAPPED | NOT_APPLICABLE

datatype correspondence_chain = DIRECT_EXACT | MULTI_STEP_EXACT | NON_EXACT

datatype mapping_rejection =
  SPECIAL_SOURCE_CODE | MISSING_CORRESPONDENCE | NON_EXACT_CORRESPONDENCE | QUALIFIED_CORRESPONDENCE | MULTIPLE_TARGETS

datatype product_status = PRODUCT_EXACT_REVIEWED | UNSUPPORTED_PRODUCT_MAPPING

datatype mapping_error = MappingTypeError string | MappingError string

record cn8_entry =
  ce_cn8Code :: string
  ce_kind :: cn8_kind

record correspondence =
  cr_cn8Code :: string
  cr_hs12Code :: string
  cr_status :: correspondence_status
  cr_chain :: correspondence_chain
  cr_qualified :: "bool option"

record cn_edition =
  cd_cnEditionYear :: int
  cd_cnCodeListSha256 :: string
  cd_correspondenceSha256 :: string
  cd_reviewId :: string
  cd_cn8Codes :: "cn8_entry list"
  cd_correspondences :: "correspondence list"

record mapping_evidence =
  me_schemaVersion :: string
  me_mappingPolicy :: string
  me_editions :: "cn_edition list"

record row_mapping =
  rm_cnEditionYear :: int
  rm_cn8Code :: string
  rm_status :: correspondence_status
  rm_targets :: "string list"
  rm_chain :: correspondence_chain
  rm_rejectionReasons :: "mapping_rejection list"

record product_mapping =
  pm_cnEditionYear :: int
  pm_hs12Code :: string
  pm_productStatus :: product_status
  pm_acceptedCn8Codes :: "string list"
  pm_rejectedTouchingCodes :: "string list"
  pm_correspondenceSha256 :: string
  pm_reviewId :: string
  pm_usesMultiStepExactChain :: bool

record mapping_report =
  mr_rowMappings :: "row_mapping list"
  mr_productMappings :: "product_mapping list"

record across_editions =
  ae_hs12Code :: string
  ae_status :: product_status
  ae_acceptedPreimage :: "int \<rightharpoonup> string list"
  ae_rejectedTouchingCodes :: "int \<rightharpoonup> string list"
  ae_multiStep :: bool

subsection \<open>The report\<close>

definition SPECIAL_KINDS :: "cn8_kind list" where
  "SPECIAL_KINDS = [SPECIAL, CONFIDENTIAL, RESIDUAL, TOTAL]"

definition groupBy :: "('v \<Rightarrow> 'k) \<Rightarrow> 'v list \<Rightarrow> 'k \<rightharpoonup> 'v list" where
  "groupBy keyOf values = foldl (\<lambda>grouped value.
     (case grouped (keyOf value) of
        None \<Rightarrow> grouped(keyOf value \<mapsto> [value])
      | Some bucket \<Rightarrow> grouped(keyOf value \<mapsto> bucket @ [value]))) Map.empty values"

definition digits_of_length :: "nat \<Rightarrow> string \<Rightarrow> bool" where
  "digits_of_length n s = (length s = n \<and> list_all is_digit s)"

definition hex_digest :: "string \<Rightarrow> bool" where
  "hex_digest s = (length s = 64 \<and> list_all (\<lambda>c. is_digit c \<or> c \<in> set ''abcdef'') s)"

definition put_code :: "cn8_entry \<Rightarrow> string set \<Rightarrow> mapping_error + string set" where
  "put_code code codeSet =
     (if \<not> digits_of_length 8 (ce_cn8Code code) then Inl (MappingTypeError ''CN8 codes must be eight decimal digits.'')
      else if ce_cn8Code code \<in> codeSet then Inl (MappingTypeError ''CN8 code lists must be unique.'')
      else Inr (insert (ce_cn8Code code) codeSet))"

definition check_correspondence :: "string set \<Rightarrow> correspondence \<Rightarrow> mapping_error + unit" where
  "check_correspondence codeSet c =
     (if cr_cn8Code c \<notin> codeSet then Inl (MappingTypeError ''CN correspondence references an unknown CN8 code.'')
      else if \<not> digits_of_length 6 (cr_hs12Code c) then Inl (MappingTypeError ''HS12 targets must be six decimal digits.'')
      else Inr ())"

definition validateEdition :: "cn_edition \<Rightarrow> mapping_error + unit" where
  "validateEdition edition =
     (if \<not> is_safe_integer (cd_cnEditionYear edition)
      then Inl (MappingTypeError ''CN edition year must be a safe integer.'')
      else if \<not> hex_digest (cd_cnCodeListSha256 edition)
      then Inl (MappingTypeError ''CN code-list checksum must be a SHA-256 digest.'')
      else if \<not> hex_digest (cd_correspondenceSha256 edition)
      then Inl (MappingTypeError ''CN correspondence checksum must be a SHA-256 digest.'')
      else ebind (efold put_code (cd_cn8Codes edition) {}) (\<lambda>codeSet.
           ebind (emap (check_correspondence codeSet) (cd_correspondences edition)) (\<lambda>_. Inr ())))"

definition summarizeStatus :: "correspondence list \<Rightarrow> correspondence_status" where
  "summarizeStatus correspondences =
     (if correspondences = [] then UNMAPPED
      else let statuses = set_entries (map cr_status correspondences)
      in if length statuses = 1 then hd statuses
         else if AMBIGUOUS \<in> set statuses then AMBIGUOUS
         else if SPLIT \<in> set statuses then SPLIT
         else if MERGED \<in> set statuses then MERGED
         else if QUALIFIED \<in> set statuses then QUALIFIED
         else UNMAPPED)"

definition summarizeChain :: "correspondence list \<Rightarrow> correspondence_chain" where
  "summarizeChain correspondences =
     (if correspondences = [] then NON_EXACT
      else if list_ex (\<lambda>entry. cr_chain entry = NON_EXACT) correspondences then NON_EXACT
      else if list_ex (\<lambda>entry. cr_chain entry = MULTI_STEP_EXACT) correspondences then MULTI_STEP_EXACT
      else DIRECT_EXACT)"

definition mapCn8Code :: "int \<Rightarrow> string \<Rightarrow> cn8_kind \<Rightarrow> correspondence list \<Rightarrow> row_mapping" where
  "mapCn8Code cnEditionYear cn8Code kind correspondences =
     (if kind \<in> set SPECIAL_KINDS
      then \<lparr>rm_cnEditionYear = cnEditionYear, rm_cn8Code = cn8Code, rm_status = NOT_APPLICABLE, rm_targets = [],
            rm_chain = NON_EXACT, rm_rejectionReasons = [SPECIAL_SOURCE_CODE]\<rparr>
      else
        let targets = sort (set_entries (map cr_hs12Code correspondences));
            qualified = list_ex (\<lambda>entry. cr_qualified entry = Some True \<or> cr_status entry = QUALIFIED) correspondences;
            rejectionReasons =
              (if correspondences = [] then [MISSING_CORRESPONDENCE] else [])
              @ (if \<not> qualified \<and>
                   list_ex (\<lambda>entry. cr_status entry \<noteq> EXACT_REVIEWED \<or> cr_chain entry = NON_EXACT) correspondences
                 then [NON_EXACT_CORRESPONDENCE] else [])
              @ (if qualified then [QUALIFIED_CORRESPONDENCE] else [])
              @ (if length targets \<noteq> 1 then [MULTIPLE_TARGETS] else [])
        in \<lparr>rm_cnEditionYear = cnEditionYear, rm_cn8Code = cn8Code, rm_status = summarizeStatus correspondences,
            rm_targets = targets, rm_chain = summarizeChain correspondences, rm_rejectionReasons = rejectionReasons\<rparr>)"

definition exact_row :: "row_mapping \<Rightarrow> bool" where
  "exact_row row = (rm_status row = EXACT_REVIEWED \<and> rm_rejectionReasons row = [])"

definition product_mapping_of :: "cn_edition \<Rightarrow> row_mapping list \<Rightarrow> string \<Rightarrow> product_mapping" where
  "product_mapping_of edition rows hs12Code =
     (let touching = filter (\<lambda>row. hs12Code \<in> set (rm_targets row)) rows;
          acceptedCn8Codes = sort (map rm_cn8Code (filter exact_row touching));
          rejectedTouchingCodes = sort (map rm_cn8Code (filter (\<lambda>row. \<not> exact_row row) touching))
      in \<lparr>pm_cnEditionYear = cd_cnEditionYear edition, pm_hs12Code = hs12Code,
          pm_productStatus = (if rejectedTouchingCodes = [] \<and> acceptedCn8Codes \<noteq> []
                              then PRODUCT_EXACT_REVIEWED else UNSUPPORTED_PRODUCT_MAPPING),
          pm_acceptedCn8Codes = acceptedCn8Codes, pm_rejectedTouchingCodes = rejectedTouchingCodes,
          pm_correspondenceSha256 = cd_correspondenceSha256 edition, pm_reviewId = cd_reviewId edition,
          pm_usesMultiStepExactChain =
            list_ex (\<lambda>row. rm_chain row = MULTI_STEP_EXACT \<and> rm_rejectionReasons row = []) touching\<rparr>)"

definition buildProductMappingsForEdition :: "cn_edition \<Rightarrow> row_mapping list \<Rightarrow> product_mapping list" where
  "buildProductMappingsForEdition edition rows =
     map (product_mapping_of edition rows) (sort (set_entries (concat (map rm_targets rows))))"

definition edition_rows :: "collation \<Rightarrow> cn_edition \<Rightarrow> row_mapping list" where
  "edition_rows collate edition =
     (let correspondencesByCode = groupBy cr_cn8Code (cd_correspondences edition)
      in map (\<lambda>code. mapCn8Code (cd_cnEditionYear edition) (ce_cn8Code code) (ce_kind code)
                 (case correspondencesByCode (ce_cn8Code code) of None \<Rightarrow> [] | Some found \<Rightarrow> found))
           (js_sort (\<lambda>left right. collate (ce_cn8Code left) (ce_cn8Code right)) (cd_cn8Codes edition)))"

definition map_edition ::
  "collation \<Rightarrow> cn_edition \<Rightarrow> mapping_error + row_mapping list \<times> product_mapping list" where
  "map_edition collate edition =
     ebind (validateEdition edition) (\<lambda>_.
       let rows = edition_rows collate edition in Inr (rows, buildProductMappingsForEdition edition rows))"

definition buildCnToHs12MappingReport ::
  "collation \<Rightarrow> mapping_evidence \<Rightarrow> mapping_error + mapping_report" where
  "buildCnToHs12MappingReport collate evidence =
     (if me_schemaVersion evidence \<noteq> ''cn-to-hs12-mapping-evidence-v1''
      then Inl (MappingTypeError ''CN-to-HS12 mapping evidence schema is incompatible.'')
      else if me_mappingPolicy evidence \<noteq> ''cn-to-hs12-exact-complete-preimage-v1''
      then Inl (MappingTypeError ''CN-to-HS12 mapping policy is incompatible.'')
      else ebind (emap (map_edition collate) (sort_key cd_cnEditionYear (me_editions evidence))) (\<lambda>mapped.
           Inr \<lparr>mr_rowMappings = concat (map fst mapped), mr_productMappings = concat (map snd mapped)\<rparr>))"

definition put_edition :: "mapping_report \<Rightarrow> string \<Rightarrow> int \<Rightarrow> across_editions \<Rightarrow> across_editions" where
  "put_edition report hs12Code year a =
     (let product = find (\<lambda>entry. pm_cnEditionYear entry = year \<and> pm_hs12Code entry = hs12Code) (mr_productMappings report)
      in a\<lparr>ae_status := (if map_option pm_productStatus product = Some PRODUCT_EXACT_REVIEWED
                         then ae_status a else UNSUPPORTED_PRODUCT_MAPPING),
           ae_acceptedPreimage := (ae_acceptedPreimage a)
             (year \<mapsto> (case product of None \<Rightarrow> [] | Some p \<Rightarrow> pm_acceptedCn8Codes p)),
           ae_rejectedTouchingCodes := (ae_rejectedTouchingCodes a)
             (year \<mapsto> (case product of None \<Rightarrow> [] | Some p \<Rightarrow> pm_rejectedTouchingCodes p)),
           ae_multiStep := (ae_multiStep a \<or> (case product of None \<Rightarrow> False | Some p \<Rightarrow> pm_usesMultiStepExactChain p))\<rparr>)"

definition evaluateHs12ProductMappingAcrossEditions :: "mapping_report \<Rightarrow> string \<Rightarrow> int list \<Rightarrow> across_editions" where
  "evaluateHs12ProductMappingAcrossEditions report hs12Code cnEditionYears =
     foldl (\<lambda>a year. put_edition report hs12Code year a)
       \<lparr>ae_hs12Code = hs12Code, ae_status = PRODUCT_EXACT_REVIEWED, ae_acceptedPreimage = Map.empty,
        ae_rejectedTouchingCodes = Map.empty, ae_multiStep = False\<rparr> cnEditionYears"

subsection \<open>The evidence of Eurostat\<close>

record eurostat_input =
  ei_cnEditionYear :: int
  ei_cn8CodeListText :: string
  ei_correspondenceCsvText :: string

definition SPECIAL_CHAPTERS :: "string list" where
  "SPECIAL_CHAPTERS = [''98'', ''99'']"

definition classifyCn8Code :: "string \<Rightarrow> cn8_kind" where
  "classifyCn8Code cn8Code = (if take 2 cn8Code \<in> set SPECIAL_CHAPTERS then SPECIAL else ORDINARY)"

definition parseCodeList :: "string \<Rightarrow> string list" where
  "parseCodeList text = filter (\<lambda>line. line \<noteq> []) (map trim (split_on (CHR 0x0A) text))"

definition parse_row :: "nat \<times> string \<Rightarrow> mapping_error + (string \<times> string) option" where
  "parse_row line =
     (if snd line = [] then Inr None
      else if fst line = 0 \<and> starts_with ''cn8'' (to_lower (snd line)) then Inr None
      else (case split_on (CHR '','') (snd line) of
              cn8Code # hs12Code # _ \<Rightarrow> Inr (Some (trim cn8Code, trim hs12Code))
            | _ \<Rightarrow> Inl (MappingError (''Malformed correspondence row: '' @ snd line))))"

definition parseCorrespondences :: "string \<Rightarrow> mapping_error + (string \<times> string) list" where
  "parseCorrespondences text =
     ebind (emap parse_row (enumerate 0 (map trim (split_on (CHR 0x0A) text)))) (\<lambda>rows.
       Inr (List.map_filter (\<lambda>row. row) rows))"

definition eurostat_correspondence ::
  "int \<Rightarrow> string set \<Rightarrow> string \<times> string \<Rightarrow> mapping_error + correspondence" where
  "eurostat_correspondence year orderedCodes row =
     (if fst row \<notin> orderedCodes
      then Inl (MappingError (''Correspondence references CN8 '' @ fst row @ '' absent from the '' @ int_dec year @ '' code list.''))
      else Inr \<lparr>cr_cn8Code = fst row, cr_hs12Code = snd row, cr_status = EXACT_REVIEWED, cr_chain = DIRECT_EXACT,
                cr_qualified = None\<rparr>)"

definition buildEditionEvidence :: "(string \<Rightarrow> string) \<Rightarrow> eurostat_input \<Rightarrow> mapping_error + cn_edition" where
  "buildEditionEvidence sha256 input =
     (let cn8Codes = map (\<lambda>cn8Code. \<lparr>ce_cn8Code = cn8Code, ce_kind = classifyCn8Code cn8Code\<rparr>)
            (parseCodeList (ei_cn8CodeListText input))
      in ebind (parseCorrespondences (ei_correspondenceCsvText input)) (\<lambda>rows.
         ebind (emap (eurostat_correspondence (ei_cnEditionYear input) (set (map ce_cn8Code cn8Codes))) rows) (\<lambda>correspondences.
         Inr \<lparr>cd_cnEditionYear = ei_cnEditionYear input,
              cd_cnCodeListSha256 = sha256 (ei_cn8CodeListText input),
              cd_correspondenceSha256 = sha256 (ei_correspondenceCsvText input),
              cd_reviewId = ''eurostat-cn2022-hs12-'' @ int_dec (ei_cnEditionYear input),
              cd_cn8Codes = cn8Codes, cd_correspondences = correspondences\<rparr>)))"

definition buildEurostatCnToHs12MappingEvidence ::
  "(string \<Rightarrow> string) \<Rightarrow> eurostat_input list \<Rightarrow> mapping_error + mapping_evidence" where
  "buildEurostatCnToHs12MappingEvidence sha256 editions =
     ebind (emap (buildEditionEvidence sha256) editions) (\<lambda>built.
       Inr \<lparr>me_schemaVersion = ''cn-to-hs12-mapping-evidence-v1'',
            me_mappingPolicy = ''cn-to-hs12-exact-complete-preimage-v1'',
            me_editions = sort_key cd_cnEditionYear built\<rparr>)"

subsection \<open>Pieces\<close>

lemma groupBy_entries:
  "groupBy keyOf vs k = (let found = filter (\<lambda>v. keyOf v = k) vs in if found = [] then None else Some found)"
  by (induction vs rule: rev_induct) (auto simp: groupBy_def Let_def split: option.splits)

lemma sort_of_mset: "mset xs = mset ys \<Longrightarrow> sort xs = sort (ys :: string list)"
  by (metis sorted_list_of_multiset_mset)

lemma sort_Nil_iff: "sort xs = [] \<longleftrightarrow> xs = []"
  by (metis length_0_conv length_sort)

lemma find_the_only:
  assumes "x \<in> set xs" "P x" "\<And>y. y \<in> set xs \<Longrightarrow> P y \<Longrightarrow> y = x"
  shows "find P xs = Some x"
proof (cases "find P xs")
  case None
  then show ?thesis using assms(1,2) by (simp add: find_None_iff)
next
  case (Some y)
  then have "y \<in> set xs" "P y" by (auto dest: find_SomeD)
  then show ?thesis using Some assms(3) by simp
qed

text \<open>What an edition says of a code and of a product.\<close>

definition links :: "cn_edition \<Rightarrow> string \<Rightarrow> correspondence list" where
  "links e code = filter (\<lambda>r. cr_cn8Code r = code) (cd_correspondences e)"

definition ordinary_codes :: "cn_edition \<Rightarrow> string list" where
  "ordinary_codes e = map ce_cn8Code (filter (\<lambda>x. ce_kind x = ORDINARY) (cd_cn8Codes e))"

definition preimage :: "cn_edition \<Rightarrow> string \<Rightarrow> string list" where
  "preimage e hs = filter (\<lambda>code. hs \<in> cr_hs12Code ` set (links e code)) (ordinary_codes e)"

definition maps_exactly_to :: "cn_edition \<Rightarrow> string \<Rightarrow> string \<Rightarrow> bool" where
  "maps_exactly_to e hs code = list_all (\<lambda>r. cr_hs12Code r = hs \<and> cr_status r = EXACT_REVIEWED \<and>
     cr_chain r \<noteq> NON_EXACT \<and> cr_qualified r \<noteq> Some True) (links e code)"

lemma special_iff: "kind \<in> set SPECIAL_KINDS \<longleftrightarrow> kind \<noteq> ORDINARY"
  by (cases kind) (simp_all add: SPECIAL_KINDS_def)

lemma mapCn8Code_targets:
  "set (rm_targets (mapCn8Code year code kind ls)) = (if kind = ORDINARY then cr_hs12Code ` set ls else {})"
  by (simp add: mapCn8Code_def Let_def special_iff)

lemma card_one_iff: "finite A \<Longrightarrow> x \<in> A \<Longrightarrow> card A = 1 \<longleftrightarrow> (\<forall>y \<in> A. y = x)"
  by (auto simp: card_1_singleton_iff)

lemma summarizeStatus_exact:
  assumes "ls \<noteq> []" "\<forall>r \<in> set ls. cr_status r = EXACT_REVIEWED"
  shows "summarizeStatus ls = EXACT_REVIEWED"
proof -
  have s: "set (set_entries (map cr_status ls)) = {EXACT_REVIEWED}" using assms by (cases ls) auto
  then have n: "length (set_entries (map cr_status ls)) = 1" by (simp add: length_set_entries)
  then obtain x where "set_entries (map cr_status ls) = [x]" by (auto simp: length_Suc_conv)
  with s assms(1) show ?thesis by (simp add: summarizeStatus_def)
qed

lemma mapCn8Code_exact:
  assumes "kind = ORDINARY" "hs \<in> cr_hs12Code ` set ls"
  shows "exact_row (mapCn8Code year code kind ls) \<longleftrightarrow> (\<forall>r \<in> set ls. cr_hs12Code r = hs \<and> cr_status r = EXACT_REVIEWED \<and>
     cr_chain r \<noteq> NON_EXACT \<and> cr_qualified r \<noteq> Some True)"
proof -
  let ?q = "list_ex (\<lambda>r. cr_qualified r = Some True \<or> cr_status r = QUALIFIED) ls"
    and ?n = "list_ex (\<lambda>r. cr_status r \<noteq> EXACT_REVIEWED \<or> cr_chain r = NON_EXACT) ls"
  have ls: "ls \<noteq> []" using assms(2) by auto
  have one: "length (sort (set_entries (map cr_hs12Code ls))) = 1 \<longleftrightarrow> (\<forall>r \<in> set ls. cr_hs12Code r = hs)"
    using card_one_iff [OF _ assms(2)] by (simp add: length_set_entries)
  have "exact_row (mapCn8Code year code kind ls) \<longleftrightarrow> summarizeStatus ls = EXACT_REVIEWED \<and> \<not> ?n \<and> \<not> ?q \<and>
      length (sort (set_entries (map cr_hs12Code ls))) = 1"
    using ls by (simp add: exact_row_def mapCn8Code_def Let_def special_iff assms(1))
  moreover have "\<not> ?n \<Longrightarrow> summarizeStatus ls = EXACT_REVIEWED"
    by (rule summarizeStatus_exact [OF ls]) (auto simp: list_ex_iff)
  moreover have "\<not> ?n \<and> \<not> ?q \<longleftrightarrow> (\<forall>r \<in> set ls. cr_status r = EXACT_REVIEWED \<and> cr_chain r \<noteq> NON_EXACT \<and> cr_qualified r \<noteq> Some True)"
    by (auto simp: list_ex_iff)
  ultimately show ?thesis using one by blast
qed

subsection \<open>The mapping of a product\<close>

definition row_of_entry :: "cn_edition \<Rightarrow> cn8_entry \<Rightarrow> row_mapping" where
  "row_of_entry e x = mapCn8Code (cd_cnEditionYear e) (ce_cn8Code x) (ce_kind x) (links e (ce_cn8Code x))"

lemma edition_rows_eq:
  "edition_rows collate e = map (row_of_entry e) (js_sort (\<lambda>l r. collate (ce_cn8Code l) (ce_cn8Code r)) (cd_cn8Codes e))"
  unfolding edition_rows_def Let_def groupBy_entries
  by (rule map_cong [OF refl]) (simp add: row_of_entry_def links_def)

lemma row_of_entry_facts:
  "rm_cn8Code (row_of_entry e x) = ce_cn8Code x"
  "hs \<in> set (rm_targets (row_of_entry e x)) \<longleftrightarrow> ce_kind x = ORDINARY \<and> hs \<in> cr_hs12Code ` set (links e (ce_cn8Code x))"
  "hs \<in> set (rm_targets (row_of_entry e x)) \<Longrightarrow> exact_row (row_of_entry e x) \<longleftrightarrow> maps_exactly_to e hs (ce_cn8Code x)"
proof -
  show "rm_cn8Code (row_of_entry e x) = ce_cn8Code x" by (simp add: row_of_entry_def mapCn8Code_def Let_def)
  show t: "hs \<in> set (rm_targets (row_of_entry e x)) \<longleftrightarrow> ce_kind x = ORDINARY \<and> hs \<in> cr_hs12Code ` set (links e (ce_cn8Code x))"
    by (simp add: row_of_entry_def mapCn8Code_targets)
  show "exact_row (row_of_entry e x) \<longleftrightarrow> maps_exactly_to e hs (ce_cn8Code x)" if "hs \<in> set (rm_targets (row_of_entry e x))"
    using mapCn8Code_exact [of "ce_kind x" hs] that t unfolding row_of_entry_def maps_exactly_to_def list_all_iff by blast
qed

lemma touching_rows:
  assumes "\<And>x. hs \<in> set (rm_targets (row_of_entry e x)) \<Longrightarrow> Q (row_of_entry e x) \<longleftrightarrow> R (ce_cn8Code x)"
  shows "sort (map rm_cn8Code (filter Q (filter (\<lambda>row. hs \<in> set (rm_targets row)) (edition_rows collate e)))) =
    sort (filter R (preimage e hs))"
proof (rule sort_of_mset)
  let ?t = "\<lambda>x. hs \<in> set (rm_targets (row_of_entry e x))"
  let ?cs = "js_sort (\<lambda>l r. collate (ce_cn8Code l) (ce_cn8Code r)) (cd_cn8Codes e)"
  have "map rm_cn8Code (filter Q (filter (\<lambda>row. hs \<in> set (rm_targets row)) (edition_rows collate e))) =
      map ce_cn8Code (filter (\<lambda>x. ?t x \<and> Q (row_of_entry e x)) ?cs)"
    by (simp only: edition_rows_eq filter_map filter_filter map_map comp_def row_of_entry_facts(1))
  then have "mset (map rm_cn8Code (filter Q (filter (\<lambda>row. hs \<in> set (rm_targets row)) (edition_rows collate e)))) =
      image_mset ce_cn8Code (filter_mset (\<lambda>x. ?t x \<and> Q (row_of_entry e x)) (mset (cd_cn8Codes e)))"
    by (simp only: mset_map mset_filter js_sort_mset)
  also have "filter_mset (\<lambda>x. ?t x \<and> Q (row_of_entry e x)) (mset (cd_cn8Codes e)) =
      filter_mset (\<lambda>x. ?t x \<and> R (ce_cn8Code x)) (mset (cd_cn8Codes e))"
    using assms by (intro filter_mset_cong refl) blast
  also have "image_mset ce_cn8Code \<dots> = mset (filter R (preimage e hs))"
    unfolding row_of_entry_facts(2)
    by (simp only: preimage_def ordinary_codes_def filter_map filter_filter comp_def mset_map mset_filter conj_assoc)
  finally show "mset (map rm_cn8Code (filter Q (filter (\<lambda>row. hs \<in> set (rm_targets row)) (edition_rows collate e)))) =
    mset (filter R (preimage e hs))" .
qed

lemma product_mapping_facts:
  defines "rows collate e \<equiv> edition_rows collate e"
  shows "pm_acceptedCn8Codes (product_mapping_of e (rows collate e) hs) = sort (filter (maps_exactly_to e hs) (preimage e hs))"
    "pm_rejectedTouchingCodes (product_mapping_of e (rows collate e) hs) = sort (filter (\<lambda>c. \<not> maps_exactly_to e hs c) (preimage e hs))"
    "pm_cnEditionYear (product_mapping_of e (rows collate e) hs) = cd_cnEditionYear e"
    "pm_hs12Code (product_mapping_of e (rows collate e) hs) = hs"
    "pm_productStatus (product_mapping_of e (rows collate e) hs) = PRODUCT_EXACT_REVIEWED \<longleftrightarrow>
       preimage e hs \<noteq> [] \<and> list_all (maps_exactly_to e hs) (preimage e hs)"
proof -
  show a: "pm_acceptedCn8Codes (product_mapping_of e (rows collate e) hs) = sort (filter (maps_exactly_to e hs) (preimage e hs))"
    unfolding rows_def product_mapping_of_def Let_def product_mapping.select_convs
    by (rule touching_rows) (rule row_of_entry_facts(3))
  show r: "pm_rejectedTouchingCodes (product_mapping_of e (rows collate e) hs) =
      sort (filter (\<lambda>c. \<not> maps_exactly_to e hs c) (preimage e hs))"
    unfolding rows_def product_mapping_of_def Let_def product_mapping.select_convs
    by (rule touching_rows) (simp add: row_of_entry_facts(3))
  show "pm_cnEditionYear (product_mapping_of e (rows collate e) hs) = cd_cnEditionYear e"
    "pm_hs12Code (product_mapping_of e (rows collate e) hs) = hs" by (simp_all add: product_mapping_of_def Let_def)
  have "pm_productStatus (product_mapping_of e (rows collate e) hs) = PRODUCT_EXACT_REVIEWED \<longleftrightarrow>
      pm_rejectedTouchingCodes (product_mapping_of e (rows collate e) hs) = [] \<and>
      pm_acceptedCn8Codes (product_mapping_of e (rows collate e) hs) \<noteq> []"
    by (simp add: product_mapping_of_def Let_def)
  then show "pm_productStatus (product_mapping_of e (rows collate e) hs) = PRODUCT_EXACT_REVIEWED \<longleftrightarrow>
       preimage e hs \<noteq> [] \<and> list_all (maps_exactly_to e hs) (preimage e hs)"
    unfolding a r sort_Nil_iff by (cases "preimage e hs") (auto simp: list_all_iff filter_empty_conv)
qed

lemma mapped_products:
  "set (buildProductMappingsForEdition e (edition_rows collate e)) =
     product_mapping_of e (edition_rows collate e) ` {hs. preimage e hs \<noteq> []}"
proof -
  have "hs \<in> set (concat (map rm_targets (edition_rows collate e))) \<longleftrightarrow> preimage e hs \<noteq> []" for hs
    unfolding edition_rows_eq by (auto simp: row_of_entry_facts(2) preimage_def ordinary_codes_def filter_empty_conv)
  then have "set (concat (map rm_targets (edition_rows collate e))) = {hs. preimage e hs \<noteq> []}" by blast
  then show ?thesis by (simp add: buildProductMappingsForEdition_def del: set_concat)
qed

subsection \<open>Which evidence is accepted\<close>

definition edition_valid :: "cn_edition \<Rightarrow> bool" where
  "edition_valid e \<longleftrightarrow> is_safe_integer (cd_cnEditionYear e) \<and> hex_digest (cd_cnCodeListSha256 e) \<and>
     hex_digest (cd_correspondenceSha256 e) \<and>
     list_all (\<lambda>x. digits_of_length 8 (ce_cn8Code x)) (cd_cn8Codes e) \<and> distinct (map ce_cn8Code (cd_cn8Codes e)) \<and>
     list_all (\<lambda>r. cr_cn8Code r \<in> ce_cn8Code ` set (cd_cn8Codes e) \<and> digits_of_length 6 (cr_hs12Code r)) (cd_correspondences e)"

lemma put_codes_Inr_iff:
  "efold put_code codes acc = Inr result \<longleftrightarrow>
     result = acc \<union> ce_cn8Code ` set codes \<and> list_all (\<lambda>x. digits_of_length 8 (ce_cn8Code x)) codes \<and>
     distinct (map ce_cn8Code codes) \<and> acc \<inter> ce_cn8Code ` set codes = {}"
  by (induction codes arbitrary: acc) (auto simp: put_code_def ebind_Inr_iff)

lemma validateEdition_Inr_iff: "validateEdition e = Inr u \<longleftrightarrow> edition_valid e"
proof -
  have "emap (check_correspondence codes) rs = Inr us \<Longrightarrow>
      list_all (\<lambda>r. cr_cn8Code r \<in> codes \<and> digits_of_length 6 (cr_hs12Code r)) rs" for codes rs us
    by (induction rs arbitrary: us) (auto simp: ebind_Inr_iff check_correspondence_def split: if_splits)
  moreover have "list_all (\<lambda>r. cr_cn8Code r \<in> codes \<and> digits_of_length 6 (cr_hs12Code r)) rs \<Longrightarrow>
      \<exists>us. emap (check_correspondence codes) rs = Inr us" for codes rs
    by (induction rs) (auto simp: check_correspondence_def)
  ultimately show ?thesis
    unfolding validateEdition_def edition_valid_def
    by (auto simp: ebind_Inr_iff put_codes_Inr_iff)
qed

lemma map_edition_Inr_iff:
  "map_edition collate e = Inr m \<longleftrightarrow> edition_valid e \<and>
     m = (edition_rows collate e, buildProductMappingsForEdition e (edition_rows collate e))"
  by (auto simp: map_edition_def Let_def ebind_Inr_iff validateEdition_Inr_iff)

definition mapping_accepted :: "mapping_evidence \<Rightarrow> bool" where
  "mapping_accepted evidence \<longleftrightarrow> me_schemaVersion evidence = ''cn-to-hs12-mapping-evidence-v1'' \<and>
     me_mappingPolicy evidence = ''cn-to-hs12-exact-complete-preimage-v1'' \<and> list_all edition_valid (me_editions evidence)"

lemma mapping_report_Inr_iff:
  "buildCnToHs12MappingReport collate evidence = Inr report \<longleftrightarrow> mapping_accepted evidence \<and>
     report = (let editions = sort_key cd_cnEditionYear (me_editions evidence) in
       \<lparr>mr_rowMappings = concat (map (edition_rows collate) editions),
        mr_productMappings = concat (map (\<lambda>e. buildProductMappingsForEdition e (edition_rows collate e)) editions)\<rparr>)"
proof -
  have "emap (map_edition collate) es = Inr ms \<longleftrightarrow> list_all edition_valid es \<and>
      ms = map (\<lambda>e. (edition_rows collate e, buildProductMappingsForEdition e (edition_rows collate e))) es" for es ms
    by (induction es arbitrary: ms) (auto simp: ebind_Inr_iff map_edition_Inr_iff)
  then show ?thesis
    by (auto simp: buildCnToHs12MappingReport_def ebind_Inr_iff mapping_accepted_def Let_def list_all_iff comp_def)
qed

text \<open>The report is built for exactly the evidence of the known schema and policy whose editions have a safe year,
  digests, distinct codes of eight digits and correspondences from those codes to six digits.\<close>

theorem mapping_evidence_accepted:
  "(\<exists>report. buildCnToHs12MappingReport collate evidence = Inr report) \<longleftrightarrow> mapping_accepted evidence"
  unfolding mapping_report_Inr_iff by blast

lemma report_products:
  assumes "buildCnToHs12MappingReport collate evidence = Inr report"
  shows "set (mr_productMappings report) =
    {product_mapping_of e (edition_rows collate e) hs | e hs. e \<in> set (me_editions evidence) \<and> preimage e hs \<noteq> []}"
proof -
  have "set (mr_productMappings report) =
      (\<Union>e \<in> set (me_editions evidence). set (buildProductMappingsForEdition e (edition_rows collate e)))"
    using assms unfolding mapping_report_Inr_iff by (simp add: Let_def)
  then show ?thesis unfolding mapped_products by blast
qed

subsection \<open>A product across editions\<close>

definition product_at :: "mapping_report \<Rightarrow> string \<Rightarrow> int \<Rightarrow> product_mapping option" where
  "product_at report hs year = find (\<lambda>p. pm_cnEditionYear p = year \<and> pm_hs12Code p = hs) (mr_productMappings report)"

lemma across_editions_facts:
  "ae_status (evaluateHs12ProductMappingAcrossEditions report hs years) = PRODUCT_EXACT_REVIEWED \<longleftrightarrow>
      (\<forall>y \<in> set years. map_option pm_productStatus (product_at report hs y) = Some PRODUCT_EXACT_REVIEWED)"
  "ae_acceptedPreimage (evaluateHs12ProductMappingAcrossEditions report hs years) y =
      (if y \<in> set years then Some (case product_at report hs y of None \<Rightarrow> [] | Some p \<Rightarrow> pm_acceptedCn8Codes p) else None)"
  unfolding evaluateHs12ProductMappingAcrossEditions_def
  by (induction years rule: rev_induct) (auto simp: put_edition_def product_at_def Let_def)

lemma product_at_edition:
  assumes "buildCnToHs12MappingReport collate evidence = Inr report" "distinct (map cd_cnEditionYear (me_editions evidence))"
    "e \<in> set (me_editions evidence)"
  shows "product_at report hs (cd_cnEditionYear e) =
    (if preimage e hs = [] then None else Some (product_mapping_of e (edition_rows collate e) hs))"
proof -
  have same: "e' = e" if "e' \<in> set (me_editions evidence)" "cd_cnEditionYear e' = cd_cnEditionYear e" for e'
    using that assms(2,3) by (simp add: distinct_map inj_on_def)
  have at: "p = product_mapping_of e (edition_rows collate e) hs \<and> preimage e hs \<noteq> []"
    if p: "p \<in> set (mr_productMappings report)" "pm_cnEditionYear p = cd_cnEditionYear e \<and> pm_hs12Code p = hs" for p
  proof -
    obtain e' hs' where e': "p = product_mapping_of e' (edition_rows collate e') hs'" "e' \<in> set (me_editions evidence)"
      "preimage e' hs' \<noteq> []" using p(1) unfolding report_products [OF assms(1)] by blast
    have "e' = e" "hs' = hs" using p(2) same [OF e'(2)] unfolding e'(1) product_mapping_facts by auto
    with e' show ?thesis by simp
  qed
  show ?thesis
  proof (cases "preimage e hs = []")
    case True
    then have "product_at report hs (cd_cnEditionYear e) = None" unfolding product_at_def find_None_iff using at by blast
    with True show ?thesis by simp
  next
    case False
    then have "product_mapping_of e (edition_rows collate e) hs \<in> set (mr_productMappings report)"
      unfolding report_products [OF assms(1)] using assms(3) by blast
    then have "product_at report hs (cd_cnEditionYear e) = Some (product_mapping_of e (edition_rows collate e) hs)"
      unfolding product_at_def by (rule find_the_only) (use at in \<open>auto simp: product_mapping_facts\<close>)
    with False show ?thesis by simp
  qed
qed

lemma product_at_Some:
  assumes "buildCnToHs12MappingReport collate evidence = Inr report" "product_at report hs y = Some p"
  obtains e where "e \<in> set (me_editions evidence)" "cd_cnEditionYear e = y" "preimage e hs \<noteq> []"
proof -
  have "p \<in> set (mr_productMappings report)" "pm_cnEditionYear p = y \<and> pm_hs12Code p = hs"
    using assms(2) unfolding product_at_def by (auto dest: find_SomeD)
  then show thesis using that unfolding report_products [OF assms(1)] by (auto simp: product_mapping_facts)
qed

text \<open>C14: over editions of distinct years, a product is exact for a list of years if and only if each of them has an
  edition in which some ordinary code maps to it and every ordinary code that touches it maps to it alone, by exact
  reviewed unqualified links; the codes accepted for a year are, in order, those of its complete preimage that map
  exactly.\<close>

theorem product_across_editions:
  assumes "buildCnToHs12MappingReport collate evidence = Inr report" "distinct (map cd_cnEditionYear (me_editions evidence))"
  shows "(ae_status (evaluateHs12ProductMappingAcrossEditions report hs years) = PRODUCT_EXACT_REVIEWED \<longleftrightarrow>
      (\<forall>y \<in> set years. \<exists>e \<in> set (me_editions evidence). cd_cnEditionYear e = y \<and> preimage e hs \<noteq> [] \<and>
         list_all (maps_exactly_to e hs) (preimage e hs))) \<and>
    (\<forall>e \<in> set (me_editions evidence). cd_cnEditionYear e \<in> set years \<longrightarrow>
       ae_acceptedPreimage (evaluateHs12ProductMappingAcrossEditions report hs years) (cd_cnEditionYear e) =
         Some (sort (filter (maps_exactly_to e hs) (preimage e hs))))"
proof -
  have "map_option pm_productStatus (product_at report hs y) = Some PRODUCT_EXACT_REVIEWED \<longleftrightarrow>
      (\<exists>e \<in> set (me_editions evidence). cd_cnEditionYear e = y \<and> preimage e hs \<noteq> [] \<and>
         list_all (maps_exactly_to e hs) (preimage e hs))" (is "?l \<longleftrightarrow> ?r") for y
  proof
    assume l: ?l
    then obtain p where "product_at report hs y = Some p" by auto
    from product_at_Some [OF assms(1) this] obtain e where e: "e \<in> set (me_editions evidence)" "cd_cnEditionYear e = y"
      "preimage e hs \<noteq> []" by metis
    with l product_at_edition [OF assms e(1), of hs] show ?r by (auto simp: product_mapping_facts)
  next
    assume ?r
    then obtain e where e: "e \<in> set (me_editions evidence)" "cd_cnEditionYear e = y" "preimage e hs \<noteq> []"
      "list_all (maps_exactly_to e hs) (preimage e hs)" by blast
    with product_at_edition [OF assms e(1), of hs] show ?l by (simp add: product_mapping_facts)
  qed
  moreover have "(case product_at report hs (cd_cnEditionYear e) of None \<Rightarrow> [] | Some p \<Rightarrow> pm_acceptedCn8Codes p) =
      sort (filter (maps_exactly_to e hs) (preimage e hs))" if "e \<in> set (me_editions evidence)" for e
    using product_at_edition [OF assms that, of hs] by (simp add: product_mapping_facts)
  ultimately show ?thesis unfolding across_editions_facts by simp
qed

text \<open>C15: no code of an edition is counted for two products: two mappings of one edition that both accept a code are
  the same mapping.\<close>

theorem accepted_code_of_one_product:
  assumes "buildCnToHs12MappingReport collate evidence = Inr report" "distinct (map cd_cnEditionYear (me_editions evidence))"
    "p \<in> set (mr_productMappings report)" "q \<in> set (mr_productMappings report)" "pm_cnEditionYear p = pm_cnEditionYear q"
    "code \<in> set (pm_acceptedCn8Codes p)" "code \<in> set (pm_acceptedCn8Codes q)"
  shows "p = q"
proof -
  obtain e hs where p: "p = product_mapping_of e (edition_rows collate e) hs" "e \<in> set (me_editions evidence)"
    using assms(3) unfolding report_products [OF assms(1)] by blast
  obtain e' hs' where q: "q = product_mapping_of e' (edition_rows collate e') hs'" "e' \<in> set (me_editions evidence)"
    using assms(4) unfolding report_products [OF assms(1)] by blast
  have e: "e' = e" using assms(2,5) p(2) q(2) unfolding p(1) q(1) product_mapping_facts
    by (simp add: distinct_map inj_on_def)
  have "hs \<in> cr_hs12Code ` set (links e code)" "maps_exactly_to e hs' code"
    using assms(6,7) unfolding p(1) q(1) e product_mapping_facts by (auto simp: preimage_def)
  then have "hs = hs'" by (auto simp: maps_exactly_to_def list_all_iff)
  then show ?thesis by (simp add: p(1) q(1) e)
qed

subsection \<open>The evidence of Eurostat\<close>

lemma eurostat_links:
  assumes "buildEditionEvidence sha256 input = Inr e"
  shows "\<forall>r \<in> set (cd_correspondences e). cr_status r = EXACT_REVIEWED \<and> cr_chain r = DIRECT_EXACT \<and> cr_qualified r = None"
    "cd_cn8Codes e = map (\<lambda>c. \<lparr>ce_cn8Code = c, ce_kind = classifyCn8Code c\<rparr>) (parseCodeList (ei_cn8CodeListText input))"
proof -
  have "emap (eurostat_correspondence year codes) rows = Inr rs \<Longrightarrow>
      \<forall>r \<in> set rs. cr_status r = EXACT_REVIEWED \<and> cr_chain r = DIRECT_EXACT \<and> cr_qualified r = None" for year codes rows rs
    by (induction rows arbitrary: rs) (auto simp: ebind_Inr_iff eurostat_correspondence_def split: if_splits)
  then show "\<forall>r \<in> set (cd_correspondences e). cr_status r = EXACT_REVIEWED \<and> cr_chain r = DIRECT_EXACT \<and> cr_qualified r = None"
    "cd_cn8Codes e = map (\<lambda>c. \<lparr>ce_cn8Code = c, ce_kind = classifyCn8Code c\<rparr>) (parseCodeList (ei_cn8CodeListText input))"
    using assms by (auto simp: buildEditionEvidence_def Let_def ebind_Inr_iff)
qed

text \<open>C16: from the texts of Eurostat, in which every link counts as exact and reviewed, a product is exact for a list of
  years if and only if each of them has an edition in which some code outside the special chapters 98 and 99 is linked
  to it, and no such code is linked to another product as well.\<close>

theorem eurostat_products_are_whole:
  assumes "buildEurostatCnToHs12MappingEvidence sha256 inputs = Inr evidence"
    "buildCnToHs12MappingReport collate evidence = Inr report" "distinct (map ei_cnEditionYear inputs)"
  shows "ae_status (evaluateHs12ProductMappingAcrossEditions report hs years) = PRODUCT_EXACT_REVIEWED \<longleftrightarrow>
    (\<forall>y \<in> set years. \<exists>e \<in> set (me_editions evidence). cd_cnEditionYear e = y \<and>
       (let touching = {r \<in> set (cd_correspondences e). cr_cn8Code r \<in> ce_cn8Code ` set (cd_cn8Codes e) \<and>
              take 2 (cr_cn8Code r) \<notin> set SPECIAL_CHAPTERS} in
        (\<exists>r \<in> touching. cr_hs12Code r = hs) \<and>
        (\<forall>r \<in> touching. \<forall>r' \<in> touching. cr_hs12Code r = hs \<and> cr_cn8Code r' = cr_cn8Code r \<longrightarrow> cr_hs12Code r' = hs)))"
proof -
  obtain es where es: "emap (buildEditionEvidence sha256) inputs = Inr es"
    "me_editions evidence = sort_key cd_cnEditionYear es" using assms(1)
    by (auto simp: buildEurostatCnToHs12MappingEvidence_def ebind_Inr_iff)
  have "map cd_cnEditionYear es = map ei_cnEditionYear inputs" if "emap (buildEditionEvidence sha256) inputs = Inr es" for es inputs
    using that by (induction inputs arbitrary: es) (auto simp: ebind_Inr_iff buildEditionEvidence_def Let_def)
  from arg_cong [OF this [OF es(1)], of mset]
  have "mset (map cd_cnEditionYear (me_editions evidence)) = mset (map ei_cnEditionYear inputs)"
    unfolding es(2) by (simp only: mset_map mset_sort)
  from mset_eq_imp_distinct_iff [OF this] assms(3) have "distinct (map cd_cnEditionYear (me_editions evidence))"
    by (simp only:)
  note across = product_across_editions [OF assms(2) this, THEN conjunct1, of hs years]
  have built: "\<exists>i. buildEditionEvidence sha256 i = Inr e" if "e \<in> set (me_editions evidence)" for e
    using that es(1) unfolding es(2) by (auto simp: emap_Inr_iff list_all2_conv_all_nth in_set_conv_nth)
  have "preimage e hs \<noteq> [] \<and> list_all (maps_exactly_to e hs) (preimage e hs) \<longleftrightarrow>
     (let touching = {r \<in> set (cd_correspondences e). cr_cn8Code r \<in> ce_cn8Code ` set (cd_cn8Codes e) \<and>
              take 2 (cr_cn8Code r) \<notin> set SPECIAL_CHAPTERS} in
        (\<exists>r \<in> touching. cr_hs12Code r = hs) \<and>
        (\<forall>r \<in> touching. \<forall>r' \<in> touching. cr_hs12Code r = hs \<and> cr_cn8Code r' = cr_cn8Code r \<longrightarrow> cr_hs12Code r' = hs))"
    if "e \<in> set (me_editions evidence)" for e
  proof -
    obtain i where "buildEditionEvidence sha256 i = Inr e" using built [OF \<open>e \<in> _\<close>] by blast
    note e = eurostat_links [OF this]
    have o: "code \<in> set (ordinary_codes e) \<longleftrightarrow> code \<in> ce_cn8Code ` set (cd_cn8Codes e) \<and> take 2 code \<notin> set SPECIAL_CHAPTERS" for code
      unfolding ordinary_codes_def e(2) by (auto simp: classifyCn8Code_def)
    have x: "maps_exactly_to e hs code \<longleftrightarrow> (\<forall>r \<in> set (links e code). cr_hs12Code r = hs)" for code
      using e(1) by (auto simp: maps_exactly_to_def list_all_iff links_def)
    define touching where "touching = {r \<in> set (cd_correspondences e). cr_cn8Code r \<in> ce_cn8Code ` set (cd_cn8Codes e) \<and>
      take 2 (cr_cn8Code r) \<notin> set SPECIAL_CHAPTERS}"
    have pre: "code \<in> set (preimage e hs) \<longleftrightarrow> (\<exists>r \<in> touching. cr_cn8Code r = code \<and> cr_hs12Code r = hs)" for code
      unfolding preimage_def links_def set_filter touching_def using o [of code] by blast
    have "set (links e code) = {r \<in> touching. cr_cn8Code r = code}" if "code \<in> set (preimage e hs)" for code
    proof -
      have "code \<in> set (ordinary_codes e)" using that by (simp add: preimage_def)
      then show ?thesis unfolding links_def touching_def set_filter o by blast
    qed
    then have all: "list_all (maps_exactly_to e hs) (preimage e hs) \<longleftrightarrow>
        (\<forall>code. code \<in> set (preimage e hs) \<longrightarrow> (\<forall>r \<in> touching. cr_cn8Code r = code \<longrightarrow> cr_hs12Code r = hs))"
      unfolding list_all_iff x by blast
    have "preimage e hs \<noteq> [] \<longleftrightarrow> (\<exists>code. code \<in> set (preimage e hs))" by (cases "preimage e hs") auto
    also have "\<dots> \<longleftrightarrow> (\<exists>r \<in> touching. cr_hs12Code r = hs)" unfolding pre by blast
    finally have some: "preimage e hs \<noteq> [] \<longleftrightarrow> (\<exists>r \<in> touching. cr_hs12Code r = hs)" .
    show ?thesis unfolding all some pre touching_def [symmetric] Let_def
      by (intro conj_cong refl iffI ballI allI impI; (elim conjE bexE)?; metis)
  qed
  then show ?thesis unfolding across by (simp cong: bex_cong)
qed

subsection \<open>A sample\<close>

text \<open>Two codes of one product, a code of two products and a special code.\<close>

definition sample_eurostat :: "int \<Rightarrow> eurostat_input" where
  "sample_eurostat year =
     \<lparr>ei_cnEditionYear = year,
      ei_cn8CodeListText = ''08044000'' @ CHR 0x0A # ''08045000'' @ CHR 0x0A # ''22042100'' @ CHR 0x0A # ''98800000'' @ [CHR 0x0A],
      ei_correspondenceCsvText = ''cn8,hs12'' @ CHR 0x0A # ''08044000,080440'' @ CHR 0x0A # ''08045000, 080440'' @ CHR 0x0A #
        ''22042100,220421'' @ CHR 0x0A # ''22042100,220429'' @ [CHR 0x0A]\<rparr>"

definition sample_sha256 :: "string \<Rightarrow> string" where
  "sample_sha256 text = replicate 64 (CHR ''a'')"

definition sample_link :: "string \<Rightarrow> string \<Rightarrow> correspondence" where
  "sample_link code hs = \<lparr>cr_cn8Code = code, cr_hs12Code = hs, cr_status = EXACT_REVIEWED, cr_chain = DIRECT_EXACT, cr_qualified = None\<rparr>"

definition sample_edition :: "int \<Rightarrow> cn_edition" where
  "sample_edition year =
     \<lparr>cd_cnEditionYear = year, cd_cnCodeListSha256 = replicate 64 (CHR ''a''), cd_correspondenceSha256 = replicate 64 (CHR ''a''),
      cd_reviewId = ''eurostat-cn2022-hs12-'' @ int_dec year,
      cd_cn8Codes = [\<lparr>ce_cn8Code = ''08044000'', ce_kind = ORDINARY\<rparr>, \<lparr>ce_cn8Code = ''08045000'', ce_kind = ORDINARY\<rparr>,
        \<lparr>ce_cn8Code = ''22042100'', ce_kind = ORDINARY\<rparr>, \<lparr>ce_cn8Code = ''98800000'', ce_kind = SPECIAL\<rparr>],
      cd_correspondences = [sample_link ''08044000'' ''080440'', sample_link ''08045000'' ''080440'',
        sample_link ''22042100'' ''220421'', sample_link ''22042100'' ''220429'']\<rparr>"

lemma sample_edition_built: "buildEditionEvidence sample_sha256 (sample_eurostat year) = Inr (sample_edition year)"
proof -
  have "parseCodeList (ei_cn8CodeListText (sample_eurostat year)) = [''08044000'', ''08045000'', ''22042100'', ''98800000'']"
    unfolding sample_eurostat_def eurostat_input.select_convs by code_simp
  moreover have "parseCorrespondences (ei_correspondenceCsvText (sample_eurostat year)) =
      Inr [(''08044000'', ''080440''), (''08045000'', ''080440''), (''22042100'', ''220421''), (''22042100'', ''220429'')]"
    unfolding sample_eurostat_def eurostat_input.select_convs by code_simp
  ultimately show ?thesis
    by (simp add: buildEditionEvidence_def Let_def eurostat_correspondence_def classifyCn8Code_def SPECIAL_CHAPTERS_def
        sample_edition_def sample_link_def sample_sha256_def) (simp add: sample_eurostat_def)
qed

definition sample_mapping_evidence :: mapping_evidence where
  "sample_mapping_evidence =
     \<lparr>me_schemaVersion = ''cn-to-hs12-mapping-evidence-v1'', me_mappingPolicy = ''cn-to-hs12-exact-complete-preimage-v1'',
      me_editions = [sample_edition 2023, sample_edition 2024]\<rparr>"

lemma sample_evidence_built:
  "buildEurostatCnToHs12MappingEvidence sample_sha256 [sample_eurostat 2024, sample_eurostat 2023] = Inr sample_mapping_evidence"
  by (simp add: buildEurostatCnToHs12MappingEvidence_def sample_edition_built sample_mapping_evidence_def)
    (simp add: sample_edition_def)

lemma sample_mapping_accepted: "mapping_accepted sample_mapping_evidence"
proof -
  have "edition_valid (sample_edition year)" if "year \<in> {2023, 2024}" for year
    using that by (auto simp: edition_valid_def sample_edition_def sample_link_def digits_of_length_def hex_digest_def
        is_safe_integer_def is_digit_def list_all_iff)
  then show ?thesis by (simp add: mapping_accepted_def sample_mapping_evidence_def)
qed

definition sample_order :: "string \<Rightarrow> string \<Rightarrow> js_number" where
  "sample_order a b = (if b < a then Finite 1 else if a < b then Finite (-1) else Finite 0)"

lemma sample_mapping_run:
  obtains report where "buildCnToHs12MappingReport sample_order sample_mapping_evidence = Inr report"
  using sample_mapping_accepted unfolding mapping_report_Inr_iff by blast

lemma sample_mapping_years: "distinct (map cd_cnEditionYear (me_editions sample_mapping_evidence))"
  by (simp add: sample_mapping_evidence_def sample_edition_def)

lemma sample_preimages:
  "preimage (sample_edition year) ''080440'' = [''08044000'', ''08045000'']"
  "list_all (maps_exactly_to (sample_edition year) ''080440'') [''08044000'', ''08045000'']"
  "preimage (sample_edition year) ''220421'' = [''22042100'']"
  "\<not> maps_exactly_to (sample_edition year) ''220421'' ''22042100''"
  by (simp_all add: preimage_def ordinary_codes_def links_def maps_exactly_to_def sample_edition_def sample_link_def)

theorem product_across_editions_witness:
  "\<exists>report. buildCnToHs12MappingReport sample_order sample_mapping_evidence = Inr report \<and>
     ae_status (evaluateHs12ProductMappingAcrossEditions report ''080440'' [2023, 2024]) = PRODUCT_EXACT_REVIEWED \<and>
     ae_status (evaluateHs12ProductMappingAcrossEditions report ''220421'' [2023, 2024]) = UNSUPPORTED_PRODUCT_MAPPING"
proof -
  obtain report where r: "buildCnToHs12MappingReport sample_order sample_mapping_evidence = Inr report"
    by (rule sample_mapping_run)
  have e: "set (me_editions sample_mapping_evidence) = {sample_edition 2023, sample_edition 2024}"
    "cd_cnEditionYear (sample_edition y) = y" for y by (simp_all add: sample_mapping_evidence_def sample_edition_def)
  note across = product_across_editions [OF r sample_mapping_years, THEN conjunct1]
  have "ae_status (evaluateHs12ProductMappingAcrossEditions report ''080440'' [2023, 2024]) = PRODUCT_EXACT_REVIEWED"
    unfolding across e using sample_preimages(1,2) by (simp add: e)
  moreover have "ae_status (evaluateHs12ProductMappingAcrossEditions report ''220421'' [2023, 2024]) \<noteq> PRODUCT_EXACT_REVIEWED"
    unfolding across e using sample_preimages(3,4) by (auto simp: e)
  ultimately show ?thesis using r product_status.exhaust by blast
qed

theorem accepted_code_of_one_product_witness:
  "\<exists>report p. buildCnToHs12MappingReport sample_order sample_mapping_evidence = Inr report \<and>
     {q \<in> set (mr_productMappings report). pm_cnEditionYear q = 2023 \<and> ''08044000'' \<in> set (pm_acceptedCn8Codes q)} = {p}"
proof -
  obtain report where r: "buildCnToHs12MappingReport sample_order sample_mapping_evidence = Inr report"
    by (rule sample_mapping_run)
  let ?p = "product_mapping_of (sample_edition 2023) (edition_rows sample_order (sample_edition 2023)) ''080440''"
  have "sample_edition 2023 \<in> set (me_editions sample_mapping_evidence)" by (simp add: sample_mapping_evidence_def)
  moreover have "preimage (sample_edition 2023) ''080440'' \<noteq> []" by (simp add: sample_preimages)
  ultimately have p: "?p \<in> set (mr_productMappings report)" unfolding report_products [OF r] by blast
  have "pm_cnEditionYear ?p = 2023" "''08044000'' \<in> set (pm_acceptedCn8Codes ?p)"
    unfolding product_mapping_facts sample_preimages
    using sample_preimages(2) [of 2023] by (simp_all add: sample_edition_def [of 2023, THEN arg_cong, of cd_cnEditionYear])
  with p have "{q \<in> set (mr_productMappings report). pm_cnEditionYear q = 2023 \<and> ''08044000'' \<in> set (pm_acceptedCn8Codes q)} = {?p}"
    using accepted_code_of_one_product [OF r sample_mapping_years _ p] by auto
  with r show ?thesis by blast
qed

lemma sample_touching:
  "{r \<in> set (cd_correspondences (sample_edition year)). cr_cn8Code r \<in> ce_cn8Code ` set (cd_cn8Codes (sample_edition year)) \<and>
      take 2 (cr_cn8Code r) \<notin> set SPECIAL_CHAPTERS} =
   {sample_link ''08044000'' ''080440'', sample_link ''08045000'' ''080440'', sample_link ''22042100'' ''220421'',
    sample_link ''22042100'' ''220429''}"
  unfolding set_filter [symmetric]
  by (simp add: sample_edition_def sample_link_def SPECIAL_CHAPTERS_def del: set_filter)

theorem eurostat_products_are_whole_witness:
  "\<exists>evidence report.
     buildEurostatCnToHs12MappingEvidence sample_sha256 [sample_eurostat 2024, sample_eurostat 2023] = Inr evidence \<and>
     buildCnToHs12MappingReport sample_order evidence = Inr report \<and>
     ae_status (evaluateHs12ProductMappingAcrossEditions report ''080440'' [2024]) = PRODUCT_EXACT_REVIEWED"
proof -
  obtain report where r: "buildCnToHs12MappingReport sample_order sample_mapping_evidence = Inr report"
    by (rule sample_mapping_run)
  have "distinct (map ei_cnEditionYear [sample_eurostat 2024, sample_eurostat 2023])" by (simp add: sample_eurostat_def)
  note whole = eurostat_products_are_whole [OF sample_evidence_built r this, of "''080440''" "[2024]"]
  have "ae_status (evaluateHs12ProductMappingAcrossEditions report ''080440'' [2024]) = PRODUCT_EXACT_REVIEWED"
    unfolding whole Let_def
    by (rule ballI, rule bexI [of _ "sample_edition 2024"], unfold sample_touching)
      (simp_all add: sample_mapping_evidence_def, simp add: sample_edition_def sample_link_def)
  with r sample_evidence_built show ?thesis by blast
qed

end
