(* ===== verification/Spec2Isabelle.thy ===== *)
theory Spec2Isabelle
  imports Trade_Trend Store_Coherence Account_Service Delivery_Worker Supplier_Competition Release_Revision Candidate_Percentiles
    Opportunity_Scores Cn_Mapping
begin

text \<open>
  HSTracker: the trade evidence recipes, the operational store and the account, search, watch and alert services.

  The program answers, for a product (an HS code) and a market, what the recorded trade says, and lets an account
  watch such a pair. Four layers of it are modelled here, each in the theories named, from the sources under
  \<^verbatim>\<open>src/\<close> named.

  \<^bold>\<open>Recipes.\<close> \<^theory_text>\<open>Fixed_Decimal\<close> (\<^verbatim>\<open>domain/fixed-decimal.ts\<close>) is the decimal arithmetic over unbounded integers;
  \<^theory_text>\<open>Trade_Trend\<close> with \<^theory_text>\<open>Evidence_Model\<close> (\<^verbatim>\<open>domain/trade-trend\<close>) the five-year series of a market with its summary and
  growth rate. \<^theory_text>\<open>Js_Number\<close> gives the binary64 numbers of JavaScript as rationals with rounding, and
  \<^theory_text>\<open>Momentum\<close> (\<^verbatim>\<open>domain/recent-trade-momentum/recent-trade-momentum-v1.ts\<close>) the monthly recipe on them. The lemmas show
  that the printed rates are the exact real rates rounded, that the recipes always return, and that a signal is given
  exactly on comparable windows. \<^theory_text>\<open>Cn_Mapping\<close> (\<^verbatim>\<open>cn-to-hs12-mapping.ts\<close> and \<^verbatim>\<open>eurostat-cn-hs12-evidence.ts\<close>
  beside it) decides which products the monthly source can observe: only those whose complete preimage of codes maps to
  them alone, so that no code counts for two products. \<^theory_text>\<open>Supplier_Competition\<close> (\<^verbatim>\<open>domain/supplier-competition\<close>) is the cohort of the
  suppliers of a market, on exact decimals, with \<^theory_text>\<open>Js_Sort\<close> for the sorting the recipes share; its shares are the exact
  ones rounded and do not depend on the order of the evidence. \<^theory_text>\<open>Js_Math\<close> adds the arithmetic of the language that
  the scores use, and \<^theory_text>\<open>Release_Revision\<close> (\<^verbatim>\<open>domain/release/release-revision.ts\<close>) compares the scores of two releases.
  \<^theory_text>\<open>Candidate_Market\<close> (\<^verbatim>\<open>domain/candidate-market/cms-v1.ts\<close>) is the Candidate Market Score on binary64 numbers, with
  the logarithm, the exponential and the square root a parameter; \<^theory_text>\<open>Candidate_Scores\<close> shows that its scores are whole
  numbers between 0 and 100 and what the ranks count, \<^theory_text>\<open>Candidate_Evidence\<close> which evidence it accepts and that the cohort
  is complete, \<^theory_text>\<open>Candidate_Percentiles\<close> that its percentiles are mid-ranks. \<^theory_text>\<open>Opportunity_Discovery\<close>
  (\<^verbatim>\<open>domain/opportunity-discovery/opportunity-discovery-v1.ts\<close>) scores every pair of a product and a market for an
  exporter; \<^theory_text>\<open>Opportunity_Scores\<close> shows which evidence it accepts, that its cohort is complete, the bounds of its scores
  and its canonical order. Both recipes rank ties through the locale of \<^theory_text>\<open>Tie_Ranking\<close>, interpreted on each.

  \<^bold>\<open>Store.\<close> \<^theory_text>\<open>Store_Model\<close>, \<^theory_text>\<open>Store_Tables\<close>, \<^theory_text>\<open>Store_Runs\<close> hold the rows, constraints and statements of
  \<^verbatim>\<open>operations/store/sqlite-operational-store.ts\<close>; \<^theory_text>\<open>Store_Accounts\<close>, \<^theory_text>\<open>Store_Consents\<close>, \<^theory_text>\<open>Store_Watches\<close> its
  operations. The database is a record of row lists; a statement either changes it or throws the engine's error, and a
  transaction restores it. The clock, the UUIDs, the random bytes and SHA-256 are sources of the world. \<^theory_text>\<open>Store_Steps\<close>
  puts the operations together as an inductive run and shows that a call that throws changes no row; \<^theory_text>\<open>Store_Coherence\<close>
  shows what the rows of every reachable store satisfy, the keys of the schema and the facts that only the code keeps. \<^theory_text>\<open>Iso_Time\<close> gives the timestamps, whose texts compare like their instants.

  \<^bold>\<open>Accounts and searches.\<close> \<^theory_text>\<open>Account_Service\<close> (\<^verbatim>\<open>operations/account/account-service.ts\<close>, with \<^theory_text>\<open>Base64\<close>) is sign-in with
  lockout, sessions, recovery and the portfolio over the modelled store; the key derivation is a parameter.
  \<^theory_text>\<open>Economy_Search\<close> (\<^verbatim>\<open>economy/economy-search.ts\<close>) and \<^theory_text>\<open>Product_Search\<close> (\<^verbatim>\<open>catalog/product-search.ts\<close> and its neighbours)
  are the ranked searches; the Unicode tables of \<^theory_text>\<open>Unicode_Text\<close> are a parameter. The account service uses the
  economy directory through the locale \<^theory_text>\<open>economy_lookup\<close>, interpreted on the modelled search.

  \<^bold>\<open>Watches and alerts.\<close> \<^theory_text>\<open>Watch_Decision\<close> (\<^verbatim>\<open>operations/watch/watch-alert-decision.ts\<close>) decides whether a result is worth an
  alert; \<^theory_text>\<open>Watch_Evaluator\<close> (\<^verbatim>\<open>watch-evaluator.ts\<close>) claims the due watches, evaluates each with the momentum source (a
  parameter), records the event and completes the lease; \<^theory_text>\<open>Alert_Message\<close> (\<^verbatim>\<open>operations/delivery/alert-message.ts\<close>) renders
  an event; \<^theory_text>\<open>Delivery_Worker\<close> (\<^verbatim>\<open>alert-delivery-worker.ts\<close>) hands messages to the provider (a parameter) and keeps a log
  of them. The lemmas show that a run ends and leaves no watch unclaimed, that only consenting addresses are written to,
  and that the attempts are bounded.

  \<^bold>\<open>Shape of the models.\<close> \<^theory_text>\<open>Prelude\<close> holds the operations: a function from the state to a thrown error or a value, and
  the state after. Computations without state that may throw are sums. \<^theory_text>\<open>Js_String\<close> holds the text functions of the
  language on Latin-1 code units.

  \<^bold>\<open>Fuel.\<close> The evaluation loop ends with one more round than there are watches (\<^theory_text>\<open>evaluation_run_ends\<close>), the retry loop
  with one more round than there are attempts left (\<^theory_text>\<open>delivery_attempts_are_bounded\<close>); the doubling and bisection loops
  of the growth rate are a \<^theory_text>\<open>partial_function\<close> and a \<^theory_text>\<open>function\<close> with a measure, and \<^theory_text>\<open>trend_always_returns\<close> shows that they end.

  \<^bold>\<open>Not modelled.\<close> Concurrency between processes: the store's operations are atomic steps, as SQLite's write lock makes
  them, and the services run them one after another. Opening, migrating and copying database files; HTTP handlers, pages
  and components; the DuckDB readers, whose work is the SQL the engine runs; release packaging and artifact readers; metrics
  and logs; the promotion, deployment and release scripts, which drive browsers, processes and clouds. The
  trade explorer is a further recipe that is not part of this development. The Chinese texts of the alerts are left out, as texts are Latin-1 here.
\<close>

end
